(* ===== verification/Prelude.thy ===== *)
theory Prelude
  imports Main
begin

text \<open>
  Shared vocabulary of the development: the part of the Python language and its standard library
  that several components use (time stamps, \<open>str.strip\<close>, \<open>str.lower\<close>, \<open>int()\<close>, decimal printing),
  and the generic lemmas about them.

  A Python string is a \<open>string\<close>; each \<open>char\<close> stands for one code point below 256.  Integers are
  unbounded in Python and are \<open>int\<close> here.  Clock readings are integers counted in microseconds
  (\<open>ticks\<close>); \<open>second\<close> converts the seconds of the source into ticks.
\<close>

named_theorems py_simps \<open>unfolding rules for the modelled standard library\<close>

section \<open>Time stamps\<close>

type_synonym ticks = int

abbreviation second :: ticks where
  "second \<equiv> 1000000"

text \<open>\<open>math.ceil(d)\<close> and \<open>int(d)\<close> of a duration that is counted in ticks, in whole seconds.\<close>

definition ceil_seconds :: "ticks \<Rightarrow> int" where
  "ceil_seconds d = - ((- d) div second)"

definition trunc_seconds :: "ticks \<Rightarrow> int" where
  "trunc_seconds d = (if 0 \<le> d then d div second else - ((- d) div second))"

lemma ceil_seconds_split:
  "\<exists>r. 0 \<le> r \<and> r < second \<and> second * ceil_seconds d = d + r"
proof (intro exI [of _ "(- d) mod second"] conjI)
  show "second * ceil_seconds d = d + (- d) mod second"
    using mult_div_mod_eq [of second "- d"] unfolding ceil_seconds_def by linarith
qed simp_all

lemma ceil_seconds_ge: "d \<le> second * ceil_seconds d"
  using ceil_seconds_split [of d] by force

lemma ceil_seconds_less: "second * ceil_seconds d < d + second"
  using ceil_seconds_split [of d] by force

lemma ceil_seconds_pos: "0 < d \<Longrightarrow> 1 \<le> ceil_seconds d"
  using ceil_seconds_ge [of d] by linarith

lemma ceil_seconds_mult [simp]: "ceil_seconds (second * n) = n"
  by (simp add: ceil_seconds_def flip: mult_minus_right)

lemma ceil_seconds_mono: "d \<le> e \<Longrightarrow> ceil_seconds d \<le> ceil_seconds e"
  by (simp add: ceil_seconds_def zdiv_mono1)

section \<open>Characters and strings\<close>

definition is_digit :: "char \<Rightarrow> bool" where
  "is_digit c \<longleftrightarrow> 48 \<le> (of_char c :: nat) \<and> (of_char c :: nat) \<le> 57"

definition digit_value :: "char \<Rightarrow> int" where
  "digit_value c = int (of_char c) - 48"

definition digit_char :: "nat \<Rightarrow> char" where
  "digit_char n = char_of (48 + n)"

definition is_space :: "char \<Rightarrow> bool" where
  "is_space c \<longleftrightarrow>
     (let n = (of_char c :: nat) in (9 \<le> n \<and> n \<le> 13) \<or> (28 \<le> n \<and> n \<le> 32) \<or> n = 133 \<or> n = 160)"

definition lower_char :: "char \<Rightarrow> char" where
  "lower_char c =
     (let n = (of_char c :: nat)
      in if (65 \<le> n \<and> n \<le> 90) \<or> (192 \<le> n \<and> n \<le> 222 \<and> n \<noteq> 215) then char_of (n + 32) else c)"

definition py_lower :: "string \<Rightarrow> string" where
  "py_lower = map lower_char"

definition py_strip :: "string \<Rightarrow> string" where
  "py_strip s = rev (dropWhile is_space (rev (dropWhile is_space s)))"

text \<open>\<open>(text or "").strip().lower() or fallback\<close>, the normalisation several services start with.\<close>

definition or_default :: "string \<Rightarrow> string \<Rightarrow> string" where
  "or_default s d = (if s = [] then d else s)"

text \<open>\<open>list(dict.fromkeys(xs))\<close>: the first occurrences, in their order.\<close>

definition unique_keys :: "'a list \<Rightarrow> 'a list" where
  "unique_keys xs = rev (remdups (rev xs))"

lemma set_unique_keys [simp]: "set (unique_keys xs) = set xs"
  by (simp add: unique_keys_def)

lemma distinct_unique_keys [simp]: "distinct (unique_keys xs)"
  by (simp add: unique_keys_def)

definition startswith :: "string \<Rightarrow> string \<Rightarrow> bool" where
  "startswith s p \<longleftrightarrow> take (length p) s = p"

definition endswith :: "string \<Rightarrow> string \<Rightarrow> bool" where
  "endswith s p \<longleftrightarrow> startswith (rev s) (rev p)"

lemma startswith_append [simp]: "startswith (p @ s) p"
  by (simp add: startswith_def)

lemma endswith_append [simp]: "endswith (s @ p) p"
  by (simp add: endswith_def)

lemma startswith_iff: "startswith s p \<longleftrightarrow> (\<exists>r. s = p @ r)"
  unfolding startswith_def by (metis append_eq_conv_conj append_take_drop_id)

lemma endswith_iff: "endswith s p \<longleftrightarrow> (\<exists>r. s = r @ p)"
  unfolding endswith_def startswith_iff by (metis rev_append rev_rev_ident)

lemma is_digit_digit_char [simp]: "n < 10 \<Longrightarrow> is_digit (digit_char n)"
  by (simp add: is_digit_def digit_char_def)

lemma digit_value_digit_char [simp]: "n < 10 \<Longrightarrow> digit_value (digit_char n) = int n"
  by (simp add: digit_value_def digit_char_def)

lemma digit_not_space: "is_digit c \<Longrightarrow> \<not> is_space c"
  by (auto simp: is_digit_def is_space_def Let_def)

lemma dropWhile_hd: "\<not> P (hd xs) \<Longrightarrow> dropWhile P xs = xs"
  by (cases xs) auto

lemma py_strip_nonspace:
  "\<not> is_space (hd s) \<Longrightarrow> \<not> is_space (last s) \<Longrightarrow> py_strip s = s"
  by (simp add: py_strip_def dropWhile_hd hd_rev)

lemma py_strip_Nil [simp]: "py_strip [] = []"
  by (simp add: py_strip_def)

lemma py_strip_idem [simp]: "py_strip (py_strip s) = py_strip s"
proof (cases "py_strip s = []")
  case True
  then show ?thesis by (simp only: py_strip_Nil)
next
  case False
  let ?u = "dropWhile is_space s"
  let ?v = "dropWhile is_space (rev ?u)"
  from False have v: "?v \<noteq> []" by (simp add: py_strip_def)
  obtain p where p: "rev ?u = p @ ?v"
    by (metis takeWhile_dropWhile_id)
  have u: "?u = rev ?v @ rev p"
    using arg_cong [OF p, of rev] by simp
  with v have "hd ?u = hd (rev ?v)" "?u \<noteq> []"
    by (metis hd_append2 rev_is_Nil_conv) (metis Nil_is_append_conv rev_is_Nil_conv u v)
  then have hd: "\<not> is_space (hd (rev ?v))"
    using hd_dropWhile [of is_space s] by metis
  have "\<not> is_space (hd ?v)" using hd_dropWhile [OF v] .
  then have "\<not> is_space (last (rev ?v))" by (simp add: last_rev)
  with hd show ?thesis unfolding py_strip_def [of s] by (rule py_strip_nonspace)
qed

section \<open>Decimal notation\<close>

fun show_nat :: "nat \<Rightarrow> string" where
  "show_nat n = (if n < 10 then [digit_char n] else show_nat (n div 10) @ [digit_char (n mod 10)])"

declare show_nat.simps [simp del]

definition show_int :: "int \<Rightarrow> string" where
  "show_int i = (if i < 0 then CHR ''-'' # show_nat (nat (- i)) else show_nat (nat i))"

text \<open>The digits of a number, without sign, space or separator.\<close>

fun dec_digits :: "int \<Rightarrow> string \<Rightarrow> int option" where
  "dec_digits acc [] = Some acc"
| "dec_digits acc (c # cs) =
     (if is_digit c then dec_digits (10 * acc + digit_value c) cs else None)"

definition dec_int :: "string \<Rightarrow> int option" where
  "dec_int s =
     (case s of
        [] \<Rightarrow> None
      | c # cs \<Rightarrow>
          if c = CHR ''-'' then (if cs = [] then None else map_option uminus (dec_digits 0 cs))
          else dec_digits 0 s)"

lemma dec_digits_append:
  "dec_digits acc (s @ t) = (case dec_digits acc s of None \<Rightarrow> None | Some a \<Rightarrow> dec_digits a t)"
  by (induction s arbitrary: acc) auto

lemma show_nat_digits: "list_all is_digit (show_nat n)"
  by (induction n rule: show_nat.induct) (subst show_nat.simps, simp)

lemma show_nat_nonempty [simp]: "show_nat n \<noteq> []"
  by (subst show_nat.simps) simp

lemma dec_digits_show_nat: "dec_digits 0 (show_nat n) = Some (int n)"
proof (induction n rule: show_nat.induct)
  case (1 n)
  show ?case
  proof (cases "n < 10")
    case True
    then show ?thesis by (subst show_nat.simps) simp
  next
    case False
    with "1.IH" have "dec_digits 0 (show_nat (n div 10)) = Some (int (n div 10))" by simp
    with False show ?thesis
      by (subst show_nat.simps) (simp add: dec_digits_append, presburger)
  qed
qed

lemma show_nat_hd: "is_digit (hd (show_nat n))"
  using show_nat_digits [of n] by (cases "show_nat n") auto

lemma minus_not_digit [simp]: "\<not> is_digit CHR ''-''"
  by (simp add: is_digit_def)

lemma dec_int_show_int [simp]: "dec_int (show_int i) = Some i"
proof (cases "i < 0")
  case True
  then show ?thesis by (simp add: show_int_def dec_int_def dec_digits_show_nat)
next
  case False
  have "hd (show_nat (nat i)) \<noteq> CHR ''-''"
    using show_nat_hd [of "nat i"] by auto
  with False show ?thesis
    using dec_digits_show_nat [of "nat i"]
    by (auto simp: show_int_def dec_int_def split: list.split)
qed

lemma show_int_inject [simp]: "show_int i = show_int j \<longleftrightarrow> i = j"
  by (metis dec_int_show_int option.inject)

section \<open>The constructor \<open>int(text)\<close>\<close>

text \<open>
  \<open>int()\<close> of a string strips white space, reads an optional sign and a non-empty run of digits in
  which single underscores may separate digits, and raises \<open>ValueError\<close> (here \<open>None\<close>) otherwise, also
  when there are more than 4300 digits.  The first argument of \<open>int_digits\<close> tells whether the previous
  character was a digit.
\<close>

fun int_digits :: "bool \<Rightarrow> int \<Rightarrow> string \<Rightarrow> int option" where
  "int_digits prev acc [] = (if prev then Some acc else None)"
| "int_digits prev acc (c # cs) =
     (if is_digit c then int_digits True (10 * acc + digit_value c) cs
      else if c = CHR ''_'' \<and> prev then int_digits False acc cs
      else None)"

definition int_body :: "string \<Rightarrow> int option" where
  "int_body s = (if 4300 < length (filter is_digit s) then None else int_digits False 0 s)"

definition py_int :: "string \<Rightarrow> int option" where
  "py_int raw =
     (case py_strip raw of
        [] \<Rightarrow> None
      | c # cs \<Rightarrow>
          if c = CHR ''-'' then map_option uminus (int_body cs)
          else if c = CHR ''+'' then int_body cs
          else int_body (c # cs))"

lemma int_digits_plain:
  "list_all is_digit s \<Longrightarrow> s \<noteq> [] \<or> prev \<Longrightarrow> int_digits prev acc s = dec_digits acc s"
  by (induction s arbitrary: acc prev) auto

lemma plus_not_digit [simp]: "\<not> is_digit CHR ''+''"
  by (simp add: is_digit_def)

lemma filter_show_nat [simp]: "filter is_digit (show_nat n) = show_nat n"
  using show_nat_digits [of n] by (simp add: list_all_iff)

lemma int_body_show_nat:
  "length (show_nat n) \<le> 4300 \<Longrightarrow> int_body (show_nat n) = Some (int n)"
  by (simp add: int_body_def int_digits_plain [OF show_nat_digits] dec_digits_show_nat)

lemma py_int_strip [simp]: "py_int (py_strip s) = py_int s"
  by (simp add: py_int_def)

lemma show_nat_last: "is_digit (last (show_nat n))"
  using show_nat_digits [of n] last_in_set [OF show_nat_nonempty, of n] by (simp add: list_all_iff)

lemma py_int_show_int:
  assumes "length (show_int i) \<le> 4300"
  shows "py_int (show_int i) = Some i"
proof (cases "i < 0")
  case True
  have "\<not> is_space (last (show_int i))"
    using show_nat_last [of "nat (- i)"] True by (auto simp: show_int_def dest: digit_not_space)
  then have "py_strip (show_int i) = show_int i"
    using True by (intro py_strip_nonspace) (simp_all add: show_int_def is_space_def)
  then show ?thesis
    using True assms by (simp add: py_int_def show_int_def int_body_show_nat)
next
  case False
  then have eq: "show_int i = show_nat (nat i)" by (simp add: show_int_def)
  have strip: "py_strip (show_nat (nat i)) = show_nat (nat i)"
    by (intro py_strip_nonspace digit_not_space show_nat_hd show_nat_last)
  obtain c cs where c: "show_nat (nat i) = c # cs" by (cases "show_nat (nat i)") auto
  then have "is_digit c" using show_nat_hd [of "nat i"] by simp
  then have "c \<noteq> CHR ''-''" "c \<noteq> CHR ''+''" by auto
  then show ?thesis
    using False assms int_body_show_nat [of "nat i"] strip by (simp add: py_int_def eq c)
qed

end
