(* ===== verification/Redis_Server.thy ===== *)
theory Redis_Server
  imports Prelude
begin

text \<open>
  The interface to Redis, which is not part of the repository.  A definition that talks to Redis
  takes the server's commands as an argument (a \<open>redis_cmds\<close> record over an arbitrary server state
  \<open>'s\<close>).  What the code relies on is the locale \<open>redis_server\<close>: seen through an abstraction function
  \<open>view\<close>, every command acts on the documented keyspace (\<open>keyspace\<close>: a map from keys to string or list
  values with a remaining lifetime, and the log of published messages) the way the \<open>ks_\<close> functions
  say.  Programs built from commands inherit the simulation (\<open>sim\<close> lemmas), so a fact proved about
  the keyspace holds for every such server.

  A client call may also fail: the connection can break before the command reaches the server or
  after it ran (\<open>fault\<close>, \<open>redis_call\<close>); the Python client then raises and the caller sees no reply.
\<close>

section \<open>Keyspace\<close>

datatype rval = RString string | RList "string list"

datatype redis_exn = ConnectionError | ResponseError

type_synonym rentry = "rval \<times> ticks option"

record keyspace =
  ks_data :: "string \<Rightarrow> rentry option"
  ks_pub :: "(string \<times> string) list"

abbreviation put_key :: "string \<Rightarrow> rentry \<Rightarrow> keyspace \<Rightarrow> keyspace" where
  "put_key k e s \<equiv> s\<lparr>ks_data := (ks_data s)(k \<mapsto> e)\<rparr>"

abbreviation drop_key :: "string \<Rightarrow> keyspace \<Rightarrow> keyspace" where
  "drop_key k s \<equiv> s\<lparr>ks_data := (ks_data s)(k := None)\<rparr>"

definition empty_keyspace :: keyspace where
  "empty_keyspace = \<lparr>ks_data = (\<lambda>_. None), ks_pub = []\<rparr>"

type_synonym ('s, 'a) rcmd = "'s \<Rightarrow> (redis_exn + 'a) \<times> 's"

section \<open>Commands over the keyspace\<close>

fun ks_get :: "string \<Rightarrow> (keyspace, string option) rcmd" where
  "ks_get k s =
     (case ks_data s k of
        None \<Rightarrow> (Inr None, s)
      | Some (RString v, _) \<Rightarrow> (Inr (Some v), s)
      | Some (RList _, _) \<Rightarrow> (Inl ResponseError, s))"

fun bad_expiry :: "int option \<Rightarrow> bool" where
  "bad_expiry None = False"
| "bad_expiry (Some t) = (t \<le> 0)"

definition lifetime :: "int option \<Rightarrow> ticks option" where
  "lifetime ex = map_option (\<lambda>t. second * t) ex"

text \<open>\<open>SET key value [EX seconds] [NX]\<close>; with \<open>NX\<close> an existing key is left alone and the reply is nil.\<close>

fun ks_set :: "string \<Rightarrow> string \<Rightarrow> int option \<Rightarrow> bool \<Rightarrow> (keyspace, bool) rcmd" where
  "ks_set k v ex nx s =
     (if bad_expiry ex then (Inl ResponseError, s)
      else if nx \<and> ks_data s k \<noteq> None then (Inr False, s)
      else (Inr True, put_key k (RString v, lifetime ex) s))"

fun ks_del :: "string \<Rightarrow> (keyspace, bool) rcmd" where
  "ks_del k s = (Inr (ks_data s k \<noteq> None), drop_key k s)"

fun ks_exists :: "string \<Rightarrow> (keyspace, bool) rcmd" where
  "ks_exists k s = (Inr (ks_data s k \<noteq> None), s)"

fun ks_expire :: "string \<Rightarrow> int \<Rightarrow> (keyspace, bool) rcmd" where
  "ks_expire k t s =
     (case ks_data s k of
        None \<Rightarrow> (Inr False, s)
      | Some (v, _) \<Rightarrow>
          (Inr True, if t \<le> 0 then drop_key k s else put_key k (v, Some (second * t)) s))"

text \<open>\<open>TTL\<close> answers -2 for a missing key, -1 for a key without expiry, else seconds (rounded).\<close>

fun ks_ttl :: "string \<Rightarrow> (keyspace, int) rcmd" where
  "ks_ttl k s =
     (Inr (case ks_data s k of
             None \<Rightarrow> -2
           | Some (_, None) \<Rightarrow> -1
           | Some (_, Some r) \<Rightarrow> (r + 500000) div second), s)"

fun ks_incr :: "string \<Rightarrow> (keyspace, int) rcmd" where
  "ks_incr k s =
     (case ks_data s k of
        None \<Rightarrow> (Inr 1, put_key k (RString (show_int 1), None) s)
      | Some (RList _, _) \<Rightarrow> (Inl ResponseError, s)
      | Some (RString v, e) \<Rightarrow>
          (case dec_int v of
             None \<Rightarrow> (Inl ResponseError, s)
           | Some n \<Rightarrow>
               if n + 1 < 2 ^ 63 then (Inr (n + 1), put_key k (RString (show_int (n + 1)), e) s)
               else (Inl ResponseError, s)))"

fun ks_rpush :: "string \<Rightarrow> string \<Rightarrow> (keyspace, int) rcmd" where
  "ks_rpush k v s =
     (case ks_data s k of
        None \<Rightarrow> (Inr 1, put_key k (RList [v], None) s)
      | Some (RString _, _) \<Rightarrow> (Inl ResponseError, s)
      | Some (RList l, e) \<Rightarrow> (Inr (int (length l) + 1), put_key k (RList (l @ [v]), e) s))"

text \<open>\<open>LRANGE key 0 -1\<close>.\<close>

fun ks_lrange :: "string \<Rightarrow> (keyspace, string list) rcmd" where
  "ks_lrange k s =
     (case ks_data s k of
        None \<Rightarrow> (Inr [], s)
      | Some (RString _, _) \<Rightarrow> (Inl ResponseError, s)
      | Some (RList l, _) \<Rightarrow> (Inr l, s))"

fun ks_publish :: "string \<Rightarrow> string \<Rightarrow> (keyspace, unit) rcmd" where
  "ks_publish ch msg s = (Inr (), s\<lparr>ks_pub := ks_pub s @ [(ch, msg)]\<rparr>)"

text \<open>Time passing on the server: lifetimes shrink and used-up keys disappear.\<close>

fun age_entry :: "ticks \<Rightarrow> rentry \<Rightarrow> rentry option" where
  "age_entry d (v, None) = Some (v, None)"
| "age_entry d (v, Some r) = (if r \<le> d then None else Some (v, Some (r - d)))"

definition ks_elapse :: "ticks \<Rightarrow> keyspace \<Rightarrow> keyspace" where
  "ks_elapse d s = s\<lparr>ks_data := (\<lambda>k. Option.bind (ks_data s k) (age_entry d))\<rparr>"

section \<open>The server interface\<close>

record 's redis_cmds =
  rc_get :: "string \<Rightarrow> ('s, string option) rcmd"
  rc_set :: "string \<Rightarrow> string \<Rightarrow> int option \<Rightarrow> bool \<Rightarrow> ('s, bool) rcmd"
  rc_del :: "string \<Rightarrow> ('s, bool) rcmd"
  rc_exists :: "string \<Rightarrow> ('s, bool) rcmd"
  rc_expire :: "string \<Rightarrow> int \<Rightarrow> ('s, bool) rcmd"
  rc_ttl :: "string \<Rightarrow> ('s, int) rcmd"
  rc_incr :: "string \<Rightarrow> ('s, int) rcmd"
  rc_rpush :: "string \<Rightarrow> string \<Rightarrow> ('s, int) rcmd"
  rc_lrange :: "string \<Rightarrow> ('s, string list) rcmd"
  rc_publish :: "string \<Rightarrow> string \<Rightarrow> ('s, unit) rcmd"

definition ks_cmds :: "keyspace redis_cmds" where
  "ks_cmds =
     \<lparr>rc_get = ks_get, rc_set = ks_set, rc_del = ks_del, rc_exists = ks_exists,
      rc_expire = ks_expire, rc_ttl = ks_ttl, rc_incr = ks_incr, rc_rpush = ks_rpush,
      rc_lrange = ks_lrange, rc_publish = ks_publish\<rparr>"

lemma ks_cmds_sel [simp]:
  "rc_get ks_cmds = ks_get" "rc_set ks_cmds = ks_set" "rc_del ks_cmds = ks_del"
  "rc_exists ks_cmds = ks_exists" "rc_expire ks_cmds = ks_expire" "rc_ttl ks_cmds = ks_ttl"
  "rc_incr ks_cmds = ks_incr" "rc_rpush ks_cmds = ks_rpush" "rc_lrange ks_cmds = ks_lrange"
  "rc_publish ks_cmds = ks_publish"
  by (simp_all add: ks_cmds_def)

section \<open>Programs over commands\<close>

definition rret :: "'a \<Rightarrow> ('s, 'a) rcmd" where
  "rret a s = (Inr a, s)"

definition rfail :: "('s, 'a) rcmd" where
  "rfail s = (Inl ResponseError, s)"

definition rbind :: "('s, 'a) rcmd \<Rightarrow> ('a \<Rightarrow> ('s, 'b) rcmd) \<Rightarrow> ('s, 'b) rcmd" where
  "rbind m f s = (case m s of (Inl e, s') \<Rightarrow> (Inl e, s') | (Inr a, s') \<Rightarrow> f a s')"

text \<open>\<open>try: ... except Exception: ...\<close> around a client call: the handler sees the reply or the exception.\<close>

definition rtry :: "('s, 'a) rcmd \<Rightarrow> (redis_exn + 'a \<Rightarrow> 's \<Rightarrow> 'b \<times> 's) \<Rightarrow> 's \<Rightarrow> 'b \<times> 's" where
  "rtry m h s = (case m s of (r, s') \<Rightarrow> h r s')"

datatype fault = Delivered | NotSent | ReplyLost

fun redis_call :: "fault \<Rightarrow> ('s, 'a) rcmd \<Rightarrow> ('s, 'a) rcmd" where
  "redis_call Delivered m s = m s"
| "redis_call NotSent m s = (Inl ConnectionError, s)"
| "redis_call ReplyLost m s = (Inl ConnectionError, snd (m s))"

section \<open>Simulation\<close>

text \<open>
  \<open>sim view m m'\<close>: program \<open>m\<close> on the server answers what \<open>m'\<close> answers on the keyspace seen through
  \<open>view\<close>, and leaves a server whose view is the keyspace \<open>m'\<close> leaves.
\<close>

definition sim :: "('s \<Rightarrow> 't) \<Rightarrow> ('s \<Rightarrow> 'b \<times> 's) \<Rightarrow> ('t \<Rightarrow> 'b \<times> 't) \<Rightarrow> bool" where
  "sim view m m' \<longleftrightarrow> (\<forall>s. apsnd view (m s) = m' (view s))"

named_theorems sim_intros \<open>simulation rules for the program combinators\<close>

lemma simI: "(\<And>s. apsnd view (m s) = m' (view s)) \<Longrightarrow> sim view m m'"
  by (simp add: sim_def)

lemma simD: "sim view m m' \<Longrightarrow> apsnd view (m s) = m' (view s)"
  by (simp add: sim_def)

lemma sim_step: "sim view m m' \<Longrightarrow> m s = (r, s') \<Longrightarrow> m' (view s) = (r, view s')"
  using simD [of view m m' s] by simp

lemma sim_rret [sim_intros]: "sim view (rret a) (rret a)"
  by (simp add: sim_def rret_def)

lemma sim_pair [sim_intros]: "sim view (Pair a) (Pair a)"
  by (simp add: sim_def)

lemma sim_lambda_pair [sim_intros]: "sim view (\<lambda>s. (a, s)) (\<lambda>s. (a, s))"
  by (simp add: sim_def)

lemma sim_rfail [sim_intros]: "sim view rfail rfail"
  by (simp add: sim_def rfail_def)

lemma sim_rbind [sim_intros]:
  assumes "sim view m m'" and "\<And>a. sim view (f a) (f' a)"
  shows "sim view (rbind m f) (rbind m' f')"
proof (rule simI)
  fix s
  obtain r t where m: "m s = (r, t)" by fastforce
  with sim_step [OF assms(1)] have "m' (view s) = (r, view t)" by blast
  then show "apsnd view (rbind m f s) = rbind m' f' (view s)"
    using m simD [OF assms(2)] by (simp add: rbind_def split: sum.split)
qed

lemma sim_rtry [sim_intros]:
  assumes "sim view m m'" and "\<And>r. sim view (h r) (h' r)"
  shows "sim view (rtry m h) (rtry m' h')"
proof (rule simI)
  fix s
  obtain r t where m: "m s = (r, t)" by fastforce
  with sim_step [OF assms(1)] have "m' (view s) = (r, view t)" by blast
  then show "apsnd view (rtry m h s) = rtry m' h' (view s)"
    using m simD [OF assms(2)] by (simp add: rtry_def)
qed

lemma sim_call [sim_intros]:
  assumes "sim view m m'"
  shows "sim view (redis_call f m) (redis_call f m')"
proof (rule simI)
  fix s
  obtain r t where m: "m s = (r, t)" by fastforce
  with sim_step [OF assms] have "m' (view s) = (r, view t)" by blast
  with m show "apsnd view (redis_call f m s) = redis_call f m' (view s)"
    by (cases f) simp_all
qed

lemma sim_if [sim_intros]:
  "sim view m m' \<Longrightarrow> sim view n n' \<Longrightarrow> sim view (if b then m else n) (if b then m' else n')"
  by simp

lemma sim_if_state [sim_intros]:
  "sim view m m' \<Longrightarrow> sim view n n' \<Longrightarrow>
   sim view (\<lambda>s. if b then m s else n s) (\<lambda>s. if b then m' s else n' s)"
  by (cases b) simp_all

lemma sim_case_option [sim_intros]:
  "sim view m m' \<Longrightarrow> (\<And>a. sim view (f a) (f' a)) \<Longrightarrow>
   sim view (case x of None \<Rightarrow> m | Some a \<Rightarrow> f a) (case x of None \<Rightarrow> m' | Some a \<Rightarrow> f' a)"
  by (cases x) simp_all

lemma sim_case_sum [sim_intros]:
  "(\<And>e. sim view (g e) (g' e)) \<Longrightarrow> (\<And>a. sim view (f a) (f' a)) \<Longrightarrow>
   sim view (case x of Inl e \<Rightarrow> g e | Inr a \<Rightarrow> f a) (case x of Inl e \<Rightarrow> g' e | Inr a \<Rightarrow> f' a)"
  by (cases x) simp_all

text \<open>What the code relies on of a Redis server; \<open>elapse\<close> lets its clock run.\<close>

locale redis_server =
  fixes R :: "'s redis_cmds" and view :: "'s \<Rightarrow> keyspace" and elapse :: "ticks \<Rightarrow> 's \<Rightarrow> 's"
  assumes view_elapse: "view (elapse d s) = ks_elapse d (view s)"
    and sim_get: "sim view (rc_get R k) (ks_get k)"
    and sim_set: "sim view (rc_set R k v ex nx) (ks_set k v ex nx)"
    and sim_del: "sim view (rc_del R k) (ks_del k)"
    and sim_exists: "sim view (rc_exists R k) (ks_exists k)"
    and sim_expire: "sim view (rc_expire R k t) (ks_expire k t)"
    and sim_ttl: "sim view (rc_ttl R k) (ks_ttl k)"
    and sim_incr: "sim view (rc_incr R k) (ks_incr k)"
    and sim_rpush: "sim view (rc_rpush R k v) (ks_rpush k v)"
    and sim_lrange: "sim view (rc_lrange R k) (ks_lrange k)"
    and sim_publish: "sim view (rc_publish R ch msg) (ks_publish ch msg)"
begin

lemmas sim_cmds =
  sim_get sim_set sim_del sim_exists sim_expire sim_ttl sim_incr sim_rpush sim_lrange sim_publish

end

text \<open>The keyspace itself is such a server; the witnesses of the development run on it.\<close>

lemma sim_id: "sim id m m"
  by (simp add: sim_def)

interpretation reference_server: redis_server ks_cmds id ks_elapse
  by unfold_locales (simp_all add: sim_id)

section \<open>Facts about the keyspace\<close>

lemma put_key_same [simp]: "ks_data (put_key k e s) k = Some e"
  by simp

lemma ks_elapse_data [simp]: "ks_data (ks_elapse d s) k = Option.bind (ks_data s k) (age_entry d)"
  by (simp add: ks_elapse_def)

lemma ks_elapse_pub [simp]: "ks_pub (ks_elapse d s) = ks_pub s"
  by (simp add: ks_elapse_def)

lemma age_entry_add:
  "0 \<le> d \<Longrightarrow> 0 \<le> d' \<Longrightarrow> Option.bind (age_entry d e) (age_entry d') = age_entry (d + d') e"
  by (cases e; cases "snd e") auto

lemma ks_elapse_add:
  "0 \<le> d \<Longrightarrow> 0 \<le> d' \<Longrightarrow> ks_elapse d' (ks_elapse d s) = ks_elapse (d + d') s"
  by (simp add: ks_elapse_def fun_eq_iff bind_assoc age_entry_add)

lemma ks_set_nx_None:
  assumes "ks_data s k = None"
  shows "ks_set k v ex nx s = ks_set k v ex False s"
  using assms by simp

section \<open>Counters\<close>

text \<open>String keys that hold a number, as the counting scripts use them.\<close>

fun entry_count :: "rentry option \<Rightarrow> int" where
  "entry_count (Some (RString v, _)) = (case dec_int v of None \<Rightarrow> 0 | Some n \<Rightarrow> n)"
| "entry_count _ = 0"

text \<open>A counter the script can work with and that lives at least until \<open>E\<close> (seen at time \<open>clock\<close>).\<close>

fun entry_open :: "ticks \<Rightarrow> ticks \<Rightarrow> rentry option \<Rightarrow> bool" where
  "entry_open E clock None = True"
| "entry_open E clock (Some (RString v, Some r)) =
     ((case dec_int v of None \<Rightarrow> False | Some n \<Rightarrow> 0 \<le> n) \<and> E \<le> clock + r)"
| "entry_open E clock (Some (RString v, None)) = False"
| "entry_open E clock (Some (RList _, _)) = False"

lemma entry_open_elapse:
  assumes "entry_open E clock e" and "t < E"
  shows "entry_open E t (Option.bind e (age_entry (t - clock)))"
    and "entry_count (Option.bind e (age_entry (t - clock))) = entry_count e"
  using assms by (cases "(E, clock, e)" rule: entry_open.cases; force)+

lemma entry_count_nonneg: "entry_open E clock e \<Longrightarrow> 0 \<le> entry_count e"
  by (cases "(E, clock, e)" rule: entry_open.cases) (auto split: option.splits)

text \<open>A counter that has no lifetime.\<close>

fun entry_endless :: "rentry option \<Rightarrow> bool" where
  "entry_endless (Some (RString v, None)) = (case dec_int v of None \<Rightarrow> False | Some n \<Rightarrow> 0 < n)"
| "entry_endless _ = False"

lemma entry_endless_elapse:
  "entry_endless e \<Longrightarrow> Option.bind e (age_entry d) = e"
  by (cases e rule: entry_endless.cases) auto

end
