(* ===== verification/Env_Settings.thy ===== *)
theory Env_Settings
  imports Prelude
begin

text \<open>
  \<open>services/env_settings.py\<close>: reading and coercing environment variables.  The process environment is
  a partial map from names to texts; logging has no effect on the result and is left out.
  \<open>env_float\<close> is not modelled (binary floating point).
\<close>

type_synonym environ = "string \<Rightarrow> string option"

definition TRUE_VALUES :: "string set" where
  "TRUE_VALUES = {''1'', ''true'', ''yes'', ''on''}"

definition env_text :: "environ \<Rightarrow> string \<Rightarrow> string option \<Rightarrow> string option" where
  "env_text env name dflt =
     (case env name of None \<Rightarrow> dflt | Some v \<Rightarrow> if v = [] then dflt else Some v)"

definition env_bool :: "environ \<Rightarrow> string \<Rightarrow> bool \<Rightarrow> bool" where
  "env_bool env name dflt =
     (case env_text env name None of
        None \<Rightarrow> dflt
      | Some raw \<Rightarrow> py_lower (py_strip raw) \<in> TRUE_VALUES)"

definition env_int :: "environ \<Rightarrow> string \<Rightarrow> int \<Rightarrow> int option \<Rightarrow> int" where
  "env_int env name dflt minimum =
     (case env_text env name None of
        None \<Rightarrow> dflt
      | Some raw \<Rightarrow>
          (case py_int (py_strip raw) of
             None \<Rightarrow> dflt
           | Some value \<Rightarrow>
               (case minimum of
                  Some m \<Rightarrow> if value < m then dflt else value
                | None \<Rightarrow> value)))"

definition env_int_in_range :: "environ \<Rightarrow> string \<Rightarrow> int \<Rightarrow> int \<Rightarrow> int option \<Rightarrow> int" where
  "env_int_in_range env name dflt minimum maximum =
     (case env_text env name None of
        None \<Rightarrow> dflt
      | Some raw \<Rightarrow>
          (case py_int (py_strip raw) of
             None \<Rightarrow> dflt
           | Some value \<Rightarrow>
               (let clamped = max value minimum
                in case maximum of Some m \<Rightarrow> min clamped m | None \<Rightarrow> clamped)))"

text \<open>Whatever the environment holds, a clamped setting stays within its bounds.\<close>

lemma env_int_in_range_bounds:
  assumes "minimum \<le> dflt" and "\<And>m. maximum = Some m \<Longrightarrow> minimum \<le> m \<and> dflt \<le> m"
  shows "minimum \<le> env_int_in_range env name dflt minimum maximum"
    and "maximum = Some m \<Longrightarrow> env_int_in_range env name dflt minimum maximum \<le> m"
  using assms
  by (auto simp: env_int_in_range_def Let_def split: option.splits)

lemma env_int_minimum:
  "m \<le> dflt \<Longrightarrow> m \<le> env_int env name dflt (Some m)"
  by (auto simp: env_int_def split: option.splits)

text \<open>A setting written in plain decimal is read back as that number, clamped.\<close>

lemma env_int_in_range_decimal:
  assumes "env name = Some (show_int i)" and "length (show_int i) \<le> 4300"
  shows "env_int_in_range env name dflt minimum None = max i minimum"
proof -
  have "show_int i \<noteq> []" by (simp add: show_int_def)
  with assms show ?thesis
    by (simp add: env_int_in_range_def env_text_def py_int_show_int)
qed

end
