(* ===== verification/Client_Address.thy ===== *)
theory Client_Address
  imports Env_Settings
begin

text \<open>
  The client address part of \<open>services/auth_limits.py\<close>: which IP a request is counted against.
  The address library (Python's \<open>ipaddress\<close>: parsing addresses and networks, membership, printing)
  is the argument \<open>L\<close>; the trust decision and the header walk are the repository's own.
\<close>

record ('ip, 'net) ip_lib =
  il_address :: "string \<Rightarrow> 'ip option"
  il_network :: "string \<Rightarrow> 'net option"
  il_in :: "'ip \<Rightarrow> 'net \<Rightarrow> bool"
  il_str :: "'ip \<Rightarrow> string"

text \<open>The fields of a request the code reads: the peer's host and two headers.\<close>

record request =
  req_client_host :: "string option"
  req_x_forwarded_for :: "string option"
  req_x_real_ip :: "string option"

fun py_split :: "char \<Rightarrow> string \<Rightarrow> string list" where
  "py_split d [] = [[]]"
| "py_split d (c # cs) =
     (if c = d then [] # py_split d cs
      else case py_split d cs of [] \<Rightarrow> [[c]] | p # ps \<Rightarrow> (c # p) # ps)"

definition unwrap_address :: "string \<Rightarrow> string" where
  "unwrap_address value =
     (if value \<noteq> [] \<and> hd value = CHR ''['' \<and> CHR '']'' \<in> set value
      then takeWhile (\<lambda>c. c \<noteq> CHR '']'') (tl value)
      else if count_list value (CHR '':'') = 1 \<and> CHR ''.'' \<in> set value
      then takeWhile (\<lambda>c. c \<noteq> CHR '':'') value
      else value)"

definition parse_ip_address :: "('ip, 'net) ip_lib \<Rightarrow> string option \<Rightarrow> 'ip option" where
  "parse_ip_address L raw_value =
     (case raw_value of
        None \<Rightarrow> None
      | Some raw \<Rightarrow>
          (let value = py_strip raw
           in if value = [] then None else il_address L (unwrap_address value)))"

abbreviation TRUSTED_PROXY_IPS_ENV :: string where
  "TRUSTED_PROXY_IPS_ENV \<equiv> ''TRUSTED_PROXY_IPS''"

abbreviation DEFAULT_TRUSTED_PROXY_IPS :: "string list" where
  "DEFAULT_TRUSTED_PROXY_IPS \<equiv> [''127.0.0.1'', ''::1'']"

definition get_trusted_proxy_networks :: "('ip, 'net) ip_lib \<Rightarrow> environ \<Rightarrow> 'net list" where
  "get_trusted_proxy_networks L env =
     (let raw_entries =
            (case env TRUSTED_PROXY_IPS_ENV of
               None \<Rightarrow> DEFAULT_TRUSTED_PROXY_IPS
             | Some raw \<Rightarrow> map py_strip (py_split (CHR '','') raw))
      in List.map_filter (\<lambda>entry. if entry = [] then None else il_network L entry) raw_entries)"

definition is_trusted_proxy_ip :: "('ip, 'net) ip_lib \<Rightarrow> 'ip \<Rightarrow> 'net list \<Rightarrow> bool" where
  "is_trusted_proxy_ip L client_ip trusted_networks = list_ex (il_in L client_ip) trusted_networks"

definition get_forwarded_for_ips :: "('ip, 'net) ip_lib \<Rightarrow> string option \<Rightarrow> 'ip list" where
  "get_forwarded_for_ips L header_value =
     (case header_value of
        None \<Rightarrow> []
      | Some v \<Rightarrow> List.map_filter (\<lambda>part. parse_ip_address L (Some part)) (py_split (CHR '','') v))"

definition get_request_client_host :: "request \<Rightarrow> string option" where
  "get_request_client_host r =
     (case req_client_host r of
        None \<Rightarrow> None
      | Some h \<Rightarrow> if py_strip h = [] then None else Some (py_strip h))"

text \<open>The address the request falls back to when no header is consulted.\<close>

definition direct_client_address :: "('ip, 'net) ip_lib \<Rightarrow> request \<Rightarrow> string" where
  "direct_client_address L r =
     (case parse_ip_address L (get_request_client_host r) of
        Some ip \<Rightarrow> il_str L ip
      | None \<Rightarrow> (case get_request_client_host r of Some h \<Rightarrow> h | None \<Rightarrow> ''unknown''))"

text \<open>
  \<open>get_request_client_ip\<close>: only when the direct peer is a trusted proxy, the last forwarded address
  that is not itself a trusted proxy wins, else the first forwarded address, else \<open>X-Real-IP\<close>.
\<close>

definition get_request_client_ip :: "('ip, 'net) ip_lib \<Rightarrow> environ \<Rightarrow> request \<Rightarrow> string" where
  "get_request_client_ip L env r =
     (let trusted = get_trusted_proxy_networks L env;
          direct = parse_ip_address L (get_request_client_host r)
      in case direct of
           None \<Rightarrow> direct_client_address L r
         | Some ip \<Rightarrow>
             if \<not> is_trusted_proxy_ip L ip trusted then direct_client_address L r
             else
               (let forwarded = get_forwarded_for_ips L (req_x_forwarded_for r)
                in case find (\<lambda>f. \<not> is_trusted_proxy_ip L f trusted) (rev forwarded) of
                     Some f \<Rightarrow> il_str L f
                   | None \<Rightarrow>
                       (case forwarded of
                          f # _ \<Rightarrow> il_str L f
                        | [] \<Rightarrow>
                            (case parse_ip_address L (req_x_real_ip r) of
                               Some real_ip \<Rightarrow> il_str L real_ip
                             | None \<Rightarrow> direct_client_address L r))))"

section \<open>Lemmas\<close>

text \<open>The peer's own trust status, the only gate to the headers.\<close>

definition peer_is_trusted :: "('ip, 'net) ip_lib \<Rightarrow> environ \<Rightarrow> request \<Rightarrow> bool" where
  "peer_is_trusted L env r \<longleftrightarrow>
     (case parse_ip_address L (get_request_client_host r) of
        None \<Rightarrow> False
      | Some ip \<Rightarrow> is_trusted_proxy_ip L ip (get_trusted_proxy_networks L env))"

lemma find_rev_suffix:
  assumes "P x" and "list_all (\<lambda>y. \<not> P y) ys"
  shows "find P (rev (xs @ x # ys)) = Some x"
proof -
  have "find P (rev ys @ zs) = find P zs" for zs
    using assms(2) by (induction ys arbitrary: zs) auto
  with assms(1) show ?thesis by simp
qed

lemma py_split_nonempty [simp]: "py_split d s \<noteq> []"
  by (induction s) (auto split: list.split)

lemma py_split_length: "length (py_split d s) = Suc (count_list s d)"
proof (induction s)
  case (Cons c cs)
  then show ?case by (cases "py_split d cs") auto
qed simp

section \<open>Properties\<close>

text \<open>
  Headers cannot be spoofed past the direct peer.  A request whose peer is not a trusted proxy is
  counted against the peer's own address, whatever its forwarding headers say.
\<close>

theorem client_ip_untrusted_peer:
  assumes "\<not> peer_is_trusted L env r"
  shows "get_request_client_ip L env (r\<lparr>req_x_forwarded_for := xff, req_x_real_ip := xri\<rparr>) =
         direct_client_address L r"
  using assms
  by (auto simp: get_request_client_ip_def peer_is_trusted_def direct_client_address_def
      get_request_client_host_def Let_def split: option.splits)

text \<open>An address library for examples: an address is its own text, a network holds one address.\<close>

definition text_ips :: "(string, string) ip_lib" where
  "text_ips = \<lparr>il_address = Some, il_network = Some, il_in = (=), il_str = id\<rparr>"

theorem client_ip_untrusted_peer_witness:
  "get_request_client_ip text_ips (\<lambda>_. None)
     \<lparr>req_client_host = Some ''9.9.9.9'', req_x_forwarded_for = Some ''1.1.1.1'', req_x_real_ip = Some ''2.2.2.2''\<rparr>
   = ''9.9.9.9''"
proof -
  let ?r = "\<lparr>req_client_host = Some ''9.9.9.9'', req_x_forwarded_for = None, req_x_real_ip = None\<rparr>"
  have "\<not> peer_is_trusted text_ips (\<lambda>_. None) ?r" by code_simp
  from client_ip_untrusted_peer [OF this, where xff = "Some ''1.1.1.1''" and xri = "Some ''2.2.2.2''"]
  have "get_request_client_ip text_ips (\<lambda>_. None)
     \<lparr>req_client_host = Some ''9.9.9.9'', req_x_forwarded_for = Some ''1.1.1.1'', req_x_real_ip = Some ''2.2.2.2''\<rparr>
     = direct_client_address text_ips ?r" by simp
  also have "direct_client_address text_ips ?r = ''9.9.9.9''" by code_simp
  finally show ?thesis .
qed

text \<open>
  Behind trusted proxies the last untrusted address of the forwarding chain decides, whatever the
  client wrote in front of it.
\<close>

theorem client_ip_last_untrusted:
  assumes "peer_is_trusted L env r"
    and "get_forwarded_for_ips L (req_x_forwarded_for r) = spoofed @ ip # proxies"
    and "\<not> is_trusted_proxy_ip L ip (get_trusted_proxy_networks L env)"
    and "list_all (\<lambda>p. is_trusted_proxy_ip L p (get_trusted_proxy_networks L env)) proxies"
  shows "get_request_client_ip L env r = il_str L ip"
proof -
  let ?untrusted = "\<lambda>f. \<not> is_trusted_proxy_ip L f (get_trusted_proxy_networks L env)"
  have "find ?untrusted (rev (spoofed @ ip # proxies)) = Some ip"
    using assms(3,4) by (intro find_rev_suffix) (auto simp: list_all_iff)
  with assms(1,2) show ?thesis
    by (auto simp: get_request_client_ip_def peer_is_trusted_def Let_def split: option.splits)
qed

theorem client_ip_last_untrusted_witness:
  "get_request_client_ip text_ips (\<lambda>_. None)
     \<lparr>req_client_host = Some ''127.0.0.1'', req_x_forwarded_for = Some ''6.6.6.6, 5.5.5.5:443, 127.0.0.1'',
      req_x_real_ip = None\<rparr> = ''5.5.5.5''"
proof -
  let ?r = "\<lparr>req_client_host = Some ''127.0.0.1'',
    req_x_forwarded_for = Some ''6.6.6.6, 5.5.5.5:443, 127.0.0.1'', req_x_real_ip = None\<rparr>"
  let ?nets = "get_trusted_proxy_networks text_ips (\<lambda>_. None)"
  have "peer_is_trusted text_ips (\<lambda>_. None) ?r" by code_simp
  moreover have "get_forwarded_for_ips text_ips (req_x_forwarded_for ?r) = [''6.6.6.6''] @ ''5.5.5.5'' # [''127.0.0.1'']"
    by code_simp
  moreover have "\<not> is_trusted_proxy_ip text_ips ''5.5.5.5'' ?nets" by code_simp
  moreover have "list_all (\<lambda>p. is_trusted_proxy_ip text_ips p ?nets) [''127.0.0.1'']" by code_simp
  ultimately have "get_request_client_ip text_ips (\<lambda>_. None) ?r = il_str text_ips ''5.5.5.5''"
    by (rule client_ip_last_untrusted)
  then show ?thesis by (simp add: text_ips_def)
qed

end
