(* ===== verification/Admission.thy ===== *)
theory Admission
  imports Main
begin

text \<open>
  The contract shared by the counters of the repository (rate-limit windows, daily and monthly
  quotas): within one counting period an attempt is admitted while fewer than \<open>limit\<close> attempts have
  been counted, an admitted attempt counts one, a refused attempt counts nothing.  The locale's
  lemmas say what a client may conclude for any sequence of attempts; each counter interprets it.
\<close>

fun attempts :: "('i \<Rightarrow> 'st \<Rightarrow> bool \<times> 'st) \<Rightarrow> 'i list \<Rightarrow> 'st \<Rightarrow> bool list \<times> 'st" where
  "attempts step [] s = ([], s)"
| "attempts step (i # xs) s =
     (let (b, s') = step i s; (bs, s'') = attempts step xs s' in (b # bs, s''))"

locale counting_limiter =
  fixes step :: "'i \<Rightarrow> 'st \<Rightarrow> bool \<times> 'st"
    and used :: "'st \<Rightarrow> int"
    and limit :: int
    and inv :: "'st \<Rightarrow> bool"
    and good :: "'i \<Rightarrow> bool"
  assumes step_inv: "inv s \<Longrightarrow> good i \<Longrightarrow> inv (snd (step i s))"
    and step_room:
      "inv s \<Longrightarrow> good i \<Longrightarrow> used s < limit \<Longrightarrow> fst (step i s) \<and> used (snd (step i s)) = used s + 1"
    and step_full:
      "inv s \<Longrightarrow> good i \<Longrightarrow> limit \<le> used s \<Longrightarrow> \<not> fst (step i s) \<and> used (snd (step i s)) = used s"
begin

lemma attempts_full:
  assumes "inv s" and "list_all good xs" and "limit \<le> used s"
  shows "fst (attempts step xs s) = replicate (length xs) False"
  using assms
proof (induction xs arbitrary: s)
  case (Cons i xs)
  obtain b s' where s': "step i s = (b, s')" by fastforce
  have "\<not> b" "used s' = used s" "inv s'"
    using step_full [of s i] step_inv [of s i] Cons.prems s' by auto
  moreover from this have "fst (attempts step xs s') = replicate (length xs) False"
    using Cons by auto
  ultimately show ?case by (simp add: s' split_beta)
qed simp

text \<open>The first attempts up to the limit are admitted, every later one is refused.\<close>

lemma attempts_exact:
  assumes "inv s" and "list_all good xs" and "used s \<le> limit"
  shows "fst (attempts step xs s) =
           (let m = min (length xs) (nat (limit - used s))
            in replicate m True @ replicate (length xs - m) False)"
  using assms
proof (induction xs arbitrary: s)
  case (Cons i xs)
  obtain b s' where s': "step i s = (b, s')" by fastforce
  show ?case
  proof (cases "used s < limit")
    case True
    then have b: "b" "used s' = used s + 1" "inv s'"
      using step_room [of s i] step_inv [of s i] Cons.prems s' by auto
    then have ih: "fst (attempts step xs s') =
        (let m = min (length xs) (nat (limit - used s'))
         in replicate m True @ replicate (length xs - m) False)"
      using Cons True by auto
    have "nat (limit - used s) = Suc (nat (limit - used s'))"
      using True b by linarith
    with b ih show ?thesis by (simp add: s' Let_def split_beta)
  next
    case False
    then have "limit \<le> used s" and "nat (limit - used s) = 0" using Cons.prems by auto
    then show ?thesis using attempts_full [OF Cons.prems(1,2)] by (simp add: Let_def)
  qed
qed simp

corollary admitted_bound:
  assumes "inv s" and "list_all good xs" and "used s \<le> limit"
  shows "length (filter id (fst (attempts step xs s))) = min (length xs) (nat (limit - used s))"
  using attempts_exact [OF assms] by (simp add: Let_def filter_replicate)

end

end
