(* ===== verification/Calendar.thy ===== *)
theory Calendar
  imports Prelude
begin

text \<open>
  The part of Python's \<open>datetime\<close> module that the quotas and usage limits use: the proleptic Gregorian
  calendar with its day ordinals (\<open>date.toordinal\<close>, \<open>date.fromordinal\<close> as CPython computes them),
  weekdays and ISO texts.  A \<open>datetime\<close> is the number of microseconds since the start of day ordinal
  0 in its own time zone; day 1 is 0001-01-01.  The upper limit of year 9999 is not modelled.
\<close>

record date =
  year :: int
  month :: int
  day :: int

abbreviation day_ticks :: ticks where
  "day_ticks \<equiv> 86400000000"

definition is_leap :: "int \<Rightarrow> bool" where
  "is_leap y \<longleftrightarrow> y mod 4 = 0 \<and> (y mod 100 \<noteq> 0 \<or> y mod 400 = 0)"

definition days_before_year :: "int \<Rightarrow> int" where
  "days_before_year y = (let y = y - 1 in y * 365 + y div 4 - y div 100 + y div 400)"

definition month_starts :: "int list" where
  "month_starts = [0, 31, 59, 90, 120, 151, 181, 212, 243, 273, 304, 334]"

definition days_before_month :: "bool \<Rightarrow> int \<Rightarrow> int" where
  "days_before_month leap m = month_starts ! nat (m - 1) + (if 2 < m \<and> leap then 1 else 0)"

definition days_in_month :: "bool \<Rightarrow> int \<Rightarrow> int" where
  "days_in_month leap m =
     (if m = 2 then (if leap then 29 else 28) else if m \<in> {4, 6, 9, 11} then 30 else 31)"

definition toordinal :: "date \<Rightarrow> int" where
  "toordinal d = days_before_year (year d) + days_before_month (is_leap (year d)) (month d) + day d"

text \<open>The month and day of the \<open>n\<close>-th day of a year, counted from 0 (the end of \<open>_ord2ymd\<close>).\<close>

definition month_of_day :: "bool \<Rightarrow> int \<Rightarrow> int \<times> int" where
  "month_of_day leap n =
     (let m = (n + 50) div 32;
          preceding = days_before_month leap m;
          (m, preceding) =
            (if n < preceding then (m - 1, preceding - days_in_month leap (m - 1)) else (m, preceding))
      in (m, n - preceding + 1))"

definition fromordinal :: "int \<Rightarrow> date" where
  "fromordinal n0 =
     (let n = n0 - 1;
          n400 = n div 146097; n = n mod 146097;
          n100 = n div 36524; n = n mod 36524;
          n4 = n div 1461; n = n mod 1461;
          n1 = n div 365; n = n mod 365;
          y = n400 * 400 + 1 + n100 * 100 + n4 * 4 + n1
      in if n1 = 4 \<or> n100 = 4 then \<lparr>year = y - 1, month = 12, day = 31\<rparr>
         else (let leap = (n1 = 3 \<and> (n4 \<noteq> 24 \<or> n100 = 3));
                   (m, d) = month_of_day leap n
               in \<lparr>year = y, month = m, day = d\<rparr>))"

definition valid_date :: "date \<Rightarrow> bool" where
  "valid_date d \<longleftrightarrow>
     1 \<le> year d \<and> 1 \<le> month d \<and> month d \<le> 12 \<and> 1 \<le> day d
     \<and> day d \<le> days_in_month (is_leap (year d)) (month d)"

definition weekday :: "date \<Rightarrow> int" where
  "weekday d = (toordinal d + 6) mod 7"

definition add_days :: "date \<Rightarrow> int \<Rightarrow> date" where
  "add_days d n = fromordinal (toordinal d + n)"

definition next_month_start :: "date \<Rightarrow> date" where
  "next_month_start d =
     (if month d = 12 then \<lparr>year = year d + 1, month = 1, day = 1\<rparr>
      else \<lparr>year = year d, month = month d + 1, day = 1\<rparr>)"

definition date_of :: "ticks \<Rightarrow> date" where
  "date_of t = fromordinal (t div day_ticks)"

definition midnight :: "date \<Rightarrow> ticks" where
  "midnight d = toordinal d * day_ticks"

definition pad :: "nat \<Rightarrow> string \<Rightarrow> string" where
  "pad n s = replicate (n - length s) CHR ''0'' @ s"

definition isoformat :: "date \<Rightarrow> string" where
  "isoformat d = pad 4 (show_int (year d)) @ ''-'' @ pad 2 (show_int (month d)) @ ''-'' @ pad 2 (show_int (day d))"

definition month_format :: "date \<Rightarrow> string" where
  "month_format d = pad 4 (show_int (year d)) @ ''-'' @ pad 2 (show_int (month d))"

section \<open>Ordinals\<close>

text \<open>The month table is checked for each of the 366 days of a leap and of a common year.\<close>

lemma month_of_day_table:
  "list_all (\<lambda>leap. list_all (\<lambda>n. case month_of_day leap n of (m, d) \<Rightarrow>
      1 \<le> m \<and> m \<le> 12 \<and> 1 \<le> d \<and> d \<le> days_in_month leap m \<and> days_before_month leap m + d = n + 1)
     [0..364]) [True, False]"
  by code_simp

lemma month_of_day:
  assumes "0 \<le> n" and "n < 365" and "month_of_day leap n = (m, d)"
  shows "1 \<le> m \<and> m \<le> 12 \<and> 1 \<le> d \<and> d \<le> days_in_month leap m \<and> days_before_month leap m + d = n + 1"
proof -
  have "leap \<in> set [True, False]" "n \<in> set [0..364]" using assms by auto
  then show ?thesis using month_of_day_table assms(3) unfolding list_all_iff by fastforce
qed

lemma div_steps:
  fixes a b c d :: int
  assumes "0 \<le> b" "b \<le> 3" "0 \<le> c" "c \<le> 24" "0 \<le> d" "d \<le> 3"
  shows "(a * 400 + b * 100 + c * 4 + d) div 4 = a * 100 + b * 25 + c"
    and "(a * 400 + b * 100 + c * 4 + d) div 100 = a * 4 + b"
    and "(a * 400 + b * 100 + c * 4 + d) div 400 = a"
  using assms
  by (auto intro!: int_div_pos_eq [where r = d] int_div_pos_eq [where r = "c * 4 + d"]
        int_div_pos_eq [where r = "b * 100 + c * 4 + d"])

lemma leap_steps:
  fixes a b c d :: int
  assumes "0 \<le> b" "b \<le> 3" "0 \<le> c" "c \<le> 24" "0 \<le> d" "d \<le> 3"
  shows "is_leap (a * 400 + 1 + b * 100 + c * 4 + d) \<longleftrightarrow> d = 3 \<and> (c \<noteq> 24 \<or> b = 3)"
proof (cases "d = 3")
  case False
  then have "(a * 400 + 1 + b * 100 + c * 4 + d) mod 4 = d + 1"
    using assms by (intro int_mod_pos_eq [where q = "a * 100 + b * 25 + c"]) auto
  then show ?thesis using False assms by (simp add: is_leap_def)
next
  case d: True
  then have m4: "(a * 400 + 1 + b * 100 + c * 4 + d) mod 4 = 0"
    by (intro int_mod_pos_eq [where q = "a * 100 + b * 25 + c + 1"]) auto
  show ?thesis
  proof (cases "c = 24")
    case False
    with d have "(a * 400 + 1 + b * 100 + c * 4 + d) mod 100 = c * 4 + 4"
      using assms by (intro int_mod_pos_eq [where q = "a * 4 + b"]) auto
    with m4 d False assms show ?thesis by (simp add: is_leap_def)
  next
    case c: True
    with d have m100: "(a * 400 + 1 + b * 100 + c * 4 + d) mod 100 = 0"
      by (intro int_mod_pos_eq [where q = "a * 4 + b + 1"]) auto
    show ?thesis
    proof (cases "b = 3")
      case True
      with c d have "(a * 400 + 1 + b * 100 + c * 4 + d) mod 400 = 0"
        by (intro int_mod_pos_eq [where q = "a + 1"]) auto
      with m4 d True show ?thesis by (simp add: is_leap_def)
    next
      case False
      with c d have "(a * 400 + 1 + b * 100 + c * 4 + d) mod 400 = b * 100 + 100"
        using assms by (intro int_mod_pos_eq [where q = a]) auto
      with m4 m100 c False assms show ?thesis by (simp add: is_leap_def)
    qed
  qed
qed

lemma days_before_year_steps:
  fixes a b c d :: int
  assumes "0 \<le> b" "b \<le> 3" "0 \<le> c" "c \<le> 24" "0 \<le> d" "d \<le> 3"
  shows "days_before_year (a * 400 + 1 + b * 100 + c * 4 + d) =
           a * 146097 + b * 36524 + c * 1461 + d * 365"
proof -
  have "a * 400 + 1 + b * 100 + c * 4 + d - 1 = a * 400 + b * 100 + c * 4 + d" by simp
  then show ?thesis
    unfolding days_before_year_def Let_def by (simp only: div_steps [OF assms]) simp
qed

lemma div_mod_split:
  fixes n k :: int
  assumes "0 < k"
  shows "n = n div k * k + n mod k \<and> 0 \<le> n mod k \<and> n mod k < k"
  using assms by simp

lemma fromordinal_correct:
  "toordinal (fromordinal n0) = n0 \<and> (1 \<le> n0 \<longrightarrow> valid_date (fromordinal n0))"
proof -
  define n where "n = n0 - 1"
  define a where "a = n div 146097"
  define r1 where "r1 = n mod 146097"
  define b where "b = r1 div 36524"
  define r2 where "r2 = r1 mod 36524"
  define c where "c = r2 div 1461"
  define r3 where "r3 = r2 mod 1461"
  define d where "d = r3 div 365"
  define e where "e = r3 mod 365"
  note defs = n_def a_def r1_def b_def r2_def c_def r3_def d_def e_def
  have n: "n = a * 146097 + r1" "0 \<le> r1" "r1 < 146097" by (simp_all add: a_def r1_def)
  have r1: "r1 = b * 36524 + r2" "0 \<le> r2" "r2 < 36524" by (simp_all add: b_def r2_def)
  have r2: "r2 = c * 1461 + r3" "0 \<le> r3" "r3 < 1461" by (simp_all add: c_def r3_def)
  have r3: "r3 = d * 365 + e" "0 \<le> e" "e < 365" by (simp_all add: d_def e_def)
  have b: "0 \<le> b" "b \<le> 4" using n r1 by linarith+
  have c: "0 \<le> c" "c \<le> 24" using r1 r2 by linarith+
  have d: "0 \<le> d" "d \<le> 4" using r2 r3 by linarith+
  have y: "1 \<le> n0 \<Longrightarrow> 0 \<le> a" using n by (simp add: n_def)
  define leap where "leap = (d = 3 \<and> (c \<noteq> 24 \<or> b = 3))"
  have f: "fromordinal n0 =
      (if d = 4 \<or> b = 4
       then \<lparr>year = a * 400 + 1 + b * 100 + c * 4 + d - 1, month = 12, day = 31\<rparr>
       else \<lparr>year = a * 400 + 1 + b * 100 + c * 4 + d, month = fst (month_of_day leap e),
             day = snd (month_of_day leap e)\<rparr>)"
    by (simp add: fromordinal_def Let_def split_beta leap_def flip: defs)
  consider "b = 4" | "b \<le> 3" "d = 4" | "b \<le> 3" "d \<le> 3" using b d by linarith
  then show ?thesis
  proof cases
    case 1
    then have "c = 0" "d = 0" "e = 0" using n r1 r2 r3 c d by linarith+
    then have "fromordinal n0 = \<lparr>year = a * 400 + 1 + 3 * 100 + 24 * 4 + 3, month = 12, day = 31\<rparr>"
      using f 1 by simp
    then show ?thesis
      using 1 days_before_year_steps [of 3 24 3 a] leap_steps [of 3 24 3 a] n r1 r2 r3 y
        \<open>c = 0\<close> \<open>d = 0\<close> \<open>e = 0\<close>
      by (simp add: toordinal_def valid_date_def days_before_month_def month_starts_def
            days_in_month_def n_def)
  next
    case 2
    then have "e = 0" "c \<le> 23" using r1 r2 r3 c by linarith+
    moreover have "fromordinal n0 = \<lparr>year = a * 400 + 1 + b * 100 + c * 4 + 3, month = 12, day = 31\<rparr>"
      using f 2 by simp
    ultimately show ?thesis
      using 2 days_before_year_steps [of b c 3 a] leap_steps [of b c 3 a] b c n r1 r2 r3 y
      by (simp add: toordinal_def valid_date_def days_before_month_def month_starts_def
            days_in_month_def n_def)
  next
    case 3
    obtain m k where mk: "month_of_day leap e = (m, k)" by fastforce
    then have "fromordinal n0 = \<lparr>year = a * 400 + 1 + b * 100 + c * 4 + d, month = m, day = k\<rparr>"
      using f 3 by simp
    moreover have "is_leap (a * 400 + 1 + b * 100 + c * 4 + d) = leap"
      unfolding leap_def using 3 b c d by (intro leap_steps) auto
    moreover note month_of_day [OF r3(2,3) mk]
      days_before_year_steps [of b c d a]
    ultimately show ?thesis
      using 3 b c d n r1 r2 r3 y by (simp add: toordinal_def valid_date_def n_def)
  qed
qed

lemma toordinal_fromordinal [simp]: "toordinal (fromordinal n) = n"
  and valid_fromordinal: "1 \<le> n \<Longrightarrow> valid_date (fromordinal n)"
  using fromordinal_correct by auto

lemma toordinal_add_days [simp]: "toordinal (add_days d n) = toordinal d + n"
  by (simp add: add_days_def)

section \<open>Days, weeks and months around a moment\<close>

lemma date_of_bounds: "midnight (date_of t) \<le> t \<and> t < midnight (date_of t) + day_ticks"
proof -
  have "t = t div day_ticks * day_ticks + t mod day_ticks" "0 \<le> t mod day_ticks" "t mod day_ticks < day_ticks"
    using div_mod_split [of day_ticks t] by auto
  then show ?thesis by (simp only: midnight_def date_of_def toordinal_fromordinal)  linarith
qed

lemma midnight_add_days: "midnight (add_days d n) = midnight d + n * day_ticks"
  by (simp add: midnight_def algebra_simps)

lemma weekday_bounds: "0 \<le> weekday d \<and> weekday d < 7"
  by (simp add: weekday_def)

text \<open>The first day of the next month comes 28 to 31 days after the first day of a month.\<close>

lemma month_length_table:
  "list_all (\<lambda>leap. list_all (\<lambda>m. days_before_month leap (m + 1) = days_before_month leap m + days_in_month leap m
      \<and> 28 \<le> days_in_month leap m \<and> days_in_month leap m \<le> 31) [1..11]) [True, False]"
  by code_simp

lemma year_length:
  "days_before_year (y + 1) = days_before_year y + (if is_leap y then 366 else 365)"
proof -
  define a where "a = (y - 1) div 400"
  define r1 where "r1 = (y - 1) mod 400"
  define b where "b = r1 div 100"
  define r2 where "r2 = r1 mod 100"
  define c where "c = r2 div 4"
  define d where "d = r2 mod 4"
  have n: "y - 1 = a * 400 + r1" "0 \<le> r1" "r1 < 400" by (simp_all add: a_def r1_def)
  have r1: "r1 = b * 100 + r2" "0 \<le> r2" "r2 < 100" by (simp_all add: b_def r2_def)
  have r2: "r2 = c * 4 + d" "0 \<le> d" "d < 4" by (simp_all add: c_def d_def)
  have b: "0 \<le> b" "b \<le> 3" and c: "0 \<le> c" "c \<le> 24" using n r1 r2 by linarith+
  have y: "y = a * 400 + 1 + b * 100 + c * 4 + d" using n r1 r2 by linarith
  note year = days_before_year_steps [of b c d a] leap_steps [of b c d a]
  consider "d < 3" | "d = 3" "c < 24" | "d = 3" "c = 24" "b < 3" | "d = 3" "c = 24" "b = 3"
    using b c r2 by linarith
  then show ?thesis
  proof cases
    case 1 then show ?thesis using year days_before_year_steps [of b c "d + 1" a] b c r2
      by (simp add: y algebra_simps)
  next
    case 2 then show ?thesis using year days_before_year_steps [of b "c + 1" 0 a] b c
      by (simp add: y algebra_simps)
  next
    case 3 then show ?thesis using year days_before_year_steps [of "b + 1" 0 0 a] b
      by (simp add: y algebra_simps)
  next
    case 4 then show ?thesis using year days_before_year_steps [of 0 0 0 "a + 1"]
      by (simp add: y algebra_simps)
  qed
qed

lemma next_month_ordinal:
  assumes "valid_date d"
  shows "toordinal (next_month_start d) =
           toordinal (d\<lparr>day := 1\<rparr>) + days_in_month (is_leap (year d)) (month d)"
    and "28 \<le> days_in_month (is_leap (year d)) (month d)"
    and "days_in_month (is_leap (year d)) (month d) \<le> 31"
proof -
  show "toordinal (next_month_start d) =
           toordinal (d\<lparr>day := 1\<rparr>) + days_in_month (is_leap (year d)) (month d)"
  proof (cases "month d = 12")
    case True
    then show ?thesis
      by (simp add: next_month_start_def toordinal_def year_length days_before_month_def
            month_starts_def days_in_month_def)
  next
    case False
    then have "month d \<in> set [1..11]" "is_leap (year d) \<in> set [True, False]"
      using assms by (auto simp: valid_date_def)
    with False month_length_table show ?thesis
      by (cases "is_leap (year d)") (auto simp: list_all_iff next_month_start_def toordinal_def)
  qed
qed (auto simp: days_in_month_def)

lemma next_month_after:
  assumes "valid_date d"
  shows "toordinal d < toordinal (next_month_start d)"
    and "toordinal (next_month_start d) \<le> toordinal d + 31"
  using next_month_ordinal [OF assms] assms by (simp_all add: toordinal_def valid_date_def)

end
