(* ===== verification/Rate_Limit.thy ===== *)
theory Rate_Limit
  imports Redis_Server Client_Address Admission Calendar
begin

text \<open>
  \<open>AuthLimitService\<close> of \<open>services/auth_limits.py\<close>: fixed-window rate limits counted in Redis by a Lua
  script, or in process memory when there is no Redis client or the call fails.  The state is the
  Redis server and the dictionary \<open>_in_memory_windows\<close>.  SHA-256 is the argument \<open>digest\<close>; the clock
  reading, the Redis client a call obtains and the fate of its request are the call's environment.
  The user-facing texts are values of \<open>limit_message\<close> carrying the numbers they print.
\<close>

section \<open>Settings\<close>

abbreviation (input) DEFAULT_AUTH_EMAIL_PER_IP_LIMIT :: int where
  "DEFAULT_AUTH_EMAIL_PER_IP_LIMIT \<equiv> 10"
abbreviation (input) DEFAULT_AUTH_EMAIL_PER_EMAIL_LIMIT :: int where
  "DEFAULT_AUTH_EMAIL_PER_EMAIL_LIMIT \<equiv> 5"
abbreviation (input) DEFAULT_AUTH_EMAIL_WINDOW_SECONDS :: int where
  "DEFAULT_AUTH_EMAIL_WINDOW_SECONDS \<equiv> 600"
abbreviation (input) DEFAULT_AUTH_EMAIL_COOLDOWN_SECONDS :: int where
  "DEFAULT_AUTH_EMAIL_COOLDOWN_SECONDS \<equiv> 60"
abbreviation (input) DEFAULT_ADMIN_LOGIN_PER_IP_LIMIT :: int where
  "DEFAULT_ADMIN_LOGIN_PER_IP_LIMIT \<equiv> 10"
abbreviation (input) DEFAULT_ADMIN_LOGIN_WINDOW_SECONDS :: int where
  "DEFAULT_ADMIN_LOGIN_WINDOW_SECONDS \<equiv> 900"
abbreviation (input) DEFAULT_DEMO_LOGIN_PER_IP_LIMIT :: int where
  "DEFAULT_DEMO_LOGIN_PER_IP_LIMIT \<equiv> 10"
abbreviation (input) DEFAULT_DEMO_LOGIN_WINDOW_SECONDS :: int where
  "DEFAULT_DEMO_LOGIN_WINDOW_SECONDS \<equiv> 900"
abbreviation (input) DEFAULT_PASSKEY_AUTH_OPTIONS_PER_IP_LIMIT :: int where
  "DEFAULT_PASSKEY_AUTH_OPTIONS_PER_IP_LIMIT \<equiv> 30"
abbreviation (input) DEFAULT_PASSKEY_AUTH_VERIFY_PER_IP_LIMIT :: int where
  "DEFAULT_PASSKEY_AUTH_VERIFY_PER_IP_LIMIT \<equiv> 30"
abbreviation (input) DEFAULT_PASSKEY_AUTH_WINDOW_SECONDS :: int where
  "DEFAULT_PASSKEY_AUTH_WINDOW_SECONDS \<equiv> 300"
abbreviation (input) DEFAULT_GUEST_CHAT_DAILY_LIMIT :: int where
  "DEFAULT_GUEST_CHAT_DAILY_LIMIT \<equiv> 10"
abbreviation (input) DEFAULT_VERIFICATION_ATTEMPT_PER_EMAIL_LIMIT :: int where
  "DEFAULT_VERIFICATION_ATTEMPT_PER_EMAIL_LIMIT \<equiv> 10"
abbreviation (input) DEFAULT_VERIFICATION_ATTEMPT_PER_IP_LIMIT :: int where
  "DEFAULT_VERIFICATION_ATTEMPT_PER_IP_LIMIT \<equiv> 60"
abbreviation (input) DEFAULT_VERIFICATION_ATTEMPT_WINDOW_SECONDS :: int where
  "DEFAULT_VERIFICATION_ATTEMPT_WINDOW_SECONDS \<equiv> 3600"

definition limit_from_env :: "environ \<Rightarrow> string \<Rightarrow> int \<Rightarrow> int" where
  "limit_from_env env name dflt = env_int_in_range env name dflt 0 None"

section \<open>State and environment of a call\<close>

type_synonym windows = "string \<Rightarrow> (int \<times> ticks) option"

record 's limit_state =
  ls_redis :: 's
  ls_windows :: windows

record 's call_env =
  ce_client :: "'s redis_cmds option"
  ce_fault :: fault
  ce_now :: ticks

datatype limit_message =
    GuestDailyLimited int
  | AuthEmailIpLimited int
  | AuthEmailAddressLimited int
  | AuthEmailCooldown int
  | AdminLoginLimited int
  | DemoLoginLimited int
  | PasskeyOptionsLimited int
  | PasskeyVerifyLimited int
  | VerificationLimited int

definition seconds_until_tomorrow :: "ticks \<Rightarrow> int" where
  "seconds_until_tomorrow now =
     (let tomorrow = midnight (add_days (date_of now) 1)
      in max (trunc_seconds (tomorrow - now)) 1)"

section \<open>Counting\<close>

text \<open>
  The Lua script of \<open>_consume_with_redis\<close>.  A counter that is not a number makes the comparison
  raise inside the script.
\<close>

definition rate_limit_script :: "'s redis_cmds \<Rightarrow> string \<Rightarrow> int \<Rightarrow> int \<Rightarrow> ('s, int list) rcmd" where
  "rate_limit_script R key limit ttl =
     rbind (rc_get R key) (\<lambda>stored.
       case (case stored of None \<Rightarrow> Some 0 | Some v \<Rightarrow> dec_int v) of
         None \<Rightarrow> rfail
       | Some current \<Rightarrow>
           rbind (rc_ttl R key) (\<lambda>key_ttl.
             if limit \<le> current then rret [0, current, if key_ttl < 0 then ttl else key_ttl]
             else
               rbind (rc_incr R key) (\<lambda>current'.
                 if current' = 1 then rbind (rc_expire R key ttl) (\<lambda>_. rret [1, current', ttl])
                 else
                   rbind (rc_ttl R key) (\<lambda>t.
                     rret [1, current', if t < 0 then ttl else t]))))"

text \<open>The reply is read as \<open>(allowed, remaining, retry_after)\<close>; an exception or an odd reply is \<open>None\<close>.\<close>

fun limit_reply :: "int \<Rightarrow> redis_exn + int list \<Rightarrow> (bool \<times> int \<times> int) option" where
  "limit_reply limit (Inr [a, c, t]) = Some (a = 1, max (limit - c) 0, max t 1)"
| "limit_reply limit _ = None"

definition consume_with_redis ::
  "'s redis_cmds \<Rightarrow> fault \<Rightarrow> string \<Rightarrow> int \<Rightarrow> int \<Rightarrow> 's \<Rightarrow> (bool \<times> int \<times> int) option \<times> 's" where
  "consume_with_redis R f redis_key limit window_seconds =
     rtry (redis_call f (rate_limit_script R redis_key limit window_seconds))
       (\<lambda>result. Pair (limit_reply limit result))"

definition prune_windows :: "ticks \<Rightarrow> windows \<Rightarrow> windows" where
  "prune_windows now w =
     (\<lambda>k. case w k of None \<Rightarrow> None | Some (c, e) \<Rightarrow> if e \<le> now then None else Some (c, e))"

definition consume_with_in_memory ::
  "ticks \<Rightarrow> string \<Rightarrow> int \<Rightarrow> int \<Rightarrow> windows \<Rightarrow> (bool \<times> int \<times> int) \<times> windows" where
  "consume_with_in_memory now key limit window_seconds w0 =
     (let w = prune_windows now w0;
          (current, expires_at) =
            (case w key of None \<Rightarrow> (0, now + second * window_seconds) | Some p \<Rightarrow> p);
          (current, expires_at) =
            (if expires_at \<le> now then (0, now + second * window_seconds) else (current, expires_at));
          retry_after = max (ceil_seconds (expires_at - now)) 1
      in if limit \<le> current then ((False, 0, retry_after), w)
         else ((True, max (limit - (current + 1)) 0, retry_after),
               w(key \<mapsto> (current + 1, expires_at))))"

definition limit_key :: "(string \<Rightarrow> string) \<Rightarrow> string \<Rightarrow> string \<Rightarrow> string" where
  "limit_key digest key_prefix identifier =
     key_prefix @ '':'' @ digest (or_default (py_lower (py_strip identifier)) ''unknown'')"

definition consume_rate_limit ::
  "(string \<Rightarrow> string) \<Rightarrow> 's call_env \<Rightarrow> string \<Rightarrow> string \<Rightarrow> int \<Rightarrow> int \<Rightarrow> 's limit_state
     \<Rightarrow> (bool \<times> int \<times> int) \<times> 's limit_state" where
  "consume_rate_limit digest c key_prefix identifier limit window_seconds st =
     (let redis_key = limit_key digest key_prefix identifier
      in if limit \<le> 0 then ((False, 0, max window_seconds 1), st)
         else
           (let (redis_result, r) =
                  (case ce_client c of
                     None \<Rightarrow> (None, ls_redis st)
                   | Some R \<Rightarrow>
                       consume_with_redis R (ce_fault c) redis_key limit window_seconds (ls_redis st));
                st = st\<lparr>ls_redis := r\<rparr>
            in case redis_result of
                 Some res \<Rightarrow> (res, st)
               | None \<Rightarrow>
                   (let (res, w) =
                          consume_with_in_memory (ce_now c) redis_key limit window_seconds (ls_windows st)
                    in (res, st\<lparr>ls_windows := w\<rparr>))))"

definition reset_in_memory_state :: "'s limit_state \<Rightarrow> 's limit_state" where
  "reset_in_memory_state st = st\<lparr>ls_windows := (\<lambda>_. None)\<rparr>"

section \<open>The limits of the service\<close>

definition consume_guest_chat_daily_limit ::
  "('ip, 'net) ip_lib \<Rightarrow> environ \<Rightarrow> (string \<Rightarrow> string) \<Rightarrow> ticks \<Rightarrow> 's call_env \<Rightarrow> request
     \<Rightarrow> 's limit_state \<Rightarrow> (bool \<times> limit_message option) \<times> 's limit_state" where
  "consume_guest_chat_daily_limit L env digest local_now c request st =
     (let client_ip = get_request_client_ip L env request;
          daily_limit = limit_from_env env ''GUEST_CHAT_DAILY_LIMIT'' DEFAULT_GUEST_CHAT_DAILY_LIMIT;
          ((allowed, _, _), st) =
            consume_rate_limit digest c ''guest_chat:daily:ip'' client_ip daily_limit
              (seconds_until_tomorrow local_now) st
      in ((allowed, if allowed then None else Some (GuestDailyLimited daily_limit)), st))"

text \<open>
  Sending an authentication mail passes three counters in turn; each stage consumes its counter when
  it is reached, and a later refusal does not give an earlier count back.
\<close>

definition consume_auth_email_send_limits ::
  "('ip, 'net) ip_lib \<Rightarrow> environ \<Rightarrow> (string \<Rightarrow> string) \<Rightarrow> 's call_env \<times> 's call_env \<times> 's call_env
     \<Rightarrow> request \<Rightarrow> string \<Rightarrow> 's limit_state \<Rightarrow> (bool \<times> limit_message option) \<times> 's limit_state" where
  "consume_auth_email_send_limits L env digest cs request email st =
     (let (c1, c2, c3) = cs;
          client_ip = get_request_client_ip L env request;
          normalized_email = py_lower (py_strip email);
          per_ip_limit = limit_from_env env ''AUTH_EMAIL_PER_IP_LIMIT'' DEFAULT_AUTH_EMAIL_PER_IP_LIMIT;
          per_email_limit =
            limit_from_env env ''AUTH_EMAIL_PER_EMAIL_LIMIT'' DEFAULT_AUTH_EMAIL_PER_EMAIL_LIMIT;
          window_seconds =
            limit_from_env env ''AUTH_EMAIL_WINDOW_SECONDS'' DEFAULT_AUTH_EMAIL_WINDOW_SECONDS;
          cooldown_seconds =
            limit_from_env env ''AUTH_EMAIL_COOLDOWN_SECONDS'' DEFAULT_AUTH_EMAIL_COOLDOWN_SECONDS;
          ((allowed, _, retry_after), st) =
            consume_rate_limit digest c1 ''auth_email:ip'' client_ip per_ip_limit window_seconds st
      in if \<not> allowed then ((False, Some (AuthEmailIpLimited retry_after)), st)
         else
           (let ((allowed, _, retry_after), st) =
                  consume_rate_limit digest c2 ''auth_email:email'' normalized_email per_email_limit
                    window_seconds st
            in if \<not> allowed then ((False, Some (AuthEmailAddressLimited retry_after)), st)
               else
                 (let ((allowed, _, retry_after), st) =
                        consume_rate_limit digest c3 ''auth_email:cooldown'' normalized_email 1
                          cooldown_seconds st
                  in if \<not> allowed then ((False, Some (AuthEmailCooldown retry_after)), st)
                     else ((True, None), st))))"

definition consume_admin_login_limit ::
  "('ip, 'net) ip_lib \<Rightarrow> environ \<Rightarrow> (string \<Rightarrow> string) \<Rightarrow> 's call_env \<Rightarrow> request \<Rightarrow> 's limit_state
     \<Rightarrow> (bool \<times> limit_message option) \<times> 's limit_state" where
  "consume_admin_login_limit L env digest c request st =
     (let client_ip = get_request_client_ip L env request;
          per_ip_limit = limit_from_env env ''ADMIN_LOGIN_PER_IP_LIMIT'' DEFAULT_ADMIN_LOGIN_PER_IP_LIMIT;
          window_seconds =
            limit_from_env env ''ADMIN_LOGIN_WINDOW_SECONDS'' DEFAULT_ADMIN_LOGIN_WINDOW_SECONDS;
          ((allowed, _, retry_after), st) =
            consume_rate_limit digest c ''admin_login:ip'' client_ip per_ip_limit window_seconds st
      in ((allowed, if allowed then None else Some (AdminLoginLimited retry_after)), st))"

definition consume_demo_login_limit ::
  "('ip, 'net) ip_lib \<Rightarrow> environ \<Rightarrow> (string \<Rightarrow> string) \<Rightarrow> 's call_env \<Rightarrow> request \<Rightarrow> 's limit_state
     \<Rightarrow> (bool \<times> limit_message option) \<times> 's limit_state" where
  "consume_demo_login_limit L env digest c request st =
     (let client_ip = get_request_client_ip L env request;
          per_ip_limit = limit_from_env env ''DEMO_LOGIN_PER_IP_LIMIT'' DEFAULT_DEMO_LOGIN_PER_IP_LIMIT;
          window_seconds =
            limit_from_env env ''DEMO_LOGIN_WINDOW_SECONDS'' DEFAULT_DEMO_LOGIN_WINDOW_SECONDS;
          ((allowed, _, retry_after), st) =
            consume_rate_limit digest c ''demo_login:ip'' client_ip per_ip_limit window_seconds st
      in ((allowed, if allowed then None else Some (DemoLoginLimited retry_after)), st))"

definition consume_passkey_auth_options_limit ::
  "('ip, 'net) ip_lib \<Rightarrow> environ \<Rightarrow> (string \<Rightarrow> string) \<Rightarrow> 's call_env \<Rightarrow> request \<Rightarrow> 's limit_state
     \<Rightarrow> (bool \<times> limit_message option) \<times> 's limit_state" where
  "consume_passkey_auth_options_limit L env digest c request st =
     (let client_ip = get_request_client_ip L env request;
          per_ip_limit =
            limit_from_env env ''PASSKEY_AUTH_OPTIONS_PER_IP_LIMIT''
              DEFAULT_PASSKEY_AUTH_OPTIONS_PER_IP_LIMIT;
          window_seconds =
            limit_from_env env ''PASSKEY_AUTH_WINDOW_SECONDS'' DEFAULT_PASSKEY_AUTH_WINDOW_SECONDS;
          ((allowed, _, retry_after), st) =
            consume_rate_limit digest c ''passkey_auth_options:ip'' client_ip per_ip_limit
              window_seconds st
      in ((allowed, if allowed then None else Some (PasskeyOptionsLimited retry_after)), st))"

definition consume_verification_attempt_limit ::
  "('ip, 'net) ip_lib \<Rightarrow> environ \<Rightarrow> (string \<Rightarrow> string) \<Rightarrow> 's call_env \<times> 's call_env \<Rightarrow> request
     \<Rightarrow> string \<Rightarrow> 's limit_state \<Rightarrow> (bool \<times> limit_message option) \<times> 's limit_state" where
  "consume_verification_attempt_limit L env digest cs request email st =
     (let (c1, c2) = cs;
          client_ip = get_request_client_ip L env request;
          normalized_email = py_lower (py_strip email);
          per_email_limit =
            limit_from_env env ''VERIFICATION_ATTEMPT_PER_EMAIL_LIMIT''
              DEFAULT_VERIFICATION_ATTEMPT_PER_EMAIL_LIMIT;
          per_ip_limit =
            limit_from_env env ''VERIFICATION_ATTEMPT_PER_IP_LIMIT''
              DEFAULT_VERIFICATION_ATTEMPT_PER_IP_LIMIT;
          window_seconds =
            limit_from_env env ''VERIFICATION_ATTEMPT_WINDOW_SECONDS''
              DEFAULT_VERIFICATION_ATTEMPT_WINDOW_SECONDS;
          ((allowed, _, retry_after), st) =
            consume_rate_limit digest c1 ''verify_code:email'' (or_default normalized_email ''unknown'')
              per_email_limit window_seconds st
      in if \<not> allowed then ((False, Some (VerificationLimited retry_after)), st)
         else
           (let ((allowed, _, retry_after), st) =
                  consume_rate_limit digest c2 ''verify_code:ip'' client_ip per_ip_limit window_seconds st
            in if \<not> allowed then ((False, Some (VerificationLimited retry_after)), st)
               else ((True, None), st)))"

definition consume_passkey_auth_verify_limit ::
  "('ip, 'net) ip_lib \<Rightarrow> environ \<Rightarrow> (string \<Rightarrow> string) \<Rightarrow> 's call_env \<Rightarrow> request \<Rightarrow> 's limit_state
     \<Rightarrow> (bool \<times> limit_message option) \<times> 's limit_state" where
  "consume_passkey_auth_verify_limit L env digest c request st =
     (let client_ip = get_request_client_ip L env request;
          per_ip_limit =
            limit_from_env env ''PASSKEY_AUTH_VERIFY_PER_IP_LIMIT''
              DEFAULT_PASSKEY_AUTH_VERIFY_PER_IP_LIMIT;
          window_seconds =
            limit_from_env env ''PASSKEY_AUTH_WINDOW_SECONDS'' DEFAULT_PASSKEY_AUTH_WINDOW_SECONDS;
          ((allowed, _, retry_after), st) =
            consume_rate_limit digest c ''passkey_auth_verify:ip'' client_ip per_ip_limit
              window_seconds st
      in ((allowed, if allowed then None else Some (PasskeyVerifyLimited retry_after)), st))"

section \<open>Counting in memory\<close>

definition memory_attempt ::
  "(string \<Rightarrow> string) \<Rightarrow> string \<Rightarrow> string \<Rightarrow> int \<Rightarrow> int \<Rightarrow> ticks \<Rightarrow> 's limit_state \<Rightarrow> bool \<times> 's limit_state" where
  "memory_attempt digest p ident limit window t st =
     (let ((a, _, _), st') =
            consume_rate_limit digest \<lparr>ce_client = None, ce_fault = Delivered, ce_now = t\<rparr>
              p ident limit window st
      in (a, st'))"

fun window_count :: "(int \<times> ticks) option \<Rightarrow> int" where
  "window_count None = 0"
| "window_count (Some (c, _)) = c"

fun window_open :: "ticks \<Rightarrow> (int \<times> ticks) option \<Rightarrow> bool" where
  "window_open E None = True"
| "window_open E (Some (c, e)) = (0 \<le> c \<and> E \<le> e)"

lemma prune_open: "window_open E (w k) \<Longrightarrow> t < E \<Longrightarrow> prune_windows t w k = w k"
  by (auto simp: prune_windows_def split: option.splits)

lemma memory_consume_open:
  assumes "window_open E (w key)" and "t < E" and "E \<le> t + second * window"
  shows "fst (fst (consume_with_in_memory t key limit window w)) = (window_count (w key) < limit)"
    and "window_count (snd (consume_with_in_memory t key limit window w) key) =
           (if window_count (w key) < limit then window_count (w key) + 1 else window_count (w key))"
    and "window_open E (snd (consume_with_in_memory t key limit window w) key)"
  using assms prune_open [of E w key t]
  by (auto simp: consume_with_in_memory_def Let_def split: option.splits)

interpretation memory_window: counting_limiter
  "memory_attempt digest p ident limit window"
  "\<lambda>st. window_count (ls_windows st (limit_key digest p ident))"
  limit
  "\<lambda>st. window_open E (ls_windows st (limit_key digest p ident))"
  "\<lambda>t. t < E \<and> E \<le> t + second * window"
  for digest p ident limit window E
proof (standard, goal_cases)
  case (1 s i)
  then show ?case
    using memory_consume_open(3) [of E "ls_windows s" "limit_key digest p ident" i window limit]
    by (auto simp: memory_attempt_def consume_rate_limit_def Let_def split: prod.split)
next
  case (2 s i)
  have "0 \<le> window_count (ls_windows s (limit_key digest p ident))"
    using 2(1) by (cases "ls_windows s (limit_key digest p ident)") auto
  then show ?case
    using 2 memory_consume_open(1,2) [of E "ls_windows s" "limit_key digest p ident" i window limit]
    by (auto simp: memory_attempt_def consume_rate_limit_def Let_def split: prod.splits)
next
  case (3 s i)
  then show ?case
    using memory_consume_open(1,2) [of E "ls_windows s" "limit_key digest p ident" i window limit]
    by (auto simp: memory_attempt_def consume_rate_limit_def Let_def split: prod.splits)
qed

lemma memory_attempts_exact:
  assumes "0 \<le> limit"
    and "ls_windows st (limit_key digest p ident) = None"
    and "list_all (\<lambda>t. t0 \<le> t \<and> t < t0 + second * window) ts"
  shows "fst (attempts (memory_attempt digest p ident limit window) ts st) =
           replicate (min (length ts) (nat limit)) True @ replicate (length ts - nat limit) False"
proof -
  have "list_all (\<lambda>t. t < t0 + second * window \<and> t0 + second * window \<le> t + second * window) ts"
    using assms(3) by (auto simp: list_all_iff)
  with memory_window.attempts_exact
      [where E = "t0 + second * window" and limit = limit and s = st and digest = digest
        and p = p and ident = ident and window = window and xs = ts] assms
  show ?thesis by (simp add: Let_def min_def)
qed

section \<open>Counting in Redis\<close>

text \<open>
  An attempt at time \<open>t\<close> on the Redis path: the server's clock runs on from the last attempt, then the
  script is delivered.  The state carries the time of the last attempt.
\<close>

definition redis_attempt ::
  "'s redis_cmds \<Rightarrow> (ticks \<Rightarrow> 's \<Rightarrow> 's) \<Rightarrow> (string \<Rightarrow> string) \<Rightarrow> string \<Rightarrow> string \<Rightarrow> int \<Rightarrow> int
     \<Rightarrow> ticks \<Rightarrow> ticks \<times> 's limit_state \<Rightarrow> bool \<times> ticks \<times> 's limit_state" where
  "redis_attempt R elapse digest p ident limit window t cst =
     (let (clock, st) = cst;
          st = st\<lparr>ls_redis := elapse (t - clock) (ls_redis st)\<rparr>;
          ((a, _, _), st') =
            consume_rate_limit digest \<lparr>ce_client = Some R, ce_fault = Delivered, ce_now = t\<rparr>
              p ident limit window st
      in (a, t, st'))"

lemma script_full:
  assumes "entry_open E t (ks_data s key)" and "limit \<le> entry_count (ks_data s key)" and "0 < limit"
  shows "\<exists>c r. rate_limit_script ks_cmds key limit window s = (Inr [0, c, r], s)"
  using assms
  by (cases "(E, t, ks_data s key)" rule: entry_open.cases)
     (auto simp: rate_limit_script_def rbind_def rret_def rfail_def split: option.splits)

lemma script_room:
  assumes "entry_open E t (ks_data s key)" and "entry_count (ks_data s key) < limit"
    and "limit < 2 ^ 63" and "t < E" and "E \<le> t + second * window"
  shows "\<exists>r s'. rate_limit_script ks_cmds key limit window s =
           (Inr [1, entry_count (ks_data s key) + 1, r], s') \<and>
           entry_open E t (ks_data s' key) \<and>
           entry_count (ks_data s' key) = entry_count (ks_data s key) + 1"
  using assms
  by (cases "(E, t, ks_data s key)" rule: entry_open.cases)
     (auto simp: rate_limit_script_def rbind_def rret_def rfail_def split: option.splits)

context redis_server
begin

lemma sim_rate_limit_script:
  "sim view (rate_limit_script R key limit window) (rate_limit_script ks_cmds key limit window)"
  unfolding rate_limit_script_def ks_cmds_sel by (intro sim_intros sim_cmds)

lemma sim_consume_with_redis:
  "sim view (consume_with_redis R f key limit window) (consume_with_redis ks_cmds f key limit window)"
  unfolding consume_with_redis_def by (intro sim_intros sim_rate_limit_script)

lemma redis_consume_open:
  assumes "entry_open E t (ks_data (view s) key)" and "limit < 2 ^ 63" and "0 < limit"
    and "t < E" and "E \<le> t + second * window"
  shows "\<exists>rem r s'. consume_with_redis R Delivered key limit window s =
           (Some (entry_count (ks_data (view s) key) < limit, rem, r), s') \<and>
           entry_open E t (ks_data (view s') key) \<and>
           entry_count (ks_data (view s') key) =
             (if entry_count (ks_data (view s) key) < limit
              then entry_count (ks_data (view s) key) + 1 else entry_count (ks_data (view s) key))"
proof -
  obtain x s' where x: "rate_limit_script R key limit window s = (x, s')" by fastforce
  have v: "rate_limit_script ks_cmds key limit window (view s) = (x, view s')"
    using sim_step [OF sim_rate_limit_script x] .
  have c: "consume_with_redis R Delivered key limit window s = (limit_reply limit x, s')"
    by (simp add: consume_with_redis_def rtry_def x)
  show ?thesis
  proof (cases "entry_count (ks_data (view s) key) < limit")
    case True
    then show ?thesis
      using script_room [OF assms(1) True assms(2,4,5)] v c by auto
  next
    case False
    then show ?thesis
      using script_full [OF assms(1) _ assms(3), of window] v c assms(1) by auto
  qed
qed

end

sublocale redis_server < redis_window: counting_limiter
  "redis_attempt R elapse digest p ident limit window"
  "\<lambda>cst. entry_count (ks_data (view (ls_redis (snd cst))) (limit_key digest p ident))"
  limit
  "\<lambda>cst. limit < 2 ^ 63 \<and>
         entry_open E (fst cst) (ks_data (view (ls_redis (snd cst))) (limit_key digest p ident))"
  "\<lambda>t. t < E \<and> E \<le> t + second * window"
  for digest p ident limit window E
proof -
  let ?k = "limit_key digest p ident"
  let ?e = "\<lambda>cst. ks_data (view (ls_redis (snd cst))) ?k"
  have step: "entry_open E t (?e (snd (redis_attempt R elapse digest p ident limit window t cst))) \<and>
      fst (redis_attempt R elapse digest p ident limit window t cst) = (entry_count (?e cst) < limit) \<and>
      fst (snd (redis_attempt R elapse digest p ident limit window t cst)) = t \<and>
      entry_count (?e (snd (redis_attempt R elapse digest p ident limit window t cst))) =
        (if entry_count (?e cst) < limit then entry_count (?e cst) + 1 else entry_count (?e cst))"
    if "limit < 2 ^ 63" "entry_open E (fst cst) (?e cst)" "t < E" "E \<le> t + second * window" for t cst
  proof -
    let ?s = "elapse (t - fst cst) (ls_redis (snd cst))"
    have e: "entry_open E t (ks_data (view ?s) ?k)"
        "entry_count (ks_data (view ?s) ?k) = entry_count (?e cst)"
      using entry_open_elapse [OF that(2,3)] by (simp_all add: view_elapse)
    have "0 \<le> entry_count (?e cst)" using entry_count_nonneg [OF that(2)] .
    then show ?thesis
      using redis_consume_open [OF e(1) that(1) _ that(3,4)] e
      by (cases "0 < limit") (auto simp: redis_attempt_def consume_rate_limit_def split_beta Let_def)
  qed
  show "counting_limiter (redis_attempt R elapse digest p ident limit window)
     (\<lambda>cst. entry_count (?e cst)) limit
     (\<lambda>cst. limit < 2 ^ 63 \<and> entry_open E (fst cst) (?e cst))
     (\<lambda>t. t < E \<and> E \<le> t + second * window)"
    by standard (use step in auto)
qed

text \<open>
  A counter without expiry (\<open>entry_endless\<close>; \<open>TTL\<close> answers -1) keeps counting for ever: the script reports the default
  lifetime for it and does not set one.
\<close>

lemma script_endless:
  assumes "entry_endless (ks_data s key)" and "limit < 2 ^ 63" and "0 < limit"
  shows "\<exists>a c r s'. rate_limit_script ks_cmds key limit window s = (Inr [a, c, r], s') \<and>
           (a = 1) = (entry_count (ks_data s key) < limit) \<and>
           entry_endless (ks_data s' key) \<and>
           entry_count (ks_data s' key) =
             (if entry_count (ks_data s key) < limit
              then entry_count (ks_data s key) + 1 else entry_count (ks_data s key))"
  using assms
  by (cases "ks_data s key" rule: entry_endless.cases)
     (auto simp: rate_limit_script_def rbind_def rret_def rfail_def split: option.splits)

sublocale redis_server < endless_window: counting_limiter
  "redis_attempt R elapse digest p ident limit window"
  "\<lambda>cst. entry_count (ks_data (view (ls_redis (snd cst))) (limit_key digest p ident))"
  limit
  "\<lambda>cst. limit < 2 ^ 63 \<and> 0 < limit \<and>
         entry_endless (ks_data (view (ls_redis (snd cst))) (limit_key digest p ident))"
  "\<lambda>t. True"
  for digest p ident limit window
proof -
  let ?k = "limit_key digest p ident"
  let ?e = "\<lambda>cst. ks_data (view (ls_redis (snd cst))) ?k"
  have step: "entry_endless (?e (snd (redis_attempt R elapse digest p ident limit window t cst))) \<and>
      fst (redis_attempt R elapse digest p ident limit window t cst) = (entry_count (?e cst) < limit) \<and>
      entry_count (?e (snd (redis_attempt R elapse digest p ident limit window t cst))) =
        (if entry_count (?e cst) < limit then entry_count (?e cst) + 1 else entry_count (?e cst))"
    if "limit < 2 ^ 63" "0 < limit" "entry_endless (?e cst)" for t cst
  proof -
    let ?s = "elapse (t - fst cst) (ls_redis (snd cst))"
    have e: "ks_data (view ?s) ?k = ?e cst"
      using entry_endless_elapse [OF that(3)] by (simp add: view_elapse)
    obtain x s' where x: "rate_limit_script R ?k limit window ?s = (x, s')" by fastforce
    have "rate_limit_script ks_cmds ?k limit window (view ?s) = (x, view s')"
      using sim_step [OF sim_rate_limit_script x] .
    then show ?thesis
      using script_endless [of "view ?s" ?k limit window] that e x
      by (auto simp: redis_attempt_def consume_rate_limit_def consume_with_redis_def rtry_def
            split_beta Let_def)
  qed
  show "counting_limiter (redis_attempt R elapse digest p ident limit window)
     (\<lambda>cst. entry_count (?e cst)) limit
     (\<lambda>cst. limit < 2 ^ 63 \<and> 0 < limit \<and> entry_endless (?e cst)) (\<lambda>t. True)"
    by standard (use step in auto)
qed

context redis_server
begin

lemma redis_attempts_exact:
  assumes "0 \<le> limit" and "limit < 2 ^ 63"
    and "ks_data (view (ls_redis st)) (limit_key digest p ident) = None"
    and "list_all (\<lambda>t. t0 \<le> t \<and> t < t0 + second * window) ts"
  shows "fst (attempts (redis_attempt R elapse digest p ident limit window) ts (t0, st)) =
           replicate (min (length ts) (nat limit)) True @ replicate (length ts - nat limit) False"
proof -
  have "list_all (\<lambda>t. t < t0 + second * window \<and> t0 + second * window \<le> t + second * window) ts"
    using assms(4) by (auto simp: list_all_iff)
  with redis_window.attempts_exact
      [where E = "t0 + second * window" and limit = limit and s = "(t0, st)" and digest = digest
        and p = p and ident = ident and window = window and xs = ts] assms
  show ?thesis by (simp add: Let_def min_def)
qed

lemma endless_attempts_full:
  assumes "0 < limit" and "limit < 2 ^ 63"
    and "ks_data (view (ls_redis st)) (limit_key digest p ident) = Some (RString v, None)"
    and "dec_int v = Some n" and "limit \<le> n"
  shows "fst (attempts (redis_attempt R elapse digest p ident limit window) ts (t0, st)) =
           replicate (length ts) False"
  using endless_window.attempts_full [of limit "(t0, st)" digest p ident ts window] assms
  by (simp add: list_all_iff)

end

section \<open>The two counters agree\<close>

text \<open>The counter of a key in Redis at the time \<open>clock\<close> and the dictionary entry that says the same.\<close>

fun same_window :: "ticks \<Rightarrow> rentry option \<Rightarrow> (int \<times> ticks) option \<Rightarrow> bool" where
  "same_window clock None w = (case w of None \<Rightarrow> True | Some (c, expires_at) \<Rightarrow> expires_at \<le> clock)"
| "same_window clock (Some (RString v, Some d)) w =
     (case dec_int v of None \<Rightarrow> False | Some n \<Rightarrow> 0 < n \<and> 0 < d \<and> w = Some (n, clock + d))"
| "same_window clock _ w = False"

lemma same_window_elapse:
  assumes "same_window clock e w" and "clock \<le> t"
  shows "same_window t (Option.bind e (age_entry (t - clock))) w"
  using assms by (cases "(clock, e, w)" rule: same_window.cases) (auto split: option.splits)

lemma script_same_window:
  assumes "same_window t (ks_data s key) (w key)" and "0 < limit" and "limit < 2 ^ 63" and "0 < window"
  shows "\<exists>a c r s'. rate_limit_script ks_cmds key limit window s = (Inr [a, c, r], s') \<and>
           (a = 1) = fst (fst (consume_with_in_memory t key limit window w)) \<and>
           same_window t (ks_data s' key) (snd (consume_with_in_memory t key limit window w) key)"
  using assms
  by (cases "(t, ks_data s key, w key)" rule: same_window.cases)
     (auto simp: rate_limit_script_def rbind_def rret_def rfail_def consume_with_in_memory_def
        prune_windows_def Let_def split: option.splits)

context redis_server
begin

lemma attempt_agrees:
  assumes "same_window clock (ks_data (view (ls_redis st)) (limit_key digest p ident))
             (ls_windows mem (limit_key digest p ident))"
    and "clock \<le> t" and "limit < 2 ^ 63" and "0 < window"
    and r: "redis_attempt R elapse digest p ident limit window t (clock, st) = (a, t', st')"
    and m: "memory_attempt digest p ident limit window t mem = (b, mem')"
  shows "a = b \<and> t' = t \<and>
         same_window t (ks_data (view (ls_redis st')) (limit_key digest p ident))
           (ls_windows mem' (limit_key digest p ident))"
proof -
  let ?k = "limit_key digest p ident" and ?s = "elapse (t - clock) (ls_redis st)"
  have e: "same_window t (ks_data (view ?s) ?k) (ls_windows mem ?k)"
    using same_window_elapse [OF assms(1,2)] by (simp add: view_elapse)
  obtain x s' where x: "rate_limit_script R ?k limit window ?s = (x, s')" by fastforce
  have v: "rate_limit_script ks_cmds ?k limit window (view ?s) = (x, view s')"
    using sim_step [OF sim_rate_limit_script x] .
  show ?thesis
  proof (cases "0 < limit")
    case True
    then show ?thesis
      using script_same_window [where w = "ls_windows mem", OF e True assms(3,4)] v x r m
      by (auto simp: redis_attempt_def memory_attempt_def consume_rate_limit_def consume_with_redis_def
            rtry_def Let_def split: prod.splits)
  next
    case False
    then show ?thesis
      using e r m by (auto simp: redis_attempt_def memory_attempt_def consume_rate_limit_def Let_def)
  qed
qed

lemma attempts_agree:
  assumes "limit < 2 ^ 63" and "0 < window" and "sorted ts" and "list_all (\<lambda>t. clock \<le> t) ts"
    and "same_window clock (ks_data (view (ls_redis st)) (limit_key digest p ident))
           (ls_windows mem (limit_key digest p ident))"
  shows "fst (attempts (redis_attempt R elapse digest p ident limit window) ts (clock, st)) =
         fst (attempts (memory_attempt digest p ident limit window) ts mem)"
  using assms(3-5)
proof (induction ts arbitrary: clock st mem)
  case (Cons t ts)
  obtain a t' st' where r: "redis_attempt R elapse digest p ident limit window t (clock, st) = (a, t', st')"
    by (rule prod_cases3)
  obtain b mem' where m: "memory_attempt digest p ident limit window t mem = (b, mem')" by fastforce
  have "a = b" "t' = t" and
    w: "same_window t (ks_data (view (ls_redis st')) (limit_key digest p ident))
          (ls_windows mem' (limit_key digest p ident))"
    using attempt_agrees [OF Cons.prems(3) _ assms(1,2) r m] Cons.prems(2) by auto
  moreover have "fst (attempts (redis_attempt R elapse digest p ident limit window) ts (t, st')) =
      fst (attempts (memory_attempt digest p ident limit window) ts mem')"
    using Cons.IH [of t st' mem'] Cons.prems(1) w by (simp add: list_all_iff)
  ultimately show ?case using r m by (simp add: split_beta)
qed simp

end

section \<open>What a caller is told\<close>

lemma in_memory_reply_bounds:
  "consume_with_in_memory now key limit window w = ((a, rem, retry), w') \<Longrightarrow>
   0 \<le> rem \<and> 1 \<le> retry \<and> (\<not> a \<longrightarrow> rem = 0)"
  by (auto simp: consume_with_in_memory_def Let_def split: if_splits prod.splits)

lemma limit_reply_bounds: "limit_reply limit x = Some (a, rem, retry) \<Longrightarrow> 0 \<le> rem \<and> 1 \<le> retry"
  by (cases "(limit, x)" rule: limit_reply.cases) auto

lemma consume_with_redis_reply:
  "consume_with_redis R f key limit window s = (x, s') \<Longrightarrow> \<exists>r. x = limit_reply limit r"
  by (auto simp: consume_with_redis_def rtry_def split: prod.splits)

section \<open>Properties\<close>

text \<open>
  Counting in Redis is exact.  On any server that implements the documented commands, when no
  counter exists at \<open>t0\<close>, of any number of attempts for one identifier made before
  \<open>t0 + window\<close> the first \<open>limit\<close> are admitted and every later one is refused.
\<close>

theorem rate_limit_redis_exact:
  assumes "redis_server R view elapse"
    and "0 \<le> limit" and "limit < 2 ^ 63"
    and "ks_data (view (ls_redis st)) (limit_key digest p ident) = None"
    and "list_all (\<lambda>t. t0 \<le> t \<and> t < t0 + second * window) ts"
  shows "fst (attempts (redis_attempt R elapse digest p ident limit window) ts (t0, st)) =
           replicate (min (length ts) (nat limit)) True @ replicate (length ts - nat limit) False"
  by (rule redis_server.redis_attempts_exact [OF assms])

theorem rate_limit_redis_exact_witness:
  "fst (attempts (redis_attempt ks_cmds ks_elapse id ''demo_login:ip'' ''10.0.0.1'' 2 900)
          [0, second, 5 * second] (0, \<lparr>ls_redis = empty_keyspace, ls_windows = (\<lambda>_. None)\<rparr>)) =
     [True, True, False]"
  using rate_limit_redis_exact
    [of ks_cmds id ks_elapse 2 "\<lparr>ls_redis = empty_keyspace, ls_windows = (\<lambda>_. None)\<rparr>" id
        "''demo_login:ip''" "''10.0.0.1''" 0 900 "[0, second, 5 * second]"]
  by (simp add: reference_server.redis_server_axioms empty_keyspace_def numeral_eq_Suc)

text \<open>
  C27: the two ways of counting agree.  For an identifier that neither Redis nor the dictionary has a
  counter of, and attempts at any times in their order, over as many windows as they span, counting
  in Redis admits exactly the attempts that counting in memory admits.
\<close>

theorem limit_backends_agree:
  assumes "redis_server R view elapse"
    and "limit < 2 ^ 63" and "0 < window" and "sorted ts" and "list_all (\<lambda>t. t0 \<le> t) ts"
    and "ks_data (view (ls_redis st)) (limit_key digest p ident) = None"
    and "ls_windows mem (limit_key digest p ident) = None"
  shows "fst (attempts (redis_attempt R elapse digest p ident limit window) ts (t0, st)) =
         fst (attempts (memory_attempt digest p ident limit window) ts mem)"
  using redis_server.attempts_agree [OF assms(1-5), of st digest p ident mem] assms(6,7) by simp

theorem limit_backends_agree_witness:
  "fst (attempts (redis_attempt ks_cmds ks_elapse id ''admin_login:ip'' ''10.0.0.1'' 2 900)
          [0, second, 5 * second, 900 * second, 901 * second]
          (0, \<lparr>ls_redis = empty_keyspace, ls_windows = (\<lambda>_. None)\<rparr>)) =
   fst (attempts (memory_attempt id ''admin_login:ip'' ''10.0.0.1'' 2 900)
          [0, second, 5 * second, 900 * second, 901 * second]
          \<lparr>ls_redis = (), ls_windows = (\<lambda>_. None)\<rparr>)"
  by (rule limit_backends_agree [of ks_cmds id ks_elapse])
     (simp_all add: reference_server.redis_server_axioms empty_keyspace_def)

text \<open>
  A counter that has no expiry is never given one.  Whatever the times of the attempts, once such
  a counter has reached the limit every attempt is refused, although the script answers the default
  lifetime as the waiting time.
\<close>

theorem counter_without_expiry_blocks_forever:
  assumes "redis_server R view elapse"
    and "0 < limit" and "limit < 2 ^ 63"
    and "ks_data (view (ls_redis st)) (limit_key digest p ident) = Some (RString v, None)"
    and "dec_int v = Some n" and "limit \<le> n"
  shows "fst (attempts (redis_attempt R elapse digest p ident limit window) ts (t0, st)) =
           replicate (length ts) False"
  by (rule redis_server.endless_attempts_full [OF assms])

theorem counter_without_expiry_blocks_forever_witness:
  "fst (attempts (redis_attempt ks_cmds ks_elapse (\<lambda>_. ''h'') ''admin_login:ip'' ''10.0.0.1'' 3 900)
          [0, 86400 * second]
          (0, \<lparr>ls_redis = put_key ''admin_login:ip:h'' (RString ''3'', None) empty_keyspace,
               ls_windows = (\<lambda>_. None)\<rparr>)) = [False, False]"
  using counter_without_expiry_blocks_forever
    [of ks_cmds id ks_elapse 3
        "\<lparr>ls_redis = put_key ''admin_login:ip:h'' (RString ''3'', None) empty_keyspace,
          ls_windows = (\<lambda>_. None)\<rparr>" "\<lambda>_. ''h''" "''admin_login:ip''" "''10.0.0.1''" "''3''" 3 900
        "[0, 86400 * second]" 0]
  by (simp add: reference_server.redis_server_axioms limit_key_def dec_int_def is_digit_def
        digit_value_def numeral_eq_Suc)

text \<open>
  Whatever the server answers and however a call fails, the caller is told a remaining count that
  is not negative and a waiting time of at least one second.
\<close>

theorem consume_rate_limit_reply_bounds:
  assumes "consume_rate_limit digest c p ident limit window st = ((allowed, rem, retry), st')"
  shows "0 \<le> rem \<and> 1 \<le> retry"
  using assms
  by (auto simp: consume_rate_limit_def Let_def
        dest!: in_memory_reply_bounds consume_with_redis_reply limit_reply_bounds [OF sym]
        split: if_splits option.splits prod.splits)

theorem consume_rate_limit_reply_bounds_witness:
  "0 \<le> (1::int) \<and> 1 \<le> (900::int)"
  by (rule consume_rate_limit_reply_bounds
       [of id "\<lparr>ce_client = None, ce_fault = Delivered, ce_now = 0\<rparr>" "''p''" "''i''" 2 900
           "\<lparr>ls_redis = (), ls_windows = (\<lambda>_. None)\<rparr>" True 1 900
           "\<lparr>ls_redis = (), ls_windows = [limit_key id ''p'' ''i'' \<mapsto> (1, 900 * second)]\<rparr>"])
     (simp add: consume_rate_limit_def consume_with_in_memory_def prune_windows_def Let_def
        ceil_seconds_def)

text \<open>
  Degradation.  When Redis cannot be reached, before or after the script ran, the decision is the
  one of the in-memory counter at the same key, and only that dictionary entry (and expired ones)
  changes.
\<close>

theorem consume_rate_limit_degrades:
  assumes "ce_client c = None \<or> ce_fault c \<noteq> Delivered" and "0 < limit"
    and "consume_rate_limit digest c p ident limit window st = (res, st')"
  shows "(res, ls_windows st') =
           consume_with_in_memory (ce_now c) (limit_key digest p ident) limit window (ls_windows st)"
  using assms
  by (cases "ce_fault c")
     (auto simp: consume_rate_limit_def consume_with_redis_def rtry_def Let_def
        split: option.splits prod.splits)

theorem consume_rate_limit_degrades_witness:
  "consume_rate_limit id \<lparr>ce_client = Some ks_cmds, ce_fault = NotSent, ce_now = 0\<rparr> ''p'' ''i'' 2 900
     \<lparr>ls_redis = empty_keyspace, ls_windows = (\<lambda>_. None)\<rparr>
   = ((True, 1, 900),
      \<lparr>ls_redis = empty_keyspace, ls_windows = [limit_key id ''p'' ''i'' \<mapsto> (1, 900 * second)]\<rparr>)
   \<and> ((True, 1, 900), [limit_key id ''p'' ''i'' \<mapsto> (1, 900 * second)]) =
       consume_with_in_memory 0 (limit_key id ''p'' ''i'') 2 900 (\<lambda>_. None)"
  using consume_rate_limit_degrades
       [of "\<lparr>ce_client = Some ks_cmds, ce_fault = NotSent, ce_now = 0\<rparr>" 2 id "''p''" "''i''" 900
           "\<lparr>ls_redis = empty_keyspace, ls_windows = (\<lambda>_. None)\<rparr>" "(True, 1, 900)"
           "\<lparr>ls_redis = empty_keyspace, ls_windows = [limit_key id ''p'' ''i'' \<mapsto> (1, 900 * second)]\<rparr>"]
  by (simp add: consume_rate_limit_def consume_with_redis_def rtry_def consume_with_in_memory_def
      prune_windows_def Let_def ceil_seconds_def)

end
