(* ===== verification/Quota.thy ===== *)
theory Quota
  imports Rate_Limit
begin

text \<open>
  \<open>LlmDailyLimitService\<close> of \<open>services/llm_daily_limit.py\<close>: daily and monthly quotas.  A counter's key
  carries the period (the ISO date or the month), so a new period starts a new counter; Redis counters
  expire at the end of the period, in-memory counters of other periods are pruned at every call.
  The state is the Redis server and the two dictionaries of counts.
\<close>

section \<open>Settings and keys\<close>

definition get_limit :: "environ \<Rightarrow> string \<Rightarrow> int \<Rightarrow> int" where
  "get_limit env env_name default_limit =
     (case py_int (case env env_name of None \<Rightarrow> show_int default_limit | Some raw \<Rightarrow> raw) of
        None \<Rightarrow> default_limit
      | Some limit \<Rightarrow> max limit 0)"

definition quota_seconds_until_tomorrow :: "ticks \<Rightarrow> int" where
  "quota_seconds_until_tomorrow now =
     (let tomorrow = midnight (add_days (date_of now) 1)
      in max (trunc_seconds (tomorrow - now)) 1)"

definition seconds_until_next_month :: "ticks \<Rightarrow> int" where
  "seconds_until_next_month now =
     (let first_of_next_month = midnight (next_month_start (date_of now))
      in max (trunc_seconds (first_of_next_month - now)) 1)"

definition build_quota_key :: "(string \<Rightarrow> string) \<Rightarrow> string \<Rightarrow> string \<Rightarrow> string option \<Rightarrow> string" where
  "build_quota_key digest key_prefix period user_key =
     (if user_key = None \<or> user_key = Some [] then key_prefix @ '':'' @ period
      else key_prefix @ '':user:'' @ digest (the user_key) @ '':'' @ period)"

section \<open>State\<close>

type_synonym counts = "string \<Rightarrow> int option"

record 's quota_state =
  qs_redis :: 's
  qs_daily :: counts
  qs_monthly :: counts

text \<open>A call reads the calendar day (\<open>date.today()\<close>) and the time of day (\<open>datetime.now()\<close>) separately.\<close>

record 's quota_env =
  qe_client :: "'s redis_cmds option"
  qe_fault :: fault
  qe_today :: ticks
  qe_now :: ticks

definition quota_reset_in_memory_state :: "'s quota_state \<Rightarrow> 's quota_state" where
  "quota_reset_in_memory_state st = st\<lparr>qs_daily := (\<lambda>_. None), qs_monthly := (\<lambda>_. None)\<rparr>"

section \<open>Counting\<close>

definition quota_script :: "'s redis_cmds \<Rightarrow> string \<Rightarrow> int \<Rightarrow> int \<Rightarrow> ('s, int list) rcmd" where
  "quota_script R key limit ttl =
     rbind (rc_get R key) (\<lambda>stored.
       case (case stored of None \<Rightarrow> Some 0 | Some v \<Rightarrow> dec_int v) of
         None \<Rightarrow> rfail
       | Some current \<Rightarrow>
           if limit \<le> current then rret [0, current]
           else
             rbind (rc_incr R key) (\<lambda>current'.
               if current' = 1 then rbind (rc_expire R key ttl) (\<lambda>_. rret [1, current'])
               else rret [1, current']))"

fun quota_reply :: "int \<Rightarrow> redis_exn + int list \<Rightarrow> (bool \<times> int) option" where
  "quota_reply limit (Inr [a, c]) = Some (a = 1, max (limit - c) 0)"
| "quota_reply limit _ = None"

definition quota_with_redis ::
  "'s redis_cmds \<Rightarrow> fault \<Rightarrow> string \<Rightarrow> int \<Rightarrow> int \<Rightarrow> 's \<Rightarrow> (bool \<times> int) option \<times> 's" where
  "quota_with_redis R f redis_key limit ttl_seconds =
     rtry (redis_call f (quota_script R redis_key limit ttl_seconds))
       (\<lambda>result. Pair (quota_reply limit result))"

definition prune_periods :: "string \<Rightarrow> counts \<Rightarrow> counts" where
  "prune_periods current_period w = (\<lambda>k. if endswith k ('':'' @ current_period) then w k else None)"

definition quota_with_in_memory ::
  "string \<Rightarrow> string \<Rightarrow> int \<Rightarrow> counts \<Rightarrow> (bool \<times> int) \<times> counts" where
  "quota_with_in_memory quota_key current_period limit w0 =
     (let w = prune_periods current_period w0;
          current = (case w quota_key of None \<Rightarrow> 0 | Some c \<Rightarrow> c)
      in if limit \<le> current then ((False, 0), w)
         else ((True, max (limit - (current + 1)) 0), w(quota_key \<mapsto> current + 1)))"

definition or_else :: "string option \<Rightarrow> string \<Rightarrow> string" where
  "or_else s d = (case s of None \<Rightarrow> d | Some t \<Rightarrow> or_default t d)"

definition consume_daily_quota ::
  "environ \<Rightarrow> (string \<Rightarrow> string) \<Rightarrow> 's quota_env \<Rightarrow> string \<Rightarrow> string \<Rightarrow> int \<Rightarrow> string option
     \<Rightarrow> string option \<Rightarrow> 's quota_state \<Rightarrow> (bool \<times> int \<times> int) \<times> 's quota_state" where
  "consume_daily_quota env digest c key_prefix env_name default_limit current_date user_key st =
     (let daily_limit = get_limit env env_name default_limit
      in if daily_limit \<le> 0 then ((False, 0, daily_limit), st)
         else
           (let today = or_else current_date (isoformat (date_of (qe_today c)));
                quota_key = build_quota_key digest key_prefix today user_key;
                (redis_result, r) =
                  (case qe_client c of
                     None \<Rightarrow> (None, qs_redis st)
                   | Some R \<Rightarrow>
                       quota_with_redis R (qe_fault c) quota_key daily_limit
                         (quota_seconds_until_tomorrow (qe_now c)) (qs_redis st));
                st = st\<lparr>qs_redis := r\<rparr>
            in case redis_result of
                 Some (allowed, remaining) \<Rightarrow> ((allowed, remaining, daily_limit), st)
               | None \<Rightarrow>
                   (let ((allowed, remaining), w) =
                          quota_with_in_memory quota_key today daily_limit (qs_daily st)
                    in ((allowed, remaining, daily_limit), st\<lparr>qs_daily := w\<rparr>))))"

definition consume_monthly_quota ::
  "environ \<Rightarrow> (string \<Rightarrow> string) \<Rightarrow> 's quota_env \<Rightarrow> string \<Rightarrow> string \<Rightarrow> int \<Rightarrow> string option
     \<Rightarrow> string option \<Rightarrow> 's quota_state \<Rightarrow> (bool \<times> int \<times> int) \<times> 's quota_state" where
  "consume_monthly_quota env digest c key_prefix env_name default_limit current_month user_key st =
     (let monthly_limit = get_limit env env_name default_limit
      in if monthly_limit \<le> 0 then ((False, 0, monthly_limit), st)
         else
           (let mon = or_else current_month (month_format (date_of (qe_today c)));
                quota_key = build_quota_key digest key_prefix mon user_key;
                (redis_result, r) =
                  (case qe_client c of
                     None \<Rightarrow> (None, qs_redis st)
                   | Some R \<Rightarrow>
                       quota_with_redis R (qe_fault c) quota_key monthly_limit
                         (seconds_until_next_month (qe_now c)) (qs_redis st));
                st = st\<lparr>qs_redis := r\<rparr>
            in case redis_result of
                 Some (allowed, remaining) \<Rightarrow> ((allowed, remaining, monthly_limit), st)
               | None \<Rightarrow>
                   (let ((allowed, remaining), w) =
                          quota_with_in_memory quota_key mon monthly_limit (qs_monthly st)
                    in ((allowed, remaining, monthly_limit), st\<lparr>qs_monthly := w\<rparr>))))"

section \<open>The quotas of the service\<close>

definition consume_llm_daily_quota ::
  "environ \<Rightarrow> (string \<Rightarrow> string) \<Rightarrow> 's quota_env \<Rightarrow> string option \<Rightarrow> string option \<Rightarrow> 's quota_state
     \<Rightarrow> (bool \<times> int \<times> int) \<times> 's quota_state" where
  "consume_llm_daily_quota env digest c current_date user_key =
     consume_daily_quota env digest c ''llm:daily_api_total'' ''LLM_DAILY_API_LIMIT'' 300
       current_date user_key"

definition consume_auth_email_daily_quota ::
  "environ \<Rightarrow> (string \<Rightarrow> string) \<Rightarrow> 's quota_env \<Rightarrow> string option \<Rightarrow> 's quota_state
     \<Rightarrow> (bool \<times> int \<times> int) \<times> 's quota_state" where
  "consume_auth_email_daily_quota env digest c current_date =
     consume_daily_quota env digest c ''auth_email:daily_send_total'' ''AUTH_EMAIL_DAILY_SEND_LIMIT'' 50
       current_date None"

definition consume_ai_agent_monthly_quota ::
  "environ \<Rightarrow> (string \<Rightarrow> string) \<Rightarrow> 's quota_env \<Rightarrow> string option \<Rightarrow> string option \<Rightarrow> 's quota_state
     \<Rightarrow> (bool \<times> int \<times> int) \<times> 's quota_state" where
  "consume_ai_agent_monthly_quota env digest c current_month user_key =
     consume_monthly_quota env digest c ''llm:agent_monthly_total'' ''AI_AGENT_MONTHLY_API_LIMIT'' 1000
       current_month user_key"

definition consume_brave_web_search_monthly_quota ::
  "environ \<Rightarrow> (string \<Rightarrow> string) \<Rightarrow> 's quota_env \<Rightarrow> string option \<Rightarrow> 's quota_state
     \<Rightarrow> (bool \<times> int \<times> int) \<times> 's quota_state" where
  "consume_brave_web_search_monthly_quota env digest c current_month =
     consume_monthly_quota env digest c ''brave:web_search_monthly_total''
       ''BRAVE_WEB_SEARCH_MONTHLY_LIMIT'' 1000 current_month None"

section \<open>Counting in Redis\<close>

lemma trunc_seconds_nonneg: "0 \<le> d \<Longrightarrow> d - second < second * trunc_seconds d"
  using mult_div_mod_eq [of second d] pos_mod_bound [of second d]
  unfolding trunc_seconds_def by simp

text \<open>The lifetime given to a daily counter reaches to less than a second before midnight.\<close>

lemma until_tomorrow_reaches:
  "midnight (date_of t) + day_ticks - second \<le> t + second * quota_seconds_until_tomorrow t"
proof -
  have "0 \<le> midnight (date_of t) + day_ticks - t" using date_of_bounds [of t] by linarith
  from trunc_seconds_nonneg [OF this] show ?thesis
    by (simp add: quota_seconds_until_tomorrow_def midnight_add_days)
qed

lemma quota_script_full:
  assumes "entry_open E t (ks_data s key)" and "limit \<le> entry_count (ks_data s key)" and "0 < limit"
  shows "\<exists>c. quota_script ks_cmds key limit ttl s = (Inr [0, c], s)"
  using assms
  by (cases "(E, t, ks_data s key)" rule: entry_open.cases)
     (auto simp: quota_script_def rbind_def rret_def rfail_def split: option.splits)

lemma quota_script_room:
  assumes "entry_open E t (ks_data s key)" and "entry_count (ks_data s key) < limit"
    and "limit < 2 ^ 63" and "t < E" and "E \<le> t + second * ttl"
  shows "\<exists>s'. quota_script ks_cmds key limit ttl s = (Inr [1, entry_count (ks_data s key) + 1], s') \<and>
           entry_open E t (ks_data s' key) \<and>
           entry_count (ks_data s' key) = entry_count (ks_data s key) + 1"
  using assms
  by (cases "(E, t, ks_data s key)" rule: entry_open.cases)
     (auto simp: quota_script_def rbind_def rret_def rfail_def split: option.splits)

text \<open>One request of the LLM quota for a user at local time \<open>t\<close>, the server's clock running along.\<close>

definition llm_quota_attempt ::
  "'s redis_cmds \<Rightarrow> (ticks \<Rightarrow> 's \<Rightarrow> 's) \<Rightarrow> environ \<Rightarrow> (string \<Rightarrow> string) \<Rightarrow> string option
     \<Rightarrow> ticks \<Rightarrow> ticks \<times> 's quota_state \<Rightarrow> bool \<times> ticks \<times> 's quota_state" where
  "llm_quota_attempt R elapse env digest user t cst =
     (let (clock, st) = cst;
          st = st\<lparr>qs_redis := elapse (t - clock) (qs_redis st)\<rparr>;
          ((a, _, _), st') =
            consume_llm_daily_quota env digest
              \<lparr>qe_client = Some R, qe_fault = Delivered, qe_today = t, qe_now = t\<rparr> None user st
      in (a, t, st'))"

abbreviation llm_limit :: "environ \<Rightarrow> int" where
  "llm_limit env \<equiv> get_limit env ''LLM_DAILY_API_LIMIT'' 300"

abbreviation llm_key :: "(string \<Rightarrow> string) \<Rightarrow> string option \<Rightarrow> date \<Rightarrow> string" where
  "llm_key digest user d \<equiv> build_quota_key digest ''llm:daily_api_total'' (isoformat d) user"

lemma isoformat_nonempty [simp]: "isoformat d \<noteq> []"
  by (simp add: isoformat_def)

context redis_server
begin

lemma sim_quota_script:
  "sim view (quota_script R key limit ttl) (quota_script ks_cmds key limit ttl)"
  unfolding quota_script_def ks_cmds_sel by (intro sim_intros sim_cmds)

lemma quota_redis_open:
  assumes "entry_open E t (ks_data (view s) key)" and "limit < 2 ^ 63" and "0 < limit"
    and "t < E" and "E \<le> t + second * ttl"
  shows "\<exists>rem s'. quota_with_redis R Delivered key limit ttl s =
           (Some (entry_count (ks_data (view s) key) < limit, rem), s') \<and>
           entry_open E t (ks_data (view s') key) \<and>
           entry_count (ks_data (view s') key) =
             (if entry_count (ks_data (view s) key) < limit
              then entry_count (ks_data (view s) key) + 1 else entry_count (ks_data (view s) key))"
proof -
  obtain x s' where x: "quota_script R key limit ttl s = (x, s')" by fastforce
  have v: "quota_script ks_cmds key limit ttl (view s) = (x, view s')"
    using sim_step [OF sim_quota_script x] .
  have c: "quota_with_redis R Delivered key limit ttl s = (quota_reply limit x, s')"
    by (simp add: quota_with_redis_def rtry_def x)
  show ?thesis
  proof (cases "entry_count (ks_data (view s) key) < limit")
    case True
    then show ?thesis using quota_script_room [OF assms(1) True assms(2,4,5)] v c by auto
  next
    case False
    then show ?thesis using quota_script_full [OF assms(1) _ assms(3), of ttl] v c assms(1) by auto
  qed
qed

end

sublocale redis_server < llm_quota: counting_limiter
  "llm_quota_attempt R elapse env digest user"
  "\<lambda>cst. entry_count (ks_data (view (qs_redis (snd cst))) (llm_key digest user d))"
  "llm_limit env"
  "\<lambda>cst. llm_limit env < 2 ^ 63 \<and>
     entry_open (midnight d + day_ticks - second) (fst cst)
       (ks_data (view (qs_redis (snd cst))) (llm_key digest user d))"
  "\<lambda>t. date_of t = d \<and> t < midnight d + day_ticks - second"
  for env digest user d
proof -
  let ?k = "llm_key digest user d" and ?E = "midnight d + day_ticks - second"
  let ?l = "llm_limit env"
  let ?e = "\<lambda>cst. ks_data (view (qs_redis (snd cst))) ?k"
  have step: "entry_open ?E t (?e (snd (llm_quota_attempt R elapse env digest user t cst))) \<and>
      fst (llm_quota_attempt R elapse env digest user t cst) = (entry_count (?e cst) < ?l) \<and>
      fst (snd (llm_quota_attempt R elapse env digest user t cst)) = t \<and>
      entry_count (?e (snd (llm_quota_attempt R elapse env digest user t cst))) =
        (if entry_count (?e cst) < ?l then entry_count (?e cst) + 1 else entry_count (?e cst))"
    if "?l < 2 ^ 63" "entry_open ?E (fst cst) (?e cst)" "date_of t = d" "t < ?E" for t cst
  proof -
    let ?s = "elapse (t - fst cst) (qs_redis (snd cst))"
    have e: "entry_open ?E t (ks_data (view ?s) ?k)"
        "entry_count (ks_data (view ?s) ?k) = entry_count (?e cst)"
      using entry_open_elapse [OF that(2,4)] by (simp_all add: view_elapse)
    have E: "?E \<le> t + second * quota_seconds_until_tomorrow t"
      using until_tomorrow_reaches [of t] that(3) by simp
    have "0 \<le> entry_count (?e cst)" using entry_count_nonneg [OF that(2)] .
    then show ?thesis
      using quota_redis_open [OF e(1) that(1) _ that(4) E] e that(3)
      by (cases "0 < ?l")
         (auto simp: llm_quota_attempt_def consume_llm_daily_quota_def consume_daily_quota_def
            or_else_def split_beta Let_def)
  qed
  show "counting_limiter (llm_quota_attempt R elapse env digest user)
     (\<lambda>cst. entry_count (?e cst)) ?l
     (\<lambda>cst. ?l < 2 ^ 63 \<and> entry_open ?E (fst cst) (?e cst))
     (\<lambda>t. date_of t = d \<and> t < ?E)"
    by standard (use step in auto)
qed

section \<open>Counting in memory\<close>

definition memory_quota_attempt ::
  "environ \<Rightarrow> (string \<Rightarrow> string) \<Rightarrow> string \<Rightarrow> string \<Rightarrow> int \<Rightarrow> string \<Rightarrow> string option
     \<Rightarrow> ticks \<times> ticks \<Rightarrow> 's quota_state \<Rightarrow> bool \<times> 's quota_state" where
  "memory_quota_attempt env digest p name dflt period user tt st =
     (let ((a, _, _), st') =
            consume_daily_quota env digest
              \<lparr>qe_client = None, qe_fault = Delivered, qe_today = fst tt, qe_now = snd tt\<rparr>
              p name dflt (Some period) user st
      in (a, st'))"

definition count_of :: "counts \<Rightarrow> string \<Rightarrow> int" where
  "count_of w k = (case w k of None \<Rightarrow> 0 | Some c \<Rightarrow> c)"

lemma quota_key_suffix [simp]: "endswith (build_quota_key digest p period user) (CHR '':'' # period)"
proof (cases "user = None \<or> user = Some []")
  case True
  then show ?thesis by (auto simp: build_quota_key_def endswith_iff)
next
  case False
  have "p @ '':user:'' @ digest (the user) @ '':'' @ period =
      (p @ '':user:'' @ digest (the user)) @ '':'' @ period" by simp
  then show ?thesis using False by (auto simp: build_quota_key_def endswith_iff)
qed

interpretation memory_quota: counting_limiter
  "memory_quota_attempt env digest p name dflt period user"
  "\<lambda>st. count_of (qs_daily st) (build_quota_key digest p period user)"
  "get_limit env name dflt"
  "\<lambda>st. period \<noteq> [] \<and> 0 \<le> count_of (qs_daily st) (build_quota_key digest p period user)"
  "\<lambda>_. True"
  for env digest p name dflt period user
  by standard
     (use quota_key_suffix in \<open>auto simp: memory_quota_attempt_def consume_daily_quota_def
        quota_with_in_memory_def prune_periods_def count_of_def or_else_def or_default_def
        Let_def split: option.splits\<close>)

section \<open>Frames\<close>

lemma quota_script_frame:
  assumes "quota_script ks_cmds key limit ttl s = (x, s')" and "k \<noteq> key"
  shows "ks_data s' k = ks_data s k"
  using assms
  by (auto simp: quota_script_def rbind_def rret_def rfail_def
        split: option.splits if_splits rval.splits prod.splits sum.splits)

context redis_server
begin

lemma quota_with_redis_frame:
  assumes "quota_with_redis R f key limit ttl s = (x, s')" and "k \<noteq> key"
  shows "ks_data (view s') k = ks_data (view s) k"
proof (cases f)
  case NotSent
  with assms show ?thesis by (simp add: quota_with_redis_def rtry_def)
next
  case Delivered
  obtain y t where y: "quota_script R key limit ttl s = (y, t)" by fastforce
  from sim_step [OF sim_quota_script y] quota_script_frame assms Delivered y
  show ?thesis by (auto simp: quota_with_redis_def rtry_def)
next
  case ReplyLost
  obtain y t where y: "quota_script R key limit ttl s = (y, t)" by fastforce
  from sim_step [OF sim_quota_script y] quota_script_frame assms ReplyLost y
  show ?thesis by (auto simp: quota_with_redis_def rtry_def)
qed

lemma llm_quota_exact:
  assumes "llm_limit env < 2 ^ 63"
    and "ks_data (view (qs_redis st)) (llm_key digest user d) = None"
    and "list_all (\<lambda>t. date_of t = d \<and> t < midnight d + day_ticks - second) ts"
    and "0 \<le> llm_limit env"
  shows "fst (attempts (llm_quota_attempt R elapse env digest user) ts (t0, st)) =
           replicate (min (length ts) (nat (llm_limit env))) True @
           replicate (length ts - nat (llm_limit env)) False"
  using llm_quota.attempts_exact
      [where d = d and s = "(t0, st)" and digest = digest and user = user and env = env and xs = ts] assms
  by (simp add: Let_def min_def)

end

lemma get_limit_nonneg: "0 \<le> dflt \<Longrightarrow> 0 \<le> get_limit env name dflt"
  by (auto simp: get_limit_def split: option.splits)

lemma build_quota_key_user_inj:
  assumes "u \<noteq> []" and "v \<noteq> []" and "digest u \<noteq> digest v" and "length (digest u) = length (digest v)"
  shows "build_quota_key digest p period (Some u) \<noteq> build_quota_key digest p period (Some v)"
  using assms by (simp add: build_quota_key_def)

section \<open>Properties\<close>

text \<open>
  The daily LLM quota is exact.  On any server that implements the documented commands, of any
  number of requests a user makes on one day, up to one second before midnight, the first
  \<open>LLM_DAILY_API_LIMIT\<close> are admitted and every later one is refused.
\<close>

theorem llm_daily_quota_exact:
  assumes "redis_server R view elapse"
    and "get_limit env ''LLM_DAILY_API_LIMIT'' 300 < 2 ^ 63"
    and "ks_data (view (qs_redis st))
           (build_quota_key digest ''llm:daily_api_total'' (isoformat d) user) = None"
    and "list_all (\<lambda>t. date_of t = d \<and> t < midnight d + day_ticks - second) ts"
  shows "fst (attempts (llm_quota_attempt R elapse env digest user) ts (t0, st)) =
           (let l = nat (get_limit env ''LLM_DAILY_API_LIMIT'' 300)
            in replicate (min (length ts) l) True @ replicate (length ts - l) False)"
  using redis_server.llm_quota_exact [OF assms get_limit_nonneg] by (simp add: Let_def)

theorem llm_daily_quota_exact_witness:
  "fst (attempts (llm_quota_attempt ks_cmds ks_elapse [''LLM_DAILY_API_LIMIT'' \<mapsto> ''1''] id (Some ''u1''))
      [739000 * day_ticks, 739000 * day_ticks + second]
      (739000 * day_ticks,
       \<lparr>qs_redis = empty_keyspace, qs_daily = (\<lambda>_. None), qs_monthly = (\<lambda>_. None)\<rparr>)) = [True, False]"
proof -
  have l: "get_limit [''LLM_DAILY_API_LIMIT'' \<mapsto> ''1''] ''LLM_DAILY_API_LIMIT'' 300 = 1" by code_simp
  have d: "date_of (739000 * day_ticks + second) = date_of (739000 * day_ticks)" by code_simp
  have m: "midnight (date_of (739000 * day_ticks)) = 739000 * day_ticks"
    by (simp add: midnight_def date_of_def)
  show ?thesis
    using llm_daily_quota_exact
      [of ks_cmds id ks_elapse "[''LLM_DAILY_API_LIMIT'' \<mapsto> ''1'']"
          "\<lparr>qs_redis = empty_keyspace, qs_daily = (\<lambda>_. None), qs_monthly = (\<lambda>_. None)\<rparr>" id
          "date_of (739000 * day_ticks)" "Some ''u1''"
          "[739000 * day_ticks, 739000 * day_ticks + second]" "739000 * day_ticks"] l d m
    by (simp add: reference_server.redis_server_axioms empty_keyspace_def)
qed

text \<open>
  The lifetime of a daily counter is rounded down to whole seconds, so it can end before midnight:
  with a limit of one, a request at noon plus 0.9 s and a request 50 ms before midnight of the same
  day are both admitted.
\<close>

theorem llm_daily_quota_last_second:
  "fst (attempts (llm_quota_attempt ks_cmds ks_elapse [''LLM_DAILY_API_LIMIT'' \<mapsto> ''1''] id (Some ''u1''))
      [739000 * day_ticks + 43200900000, 739000 * day_ticks + 86399950000]
      (739000 * day_ticks,
       \<lparr>qs_redis = empty_keyspace, qs_daily = (\<lambda>_. None), qs_monthly = (\<lambda>_. None)\<rparr>)) = [True, True] \<and>
   date_of (739000 * day_ticks + 43200900000) = date_of (739000 * day_ticks + 86399950000)"
  by code_simp

text \<open>
  Without Redis the in-memory counter of a period admits exactly the configured number of requests
  for a user, whatever the clock says.
\<close>

theorem memory_quota_exact:
  assumes "period \<noteq> []" and "0 \<le> dflt"
    and "qs_daily st (build_quota_key digest p period user) = None"
  shows "fst (attempts (memory_quota_attempt env digest p name dflt period user) ts st) =
           (let l = nat (get_limit env name dflt)
            in replicate (min (length ts) l) True @ replicate (length ts - l) False)"
  using memory_quota.attempts_exact
      [where digest = digest and p = p and period = period and user = user and env = env
        and name = name and dflt = dflt and s = st and xs = ts]
    get_limit_nonneg [OF assms(2)] assms
  by (simp add: Let_def min_def count_of_def list_all_iff)

theorem memory_quota_exact_witness:
  "fst (attempts (memory_quota_attempt (\<lambda>_. None) id ''auth_email:daily_send_total'' ''X'' 1 ''2026-01-02'' None)
      [(0, 0), (5, 5)] \<lparr>qs_redis = (), qs_daily = (\<lambda>_. None), qs_monthly = (\<lambda>_. None)\<rparr>) = [True, False]"
proof -
  have "get_limit (\<lambda>_. None) ''X'' 1 = 1" by code_simp
  then show ?thesis
    using memory_quota_exact
      [of "''2026-01-02''" 1 "\<lparr>qs_redis = (), qs_daily = (\<lambda>_. None), qs_monthly = (\<lambda>_. None)\<rparr>" id
          "''auth_email:daily_send_total''" None "\<lambda>_. None" "''X''" "[(0, 0), (5, 5)]"]
    by simp
qed

text \<open>
  Users do not share a quota.  A request of one user, whether it is counted in Redis or in memory
  and whatever happens to the connection, leaves the counters of every other user of the same period
  as they were, provided their digests differ (and have the same length, as SHA-256 texts have).
\<close>

theorem daily_quota_user_isolation:
  assumes "redis_server R view elapse" and "qe_client c = None \<or> qe_client c = Some R"
    and "u \<noteq> []" and "v \<noteq> []" and "digest u \<noteq> digest v" and "length (digest u) = length (digest v)"
    and "period \<noteq> []"
    and "consume_daily_quota env digest c p name dflt (Some period) (Some u) st = (res, st')"
  shows "ks_data (view (qs_redis st')) (build_quota_key digest p period (Some v)) =
           ks_data (view (qs_redis st)) (build_quota_key digest p period (Some v)) \<and>
         qs_daily st' (build_quota_key digest p period (Some v)) =
           qs_daily st (build_quota_key digest p period (Some v))"
proof -
  let ?k = "build_quota_key digest p period"
  have k: "?k (Some v) \<noteq> ?k (Some u)"
    using build_quota_key_user_inj [of v u digest p period] assms by simp
  note frame = redis_server.quota_with_redis_frame [OF assms(1) _ k]
  have keep: "snd (quota_with_in_memory (?k (Some u)) period l w) (?k (Some v)) = w (?k (Some v))" for l w
    using k by (simp add: quota_with_in_memory_def prune_periods_def Let_def)
  define l where "l = get_limit env name dflt"
  define r where "r = (case qe_client c of
      None \<Rightarrow> (None, qs_redis st)
    | Some R \<Rightarrow> quota_with_redis R (qe_fault c) (?k (Some u)) l
        (quota_seconds_until_tomorrow (qe_now c)) (qs_redis st))"
  have r: "ks_data (view (snd r)) (?k (Some v)) = ks_data (view (qs_redis st)) (?k (Some v))"
    using assms(2) frame [OF prod.collapse [symmetric]] by (auto simp: r_def)
  have "st' = (if l \<le> 0 then st else case fst r of
      Some _ \<Rightarrow> st\<lparr>qs_redis := snd r\<rparr>
    | None \<Rightarrow> st\<lparr>qs_redis := snd r,
        qs_daily := snd (quota_with_in_memory (?k (Some u)) period l (qs_daily st))\<rparr>)"
    using assms(7,8)
    by (auto simp: consume_daily_quota_def or_else_def or_default_def Let_def split_beta
          split: option.splits simp flip: r_def l_def)
  then show ?thesis using r keep by (simp split: option.split)
qed

theorem daily_quota_user_isolation_witness:
  "qs_daily (snd (consume_daily_quota (\<lambda>_. None) id
       \<lparr>qe_client = None, qe_fault = Delivered, qe_today = 0, qe_now = 0\<rparr> ''p'' ''X'' 5
       (Some ''2026-01-02'') (Some ''u1'')
       \<lparr>qs_redis = empty_keyspace, qs_daily = [''p:user:u2:2026-01-02'' \<mapsto> 4], qs_monthly = (\<lambda>_. None)\<rparr>))
     ''p:user:u2:2026-01-02'' = Some 4"
  using daily_quota_user_isolation
    [of ks_cmds id ks_elapse "\<lparr>qe_client = None, qe_fault = Delivered, qe_today = 0, qe_now = 0\<rparr>"
        "''u1''" "''u2''" id "''2026-01-02''" "\<lambda>_. None" "''p''" "''X''" 5
        "\<lparr>qs_redis = empty_keyspace, qs_daily = [''p:user:u2:2026-01-02'' \<mapsto> 4], qs_monthly = (\<lambda>_. None)\<rparr>"]
  by (simp add: reference_server.redis_server_axioms build_quota_key_def prod_eq_iff)

end
