(* ===== verification/Usage_Pricing.thy ===== *)
theory Usage_Pricing
  imports Prelude
begin

text \<open>
  \<open>services/usage_pricing.py\<close>: the price table and the cost of one model call, in integer nano-dollars.
\<close>

record token_price =
  tp_input :: int
  tp_output :: int
  tp_cached_input :: "int option"
  tp_cache_write :: "int option"

definition cached_input_or_input :: "token_price \<Rightarrow> int" where
  "cached_input_or_input p = (case tp_cached_input p of None \<Rightarrow> tp_input p | Some c \<Rightarrow> c)"

definition cache_write_or_input :: "token_price \<Rightarrow> int" where
  "cache_write_or_input p = (case tp_cache_write p of None \<Rightarrow> tp_input p | Some c \<Rightarrow> c)"

definition TOKEN_PRICES :: "(string \<times> token_price) list" where
  "TOKEN_PRICES =
     [(''gpt-6-luna'',
        \<lparr>tp_input = 100, tp_output = 500, tp_cached_input = Some 10, tp_cache_write = Some 125\<rparr>),
      (''qwen/qwen3.8-27b'',
        \<lparr>tp_input = 800, tp_output = 4000, tp_cached_input = None, tp_cache_write = None\<rparr>),
      (''openai/gpt-oss-120b'',
        \<lparr>tp_input = 150, tp_output = 600, tp_cached_input = Some 75, tp_cache_write = None\<rparr>),
      (''openai/gpt-oss-20b'',
        \<lparr>tp_input = 75, tp_output = 300, tp_cached_input = Some 38, tp_cache_write = None\<rparr>),
      (''claude-haiku-4-5-20251001'',
        \<lparr>tp_input = 1000, tp_output = 5000, tp_cached_input = Some 100, tp_cache_write = Some 1250\<rparr>),
      (''claude-haiku-5-5'',
        \<lparr>tp_input = 100, tp_output = 500, tp_cached_input = Some 10, tp_cache_write = Some 125\<rparr>),
      (''text-embedding-3-small'',
        \<lparr>tp_input = 20, tp_output = 0, tp_cached_input = None, tp_cache_write = None\<rparr>)]"

definition FALLBACK_TOKEN_PRICE :: token_price where
  "FALLBACK_TOKEN_PRICE =
     \<lparr>tp_input = 1000, tp_output = 5000, tp_cached_input = Some 1000, tp_cache_write = None\<rparr>"

abbreviation (input) BRAVE_WEB_SEARCH_REQUEST_NANO_USD :: int where
  "BRAVE_WEB_SEARCH_REQUEST_NANO_USD \<equiv> 5000000"

abbreviation (input) HAIKU_5_5_LONG_CONTEXT_THRESHOLD :: int where
  "HAIKU_5_5_LONG_CONTEXT_THRESHOLD \<equiv> 100000"

definition HAIKU_5_5_LONG_CONTEXT_PRICE :: token_price where
  "HAIKU_5_5_LONG_CONTEXT_PRICE =
     \<lparr>tp_input = 500, tp_output = 2500, tp_cached_input = Some 50, tp_cache_write = Some 625\<rparr>"

definition token_price_for_model :: "string \<Rightarrow> token_price" where
  "token_price_for_model model_name =
     (case map_of TOKEN_PRICES model_name of None \<Rightarrow> FALLBACK_TOKEN_PRICE | Some p \<Rightarrow> p)"

definition token_cost_nano_usd :: "string \<Rightarrow> int \<Rightarrow> int \<Rightarrow> int \<Rightarrow> int \<Rightarrow> int" where
  "token_cost_nano_usd model_name input_tokens output_tokens cached_input_tokens
      cache_write_input_tokens =
     (let total_input = max input_tokens 0;
          price =
            (if model_name = ''claude-haiku-5-5'' \<and> HAIKU_5_5_LONG_CONTEXT_THRESHOLD < total_input
             then HAIKU_5_5_LONG_CONTEXT_PRICE else token_price_for_model model_name);
          cached = min (max cached_input_tokens 0) total_input;
          written = min (max cache_write_input_tokens 0) (total_input - cached);
          uncached = total_input - cached - written
      in uncached * tp_input price + cached * cached_input_or_input price
         + written * cache_write_or_input price + max output_tokens 0 * tp_output price)"

section \<open>Bounds on prices\<close>

definition price_le :: "token_price \<Rightarrow> token_price \<Rightarrow> bool" where
  "price_le p q \<longleftrightarrow>
     tp_input p \<le> tp_input q \<and> cached_input_or_input p \<le> cached_input_or_input q \<and>
     tp_output p \<le> tp_output q"

definition price_nonneg :: "token_price \<Rightarrow> bool" where
  "price_nonneg p \<longleftrightarrow>
     0 \<le> tp_input p \<and> 0 \<le> cached_input_or_input p \<and> 0 \<le> cache_write_or_input p \<and> 0 \<le> tp_output p"

lemma price_table:
  "list_all (\<lambda>(_, p). price_nonneg p \<and> price_le p FALLBACK_TOKEN_PRICE) TOKEN_PRICES"
  by code_simp

lemma model_price_bounds:
  "price_nonneg (token_price_for_model m) \<and> price_le (token_price_for_model m) FALLBACK_TOKEN_PRICE"
proof (cases "map_of TOKEN_PRICES m")
  case None
  moreover have "price_nonneg FALLBACK_TOKEN_PRICE \<and> price_le FALLBACK_TOKEN_PRICE FALLBACK_TOKEN_PRICE"
    by code_simp
  ultimately show ?thesis by (simp add: token_price_for_model_def)
next
  case (Some p)
  then show ?thesis
    using price_table map_of_SomeD [OF Some] by (auto simp: token_price_for_model_def list_all_iff)
qed

lemma long_context_price_bounds:
  "price_nonneg HAIKU_5_5_LONG_CONTEXT_PRICE \<and>
   price_le HAIKU_5_5_LONG_CONTEXT_PRICE FALLBACK_TOKEN_PRICE"
  by code_simp

definition priced :: "token_price \<Rightarrow> int \<Rightarrow> int \<Rightarrow> int \<Rightarrow> int \<Rightarrow> int" where
  "priced p uncached cached written out =
     uncached * tp_input p + cached * cached_input_or_input p
     + written * cache_write_or_input p + out * tp_output p"

lemma priced_nonneg:
  "price_nonneg p \<Longrightarrow> 0 \<le> u \<Longrightarrow> 0 \<le> c \<Longrightarrow> 0 \<le> w \<Longrightarrow> 0 \<le> n \<Longrightarrow> 0 \<le> priced p u c w n"
  by (simp add: priced_def price_nonneg_def)

lemma priced_mono_price:
  assumes "price_le p q" and "0 \<le> u" and "0 \<le> c" and "0 \<le> n"
  shows "priced p u c 0 n \<le> priced q u c 0 n"
  using assms by (auto simp: priced_def price_le_def intro!: add_mono mult_left_mono)

lemma token_cost_priced:
  assumes "0 \<le> inp" and "0 \<le> out" and "0 \<le> cached" and "0 \<le> written" and "cached + written \<le> inp"
  shows "\<exists>p. token_cost_nano_usd m inp out cached written = priced p (inp - cached - written) cached written out
           \<and> price_nonneg p \<and> price_le p FALLBACK_TOKEN_PRICE
           \<and> (m \<noteq> ''claude-haiku-5-5'' \<longrightarrow> p = token_price_for_model m)"
proof -
  let ?p = "if m = ''claude-haiku-5-5'' \<and> 100000 < inp
            then HAIKU_5_5_LONG_CONTEXT_PRICE else token_price_for_model m"
  have "token_cost_nano_usd m inp out cached written = priced ?p (inp - cached - written) cached written out"
    using assms by (simp add: token_cost_nano_usd_def Let_def priced_def max_def min_def)
  then show ?thesis
    using model_price_bounds [of m] long_context_price_bounds
    by (intro exI [of _ ?p]) (simp split: if_splits)
qed

section \<open>Properties\<close>

text \<open>
  No call has a negative cost, and a call of a model that is missing from the table is billed at
  least as high as the same call of any listed model, as long as nothing is written to the cache.
\<close>

theorem fallback_price_dominates:
  assumes "map_of TOKEN_PRICES unlisted = None" and "unlisted \<noteq> ''claude-haiku-5-5''"
    and "0 \<le> inp" and "0 \<le> out" and "0 \<le> cached" and "cached \<le> inp"
  shows "0 \<le> token_cost_nano_usd m inp out cached 0 \<and>
         token_cost_nano_usd m inp out cached 0 \<le> token_cost_nano_usd unlisted inp out cached 0"
proof -
  obtain p where p: "token_cost_nano_usd m inp out cached 0 = priced p (inp - cached) cached 0 out"
      "price_nonneg p" "price_le p FALLBACK_TOKEN_PRICE"
    using token_cost_priced [of inp out cached 0 m] assms by auto
  have q: "token_cost_nano_usd unlisted inp out cached 0 =
      priced FALLBACK_TOKEN_PRICE (inp - cached) cached 0 out"
    using token_cost_priced [of inp out cached 0 unlisted] assms by (auto simp: token_price_for_model_def)
  show ?thesis
    using priced_nonneg [OF p(2)] priced_mono_price [OF p(3)] assms unfolding p(1) q by simp
qed

theorem fallback_price_dominates_witness:
  "token_cost_nano_usd ''gpt-6-luna'' 1000 10 200 0 \<le> token_cost_nano_usd ''new-model'' 1000 10 200 0"
  using fallback_price_dominates [of "''new-model''" 1000 10 200 "''gpt-6-luna''"]
  by (simp add: TOKEN_PRICES_def)

text \<open>
  The fallback is not the most expensive rate for cache writes: a call of
  \<open>claude-haiku-4-5-20251001\<close> that writes its input to the cache costs more than the same call of an
  unlisted model.
\<close>

theorem fallback_cheaper_on_cache_writes:
  "token_cost_nano_usd ''new-model'' 1000 0 0 1000 = 1000000 \<and>
   token_cost_nano_usd ''claude-haiku-4-5-20251001'' 1000 0 0 1000 = 1250000"
  by code_simp

end
