(* ===== verification/Usage_Ledger.thy ===== *)
theory Usage_Ledger
  imports Usage_Pricing Calendar Client_Address "HOL-Library.Multiset"
begin

text \<open>
  Metering: who pays (\<open>services/usage_subject.py\<close>), what one call costs on which day
  (\<open>services/usage_metering.py\<close>), and the table of daily totals with its atomic upsert
  (\<open>services/repositories/usage_repository.py\<close>).  The table \<open>api_usage_daily\<close> is a list of rows whose
  key (subject, day, resource) is unique; a \<open>SELECT\<close> is a filter.  Its \<open>updated_at\<close> column and the
  background executor that runs the writes are left out.
\<close>

section \<open>Billing subjects\<close>

datatype py_error = ValueError

abbreviation (input) SYSTEM_USAGE_SUBJECT :: string where
  "SYSTEM_USAGE_SUBJECT \<equiv> ''system''"

text \<open>The value under \<open>user_id\<close> in a session: missing, a number or a text.\<close>

datatype session_value = SMissing | SInt int | SStr string

fun truthy :: "session_value \<Rightarrow> bool" where
  "truthy SMissing = False"
| "truthy (SInt i) = (i \<noteq> 0)"
| "truthy (SStr s) = (s \<noteq> [])"

fun user_usage_subject :: "session_value \<Rightarrow> string option" where
  "user_usage_subject (SInt i) = Some (''user:'' @ show_int i)"
| "user_usage_subject (SStr s) = map_option (\<lambda>i. ''user:'' @ show_int i) (py_int s)"
| "user_usage_subject SMissing = None"

text \<open>\<open>str.isdigit\<close>, which also accepts the superscripts of Latin-1 that \<open>int()\<close> rejects.\<close>

definition py_isdigit :: "string \<Rightarrow> bool" where
  "py_isdigit s \<longleftrightarrow>
     s \<noteq> [] \<and> list_all (\<lambda>c. is_digit c \<or> (of_char c :: nat) \<in> {178, 179, 185}) s"

definition user_id_from_usage_subject :: "string \<Rightarrow> py_error + int option" where
  "user_id_from_usage_subject subject_key =
     (let prefix = takeWhile (\<lambda>c. c \<noteq> CHR '':'') subject_key;
          raw_id = drop 1 (dropWhile (\<lambda>c. c \<noteq> CHR '':'') subject_key)
      in if prefix \<noteq> ''user'' \<or> \<not> py_isdigit raw_id then Inr None
         else case py_int raw_id of None \<Rightarrow> Inl ValueError | Some i \<Rightarrow> Inr (Some i))"

definition guest_usage_subject :: "(string \<Rightarrow> string) \<Rightarrow> string \<Rightarrow> string" where
  "guest_usage_subject digest client_ip = ''guest:'' @ take 32 (digest client_ip)"

text \<open>\<open>session\<close> is \<open>None\<close> when the request scope carries no session dictionary.\<close>

definition resolve_usage_subject ::
  "('ip, 'net) ip_lib \<Rightarrow> environ \<Rightarrow> (string \<Rightarrow> string) \<Rightarrow> session_value option \<Rightarrow> request \<Rightarrow> string" where
  "resolve_usage_subject L env digest session request =
     (case session of
        None \<Rightarrow> SYSTEM_USAGE_SUBJECT
      | Some user_id \<Rightarrow>
          if truthy user_id
          then (case user_usage_subject user_id of None \<Rightarrow> SYSTEM_USAGE_SUBJECT | Some s \<Rightarrow> s)
          else guest_usage_subject digest (get_request_client_ip L env request))"

section \<open>Metering\<close>

abbreviation jst_offset :: ticks where
  "jst_offset \<equiv> 32400000000"

text \<open>The billing day of a moment given in UTC.\<close>

definition usage_date :: "ticks \<Rightarrow> date" where
  "usage_date now = date_of (now + jst_offset)"

record usage_increment =
  ui_subject :: string
  ui_date :: date
  ui_resource :: string
  ui_cost :: int
  ui_input :: int
  ui_cached :: int
  ui_output :: int
  ui_count :: int

definition record_token_usage ::
  "string \<Rightarrow> ticks \<Rightarrow> string \<Rightarrow> int \<Rightarrow> int \<Rightarrow> int \<Rightarrow> int \<Rightarrow> usage_increment" where
  "record_token_usage subject now resource input_tokens0 output_tokens0 cached0 written0 =
     (let input_tokens = max input_tokens0 0;
          output_tokens = max output_tokens0 0;
          cached_input_tokens = min (max cached0 0) input_tokens;
          cache_write_input_tokens = min (max written0 0) (input_tokens - cached_input_tokens)
      in \<lparr>ui_subject = subject, ui_date = usage_date now, ui_resource = resource,
          ui_cost =
            token_cost_nano_usd resource input_tokens output_tokens cached_input_tokens
              cache_write_input_tokens,
          ui_input = input_tokens, ui_cached = cached_input_tokens, ui_output = output_tokens,
          ui_count = 1\<rparr>)"

definition record_web_search_request :: "string \<Rightarrow> ticks \<Rightarrow> usage_increment" where
  "record_web_search_request subject now =
     \<lparr>ui_subject = subject, ui_date = usage_date now, ui_resource = ''brave_web_search'',
      ui_cost = BRAVE_WEB_SEARCH_REQUEST_NANO_USD, ui_input = 0, ui_cached = 0, ui_output = 0,
      ui_count = 1\<rparr>"

section \<open>The table of daily totals\<close>

text \<open>A row has the columns of an increment; rows are unique in subject, day and resource.\<close>

type_synonym usage_table = "usage_increment list"

definition usage_key :: "usage_increment \<Rightarrow> string \<times> date \<times> string" where
  "usage_key r = (ui_subject r, ui_date r, ui_resource r)"

definition accumulate :: "usage_increment \<Rightarrow> usage_increment \<Rightarrow> usage_increment" where
  "accumulate inc row =
     row\<lparr>ui_cost := ui_cost row + ui_cost inc, ui_input := ui_input row + ui_input inc,
         ui_cached := ui_cached row + ui_cached inc, ui_output := ui_output row + ui_output inc,
         ui_count := ui_count row + ui_count inc\<rparr>"

definition add_usage :: "usage_increment \<Rightarrow> usage_table \<Rightarrow> usage_table" where
  "add_usage inc tbl =
     (if usage_key inc \<in> usage_key ` set tbl
      then map (\<lambda>row. if usage_key row = usage_key inc then accumulate inc row else row) tbl
      else tbl @ [inc])"

definition cost_sum :: "(usage_increment \<Rightarrow> bool) \<Rightarrow> usage_table \<Rightarrow> int" where
  "cost_sum P tbl = sum_list (map ui_cost (filter P tbl))"

definition date_le :: "date \<Rightarrow> date \<Rightarrow> bool" where
  "date_le d e \<longleftrightarrow> toordinal d \<le> toordinal e"

definition subject_totals :: "string \<Rightarrow> date \<Rightarrow> date \<Rightarrow> usage_table \<Rightarrow> int \<times> int" where
  "subject_totals subject_key d week_start tbl =
     (let rows = filter (\<lambda>r. ui_subject r = subject_key \<and> date_le week_start (ui_date r)
                             \<and> date_le (ui_date r) d) tbl
      in (cost_sum (\<lambda>r. ui_date r = d) rows, cost_sum (\<lambda>_. True) rows))"

definition total_cost :: "date \<Rightarrow> date \<Rightarrow> usage_table \<Rightarrow> int" where
  "total_cost start stop tbl =
     cost_sum (\<lambda>r. date_le start (ui_date r) \<and> date_le (ui_date r) stop) tbl"

definition lifetime_costs :: "string list \<Rightarrow> usage_table \<Rightarrow> string \<Rightarrow> int option" where
  "lifetime_costs subject_keys tbl =
     (\<lambda>k. if k \<in> set subject_keys then Some (cost_sum (\<lambda>r. ui_subject r = k) tbl) else None)"

section \<open>The table keeps every increment\<close>

definition unique_rows :: "usage_table \<Rightarrow> bool" where
  "unique_rows tbl \<longleftrightarrow> distinct (map usage_key tbl)"

lemma usage_key_accumulate [simp]: "usage_key (accumulate inc row) = usage_key row"
  by (simp add: usage_key_def accumulate_def)

lemma map_usage_key_update:
  "map usage_key (map (\<lambda>row. if usage_key row = k then accumulate inc row else row) tbl) =
   map usage_key tbl"
  by (induction tbl) auto

lemma unique_rows_add: "unique_rows tbl \<Longrightarrow> unique_rows (add_usage inc tbl)"
  by (auto simp: add_usage_def unique_rows_def map_usage_key_update simp del: map_map)

text \<open>A condition on rows that looks at the key only.\<close>

definition key_only :: "(usage_increment \<Rightarrow> bool) \<Rightarrow> bool" where
  "key_only P \<longleftrightarrow> (\<forall>r r'. usage_key r = usage_key r' \<longrightarrow> P r = P r')"

lemma cost_sum_update:
  assumes "key_only P" and "distinct (map usage_key tbl)" and "usage_key inc \<in> usage_key ` set tbl"
  shows "cost_sum P (map (\<lambda>row. if usage_key row = usage_key inc then accumulate inc row else row) tbl) =
           cost_sum P tbl + (if P inc then ui_cost inc else 0)"
  using assms(2,3)
proof (induction tbl)
  case (Cons r tbl)
  have P: "usage_key r = usage_key inc \<Longrightarrow> P r = P inc" "P (accumulate inc r) = P r"
    using assms(1) unfolding key_only_def by (blast, metis usage_key_accumulate)
  show ?case
  proof (cases "usage_key r = usage_key inc")
    case True
    then have "map (\<lambda>row. if usage_key row = usage_key inc then accumulate inc row else row) tbl = tbl"
      using Cons.prems by (intro map_idI) (auto simp: image_iff)
    then show ?thesis using True P by (simp add: cost_sum_def accumulate_def)
  next
    case False
    then show ?thesis using Cons by (auto simp: cost_sum_def)
  qed
qed simp

lemma cost_sum_add:
  assumes "key_only P" and "unique_rows tbl"
  shows "cost_sum P (add_usage inc tbl) = cost_sum P tbl + (if P inc then ui_cost inc else 0)"
  using cost_sum_update [OF assms(1), of tbl inc] assms(2)
  by (auto simp: add_usage_def unique_rows_def cost_sum_def)

lemma ledger_of_log:
  assumes "key_only P" and "unique_rows tbl"
  shows "cost_sum P (fold add_usage log tbl) = cost_sum P tbl + cost_sum P log \<and>
         unique_rows (fold add_usage log tbl)"
  using assms(2)
proof (induction log arbitrary: tbl)
  case (Cons inc log)
  then show ?case
    using cost_sum_add [OF assms(1), of tbl inc] unique_rows_add [of tbl inc]
    by (auto simp: cost_sum_def)
qed (simp add: cost_sum_def)

lemma key_only_subject: "key_only (\<lambda>r. Q (ui_subject r) (ui_date r) (ui_resource r))"
  by (simp add: key_only_def usage_key_def)

lemma cost_sum_filter: "cost_sum P (filter Q tbl) = cost_sum (\<lambda>r. Q r \<and> P r) tbl"
  by (simp add: cost_sum_def conj_commute)

lemma ledger_totals:
  "subject_totals k d w (fold add_usage log []) = subject_totals k d w log"
  "total_cost a b (fold add_usage log []) = total_cost a b log"
  "lifetime_costs ks (fold add_usage log []) = lifetime_costs ks log"
proof -
  have sum: "cost_sum P (fold add_usage log []) = cost_sum P log" if "key_only P" for P
    using ledger_of_log [OF that, of "[]" log] by (simp add: unique_rows_def cost_sum_def)
  show "subject_totals k d w (fold add_usage log []) = subject_totals k d w log"
    "total_cost a b (fold add_usage log []) = total_cost a b log"
    "lifetime_costs ks (fold add_usage log []) = lifetime_costs ks log"
    by (auto simp: subject_totals_def total_cost_def lifetime_costs_def Let_def cost_sum_filter fun_eq_iff
          intro!: sum key_only_subject)
qed

lemma cost_sum_perm:
  assumes "mset log' = mset log"
  shows "cost_sum P log' = cost_sum P log"
proof -
  have "mset (map ui_cost (filter P log')) = mset (map ui_cost (filter P log))"
    using assms by (simp add: mset_filter)
  then show ?thesis unfolding cost_sum_def by (metis sum_mset_sum_list)
qed

section \<open>Properties\<close>

text \<open>
  C35: the upserted table is the log of metered calls, seen through sums: however many increments are
  recorded, in whatever order they reach the table, a subject's daily and weekly cost, the cost of all
  subjects over a range of days and a subject's lifetime cost are the sums over all increments; no
  increment is lost or counted twice.
\<close>

theorem usage_table_refines_log:
  assumes "mset log' = mset log"
  shows "subject_totals k d w (fold add_usage log' []) = subject_totals k d w log \<and>
         total_cost a b (fold add_usage log' []) = total_cost a b log \<and>
         lifetime_costs ks (fold add_usage log' []) = lifetime_costs ks log"
  using cost_sum_perm [OF assms]
  by (simp add: ledger_totals) (simp add: subject_totals_def total_cost_def lifetime_costs_def Let_def cost_sum_filter fun_eq_iff)

theorem usage_table_refines_log_witness:
  "let i = record_web_search_request ''user:7'' 0; j = record_token_usage ''user:7'' 0 ''gpt-6-luna'' 10 1 0 0
   in total_cost (usage_date 0) (usage_date 0) (fold add_usage [i, i, j] []) =
        total_cost (usage_date 0) (usage_date 0) [j, i, i]"
  unfolding Let_def by (rule usage_table_refines_log [THEN conjunct2, THEN conjunct1]) simp

end
