(* ===== verification/Usage_Limits.thy ===== *)
theory Usage_Limits
  imports Usage_Ledger
begin

text \<open>
  \<open>services/usage_limits.py\<close>: the daily and weekly cost limits of a subject, the allowance of a demo
  account and the monthly budget, decided before an AI feature starts.  Moments are UTC; the day, week
  and month are those of Japan time.  The settings are an argument (their reading uses floating
  point); the totals come from the usage table and the table of demo access codes.
\<close>

record usage_limit_settings =
  user_daily :: int
  user_weekly :: int
  guest_daily :: int
  guest_weekly :: int
  demo_total :: int
  monthly_stop :: int

record demo_usage_totals =
  du_expires_at :: ticks
  du_lifetime :: int

record usage_totals =
  ut_daily :: int
  ut_weekly :: int
  ut_monthly_total :: int
  ut_demo :: "demo_usage_totals option"

record usage_periods_rec =
  up_day :: date
  up_week_start :: date
  up_month_start :: date
  up_next_day :: ticks
  up_next_week :: ticks
  up_next_month :: ticks

text \<open>Midnight in Japan time, as a UTC moment.\<close>

definition jst_midnight :: "date \<Rightarrow> ticks" where
  "jst_midnight d = midnight d - jst_offset"

definition usage_periods :: "ticks \<Rightarrow> usage_periods_rec" where
  "usage_periods now =
     (let d = date_of (now + jst_offset);
          week_start = add_days d (- weekday d);
          month_start = d\<lparr>day := 1\<rparr>
      in \<lparr>up_day = d, up_week_start = week_start, up_month_start = month_start,
          up_next_day = jst_midnight (add_days d 1),
          up_next_week = jst_midnight (add_days week_start 7),
          up_next_month = jst_midnight (next_month_start d)\<rparr>)"

record demo_code =
  dc_user_id :: "int option"
  dc_expires_at :: "ticks option"

definition expiry_for_user :: "int \<Rightarrow> demo_code list \<Rightarrow> ticks option" where
  "expiry_for_user user_id codes =
     (case List.find (\<lambda>c. dc_user_id c = Some user_id) codes of
        None \<Rightarrow> None | Some c \<Rightarrow> dc_expires_at c)"

definition read_usage_totals ::
  "usage_table \<Rightarrow> demo_code list \<Rightarrow> string \<Rightarrow> usage_periods_rec \<Rightarrow> py_error + usage_totals" where
  "read_usage_totals tbl codes subject_key periods =
     (let (daily, weekly) = subject_totals subject_key (up_day periods) (up_week_start periods) tbl;
          monthly = total_cost (up_month_start periods) (up_day periods) tbl
      in case user_id_from_usage_subject subject_key of
           Inl e \<Rightarrow> Inl e
         | Inr uid \<Rightarrow>
             (let demo =
                    (case uid of
                       None \<Rightarrow> None
                     | Some user_id \<Rightarrow>
                         (case expiry_for_user user_id codes of
                            None \<Rightarrow> None
                          | Some expires_at \<Rightarrow>
                              Some \<lparr>du_expires_at = expires_at,
                                    du_lifetime = the (lifetime_costs [subject_key] tbl subject_key)\<rparr>))
              in Inr \<lparr>ut_daily = daily, ut_weekly = weekly, ut_monthly_total = monthly, ut_demo = demo\<rparr>))"

record usage_window =
  uw_used :: int
  uw_limit :: int
  uw_resets_at :: ticks

definition exhausted :: "usage_window \<Rightarrow> bool" where
  "exhausted w \<longleftrightarrow> uw_limit w > 0 \<and> uw_limit w \<le> uw_used w"

record demo_allowance =
  da_used :: int
  da_limit :: int
  da_expires_at :: ticks

definition demo_ended :: "demo_allowance \<Rightarrow> ticks \<Rightarrow> bool" where
  "demo_ended a now \<longleftrightarrow> da_expires_at a \<le> now \<or> (da_limit a > 0 \<and> da_limit a \<le> da_used a)"

record usage_status =
  us_daily :: "usage_window option"
  us_weekly :: "usage_window option"
  us_monthly_budget_exhausted :: bool
  us_monthly_resets_at :: ticks
  us_demo :: "demo_allowance option"

datatype limit_reason = Daily | Weekly | MonthlyBudget | Demo

record usage_limit_block =
  ub_reason :: limit_reason
  ub_resets_at :: ticks
  ub_retry_after_seconds :: int

definition personal_limits :: "string \<Rightarrow> usage_limit_settings \<Rightarrow> (int \<times> int) option" where
  "personal_limits subject_key settings =
     (if subject_key = SYSTEM_USAGE_SUBJECT then None
      else if startswith subject_key ''user:'' then Some (user_daily settings, user_weekly settings)
      else Some (guest_daily settings, guest_weekly settings))"

text \<open>
  \<open>current\<close> is the subject bound to the running request, used when the caller names none; \<open>reader\<close> is
  the installed \<open>_usage_totals_reader\<close>.
\<close>

definition get_usage_status ::
  "usage_limit_settings \<Rightarrow> (string \<Rightarrow> usage_periods_rec \<Rightarrow> py_error + usage_totals) \<Rightarrow> string
     \<Rightarrow> string option \<Rightarrow> ticks \<Rightarrow> py_error + usage_status" where
  "get_usage_status settings reader current subject now =
     (let subject_key = (case subject of None \<Rightarrow> current | Some s \<Rightarrow> or_default s current);
          periods = usage_periods now
      in case reader subject_key periods of
           Inl e \<Rightarrow> Inl e
         | Inr totals \<Rightarrow>
             (let limits = personal_limits subject_key settings
              in Inr \<lparr>us_daily =
                        map_option (\<lambda>l. \<lparr>uw_used = ut_daily totals, uw_limit = fst l,
                                         uw_resets_at = up_next_day periods\<rparr>) limits,
                      us_weekly =
                        map_option (\<lambda>l. \<lparr>uw_used = ut_weekly totals, uw_limit = snd l,
                                         uw_resets_at = up_next_week periods\<rparr>) limits,
                      us_monthly_budget_exhausted =
                        (monthly_stop settings > 0 \<and> monthly_stop settings \<le> ut_monthly_total totals),
                      us_monthly_resets_at = up_next_month periods,
                      us_demo =
                        map_option (\<lambda>d. \<lparr>da_used = du_lifetime d, da_limit = demo_total settings,
                                         da_expires_at = du_expires_at d\<rparr>) (ut_demo totals)\<rparr>))"

definition usage_block :: "limit_reason \<Rightarrow> ticks \<Rightarrow> ticks \<Rightarrow> usage_limit_block" where
  "usage_block reason resets_at now =
     \<lparr>ub_reason = reason, ub_resets_at = resets_at,
      ub_retry_after_seconds = max (trunc_seconds (resets_at - now)) 1\<rparr>"

definition check_usage_limit ::
  "usage_limit_settings \<Rightarrow> (string \<Rightarrow> usage_periods_rec \<Rightarrow> py_error + usage_totals) \<Rightarrow> string
     \<Rightarrow> string option \<Rightarrow> ticks \<Rightarrow> py_error + usage_limit_block option" where
  "check_usage_limit settings reader current subject moment =
     (case get_usage_status settings reader current subject moment of
        Inl e \<Rightarrow> Inl e
      | Inr status \<Rightarrow>
          Inr (if us_monthly_budget_exhausted status
               then Some (usage_block MonthlyBudget (us_monthly_resets_at status) moment)
               else if us_demo status \<noteq> None \<and> demo_ended (the (us_demo status)) moment
               then Some (usage_block Demo (da_expires_at (the (us_demo status))) moment)
               else if us_weekly status \<noteq> None \<and> exhausted (the (us_weekly status))
               then Some (usage_block Weekly (uw_resets_at (the (us_weekly status))) moment)
               else if us_daily status \<noteq> None \<and> exhausted (the (us_daily status))
               then Some (usage_block Daily (uw_resets_at (the (us_daily status))) moment)
               else None))"

section \<open>Periods\<close>

lemma weekday_add_days: "weekday (add_days d n) = (weekday d + n) mod 7"
  by (simp add: weekday_def mod_simps algebra_simps)

lemma valid_date_of: "day_ticks \<le> t \<Longrightarrow> valid_date (date_of t)"
  unfolding date_of_def by (rule valid_fromordinal) (simp add: pos_imp_zdiv_pos_iff int_one_le_iff_zero_less)

text \<open>The moments at which the periods end come after the moment itself.\<close>

lemma usage_periods_ends:
  assumes "day_ticks \<le> now + jst_offset"
  shows "now < up_next_day (usage_periods now)"
    and "now < up_next_week (usage_periods now)"
    and "now < up_next_month (usage_periods now)"
proof -
  let ?d = "date_of (now + jst_offset)"
  have b: "now + jst_offset < midnight ?d + day_ticks" using date_of_bounds by blast
  show "now < up_next_day (usage_periods now)"
    using b by (simp add: usage_periods_def jst_midnight_def Let_def midnight_add_days)
  show "now < up_next_week (usage_periods now)"
    using b weekday_bounds [of ?d]
    by (simp add: usage_periods_def jst_midnight_def Let_def midnight_add_days)
  have "toordinal ?d + 1 \<le> toordinal (next_month_start ?d)"
    using next_month_after(1) [OF valid_date_of [OF assms]] by simp
  then have "midnight ?d + day_ticks \<le> midnight (next_month_start ?d)"
    unfolding midnight_def by linarith
  then show "now < up_next_month (usage_periods now)"
    using b by (simp add: usage_periods_def jst_midnight_def Let_def)
qed

lemma trunc_seconds_upper: "0 \<le> d \<Longrightarrow> d < second * (trunc_seconds d + 1)"
  using mult_div_mod_eq [of second d] pos_mod_bound [of second d]
  unfolding trunc_seconds_def by simp

section \<open>Properties\<close>

text \<open>
  The day, week and month found for a moment contain it: the day starts at or before the moment and
  ends after it, the week starts on a Monday, lasts seven days and contains the moment, the month
  starts on its first day and ends after the moment, at most 31 days later.
\<close>

theorem usage_periods_contain_now:
  assumes "day_ticks \<le> now + jst_offset"
  shows "let p = usage_periods now in
     jst_midnight (up_day p) \<le> now \<and> now < up_next_day p \<and>
     up_next_day p = jst_midnight (up_day p) + day_ticks \<and>
     weekday (up_week_start p) = 0 \<and> jst_midnight (up_week_start p) \<le> now \<and>
     now < up_next_week p \<and> up_next_week p = jst_midnight (up_week_start p) + 7 * day_ticks \<and>
     day (up_month_start p) = 1 \<and> jst_midnight (up_month_start p) \<le> now \<and>
     now < up_next_month p \<and> up_next_month p \<le> now + 31 * day_ticks"
proof -
  let ?d = "date_of (now + jst_offset)"
  have b: "midnight ?d \<le> now + jst_offset" using date_of_bounds by blast
  have v: "valid_date ?d" by (rule valid_date_of [OF assms])
  have "toordinal (?d\<lparr>day := 1\<rparr>) \<le> toordinal ?d"
    using v by (simp add: toordinal_def valid_date_def)
  then have m: "midnight (?d\<lparr>day := 1\<rparr>) \<le> midnight ?d" by (simp add: midnight_def)
  have n: "midnight (next_month_start ?d) \<le> midnight ?d + 31 * day_ticks"
    using next_month_after(2) [OF v] unfolding midnight_def by linarith
  have w: "weekday (add_days ?d (- weekday ?d)) = 0" by (simp add: weekday_add_days)
  show ?thesis
    using usage_periods_ends [OF assms] b m n w weekday_bounds [of ?d]
    by (simp add: usage_periods_def Let_def jst_midnight_def midnight_add_days)
qed

theorem usage_periods_contain_now_witness:
  "weekday (up_week_start (usage_periods (739000 * day_ticks))) = 0"
  using usage_periods_contain_now [of "739000 * day_ticks"] by (simp add: Let_def)

text \<open>
  The subject of a signed-in user is read back as the same user id.
\<close>

theorem usage_subject_roundtrip:
  assumes "0 \<le> i" and "length (show_int i) \<le> 4300"
  shows "user_usage_subject (SInt i) = Some k \<Longrightarrow> user_id_from_usage_subject k = Inr (Some i)"
proof -
  have d: "py_isdigit (show_int i)"
    using assms(1) show_nat_digits [of "nat i"]
    by (simp add: py_isdigit_def show_int_def list_all_iff)
  show "user_usage_subject (SInt i) = Some k \<Longrightarrow> user_id_from_usage_subject k = Inr (Some i)"
    using d py_int_show_int [OF assms(2)] by (auto simp: user_id_from_usage_subject_def)
qed

theorem usage_subject_roundtrip_witness:
  "user_id_from_usage_subject (''user:'' @ show_int 42) = Inr (Some 42)"
  by (rule usage_subject_roundtrip [of 42 "''user:'' @ show_int 42"]) (simp, code_simp, simp)

text \<open>
  C28: end to end, from metered calls and demo codes to the decision.  For a signed-in user a new AI request
  may start exactly when the calls metered so far leave room in the monthly budget (all subjects), in the
  user's week and in the user's day, and, if the user's demo code has an expiry, the demo period is not
  over and the user's calls since the account was made leave room in the demo allowance; a limit of 0 is
  no limit.  What other users spent matters for the monthly budget only.
\<close>

theorem usage_admission_exact:
  assumes "k = ''user:'' @ show_int i" and "0 \<le> i" and "length (show_int i) \<le> 4300"
    and "p = usage_periods now"
  shows "check_usage_limit settings (read_usage_totals (fold add_usage log []) codes) cur (Some k) now = Inr None
     \<longleftrightarrow>
     (monthly_stop settings \<le> 0 \<or>
        cost_sum (\<lambda>r. date_le (up_month_start p) (ui_date r) \<and> date_le (ui_date r) (up_day p)) log
          < monthly_stop settings) \<and>
     (case expiry_for_user i codes of
        None \<Rightarrow> True
      | Some expires_at \<Rightarrow>
          now < expires_at \<and>
          (demo_total settings \<le> 0 \<or> cost_sum (\<lambda>r. ui_subject r = k) log < demo_total settings)) \<and>
     (user_weekly settings \<le> 0 \<or>
        cost_sum (\<lambda>r. ui_subject r = k \<and> date_le (up_week_start p) (ui_date r) \<and> date_le (ui_date r) (up_day p)) log
          < user_weekly settings) \<and>
     (user_daily settings \<le> 0 \<or>
        cost_sum (\<lambda>r. ui_subject r = k \<and> date_le (up_week_start p) (ui_date r) \<and> date_le (ui_date r) (up_day p)
                    \<and> ui_date r = up_day p) log
          < user_daily settings)"
proof -
  have d: "py_isdigit (show_int i)"
    using assms(2) show_nat_digits [of "nat i"]
    by (simp add: py_isdigit_def show_int_def list_all_iff)
  have u: "user_id_from_usage_subject k = Inr (Some i)"
    using d py_int_show_int [OF assms(3)] by (simp add: user_id_from_usage_subject_def assms(1))
  have pl: "personal_limits k settings = Some (user_daily settings, user_weekly settings)"
    by (simp add: personal_limits_def startswith_def assms(1))
  have o: "or_default k cur = k" by (simp add: or_default_def assms(1))
  show ?thesis
    using u pl o
    by (simp add: check_usage_limit_def get_usage_status_def read_usage_totals_def exhausted_def
          ledger_totals Let_def assms(4) split: option.split)
       (auto simp: subject_totals_def total_cost_def lifetime_costs_def cost_sum_filter exhausted_def demo_ended_def
          not_less not_le Let_def)
qed

text \<open>
  Two users have searched once; both are within every limit but the demo allowance of user 7, who is admitted
  only when the allowance is larger than one search.
\<close>

definition sample_usage :: "usage_increment list" where
  "sample_usage =
     [record_web_search_request ''user:7'' (739000 * day_ticks), record_web_search_request ''user:8'' (739000 * day_ticks)]"

definition sample_demo_codes :: "demo_code list" where
  "sample_demo_codes = [\<lparr>dc_user_id = Some 7, dc_expires_at = Some (739001 * day_ticks)\<rparr>]"

definition sample_limits :: "int \<Rightarrow> usage_limit_settings" where
  "sample_limits allowance =
     \<lparr>user_daily = 3 * BRAVE_WEB_SEARCH_REQUEST_NANO_USD, user_weekly = 3 * BRAVE_WEB_SEARCH_REQUEST_NANO_USD,
      guest_daily = 1, guest_weekly = 1, demo_total = allowance, monthly_stop = 3 * BRAVE_WEB_SEARCH_REQUEST_NANO_USD\<rparr>"

theorem usage_admission_exact_witness:
  "check_usage_limit (sample_limits (2 * BRAVE_WEB_SEARCH_REQUEST_NANO_USD))
     (read_usage_totals (fold add_usage sample_usage []) sample_demo_codes) ''system''
     (Some (''user:'' @ show_int 7)) (739000 * day_ticks) = Inr None \<and>
   check_usage_limit (sample_limits BRAVE_WEB_SEARCH_REQUEST_NANO_USD)
     (read_usage_totals (fold add_usage sample_usage []) sample_demo_codes) ''system''
     (Some (''user:'' @ show_int 7)) (739000 * day_ticks) \<noteq> Inr None"
proof -
  have len: "length (show_int 7) \<le> 4300" by code_simp
  note exact = usage_admission_exact [OF refl _ len refl, where log = sample_usage and codes = sample_demo_codes]
  show ?thesis
  proof (intro conjI)
    show "check_usage_limit (sample_limits (2 * BRAVE_WEB_SEARCH_REQUEST_NANO_USD))
        (read_usage_totals (fold add_usage sample_usage []) sample_demo_codes) ''system''
        (Some (''user:'' @ show_int 7)) (739000 * day_ticks) = Inr None"
      by (rule exact [THEN iffD2]) (simp, code_simp)
    show "check_usage_limit (sample_limits BRAVE_WEB_SEARCH_REQUEST_NANO_USD)
        (read_usage_totals (fold add_usage sample_usage []) sample_demo_codes) ''system''
        (Some (''user:'' @ show_int 7)) (739000 * day_ticks) \<noteq> Inr None"
      by (subst exact) (simp, code_simp)
  qed
qed

text \<open>
  A refusal announces an honest waiting time: at least one second, the limit is lifted in the
  future, and no later than one second after the announced time (demo allowances, which never come
  back, excepted).
\<close>

theorem usage_block_waiting_time:
  assumes "day_ticks \<le> now + jst_offset"
    and "check_usage_limit settings reader cur subject now = Inr (Some b)" and "ub_reason b \<noteq> Demo"
  shows "1 \<le> ub_retry_after_seconds b \<and> now < ub_resets_at b \<and>
         ub_resets_at b < now + second * (ub_retry_after_seconds b + 1)"
proof -
  have blk: "1 \<le> ub_retry_after_seconds (usage_block r e now) \<and> now < ub_resets_at (usage_block r e now) \<and>
      ub_resets_at (usage_block r e now) < now + second * (ub_retry_after_seconds (usage_block r e now) + 1)"
    if "now < e" for r e
    using trunc_seconds_upper [of "e - now"] that by (simp add: usage_block_def)
  have "\<exists>r e. b = usage_block r e now \<and> now < e"
    using assms(2,3) usage_periods_ends [OF assms(1)]
    by (fastforce simp: check_usage_limit_def get_usage_status_def usage_block_def Let_def
          split: sum.splits if_splits)
  with blk show ?thesis by blast
qed

theorem usage_block_waiting_time_witness:
  "let st = \<lparr>user_daily = 0, user_weekly = 0, guest_daily = 0, guest_weekly = 0, demo_total = 0, monthly_stop = 1\<rparr>;
       tbl = [record_web_search_request ''user:7'' (739000 * day_ticks)]
   in case check_usage_limit st (read_usage_totals tbl []) ''system'' None (739000 * day_ticks) of
        Inr (Some b) \<Rightarrow> 1 \<le> ub_retry_after_seconds b \<and> 739000 * day_ticks < ub_resets_at b
      | _ \<Rightarrow> False"
proof -
  let ?st = "\<lparr>user_daily = 0, user_weekly = 0, guest_daily = 0, guest_weekly = 0, demo_total = 0, monthly_stop = 1\<rparr>"
  let ?tbl = "[record_web_search_request ''user:7'' (739000 * day_ticks)]"
  let ?c = "check_usage_limit ?st (read_usage_totals ?tbl []) ''system'' None (739000 * day_ticks)"
  have "case ?c of Inr (Some b) \<Rightarrow> ub_reason b = MonthlyBudget | _ \<Rightarrow> False" by code_simp
  then obtain b where b: "?c = Inr (Some b)" "ub_reason b = MonthlyBudget"
    by (auto split: sum.splits option.splits)
  show ?thesis using usage_block_waiting_time [OF _ b(1)] b by simp
qed

end
