(* ===== verification/Json.thy ===== *)
theory Json
  imports Prelude "HOL-Library.AList"
begin

text \<open>
  The part of Python's \<open>json\<close> module the repository uses: \<open>dumps(value, ensure_ascii=False)\<close> with the
  default separators and \<open>loads(text)\<close>.  A dictionary is a list of pairs in insertion order.  Numbers
  with a fraction or an exponent, and \<open>NaN\<close> and the infinities, are kept as the literal they were
  written with (\<open>JFloat\<close>).  A \<open>\u\<close> escape of a code point above 255 is outside the modelled alphabet
  and is rejected.  The reader's fuel is the length of the text, which bounds every nesting.
\<close>

datatype json =
    JNull
  | JBool bool
  | JInt int
  | JFloat string
  | JStr string
  | JArr "json list"
  | JObj "(string \<times> json) list"

section \<open>Writing\<close>

definition hex_char :: "nat \<Rightarrow> char" where
  "hex_char n = (if n < 10 then char_of (48 + n) else char_of (87 + n))"

definition escape_char :: "char \<Rightarrow> string" where
  "escape_char c =
     (let n = (of_char c :: nat)
      in if c = CHR 0x22 then [CHR 0x5C, CHR 0x22]
         else if c = CHR 0x5C then [CHR 0x5C, CHR 0x5C]
         else if n = 8 then [CHR 0x5C, CHR ''b'']
         else if n = 12 then [CHR 0x5C, CHR ''f'']
         else if n = 10 then [CHR 0x5C, CHR ''n'']
         else if n = 13 then [CHR 0x5C, CHR ''r'']
         else if n = 9 then [CHR 0x5C, CHR ''t'']
         else if n < 32 then
           [CHR 0x5C, CHR ''u'', CHR ''0'', CHR ''0'', hex_char (n div 16), hex_char (n mod 16)]
         else [c])"

definition dumps_string :: "string \<Rightarrow> string" where
  "dumps_string s = [CHR 0x22] @ concat (map escape_char s) @ [CHR 0x22]"

fun join_with :: "string \<Rightarrow> string list \<Rightarrow> string" where
  "join_with sep [] = []"
| "join_with sep [x] = x"
| "join_with sep (x # y # ys) = x @ sep @ join_with sep (y # ys)"

fun dumps :: "json \<Rightarrow> string" where
  "dumps JNull = ''null''"
| "dumps (JBool b) = (if b then ''true'' else ''false'')"
| "dumps (JInt i) = show_int i"
| "dumps (JFloat lit) = lit"
| "dumps (JStr s) = dumps_string s"
| "dumps (JArr vs) = ''['' @ join_with '', '' (map dumps vs) @ '']''"
| "dumps (JObj kvs) =
     ''{'' @ join_with '', '' (map (\<lambda>(k, v). dumps_string k @ '': '' @ dumps v) kvs) @ ''}''"

section \<open>Reading\<close>

definition is_ws :: "char \<Rightarrow> bool" where
  "is_ws c \<longleftrightarrow> c = CHR '' '' \<or> c = CHR 0x09 \<or> c = CHR 0x0A \<or> c = CHR 0x0D"

definition skip_ws :: "string \<Rightarrow> string" where
  "skip_ws s = dropWhile is_ws s"

definition hex_value :: "char \<Rightarrow> nat option" where
  "hex_value c =
     (let n = (of_char c :: nat)
      in if 48 \<le> n \<and> n \<le> 57 then Some (n - 48)
         else if 97 \<le> n \<and> n \<le> 102 then Some (n - 87)
         else if 65 \<le> n \<and> n \<le> 70 then Some (n - 55)
         else None)"

definition unescape :: "char \<Rightarrow> char option" where
  "unescape c =
     (if c = CHR 0x22 then Some (CHR 0x22)
      else if c = CHR 0x5C then Some (CHR 0x5C)
      else if c = CHR ''/'' then Some (CHR ''/'')
      else if c = CHR ''b'' then Some (CHR 0x08)
      else if c = CHR ''f'' then Some (CHR 0x0C)
      else if c = CHR ''n'' then Some (CHR 0x0A)
      else if c = CHR ''r'' then Some (CHR 0x0D)
      else if c = CHR ''t'' then Some (CHR 0x09)
      else None)"

text \<open>The characters after an opening quote, up to and including the closing one.\<close>

fun scan_string :: "string \<Rightarrow> (string \<times> string) option" where
  "scan_string [] = None"
| "scan_string (c # cs) =
     (if c = CHR 0x22 then Some ([], cs)
      else if c = CHR 0x5C then
        (case cs of
           [] \<Rightarrow> None
         | e # ds \<Rightarrow>
             if e = CHR ''u'' then
               (case ds of
                  a # b # x # y # es \<Rightarrow>
                    (case (hex_value a, hex_value b, hex_value x, hex_value y) of
                       (Some 0, Some 0, Some p, Some q) \<Rightarrow>
                         (case scan_string es of
                            None \<Rightarrow> None
                          | Some (s, rest) \<Rightarrow> Some (char_of (16 * p + q) # s, rest))
                     | _ \<Rightarrow> None)
                | _ \<Rightarrow> None)
             else
               (case unescape e of
                  None \<Rightarrow> None
                | Some d \<Rightarrow>
                    (case scan_string ds of None \<Rightarrow> None | Some (s, rest) \<Rightarrow> Some (d # s, rest))))
      else if (of_char c :: nat) < 32 then None
      else (case scan_string cs of None \<Rightarrow> None | Some (s, rest) \<Rightarrow> Some (c # s, rest)))"

definition scan_digits :: "string \<Rightarrow> string \<times> string" where
  "scan_digits s = (takeWhile is_digit s, dropWhile is_digit s)"

text \<open>The optional fraction and exponent of a number: the literal read, and the rest.\<close>

definition scan_fraction :: "string \<Rightarrow> string \<times> string" where
  "scan_fraction s =
     (case s of
        c # cs \<Rightarrow>
          (let (ds, rest) = scan_digits cs
           in if c = CHR ''.'' \<and> ds \<noteq> [] then (c # ds, rest) else ([], s))
      | [] \<Rightarrow> ([], s))"

definition scan_exponent :: "string \<Rightarrow> string \<times> string" where
  "scan_exponent s =
     (case s of
        c # cs \<Rightarrow>
          if c = CHR ''e'' \<or> c = CHR ''E'' then
            (let (sign, body) =
                   (case cs of
                      d # ds \<Rightarrow> if d = CHR ''+'' \<or> d = CHR ''-'' then ([d], ds) else ([], cs)
                    | [] \<Rightarrow> ([], cs));
                 (ds, rest) = scan_digits body
             in if ds \<noteq> [] then (c # sign @ ds, rest) else ([], s))
          else ([], s)
      | [] \<Rightarrow> ([], s))"

definition scan_integer :: "string \<Rightarrow> (string \<times> string) option" where
  "scan_integer s =
     (case s of
        c # cs \<Rightarrow>
          if c = CHR ''0'' then Some ([c], cs)
          else if is_digit c then (let (ds, rest) = scan_digits cs in Some (c # ds, rest))
          else None
      | [] \<Rightarrow> None)"

definition scan_number :: "string \<Rightarrow> (json \<times> string) option" where
  "scan_number s =
     (let (sign, body) = (case s of c # cs \<Rightarrow> if c = CHR ''-'' then ([c], cs) else ([], s) | [] \<Rightarrow> ([], s))
      in case scan_integer body of
           None \<Rightarrow> None
         | Some (ds, r1) \<Rightarrow>
             (let (frac, r2) = scan_fraction r1; (expo, r3) = scan_exponent r2
              in if frac = [] \<and> expo = []
                 then (case py_int (sign @ ds) of None \<Rightarrow> None | Some i \<Rightarrow> Some (JInt i, r3))
                 else Some (JFloat (sign @ ds @ frac @ expo), r3)))"

definition scan_literal :: "string \<Rightarrow> (json \<times> string) option" where
  "scan_literal s =
     (if startswith s ''null'' then Some (JNull, drop 4 s)
      else if startswith s ''true'' then Some (JBool True, drop 4 s)
      else if startswith s ''false'' then Some (JBool False, drop 5 s)
      else if startswith s ''NaN'' then Some (JFloat ''NaN'', drop 3 s)
      else if startswith s ''Infinity'' then Some (JFloat ''Infinity'', drop 8 s)
      else if startswith s ''-Infinity'' then Some (JFloat ''-Infinity'', drop 9 s)
      else scan_number s)"

text \<open>Later duplicates of a key replace the value and keep the position, as in a Python dictionary.\<close>

definition dict_of_pairs :: "(string \<times> json) list \<Rightarrow> (string \<times> json) list" where
  "dict_of_pairs kvs = foldl (\<lambda>d (k, v). AList.update k v d) [] kvs"

fun scan_value :: "nat \<Rightarrow> string \<Rightarrow> (json \<times> string) option"
  and scan_elements :: "nat \<Rightarrow> string \<Rightarrow> (json list \<times> string) option"
  and scan_members :: "nat \<Rightarrow> string \<Rightarrow> ((string \<times> json) list \<times> string) option"
where
  "scan_value 0 s = None"
| "scan_value (Suc n) s =
     (case s of
        [] \<Rightarrow> None
      | c # cs \<Rightarrow>
          if c = CHR 0x22 then map_option (apfst JStr) (scan_string cs)
          else if c = CHR ''['' then
            (let r = skip_ws cs
             in if r \<noteq> [] \<and> hd r = CHR '']'' then Some (JArr [], tl r)
                else map_option (apfst JArr) (scan_elements n r))
          else if c = CHR ''{'' then
            (let r = skip_ws cs
             in if r \<noteq> [] \<and> hd r = CHR ''}'' then Some (JObj [], tl r)
                else map_option (apfst (JObj \<circ> dict_of_pairs)) (scan_members n r))
          else scan_literal s)"
| "scan_elements 0 s = None"
| "scan_elements (Suc n) s =
     (case scan_value n s of
        None \<Rightarrow> None
      | Some (v, r) \<Rightarrow>
          (case skip_ws r of
             [] \<Rightarrow> None
           | c # cs \<Rightarrow>
               if c = CHR '']'' then Some ([v], cs)
               else if c = CHR '','' then map_option (apfst ((#) v)) (scan_elements n (skip_ws cs))
               else None))"
| "scan_members 0 s = None"
| "scan_members (Suc n) s =
     (case s of
        [] \<Rightarrow> None
      | q # qs \<Rightarrow>
          if q \<noteq> CHR 0x22 then None
          else
            (case scan_string qs of
               None \<Rightarrow> None
             | Some (k, r) \<Rightarrow>
                 (case skip_ws r of
                    [] \<Rightarrow> None
                  | c # cs \<Rightarrow>
                      if c \<noteq> CHR '':'' then None
                      else
                        (case scan_value n (skip_ws cs) of
                           None \<Rightarrow> None
                         | Some (v, r') \<Rightarrow>
                             (case skip_ws r' of
                                [] \<Rightarrow> None
                              | d # ds \<Rightarrow>
                                  if d = CHR ''}'' then Some ([(k, v)], ds)
                                  else if d = CHR '','' then
                                    map_option (apfst ((#) (k, v))) (scan_members n (skip_ws ds))
                                  else None)))))"

definition loads :: "string \<Rightarrow> json option" where
  "loads raw =
     (case scan_value (Suc (length raw)) (skip_ws raw) of
        Some (v, rest) \<Rightarrow> if skip_ws rest = [] then Some v else None
      | None \<Rightarrow> None)"

fun json_get :: "string \<Rightarrow> json \<Rightarrow> json" where
  "json_get k (JObj kvs) = (case map_of kvs k of None \<Rightarrow> JNull | Some v \<Rightarrow> v)"
| "json_get k _ = JNull"

text \<open>A Python \<open>dict\<close> with string keys: \<open>d.get(k)\<close>, and the truth value of what it holds.\<close>

type_synonym dict = "(string \<times> json) list"

definition dict_get :: "string \<Rightarrow> dict \<Rightarrow> json" where
  "dict_get k d = (case map_of d k of None \<Rightarrow> JNull | Some v \<Rightarrow> v)"

definition float_true :: "string \<Rightarrow> bool" where
  "float_true s \<longleftrightarrow>
     list_ex (\<lambda>c. c \<noteq> CHR ''0'' \<and> c \<noteq> CHR ''.'' \<and> c \<noteq> CHR ''-'')
       (takeWhile (\<lambda>c. c \<noteq> CHR ''e'' \<and> c \<noteq> CHR ''E'') s)"

fun json_true :: "json \<Rightarrow> bool" where
  "json_true JNull = False"
| "json_true (JBool b) = b"
| "json_true (JInt i) = (i \<noteq> 0)"
| "json_true (JFloat s) = float_true s"
| "json_true (JStr s) = (s \<noteq> [])"
| "json_true (JArr xs) = (xs \<noteq> [])"
| "json_true (JObj kvs) = (kvs \<noteq> [])"

text \<open>
  Python's \<open>==\<close> on these values: dictionaries are equal when they hold equal values under the same keys,
  in whatever order; \<open>True\<close> and \<open>1\<close> are equal; a float is given by the literal \<open>repr\<close> writes, so two
  floats are equal when their literals are, except that no \<open>NaN\<close> equals another and the two zeros do.
\<close>

definition float_eq :: "string \<Rightarrow> string \<Rightarrow> bool" where
  "float_eq s t \<longleftrightarrow> (s = t \<and> s \<noteq> ''NaN'') \<or> (\<not> float_true s \<and> \<not> float_true t)"

definition int_float_eq :: "int \<Rightarrow> string \<Rightarrow> bool" where
  "int_float_eq i s \<longleftrightarrow> s = show_int i @ ''.0'' \<or> (i = 0 \<and> \<not> float_true s)"

fun scalar_eq :: "json \<Rightarrow> json \<Rightarrow> bool" where
  "scalar_eq (JBool a) (JInt i) = (i = of_bool a)"
| "scalar_eq (JInt i) (JBool a) = (i = of_bool a)"
| "scalar_eq (JFloat s) (JFloat t) = float_eq s t"
| "scalar_eq (JInt i) (JFloat s) = int_float_eq i s"
| "scalar_eq (JFloat s) (JInt i) = int_float_eq i s"
| "scalar_eq (JBool a) (JFloat s) = int_float_eq (of_bool a) s"
| "scalar_eq (JFloat s) (JBool a) = int_float_eq (of_bool a) s"
| "scalar_eq a b = (a = b)"

lemma size_element: "(x :: json) \<in> set xs \<Longrightarrow> size x \<le> size_list size xs"
  by (rule size_list_estimation' [of x]) simp_all

lemma size_member: "(k, v :: json) \<in> set d \<Longrightarrow> size v \<le> size_list (size_prod (\<lambda>x. 0) size) d"
  by (rule size_list_estimation' [of "(k, v)"]) simp_all

function json_eq :: "json \<Rightarrow> json \<Rightarrow> bool" where
  "json_eq a b =
     (case a of
        JArr xs \<Rightarrow>
          (case b of
             JArr ys \<Rightarrow> length xs = length ys \<and> list_all (\<lambda>(x, y). json_eq x y) (zip xs ys)
           | _ \<Rightarrow> False)
      | JObj d \<Rightarrow>
          (case b of
             JObj e \<Rightarrow>
               length d = length e
               \<and> list_all (\<lambda>(k, v). case map_of e k of None \<Rightarrow> False | Some w \<Rightarrow> json_eq v w) d
           | _ \<Rightarrow> False)
      | _ \<Rightarrow> scalar_eq a b)"
  by pat_completeness auto
termination
  by (relation "measure (\<lambda>(a, b). size a)")
    (auto simp: less_Suc_eq_le size_element size_member dest!: set_zip_leftD)

declare json_eq.simps [simp del]

lemma dict_get_update: "dict_get k (AList.update k' v d) = (if k = k' then v else dict_get k d)"
  by (simp add: dict_get_def update_conv')

section \<open>Reading back what was written\<close>

lemma hex_value_hex_char: "k < 16 \<Longrightarrow> hex_value (hex_char k) = Some k"
  by (auto simp: hex_value_def hex_char_def Let_def)

lemma scan_escape:
  "scan_string (escape_char c @ cs) =
     (case scan_string cs of None \<Rightarrow> None | Some (s, r) \<Rightarrow> Some (c # s, r))"
proof -
  define n :: nat where "n = of_char c"
  have c: "c = char_of n" by (simp add: n_def)
  have d: "n div 16 < 16 \<and> n mod 16 < 16 \<and> 16 * (n div 16) + n mod 16 = n" if "n < 32"
    using that by simp
  have zero: "hex_value (CHR ''0'') = Some 0" by (simp add: hex_value_def)
  have is_code: "n = of_char x \<longleftrightarrow> c = x" for x by (simp add: n_def)
  have codes: "n = 8 \<longleftrightarrow> c = CHR 0x08" "n = 9 \<longleftrightarrow> c = CHR 0x09" "n = 10 \<longleftrightarrow> c = CHR 0x0A"
      "n = 12 \<longleftrightarrow> c = CHR 0x0C" "n = 13 \<longleftrightarrow> c = CHR 0x0D"
    using is_code [of "CHR 0x08"] is_code [of "CHR 0x09"] is_code [of "CHR 0x0A"]
      is_code [of "CHR 0x0C"] is_code [of "CHR 0x0D"] by simp_all
  have plain: "c = CHR 0x22 \<longrightarrow> n = 34" "c = CHR 0x5C \<longrightarrow> n = 92" by (auto simp: n_def)
  consider (short) "c \<in> {CHR 0x22, CHR 0x5C, CHR 0x08, CHR 0x09, CHR 0x0A, CHR 0x0C, CHR 0x0D}"
    | (ctl) "n < 32" "n \<notin> {8, 9, 10, 12, 13}"
    | (other) "32 \<le> n" "c \<noteq> CHR 0x22" "c \<noteq> CHR 0x5C"
    unfolding insert_iff codes [symmetric] by fastforce
  then show ?thesis
  proof cases
    case short
    then show ?thesis by (auto simp: escape_char_def unescape_def)
  next
    case ctl
    then have "c \<noteq> CHR 0x22" "c \<noteq> CHR 0x5C" using plain by auto
    with ctl have e: "escape_char c =
        [CHR 0x5C, CHR ''u'', CHR ''0'', CHR ''0'', hex_char (n div 16), hex_char (n mod 16)]"
      by (simp add: escape_char_def Let_def flip: n_def)
    show ?thesis using d [OF ctl(1)] unfolding e
      by (simp add: zero hex_value_hex_char split: option.split flip: c)
  next
    case other
    then show ?thesis using codes by (simp add: escape_char_def Let_def n_def)
  qed
qed

lemma scan_dumps_string: "scan_string (concat (map escape_char s) @ CHR 0x22 # rest) = Some (s, rest)"
  by (induction s) (simp_all add: scan_escape)

text \<open>Values \<open>dumps\<close> writes and \<open>loads\<close> reads back: no floats, distinct keys, numbers within the digit limit.\<close>

fun json_ok :: "json \<Rightarrow> bool" where
  "json_ok (JFloat _) = False"
| "json_ok (JInt i) = (length (show_int i) \<le> 4300)"
| "json_ok (JArr vs) = (\<forall>v \<in> set vs. json_ok v)"
| "json_ok (JObj kvs) = (distinct (map fst kvs) \<and> (\<forall>kv \<in> set kvs. json_ok (snd kv)))"
| "json_ok _ = True"

definition delim :: "string \<Rightarrow> bool" where
  "delim rest \<longleftrightarrow> rest = [] \<or> hd rest \<in> {CHR '','', CHR '']'', CHR ''}''}"

lemma delim_simps [simp]:
  "delim []" "delim (CHR '','' # r)" "delim (CHR '']'' # r)" "delim (CHR ''}'' # r)"
  by (simp_all add: delim_def)

lemma show_nat_hd_nonzero: "0 < n \<Longrightarrow> hd (show_nat n) \<noteq> CHR ''0''"
proof (induction n rule: show_nat.induct)
  case (1 n)
  show ?case
  proof (cases "n < 10")
    case True
    have "digit_char n \<noteq> CHR ''0''"
      using digit_value_digit_char [OF True] "1.prems" by (auto simp: digit_value_def)
    then show ?thesis using True by (subst show_nat.simps) simp
  next
    case False
    then show ?thesis using "1.IH" by (subst show_nat.simps) simp
  qed
qed

lemma scan_digits_delim:
  assumes "list_all is_digit ds" and "delim rest"
  shows "scan_digits (ds @ rest) = (ds, rest)"
proof -
  have "takeWhile is_digit rest = [] \<and> dropWhile is_digit rest = rest"
    using assms(2) by (cases rest) (auto simp: delim_def is_digit_def)
  then show ?thesis
    using assms(1) by (simp add: scan_digits_def list_all_iff)
qed

lemma scan_integer_show_nat:
  assumes "delim rest"
  shows "scan_integer (show_nat n @ rest) = Some (show_nat n, rest)"
proof (cases "n = 0")
  case True
  moreover have "show_nat 0 = ''0''" by code_simp
  ultimately show ?thesis by (simp add: scan_integer_def)
next
  case False
  obtain c cs where c: "show_nat n = c # cs" by (cases "show_nat n") auto
  then have "is_digit c" "list_all is_digit cs" using show_nat_digits [of n] by auto
  moreover have "c \<noteq> CHR ''0''" using show_nat_hd_nonzero [of n] False c by simp
  ultimately show ?thesis using scan_digits_delim [OF _ assms, of cs] by (simp add: scan_integer_def c)
qed

lemma no_fraction: "delim rest \<Longrightarrow> scan_fraction rest = ([], rest) \<and> scan_exponent rest = ([], rest)"
  by (cases rest) (auto simp: delim_def scan_fraction_def scan_exponent_def split_beta)

lemma scan_number_show_int:
  assumes "length (show_int i) \<le> 4300" and "delim rest"
  shows "scan_number (show_int i @ rest) = Some (JInt i, rest)"
proof (cases "i < 0")
  case True
  then show ?thesis
    using scan_integer_show_nat [OF assms(2), of "nat (- i)"] no_fraction [OF assms(2)]
      py_int_show_int [OF assms(1)]
    by (simp add: scan_number_def show_int_def)
next
  case False
  obtain c cs where c: "show_nat (nat i) = c # cs" by (cases "show_nat (nat i)") auto
  have "c \<noteq> CHR ''-''" using show_nat_hd [of "nat i"] c by auto
  then show ?thesis
    using scan_integer_show_nat [OF assms(2), of "nat i"] no_fraction [OF assms(2)]
      py_int_show_int [OF assms(1)] False
    by (simp add: scan_number_def show_int_def c)
qed

lemma show_int_first:
  "\<exists>c cs. show_int i = c # cs \<and> (is_digit c \<or> (c = CHR ''-'' \<and> cs \<noteq> [] \<and> is_digit (hd cs)))"
proof (cases "i < 0")
  case True
  then show ?thesis using show_nat_hd [of "nat (- i)"] by (simp add: show_int_def)
next
  case False
  then show ?thesis using show_nat_hd [of "nat i"] by (cases "show_nat (nat i)") (auto simp: show_int_def)
qed

lemma digit_ne:
  assumes "is_digit c"
  shows "c \<noteq> CHR ''n''" "c \<noteq> CHR ''t''" "c \<noteq> CHR ''f''" "c \<noteq> CHR ''N''" "c \<noteq> CHR ''I''"
    "c \<noteq> CHR ''-''" "c \<noteq> CHR 0x22" "c \<noteq> CHR ''[''" "c \<noteq> CHR ''{''" "c \<noteq> CHR '']''" "\<not> is_ws c"
  using assms by (auto simp: is_digit_def is_ws_def)

lemma scan_value_show_int:
  assumes "length (show_int i) \<le> 4300" and "delim rest" and "0 < n"
  shows "scan_value n (show_int i @ rest) = Some (JInt i, rest)"
proof -
  obtain m where m: "n = Suc m" using assms(3) by (cases n) auto
  obtain c cs where c: "show_int i = c # cs"
      "is_digit c \<or> (c = CHR ''-'' \<and> cs \<noteq> [] \<and> is_digit (hd cs))"
    using show_int_first by blast
  from c(2) have "scan_literal (show_int i @ rest) = scan_number (show_int i @ rest)"
  proof
    assume "is_digit c"
    note digit_ne [OF this]
    then show ?thesis unfolding scan_literal_def startswith_def c(1) by simp
  next
    assume *: "c = CHR ''-'' \<and> cs \<noteq> [] \<and> is_digit (hd cs)"
    then obtain d ds where d: "cs = d # ds" by (cases cs) auto
    with * have "c = CHR ''-''" "d \<noteq> CHR ''I''" using digit_ne(5) [of d] by auto
    then show ?thesis unfolding scan_literal_def startswith_def c(1) d by simp
  qed
  moreover have "c \<noteq> CHR 0x22" "c \<noteq> CHR ''[''" "c \<noteq> CHR ''{''" using c(2) digit_ne(7,8,9) [of c] by auto
  ultimately show ?thesis using scan_number_show_int [OF assms(1,2)] by (simp add: m c(1))
qed

lemma dumps_first:
  assumes "json_ok v"
  shows "\<exists>c cs. dumps v = c # cs \<and> \<not> is_ws c \<and> c \<noteq> CHR '']''"
proof (cases v)
  case (JInt i)
  then show ?thesis using show_int_first [of i] by (auto simp: is_ws_def is_digit_def)
qed (use assms in \<open>auto simp: is_ws_def dumps_string_def\<close>)

lemma skip_ws_first: "\<not> is_ws c \<Longrightarrow> skip_ws (c # cs) = c # cs"
  by (simp add: skip_ws_def)

definition reads_back :: "json \<Rightarrow> bool" where
  "reads_back v \<longleftrightarrow>
     (\<forall>n rest. length (dumps v) \<le> n \<longrightarrow> delim rest \<longrightarrow> scan_value n (dumps v @ rest) = Some (v, rest))"

lemma ws_delims [simp]: "skip_ws (CHR '','' # s) = CHR '','' # s" "skip_ws (CHR '']'' # s) = CHR '']'' # s"
  "skip_ws (CHR ''}'' # s) = CHR ''}'' # s" "skip_ws (CHR '':'' # s) = CHR '':'' # s"
  "skip_ws (CHR 0x22 # s) = CHR 0x22 # s" "skip_ws (CHR '' '' # s) = skip_ws s"
  by (simp_all add: skip_ws_def is_ws_def)

lemma skip_ws_dumps: "json_ok v \<Longrightarrow> skip_ws (dumps v @ s) = dumps v @ s"
  using dumps_first [of v] by (auto simp: skip_ws_first)

lemma skip_ws_joined:
  assumes "vs \<noteq> []" and "\<forall>v \<in> set vs. json_ok v"
  shows "skip_ws (join_with '', '' (map dumps vs) @ s) = join_with '', '' (map dumps vs) @ s"
  using assms skip_ws_dumps by (cases vs; cases "tl vs") auto

lemma scan_elements_dumps:
  assumes "\<forall>v \<in> set vs. json_ok v \<and> reads_back v" and "vs \<noteq> []"
    and "length (join_with '', '' (map dumps vs)) + 1 \<le> n"
  shows "scan_elements n (join_with '', '' (map dumps vs) @ CHR '']'' # rest) = Some (vs, rest)"
  using assms
proof (induction vs arbitrary: n)
  case (Cons v vs)
  obtain m where m: "n = Suc m" using Cons.prems(3) by (cases n) auto
  have v: "reads_back v" using Cons.prems(1) by simp
  show ?case
  proof (cases vs)
    case Nil
    then show ?thesis using Cons.prems v by (simp add: m reads_back_def)
  next
    case (Cons w ws)
    have tail: "scan_elements m (join_with '', '' (map dumps vs) @ CHR '']'' # rest) = Some (vs, rest)"
      using Cons.prems Cons by (intro Cons.IH) (auto simp: m)
    have "scan_value m (dumps v @ CHR '','' # CHR '' '' # join_with '', '' (map dumps vs) @ CHR '']'' # rest) =
        Some (v, CHR '','' # CHR '' '' # join_with '', '' (map dumps vs) @ CHR '']'' # rest)"
      using Cons.prems(3) v Cons by (simp add: m reads_back_def)
    then show ?thesis
      using tail Cons Cons.prems(1) skip_ws_joined [of vs] by (simp add: m)
  qed
qed simp

lemma reads_back_arr:
  assumes "\<forall>v \<in> set vs. json_ok v \<and> reads_back v"
  shows "reads_back (JArr vs)"
  unfolding reads_back_def
proof (intro allI impI)
  fix n rest
  assume len: "length (dumps (JArr vs)) \<le> n"
  then obtain m where m: "n = Suc m" by (cases n) auto
  show "scan_value n (dumps (JArr vs) @ rest) = Some (JArr vs, rest)"
  proof (cases "vs = []")
    case True
    then show ?thesis by (simp add: m)
  next
    case False
    then obtain c cs where c: "join_with '', '' (map dumps vs) = c # cs" "c \<noteq> CHR '']''"
      using assms dumps_first [of "hd vs"] by (cases vs; cases "tl vs") auto
    have "skip_ws (join_with '', '' (map dumps vs) @ CHR '']'' # rest) =
        join_with '', '' (map dumps vs) @ CHR '']'' # rest"
      using False assms by (intro skip_ws_joined) auto
    moreover have "scan_elements m (join_with '', '' (map dumps vs) @ CHR '']'' # rest) = Some (vs, rest)"
      using assms False len by (intro scan_elements_dumps) (auto simp: m)
    ultimately show ?thesis using c by (simp add: m Let_def)
  qed
qed

definition member_text :: "string \<times> json \<Rightarrow> string" where
  "member_text kv = dumps_string (fst kv) @ '': '' @ dumps (snd kv)"

lemma dumps_obj: "dumps (JObj kvs) = ''{'' @ join_with '', '' (map member_text kvs) @ ''}''"
proof -
  have "map (\<lambda>(k, v). dumps_string k @ '': '' @ dumps v) kvs = map member_text kvs"
    by (auto simp: member_text_def)
  then show ?thesis by (simp only: dumps.simps)
qed

lemma joined_members_first: "kvs \<noteq> [] \<Longrightarrow> \<exists>s. join_with '', '' (map member_text kvs) = CHR 0x22 # s"
  by (cases kvs; cases "tl kvs") (auto simp: member_text_def dumps_string_def)

lemma scan_members_dumps:
  assumes "\<forall>kv \<in> set kvs. json_ok (snd kv) \<and> reads_back (snd kv)" and "kvs \<noteq> []"
    and "length (join_with '', '' (map member_text kvs)) + 1 \<le> n"
  shows "scan_members n (join_with '', '' (map member_text kvs) @ CHR ''}'' # rest) = Some (kvs, rest)"
  using assms
proof (induction kvs arbitrary: n)
  case (Cons kv kvs)
  obtain m where m: "n = Suc m" using Cons.prems(3) by (cases n) auto
  obtain k v where kv: "kv = (k, v)" by fastforce
  have v: "json_ok v" "reads_back v" using Cons.prems(1) kv by auto
  have mt: "member_text (k, v) @ s =
      CHR 0x22 # concat (map escape_char k) @ CHR 0x22 # CHR '':'' # CHR '' '' # dumps v @ s" for s
    by (simp add: member_text_def dumps_string_def)
  have len: "length (dumps v) \<le> m"
    using Cons.prems(3) by (cases kvs) (auto simp: m member_text_def kv)
  show ?case
  proof (cases kvs)
    case Nil
    have "scan_value m (dumps v @ CHR ''}'' # rest) = Some (v, CHR ''}'' # rest)"
      using v len by (simp add: reads_back_def)
    then show ?thesis using Nil v by (simp add: m mt scan_dumps_string skip_ws_dumps kv)
  next
    case (Cons w ws)
    let ?tail = "join_with '', '' (map member_text kvs) @ CHR ''}'' # rest"
    have tail: "scan_members m ?tail = Some (kvs, rest)"
      using Cons.prems Cons by (intro Cons.IH) (auto simp: m)
    have "scan_value m (dumps v @ CHR '','' # CHR '' '' # ?tail) = Some (v, CHR '','' # CHR '' '' # ?tail)"
      using v len by (simp add: reads_back_def)
    moreover have "skip_ws ?tail = ?tail"
      using joined_members_first [of kvs] Cons by auto
    moreover have "join_with '', '' (map member_text (kv # kvs)) @ CHR ''}'' # rest =
        member_text kv @ CHR '','' # CHR '' '' # ?tail"
      using Cons by simp
    ultimately show ?thesis
      using tail v by (simp add: m mt scan_dumps_string skip_ws_dumps kv)
  qed
qed simp

lemma update_new: "k \<notin> fst ` set d \<Longrightarrow> AList.update k v d = d @ [(k, v)]"
  by (induction d) auto

lemma dict_of_pairs_distinct: "distinct (map fst kvs) \<Longrightarrow> dict_of_pairs kvs = kvs"
proof -
  have "distinct (map fst (d @ kvs)) \<Longrightarrow> foldl (\<lambda>d (k, v). AList.update k v d) d kvs = d @ kvs" for d
    by (induction kvs arbitrary: d) (auto simp: update_new)
  from this [of "[]"] show "distinct (map fst kvs) \<Longrightarrow> dict_of_pairs kvs = kvs"
    by (simp add: dict_of_pairs_def)
qed

lemma reads_back_obj:
  assumes "distinct (map fst kvs)" and "\<forall>kv \<in> set kvs. json_ok (snd kv) \<and> reads_back (snd kv)"
  shows "reads_back (JObj kvs)"
  unfolding reads_back_def
proof (intro allI impI)
  fix n rest
  assume len: "length (dumps (JObj kvs)) \<le> n"
  then obtain m where m: "n = Suc m" by (cases n) auto
  show "scan_value n (dumps (JObj kvs) @ rest) = Some (JObj kvs, rest)"
  proof (cases "kvs = []")
    case True
    then show ?thesis by (simp add: m)
  next
    case False
    then obtain s where s: "join_with '', '' (map member_text kvs) = CHR 0x22 # s"
      using joined_members_first by blast
    have "scan_members m (join_with '', '' (map member_text kvs) @ CHR ''}'' # rest) = Some (kvs, rest)"
      using assms(2) False len unfolding dumps_obj by (intro scan_members_dumps) (auto simp: m)
    then show ?thesis
      using s dict_of_pairs_distinct [OF assms(1)] unfolding dumps_obj by (simp add: m Let_def)
  qed
qed

lemma json_reads_back: "json_ok v \<Longrightarrow> reads_back v"
proof (induction v)
  case (JInt i)
  then show ?case
    using scan_value_show_int [of i] show_int_first [of i] unfolding reads_back_def by fastforce
next
  case (JStr s)
  have "scan_value n (dumps (JStr s) @ rest) = Some (JStr s, rest)" if "length (dumps (JStr s)) \<le> n" for n rest
    using that by (cases n) (simp_all add: dumps_string_def scan_dumps_string)
  then show ?case by (simp add: reads_back_def)
next
  case (JArr vs)
  then show ?case by (intro reads_back_arr) auto
next
  case (JObj kvs)
  then show ?case by (intro reads_back_obj) (auto simp: prod_set_simps)
qed (auto simp: reads_back_def scan_literal_def startswith_def gr0_conv_Suc dest!: Suc_le_D)

lemma loads_dumps_lemma:
  assumes "json_ok v"
  shows "loads (dumps v) = Some v"
proof -
  have "scan_value (Suc (length (dumps v))) (dumps v @ []) = Some (v, [])"
    using json_reads_back [OF assms] unfolding reads_back_def by (metis delim_simps(1) le_SucI order_refl)
  moreover have "skip_ws (dumps v) = dumps v" using skip_ws_dumps [OF assms, of "[]"] by simp
  ultimately show ?thesis by (simp add: loads_def skip_ws_def)
qed

end
