(* ===== verification/Coordinator.thy ===== *)
theory Coordinator
  imports Redis_Server Json
begin

text \<open>
  \<open>ChatGenerationCoordinator\<close> of \<open>services/chat_generation_coordinator.py\<close>: the keys, locks, markers and
  event streams through which the worker processes of the chat generation talk to each other.  Each
  operation takes the Redis client it obtains (\<open>None\<close> without Redis), the fate of each of its requests
  and the server state.  A fresh \<open>uuid4\<close> is an argument.  Exceptions that an operation lets through are
  \<open>Inl\<close> results.
\<close>

record coord_config =
  cc_job_retention_seconds :: int
  cc_active_job_lock_ttl_seconds :: int
  cc_stream_idle_timeout :: ticks
  cc_sse_heartbeat :: ticks
  cc_remote_cancel_timeout :: ticks

section \<open>Keys\<close>

definition active_lock_key :: "string \<Rightarrow> string" where
  "active_lock_key job_key = ''chat_generation:active:'' @ job_key"

definition cancel_request_key :: "string \<Rightarrow> string" where
  "cancel_request_key job_key = ''chat_generation:cancel:'' @ job_key"

definition latest_generation_key :: "string \<Rightarrow> string" where
  "latest_generation_key job_key = ''chat_generation:latest:'' @ job_key"

definition generation_reservation_key :: "string \<Rightarrow> string \<Rightarrow> string" where
  "generation_reservation_key job_key generation_id =
     ''chat_generation:generation:'' @ job_key @ '':'' @ generation_id"

definition event_stream_key :: "string \<Rightarrow> string \<Rightarrow> string" where
  "event_stream_key job_key generation_id =
     ''chat_generation:events:'' @ job_key @ '':'' @ generation_id"

definition event_channel_name :: "string \<Rightarrow> string \<Rightarrow> string" where
  "event_channel_name job_key generation_id =
     ''chat_generation:events:channel:'' @ job_key @ '':'' @ generation_id"

definition generation_retention_ttl_seconds :: "coord_config \<Rightarrow> int" where
  "generation_retention_ttl_seconds cfg = max (cc_job_retention_seconds cfg) 1"

section \<open>Generation ids\<close>

definition reserve_generation_id ::
  "coord_config \<Rightarrow> 's redis_cmds option \<Rightarrow> fault \<Rightarrow> string \<Rightarrow> string
     \<Rightarrow> 's \<Rightarrow> (redis_exn + bool option) \<times> 's" where
  "reserve_generation_id cfg client f job_key generation_id =
     (case client of
        None \<Rightarrow> rret None
      | Some R \<Rightarrow>
          rbind (redis_call f (rc_set R (generation_reservation_key job_key generation_id) ''1''
                   (Some (generation_retention_ttl_seconds cfg)) True))
            (\<lambda>b. rret (Some b)))"

definition release_generation_id ::
  "'s redis_cmds option \<Rightarrow> fault \<Rightarrow> string \<Rightarrow> string \<Rightarrow> 's \<Rightarrow> unit \<times> 's" where
  "release_generation_id client f job_key generation_id =
     (case client of
        None \<Rightarrow> Pair ()
      | Some R \<Rightarrow> rtry (redis_call f (rc_del R (generation_reservation_key job_key generation_id)))
                    (\<lambda>_. Pair ()))"

definition set_latest_generation_id ::
  "coord_config \<Rightarrow> 's redis_cmds option \<Rightarrow> fault \<Rightarrow> string \<Rightarrow> string \<Rightarrow> 's \<Rightarrow> bool \<times> 's" where
  "set_latest_generation_id cfg client f job_key generation_id =
     (case client of
        None \<Rightarrow> Pair True
      | Some R \<Rightarrow>
          rtry (redis_call f (rc_set R (latest_generation_key job_key) generation_id
                  (Some (generation_retention_ttl_seconds cfg)) False))
            (\<lambda>r. Pair (case r of Inl _ \<Rightarrow> False | Inr _ \<Rightarrow> True)))"

definition restore_script ::
  "'s redis_cmds \<Rightarrow> string \<Rightarrow> string \<Rightarrow> string \<Rightarrow> int \<Rightarrow> ('s, bool) rcmd" where
  "restore_script R key failed previous ttl =
     rbind (rc_get R key) (\<lambda>cur.
       if cur \<noteq> Some failed then rret False
       else if previous = [] then rc_del R key
       else rbind (rc_set R key previous (Some ttl) False) (\<lambda>_. rret True))"

definition restore_latest_generation_id ::
  "coord_config \<Rightarrow> 's redis_cmds option \<Rightarrow> fault \<Rightarrow> string \<Rightarrow> string \<Rightarrow> string option
     \<Rightarrow> 's \<Rightarrow> bool \<times> 's" where
  "restore_latest_generation_id cfg client f job_key failed_generation_id previous_generation_id =
     (case client of
        None \<Rightarrow> Pair False
      | Some R \<Rightarrow>
          rtry (redis_call f (restore_script R (latest_generation_key job_key) failed_generation_id
                  (case previous_generation_id of None \<Rightarrow> [] | Some g \<Rightarrow> g)
                  (generation_retention_ttl_seconds cfg)))
            (\<lambda>r. Pair (case r of Inl _ \<Rightarrow> False | Inr b \<Rightarrow> b)))"

definition refresh_latest_generation_id ::
  "coord_config \<Rightarrow> 's redis_cmds option \<Rightarrow> fault \<times> fault \<times> fault \<Rightarrow> string \<Rightarrow> string
     \<Rightarrow> 's \<Rightarrow> bool \<times> 's" where
  "refresh_latest_generation_id cfg client fs job_key generation_id =
     (case client of
        None \<Rightarrow> Pair False
      | Some R \<Rightarrow>
          rtry
            (rbind (redis_call (fst fs) (rc_expire R (generation_reservation_key job_key generation_id)
                      (generation_retention_ttl_seconds cfg))) (\<lambda>_.
             rbind (redis_call (fst (snd fs)) (rc_get R (latest_generation_key job_key))) (\<lambda>latest.
               if latest \<noteq> Some generation_id then rret False
               else redis_call (snd (snd fs)) (rc_expire R (latest_generation_key job_key)
                      (generation_retention_ttl_seconds cfg)))))
            (\<lambda>r. Pair (case r of Inl _ \<Rightarrow> False | Inr b \<Rightarrow> b)))"

definition get_latest_generation_id ::
  "'s redis_cmds option \<Rightarrow> fault \<Rightarrow> string \<Rightarrow> 's \<Rightarrow> (redis_exn + string option) \<times> 's" where
  "get_latest_generation_id client f job_key =
     (case client of
        None \<Rightarrow> rret None
      | Some R \<Rightarrow> redis_call f (rc_get R (latest_generation_key job_key)))"

section \<open>Events\<close>

record chat_event =
  ev_sequence_id :: int
  ev_event :: string
  ev_payload :: "(string \<times> json) list"

definition TERMINAL_EVENTS :: "string list" where
  "TERMINAL_EVENTS = [''done'', ''error'', ''aborted'', ''incomplete'']"

definition terminal :: "chat_event \<Rightarrow> bool" where
  "terminal e \<longleftrightarrow> ev_event e \<in> set TERMINAL_EVENTS"

definition serialize_event :: "chat_event \<Rightarrow> string" where
  "serialize_event e =
     dumps (JObj [(''id'', JInt (ev_sequence_id e)), (''event'', JStr (ev_event e)),
                  (''payload'', JObj (ev_payload e))])"

text \<open>\<open>isinstance(x, int)\<close> also holds of the two Booleans, which count as 1 and 0.\<close>

fun as_int :: "json \<Rightarrow> int option" where
  "as_int (JInt i) = Some i"
| "as_int (JBool b) = Some (if b then 1 else 0)"
| "as_int _ = None"

definition deserialize_event :: "string \<Rightarrow> chat_event option" where
  "deserialize_event raw =
     (case loads raw of
        Some (JObj kvs) \<Rightarrow>
          (case as_int (json_get ''id'' (JObj kvs)) of
             None \<Rightarrow> None
           | Some sequence_id \<Rightarrow>
               if sequence_id \<le> 0 then None
               else
                 (case json_get ''event'' (JObj kvs) of
                    JStr event_name \<Rightarrow>
                      if event_name = [] then None
                      else
                        Some \<lparr>ev_sequence_id = sequence_id, ev_event = event_name,
                              ev_payload =
                                (case json_get ''payload'' (JObj kvs) of JObj p \<Rightarrow> p | _ \<Rightarrow> [])\<rparr>
                  | _ \<Rightarrow> None))
      | _ \<Rightarrow> None)"

text \<open>A \<open>MULTI\<close>/\<open>EXEC\<close> pipeline runs all its commands; the first error is raised at the end.\<close>

fun exec_pipeline :: "('s, unit) rcmd list \<Rightarrow> ('s, unit) rcmd" where
  "exec_pipeline [] s = (Inr (), s)"
| "exec_pipeline (c # cs) s =
     (let (r, s') = c s; (r', s'') = exec_pipeline cs s'
      in (case r of Inl e \<Rightarrow> Inl e | Inr _ \<Rightarrow> r', s''))"

abbreviation forget :: "('s, 'a) rcmd \<Rightarrow> ('s, unit) rcmd" where
  "forget m \<equiv> rbind m (\<lambda>_. rret ())"

definition publish_event ::
  "coord_config \<Rightarrow> 's redis_cmds option \<Rightarrow> fault \<times> fault \<Rightarrow> string \<Rightarrow> string \<Rightarrow> chat_event
     \<Rightarrow> 's \<Rightarrow> unit \<times> 's" where
  "publish_event cfg client fs job_key generation_id event =
     (case client of
        None \<Rightarrow> Pair ()
      | Some R \<Rightarrow>
          (let serialized = serialize_event event;
               stream_key = event_stream_key job_key generation_id;
               channel = event_channel_name job_key generation_id;
               ttl_seconds = generation_retention_ttl_seconds cfg
           in rtry
                (rbind (redis_call (fst fs) (rc_get R (latest_generation_key job_key))) (\<lambda>latest.
                   redis_call (snd fs) (exec_pipeline
                     ([forget (rc_rpush R stream_key serialized),
                       forget (rc_expire R stream_key ttl_seconds),
                       forget (rc_expire R (generation_reservation_key job_key generation_id) ttl_seconds)]
                      @ (if latest = Some generation_id
                         then [forget (rc_expire R (latest_generation_key job_key) ttl_seconds)] else [])
                      @ [rc_publish R channel serialized]))))
                (\<lambda>_. Pair ())))"

definition read_after :: "int \<Rightarrow> string list \<Rightarrow> chat_event list" where
  "read_after after_sequence_id raw_items =
     filter (\<lambda>e. after_sequence_id < ev_sequence_id e) (List.map_filter deserialize_event raw_items)"

definition read_events ::
  "'s redis_cmds option \<Rightarrow> fault \<Rightarrow> string \<Rightarrow> string \<Rightarrow> int \<Rightarrow> 's \<Rightarrow> chat_event list \<times> 's" where
  "read_events client f job_key generation_id after_sequence_id =
     (case client of
        None \<Rightarrow> Pair []
      | Some R \<Rightarrow>
          rtry (redis_call f (rc_lrange R (event_stream_key job_key generation_id)))
            (\<lambda>r. Pair (case r of Inl _ \<Rightarrow> [] | Inr raw_items \<Rightarrow> read_after after_sequence_id raw_items)))"

definition has_replay_history ::
  "'s redis_cmds option \<Rightarrow> fault \<Rightarrow> string \<Rightarrow> string \<Rightarrow> 's \<Rightarrow> (redis_exn + bool) \<times> 's" where
  "has_replay_history client f job_key generation_id =
     (case client of
        None \<Rightarrow> rret False
      | Some R \<Rightarrow> redis_call f (rc_exists R (event_stream_key job_key generation_id)))"

section \<open>The active-job lock\<close>

definition try_acquire_active_job_lock ::
  "coord_config \<Rightarrow> 's redis_cmds option \<Rightarrow> fault \<Rightarrow> string \<Rightarrow> string
     \<Rightarrow> 's \<Rightarrow> (bool \<times> string option) \<times> 's" where
  "try_acquire_active_job_lock cfg client f job_key lock_token =
     (case client of
        None \<Rightarrow> Pair (True, None)
      | Some R \<Rightarrow>
          rtry (redis_call f (rc_set R (active_lock_key job_key) lock_token
                  (Some (cc_active_job_lock_ttl_seconds cfg)) True))
            (\<lambda>r. Pair (case r of Inr True \<Rightarrow> (True, Some lock_token) | _ \<Rightarrow> (False, None))))"

definition release_script :: "'s redis_cmds \<Rightarrow> string \<Rightarrow> string \<Rightarrow> ('s, bool) rcmd" where
  "release_script R key token =
     rbind (rc_get R key) (\<lambda>cur. if cur = Some token then rc_del R key else rret False)"

definition release_active_job_lock ::
  "'s redis_cmds option \<Rightarrow> fault \<Rightarrow> string \<Rightarrow> string option \<Rightarrow> 's \<Rightarrow> unit \<times> 's" where
  "release_active_job_lock client f job_key lock_token =
     (if lock_token = None \<or> lock_token = Some [] then Pair ()
      else case client of
        None \<Rightarrow> Pair ()
      | Some R \<Rightarrow> rtry (redis_call f (release_script R (active_lock_key job_key) (the lock_token)))
                    (\<lambda>_. Pair ()))"

definition refresh_script :: "'s redis_cmds \<Rightarrow> string \<Rightarrow> string \<Rightarrow> int \<Rightarrow> ('s, bool) rcmd" where
  "refresh_script R key token ttl =
     rbind (rc_get R key) (\<lambda>cur. if cur = Some token then rc_expire R key ttl else rret False)"

definition refresh_active_job_lock ::
  "coord_config \<Rightarrow> 's redis_cmds option \<Rightarrow> fault \<Rightarrow> string \<Rightarrow> string option \<Rightarrow> 's \<Rightarrow> bool \<times> 's" where
  "refresh_active_job_lock cfg client f job_key lock_token =
     (if lock_token = None \<or> lock_token = Some [] then Pair False
      else case client of
        None \<Rightarrow> Pair False
      | Some R \<Rightarrow>
          rtry (redis_call f (refresh_script R (active_lock_key job_key) (the lock_token)
                  (cc_active_job_lock_ttl_seconds cfg)))
            (\<lambda>r. Pair (case r of Inl _ \<Rightarrow> False | Inr b \<Rightarrow> b)))"

definition has_active_lock :: "'s redis_cmds option \<Rightarrow> fault \<Rightarrow> string \<Rightarrow> 's \<Rightarrow> bool \<times> 's" where
  "has_active_lock client f job_key =
     (case client of
        None \<Rightarrow> Pair False
      | Some R \<Rightarrow> rtry (redis_call f (rc_exists R (active_lock_key job_key)))
                    (\<lambda>r. Pair (case r of Inl _ \<Rightarrow> False | Inr b \<Rightarrow> b)))"

definition force_release_active_job_lock :: "'s redis_cmds option \<Rightarrow> fault \<Rightarrow> string \<Rightarrow> 's \<Rightarrow> unit \<times> 's" where
  "force_release_active_job_lock client f job_key =
     (case client of
        None \<Rightarrow> Pair ()
      | Some R \<Rightarrow> rtry (redis_call f (rc_del R (active_lock_key job_key))) (\<lambda>_. Pair ()))"

section \<open>Stop requests\<close>

definition is_remote_cancel_requested :: "'s redis_cmds option \<Rightarrow> fault \<Rightarrow> string \<Rightarrow> 's \<Rightarrow> bool \<times> 's" where
  "is_remote_cancel_requested client f job_key =
     (case client of
        None \<Rightarrow> Pair False
      | Some R \<Rightarrow> rtry (redis_call f (rc_exists R (cancel_request_key job_key)))
                    (\<lambda>r. Pair (case r of Inl _ \<Rightarrow> False | Inr b \<Rightarrow> b)))"

definition clear_remote_cancel_request :: "'s redis_cmds option \<Rightarrow> fault \<Rightarrow> string \<Rightarrow> 's \<Rightarrow> unit \<times> 's" where
  "clear_remote_cancel_request client f job_key =
     (case client of
        None \<Rightarrow> Pair ()
      | Some R \<Rightarrow> rtry (redis_call f (rc_del R (cancel_request_key job_key))) (\<lambda>_. Pair ()))"

text \<open>
  The polling loop of \<open>request_remote_cancel\<close>.  A round is the fate of the existence check, the clock
  reading after it, and what the other workers and the server's clock do to the server during the
  sleep.  \<open>None\<close>: the rounds given are used up and the loop is still waiting.
\<close>

type_synonym 's poll_round = "fault \<times> ticks \<times> ('s \<Rightarrow> 's)"

fun poll_lock ::
  "'s redis_cmds \<Rightarrow> string \<Rightarrow> ticks \<Rightarrow> 's poll_round list \<Rightarrow> 's \<Rightarrow> bool option \<times> 's" where
  "poll_lock R job_key deadline [] s = (None, s)"
| "poll_lock R job_key deadline ((f, now, sleep) # rounds) s =
     (let (held, s) = has_active_lock (Some R) f job_key s
      in if \<not> held then (Some True, s)
         else if deadline \<le> now then (Some False, s)
         else poll_lock R job_key deadline rounds (sleep s))"

record 's cancel_request =
  cr_check :: fault
  cr_mark :: fault
  cr_broadcast :: fault
  cr_start :: ticks
  cr_rounds :: "'s poll_round list"
  cr_force :: fault

definition request_remote_cancel ::
  "coord_config \<Rightarrow> 's redis_cmds option \<Rightarrow> 's cancel_request \<Rightarrow> string \<Rightarrow> 's \<Rightarrow> bool option \<times> 's" where
  "request_remote_cancel cfg client c job_key s =
     (case client of
        None \<Rightarrow> (Some False, s)
      | Some R \<Rightarrow>
          (let (held, s) = has_active_lock client (cr_check c) job_key s
           in if \<not> held then (Some False, s)
              else
                (let (_, s) =
                       redis_call (cr_mark c)
                         (rc_set R (cancel_request_key job_key) ''1'' (Some 60) False) s;
                     (r, s) = redis_call (cr_broadcast c) (rc_publish R ''chat_generation:cancel:channel'' job_key) s
                 in case r of
                      Inl _ \<Rightarrow> (Some False, s)
                    | Inr _ \<Rightarrow>
                        (let (stopped, s) =
                               poll_lock R job_key (cr_start c + cc_remote_cancel_timeout cfg) (cr_rounds c) s
                         in case stopped of
                              None \<Rightarrow> (None, s)
                            | Some True \<Rightarrow> (Some True, s)
                            | Some False \<Rightarrow>
                                (let (_, s) = force_release_active_job_lock client (cr_force c) job_key s
                                 in (Some True, s))))))"

section \<open>Following another worker's stream\<close>

text \<open>
  \<open>iter_distributed_events\<close> reads the event list, subscribes, reads the list again, and then follows the
  channel.  What it observes is its input: the two list readings, whether the generation was active in
  between, the clock when it subscribes (\<open>start\<close>) and when the second reading yielded its last event
  (\<open>again\<close>; each event yielded sets the idle deadline anew), and one \<open>stream_tick\<close> per turn of the loop
  (the message, if any; the clock; whether the generation is active and what the list holds then).  The output
  is the yielded values, \<open>None\<close> being a heartbeat, and how the iteration ended.
\<close>

record stream_tick =
  tk_message :: "string option option"
  tk_now :: ticks
  tk_active :: bool
  tk_items :: "string list"

datatype stream_end = StreamReturned | StreamTimedOut | StreamWaiting

definition last_cursor :: "int \<Rightarrow> chat_event list \<Rightarrow> int" where
  "last_cursor cursor es = foldl (\<lambda>c e. max c (ev_sequence_id e)) cursor es"

fun upto_terminal :: "chat_event list \<Rightarrow> chat_event list" where
  "upto_terminal [] = []"
| "upto_terminal (e # es) = (if terminal e then [e] else e # upto_terminal es)"

fun stream_loop ::
  "coord_config \<Rightarrow> int \<Rightarrow> ticks \<Rightarrow> ticks \<Rightarrow> stream_tick list \<Rightarrow> chat_event option list \<times> stream_end" where
  "stream_loop cfg cursor idle_deadline next_heartbeat [] = ([], StreamWaiting)"
| "stream_loop cfg cursor idle_deadline next_heartbeat (t # ts) =
     (let now = tk_now t
      in case tk_message t of
           Some raw_data \<Rightarrow>
             (case Option.bind raw_data deserialize_event of
                None \<Rightarrow> stream_loop cfg cursor idle_deadline next_heartbeat ts
              | Some e \<Rightarrow>
                  if ev_sequence_id e \<le> cursor
                  then stream_loop cfg cursor idle_deadline next_heartbeat ts
                  else if terminal e then ([Some e], StreamReturned)
                  else
                    apfst ((#) (Some e))
                      (stream_loop cfg (ev_sequence_id e) (now + cc_stream_idle_timeout cfg)
                         (now + cc_sse_heartbeat cfg) ts))
         | None \<Rightarrow>
             (let beat = cc_sse_heartbeat cfg \<noteq> 0 \<and> next_heartbeat \<le> now;
                  next_heartbeat = (if beat then now + cc_sse_heartbeat cfg else next_heartbeat)
              in apfst ((@) (if beat then [None] else []))
                   (if \<not> tk_active t then
                      (let new = read_after cursor (tk_items t)
                       in if list_ex terminal new then (map Some (upto_terminal new), StreamReturned)
                          else if new = [] then ([], StreamReturned)
                          else apfst ((@) (map Some new))
                                 (stream_loop cfg (last_cursor cursor new)
                                    (now + cc_stream_idle_timeout cfg) next_heartbeat ts))
                    else if idle_deadline \<le> now then ([], StreamTimedOut)
                    else stream_loop cfg cursor idle_deadline next_heartbeat ts)))"

definition iter_distributed_events ::
  "coord_config \<Rightarrow> bool \<Rightarrow> int \<Rightarrow> string list \<Rightarrow> bool \<Rightarrow> ticks \<Rightarrow> string list \<Rightarrow> ticks \<Rightarrow> stream_tick list
     \<Rightarrow> chat_event option list \<times> stream_end" where
  "iter_distributed_events cfg connected after_sequence_id items1 active start items2 again ts =
     (let cursor = max after_sequence_id 0;
          new1 = read_after cursor items1
      in if \<not> connected then ([], StreamReturned)
         else apfst ((@) (map Some new1))
           (if list_ex terminal new1 \<or> \<not> active then ([], StreamReturned)
            else
              (let cursor = last_cursor cursor new1;
                   new2 = read_after cursor items2;
                   idle_deadline = (if new2 = [] then start else again) + cc_stream_idle_timeout cfg
               in apfst ((@) (map Some new2))
                    (if list_ex terminal new2 then ([], StreamReturned)
                     else stream_loop cfg (last_cursor cursor new2) idle_deadline
                            (start + cc_sse_heartbeat cfg) ts))))"

section \<open>Events survive the wire\<close>

definition event_ok :: "chat_event \<Rightarrow> bool" where
  "event_ok e \<longleftrightarrow>
     0 < ev_sequence_id e \<and> length (show_int (ev_sequence_id e)) \<le> 4300 \<and> ev_event e \<noteq> [] \<and>
     json_ok (JObj (ev_payload e))"

lemma deserialize_serialize: "event_ok e \<Longrightarrow> deserialize_event (serialize_event e) = Some e"
proof -
  assume "event_ok e"
  then have "loads (serialize_event e) =
      Some (JObj [(''id'', JInt (ev_sequence_id e)), (''event'', JStr (ev_event e)),
                  (''payload'', JObj (ev_payload e))])"
    unfolding serialize_event_def by (intro loads_dumps_lemma) (simp add: event_ok_def)
  with \<open>event_ok e\<close> show ?thesis by (simp add: deserialize_event_def event_ok_def)
qed

lemma map_filter_serialize:
  "list_all event_ok es \<Longrightarrow> List.map_filter deserialize_event (map serialize_event es) = es"
  by (induction es) (auto simp: map_filter_simps deserialize_serialize)

section \<open>A producer's log and what a follower sees of it\<close>

text \<open>
  A generation numbers its events from 1 without gaps, and a terminal event is its last one.
\<close>

definition log_ok :: "chat_event list \<Rightarrow> bool" where
  "log_ok evs \<longleftrightarrow>
     list_all (\<lambda>i. ev_sequence_id (evs ! i) = int i + 1 \<and> event_ok (evs ! i) \<and>
                   (terminal (evs ! i) \<longrightarrow> Suc i = length evs)) [0..<length evs]"

text \<open>
  The turns of the loop are fed by the log: messages arrive in the order of publication from index \<open>j\<close>
  on, and when the generation is found inactive the list holds a prefix of the log, all of it when
  \<open>complete\<close> (the worker writes its events before it gives up its lock).
\<close>

fun feed :: "chat_event list \<Rightarrow> bool \<Rightarrow> nat \<Rightarrow> stream_tick list \<Rightarrow> bool" where
  "feed evs complete j [] = True"
| "feed evs complete j (t # ts) =
     (case tk_message t of
        Some raw \<Rightarrow>
          j < length evs \<and> raw = Some (serialize_event (evs ! j)) \<and> feed evs complete (Suc j) ts
      | None \<Rightarrow>
          (tk_active t \<or>
             list_ex (\<lambda>c. tk_items t = map serialize_event (take c evs))
               [if complete then length evs else 0..<Suc (length evs)]) \<and>
          feed evs complete j ts)"

definition yielded :: "chat_event option list \<Rightarrow> chat_event list" where
  "yielded ys = List.map_filter (\<lambda>y. y) ys"

lemma yielded_simps [simp]:
  "yielded [] = []" "yielded (Some e # ys) = e # yielded ys" "yielded (None # ys) = yielded ys"
  "yielded (map Some es) = es" "yielded (xs @ ys) = yielded xs @ yielded ys"
  by (simp_all add: yielded_def map_filter_def comp_def)

lemma log_nth:
  assumes "log_ok evs" and "i < length evs"
  shows "ev_sequence_id (evs ! i) = int i + 1" "event_ok (evs ! i)"
    "terminal (evs ! i) \<Longrightarrow> Suc i = length evs"
  using assms by (auto simp: log_ok_def list_all_iff)

lemma log_take_ok: "log_ok evs \<Longrightarrow> list_all event_ok (take c evs)"
  by (auto simp: list_all_length log_nth)

lemma filter_take_seq:
  assumes "\<And>i. i < length es \<Longrightarrow> ev_sequence_id (es ! i) = int (b + i) + 1"
  shows "filter (\<lambda>e. int k < ev_sequence_id e) es = drop (k - b) es"
  using assms
proof (induction es arbitrary: b)
  case (Cons e es)
  have e: "ev_sequence_id e = int b + 1" using Cons.prems [of 0] by simp
  have "filter (\<lambda>e. int k < ev_sequence_id e) es = drop (k - Suc b) es"
    by (rule Cons.IH) (use Cons.prems [of "Suc i" for i] in simp)
  moreover have "k - b = Suc (k - Suc b)" if "b < k" using that by simp
  ultimately show ?case using e by (cases "b < k") auto
qed simp

lemma read_after_log:
  assumes "log_ok evs"
  shows "read_after (int k) (map serialize_event (take c evs)) = drop k (take c evs)"
  unfolding read_after_def map_filter_serialize [OF log_take_ok [OF assms]]
  using filter_take_seq [of "take c evs" 0 k] log_nth [OF assms] by simp

lemma last_cursor_seq:
  assumes "\<And>i. i < length es \<Longrightarrow> ev_sequence_id (es ! i) = int (k + i) + 1"
  shows "last_cursor (int k) es = int (k + length es)"
  using assms
proof (induction es arbitrary: k)
  case (Cons e es)
  have e: "ev_sequence_id e = int (Suc k)" using Cons.prems [of 0] by simp
  have "last_cursor (int (Suc k)) es = int (Suc k + length es)"
    by (rule Cons.IH) (use Cons.prems [of "Suc i" for i] in simp)
  then show ?case by (simp add: last_cursor_def e)
qed (simp add: last_cursor_def)

lemma nth_drop_take:
  "i < length (drop k (take c evs)) \<Longrightarrow> k + i < length evs \<and> k + i < c \<and> drop k (take c evs) ! i = evs ! (k + i)"
  by (auto simp: less_diff_conv)

lemma last_cursor_log:
  assumes "log_ok evs"
  shows "last_cursor (int k) (drop k (take c evs)) = int (max k (min c (length evs)))"
proof -
  have "last_cursor (int k) (drop k (take c evs)) = int (k + length (drop k (take c evs)))"
    by (rule last_cursor_seq) (use log_nth(1) [OF assms] nth_drop_take [of _ k c evs] in fastforce)
  then show ?thesis by (auto simp: max_def min_def)
qed

lemma terminal_in_take:
  assumes "log_ok evs" and "list_ex terminal (drop k (take c evs))"
  shows "drop k (take c evs) = drop k evs \<and> upto_terminal (drop k evs) = drop k evs"
proof -
  obtain i where i: "i < length (drop k (take c evs))" "terminal (drop k (take c evs) ! i)"
    using assms(2) by (auto simp: list_ex_length)
  then have "terminal (evs ! (k + i))" "k + i < length evs" "k + i < c" using nth_drop_take [of i k c evs] by auto
  then have "Suc (k + i) = length evs" using log_nth(3) [OF assms(1)] by blast
  then have c: "length evs \<le> c" using \<open>k + i < c\<close> by simp
  have "upto_terminal es = es" if "\<And>i. i < length es \<Longrightarrow> terminal (es ! i) \<Longrightarrow> Suc i = length es" for es
    using that
  proof (induction es)
    case (Cons e es)
    have "upto_terminal es = es"
      by (rule Cons.IH) (use Cons.prems [of "Suc i" for i] in fastforce)
    then show ?case using Cons.prems [of 0] by auto
  qed simp
  moreover have "Suc i = length (drop k evs)" if "i < length (drop k evs)" "terminal (drop k evs ! i)" for i
    using log_nth(3) [OF assms(1), of "k + i"] that by (simp add: less_diff_conv add.commute)
  ultimately have "upto_terminal (drop k evs) = drop k evs" by blast
  with c show ?thesis by simp
qed

text \<open>What is still to be yielded from position \<open>k\<close> on: a prefix of the rest, all of it on a return.\<close>

definition follows :: "chat_event list \<Rightarrow> bool \<Rightarrow> nat \<Rightarrow> chat_event option list \<times> stream_end \<Rightarrow> bool" where
  "follows evs complete k out \<longleftrightarrow>
     (\<exists>m. yielded (fst out) = take m (drop k evs)) \<and>
     (complete \<longrightarrow> snd out = StreamReturned \<longrightarrow> yielded (fst out) = drop k evs)"

lemma follows_nothing: "r \<noteq> StreamReturned \<or> drop k evs = [] \<Longrightarrow> follows evs complete k ([], r)"
  by (auto simp: follows_def intro: exI [of _ 0])

lemma follows_idle_end: "(complete \<Longrightarrow> drop k evs = []) \<Longrightarrow> follows evs complete k ([], r)"
  by (auto simp: follows_def intro: exI [of _ 0])

lemma follows_heartbeat:
  "follows evs complete k out \<Longrightarrow> follows evs complete k (apfst ((@) (if b then [None] else [])) out)"
  by (auto simp: follows_def)

lemma follows_batch:
  assumes "follows evs complete c out" and "k \<le> c" and "c \<le> length evs"
  shows "follows evs complete k (apfst ((@) (map Some (drop k (take c evs)))) out)"
proof -
  have split: "drop k evs = drop k (take c evs) @ drop c evs"
    using assms(2,3) by (metis append_take_drop_id drop_append length_take min.absorb2 diff_is_0_eq drop_0)
  obtain m where m: "yielded (fst out) = take m (drop c evs)" using assms(1) by (auto simp: follows_def)
  have "drop k (take c evs) @ take m (drop c evs) =
      take (length (drop k (take c evs)) + m) (drop k evs)"
    unfolding split by simp
  then have "\<exists>m'. drop k (take c evs) @ yielded (fst out) = take m' (drop k evs)" using m by metis
  moreover have "complete \<longrightarrow> snd out = StreamReturned \<longrightarrow> drop k (take c evs) @ yielded (fst out) = drop k evs"
    using assms(1) split by (simp add: follows_def)
  ultimately show ?thesis by (simp add: follows_def)
qed

lemma follows_one:
  assumes "follows evs complete (Suc k) out" and "k < length evs"
  shows "follows evs complete k (apfst ((#) (Some (evs ! k))) out)"
proof -
  have "drop k (take (Suc k) evs) = [evs ! k]" using assms(2) by (simp add: take_Suc_conv_app_nth)
  moreover have "(@) [Some (evs ! k)] = (#) (Some (evs ! k))" by auto
  ultimately show ?thesis using follows_batch [OF assms(1), of k] assms(2) by simp
qed

lemma follows_all: "follows evs complete k (map Some (drop k evs), r)"
  by (auto simp: follows_def intro: exI [of _ "length evs"])

lemma follows_inactive:
  assumes "log_ok evs" and "c \<le> length evs" and "complete \<longrightarrow> length evs \<le> c" and "k \<le> length evs"
    and "\<And>i h. follows evs complete (max k c) (stream_loop cfg (int (max k c)) i h ts)"
    and "items = map serialize_event (take c evs)"
  shows "follows evs complete k
     (let new = read_after (int k) items
      in if list_ex terminal new then (map Some (upto_terminal new), StreamReturned)
         else if new = [] then ([], StreamReturned)
         else apfst ((@) (map Some new)) (stream_loop cfg (last_cursor (int k) new) i h ts))"
proof -
  have new: "read_after (int k) items = drop k (take c evs)"
    using read_after_log [OF assms(1)] assms(6) by simp
  have cur: "last_cursor (int k) (drop k (take c evs)) = int (max k c)"
    using last_cursor_log [OF assms(1)] assms(2) by (simp add: min_def)
  show ?thesis
  proof (cases "list_ex terminal (drop k (take c evs))")
    case True
    then show ?thesis
      using terminal_in_take [OF assms(1) True] by (simp add: new Let_def follows_all)
  next
    case nt: False
    show ?thesis
    proof (cases "k < c")
      case True
      then have "drop k (take c evs) \<noteq> []" using assms(2) by auto
      then show ?thesis
        using nt True follows_batch [OF _ _ assms(2), of complete] assms(5)
        by (simp add: new cur Let_def max_def)
    next
      case False
      then have "complete \<Longrightarrow> drop k evs = []" "drop k (take c evs) = []" using assms(3) by auto
      then show ?thesis using nt by (simp add: new Let_def follows_idle_end)
    qed
  qed
qed

lemma stream_loop_follows:
  assumes "log_ok evs" and "feed evs complete j ts" and "j \<le> k" and "k \<le> length evs"
  shows "follows evs complete k (stream_loop cfg (int k) idle hb ts)"
  using assms(2-4)
proof (induction ts arbitrary: j k idle hb)
  case Nil
  then show ?case by (simp add: follows_nothing)
next
  case (Cons t ts)
  show ?case
  proof (cases "tk_message t")
    case (Some raw)
    then have j: "j < length evs" "raw = Some (serialize_event (evs ! j))" "feed evs complete (Suc j) ts"
      using Cons.prems(1) by auto
    have ev: "deserialize_event (serialize_event (evs ! j)) = Some (evs ! j)"
      "ev_sequence_id (evs ! j) = int j + 1"
      using log_nth [OF assms(1) j(1)] by (auto simp: deserialize_serialize)
    show ?thesis
    proof (cases "j < k")
      case True
      then show ?thesis using Some j ev Cons.IH [OF j(3) _ Cons.prems(3)] by simp
    next
      case False
      then have jk: "j = k" using Cons.prems(2) by simp
      have d: "drop k evs = evs ! k # drop (Suc k) evs" using j(1) jk by (simp add: Cons_nth_drop_Suc)
      have ih: "follows evs complete (Suc k) (stream_loop cfg (int k + 1) i h ts)" for i h
        using Cons.IH [OF j(3), of "Suc k"] j jk by (simp add: add.commute)
      show ?thesis
      proof (cases "terminal (evs ! k)")
        case True
        then have "drop (Suc k) evs = []" using log_nth(3) [OF assms(1) j(1)] jk by simp
        then show ?thesis using Some j ev True d jk follows_all [of evs complete k StreamReturned] by simp
      next
        case False
        have "follows evs complete k (apfst ((#) (Some (evs ! k))) (stream_loop cfg (int k + 1) i h ts))" for i h
          using follows_one [OF ih] j(1) jk by simp
        then show ?thesis using False Some j ev jk by (simp add: Let_def)
      qed
    qed
  next
    case None
    have rest: "feed evs complete j ts" using Cons.prems(1) None by simp
    show ?thesis
    proof (cases "tk_active t")
      case True
      have "follows evs complete k
          (if idle \<le> tk_now t then ([], StreamTimedOut) else stream_loop cfg (int k) idle h ts)" for h
        using Cons.IH [OF rest Cons.prems(2,3)] by (simp add: follows_nothing)
      from follows_heartbeat [OF this] show ?thesis
        using None True by (simp only: stream_loop.simps Let_def option.case not_True_eq_False if_False)
    next
      case False
      then obtain c where c: "tk_items t = map serialize_event (take c evs)"
          "complete \<longrightarrow> length evs \<le> c" "c \<le> length evs"
        using Cons.prems(1) None by (auto simp: list_ex_iff split: if_splits)
      have "follows evs complete (max k c) (stream_loop cfg (int (max k c)) i h ts)" for i h
        by (rule Cons.IH [OF rest]) (use Cons.prems c in auto)
      from follows_heartbeat [OF follows_inactive [OF assms(1) c(3,2) Cons.prems(3) this c(1)]]
      show ?thesis using None False by (simp only: stream_loop.simps Let_def option.case not_False_eq_True if_True)
    qed
  qed
qed

text \<open>Following from the start: a prefix of the log, and all of it when the stream is returned normally.\<close>

lemma iter_follows:
  assumes "log_ok evs" and "a \<le> b" and "b \<le> length evs" and "k \<le> a" and "feed evs complete j ts" and "j \<le> b"
    and "complete \<longrightarrow> active \<or> a = length evs"
  shows "follows evs complete k
     (iter_distributed_events cfg True (int k) (map serialize_event (take a evs)) active start
        (map serialize_event (take b evs)) again ts)"
proof -
  have ka: "max k a = a" "max a b = b" "min a (length evs) = a" "min b (length evs) = b"
    using assms by auto
  have new1: "read_after (int k) (map serialize_event (take a evs)) = drop k (take a evs)"
    and new2: "read_after (int a) (map serialize_event (take b evs)) = drop a (take b evs)"
    using read_after_log [OF assms(1)] by auto
  have cur1: "last_cursor (int k) (drop k (take a evs)) = int a"
    and cur2: "last_cursor (int a) (drop a (take b evs)) = int b"
    using last_cursor_log [OF assms(1)] ka by auto
  have loop: "follows evs complete b (stream_loop cfg (int b) i h ts)" for i h
    by (rule stream_loop_follows [OF assms(1,5,6,3)])
  have end1: "follows evs complete a ([], StreamReturned)"
    if "list_ex terminal (drop k (take a evs)) \<or> \<not> active"
  proof (rule follows_idle_end)
    assume complete
    show "drop a evs = []"
    proof (cases "list_ex terminal (drop k (take a evs))")
      case True
      have "length (drop k (take a evs)) = length (drop k evs)"
        using terminal_in_take [OF assms(1) True] by simp
      then show ?thesis using assms by simp
    next
      case False
      then show ?thesis using that assms(7) \<open>complete\<close> by simp
    qed
  qed
  have end2: "follows evs complete b ([], StreamReturned)" if "list_ex terminal (drop a (take b evs))"
  proof -
    have "length (drop a (take b evs)) = length (drop a evs)"
      using terminal_in_take [OF assms(1) that] by simp
    then show ?thesis using assms by (intro follows_idle_end) auto
  qed
  have step2: "follows evs complete a
      (apfst ((@) (map Some (drop a (take b evs))))
         (if list_ex terminal (drop a (take b evs)) then ([], StreamReturned)
          else stream_loop cfg (int b) i h ts))" for i h
    using end2 loop assms(2,3) by (intro follows_batch) auto
  have "follows evs complete k
      (apfst ((@) (map Some (drop k (take a evs))))
         (if list_ex terminal (drop k (take a evs)) \<or> \<not> active then ([], StreamReturned)
          else apfst ((@) (map Some (drop a (take b evs))))
            (if list_ex terminal (drop a (take b evs)) then ([], StreamReturned)
             else stream_loop cfg (int b) i h ts)))" for i h
    using end1 step2 assms(2,3,4) by (intro follows_batch) auto
  moreover have "max (int k) 0 = int k" by simp
  ultimately show ?thesis
    by (simp only: iter_distributed_events_def Let_def new1 new2 cur1 cur2 not_True_eq_False if_False)
qed

section \<open>The lock among competing workers\<close>

text \<open>
  Workers compete for the lock of one job.  \<open>lw_held\<close> is what each worker believes to hold; tokens are
  never issued twice.  A worker acquires, renews and releases through the operations above, with any
  fate of the request; \<open>force\<close> is the release by a worker that gave up waiting; the clock may run.
  With \<open>timely\<close>, nobody forces the lock and the clock never runs past the expiry of a lock somebody
  believes to hold, which is what renewing in time achieves.
\<close>

record 's lock_world =
  lw_server :: 's
  lw_held :: "nat \<Rightarrow> string option"
  lw_issued :: "string set"

definition lock_outlives :: "ticks \<Rightarrow> string \<Rightarrow> keyspace \<Rightarrow> bool" where
  "lock_outlives d key s = (case ks_data s key of Some (_, Some r) \<Rightarrow> d < r | Some (_, None) \<Rightarrow> True | None \<Rightarrow> False)"

inductive lock_step ::
  "'s redis_cmds \<Rightarrow> ('s \<Rightarrow> keyspace) \<Rightarrow> (ticks \<Rightarrow> 's \<Rightarrow> 's) \<Rightarrow> coord_config \<Rightarrow> string \<Rightarrow> bool
     \<Rightarrow> 's lock_world \<Rightarrow> 's lock_world \<Rightarrow> bool"
  for R view elapse cfg job timely
where
  acquire:
    "lw_held w p = None \<Longrightarrow> tok \<notin> lw_issued w \<Longrightarrow> tok \<noteq> [] \<Longrightarrow>
     try_acquire_active_job_lock cfg (Some R) f job tok (lw_server w) = ((ok, got), s') \<Longrightarrow>
     lock_step R view elapse cfg job timely w
       (w\<lparr>lw_server := s', lw_issued := insert tok (lw_issued w),
          lw_held := (if ok then (lw_held w)(p := got) else lw_held w)\<rparr>)"
| renew:
    "lw_held w p = Some tok \<Longrightarrow>
     refresh_active_job_lock cfg (Some R) f job (Some tok) (lw_server w) = (ok, s') \<Longrightarrow>
     lock_step R view elapse cfg job timely w (w\<lparr>lw_server := s'\<rparr>)"
| release:
    "lw_held w p = Some tok \<Longrightarrow>
     release_active_job_lock (Some R) f job (Some tok) (lw_server w) = ((), s') \<Longrightarrow>
     lock_step R view elapse cfg job timely w
       (w\<lparr>lw_server := s', lw_held := (lw_held w)(p := None)\<rparr>)"
| force:
    "\<not> timely \<Longrightarrow>
     force_release_active_job_lock (Some R) f job (lw_server w) = ((), s') \<Longrightarrow>
     lock_step R view elapse cfg job timely w (w\<lparr>lw_server := s'\<rparr>)"
| tick:
    "0 \<le> d \<Longrightarrow>
     \<not> timely \<or> (\<forall>p. lw_held w p = None) \<or> lock_outlives d (active_lock_key job) (view (lw_server w)) \<Longrightarrow>
     lock_step R view elapse cfg job timely w (w\<lparr>lw_server := elapse d (lw_server w)\<rparr>)"

definition stored_token :: "string \<Rightarrow> keyspace \<Rightarrow> string option" where
  "stored_token job s =
     (case ks_data s (active_lock_key job) of Some (RString v, _) \<Rightarrow> Some v | _ \<Rightarrow> None)"

text \<open>What always holds: issued tokens cover everything in sight, and no two workers share a token.\<close>

definition lock_inv :: "('s \<Rightarrow> keyspace) \<Rightarrow> string \<Rightarrow> 's lock_world \<Rightarrow> bool" where
  "lock_inv view job w \<longleftrightarrow>
     (\<forall>p tok. lw_held w p = Some tok \<longrightarrow> tok \<in> lw_issued w) \<and>
     (\<forall>p q tok. lw_held w p = Some tok \<longrightarrow> lw_held w q = Some tok \<longrightarrow> p = q) \<and>
     (\<forall>tok. stored_token job (view (lw_server w)) = Some tok \<longrightarrow> tok \<in> lw_issued w)"

text \<open>What holds while everybody is in time: whoever believes to hold the lock holds it.\<close>

definition timely_inv :: "('s \<Rightarrow> keyspace) \<Rightarrow> string \<Rightarrow> 's lock_world \<Rightarrow> bool" where
  "timely_inv view job w \<longleftrightarrow>
     (\<forall>p tok. lw_held w p = Some tok \<longrightarrow> stored_token job (view (lw_server w)) = Some tok)"

text \<open>What each operation can do to the stored token, on the keyspace.\<close>

lemma ks_acquire:
  assumes "try_acquire_active_job_lock cfg (Some ks_cmds) f job tok s = ((ok, got), s')"
  shows "ks_data s (active_lock_key job) \<noteq> None \<longrightarrow> s' = s \<and> \<not> ok"
    and "stored_token job s' = stored_token job s \<or> stored_token job s' = Some tok"
    and "ok \<longrightarrow> got = Some tok \<and> stored_token job s' = Some tok"
  using assms
  by (cases f; auto simp: try_acquire_active_job_lock_def rtry_def stored_token_def
        split: if_splits bool.splits sum.splits)+

lemma ks_renew:
  assumes "refresh_active_job_lock cfg (Some ks_cmds) f job (Some tok) s = (ok, s')"
  shows "stored_token job s' = stored_token job s \<or> stored_token job s' = None"
    and "0 < cc_active_job_lock_ttl_seconds cfg \<Longrightarrow> stored_token job s' = stored_token job s"
  using assms
  by (cases f; auto simp: refresh_active_job_lock_def refresh_script_def rtry_def rbind_def rret_def
        stored_token_def split: if_splits option.splits prod.splits rval.splits)+

lemma ks_renew_foreign:
  assumes "stored_token job s = Some owner" and "tok \<noteq> owner"
  shows "snd (refresh_active_job_lock cfg (Some ks_cmds) f job (Some tok) s) = s"
  using assms
  by (cases f; auto simp: refresh_active_job_lock_def refresh_script_def rtry_def rbind_def rret_def
        stored_token_def split: option.splits prod.splits rval.splits)

lemma ks_release:
  assumes "release_active_job_lock (Some ks_cmds) f job (Some tok) s = (u, s')"
  shows "stored_token job s' = stored_token job s \<or> stored_token job s' = None"
    and "stored_token job s \<noteq> Some tok \<Longrightarrow> s' = s"
  using assms
  by (cases f; auto simp: release_active_job_lock_def release_script_def rtry_def rbind_def rret_def
        stored_token_def split: if_splits option.splits prod.splits rval.splits)+

lemma ks_force:
  assumes "force_release_active_job_lock (Some ks_cmds) f job s = (u, s')"
  shows "stored_token job s' = stored_token job s \<or> stored_token job s' = None"
  using assms
  by (cases f) (auto simp: force_release_active_job_lock_def rtry_def stored_token_def)

lemma ks_tick:
  "stored_token job (ks_elapse d s) = stored_token job s \<or> stored_token job (ks_elapse d s) = None"
  "lock_outlives d (active_lock_key job) s \<Longrightarrow> stored_token job (ks_elapse d s) = stored_token job s"
  by (auto simp: stored_token_def lock_outlives_def split: option.splits rval.splits prod.splits
        elim!: age_entry.elims split: if_splits)

context redis_server
begin

lemma sim_acquire:
  "sim view (try_acquire_active_job_lock cfg (Some R) f job tok)
     (try_acquire_active_job_lock cfg (Some ks_cmds) f job tok)"
  by (simp add: try_acquire_active_job_lock_def) (intro sim_intros sim_cmds)

lemma sim_renew:
  "sim view (refresh_active_job_lock cfg (Some R) f job tok)
     (refresh_active_job_lock cfg (Some ks_cmds) f job tok)"
  unfolding refresh_active_job_lock_def refresh_script_def option.case ks_cmds_sel
  by (intro sim_intros sim_cmds)

lemma sim_release:
  "sim view (release_active_job_lock (Some R) f job tok) (release_active_job_lock (Some ks_cmds) f job tok)"
  unfolding release_active_job_lock_def release_script_def option.case ks_cmds_sel
  by (intro sim_intros sim_cmds)

lemma sim_force:
  "sim view (force_release_active_job_lock (Some R) f job) (force_release_active_job_lock (Some ks_cmds) f job)"
  by (simp add: force_release_active_job_lock_def) (intro sim_intros sim_cmds)

lemma lock_step_inv:
  assumes "lock_step R view elapse cfg job timely w w'" and "lock_inv view job w"
  shows "lock_inv view job w'"
  using assms(1)
proof cases
  case (acquire p tok f ok got s')
  note k = ks_acquire [OF sim_step [OF sim_acquire acquire(5)]]
  show ?thesis using assms(2) k acquire(2,3) unfolding acquire(1) lock_inv_def by auto
next
  case (renew p tok f ok s')
  show ?thesis using assms(2) ks_renew(1) [OF sim_step [OF sim_renew renew(3)]] unfolding renew(1) lock_inv_def by auto
next
  case (release p tok f s')
  show ?thesis using assms(2) ks_release(1) [OF sim_step [OF sim_release release(3)]] unfolding release(1) lock_inv_def by auto
next
  case (force f s')
  show ?thesis using assms(2) ks_force [OF sim_step [OF sim_force force(3)]] unfolding force(1) lock_inv_def by auto
next
  case (tick d)
  show ?thesis using assms(2) ks_tick(1) [of job d "view (lw_server w)"] unfolding tick(1) lock_inv_def
    by (auto simp: view_elapse)
qed

lemma lock_step_timely:
  assumes "lock_step R view elapse cfg job True w w'" and "lock_inv view job w" and "timely_inv view job w"
    and "0 < cc_active_job_lock_ttl_seconds cfg"
  shows "timely_inv view job w'"
  using assms(1)
proof cases
  case (acquire p tok f ok got s')
  note k = ks_acquire [OF sim_step [OF sim_acquire acquire(5)]]
  have held: "ks_data (view (lw_server w)) (active_lock_key job) \<noteq> None" if "lw_held w q \<noteq> None" for q
    using that assms(3) by (auto simp: timely_inv_def stored_token_def split: option.splits)
  show ?thesis using assms(3) k held unfolding acquire(1) timely_inv_def by (auto split: if_splits)
next
  case (renew p tok f ok s')
  show ?thesis using assms(3) ks_renew(2) [OF sim_step [OF sim_renew renew(3)] assms(4)] unfolding renew(1) timely_inv_def by auto
next
  case (release p tok f s')
  have "q = p" if "lw_held w q = Some t" for q t
    using that release(2) assms(2,3) by (auto simp: timely_inv_def lock_inv_def) (metis option.inject)
  then show ?thesis unfolding release(1) timely_inv_def by auto
next
  case (force f s')
  then show ?thesis by simp
next
  case (tick d)
  show ?thesis using assms(3) tick(3) ks_tick(2) [of d job "view (lw_server w)"] unfolding tick(1) timely_inv_def
    by (auto simp: view_elapse)
qed

end

lemma key_facts [simp]:
  "event_stream_key job gen \<noteq> generation_reservation_key job' gen'"
  "event_stream_key job gen \<noteq> latest_generation_key job'"
  "generation_reservation_key job gen \<noteq> latest_generation_key job'"
  "active_lock_key job \<noteq> cancel_request_key job'"
  by (simp_all add: event_stream_key_def generation_reservation_key_def latest_generation_key_def
        active_lock_key_def cancel_request_key_def)

lemma retention_pos [simp]:
  "0 < generation_retention_ttl_seconds cfg" "\<not> generation_retention_ttl_seconds cfg \<le> 0"
  by (simp_all add: generation_retention_ttl_seconds_def)

text \<open>The list that holds a generation's events.\<close>

definition stream_items :: "string \<Rightarrow> string \<Rightarrow> keyspace \<Rightarrow> string list option" where
  "stream_items job gen s =
     (case ks_data s (event_stream_key job gen) of
        None \<Rightarrow> Some [] | Some (RList l, _) \<Rightarrow> Some l | Some (RString _, _) \<Rightarrow> None)"

definition latest_readable :: "string \<Rightarrow> keyspace \<Rightarrow> bool" where
  "latest_readable job s =
     (case ks_data s (latest_generation_key job) of Some (RList _, _) \<Rightarrow> False | _ \<Rightarrow> True)"

abbreviation replay_state :: "string \<Rightarrow> string \<Rightarrow> keyspace \<Rightarrow> string list option \<times> bool" where
  "replay_state job gen s \<equiv> (stream_items job gen s, latest_readable job s)"

lemma snd_exec_pipeline [simp]:
  "snd (exec_pipeline (c # cs) s) = snd (exec_pipeline cs (snd (c s)))"
  by (simp add: split_beta Let_def)

lemma snd_forget [simp]: "snd (rbind m (\<lambda>_. rret ()) s) = snd (m s)"
  by (auto simp: rbind_def rret_def split: prod.splits sum.splits)

lemma expire_keeps: "0 < t \<Longrightarrow> replay_state job gen (snd (ks_expire k t s)) = replay_state job gen s"
  by (auto simp: stream_items_def latest_readable_def split: option.splits prod.splits rval.splits)

lemma publish_keeps: "replay_state job gen (snd (ks_publish ch m s)) = replay_state job gen s"
  by (auto simp: stream_items_def latest_readable_def)

lemma rpush_adds:
  assumes "stream_items job gen s = Some l"
  shows "replay_state job gen (snd (ks_rpush (event_stream_key job gen) x s)) =
           (Some (l @ [x]), latest_readable job s)"
  using assms key_facts(2) [of job gen job, symmetric]
  by (auto simp: stream_items_def latest_readable_def split: option.splits prod.splits rval.splits)

lemma ks_publish_event:
  assumes "stream_items job gen s = Some l" and "latest_readable job s"
  shows "replay_state job gen (snd (publish_event cfg (Some ks_cmds) (Delivered, Delivered) job gen e s)) =
           (Some (l @ [serialize_event e]), True)"
proof -
  obtain x where x: "ks_get (latest_generation_key job) s = (Inr x, s)"
    using assms(2) by (auto simp: latest_readable_def split: option.splits prod.splits rval.splits)
  have push: "replay_state job gen (snd (ks_rpush (event_stream_key job gen) (serialize_event e) s)) =
      (Some (l @ [serialize_event e]), True)"
    using rpush_adds [OF assms(1)] assms(2) by simp
  have bind: "rbind (redis_call Delivered (ks_get (latest_generation_key job))) F s = F x s"
    for F :: "string option \<Rightarrow> (keyspace, unit) rcmd"
    by (simp add: rbind_def x del: ks_get.simps)
  show ?thesis
    using push
    by (cases "x = Some gen")
       (simp_all add: publish_event_def rtry_def Let_def split_beta bind expire_keeps publish_keeps
          del: ks_get.simps ks_expire.simps ks_publish.simps ks_rpush.simps)
qed

context redis_server
begin

lemma sim_exec_pipeline:
  "list_all2 (sim view) cs cs' \<Longrightarrow> sim view (exec_pipeline cs) (exec_pipeline cs')"
proof (induction cs cs' rule: list_all2_induct)
  case (Cons c cs c' cs')
  show ?case
  proof (rule simI)
    fix s
    obtain r t where r: "c s = (r, t)" by fastforce
    have r': "c' (view s) = (r, view t)" using sim_step [OF Cons(1) r] .
    obtain q u where q: "exec_pipeline cs t = (q, u)" by fastforce
    have "exec_pipeline cs' (view t) = (q, view u)" using sim_step [OF Cons(3) q] .
    then show "apsnd view (exec_pipeline (c # cs) s) = exec_pipeline (c' # cs') (view s)"
      using r r' q by simp
  qed
qed (simp add: sim_def)

lemma sim_publish_event:
  "sim view (publish_event cfg (Some R) fs job gen e) (publish_event cfg (Some ks_cmds) fs job gen e)"
  unfolding publish_event_def option.case Let_def ks_cmds_sel
  by (intro sim_intros sim_cmds sim_exec_pipeline) (auto intro!: sim_intros sim_cmds)

lemma sim_read_events:
  "sim view (read_events (Some R) f job gen k) (read_events (Some ks_cmds) f job gen k)"
  unfolding read_events_def option.case ks_cmds_sel by (intro sim_intros sim_cmds)

lemma publish_all_items:
  assumes "stream_items job gen (view s) = Some l" and "latest_readable job (view s)"
  shows "stream_items job gen
           (view (fold (\<lambda>e s. snd (publish_event cfg (Some R) (Delivered, Delivered) job gen e s)) es s)) =
         Some (l @ map serialize_event es)"
  using assms
proof (induction es arbitrary: s l)
  case (Cons e es)
  let ?s = "snd (publish_event cfg (Some R) (Delivered, Delivered) job gen e s)"
  have "view ?s = snd (publish_event cfg (Some ks_cmds) (Delivered, Delivered) job gen e (view s))"
    using simD [OF sim_publish_event, of cfg "(Delivered, Delivered)" job gen e s] by (metis snd_apsnd)
  then show ?case
    using Cons.IH [of ?s "l @ [serialize_event e]"] ks_publish_event [OF Cons.prems, of cfg e] by simp
qed simp

end

section \<open>Properties\<close>

text \<open>
  An event read back from Redis is the event that was written: number, name and payload.
\<close>

theorem event_wire_roundtrip:
  assumes "event_ok e"
  shows "deserialize_event (serialize_event e) = Some e"
  using deserialize_serialize [OF assms] .

theorem event_wire_roundtrip_witness:
  "deserialize_event (serialize_event
     \<lparr>ev_sequence_id = 3, ev_event = ''chunk'', ev_payload = [(''text'', JStr [CHR 0x22, CHR 0x0A, CHR ''a''])]\<rparr>) =
   Some \<lparr>ev_sequence_id = 3, ev_event = ''chunk'', ev_payload = [(''text'', JStr [CHR 0x22, CHR 0x0A, CHR ''a''])]\<rparr>"
proof -
  have "event_ok \<lparr>ev_sequence_id = 3, ev_event = ''chunk'', ev_payload = [(''text'', JStr [CHR 0x22, CHR 0x0A, CHR ''a''])]\<rparr>"
    by code_simp
  from event_wire_roundtrip [OF this] show ?thesis .
qed

text \<open>
  C1: mutual exclusion.  As long as nobody forces the lock and locks are renewed before they expire, at
  most one worker believes to hold the lock of a job, and the server stores that worker's token, through
  any interleaving of acquisitions, renewals and releases and with any lost requests or replies.
\<close>

theorem lock_mutual_exclusion:
  assumes "redis_server R view elapse" and "0 < cc_active_job_lock_ttl_seconds cfg"
    and "(lock_step R view elapse cfg job True)\<^sup>*\<^sup>* \<lparr>lw_server = s, lw_held = (\<lambda>_. None), lw_issued = T\<rparr> w"
    and "\<forall>tok. stored_token job (view s) = Some tok \<longrightarrow> tok \<in> T"
    and "lw_held w p = Some t1" and "lw_held w q = Some t2"
  shows "p = q \<and> stored_token job (view (lw_server w)) = Some t1"
proof -
  have "lock_inv view job w \<and> timely_inv view job w"
    using assms(3)
  proof (induction rule: rtranclp_induct)
    case base
    then show ?case using assms(4) by (simp add: lock_inv_def timely_inv_def)
  next
    case (step w1 w2)
    then show ?case
      using redis_server.lock_step_inv [OF assms(1)] redis_server.lock_step_timely [OF assms(1)] assms(2)
      by blast
  qed
  then show ?thesis using assms(5,6) unfolding lock_inv_def timely_inv_def by (metis option.inject)
qed

theorem lock_mutual_exclusion_witness:
  "let w = \<lparr>lw_server = snd (ks_set ''chat_generation:active:j'' ''t1'' (Some 900) True empty_keyspace),
            lw_held = (\<lambda>_. None)(0 := Some ''t1''), lw_issued = {''t1''}\<rparr>
   in stored_token ''j'' (lw_server w) = Some ''t1''"
proof -
  let ?cfg = "\<lparr>cc_job_retention_seconds = 60, cc_active_job_lock_ttl_seconds = 900,
    cc_stream_idle_timeout = 0, cc_sse_heartbeat = 0, cc_remote_cancel_timeout = 0\<rparr>"
  let ?start = "\<lparr>lw_server = empty_keyspace, lw_held = (\<lambda>_. None), lw_issued = {}\<rparr>"
  let ?s = "snd (ks_set ''chat_generation:active:j'' ''t1'' (Some 900) True empty_keyspace)"
  let ?w = "\<lparr>lw_server = ?s, lw_held = (\<lambda>_. None)(0 := Some ''t1''), lw_issued = {''t1''}\<rparr>"
  have acq: "try_acquire_active_job_lock ?cfg (Some ks_cmds) Delivered ''j'' ''t1'' empty_keyspace =
      ((True, Some ''t1''), ?s)"
    by (simp add: try_acquire_active_job_lock_def rtry_def active_lock_key_def) (simp add: empty_keyspace_def)
  have "lock_step ks_cmds id ks_elapse ?cfg ''j'' True ?start
      (?start\<lparr>lw_server := ?s, lw_issued := insert ''t1'' (lw_issued ?start),
         lw_held := (if True then (lw_held ?start)(0 := Some ''t1'') else lw_held ?start)\<rparr>)"
    by (rule lock_step.acquire [where w = ?start and f = Delivered]) (use acq in \<open>auto simp del: ks_set.simps\<close>)
  then have "lock_step ks_cmds id ks_elapse ?cfg ''j'' True ?start ?w" by (simp del: ks_set.simps)
  then have "(lock_step ks_cmds id ks_elapse ?cfg ''j'' True)\<^sup>*\<^sup>* ?start ?w" by blast
  from lock_mutual_exclusion [OF reference_server.redis_server_axioms _ this, of 0 "''t1''" 0 "''t1''"]
  show ?thesis by (simp add: stored_token_def empty_keyspace_def)
qed

text \<open>
  A stale owner is harmless.  Whatever happened before (expired and forced locks, lost replies), a
  worker whose token is not the stored one can neither remove nor prolong the lock another worker
  holds, and the stored token belongs to at most one worker.
\<close>

theorem stale_owner_harmless:
  assumes "redis_server R view elapse"
    and "(lock_step R view elapse cfg job False)\<^sup>*\<^sup>* \<lparr>lw_server = s, lw_held = (\<lambda>_. None), lw_issued = T\<rparr> w"
    and "\<forall>tok. stored_token job (view s) = Some tok \<longrightarrow> tok \<in> T"
    and "lw_held w p = Some tok" and "stored_token job (view (lw_server w)) = Some owner" and "tok \<noteq> owner"
  shows "view (snd (release_active_job_lock (Some R) f job (Some tok) (lw_server w))) = view (lw_server w) \<and>
         view (snd (refresh_active_job_lock cfg (Some R) f job (Some tok) (lw_server w))) = view (lw_server w) \<and>
         (\<forall>q r. lw_held w q = Some owner \<and> lw_held w r = Some owner \<longrightarrow> q = r)"
proof -
  have inv: "lock_inv view job w"
    using assms(2)
  proof (induction rule: rtranclp_induct)
    case base
    then show ?case using assms(3) by (simp add: lock_inv_def)
  next
    case (step w1 w2)
    then show ?case using redis_server.lock_step_inv [OF assms(1)] by blast
  qed
  let ?s = "lw_server w"
  have "release_active_job_lock (Some ks_cmds) f job (Some tok) (view ?s) =
      ((), view (snd (release_active_job_lock (Some R) f job (Some tok) ?s)))"
    by (rule sim_step [OF redis_server.sim_release [OF assms(1)]]) (simp add: prod_eq_iff)
  from ks_release(2) [OF this] assms(5,6)
  have "view (snd (release_active_job_lock (Some R) f job (Some tok) ?s)) = view ?s" by simp
  moreover have "view (snd (refresh_active_job_lock cfg (Some R) f job (Some tok) ?s)) =
      snd (refresh_active_job_lock cfg (Some ks_cmds) f job (Some tok) (view ?s))"
    using simD [OF redis_server.sim_renew [OF assms(1)], of cfg f job "Some tok" ?s] by (metis snd_apsnd)
  moreover have "snd (refresh_active_job_lock cfg (Some ks_cmds) f job (Some tok) (view ?s)) = view ?s"
    using assms(5,6) by (rule ks_renew_foreign)
  ultimately show ?thesis using inv by (auto simp: lock_inv_def)
qed

text \<open>Two workers, the first of which let its lock expire: the example the statement above speaks of.\<close>

definition example_cfg :: coord_config where
  "example_cfg = \<lparr>cc_job_retention_seconds = 60, cc_active_job_lock_ttl_seconds = 900,
     cc_stream_idle_timeout = 60 * second, cc_sse_heartbeat = 15 * second, cc_remote_cancel_timeout = second\<rparr>"

lemma acquire_free:
  assumes "ks_data (lw_server w) (active_lock_key job) = None" and "lw_held w p = None"
    and "tok \<notin> lw_issued w" and "tok \<noteq> []"
  shows "lock_step ks_cmds id ks_elapse example_cfg job timely w
     (w\<lparr>lw_server := put_key (active_lock_key job) (RString tok, Some (900 * second)) (lw_server w),
        lw_issued := insert tok (lw_issued w), lw_held := (lw_held w)(p := Some tok)\<rparr>)"
  using lock_step.acquire [of w p tok example_cfg ks_cmds Delivered job True "Some tok"
      "put_key (active_lock_key job) (RString tok, Some (900 * second)) (lw_server w)" id ks_elapse timely] assms
  by (simp add: try_acquire_active_job_lock_def rtry_def example_cfg_def lifetime_def)

lemma stale_example:
  "\<exists>w. (lock_step ks_cmds id ks_elapse example_cfg ''j'' False)\<^sup>*\<^sup>*
          \<lparr>lw_server = empty_keyspace, lw_held = (\<lambda>_. None), lw_issued = {}\<rparr> w \<and>
        lw_held w 0 = Some ''t1'' \<and> stored_token ''j'' (lw_server w) = Some ''t2''"
proof -
  let ?start = "\<lparr>lw_server = empty_keyspace, lw_held = (\<lambda>_. None), lw_issued = {}\<rparr>"
  let ?step = "lock_step ks_cmds id ks_elapse example_cfg ''j'' False"
  let ?lock = "\<lambda>tok. (RString tok, Some (900 * second))"
  let ?w1 = "?start\<lparr>lw_server := put_key (active_lock_key ''j'') (?lock ''t1'') empty_keyspace,
      lw_issued := {''t1''}, lw_held := (\<lambda>_. None)(0 := Some ''t1'')\<rparr>"
  let ?expired = "ks_elapse (900 * second) (lw_server ?w1)"
  let ?w2 = "?w1\<lparr>lw_server := ?expired\<rparr>"
  let ?w3 = "?w2\<lparr>lw_server := put_key (active_lock_key ''j'') (?lock ''t2'') ?expired,
      lw_issued := {''t2'', ''t1''}, lw_held := (lw_held ?w1)(1 := Some ''t2'')\<rparr>"
  have "?step ?start ?w1"
    using acquire_free [of ?start "''j''" 0 "''t1''" False] by (simp add: empty_keyspace_def)
  moreover have "?step ?w1 ?w2"
    by (rule lock_step.tick) auto
  moreover have "?step ?w2 ?w3"
    using acquire_free [of ?w2 "''j''" 1 "''t2''" False] by simp
  ultimately have "?step\<^sup>*\<^sup>* ?start ?w3"
    by (meson converse_rtranclp_into_rtranclp rtranclp.rtrancl_refl)
  then show ?thesis by (intro exI [of _ ?w3]) (simp add: stored_token_def)
qed

theorem stale_owner_harmless_witness:
  "\<exists>w :: keyspace lock_world. lw_held w 0 = Some ''t1'' \<and> stored_token ''j'' (lw_server w) = Some ''t2'' \<and>
       snd (release_active_job_lock (Some ks_cmds) Delivered ''j'' (Some ''t1'') (lw_server w)) = lw_server w"
proof -
  obtain w where w: "(lock_step ks_cmds id ks_elapse example_cfg ''j'' False)\<^sup>*\<^sup>*
          \<lparr>lw_server = empty_keyspace, lw_held = (\<lambda>_. None), lw_issued = {}\<rparr> w"
      "lw_held w 0 = Some ''t1''" "stored_token ''j'' (lw_server w) = Some ''t2''"
    using stale_example by blast
  have "\<forall>tok. stored_token ''j'' (id empty_keyspace) = Some tok \<longrightarrow> tok \<in> {}"
    by (simp add: stored_token_def empty_keyspace_def)
  from stale_owner_harmless [OF reference_server.redis_server_axioms w(1) this w(2), of "''t2''" Delivered] w(3)
  have "snd (release_active_job_lock (Some ks_cmds) Delivered ''j'' (Some ''t1'') (lw_server w)) = lw_server w" by simp
  with w(2,3) show ?thesis by blast
qed

text \<open>
  What is published can be replayed.  After a worker has published the events of a generation, any
  worker reading the list from position \<open>k\<close> gets exactly the events after the \<open>k\<close>-th, in order, on any
  server that implements the documented commands.
\<close>

theorem publish_then_read:
  assumes "redis_server R view elapse" and "log_ok evs"
    and "stream_items job gen (view s) = Some []" and "latest_readable job (view s)"
  shows "fst (read_events (Some R) Delivered job gen (int k)
           (fold (\<lambda>e s. snd (publish_event cfg (Some R) (Delivered, Delivered) job gen e s)) evs s)) =
         drop k evs"
proof -
  let ?s = "fold (\<lambda>e s. snd (publish_event cfg (Some R) (Delivered, Delivered) job gen e s)) evs s"
  have items: "stream_items job gen (view ?s) = Some (map serialize_event evs)"
    using redis_server.publish_all_items [OF assms(1,3,4)] by simp
  have "fst (read_events (Some R) Delivered job gen (int k) ?s) =
      fst (read_events (Some ks_cmds) Delivered job gen (int k) (view ?s))"
    using simD [OF redis_server.sim_read_events [OF assms(1)], of Delivered job gen "int k" ?s]
    by (metis fst_apsnd)
  also have "\<dots> = read_after (int k) (map serialize_event evs)"
    using items
    by (auto simp: read_events_def rtry_def stream_items_def split: option.splits prod.splits rval.splits)
  also have "\<dots> = drop k evs" using read_after_log [OF assms(2), of k "length evs"] by simp
  finally show ?thesis .
qed

definition example_log :: "chat_event list" where
  "example_log =
     [\<lparr>ev_sequence_id = 1, ev_event = ''chunk'', ev_payload = [(''text'', JStr ''a'')]\<rparr>,
      \<lparr>ev_sequence_id = 2, ev_event = ''done'', ev_payload = []\<rparr>]"

lemma example_log_ok: "log_ok example_log"
  by code_simp

theorem publish_then_read_witness:
  "fst (read_events (Some ks_cmds) Delivered ''j'' ''g'' (int 1)
     (fold (\<lambda>e s. snd (publish_event example_cfg (Some ks_cmds) (Delivered, Delivered) ''j'' ''g'' e s))
        example_log empty_keyspace)) = drop 1 example_log"
  by (rule publish_then_read [OF reference_server.redis_server_axioms example_log_ok])
     (simp_all add: stream_items_def latest_readable_def empty_keyspace_def)

text \<open>
  C22: following a stream of another worker.  The two list readings are prefixes of the numbered log, the
  channel delivers the published events in the order of their numbers from before the second reading
  on, and the list is complete once the loop finds the generation inactive.  Then the events yielded
  after position \<open>k\<close> are a prefix of the rest of the log: nothing is skipped, repeated or reordered.  When
  the iteration returns they are the whole rest if the generation was active at the first activity
  check, and only what the first reading held if it was not: what was written between that reading and
  the check is then lost.  A timeout is the only other way to stop early.
\<close>

theorem distributed_stream_exact:
  assumes "log_ok evs" and "a \<le> b" and "b \<le> length evs" and "k \<le> a" and "feed evs True j ts" and "j \<le> b"
    and "iter_distributed_events cfg True (int k) (map serialize_event (take a evs)) active start
           (map serialize_event (take b evs)) again ts = (ys, r)"
  shows "(\<exists>m. yielded ys = take m (drop k evs)) \<and>
         (r = StreamReturned \<longrightarrow> yielded ys = drop k (if active then evs else take a evs))"
proof (cases active)
  case True
  then show ?thesis using iter_follows [OF assms(1-6), of active cfg start again] assms(7) by (auto simp: follows_def)
next
  case False
  have "yielded ys = drop k (take a evs)"
    using assms(7) False read_after_log [OF assms(1), of k a] by (auto simp: iter_distributed_events_def)
  then show ?thesis using False by (auto simp: drop_take intro: exI [of _ "a - k"])
qed

theorem distributed_stream_exact_witness:
  "let t = \<lparr>tk_message = Some (Some (serialize_event (example_log ! 1))), tk_now = 1, tk_active = True, tk_items = []\<rparr>
   in yielded (fst (iter_distributed_events example_cfg True (int 0) (map serialize_event (take 1 example_log)) True 0
        (map serialize_event (take 1 example_log)) 0 [t])) = take 2 example_log"
proof -
  let ?t = "\<lparr>tk_message = Some (Some (serialize_event (example_log ! 1))), tk_now = 1, tk_active = True, tk_items = []\<rparr>"
  let ?out = "iter_distributed_events example_cfg True (int 0) (map serialize_event (take 1 example_log)) True 0
        (map serialize_event (take 1 example_log)) 0 [?t]"
  have r: "snd ?out = StreamReturned" by code_simp
  have "feed example_log True 1 [?t]" by (simp add: example_log_def)
  from distributed_stream_exact [OF example_log_ok _ _ _ this, of 1 1 0 example_cfg True 0 0 "fst ?out" "snd ?out"] r
  show ?thesis by (simp add: example_log_def Let_def)
qed

text \<open>
  The first activity check has a gap.  If the generation ends between the first list reading and
  the check, the iteration returns without the events written in between, although the list holds
  them: here the terminal event is never delivered.
\<close>

theorem first_activity_check_gap:
  "iter_distributed_events example_cfg True 0 (map serialize_event (take 1 example_log)) False 0
     (map serialize_event example_log) 0 [] = ([Some (example_log ! 0)], StreamReturned)"
  by code_simp

text \<open>
  Restoring the latest generation id after a failed start is a compare-and-set: it acts only while
  the stored id is the failed one, and then puts the previous id back or removes the key.
\<close>

theorem restore_latest_compare_and_set:
  assumes "redis_server R view elapse"
    and "restore_latest_generation_id cfg (Some R) Delivered job failed previous s = (ok, s')"
    and "ks_data (view s) (latest_generation_key job) = Some (RString cur, ttl)"
  shows "(cur \<noteq> failed \<longrightarrow> \<not> ok \<and> view s' = view s) \<and>
         (cur = failed \<longrightarrow> ok \<and>
            ks_data (view s') (latest_generation_key job) =
              (if previous = None \<or> previous = Some [] then None
               else Some (RString (the previous), Some (second * generation_retention_ttl_seconds cfg))))"
proof -
  have "sim view (restore_latest_generation_id cfg (Some R) Delivered job failed previous)
      (restore_latest_generation_id cfg (Some ks_cmds) Delivered job failed previous)"
    unfolding restore_latest_generation_id_def restore_script_def option.case ks_cmds_sel
    by (intro sim_intros redis_server.sim_cmds [OF assms(1)])
  note sim_step [OF this assms(2), symmetric]
  then show ?thesis using assms(3)
    by (auto simp: restore_latest_generation_id_def restore_script_def rtry_def rbind_def rret_def lifetime_def
          split: if_splits option.splits)
qed

theorem restore_latest_compare_and_set_witness:
  "ks_data (snd (restore_latest_generation_id example_cfg (Some ks_cmds) Delivered ''j'' ''g2'' (Some ''g1'')
     (put_key ''chat_generation:latest:j'' (RString ''g3'', Some 5) empty_keyspace))) ''chat_generation:latest:j'' =
   Some (RString ''g3'', Some 5)"
  using restore_latest_compare_and_set [OF reference_server.redis_server_axioms,
    of example_cfg "''j''" "''g2''" "Some ''g1''" "put_key ''chat_generation:latest:j'' (RString ''g3'', Some 5) empty_keyspace"]
  by (simp add: latest_generation_key_def prod_eq_iff)

text \<open>The answer of the existence check, seen on the keyspace.\<close>

context redis_server
begin

lemma has_active_lock_view:
  assumes "has_active_lock (Some R) f job s = (held, s')"
  shows "view s' = view s"
    and "f = Delivered \<Longrightarrow> held = (ks_data (view s) (active_lock_key job) \<noteq> None)"
proof -
  have "sim view (has_active_lock (Some R) f job) (has_active_lock (Some ks_cmds) f job)"
    unfolding has_active_lock_def option.case ks_cmds_sel by (intro sim_intros sim_cmds)
  from sim_step [OF this assms, symmetric]
  show "view s' = view s" "f = Delivered \<Longrightarrow> held = (ks_data (view s) (active_lock_key job) \<noteq> None)"
    by (cases f; auto simp: has_active_lock_def rtry_def)+
qed

lemma poll_lock_free:
  assumes "poll_lock R job deadline rounds s = (Some True, s')"
    and "list_all (\<lambda>(f, _, _). f = Delivered) rounds"
  shows "ks_data (view s') (active_lock_key job) = None"
  using assms
proof (induction rounds arbitrary: s)
  case (Cons r rounds)
  obtain f now sleep where r: "r = (f, now, sleep)" by (cases r) auto
  obtain held t where h: "has_active_lock (Some R) f job s = (held, t)" by fastforce
  show ?case using Cons r h has_active_lock_view [OF h]
    by (cases "ks_data (view s) (active_lock_key job)") (auto split: if_splits)
qed simp

lemma poll_lock_returns:
  "\<exists>r \<in> set rounds. deadline \<le> fst (snd r) \<Longrightarrow> fst (poll_lock R job deadline rounds s) \<noteq> None"
proof (induction rounds arbitrary: s)
  case (Cons r rounds)
  obtain f now sleep where r: "r = (f, now, sleep)" by (cases r) auto
  then show ?case using Cons by (auto simp: split_beta Let_def)
qed simp

lemma force_release_view:
  "view (snd (force_release_active_job_lock (Some R) Delivered job s)) = drop_key (active_lock_key job) (view s)"
proof -
  have "view (snd (force_release_active_job_lock (Some R) Delivered job s)) =
      snd (force_release_active_job_lock (Some ks_cmds) Delivered job (view s))"
    using simD [OF sim_force, of Delivered job s] by (metis snd_apsnd)
  then show ?thesis by (simp add: force_release_active_job_lock_def rtry_def)
qed

lemma remote_cancel_free:
  assumes "request_remote_cancel cfg (Some R) c job s = (Some True, s')"
    and "list_all (\<lambda>(f, _, _). f = Delivered) (cr_rounds c)" and "cr_force c = Delivered"
  shows "ks_data (view s') (active_lock_key job) = None"
  using assms poll_lock_free force_release_view
  by (fastforce simp: request_remote_cancel_def split_beta Let_def prod_eq_iff
        split: if_splits sum.splits option.splits bool.splits)

end

text \<open>
  Stopping a generation that another worker owns.  A stop request comes to an answer as soon as one
  polling round is at or past the deadline, and an answer \<open>True\<close> means that the lock is gone: released
  by its owner, or removed by force after the deadline (the checks reaching the server).
\<close>

theorem remote_cancel_frees_lock:
  assumes "redis_server R view elapse"
    and "list_all (\<lambda>(f, _, _). f = Delivered) (cr_rounds c)" and "cr_force c = Delivered"
    and "list_ex (\<lambda>(_, now, _). cr_start c + cc_remote_cancel_timeout cfg \<le> now) (cr_rounds c)"
    and "request_remote_cancel cfg (Some R) c job s = (answer, s')"
  shows "answer \<noteq> None \<and> (answer = Some True \<longrightarrow> ks_data (view s') (active_lock_key job) = None)"
proof -
  have "\<exists>r \<in> set (cr_rounds c). cr_start c + cc_remote_cancel_timeout cfg \<le> fst (snd r)"
    using assms(4) by (simp add: list_ex_iff split_beta)
  then have "fst (poll_lock R job (cr_start c + cc_remote_cancel_timeout cfg) (cr_rounds c) t) \<noteq> None" for t
    by (rule redis_server.poll_lock_returns [OF assms(1)])
  then have "answer \<noteq> None"
    using assms(5)
    by (auto simp: request_remote_cancel_def split_beta Let_def simp del: not_None_eq
          split: if_splits sum.splits option.splits bool.splits)
  then show ?thesis using redis_server.remote_cancel_free [OF assms(1) _ assms(2,3)] assms(5) by auto
qed

theorem remote_cancel_frees_lock_witness:
  "let c = \<lparr>cr_check = Delivered, cr_mark = Delivered, cr_broadcast = Delivered, cr_start = 0,
            cr_rounds = [(Delivered, 0, id), (Delivered, second, id)], cr_force = Delivered\<rparr>;
       s = put_key (active_lock_key ''j'') (RString ''t1'', Some (900 * second)) empty_keyspace
   in fst (request_remote_cancel example_cfg (Some ks_cmds) c ''j'' s) = Some True \<and>
      ks_data (snd (request_remote_cancel example_cfg (Some ks_cmds) c ''j'' s)) (active_lock_key ''j'') = None"
proof -
  let ?c = "\<lparr>cr_check = Delivered, cr_mark = Delivered, cr_broadcast = Delivered, cr_start = 0,
            cr_rounds = [(Delivered, 0, id), (Delivered, second, id)], cr_force = Delivered\<rparr>"
  let ?s = "put_key (active_lock_key ''j'') (RString ''t1'', Some (900 * second)) empty_keyspace"
  have "fst (request_remote_cancel example_cfg (Some ks_cmds) ?c ''j'' ?s) = Some True"
    by (simp add: request_remote_cancel_def has_active_lock_def rtry_def force_release_active_job_lock_def
          example_cfg_def)
  then show ?thesis
    using remote_cancel_frees_lock [OF reference_server.redis_server_axioms, of ?c example_cfg "''j''" ?s]
    by (simp add: example_cfg_def prod_eq_iff)
qed

end
