(* ===== verification/Answer_Continuation.thy ===== *)
theory Answer_Continuation
  imports Env_Settings "HOL-Library.Sublist"
begin

text \<open>
  \<open>services/chat_answer_continuation.py\<close>: when the stream of an answer is cut off, the rest is requested a
  bounded number of times.  The opening of each continuation is held back until what it repeats of the
  answer is known and removed; a continuation that starts the answer over is held back as a whole and
  only what follows the answer's tail is kept.  What a pass streams and how it ends is an input
  (\<open>pass_input\<close>); the requests are recorded by the partial answer they carry.  Log lines and the wording of
  the request are left out.
\<close>

section \<open>Errors of the language model\<close>

text \<open>
  The exception classes of \<open>services/llm.py\<close> as the callers tell them apart.  \<open>Retryable_Provider_Error\<close> is
  any subclass of \<open>LlmRetryableProviderError\<close> but \<open>LlmRateLimitError\<close>, and \<open>Continuation_Stalled\<close> is the
  subclass of \<open>LlmOutputLimitError\<close> this module defines.
\<close>

datatype llm_error =
    Configuration_Error
  | Authentication_Error
  | Invalid_Model_Error
  | Input_Limit_Error
  | Output_Limit_Error
  | Rate_Limit_Error
  | Retryable_Provider_Error
  | Tool_Schema_Error
  | Continuation_Stalled
  | Other_Service_Error
  | Other_Exception

fun is_service_error :: "llm_error \<Rightarrow> bool" where
  "is_service_error Other_Exception = False"
| "is_service_error _ = True"

definition may_continue :: "llm_error \<Rightarrow> bool" where
  "may_continue exc \<longleftrightarrow> exc \<in> {Output_Limit_Error, Continuation_Stalled, Retryable_Provider_Error}"

section \<open>Repeated and restarted text\<close>

abbreviation (input) OVERLAP_CHARS :: nat where
  "OVERLAP_CHARS \<equiv> 2048"

abbreviation (input) RESTART_PREFIX_CHARS :: nat where
  "RESTART_PREFIX_CHARS \<equiv> 160"

abbreviation (input) RESTART_ANCHOR_CHARS :: "nat list" where
  "RESTART_ANCHOR_CHARS \<equiv> [320, 200, 120, 64]"

definition get_final_answer_max_continuations :: "environ \<Rightarrow> int" where
  "get_final_answer_max_continuations env =
     (case env ''LLM_FINAL_ANSWER_MAX_CONTINUATIONS'' of
        None \<Rightarrow> 3
      | Some raw \<Rightarrow> (case py_int raw of None \<Rightarrow> 3 | Some value \<Rightarrow> max value 0))"

text \<open>The last \<open>n\<close> characters, \<open>text[-n:]\<close> for \<open>n > 0\<close>.\<close>

definition tail_of :: "nat \<Rightarrow> string \<Rightarrow> string" where
  "tail_of n s = drop (length s - n) s"

fun strip_overlap_from :: "nat \<Rightarrow> string \<Rightarrow> string \<Rightarrow> string" where
  "strip_overlap_from 0 existing continuation = continuation"
| "strip_overlap_from (Suc n) existing continuation =
     (if tail_of (Suc n) existing = take (Suc n) continuation then drop (Suc n) continuation
      else strip_overlap_from n existing continuation)"

definition strip_continuation_overlap :: "string \<Rightarrow> string \<Rightarrow> string" where
  "strip_continuation_overlap existing continuation =
     strip_overlap_from (min (min (length existing) (length continuation)) OVERLAP_CHARS) existing continuation"

definition looks_like_restarted_answer :: "string \<Rightarrow> string \<Rightarrow> bool" where
  "looks_like_restarted_answer existing continuation =
     (let prefix_length = min (min (length existing) (length continuation)) RESTART_PREFIX_CHARS
      in if prefix_length < RESTART_PREFIX_CHARS then False
         else take prefix_length existing = take prefix_length continuation)"

text \<open>\<open>text.rfind(pattern)\<close>, \<open>None\<close> for -1.\<close>

fun rfind :: "string \<Rightarrow> string \<Rightarrow> nat option" where
  "rfind pat [] = (if pat = [] then Some 0 else None)"
| "rfind pat (c # cs) =
     (case rfind pat cs of
        Some p \<Rightarrow> Some (Suc p)
      | None \<Rightarrow> if take (length pat) (c # cs) = pat then Some 0 else None)"

fun splice_at :: "nat list \<Rightarrow> string \<Rightarrow> string \<Rightarrow> string option" where
  "splice_at [] existing continuation = None"
| "splice_at (anchor_length # rest) existing continuation =
     (if length existing < anchor_length then splice_at rest existing continuation
      else
        (case rfind (tail_of anchor_length existing) continuation of
           None \<Rightarrow> splice_at rest existing continuation
         | Some position \<Rightarrow> Some (drop (position + anchor_length) continuation)))"

definition splice_restarted_answer :: "string \<Rightarrow> string \<Rightarrow> string option" where
  "splice_restarted_answer = splice_at RESTART_ANCHOR_CHARS"

section \<open>Streaming with recovery\<close>

text \<open>
  \<open>ra_buffer\<close>, \<open>ra_head_flushed\<close> and \<open>ra_full_buffer_mode\<close> are the current \<open>_ContinuationPass\<close>, whose buffer
  the job can see; its \<open>buffered_chars\<close> is the length of the buffered text.
\<close>

record recovery =
  ra_raw_answer_chunks :: "string list"
  ra_published :: "string list"
  ra_continuation_count :: int
  ra_reasons :: "llm_error list"
  ra_stalled :: bool
  ra_restart_trimmed :: bool
  ra_requests :: "string list"
  ra_events :: "(int \<times> int) list"
  ra_buffer :: "string list"
  ra_head_flushed :: bool
  ra_full_buffer_mode :: bool

abbreviation answer_text :: "recovery \<Rightarrow> string" where
  "answer_text st \<equiv> concat (ra_raw_answer_chunks st)"

text \<open>A pass: the chunks with what \<open>should_stop()\<close> answers before each, how the stream ends, and \<open>should_stop()\<close> after it.\<close>

record pass_input =
  pi_chunks :: "(bool \<times> string) list"
  pi_raises :: "llm_error option"
  pi_stop :: bool

datatype recovery_end =
    Recovered "llm_error option"
  | Recovery_Raised llm_error

definition publish_text :: "string \<Rightarrow> recovery \<Rightarrow> recovery" where
  "publish_text t st =
     (if t = [] then st
      else st\<lparr>ra_raw_answer_chunks := ra_raw_answer_chunks st @ [t], ra_published := ra_published st @ [t]\<rparr>)"

definition flush_pass :: "recovery \<Rightarrow> recovery" where
  "flush_pass st =
     (if ra_head_flushed st then st
      else
        (let segment = concat (ra_buffer st);
             st = st\<lparr>ra_head_flushed := True, ra_buffer := []\<rparr>
         in if segment = [] then st
            else if ra_full_buffer_mode st
            then (case splice_restarted_answer (answer_text st) segment of
                    None \<Rightarrow> st\<lparr>ra_restart_trimmed := True\<rparr>
                  | Some spliced \<Rightarrow> publish_text spliced (st\<lparr>ra_restart_trimmed := True\<rparr>))
            else publish_text (strip_continuation_overlap (answer_text st) segment) st))"

definition begin_continuation :: "int \<Rightarrow> recovery \<Rightarrow> recovery" where
  "begin_continuation max_continuations st =
     st\<lparr>ra_continuation_count := ra_continuation_count st + 1,
        ra_events := ra_events st @ [(ra_continuation_count st + 1, max_continuations)],
        ra_requests := ra_requests st @ [answer_text st]\<rparr>"

definition stalled_result :: "recovery \<Rightarrow> recovery_end option \<times> recovery" where
  "stalled_result st =
     (Some (Recovered (Some Continuation_Stalled)),
      st\<lparr>ra_stalled := True, ra_reasons := ra_reasons st @ [Continuation_Stalled]\<rparr>)"

definition new_pass :: "recovery \<Rightarrow> recovery" where
  "new_pass st = st\<lparr>ra_buffer := [], ra_head_flushed := False, ra_full_buffer_mode := False\<rparr>"

definition take_chunk :: "string \<Rightarrow> recovery \<Rightarrow> recovery" where
  "take_chunk chunk st =
     (if chunk = [] then st
      else if ra_continuation_count st = 0 \<or> ra_head_flushed st then publish_text chunk st
      else
        (let st = st\<lparr>ra_buffer := ra_buffer st @ [chunk]\<rparr>;
             st = (if \<not> ra_full_buffer_mode st
                      \<and> looks_like_restarted_answer (answer_text st) (concat (ra_buffer st))
                   then st\<lparr>ra_full_buffer_mode := True\<rparr> else st)
         in if ra_full_buffer_mode st then st
            else if OVERLAP_CHARS \<le> length (concat (ra_buffer st)) then flush_pass st
            else st))"

fun stream_chunks :: "(bool \<times> string) list \<Rightarrow> recovery \<Rightarrow> bool \<times> recovery" where
  "stream_chunks [] st = (False, st)"
| "stream_chunks ((stop, chunk) # rest) st =
     (if stop then (True, st) else stream_chunks rest (take_chunk chunk st))"

text \<open>One round of the loop; \<open>None\<close> where another continuation is requested.\<close>

definition run_pass :: "int \<Rightarrow> pass_input \<Rightarrow> recovery \<Rightarrow> recovery_end option \<times> recovery" where
  "run_pass max_continuations i st0 =
     (let chars_before_pass = length (answer_text st0);
          no_progress = (\<lambda>st. 0 < ra_continuation_count st \<and> length (answer_text st) \<le> chars_before_pass)
      in case stream_chunks (pi_chunks i) (new_pass st0) of
           (True, st) \<Rightarrow> (Some (Recovered None), st)
         | (False, st) \<Rightarrow>
             (case pi_raises i of
                None \<Rightarrow>
                  (let st = flush_pass st
                   in if no_progress st then stalled_result st else (Some (Recovered None), st))
              | Some exc \<Rightarrow>
                  if \<not> is_service_error exc then (Some (Recovery_Raised exc), st)
                  else
                    (let st = flush_pass st;
                         st = st\<lparr>ra_reasons := ra_reasons st @ [exc]\<rparr>
                     in if may_continue exc
                        then if no_progress st then stalled_result st
                             else if max_continuations \<le> ra_continuation_count st \<or> pi_stop i
                             then (Some (Recovered (Some exc)), st)
                             else (None, begin_continuation max_continuations st)
                        else if ra_raw_answer_chunks st \<noteq> [] then (Some (Recovered (Some exc)), st)
                        else (Some (Recovery_Raised exc), st))))"

lemma count_publish [simp]: "ra_continuation_count (publish_text t st) = ra_continuation_count st"
  by (simp add: publish_text_def)

lemma count_flush [simp]: "ra_continuation_count (flush_pass st) = ra_continuation_count st"
  by (simp add: flush_pass_def Let_def split: option.splits)

lemma count_take [simp]: "ra_continuation_count (take_chunk c st) = ra_continuation_count st"
  by (simp add: take_chunk_def Let_def)

lemma count_stream [simp]: "ra_continuation_count (snd (stream_chunks cs st)) = ra_continuation_count st"
  by (induction cs st rule: stream_chunks.induct) simp_all

lemma count_new_pass [simp]: "ra_continuation_count (new_pass st) = ra_continuation_count st"
  by (simp add: new_pass_def)

lemma run_pass_goes_on:
  assumes "run_pass m i st = (None, st')"
  shows "ra_continuation_count st < m" and "ra_continuation_count st' = ra_continuation_count st + 1"
  using assms count_stream [of "pi_chunks i" "new_pass st"]
  by (auto simp: run_pass_def Let_def stalled_result_def begin_continuation_def simp del: count_stream
      split: prod.splits bool.splits option.splits if_splits)

function recovery_loop ::
  "int \<Rightarrow> (nat \<Rightarrow> pass_input) \<Rightarrow> recovery \<Rightarrow> recovery_end \<times> recovery" where
  "recovery_loop max_continuations passes st =
     (case run_pass max_continuations (passes 0) st of
        (Some e, st') \<Rightarrow> (e, st')
      | (None, st') \<Rightarrow> recovery_loop max_continuations (\<lambda>n. passes (Suc n)) st')"
  by pat_completeness auto

termination
  by (relation "measure (\<lambda>(m, _, st). nat (m - ra_continuation_count st))")
     (auto dest!: sym [of "(None, _)"] simp: run_pass_goes_on)

declare recovery_loop.simps [simp del]

definition empty_recovery :: recovery where
  "empty_recovery =
     \<lparr>ra_raw_answer_chunks = [], ra_published = [], ra_continuation_count = 0, ra_reasons = [], ra_stalled = False,
      ra_restart_trimmed = False, ra_requests = [], ra_events = [], ra_buffer = [], ra_head_flushed = False,
      ra_full_buffer_mode = False\<rparr>"

definition stream_final_answer_with_recovery ::
  "environ \<Rightarrow> (nat \<Rightarrow> pass_input) \<Rightarrow> bool \<Rightarrow> string \<Rightarrow> llm_error option \<Rightarrow> recovery_end \<times> recovery" where
  "stream_final_answer_with_recovery env passes should_stop published_answer_text published_answer_error =
     (let max_continuations = get_final_answer_max_continuations env
      in case published_answer_error of
           None \<Rightarrow> recovery_loop max_continuations passes empty_recovery
         | Some exc \<Rightarrow>
             (let st = empty_recovery\<lparr>ra_raw_answer_chunks :=
                         (if published_answer_text = [] then [] else [published_answer_text]),
                       ra_reasons := [exc]\<rparr>
              in if ra_raw_answer_chunks st = [] \<or> max_continuations \<le> ra_continuation_count st \<or> should_stop
                 then (Recovered (Some exc), st)
                 else recovery_loop max_continuations passes (begin_continuation max_continuations st)))"

section \<open>One pass\<close>

text \<open>What a pass adds to the answer, read off its whole text: the reference for the streaming code.\<close>

definition continuation_text :: "string \<Rightarrow> string \<Rightarrow> string" where
  "continuation_text existing whole =
     (if looks_like_restarted_answer existing whole
      then (case splice_restarted_answer existing whole of None \<Rightarrow> [] | Some t \<Rightarrow> t)
      else strip_continuation_overlap existing whole)"

lemma strip_overlap_from_append:
  "n \<le> length h \<Longrightarrow> strip_overlap_from n e (h @ r) = strip_overlap_from n e h @ r"
  by (induction n) auto

lemma strip_append:
  "OVERLAP_CHARS \<le> length h \<Longrightarrow> strip_continuation_overlap e (h @ r) = strip_continuation_overlap e h @ r"
proof -
  assume h: "OVERLAP_CHARS \<le> length h"
  then have "min (min (length e) (length (h @ r))) OVERLAP_CHARS = min (min (length e) (length h)) OVERLAP_CHARS"
    by (cases r) (auto simp: min_def)
  then show ?thesis
    using h by (simp add: strip_continuation_overlap_def strip_overlap_from_append)
qed

lemma strip_nil [simp]: "strip_continuation_overlap e [] = []"
  by (simp add: strip_continuation_overlap_def)

lemma restarted_short [simp]: "length t < RESTART_PREFIX_CHARS \<Longrightarrow> \<not> looks_like_restarted_answer e t"
  by (simp add: looks_like_restarted_answer_def Let_def min_less_iff_disj)

lemma restarted_append:
  "RESTART_PREFIX_CHARS \<le> length t \<Longrightarrow> looks_like_restarted_answer e (t @ c) = looks_like_restarted_answer e t"
  by (simp add: looks_like_restarted_answer_def Let_def min_def)

lemma restarted_mono: "looks_like_restarted_answer e t \<Longrightarrow> looks_like_restarted_answer e (t @ c)"
  using restarted_short [of t e] restarted_append [of t e c] by (cases "length t < RESTART_PREFIX_CHARS") auto

text \<open>
  A continuation pass on the answer \<open>e\<close> that has received \<open>t\<close>: either everything is still held back, or the
  opening was long enough to be told apart and was published without what it repeats.
\<close>

definition pass_inv :: "string \<Rightarrow> string \<Rightarrow> recovery \<Rightarrow> bool" where
  "pass_inv e t st \<longleftrightarrow>
     0 < ra_continuation_count st \<and>
     (if ra_head_flushed st
      then answer_text st = e @ strip_continuation_overlap e t \<and> \<not> looks_like_restarted_answer e t \<and>
           OVERLAP_CHARS \<le> length t
      else answer_text st = e \<and> concat (ra_buffer st) = t \<and>
           ra_full_buffer_mode st = looks_like_restarted_answer e t \<and>
           (\<not> looks_like_restarted_answer e t \<longrightarrow> length t < OVERLAP_CHARS))"

lemma answer_publish [simp]: "answer_text (publish_text t st) = answer_text st @ t"
  by (simp add: publish_text_def)

lemma pass_inv_chunk:
  assumes "pass_inv e t st"
  shows "pass_inv e (t @ c) (take_chunk c st)"
proof (cases "c = [] \<or> ra_head_flushed st")
  case True
  then show ?thesis
    using assms strip_append [of t e c] restarted_append [of t e c]
    by (auto simp: take_chunk_def pass_inv_def publish_text_def split: if_splits)
next
  case False
  then show ?thesis
    using assms restarted_mono [of e t c]
    by (auto simp: take_chunk_def pass_inv_def flush_pass_def publish_text_def Let_def)
qed

lemma pass_inv_stream:
  assumes "pass_inv e t st" and "list_all (\<lambda>(stop, _). \<not> stop) cs"
  shows "\<exists>st'. stream_chunks cs st = (False, st') \<and> pass_inv e (t @ concat (map snd cs)) st'"
  using assms
proof (induction cs arbitrary: t st)
  case (Cons c cs)
  then show ?case
    using Cons.IH [OF pass_inv_chunk [OF Cons.prems(1), of "snd c"]] by (cases c) auto
qed auto

lemma pass_inv_flush:
  assumes "pass_inv e t st"
  shows "answer_text (flush_pass st) = e @ continuation_text e t"
  using assms by (auto simp: pass_inv_def flush_pass_def continuation_text_def Let_def split: option.splits if_splits)

lemma pass_inv_new: "0 < ra_continuation_count st \<Longrightarrow> pass_inv (answer_text st) [] (new_pass st)"
  by (simp add: pass_inv_def new_pass_def)

lemma run_pass_answer:
  assumes "stream_chunks (pi_chunks i) (new_pass st) = (False, st')" and "pi_raises i \<noteq> Some Other_Exception"
  shows "answer_text (snd (run_pass m i st)) = answer_text (flush_pass st')"
  using assms
  by (cases "pi_raises i"; cases "the (pi_raises i)")
     (auto simp: run_pass_def Let_def stalled_result_def begin_continuation_def)

section \<open>The whole recovery\<close>

text \<open>The published text only grows, and so does the answer with it.\<close>

definition grows :: "recovery \<Rightarrow> recovery \<Rightarrow> bool" where
  "grows st st' \<longleftrightarrow>
     (\<exists>more. answer_text st' = answer_text st @ more \<and> concat (ra_published st') = concat (ra_published st) @ more) \<and>
     ra_requests st' = ra_requests st \<and> ra_continuation_count st' = ra_continuation_count st"

lemma grows_refl [simp]: "grows st st"
  by (simp add: grows_def)

lemma grows_trans: "grows a b \<Longrightarrow> grows b c \<Longrightarrow> grows a c"
  by (auto simp: grows_def)

lemma grows_publish: "grows st (publish_text t st)"
  by (simp add: grows_def publish_text_def)

lemma grows_flush: "grows st (flush_pass st)"
  by (auto simp: flush_pass_def grows_def publish_text_def Let_def split: option.splits)

lemma grows_chunk: "grows st (take_chunk c st)"
proof -
  have "grows (st\<lparr>ra_buffer := b, ra_full_buffer_mode := f\<rparr>) st' \<Longrightarrow> grows st st'" for b f st'
    by (simp add: grows_def)
  moreover have "grows (st\<lparr>ra_buffer := b\<rparr>) st' \<Longrightarrow> grows st st'" for b st'
    by (simp add: grows_def)
  ultimately show ?thesis
    using grows_publish [of st c] grows_flush [of "st\<lparr>ra_buffer := ra_buffer st @ [c]\<rparr>"]
    by (auto simp: take_chunk_def Let_def grows_def)
qed

lemma grows_stream: "grows st (snd (stream_chunks cs st))"
proof (induction cs st rule: stream_chunks.induct)
  case (2 stop chunk rest st)
  then show ?case using grows_trans [OF grows_chunk] by auto
qed simp

lemma grows_new_pass: "grows st (new_pass st)"
  by (simp add: grows_def new_pass_def)

lemma grows_pass: "stream_chunks cs (new_pass st) = (b, st') \<Longrightarrow> grows st st' \<and> grows st (flush_pass st')"
  by (metis grows_flush grows_new_pass grows_stream grows_trans snd_conv)

lemma grows_results [simp]:
  "grows st (st'\<lparr>ra_reasons := r\<rparr>) = grows st st'"
  "grows st (st'\<lparr>ra_stalled := s\<rparr>) = grows st st'"
  by (simp_all add: grows_def)

lemma run_pass_ends:
  assumes "run_pass m i st = (Some e, st')"
  shows "grows st st'"
  using assms grows_pass [of "pi_chunks i" st]
  by (auto simp: run_pass_def Let_def stalled_result_def
      split: prod.splits bool.splits option.splits if_splits)

text \<open>Another request is made only when the pass before it added something.\<close>

lemma run_pass_continues:
  assumes "run_pass m i st = (None, st')"
  shows "\<exists>st1 r. grows st st1 \<and> st' = begin_continuation m (st1\<lparr>ra_reasons := r\<rparr>) \<and>
           (0 < ra_continuation_count st \<longrightarrow> length (answer_text st) < length (answer_text st1)) \<and>
           ra_continuation_count st < m"
  using assms grows_pass [of "pi_chunks i" st] run_pass_goes_on(1) [OF assms]
  by (fastforce simp: run_pass_def Let_def stalled_result_def grows_def not_le
      split: prod.splits bool.splits option.splits if_splits)

definition recovery_inv :: "string \<Rightarrow> recovery \<Rightarrow> bool" where
  "recovery_inv base st \<longleftrightarrow>
     answer_text st = base @ concat (ra_published st) \<and>
     ra_continuation_count st = int (length (ra_requests st)) \<and>
     sorted_wrt strict_prefix (ra_requests st) \<and>
     list_all (\<lambda>r. prefix r (answer_text st)) (ra_requests st)"

lemma recovery_inv_grows: "recovery_inv base st \<Longrightarrow> grows st st' \<Longrightarrow> recovery_inv base st'"
  by (auto simp: recovery_inv_def grows_def list_all_iff simp flip: append_assoc intro: prefix_prefix)

lemma recovery_inv_continues:
  assumes "recovery_inv base st" and "ra_requests st \<noteq> [] \<longrightarrow> last (ra_requests st) = answer_text st"
    and g: "grows st st1"
    and more: "0 < ra_continuation_count st \<longrightarrow> length (answer_text st) < length (answer_text st1)"
  shows "recovery_inv base (begin_continuation m (st1\<lparr>ra_reasons := r\<rparr>))"
proof -
  have inv: "recovery_inv base st1" using recovery_inv_grows [OF assms(1) g] .
  have "strict_prefix r (answer_text st1)" if "r \<in> set (ra_requests st1)" for r
  proof -
    have r: "prefix r (answer_text st)" "ra_continuation_count st \<noteq> 0"
      using that assms(1) g by (auto simp: recovery_inv_def grows_def list_all_iff)
    moreover have "0 \<le> ra_continuation_count st" using assms(1) by (simp add: recovery_inv_def)
    ultimately have "length (answer_text st) < length (answer_text st1)" using more by simp
    moreover have "prefix (answer_text st) (answer_text st1)" using g by (auto simp: grows_def)
    ultimately have "strict_prefix (answer_text st) (answer_text st1)" by (auto simp: strict_prefix_def)
    with r(1) show ?thesis by (rule prefix_order.le_less_trans)
  qed
  with inv show ?thesis
    by (auto simp: recovery_inv_def begin_continuation_def list_all_iff sorted_wrt_append)
qed

lemma recovery_loop_inv:
  assumes "recovery_inv base st" and "ra_requests st \<noteq> [] \<longrightarrow> last (ra_requests st) = answer_text st"
    and "ra_continuation_count st \<le> m" and "recovery_loop m passes st = (e, st')"
  shows "recovery_inv base st' \<and> ra_continuation_count st' \<le> m"
  using assms
proof (induction m passes st rule: recovery_loop.induct)
  case (1 m passes st)
  show ?case
  proof (cases "run_pass m (passes 0) st")
    case (Pair o1 st1)
    show ?thesis
    proof (cases o1)
      case None
      with Pair obtain st2 r where s: "grows st st2" "st1 = begin_continuation m (st2\<lparr>ra_reasons := r\<rparr>)"
          "0 < ra_continuation_count st \<longrightarrow> length (answer_text st) < length (answer_text st2)"
          "ra_continuation_count st < m"
        using run_pass_continues by blast
      have "recovery_inv base st1"
        using recovery_inv_continues [OF 1(2,3) s(1,3)] s(2) by simp
      moreover have "last (ra_requests st1) = answer_text st1" "ra_continuation_count st1 \<le> m"
        using s by (auto simp: begin_continuation_def grows_def)
      moreover have "recovery_loop m (\<lambda>n. passes (Suc n)) st1 = (e, st')"
        using 1(5) Pair None by (simp add: recovery_loop.simps [of m passes])
      ultimately show ?thesis using 1(1) [OF Pair [symmetric]] Pair None by auto
    next
      case (Some x)
      then have "st' = st1" using 1(5) Pair by (simp add: recovery_loop.simps [of m passes])
      moreover have "grows st st1" using run_pass_ends Pair Some by blast
      ultimately show ?thesis using recovery_inv_grows [OF 1(2)] 1(4) by (auto simp: grows_def)
    qed
  qed
qed

section \<open>Restarted answers\<close>

lemma rfind_found: "rfind pat s = Some p \<Longrightarrow> take (length pat) (drop p s) = pat"
  by (induction s arbitrary: p) (auto split: option.splits if_splits)

lemma rfind_last:
  assumes "take (length pat) (drop p s) = pat" and "pat \<noteq> []"
    and "\<And>q. p < q \<Longrightarrow> take (length pat) (drop q s) \<noteq> pat"
  shows "rfind pat s = Some p"
  using assms
proof (induction s arbitrary: p)
  case (Cons c cs)
  show ?case
  proof (cases p)
    case 0
    have "rfind pat cs = None"
      using rfind_found [of pat cs] Cons.prems(3) 0 by (metis drop_Suc_Cons not_None_eq zero_less_Suc)
    then show ?thesis using Cons.prems(1) 0 by simp
  next
    case (Suc p')
    have "rfind pat cs = Some p'"
    proof (rule Cons.IH)
      show "take (length pat) (drop q cs) \<noteq> pat" if "p' < q" for q
        using Cons.prems(3) [of "Suc q"] that Suc by simp
    qed (use Cons.prems Suc in auto)
    with Suc show ?thesis by simp
  qed
qed simp

definition anchor_chars :: "string \<Rightarrow> nat" where
  "anchor_chars existing =
     (if 320 \<le> length existing then 320 else if 200 \<le> length existing then 200
      else if 120 \<le> length existing then 120 else 64)"

lemma splice_verbatim:
  assumes "RESTART_PREFIX_CHARS \<le> length e"
    and "\<And>q. length e - anchor_chars e < q \<Longrightarrow>
           take (anchor_chars e) (drop q (e @ rest)) \<noteq> tail_of (anchor_chars e) e"
  shows "splice_restarted_answer e (e @ rest) = Some rest"
proof -
  have a: "anchor_chars e \<le> length e" "anchor_chars e \<noteq> 0"
    using assms(1) by (auto simp: anchor_chars_def)
  then have len: "length (tail_of (anchor_chars e) e) = anchor_chars e" by (simp add: tail_of_def)
  have "rfind (tail_of (anchor_chars e) e) (e @ rest) = Some (length e - anchor_chars e)"
    using a len assms(2) by (intro rfind_last) (auto simp: tail_of_def)
  then show ?thesis
    using a assms(1) by (auto simp: splice_restarted_answer_def anchor_chars_def split: if_splits)
qed

lemma restarted_verbatim: "RESTART_PREFIX_CHARS \<le> length e \<Longrightarrow> looks_like_restarted_answer e (e @ rest)"
  by (simp add: looks_like_restarted_answer_def Let_def min_def)

section \<open>Properties\<close>

definition never_stopped :: "pass_input \<Rightarrow> bool" where
  "never_stopped i \<longleftrightarrow> list_all (\<lambda>(stop, _). \<not> stop) (pi_chunks i)"

lemma pass_adds:
  assumes "0 < ra_continuation_count st" and "never_stopped i" and "pi_raises i \<noteq> Some Other_Exception"
  shows "answer_text (snd (run_pass m i st)) =
           answer_text st @ continuation_text (answer_text st) (concat (map snd (pi_chunks i)))"
proof -
  obtain st' where st': "stream_chunks (pi_chunks i) (new_pass st) = (False, st')"
      "pass_inv (answer_text st) (concat (map snd (pi_chunks i))) st'"
    using pass_inv_stream [OF pass_inv_new [OF assms(1)]] assms(2) by (auto simp: never_stopped_def)
  show ?thesis using run_pass_answer [OF st'(1) assms(3)] pass_inv_flush [OF st'(2)] by simp
qed

text \<open>
  C25: streaming a continuation gives what the same text gives when it is looked at as a whole.  However the
  provider cuts the text of a pass into chunks, and whether the pass ends normally or with an error of
  the language model, the answer grows by the continuation without what it repeats of the answer, or,
  when it starts the answer over, by what follows the answer's tail in it.
\<close>

theorem continuation_pass_chunking:
  assumes "0 < ra_continuation_count st" and "list_all (\<lambda>(stop, _). \<not> stop) (pi_chunks i)"
    and "pi_raises i \<noteq> Some Other_Exception"
  shows "answer_text (snd (run_pass max_continuations i st)) =
           answer_text st @ continuation_text (answer_text st) (concat (map snd (pi_chunks i)))"
  using pass_adds [OF assms(1) _ assms(3)] assms(2) by (simp add: never_stopped_def)

definition cut_off_answer :: recovery where
  "cut_off_answer =
     begin_continuation 3 (empty_recovery\<lparr>ra_raw_answer_chunks := [''The quick brown''], ra_reasons := [Output_Limit_Error]\<rparr>)"

theorem continuation_pass_chunking_witness:
  "answer_text (snd (run_pass 3 \<lparr>pi_chunks = [(False, ''brow''), (False, ''n fox'')], pi_raises = None, pi_stop = False\<rparr>
     cut_off_answer)) = ''The quick brown fox''"
proof -
  have "continuation_text ''The quick brown'' ''brown fox'' = '' fox''" by code_simp
  then show ?thesis
    using continuation_pass_chunking
      [of cut_off_answer "\<lparr>pi_chunks = [(False, ''brow''), (False, ''n fox'')], pi_raises = None, pi_stop = False\<rparr>" 3]
    by (simp add: cut_off_answer_def begin_continuation_def empty_recovery_def)
qed

text \<open>
  An answer that is written anew is not shown twice.  When a continuation repeats the answer so far (of
  at least 160 characters) word for word and goes on, and the tail by which it is joined does not occur
  again later, the answer becomes exactly what the model wrote, in whatever chunks it came.
\<close>

theorem restarted_answer_spliced:
  assumes "0 < ra_continuation_count st" and "list_all (\<lambda>(stop, _). \<not> stop) (pi_chunks i)"
    and "pi_raises i \<noteq> Some Other_Exception"
    and "concat (map snd (pi_chunks i)) = answer_text st @ rest" and "160 \<le> length (answer_text st)"
    and "\<forall>q > length (answer_text st) - anchor_chars (answer_text st).
           take (anchor_chars (answer_text st)) (drop q (answer_text st @ rest))
             \<noteq> tail_of (anchor_chars (answer_text st)) (answer_text st)"
  shows "answer_text (snd (run_pass max_continuations i st)) = concat (map snd (pi_chunks i))"
  using pass_adds [OF assms(1) _ assms(3), of max_continuations] assms(2,4-6)
    splice_verbatim [of "answer_text st" rest] restarted_verbatim [of "answer_text st" rest]
  by (simp add: never_stopped_def continuation_text_def)

definition long_answer :: string where
  "long_answer = replicate 159 CHR ''a'' @ ''b''"

lemma long_answer_anchor [simp]: "length long_answer = 160" "anchor_chars long_answer = 120"
  by (simp_all add: long_answer_def anchor_chars_def)

lemma long_answer_tail_once:
  "\<forall>q > 40. take 120 (drop q (long_answer @ ''c'')) \<noteq> tail_of 120 long_answer"
proof (intro allI impI)
  fix q :: nat
  assume q: "40 < q"
  show "take 120 (drop q (long_answer @ ''c'')) \<noteq> tail_of 120 long_answer"
  proof (cases "q = 41")
    case True
    then show ?thesis by (simp only: True) code_simp
  next
    case False
    then have "length (take 120 (drop q (long_answer @ ''c''))) < 120" using q by simp
    moreover have "length (tail_of 120 long_answer) = 120" by (simp add: tail_of_def)
    ultimately show ?thesis by (metis less_irrefl)
  qed
qed

theorem restarted_answer_spliced_witness:
  "answer_text (snd (run_pass 3 \<lparr>pi_chunks = [(False, long_answer), (False, ''c'')], pi_raises = None, pi_stop = False\<rparr>
     (begin_continuation 3 (empty_recovery\<lparr>ra_raw_answer_chunks := [long_answer]\<rparr>)))) = long_answer @ ''c''"
  using restarted_answer_spliced
    [of "begin_continuation 3 (empty_recovery\<lparr>ra_raw_answer_chunks := [long_answer]\<rparr>)"
        "\<lparr>pi_chunks = [(False, long_answer), (False, ''c'')], pi_raises = None, pi_stop = False\<rparr>" "''c''" 3]
    long_answer_tail_once
  by (simp add: begin_continuation_def empty_recovery_def)

text \<open>
  A cut-off answer is continued boundedly and never backwards.  The recovery ends; it makes at most the
  configured number of requests; each request carries more of the answer than the one before and a
  beginning of the final answer; and what was published, put behind the text that was there before, is the
  answer.
\<close>

theorem answer_recovery_bounded:
  assumes "stream_final_answer_with_recovery env passes stop published_answer_text err = (e, st)"
  shows "ra_continuation_count st \<le> get_final_answer_max_continuations env \<and>
         int (length (ra_requests st)) = ra_continuation_count st \<and>
         sorted_wrt strict_prefix (ra_requests st) \<and>
         list_all (\<lambda>r. prefix r (answer_text st)) (ra_requests st) \<and>
         answer_text st = (if err = None then [] else published_answer_text) @ concat (ra_published st)"
proof -
  let ?m = "get_final_answer_max_continuations env"
  let ?st = "empty_recovery\<lparr>ra_raw_answer_chunks :=
      (if published_answer_text = [] then [] else [published_answer_text]), ra_reasons := [the err]\<rparr>"
  have m: "0 \<le> ?m" by (simp add: get_final_answer_max_continuations_def split: option.splits)
  have base: "recovery_inv [] empty_recovery" "recovery_inv published_answer_text ?st"
    by (simp_all add: recovery_inv_def empty_recovery_def)
  have "recovery_inv (if err = None then [] else published_answer_text) st \<and> ra_continuation_count st \<le> ?m"
  proof (cases err)
    case None
    then show ?thesis
      using recovery_loop_inv [OF base(1), of ?m passes e st] assms m
      by (simp add: stream_final_answer_with_recovery_def empty_recovery_def)
  next
    case (Some exc)
    show ?thesis
    proof (cases "published_answer_text = [] \<or> ?m \<le> 0 \<or> stop")
      case True
      then have "st = ?st"
        using assms Some by (auto simp: stream_final_answer_with_recovery_def empty_recovery_def Let_def split: if_splits)
      then show ?thesis using base(2) Some m by (simp add: empty_recovery_def)
    next
      case False
      then have "recovery_loop ?m passes (begin_continuation ?m ?st) = (e, st)"
        using assms Some by (auto simp: stream_final_answer_with_recovery_def empty_recovery_def Let_def split: if_splits)
      moreover have "recovery_inv published_answer_text (begin_continuation ?m ?st)"
        by (simp add: recovery_inv_def begin_continuation_def empty_recovery_def)
      moreover have "last (ra_requests (begin_continuation ?m ?st)) = answer_text (begin_continuation ?m ?st)"
          "ra_continuation_count (begin_continuation ?m ?st) \<le> ?m"
        using False by (simp_all add: begin_continuation_def empty_recovery_def)
      ultimately have "recovery_inv published_answer_text st \<and> ra_continuation_count st \<le> ?m"
        using recovery_loop_inv [of published_answer_text "begin_continuation ?m ?st" ?m passes e st] by blast
      then show ?thesis using Some by simp
    qed
  qed
  then show ?thesis unfolding recovery_inv_def by (intro conjI) (blast, simp, blast+)
qed

definition fox_passes :: "nat \<Rightarrow> pass_input" where
  "fox_passes n =
     (if n = 0
      then \<lparr>pi_chunks = [(False, ''brown f'')], pi_raises = Some Output_Limit_Error, pi_stop = False\<rparr>
      else \<lparr>pi_chunks = [(False, ''fox'')], pi_raises = None, pi_stop = False\<rparr>)"

lemma fox_recovery:
  "stream_final_answer_with_recovery (\<lambda>_. None) fox_passes False ''The quick brown'' (Some Output_Limit_Error) =
     (Recovered None, snd (stream_final_answer_with_recovery (\<lambda>_. None) fox_passes False ''The quick brown''
        (Some Output_Limit_Error)))"
  by code_simp

theorem answer_recovery_bounded_witness:
  "let st = snd (stream_final_answer_with_recovery (\<lambda>_. None) fox_passes False ''The quick brown'' (Some Output_Limit_Error))
   in answer_text st = ''The quick brown fox'' \<and> ra_requests st = [''The quick brown'', ''The quick brown f''] \<and>
      sorted_wrt strict_prefix (ra_requests st) \<and> answer_text st = ''The quick brown'' @ concat (ra_published st)"
proof -
  let ?st = "snd (stream_final_answer_with_recovery (\<lambda>_. None) fox_passes False ''The quick brown'' (Some Output_Limit_Error))"
  have "answer_text ?st = ''The quick brown fox''" "ra_requests ?st = [''The quick brown'', ''The quick brown f'']"
    by code_simp+
  with answer_recovery_bounded [OF fox_recovery] show ?thesis by (simp add: Let_def)
qed

end
