(* ===== verification/Generation_Job.thy ===== *)
theory Generation_Job
  imports Coordinator Answer_Continuation "HOL-Library.Multiset"
begin

text \<open>
  One generation job (\<open>ChatGenerationJobBase\<close> of \<open>services/chat_generation_job_base.py\<close>): its event
  log, the draft shown ahead of the answer, stopping with the text produced so far, and the local
  stream of its events.  The text functions of other modules (\<open>strip_turn_state_update\<close>,
  \<open>normalize_response_with_artifacts\<close>, ...), the draft filter and the save
  callback are the argument \<open>job_env\<close>.  The calls a job makes to its callbacks are recorded in the
  trace fields \<open>jb_outbox\<close> (\<open>on_event\<close>), \<open>jb_saved\<close> (\<open>persist_response\<close>), \<open>jb_finish_calls\<close>
  (\<open>on_finished\<close>) and \<open>jb_error_calls\<close> (\<open>on_error\<close>).  Telemetry and logging are left out.
\<close>

type_synonym payload = "(string \<times> json) list"

record saved_reply =
  sr_response :: string
  sr_parts :: "json list option"
  sr_approval_ids :: "string list"

record job =
  jb_generation_id :: string
  jb_events :: "chat_event list"
  jb_next_sequence_id :: int
  jb_is_done :: bool
  jb_finished_at :: "ticks option"
  jb_on_finished_called :: bool
  jb_cancelled :: bool
  jb_response_persisted :: bool
  jb_chunks :: "string list"
  jb_pending_chunks :: "string list"
  jb_pending_is_internal :: bool
  jb_pending_is_rewrite :: bool
  jb_draft :: "(string \<times> string list) option"
  jb_draft_request :: "string option"
  jb_draft_visible :: bool
  jb_approval_cards :: "json list"
  jb_images :: "json list"
  jb_response :: string
  jb_error_message :: "string option"
  jb_next_cancel_check_at :: ticks
  jb_outbox :: "chat_event list"
  jb_saved :: "saved_reply list"
  jb_finish_calls :: nat
  jb_error_calls :: nat

record job_env =
  je_has_tools :: bool
  je_has_on_finished :: bool
  je_strip_turn_state :: "string \<Rightarrow> string"
  je_is_untagged_state :: "string list \<Rightarrow> string \<Rightarrow> bool"
  je_unconfirmed_claim :: "string \<Rightarrow> json list \<Rightarrow> string option"
  je_settle :: "json list \<Rightarrow> json list"
  je_normalize :: "string \<Rightarrow> string \<times> json list option"
  je_attach_images :: "string \<Rightarrow> json list \<Rightarrow> json list option \<Rightarrow> json list option"
  je_approval_part :: "json \<Rightarrow> json"
  je_persist :: "saved_reply \<Rightarrow> redis_exn + payload option"
  je_feed :: "string \<Rightarrow> string list \<Rightarrow> string \<Rightarrow> bool \<times> string"

section \<open>Publishing\<close>

definition mark_done :: "job_env \<Rightarrow> ticks \<Rightarrow> job \<Rightarrow> bool \<times> job" where
  "mark_done env now j =
     (if jb_is_done j then (False, j)
      else
        (let j = j\<lparr>jb_is_done := True, jb_finished_at := Some now\<rparr>
         in if jb_on_finished_called j \<or> \<not> je_has_on_finished env then (False, j)
            else (True, j\<lparr>jb_on_finished_called := True\<rparr>)))"

text \<open>
  \<open>_publish\<close> has two parts: under the condition's lock the event is numbered and appended (and the job
  marked done); after the lock is given up, the callbacks run.
\<close>

definition publish_append ::
  "job_env \<Rightarrow> ticks \<Rightarrow> string \<Rightarrow> payload \<Rightarrow> bool \<Rightarrow> job \<Rightarrow> (chat_event option \<times> bool) \<times> job" where
  "publish_append env now event p fin j =
     (if jb_is_done j then ((None, False), j)
      else
        (let e = \<lparr>ev_sequence_id = jb_next_sequence_id j, ev_event = event, ev_payload = p\<rparr>;
             j = j\<lparr>jb_next_sequence_id := jb_next_sequence_id j + 1, jb_events := jb_events j @ [e]\<rparr>;
             (callback, j) = (if fin then mark_done env now j else (False, j))
         in ((Some e, callback), j)))"

definition publish_deliver :: "chat_event option \<times> bool \<Rightarrow> job \<Rightarrow> job" where
  "publish_deliver ec j =
     (let j = (case fst ec of None \<Rightarrow> j | Some e \<Rightarrow> j\<lparr>jb_outbox := jb_outbox j @ [e]\<rparr>)
      in if snd ec then j\<lparr>jb_finish_calls := jb_finish_calls j + 1\<rparr> else j)"

definition publish :: "job_env \<Rightarrow> ticks \<Rightarrow> string \<Rightarrow> payload \<Rightarrow> bool \<Rightarrow> job \<Rightarrow> job" where
  "publish env now event p fin j =
     (let (ec, j) = publish_append env now event p fin j in publish_deliver ec j)"

section \<open>Saving once\<close>

definition persist_once ::
  "job_env \<Rightarrow> saved_reply \<Rightarrow> job \<Rightarrow> (redis_exn + payload option) \<times> job" where
  "persist_once env r j =
     (if jb_response_persisted j then (Inr None, j)
      else (je_persist env r, j\<lparr>jb_response_persisted := True, jb_saved := jb_saved j @ [r]\<rparr>))"

section \<open>The draft\<close>

definition reset_answer_draft :: "job_env \<Rightarrow> ticks \<Rightarrow> bool \<Rightarrow> job \<Rightarrow> job" where
  "reset_answer_draft env now confirming j =
     (if \<not> jb_draft_visible j then j
      else
        publish env now ''answer_draft_reset'' (if confirming then [(''confirming'', JBool True)] else [])
          False (j\<lparr>jb_draft_visible := False\<rparr>))"

definition new_answer_draft :: "job \<Rightarrow> (string \<times> string list) option" where
  "new_answer_draft j = map_option (\<lambda>req. (req, [])) (jb_draft_request j)"

definition restart_answer_draft :: "job_env \<Rightarrow> ticks \<Rightarrow> job \<Rightarrow> job" where
  "restart_answer_draft env now j =
     (let j = reset_answer_draft env now False j in j\<lparr>jb_draft := new_answer_draft j\<rparr>)"

definition begin_answer_draft :: "job_env \<Rightarrow> ticks \<Rightarrow> string \<Rightarrow> job \<Rightarrow> job" where
  "begin_answer_draft env now latest_user_message j =
     restart_answer_draft env now
       (j\<lparr>jb_draft_request := (if je_has_tools env then None else Some latest_user_message)\<rparr>)"

definition abandon_answer_draft :: "job_env \<Rightarrow> ticks \<Rightarrow> job \<Rightarrow> job" where
  "abandon_answer_draft env now j = (reset_answer_draft env now False j)\<lparr>jb_draft := None\<rparr>"

definition feed_answer_draft :: "job_env \<Rightarrow> ticks \<Rightarrow> string \<Rightarrow> job \<Rightarrow> job" where
  "feed_answer_draft env now piece j =
     (case jb_draft j of
        None \<Rightarrow> j
      | Some (request, fed) \<Rightarrow>
          if jb_cancelled j then j
          else
            (let (reset, txt) = je_feed env request fed piece;
                 j = j\<lparr>jb_draft := Some (request, fed @ [piece])\<rparr>;
                 j = (if reset then reset_answer_draft env now False j else j)
             in if txt = [] then j
                else publish env now ''answer_draft'' [(''text'', JStr txt)] False (j\<lparr>jb_draft_visible := True\<rparr>)))"

section \<open>Stopping\<close>

definition take_pending_answer_text :: "job_env \<Rightarrow> job \<Rightarrow> string \<times> job" where
  "take_pending_answer_text env j =
     (if jb_pending_chunks j = [] \<or> jb_pending_is_internal j then ([], j)
      else
        (let pending_text = je_strip_turn_state env (concat (jb_pending_chunks j));
             emptied = j\<lparr>jb_pending_chunks := [], jb_pending_is_rewrite := False\<rparr>
         in if je_is_untagged_state env (jb_pending_chunks j) pending_text then ([], emptied)
            else
              (let existing_text = concat (jb_chunks j);
                   should_splice =
                     (jb_pending_is_rewrite j \<or> looks_like_restarted_answer existing_text pending_text)
               in (if should_splice
                   then (case splice_restarted_answer existing_text pending_text of None \<Rightarrow> [] | Some t \<Rightarrow> t)
                   else strip_continuation_overlap existing_text pending_text, emptied))))"

definition has_executed_approval :: "json list \<Rightarrow> bool" where
  "has_executed_approval cards = list_ex (\<lambda>c. json_get ''decision'' c = JStr ''auto'') cards"

definition with_tool_approval_parts ::
  "job_env \<Rightarrow> json list option \<Rightarrow> string \<Rightarrow> json list \<Rightarrow> json list option" where
  "with_tool_approval_parts env message_parts txt cards =
     (if cards = [] then message_parts
      else
        (let base_parts =
               (case message_parts of
                  Some (p # ps) \<Rightarrow> p # ps
                | _ \<Rightarrow> if txt = [] then [] else [JObj [(''type'', JStr ''text''), (''text'', JStr txt)]])
         in Some (filter (\<lambda>p. json_get ''type'' p \<noteq> JStr ''interactive_buttons'') base_parts
                  @ map (je_approval_part env) cards)))"

definition settle_approvals_after_interruption :: "job_env \<Rightarrow> job \<Rightarrow> json list \<times> job" where
  "settle_approvals_after_interruption env j =
     (if \<not> je_has_tools env \<or> jb_approval_cards j = [] then (jb_approval_cards j, j)
      else (let settled = je_settle env (jb_approval_cards j)
            in (settled, j\<lparr>jb_approval_cards := settled\<rparr>)))"

definition card_id :: "json \<Rightarrow> string" where
  "card_id c = (case json_get ''id'' c of JStr s \<Rightarrow> s | JInt i \<Rightarrow> show_int i | _ \<Rightarrow> [])"

definition salvage_text :: "job_env \<Rightarrow> job \<Rightarrow> (string \<times> string) \<times> job" where
  "salvage_text env j =
     (let (pending_text, j) = take_pending_answer_text env j;
          j = (if pending_text = [] then j else j\<lparr>jb_chunks := jb_chunks j @ [pending_text]\<rparr>);
          partial_text = concat (jb_chunks j)
      in case (if je_has_tools env then je_unconfirmed_claim env partial_text (jb_approval_cards j) else None) of
           None \<Rightarrow> ((pending_text, partial_text), j)
         | Some fallback \<Rightarrow> ((fallback, fallback), j\<lparr>jb_chunks := [fallback]\<rparr>))"

text \<open>\<open>cancel\<close> up to the settled approval cards, and its end.\<close>

definition cancel_salvage :: "job_env \<Rightarrow> ticks \<Rightarrow> job \<Rightarrow> (string \<times> json list) \<times> job" where
  "cancel_salvage env now j =
     (let j = reset_answer_draft env now False (j\<lparr>jb_cancelled := True\<rparr>);
          ((pending_text, partial_text), j) = salvage_text env j;
          j = (if pending_text = [] then j
               else publish env now ''chunk'' [(''text'', JStr pending_text)] False j);
          (cards, j) = settle_approvals_after_interruption env j
      in ((partial_text, cards), j))"

definition cancel_finish :: "job_env \<Rightarrow> ticks \<Rightarrow> string \<Rightarrow> json list \<Rightarrow> job \<Rightarrow> job" where
  "cancel_finish env now partial_text cards j =
     (if py_strip partial_text = [] \<and> \<not> has_executed_approval cards
      then publish env now ''aborted'' [] True j
      else
        (let (bot_reply, parts) = je_normalize env partial_text;
             parts = (if jb_images j = [] then parts else je_attach_images env bot_reply (jb_images j) parts);
             parts = with_tool_approval_parts env parts bot_reply cards;
             (saved, j) =
               persist_once env
                 \<lparr>sr_response = bot_reply, sr_parts = parts, sr_approval_ids = map card_id cards\<rparr>
                 (j\<lparr>jb_response := bot_reply\<rparr>);
             aborted_payload =
               [(''response'', JStr bot_reply), (''partial'', JBool True)]
               @ (case parts of Some (p # ps) \<Rightarrow> [(''parts'', JArr (p # ps))] | _ \<Rightarrow> []);
             aborted_payload =
               (case saved of
                  Inr (Some meta) \<Rightarrow> foldl (\<lambda>d (k, v). AList.update k v d) aborted_payload meta
                | _ \<Rightarrow> aborted_payload)
         in publish env now ''aborted'' aborted_payload True j))"

definition cancel :: "job_env \<Rightarrow> ticks \<Rightarrow> job \<Rightarrow> job" where
  "cancel env now j =
     (if jb_is_done j then j
      else (let ((partial_text, cards), j) = cancel_salvage env now j
            in cancel_finish env now partial_text cards j))"

text \<open>
  \<open>_should_stop\<close>: \<open>requested\<close> is what the hook for remote stop requests answers (\<open>None\<close> without a hook,
  \<open>Some (Inl _)\<close> when it raises).
\<close>

definition should_stop ::
  "job_env \<Rightarrow> ticks \<Rightarrow> (redis_exn + bool) option \<Rightarrow> job \<Rightarrow> bool \<times> job" where
  "should_stop env now requested j =
     (if jb_cancelled j then (True, j)
      else case requested of
        None \<Rightarrow> (False, j)
      | Some r \<Rightarrow>
          if now < jb_next_cancel_check_at j then (False, j)
          else
            (let j = j\<lparr>jb_next_cancel_check_at := now + second\<rparr>
             in case r of
                  Inl _ \<Rightarrow> (False, j)
                | Inr b \<Rightarrow> (let j = (if b then cancel env now j else j) in (jb_cancelled j, j))))"

definition run_error_callback :: "bool \<Rightarrow> bool \<Rightarrow> job \<Rightarrow> job" where
  "run_error_callback invoke has_on_error j =
     (if \<not> invoke \<or> \<not> has_on_error then j else j\<lparr>jb_error_calls := jb_error_calls j + 1\<rparr>)"

definition handle_error ::
  "job_env \<Rightarrow> ticks \<Rightarrow> (string \<Rightarrow> string) \<Rightarrow> string \<Rightarrow> payload \<Rightarrow> bool \<Rightarrow> bool \<Rightarrow> job \<Rightarrow> job" where
  "handle_error env now translate message p invoke has_on_error j =
     (let localized_message = translate message;
          j = j\<lparr>jb_error_message := Some localized_message\<rparr>;
          p = AList.update ''message'' (JStr localized_message) p;
          j = run_error_callback invoke has_on_error j
      in publish env now ''error'' p True j)"

definition ensure_terminal_event ::
  "job_env \<Rightarrow> ticks \<Rightarrow> (string \<Rightarrow> string) \<Rightarrow> string \<Rightarrow> bool \<Rightarrow> job \<Rightarrow> job" where
  "ensure_terminal_event env now translate error_message has_on_error j =
     (if jb_is_done j then j
      else handle_error env now translate error_message
             [(''message'', JStr error_message), (''retryable'', JBool True)] (jb_chunks j = []) has_on_error j)"

section \<open>The local stream\<close>

text \<open>
  \<open>iter_events\<close>: each turn of the loop sees the log, the done flag and whether a heartbeat is due when its
  wait ends.
\<close>

record local_tick =
  lt_events :: "chat_event list"
  lt_done :: bool
  lt_beat :: bool

definition skip_old :: "int \<Rightarrow> chat_event list \<Rightarrow> nat \<Rightarrow> nat" where
  "skip_old after evs cursor =
     cursor + length (takeWhile (\<lambda>e. ev_sequence_id e \<le> after) (drop cursor evs))"

fun iter_events :: "int \<Rightarrow> nat \<Rightarrow> local_tick list \<Rightarrow> chat_event option list \<times> stream_end" where
  "iter_events after cursor [] = ([], StreamWaiting)"
| "iter_events after cursor (t # ts) =
     (let cursor = skip_old after (lt_events t) cursor
      in if cursor < length (lt_events t)
         then apfst ((#) (Some (lt_events t ! cursor))) (iter_events after (Suc cursor) ts)
         else if lt_done t then ([], StreamReturned)
         else if lt_beat t then apfst ((#) None) (iter_events after cursor ts)
         else iter_events after cursor ts)"

section \<open>Threads sharing a job\<close>

text \<open>
  The generation thread, the request thread that stops it and the cancel listener share a job.  Between
  the two parts of \<open>_publish\<close> a thread holds what it still has to hand to the callbacks; \<open>in_flight\<close>
  lists that for all threads.  A step is one critical section: appending an event (an event is
  published as the last one exactly when its name is terminal, as all call sites do), running the
  callbacks of one appended event, saving, or changing fields the log does not depend on.
\<close>

type_synonym job_sys = "job \<times> (chat_event option \<times> bool) list"

definition same_log :: "job \<Rightarrow> job \<Rightarrow> bool" where
  "same_log j j' \<longleftrightarrow>
     jb_events j' = jb_events j \<and> jb_next_sequence_id j' = jb_next_sequence_id j \<and>
     jb_is_done j' = jb_is_done j \<and> jb_on_finished_called j' = jb_on_finished_called j \<and>
     jb_response_persisted j' = jb_response_persisted j \<and> jb_saved j' = jb_saved j \<and>
     jb_outbox j' = jb_outbox j \<and> jb_finish_calls j' = jb_finish_calls j"

inductive job_step :: "job_env \<Rightarrow> job_sys \<Rightarrow> job_sys \<Rightarrow> bool" for env where
  append:
    "publish_append env now ev p (ev \<in> set TERMINAL_EVENTS) j = (ec, j') \<Longrightarrow>
     job_step env (j, fl) (j', fl @ [ec])"
| deliver: "job_step env (j, as @ ec # bs) (publish_deliver ec j, as @ bs)"
| persist: "persist_once env r j = (x, j') \<Longrightarrow> job_step env (j, fl) (j', fl)"
| other: "same_log j j' \<Longrightarrow> job_step env (j, fl) (j', fl)"

definition numbered :: "chat_event list \<Rightarrow> bool" where
  "numbered evs \<longleftrightarrow>
     (\<forall>i < length evs. ev_sequence_id (evs ! i) = int i + 1 \<and> (terminal (evs ! i) \<longrightarrow> Suc i = length evs))"

definition job_inv :: "job_sys \<Rightarrow> bool" where
  "job_inv s \<longleftrightarrow>
     (let (j, fl) = s
      in numbered (jb_events j) \<and> jb_next_sequence_id j = int (length (jb_events j)) + 1 \<and>
         (jb_is_done j \<longleftrightarrow> list_ex terminal (jb_events j)) \<and>
         (jb_on_finished_called j \<longrightarrow> jb_is_done j) \<and>
         jb_finish_calls j + length (filter snd fl) = (if jb_on_finished_called j then 1 else 0) \<and>
         length (jb_saved j) = (if jb_response_persisted j then 1 else 0) \<and>
         mset (jb_outbox j) + mset (List.map_filter fst fl) = mset (jb_events j))"

lemma numbered_append:
  assumes "numbered evs" and "\<not> list_ex terminal evs" and "ev_sequence_id e = int (length evs) + 1"
  shows "numbered (evs @ [e])"
  using assms by (auto simp: numbered_def nth_append list_ex_length less_Suc_eq)

lemma job_step_inv: "job_step env s s' \<Longrightarrow> job_inv s \<Longrightarrow> job_inv s'"
proof (induction rule: job_step.induct)
  case (append now ev p j ec j' fl)
  show ?case
  proof (cases "jb_is_done j")
    case True
    then show ?thesis using append by (auto simp: publish_append_def job_inv_def map_filter_def)
  next
    case False
    let ?e = "\<lparr>ev_sequence_id = jb_next_sequence_id j, ev_event = ev, ev_payload = p\<rparr>"
    have t: "terminal ?e \<longleftrightarrow> ev \<in> set TERMINAL_EVENTS" by (simp add: terminal_def)
    have n: "numbered (jb_events j @ [?e])"
      using append(2) False by (intro numbered_append) (auto simp: job_inv_def)
    define fin where "fin = (ev \<in> set TERMINAL_EVENTS)"
    define cb where "cb = (fin \<and> \<not> jb_on_finished_called j \<and> je_has_on_finished env)"
    have j': "ec = (Some ?e, cb)" "jb_events j' = jb_events j @ [?e]"
        "jb_next_sequence_id j' = jb_next_sequence_id j + 1" "jb_is_done j' = fin"
        "jb_on_finished_called j' = (jb_on_finished_called j \<or> cb)" "jb_saved j' = jb_saved j"
        "jb_response_persisted j' = jb_response_persisted j" "jb_outbox j' = jb_outbox j"
        "jb_finish_calls j' = jb_finish_calls j"
      using append(1) False unfolding cb_def fin_def [symmetric]
      by (auto simp: publish_append_def mark_done_def Let_def split: if_splits)
    have inv: "jb_next_sequence_id j = int (length (jb_events j)) + 1" "\<not> list_ex terminal (jb_events j)"
        "\<not> jb_on_finished_called j" "jb_finish_calls j + length (filter snd fl) = 0"
        "length (jb_saved j) = (if jb_response_persisted j then 1 else 0)"
        "mset (jb_outbox j) + mset (List.map_filter fst fl) = mset (jb_events j)"
      using append(2) False by (auto simp: job_inv_def)
    have cb: "cb \<Longrightarrow> fin" by (simp add: cb_def)
    show ?thesis
      using inv n t cb unfolding job_inv_def split fin_def [symmetric]
      by (simp add: j' map_filter_def)
  qed
next
  case (deliver j as ec bs)
  then show ?case
    by (cases ec; cases "fst ec")
       (auto simp: publish_deliver_def job_inv_def map_filter_def Let_def)
next
  case (persist r j x j' fl)
  then show ?case by (auto simp: persist_once_def job_inv_def split: if_splits)
next
  case (other j j' fl)
  then show ?case by (auto simp: same_log_def job_inv_def)
qed

lemma job_reachable_inv: "(job_step env)\<^sup>*\<^sup>* s s' \<Longrightarrow> job_inv s \<Longrightarrow> job_inv s'"
  by (induction rule: rtranclp_induct) (auto intro: job_step_inv)

lemma job_step_frozen:
  "job_step env s s' \<Longrightarrow> jb_is_done (fst s) \<Longrightarrow> jb_events (fst s') = jb_events (fst s) \<and> jb_is_done (fst s')"
  by (induction rule: job_step.induct)
     (auto simp: publish_append_def publish_deliver_def persist_once_def same_log_def Let_def
        split: if_splits option.splits)

definition new_job :: "string \<Rightarrow> job" where
  "new_job generation_id =
     \<lparr>jb_generation_id = generation_id, jb_events = [], jb_next_sequence_id = 1, jb_is_done = False,
      jb_finished_at = None, jb_on_finished_called = False, jb_cancelled = False,
      jb_response_persisted = False, jb_chunks = [], jb_pending_chunks = [],
      jb_pending_is_internal = False, jb_pending_is_rewrite = False, jb_draft = None,
      jb_draft_request = None, jb_draft_visible = False, jb_approval_cards = [], jb_images = [],
      jb_response = [], jb_error_message = None, jb_next_cancel_check_at = 0, jb_outbox = [],
      jb_saved = [], jb_finish_calls = 0, jb_error_calls = 0\<rparr>"

lemma job_inv_new: "job_inv (new_job g, [])"
  by (simp add: job_inv_def new_job_def numbered_def map_filter_simps)

section \<open>One thread\<close>

text \<open>With one publishing thread the callbacks see the log in order.\<close>

lemma publish_outbox: "jb_outbox j = jb_events j \<Longrightarrow> jb_outbox (publish env now ev p fin j) = jb_events (publish env now ev p fin j)"
  by (auto simp: publish_def publish_append_def publish_deliver_def mark_done_def Let_def split: prod.splits if_splits)

lemma publish_fields [simp]:
  "jb_cancelled (publish env now ev p fin j) = jb_cancelled j"
  "jb_draft_visible (publish env now ev p fin j) = jb_draft_visible j"
  "jb_saved (publish env now ev p fin j) = jb_saved j"
  "jb_response_persisted (publish env now ev p fin j) = jb_response_persisted j"
  "jb_chunks (publish env now ev p fin j) = jb_chunks j"
  "jb_pending_chunks (publish env now ev p fin j) = jb_pending_chunks j"
  "jb_pending_is_internal (publish env now ev p fin j) = jb_pending_is_internal j"
  "jb_pending_is_rewrite (publish env now ev p fin j) = jb_pending_is_rewrite j"
  "jb_approval_cards (publish env now ev p fin j) = jb_approval_cards j"
  "jb_images (publish env now ev p fin j) = jb_images j"
  "jb_is_done (publish env now ev p fin j) = (jb_is_done j \<or> fin)"
  "jb_events (publish env now ev p fin j) =
     (if jb_is_done j then jb_events j
      else jb_events j @ [\<lparr>ev_sequence_id = jb_next_sequence_id j, ev_event = ev, ev_payload = p\<rparr>])"
  by (auto simp: publish_def publish_append_def publish_deliver_def mark_done_def Let_def split: prod.splits if_splits)

lemma reset_draft_fields [simp]:
  "jb_draft_visible (reset_answer_draft env now c j) = False"
  "jb_is_done (reset_answer_draft env now c j) = jb_is_done j"
  "jb_cancelled (reset_answer_draft env now c j) = jb_cancelled j"
  "jb_saved (reset_answer_draft env now c j) = jb_saved j"
  "jb_response_persisted (reset_answer_draft env now c j) = jb_response_persisted j"
  "jb_chunks (reset_answer_draft env now c j) = jb_chunks j"
  "jb_pending_chunks (reset_answer_draft env now c j) = jb_pending_chunks j"
  "jb_pending_is_internal (reset_answer_draft env now c j) = jb_pending_is_internal j"
  "jb_pending_is_rewrite (reset_answer_draft env now c j) = jb_pending_is_rewrite j"
  "jb_approval_cards (reset_answer_draft env now c j) = jb_approval_cards j"
  "jb_images (reset_answer_draft env now c j) = jb_images j"
  by (simp_all add: reset_answer_draft_def)

text \<open>Whether a reader of the log has a draft on screen.\<close>

definition draft_open :: "chat_event list \<Rightarrow> bool" where
  "draft_open evs =
     foldl (\<lambda>b e. if ev_event e = ''answer_draft'' then True
                  else if ev_event e = ''answer_draft_reset'' then False else b) False evs"

lemma draft_open_append [simp]:
  "draft_open (evs @ [e]) =
     (if ev_event e = ''answer_draft'' then True
      else if ev_event e = ''answer_draft_reset'' then False else draft_open evs)"
  by (simp add: draft_open_def)

lemma reset_draft_open:
  "\<not> jb_is_done j \<Longrightarrow> jb_draft_visible j = draft_open (jb_events j) \<Longrightarrow>
   \<not> draft_open (jb_events (reset_answer_draft env now c j))"
  by (simp add: reset_answer_draft_def)

lemma salvage_fields:
  assumes "salvage_text env j = ((pending, partial), j')"
  shows "jb_events j' = jb_events j \<and> jb_is_done j' = jb_is_done j \<and> jb_draft_visible j' = jb_draft_visible j \<and>
         jb_saved j' = jb_saved j \<and> jb_response_persisted j' = jb_response_persisted j \<and>
         jb_cancelled j' = jb_cancelled j"
  using assms
  by (auto simp: salvage_text_def take_pending_answer_text_def Let_def split: if_splits prod.splits option.splits)

lemma settle_fields:
  assumes "settle_approvals_after_interruption env j = (cards, j')"
  shows "jb_events j' = jb_events j \<and> jb_is_done j' = jb_is_done j \<and> jb_draft_visible j' = jb_draft_visible j \<and>
         jb_saved j' = jb_saved j \<and> jb_response_persisted j' = jb_response_persisted j \<and>
         jb_cancelled j' = jb_cancelled j"
  using assms by (auto simp: settle_approvals_after_interruption_def Let_def split: if_splits)

lemma salvage_cong:
  assumes "jb_chunks j' = jb_chunks j" and "jb_pending_chunks j' = jb_pending_chunks j"
    and "jb_pending_is_internal j' = jb_pending_is_internal j"
    and "jb_pending_is_rewrite j' = jb_pending_is_rewrite j" and "jb_approval_cards j' = jb_approval_cards j"
  shows "fst (salvage_text env j') = fst (salvage_text env j)"
  using assms
  by (auto simp: salvage_text_def take_pending_answer_text_def Let_def split: if_splits prod.splits option.splits)

lemma persist_once_cases:
  assumes "persist_once env r j = (x, j')"
  shows "jb_events j' = jb_events j \<and> jb_is_done j' = jb_is_done j \<and> jb_draft_visible j' = jb_draft_visible j \<and>
         jb_cancelled j' = jb_cancelled j \<and> jb_response_persisted j' \<and>
         jb_saved j' = (if jb_response_persisted j then jb_saved j else jb_saved j @ [r])"
  using assms by (auto simp: persist_once_def split: if_splits)

lemma cancel_salvage_facts:
  assumes "\<not> jb_is_done j" and "jb_draft_visible j = draft_open (jb_events j)"
    and "cancel_salvage env now j = ((partial, cards), j')"
  shows "\<not> jb_is_done j'" and "\<not> jb_draft_visible j'" and "\<not> draft_open (jb_events j')"
    and "jb_saved j' = jb_saved j" and "jb_response_persisted j' = jb_response_persisted j" and "jb_cancelled j'"
    and "partial = snd (fst (salvage_text env j))"
proof -
  let ?j1 = "reset_answer_draft env now False (j\<lparr>jb_cancelled := True\<rparr>)"
  obtain pend part j2 where s: "salvage_text env ?j1 = ((pend, part), j2)" by (metis prod.exhaust)
  let ?j3 = "if pend = [] then j2 else publish env now ''chunk'' [(''text'', JStr pend)] False j2"
  obtain cs j4 where st: "settle_approvals_after_interruption env ?j3 = (cs, j4)" by fastforce
  have eq: "partial = part" "cards = cs" "j' = j4"
    using assms(3) s st by (auto simp: cancel_salvage_def Let_def)
  have d: "\<not> draft_open (jb_events ?j1)" using assms(1,2) by (intro reset_draft_open) auto
  note f = salvage_fields [OF s] settle_fields [OF st]
  show "\<not> jb_is_done j'" "\<not> jb_draft_visible j'" "\<not> draft_open (jb_events j')"
    "jb_saved j' = jb_saved j" "jb_response_persisted j' = jb_response_persisted j" "jb_cancelled j'"
    using f d assms(1) eq by (auto split: if_splits)
  have "fst (salvage_text env ?j1) = fst (salvage_text env j)" by (rule salvage_cong) auto
  then show "partial = snd (fst (salvage_text env j))" using s eq by (metis fst_conv snd_conv)
qed

lemma cancel_finish_facts:
  assumes "\<not> jb_is_done j"
  shows "\<exists>e. jb_events (cancel_finish env now partial cards j) = jb_events j @ [e] \<and> ev_event e = ''aborted''"
    and "jb_is_done (cancel_finish env now partial cards j)"
    and "jb_draft_visible (cancel_finish env now partial cards j) = jb_draft_visible j"
    and "jb_cancelled (cancel_finish env now partial cards j) = jb_cancelled j"
    and "py_strip partial \<noteq> [] \<Longrightarrow> \<not> jb_response_persisted j \<Longrightarrow>
         \<exists>r. jb_saved (cancel_finish env now partial cards j) = jb_saved j @ [r] \<and>
             sr_response r = fst (je_normalize env partial)"
    and "jb_response_persisted j \<Longrightarrow> jb_saved (cancel_finish env now partial cards j) = jb_saved j"
  using assms by (auto simp: cancel_finish_def persist_once_def Let_def split_beta)

section \<open>The local stream follows the log\<close>

lemma length_takeWhile_index:
  assumes "\<And>i. i < length xs \<Longrightarrow> P (xs ! i) \<longleftrightarrow> i < n"
  shows "length (takeWhile P xs) = min n (length xs)"
  using assms
proof (induction xs arbitrary: n)
  case (Cons x xs)
  have x: "P x \<longleftrightarrow> 0 < n" using Cons.prems [of 0] by simp
  have "length (takeWhile P xs) = min (n - 1) (length xs)"
  proof (rule Cons.IH)
    fix i assume "i < length xs"
    then show "P (xs ! i) \<longleftrightarrow> i < n - 1" using Cons.prems [of "Suc i"] by auto
  qed
  then show ?case using x by (cases n) auto
qed simp

lemma skip_old_log:
  assumes "numbered evs" and "c \<le> length evs"
  shows "skip_old (int k) (take c evs) cursor =
           (if cursor < k then max cursor (min k c) else cursor)"
proof -
  have seq: "ev_sequence_id (drop cursor (take c evs) ! i) \<le> int k \<longleftrightarrow> cursor + i < k"
    if "i < length (drop cursor (take c evs))" for i
  proof -
    have "cursor + i < length evs" "drop cursor (take c evs) ! i = evs ! (cursor + i)"
      using nth_drop_take [OF that] by auto
    then show ?thesis using assms(1) by (auto simp: numbered_def)
  qed
  have len: "length (takeWhile (\<lambda>e. ev_sequence_id e \<le> int k) (drop cursor (take c evs))) =
      min (k - cursor) (length (drop cursor (take c evs)))"
    by (rule length_takeWhile_index) (use seq in \<open>simp add: less_diff_conv add.commute\<close>)
  show ?thesis unfolding skip_old_def len using assms(2) by auto
qed

lemma iter_events_follows:
  assumes "numbered evs" and "cursor \<le> length evs"
    and "list_all (\<lambda>t. list_ex (\<lambda>c. lt_events t = take c evs \<and> (lt_done t \<longrightarrow> c = length evs))
            [0..<Suc (length evs)]) ts"
  shows "follows evs True (max cursor k) (iter_events (int k) cursor ts)"
  using assms(2,3)
proof (induction ts arbitrary: cursor)
  case Nil
  then show ?case by (simp add: follows_nothing)
next
  case (Cons t ts)
  have "\<exists>c \<in> set [0..<Suc (length evs)]. lt_events t = take c evs \<and> (lt_done t \<longrightarrow> c = length evs)"
    using Cons.prems(2) by (simp only: list_ex_iff list.pred_inject)
  then obtain c where c: "lt_events t = take c evs" "lt_done t \<longrightarrow> c = length evs" "c \<le> length evs"
    by (metis atLeastLessThan_iff atLeastLessThan_upt less_Suc_eq_le)
  let ?k = "skip_old (int k) (lt_events t) cursor"
  have sk: "?k = (if cursor < k then max cursor (min k c) else cursor)"
    using skip_old_log [OF assms(1) c(3)] c(1) by simp
  have rest: "follows evs True (max i k) (iter_events (int k) i ts)" if "i \<le> length evs" for i
    using Cons that by auto
  show ?case
  proof (cases "?k < length (lt_events t)")
    case True
    then have k: "?k = max cursor k" "?k < c" "?k < length evs" using sk c Cons.prems(1) by (auto split: if_splits)
    have "follows evs True (Suc ?k) (iter_events (int k) (Suc ?k) ts)"
      using rest [of "Suc ?k"] k by (simp add: max_def split: if_splits)
    from follows_one [OF this k(3)]
    have "follows evs True ?k (apfst ((#) (Some (evs ! ?k))) (iter_events (int k) (Suc ?k) ts))" .
    then show ?thesis using True k c by (simp add: Let_def)
  next
    case False
    then have k: "max ?k k = max cursor k" "?k \<le> length evs" using sk c Cons.prems(1) by (auto split: if_splits)
    have go: "follows evs True (max cursor k) (iter_events (int k) ?k ts)" using rest [OF k(2)] k(1) by simp
    have beat: "follows evs True (max cursor k) (apfst ((#) None) (iter_events (int k) ?k ts))"
      using go by (auto simp: follows_def)
    have fin: "lt_done t \<Longrightarrow> drop (max cursor k) evs = []" using False sk c by (auto split: if_splits)
    show ?thesis using False go beat fin by (auto simp: Let_def intro: follows_nothing)
  qed
qed

section \<open>Properties\<close>

text \<open>
  C24: whatever the threads of a job do in whatever order, its log stays sound: events are numbered
  1, 2, 3, ... without gaps, a terminal event can only be the last one, the reply is saved at most once,
  the finish callback runs at most once, and every event is handed to the distributed stream at most
  once, exactly once when no thread is in the middle of publishing.
\<close>

theorem job_log_sound:
  assumes "(job_step env)\<^sup>*\<^sup>* (new_job g, []) (j, fl)"
  shows "numbered (jb_events j) \<and> (jb_is_done j \<longleftrightarrow> list_ex terminal (jb_events j)) \<and>
         length (jb_saved j) \<le> 1 \<and> jb_finish_calls j \<le> 1 \<and>
         mset (jb_outbox j) \<subseteq># mset (jb_events j) \<and> (fl = [] \<longrightarrow> mset (jb_outbox j) = mset (jb_events j))"
proof -
  have inv: "job_inv (j, fl)" by (rule job_reachable_inv [OF assms job_inv_new])
  then have "mset (jb_outbox j) + mset (List.map_filter fst fl) = mset (jb_events j)" by (simp add: job_inv_def)
  then have "mset (jb_outbox j) \<subseteq># mset (jb_events j)" by (metis mset_subset_eq_add_left)
  with inv show ?thesis by (auto simp: job_inv_def map_filter_simps split: if_splits)
qed

text \<open>An environment for examples: no tools, a reply is saved as it is.\<close>

definition example_env :: job_env where
  "example_env =
     \<lparr>je_has_tools = False, je_has_on_finished = True, je_strip_turn_state = (\<lambda>s. s),
      je_is_untagged_state = (\<lambda>_ _. False), 
      je_unconfirmed_claim = (\<lambda>_ _. None),
      je_settle = (\<lambda>c. c), je_normalize = (\<lambda>s. (s, None)), je_attach_images = (\<lambda>_ _ p. p),
      je_approval_part = (\<lambda>c. c), je_persist = (\<lambda>_. Inr None), je_feed = (\<lambda>_ _ p. (False, p))\<rparr>"

lemma publish_steps:
  assumes "fin = (ev \<in> set TERMINAL_EVENTS)"
  shows "(job_step env)\<^sup>*\<^sup>* (j, fl) (publish env now ev p fin j, fl)"
proof -
  obtain ec j' where a: "publish_append env now ev p fin j = (ec, j')" by fastforce
  have "job_step env (j, fl) (j', fl @ [ec])" using job_step.append a assms by blast
  moreover have "job_step env (j', fl @ [ec]) (publish_deliver ec j', fl)"
    using job_step.deliver [of env j' fl ec "[]"] by simp
  ultimately show ?thesis using a by (simp add: publish_def)
qed

theorem job_log_sound_witness:
  "numbered (jb_events (publish example_env 5 ''done'' [] True (new_job ''g'')))"
proof -
  have "(job_step example_env)\<^sup>*\<^sup>* (new_job ''g'', []) (publish example_env 5 ''done'' [] True (new_job ''g''), [])"
    by (rule publish_steps) (simp add: TERMINAL_EVENTS_def)
  from job_log_sound [OF this] show ?thesis by blast
qed

text \<open>
  A finished job is frozen: no thread can add to its log any more.
\<close>

theorem finished_job_frozen:
  assumes "(job_step env)\<^sup>*\<^sup>* s s'" and "jb_is_done (fst s)"
  shows "jb_events (fst s') = jb_events (fst s) \<and> jb_is_done (fst s')"
  using assms by (induction rule: rtranclp_induct) (auto dest: job_step_frozen)

theorem finished_job_frozen_witness:
  "let j = publish example_env 5 ''done'' [] True (new_job ''g'')
   in jb_events (publish example_env 6 ''chunk'' [] False j) = jb_events j"
proof -
  let ?j = "publish example_env 5 ''done'' [] True (new_job ''g'')"
  have "(job_step example_env)\<^sup>*\<^sup>* (?j, []) (publish example_env 6 ''chunk'' [] False ?j, [])"
    by (rule publish_steps) (simp add: TERMINAL_EVENTS_def)
  from finished_job_frozen [OF this] show ?thesis by (simp only: fst_conv publish_fields Let_def) simp
qed

text \<open>
  The callbacks run outside the lock that numbers the events, so the distributed stream can receive
  two events of two threads in the opposite order: here a chunk of the generation thread is overtaken
  by the terminal event of the thread that stops the job.
\<close>

theorem callbacks_can_overtake:
  "\<exists>j. (job_step example_env)\<^sup>*\<^sup>* (new_job ''g'', []) (j, []) \<and>
       map ev_event (jb_events j) = [''chunk'', ''aborted''] \<and>
       map ev_event (jb_outbox j) = [''aborted'', ''chunk'']"
proof -
  obtain ec1 j1 where a1: "publish_append example_env 1 ''chunk'' [] False (new_job ''g'') = (ec1, j1)" by fastforce
  obtain ec2 j2 where a2: "publish_append example_env 2 ''aborted'' [] True j1 = (ec2, j2)" by fastforce
  have "job_step example_env (new_job ''g'', []) (j1, [] @ [ec1])"
    by (rule job_step.append [of _ 1 "''chunk''" "[]"]) (use a1 in \<open>simp add: TERMINAL_EVENTS_def\<close>)
  moreover have "job_step example_env (j1, [ec1]) (j2, [ec1] @ [ec2])"
    by (rule job_step.append [of _ 2 "''aborted''" "[]"]) (use a2 in \<open>simp add: TERMINAL_EVENTS_def\<close>)
  moreover have "job_step example_env (j2, [ec1] @ ec2 # []) (publish_deliver ec2 j2, [ec1] @ [])"
    by (rule job_step.deliver)
  moreover have "job_step example_env (publish_deliver ec2 j2, [] @ ec1 # [])
      (publish_deliver ec1 (publish_deliver ec2 j2), [] @ [])"
    by (rule job_step.deliver)
  ultimately have "(job_step example_env)\<^sup>*\<^sup>* (new_job ''g'', []) (publish_deliver ec1 (publish_deliver ec2 j2), [])"
    by (auto intro: converse_rtranclp_into_rtranclp)
  then show ?thesis
    using a1 a2 by (intro exI [of _ "publish_deliver ec1 (publish_deliver ec2 j2)"] conjI)
      (auto simp: publish_append_def mark_done_def publish_deliver_def new_job_def example_env_def Let_def)
qed

text \<open>
  Stopping a running job.  It ends with an \<open>aborted\<close> event, no draft stays on screen, and text that was
  produced and not yet saved is saved (after normalisation); a reply that was saved before is not saved
  again.
\<close>

theorem cancel_running_job:
  assumes "\<not> jb_is_done j" and "jb_draft_visible j = draft_open (jb_events j)"
    and "partial = snd (fst (salvage_text env j))"
  shows "jb_is_done (cancel env now j) \<and> jb_cancelled (cancel env now j) \<and>
         ev_event (last (jb_events (cancel env now j))) = ''aborted'' \<and>
         \<not> draft_open (jb_events (cancel env now j)) \<and>
         (jb_response_persisted j \<longrightarrow> jb_saved (cancel env now j) = jb_saved j) \<and>
         (\<not> jb_response_persisted j \<and> py_strip partial \<noteq> [] \<longrightarrow>
            (\<exists>r. jb_saved (cancel env now j) = jb_saved j @ [r] \<and> sr_response r = fst (je_normalize env partial)))"
proof -
  obtain part cards j1 where s: "cancel_salvage env now j = ((part, cards), j1)" by (metis prod.exhaust)
  note f = cancel_salvage_facts [OF assms(1,2) s]
  have c: "cancel env now j = cancel_finish env now partial cards j1"
    using assms(1,3) s f(7) by (simp add: cancel_def)
  note g = cancel_finish_facts [where j = j1 and env = env and now = now and partial = partial and cards = cards, OF f(1)]
  show ?thesis unfolding c using f g by auto
qed

theorem cancel_running_job_witness:
  "let j = (new_job ''g'')\<lparr>jb_chunks := [''Hello'']\<rparr>
   in map sr_response (jb_saved (cancel example_env 7 j)) = [''Hello''] \<and> jb_is_done (cancel example_env 7 j)"
proof -
  let ?j = "(new_job ''g'')\<lparr>jb_chunks := [''Hello'']\<rparr>"
  have "snd (fst (salvage_text example_env ?j)) = ''Hello''" "py_strip ''Hello'' \<noteq> []" by code_simp+
  then show ?thesis
    using cancel_running_job [of ?j "''Hello''" example_env 7]
    by (auto simp: new_job_def draft_open_def example_env_def)
qed

text \<open>
  Following a job in its own process.  Whatever prefixes of the log a reader finds when it wakes up,
  it yields the events after position \<open>k\<close> in order, none twice and none left out, and it returns only
  after the last one.
\<close>

theorem local_stream_exact:
  assumes "numbered evs"
    and "list_all (\<lambda>t. list_ex (\<lambda>c. lt_events t = take c evs \<and> (lt_done t \<longrightarrow> c = length evs))
            [0..<Suc (length evs)]) ts"
    and "iter_events (int k) 0 ts = (ys, r)"
  shows "(\<exists>m. yielded ys = take m (drop k evs)) \<and> (r = StreamReturned \<longrightarrow> yielded ys = drop k evs)"
  using iter_events_follows [OF assms(1) _ assms(2), of 0 k] assms(3) by (simp add: follows_def)

theorem local_stream_exact_witness:
  "let ts = [\<lparr>lt_events = take 1 example_log, lt_done = False, lt_beat = False\<rparr>,
             \<lparr>lt_events = take 1 example_log, lt_done = False, lt_beat = True\<rparr>,
             \<lparr>lt_events = example_log, lt_done = True, lt_beat = False\<rparr>,
             \<lparr>lt_events = example_log, lt_done = True, lt_beat = False\<rparr>]
   in yielded (fst (iter_events (int 0) 0 ts)) = example_log"
proof -
  let ?ts = "[\<lparr>lt_events = take 1 example_log, lt_done = False, lt_beat = False\<rparr>,
             \<lparr>lt_events = take 1 example_log, lt_done = False, lt_beat = True\<rparr>,
             \<lparr>lt_events = example_log, lt_done = True, lt_beat = False\<rparr>,
             \<lparr>lt_events = example_log, lt_done = True, lt_beat = False\<rparr>]"
  have "numbered example_log"
    using example_log_ok by (auto simp: numbered_def log_ok_def list_all_iff)
  moreover have "list_all (\<lambda>t. list_ex (\<lambda>c. lt_events t = take c example_log \<and> (lt_done t \<longrightarrow> c = length example_log))
            [0..<Suc (length example_log)]) ?ts" by code_simp
  moreover have "snd (iter_events (int 0) 0 ?ts) = StreamReturned" by code_simp
  ultimately have "yielded (fst (iter_events (int 0) 0 ?ts)) = drop 0 example_log"
    using local_stream_exact [OF _ _ prod.collapse [symmetric], of example_log ?ts 0] by blast
  then show ?thesis unfolding Let_def by (simp only: drop_0)
qed

end
