(* ===== verification/Generation_Executor.thy ===== *)
theory Generation_Executor
  imports Env_Settings
begin

text \<open>
  \<open>services/chat_generation_executor.py\<close>: admission to the thread pool of the generation jobs.  The pool is
  created on first use with as many threads as the setting allows; a job takes a slot when it is
  admitted and gives it back when it is done.  Running a submitted function is the library's business;
  \<open>accepted\<close> says whether \<open>ThreadPoolExecutor.submit\<close> took it or raised.
\<close>

record gen_executor =
  gx_created :: bool
  gx_capacity :: int
  gx_in_flight :: int

datatype executor_error = CapacityError | SubmitError

abbreviation (input) DEFAULT_GENERATION_WORKER_THREADS :: int where
  "DEFAULT_GENERATION_WORKER_THREADS \<equiv> 256"

definition new_executor :: gen_executor where
  "new_executor = \<lparr>gx_created = False, gx_capacity = 0, gx_in_flight = 0\<rparr>"

definition worker_threads :: "environ \<Rightarrow> int" where
  "worker_threads env =
     env_int env ''CHAT_GENERATION_WORKER_THREADS'' DEFAULT_GENERATION_WORKER_THREADS (Some 1)"

definition ensure_executor :: "environ \<Rightarrow> gen_executor \<Rightarrow> gen_executor" where
  "ensure_executor env x =
     (if gx_created x then x else x\<lparr>gx_capacity := worker_threads env, gx_created := True\<rparr>)"

definition capacity :: "environ \<Rightarrow> gen_executor \<Rightarrow> int \<times> gen_executor" where
  "capacity env x = (let x = ensure_executor env x in (gx_capacity x, x))"

definition release_slot :: "gen_executor \<Rightarrow> gen_executor" where
  "release_slot x = x\<lparr>gx_in_flight := max (gx_in_flight x - 1) 0\<rparr>"

definition submit_task :: "environ \<Rightarrow> bool \<Rightarrow> gen_executor \<Rightarrow> (executor_error + unit) \<times> gen_executor" where
  "submit_task env accepted x =
     (let x = ensure_executor env x
      in if gx_capacity x \<le> gx_in_flight x then (Inl CapacityError, x)
         else
           (let x = x\<lparr>gx_in_flight := gx_in_flight x + 1\<rparr>
            in if accepted then (Inr (), x) else (Inl SubmitError, release_slot x)))"

definition shutdown :: "gen_executor \<Rightarrow> gen_executor" where
  "shutdown x = x\<lparr>gx_created := False, gx_in_flight := 0\<rparr>"

section \<open>Runs of the pool\<close>

text \<open>
  Submissions and completions in the order in which they take the executor's lock; the second component
  counts the tasks that were submitted and have not ended.
\<close>

datatype pool_op = Submit bool | Finish

fun pool_step :: "environ \<Rightarrow> pool_op \<Rightarrow> gen_executor \<times> nat \<Rightarrow> gen_executor \<times> nat" where
  "pool_step env (Submit accepted) (x, live) =
     (let (r, x') = submit_task env accepted x in (x', if r = Inr () then Suc live else live))"
| "pool_step env Finish (x, live) = (if live = 0 then (x, live) else (release_slot x, live - 1))"

definition pool_inv :: "environ \<Rightarrow> gen_executor \<times> nat \<Rightarrow> bool" where
  "pool_inv env = (\<lambda>(x, live). gx_in_flight x = int live \<and> int live \<le> worker_threads env \<and>
     (gx_created x \<longrightarrow> gx_capacity x = worker_threads env))"

lemma worker_threads_pos: "1 \<le> worker_threads env"
  by (auto simp: worker_threads_def env_int_def split: option.splits)

lemma pool_step_inv: "pool_inv env s \<Longrightarrow> pool_inv env (pool_step env opr s)"
  by (cases s; cases opr)
     (auto simp: pool_inv_def submit_task_def ensure_executor_def release_slot_def Let_def)

lemma pool_inv_new: "pool_inv env (new_executor, 0)"
  using worker_threads_pos [of env] by (simp add: pool_inv_def new_executor_def)

lemma pool_run_inv: "pool_inv env s \<Longrightarrow> pool_inv env (fold (pool_step env) ops s)"
  by (induction ops arbitrary: s) (simp_all add: pool_step_inv)

section \<open>Properties\<close>

text \<open>
  Admission.  In any order of submissions (also rejected and failing ones) and completions, the slot
  count is the number of tasks that are running, it never exceeds the configured number of threads (so
  no admitted job waits in the pool's queue), and a submission is refused for want of a slot exactly
  when all threads are taken.
\<close>

theorem executor_admission:
  assumes "fold (pool_step env) ops (new_executor, 0) = (x, live)"
  shows "gx_in_flight x = int live \<and> int live \<le> worker_threads env \<and>
         (fst (submit_task env accepted x) = Inl CapacityError \<longleftrightarrow> int live = worker_threads env)"
proof -
  have "pool_inv env (x, live)" using pool_run_inv [OF pool_inv_new, of env ops] assms by simp
  then show ?thesis by (auto simp: pool_inv_def submit_task_def ensure_executor_def Let_def)
qed

theorem executor_admission_witness:
  "fst (submit_task [''CHAT_GENERATION_WORKER_THREADS'' \<mapsto> ''1''] True
     (fst (fold (pool_step [''CHAT_GENERATION_WORKER_THREADS'' \<mapsto> ''1'']) [Submit True] (new_executor, 0)))) =
   Inl CapacityError"
proof -
  let ?env = "[''CHAT_GENERATION_WORKER_THREADS'' \<mapsto> ''1'']"
  have w: "worker_threads ?env = 1" by code_simp
  have "fold (pool_step ?env) [Submit True] (new_executor, 0) =
      (fst (fold (pool_step ?env) [Submit True] (new_executor, 0)), 1)"
    using w by (simp add: submit_task_def ensure_executor_def new_executor_def)
  from executor_admission [OF this, of True] w show ?thesis by simp
qed

end
