(* ===== verification/Generation_Service.thy ===== *)
theory Generation_Service
  imports Generation_Job Generation_Executor
begin

text \<open>
  \<open>ChatGenerationService\<close> of \<open>services/chat_generation.py\<close>: the table of a worker's jobs, starting a job
  with its undo steps, stopping, clean-up and the queries.  \<open>_jobs\<close> and \<open>_retained_jobs\<close> share job
  objects, so jobs live in a store (\<open>gs_heap\<close>) and the two dictionaries hold addresses.  A \<open>link\<close> is what
  one request to Redis meets: the client the code obtains, the fate of the request, and what other
  workers and the server's clock did to the server before it arrived.
\<close>

record 's link =
  lk_client :: "'s redis_cmds option"
  lk_fault :: fault
  lk_before :: "'s \<Rightarrow> 's"

definition issue :: "'s link \<Rightarrow> ('s redis_cmds option \<Rightarrow> fault \<Rightarrow> 's \<Rightarrow> 'b \<times> 's) \<Rightarrow> 's \<Rightarrow> 'b \<times> 's" where
  "issue l opr s = opr (lk_client l) (lk_fault l) (lk_before l s)"

record room_job =
  rj_key :: string
  rj_token :: "string option"
  rj_job :: job

record 's gen_service =
  gs_heap :: "room_job list"
  gs_jobs :: "string \<rightharpoonup> nat"
  gs_retained :: "string \<times> string \<rightharpoonup> nat"
  gs_submitted :: "nat list"
  gs_executor :: gen_executor
  gs_listener :: "bool option"
  gs_redis :: 's

datatype gen_error =
  AlreadyRunning | IdConflict | CoordinationFailed | InvalidGenerationId | PoolRefused | ThreadNotStarted | ListenerNotStarted

abbreviation job_at :: "'s gen_service \<Rightarrow> nat \<Rightarrow> job" where
  "job_at sv a \<equiv> rj_job (gs_heap sv ! a)"

section \<open>Names\<close>

definition is_valid_generation_id :: "string \<Rightarrow> bool" where
  "is_valid_generation_id v \<longleftrightarrow> length v = 32 \<and> list_all (\<lambda>c. c \<in> set ''0123456789abcdef'') v"

definition build_generation_key :: "string \<Rightarrow> int option \<Rightarrow> string option \<Rightarrow> string option" where
  "build_generation_key chat_room_id user_id sid =
     (case user_id of
        Some u \<Rightarrow> Some (''user:'' @ show_int u @ '':'' @ chat_room_id)
      | None \<Rightarrow>
          (case sid of
             Some g \<Rightarrow> Some (''guest:'' @ g @ '':'' @ chat_room_id)
           | None \<Rightarrow> None))"

section \<open>The table of jobs\<close>

definition job_expired :: "coord_config \<Rightarrow> ticks \<Rightarrow> job \<Rightarrow> bool" where
  "job_expired cfg now j \<longleftrightarrow>
     jb_is_done j \<and>
     (case jb_finished_at j of
        None \<Rightarrow> False
      | Some t \<Rightarrow> second * generation_retention_ttl_seconds cfg \<le> now - t)"

definition cleanup_expired_jobs :: "coord_config \<Rightarrow> ticks \<Rightarrow> 's gen_service \<Rightarrow> 's gen_service" where
  "cleanup_expired_jobs cfg now sv =
     (let keep = (\<lambda>a. if job_expired cfg now (job_at sv a) then None else Some a)
      in sv\<lparr>gs_jobs := (\<lambda>k. Option.bind (gs_jobs sv k) keep),
            gs_retained := (\<lambda>k. Option.bind (gs_retained sv k) keep)\<rparr>)"

text \<open>
  The running jobs of \<open>_retained_jobs\<close>, in its insertion order, which is the order of the addresses: a job
  is filed there once, under its room and its generation id.
\<close>

definition retained_here :: "'s gen_service \<Rightarrow> nat \<Rightarrow> bool" where
  "retained_here sv a \<longleftrightarrow> gs_retained sv (rj_key (gs_heap sv ! a), jb_generation_id (job_at sv a)) = Some a"

definition running_jobs :: "'s gen_service \<Rightarrow> nat list" where
  "running_jobs sv =
     filter (\<lambda>a. retained_here sv a \<and> \<not> jb_is_done (job_at sv a)) [0..<length (gs_heap sv)]"

definition generation_store_unavailable :: "bool \<Rightarrow> 's redis_cmds option \<Rightarrow> bool" where
  "generation_store_unavailable configured client \<longleftrightarrow> configured \<and> Option.is_none client"

section \<open>A job's callbacks\<close>

text \<open>
  The service gives each job callbacks that publish its events in Redis and release its lock at the end.
  \<open>advance\<close> puts the next state of a job into the store and runs the callbacks its trace fields ask for:
  the new events of the outbox in order, then \<open>_finalize_job\<close>.
\<close>

fun publish_all :: "coord_config \<Rightarrow> (nat \<Rightarrow> 's link) \<Rightarrow> string \<Rightarrow> string \<Rightarrow> chat_event list \<Rightarrow> 's \<Rightarrow> 's" where
  "publish_all cfg ls key gid [] s = s"
| "publish_all cfg ls key gid (e # es) s =
     publish_all cfg (\<lambda>i. ls (i + 2)) key gid es
       (snd (issue (ls 0) (\<lambda>cl f. publish_event cfg cl (f, lk_fault (ls 1)) key gid e) s))"

definition finalize_job :: "'s link \<Rightarrow> string \<Rightarrow> string option \<Rightarrow> 's \<Rightarrow> 's" where
  "finalize_job l key token s = snd (issue l (\<lambda>cl f. release_active_job_lock cl f key token) s)"

definition advance ::
  "coord_config \<Rightarrow> (nat \<Rightarrow> 's link) \<Rightarrow> 's link \<Rightarrow> nat \<Rightarrow> job \<Rightarrow> 's gen_service \<Rightarrow> 's gen_service" where
  "advance cfg ls l a j' sv =
     (let rj = gs_heap sv ! a;
          s = publish_all cfg ls (rj_key rj) (jb_generation_id (rj_job rj))
                (drop (length (jb_outbox (rj_job rj))) (jb_outbox j')) (gs_redis sv);
          s = (if jb_finish_calls (rj_job rj) < jb_finish_calls j'
               then finalize_job l (rj_key rj) (rj_token rj) s else s)
      in sv\<lparr>gs_heap := (gs_heap sv)[a := rj\<lparr>rj_job := j'\<rparr>], gs_redis := s\<rparr>)"

section \<open>Stopping\<close>

definition has_running_local_jobs :: "'s gen_service \<Rightarrow> bool" where
  "has_running_local_jobs sv \<longleftrightarrow> running_jobs sv \<noteq> []"

text \<open>
  The slot of the thread that listens for stop requests: \<open>Some True\<close> is a registered thread that is
  alive, \<open>Some False\<close> one that has ended or was never started.  \<open>ensure_cancel_listener\<close> registers a new
  thread before it starts it; the result \<open>False\<close> is the exception of \<open>Thread.start\<close>.
\<close>

definition ensure_cancel_listener ::
  "'s redis_cmds option \<Rightarrow> bool \<Rightarrow> bool \<Rightarrow> bool option \<Rightarrow> bool \<times> bool option" where
  "ensure_cancel_listener client has_pubsub thread_starts slot =
     (if Option.is_none client \<or> \<not> has_pubsub then (True, slot)
      else if slot = Some True then (True, slot)
      else (thread_starts, Some thread_starts))"

text \<open>\<open>registered\<close> says whether the slot holds the thread that calls.\<close>

definition release_cancel_listener_slot_if_idle :: "bool \<Rightarrow> 's gen_service \<Rightarrow> bool \<times> 's gen_service" where
  "release_cancel_listener_slot_if_idle registered sv =
     (if has_running_local_jobs sv then (False, sv)
      else (True, if registered then sv\<lparr>gs_listener := None\<rparr> else sv))"

definition cancel_local_job ::
  "job_env \<Rightarrow> coord_config \<Rightarrow> (nat \<Rightarrow> 's link) \<Rightarrow> 's link \<Rightarrow> ticks \<Rightarrow> string
     \<Rightarrow> 's gen_service \<Rightarrow> bool \<times> 's gen_service" where
  "cancel_local_job jenv cfg ls l now key sv =
     (case gs_jobs sv key of
        None \<Rightarrow> (False, sv)
      | Some a \<Rightarrow>
          if jb_is_done (job_at sv a) then (False, sv)
          else (True, advance cfg ls l a (cancel jenv now (job_at sv a)) sv))"

definition cancel_generation_job ::
  "job_env \<Rightarrow> coord_config \<Rightarrow> (nat \<Rightarrow> 's link) \<Rightarrow> 's link \<Rightarrow> ticks \<Rightarrow> 's redis_cmds option
     \<Rightarrow> 's cancel_request \<Rightarrow> string \<Rightarrow> 's gen_service \<Rightarrow> bool option \<times> 's gen_service" where
  "cancel_generation_job jenv cfg ls l now client c key sv =
     (let (stopped, sv) = cancel_local_job jenv cfg ls l now key sv
      in if stopped then (Some True, sv)
         else
           (let (r, s) = request_remote_cancel cfg client c key (gs_redis sv)
            in (r, sv\<lparr>gs_redis := s\<rparr>)))"

definition reset_in_memory_state ::
  "job_env \<Rightarrow> coord_config \<Rightarrow> (nat \<Rightarrow> nat \<Rightarrow> 's link) \<Rightarrow> (nat \<Rightarrow> 's link) \<Rightarrow> ticks \<Rightarrow> bool
     \<Rightarrow> 's gen_service \<Rightarrow> 's gen_service" where
  "reset_in_memory_state jenv cfg ls l now cancel_running sv =
     fold (\<lambda>a sv. advance cfg (ls a) (l a) a (cancel jenv now (job_at sv a)) sv)
       (if cancel_running then running_jobs sv else [])
       (sv\<lparr>gs_jobs := Map.empty, gs_retained := Map.empty\<rparr>)"

section \<open>Queries\<close>

definition has_active_generation ::
  "coord_config \<Rightarrow> 's link \<Rightarrow> ticks \<Rightarrow> string \<Rightarrow> 's gen_service \<Rightarrow> bool \<times> 's gen_service" where
  "has_active_generation cfg l now key sv =
     (let sv = cleanup_expired_jobs cfg now sv;
          running = (case gs_jobs sv key of None \<Rightarrow> False | Some a \<Rightarrow> \<not> jb_is_done (job_at sv a))
      in if running then (True, sv)
         else
           (let (held, s) = issue l (\<lambda>cl f. has_active_lock cl f key) (gs_redis sv)
            in (held, sv\<lparr>gs_redis := s\<rparr>)))"

definition is_generation_id_available ::
  "coord_config \<Rightarrow> bool \<Rightarrow> 's link \<Rightarrow> ticks \<Rightarrow> string \<Rightarrow> string \<Rightarrow> 's gen_service
     \<Rightarrow> (gen_error + bool) \<times> 's gen_service" where
  "is_generation_id_available cfg configured l now key gid sv =
     (if \<not> is_valid_generation_id gid then (Inr False, sv)
      else
        (let sv = cleanup_expired_jobs cfg now sv
         in if gs_retained sv (key, gid) \<noteq> None then (Inr False, sv)
            else if generation_store_unavailable configured (lk_client l) then (Inl CoordinationFailed, sv)
            else
              (case lk_client l of
                 None \<Rightarrow> (Inr True, sv)
               | Some R \<Rightarrow>
                   (let (r, s) =
                          redis_call (lk_fault l) (rc_exists R (generation_reservation_key key gid))
                            (lk_before l (gs_redis sv))
                    in (case r of Inl _ \<Rightarrow> Inl CoordinationFailed | Inr b \<Rightarrow> Inr (\<not> b), sv\<lparr>gs_redis := s\<rparr>)))))"

definition has_generation_history ::
  "coord_config \<Rightarrow> 's link \<Rightarrow> ticks \<Rightarrow> string \<Rightarrow> string option \<Rightarrow> 's gen_service
     \<Rightarrow> (gen_error + bool) \<times> 's gen_service" where
  "has_generation_history cfg l now key generation_id sv =
     (if generation_id = None \<or> generation_id = Some [] then (Inr False, sv)
      else
        (let sv = cleanup_expired_jobs cfg now sv
         in if gs_retained sv (key, the generation_id) \<noteq> None then (Inr True, sv)
            else
              (let (r, s) = issue l (\<lambda>cl f. has_replay_history cl f key (the generation_id)) (gs_redis sv)
               in (case r of Inl _ \<Rightarrow> Inl CoordinationFailed | Inr b \<Rightarrow> Inr b, sv\<lparr>gs_redis := s\<rparr>))))"

definition resolve_latest_generation_id ::
  "coord_config \<Rightarrow> bool \<Rightarrow> 's link \<Rightarrow> ticks \<Rightarrow> string \<Rightarrow> 's gen_service
     \<Rightarrow> (gen_error + string option) \<times> 's gen_service" where
  "resolve_latest_generation_id cfg configured l now key sv =
     (let sv = cleanup_expired_jobs cfg now sv
      in if \<not> Option.is_none (lk_client l) then
           (let (r, s) = issue l (\<lambda>cl f. get_latest_generation_id cl f key) (gs_redis sv)
            in (case r of
                  Inl _ \<Rightarrow> Inl CoordinationFailed
                | Inr None \<Rightarrow> Inr None
                | Inr (Some g) \<Rightarrow> Inr (if is_valid_generation_id g then Some g else None), sv\<lparr>gs_redis := s\<rparr>))
         else if configured then (Inr None, sv)
         else (Inr (map_option (\<lambda>a. jb_generation_id (job_at sv a)) (gs_jobs sv key)), sv))"

definition has_replayable_generation ::
  "coord_config \<Rightarrow> bool \<Rightarrow> 's link \<Rightarrow> 's link \<Rightarrow> ticks \<Rightarrow> string \<Rightarrow> 's gen_service
     \<Rightarrow> (gen_error + bool) \<times> 's gen_service" where
  "has_replayable_generation cfg configured l l' now key sv =
     (let (r, sv) = resolve_latest_generation_id cfg configured l now key sv
      in case r of
           Inl e \<Rightarrow> (Inl e, sv)
         | Inr generation_id \<Rightarrow> has_generation_history cfg l' now key generation_id sv)"

definition has_generation_active ::
  "coord_config \<Rightarrow> bool \<Rightarrow> 's link \<Rightarrow> 's link \<Rightarrow> ticks \<Rightarrow> string \<Rightarrow> string \<Rightarrow> 's gen_service
     \<Rightarrow> (gen_error + bool) \<times> 's gen_service" where
  "has_generation_active cfg configured l l' now key gid sv =
     (let remote =
            (\<lambda>_. let (r, sv) = resolve_latest_generation_id cfg configured l now key sv
                 in case r of
                      Inl e \<Rightarrow> (Inl e, sv)
                    | Inr latest \<Rightarrow>
                        if latest \<noteq> Some gid then (Inr False, sv)
                        else
                          (let (held, s) = issue l' (\<lambda>cl f. has_active_lock cl f key) (gs_redis sv)
                           in (Inr held, sv\<lparr>gs_redis := s\<rparr>)))
      in case gs_jobs sv key of
           Some a \<Rightarrow>
             if jb_generation_id (job_at sv a) = gid then (Inr (\<not> jb_is_done (job_at sv a)), sv)
             else remote ()
         | None \<Rightarrow> remote ())"

definition get_generation_job ::
  "coord_config \<Rightarrow> bool \<Rightarrow> 's link \<Rightarrow> ticks \<Rightarrow> string \<Rightarrow> string option \<Rightarrow> 's gen_service
     \<Rightarrow> nat option \<times> 's gen_service" where
  "get_generation_job cfg configured l now key generation_id sv =
     (let sv = cleanup_expired_jobs cfg now sv;
          (selected, sv) =
            (if generation_id \<noteq> None \<and> generation_id \<noteq> Some [] then (Inr generation_id, sv)
             else resolve_latest_generation_id cfg configured l now key sv)
      in case selected of
           Inr (Some g) \<Rightarrow> (gs_retained sv (key, g), sv)
         | _ \<Rightarrow> (None, sv))"

text \<open>
  \<open>iter_generation_events\<close>: the job's own log when this worker holds the job, else what other workers
  left in Redis; \<open>local\<close> and \<open>remote\<close> are the two streams as functions of the starting point.
\<close>

definition iter_generation_events ::
  "coord_config \<Rightarrow> bool \<Rightarrow> 's link \<Rightarrow> 's link \<Rightarrow> ticks \<Rightarrow> string \<Rightarrow> string option \<Rightarrow> int
     \<Rightarrow> (nat \<Rightarrow> local_tick list) \<Rightarrow> (string \<Rightarrow> int \<Rightarrow> chat_event option list \<times> stream_end)
     \<Rightarrow> 's gen_service \<Rightarrow> (gen_error + chat_event option list \<times> stream_end) \<times> 's gen_service" where
  "iter_generation_events cfg configured l l' now key generation_id after_sequence_id ticks_of remote sv =
     (let (selected, sv) =
            (if generation_id \<noteq> None \<and> generation_id \<noteq> Some [] then (Inr generation_id, sv)
             else resolve_latest_generation_id cfg configured l now key sv)
      in case selected of
           Inl e \<Rightarrow> (Inl e, sv)
         | Inr None \<Rightarrow> (Inr ([], StreamReturned), sv)
         | Inr (Some g) \<Rightarrow>
             (let (found, sv) = get_generation_job cfg configured l' now key (Some g) sv
              in case found of
                   Some a \<Rightarrow> (Inr (iter_events after_sequence_id 0 (ticks_of a)), sv)
                 | None \<Rightarrow> (Inr (remote g after_sequence_id), sv)))"

section \<open>Starting\<close>

record 's start_call =
  sc_generation_id :: "string option"
  sc_fresh_id :: string
  sc_token :: string
  sc_now :: ticks
  sc_probe :: "'s redis_cmds option"
  sc_acquire :: "'s link"
  sc_clear :: "'s link"
  sc_reserve :: "'s link"
  sc_latest :: "'s link"
  sc_set_latest :: "'s link"
  sc_restore :: "'s link"
  sc_unreserve :: "'s link"
  sc_release :: "'s link"
  sc_listener_client :: "'s redis_cmds option"
  sc_listener_pubsub :: bool
  sc_listener_starts :: bool
  sc_accepted :: bool
  sc_thread_starts :: bool

definition selected_generation_id :: "'s start_call \<Rightarrow> string" where
  "selected_generation_id c =
     (case sc_generation_id c of Some (x # xs) \<Rightarrow> x # xs | _ \<Rightarrow> sc_fresh_id c)"

text \<open>The checks of the worker's own tables, made while it holds \<open>_jobs_lock\<close>.\<close>

definition room_conflict :: "string \<Rightarrow> string \<Rightarrow> 's gen_service \<Rightarrow> gen_error option" where
  "room_conflict key gid sv =
     (let taken = (if gs_retained sv (key, gid) \<noteq> None then Some IdConflict else None)
      in case gs_jobs sv key of
           None \<Rightarrow> taken
         | Some a \<Rightarrow>
             if \<not> jb_is_done (job_at sv a) then Some AlreadyRunning
             else if jb_generation_id (job_at sv a) = gid then Some IdConflict
             else taken)"

text \<open>The undo steps.\<close>

definition give_up_lock :: "'s start_call \<Rightarrow> string \<Rightarrow> string option \<Rightarrow> 's \<Rightarrow> 's" where
  "give_up_lock c key token s = snd (issue (sc_release c) (\<lambda>cl f. release_active_job_lock cl f key token) s)"

definition give_up_id :: "'s start_call \<Rightarrow> string \<Rightarrow> string \<Rightarrow> 's \<Rightarrow> 's" where
  "give_up_id c key gid s = snd (issue (sc_unreserve c) (\<lambda>cl f. release_generation_id cl f key gid) s)"

definition give_up_latest ::
  "coord_config \<Rightarrow> 's start_call \<Rightarrow> string \<Rightarrow> string \<Rightarrow> string option \<Rightarrow> 's \<Rightarrow> 's" where
  "give_up_latest cfg c key gid previous s =
     snd (issue (sc_restore c) (\<lambda>cl f. restore_latest_generation_id cfg cl f key gid previous) s)"

text \<open>Reserving the id and making it the room's latest; the result is the latest id before.\<close>

definition claim_generation ::
  "coord_config \<Rightarrow> 's start_call \<Rightarrow> string \<Rightarrow> string \<Rightarrow> 's \<Rightarrow> (gen_error + string option) \<times> 's" where
  "claim_generation cfg c key gid s =
     (let (reserved, s) = issue (sc_reserve c) (\<lambda>cl f. reserve_generation_id cfg cl f key gid) s
      in case reserved of
           Inl _ \<Rightarrow> (Inl CoordinationFailed, s)
         | Inr r \<Rightarrow>
             if r = Some False then (Inl IdConflict, s)
             else
               (let (latest, s) = issue (sc_latest c) (\<lambda>cl f. get_latest_generation_id cl f key) s
                in case latest of
                     Inl _ \<Rightarrow> (Inl CoordinationFailed, give_up_id c key gid s)
                   | Inr previous \<Rightarrow>
                       (let (stored, s) =
                              issue (sc_set_latest c) (\<lambda>cl f. set_latest_generation_id cfg cl f key gid) s
                        in if stored then (Inr previous, s)
                           else
                             (Inl CoordinationFailed,
                              give_up_id c key gid (give_up_latest cfg c key gid previous s)))))"

text \<open>
  \<open>ChatGenerationJobBase.start\<close>: the task goes to the pool, then (with a lock to renew) the renewal thread
  is started.
\<close>

definition launch_job ::
  "environ \<Rightarrow> 's start_call \<Rightarrow> string option \<Rightarrow> nat \<Rightarrow> 's gen_service \<Rightarrow> gen_error option \<times> 's gen_service" where
  "launch_job env c token a sv =
     (let (r, x) = submit_task env (sc_accepted c) (gs_executor sv)
      in case r of
           Inl _ \<Rightarrow> (Some PoolRefused, sv\<lparr>gs_executor := x\<rparr>)
         | Inr _ \<Rightarrow>
             (if token \<noteq> None \<and> \<not> sc_thread_starts c then Some ThreadNotStarted else None,
              sv\<lparr>gs_executor := x, gs_submitted := gs_submitted sv @ [a]\<rparr>))"

definition start_generation_job ::
  "environ \<Rightarrow> coord_config \<Rightarrow> bool \<Rightarrow> 's start_call \<Rightarrow> string \<Rightarrow> 's gen_service
     \<Rightarrow> (gen_error + nat) \<times> 's gen_service" where
  "start_generation_job env cfg configured c key sv =
     (let gid = selected_generation_id c
      in if generation_store_unavailable configured (sc_probe c) then (Inl CoordinationFailed, sv)
         else if \<not> is_valid_generation_id gid then (Inl InvalidGenerationId, sv)
         else
           (let sv = cleanup_expired_jobs cfg (sc_now c) sv;
                ((acquired, token), s) =
                  issue (sc_acquire c) (\<lambda>cl f. try_acquire_active_job_lock cfg cl f key (sc_token c)) (gs_redis sv)
            in if \<not> acquired then (Inl AlreadyRunning, sv\<lparr>gs_redis := s\<rparr>)
               else
                 (let s = snd (issue (sc_clear c) (\<lambda>cl f. clear_remote_cancel_request cl f key) s)
                  in case room_conflict key gid sv of
                       Some e \<Rightarrow> (Inl e, sv\<lparr>gs_redis := give_up_lock c key token s\<rparr>)
                     | None \<Rightarrow>
                         (let (claimed, s) = claim_generation cfg c key gid s
                          in case claimed of
                               Inl e \<Rightarrow> (Inl e, sv\<lparr>gs_redis := give_up_lock c key token s\<rparr>)
                             | Inr previous \<Rightarrow>
                                 (let a = length (gs_heap sv);
                                      rj = \<lparr>rj_key = key, rj_token = token, rj_job = new_job gid\<rparr>;
                                      (listening, slot) =
                                        ensure_cancel_listener (sc_listener_client c) (sc_listener_pubsub c)
                                          (sc_listener_starts c) (gs_listener sv);
                                      sv' = sv\<lparr>gs_heap := gs_heap sv @ [rj], gs_jobs := (gs_jobs sv)(key \<mapsto> a),
                                               gs_retained := (gs_retained sv)((key, gid) \<mapsto> a),
                                               gs_listener := slot, gs_redis := s\<rparr>
                                  in if \<not> listening then (Inl ListenerNotStarted, sv')
                                     else
                                       (let (failed, sv'') = launch_job env c token a sv'
                                        in case failed of
                                             None \<Rightarrow> (Inr a, sv'')
                                           | Some e \<Rightarrow>
                                               (Inl e,
                                                sv''\<lparr>gs_retained := (gs_retained sv'')((key, gid) := None),
                                                     gs_jobs := (gs_jobs sv'')(key := gs_jobs sv key),
                                                     gs_redis :=
                                                       give_up_lock c key token
                                                         (give_up_id c key gid
                                                            (give_up_latest cfg c key gid previous
                                                               (gs_redis sv'')))\<rparr>)))))))"

section \<open>Renewing the lock\<close>

definition renew_job_lock ::
  "coord_config \<Rightarrow> 's link \<Rightarrow> 's link \<Rightarrow> fault \<times> fault \<Rightarrow> string \<Rightarrow> string option \<Rightarrow> string option
     \<Rightarrow> 's \<Rightarrow> bool \<times> 's" where
  "renew_job_lock cfg l l' fs key token generation_id s =
     (let (renewed, s) = issue l (\<lambda>cl f. refresh_active_job_lock cfg cl f key token) s
      in case generation_id of
           Some g \<Rightarrow>
             if renewed
             then (True, snd (issue l' (\<lambda>cl f. refresh_latest_generation_id cfg cl (f, fs) key g) s))
             else (renewed, s)
         | None \<Rightarrow> (renewed, s))"

text \<open>
  The renewal thread: each turn waits for the interval or the stop signal, then looks at the done flag
  and renews.
\<close>

record 's renewal_turn =
  rt_stopped :: bool
  rt_done :: bool
  rt_lock :: "'s link"
  rt_latest :: "'s link"
  rt_faults :: "fault \<times> fault"

fun renewal_loop ::
  "coord_config \<Rightarrow> string \<Rightarrow> string option \<Rightarrow> string option \<Rightarrow> 's renewal_turn list \<Rightarrow> 's \<Rightarrow> 's" where
  "renewal_loop cfg key token gid [] s = s"
| "renewal_loop cfg key token gid (t # ts) s =
     (if rt_stopped t \<or> rt_done t then s
      else renewal_loop cfg key token gid ts
             (snd (renew_job_lock cfg (rt_lock t) (rt_latest t) (rt_faults t) key token gid s)))"

section \<open>The ways a start can end\<close>

abbreviation acquire_call :: "coord_config \<Rightarrow> 's start_call \<Rightarrow> string \<Rightarrow> 's \<Rightarrow> (bool \<times> string option) \<times> 's" where
  "acquire_call cfg c key s \<equiv>
     issue (sc_acquire c) (\<lambda>cl f. try_acquire_active_job_lock cfg cl f key (sc_token c)) s"

abbreviation clear_call :: "'s start_call \<Rightarrow> string \<Rightarrow> 's \<Rightarrow> 's" where
  "clear_call c key s \<equiv> snd (issue (sc_clear c) (\<lambda>cl f. clear_remote_cancel_request cl f key) s)"

lemma room_conflict_None:
  "room_conflict key gid sv = None \<Longrightarrow> gs_retained sv (key, gid) = None"
  by (auto simp: room_conflict_def Let_def split: option.splits if_splits)

lemma no_listener_error [simp]:
  "room_conflict key gid sv \<noteq> Some ListenerNotStarted"
  "claim_generation cfg c key gid s \<noteq> (Inl ListenerNotStarted, s')"
  "launch_job env c token a sv \<noteq> (Some ListenerNotStarted, sv')"
  by (auto simp: room_conflict_def claim_generation_def launch_job_def Let_def split_beta
        split: option.splits if_splits sum.splits)

lemma start_generation_job_cases [consumes 3, case_names refused busy conflict unclaimed unheard failed started]:
  fixes sv :: "'s gen_service"
  assumes start: "start_generation_job env cfg configured c key sv = (r, sv')"
    and gid: "gid = selected_generation_id c" and base: "base = cleanup_expired_jobs cfg (sc_now c) sv"
  obtains
    (refused) e where "r = Inl e" "e \<noteq> ListenerNotStarted" "sv' = sv"
  | (busy) t s where "acquire_call cfg c key (gs_redis base) = ((False, t), s)" "r = Inl AlreadyRunning"
      "sv' = base\<lparr>gs_redis := s\<rparr>"
  | (conflict) token s e where "acquire_call cfg c key (gs_redis base) = ((True, token), s)"
      "room_conflict key gid base = Some e" "r = Inl e" "e \<noteq> ListenerNotStarted"
      "sv' = base\<lparr>gs_redis := give_up_lock c key token (clear_call c key s)\<rparr>"
  | (unclaimed) token s s' e where "acquire_call cfg c key (gs_redis base) = ((True, token), s)"
      "claim_generation cfg c key gid (clear_call c key s) = (Inl e, s')" "r = Inl e" "e \<noteq> ListenerNotStarted"
      "sv' = base\<lparr>gs_redis := give_up_lock c key token s'\<rparr>"
  | (unheard) token s s' previous slot where "acquire_call cfg c key (gs_redis base) = ((True, token), s)"
      "room_conflict key gid base = None"
      "claim_generation cfg c key gid (clear_call c key s) = (Inr previous, s')" "r = Inl ListenerNotStarted"
      "sv' = base\<lparr>gs_heap := gs_heap base @ [\<lparr>rj_key = key, rj_token = token, rj_job = new_job gid\<rparr>],
                  gs_jobs := (gs_jobs base)(key \<mapsto> length (gs_heap base)),
                  gs_retained := (gs_retained base)((key, gid) \<mapsto> length (gs_heap base)),
                  gs_listener := slot, gs_redis := s'\<rparr>"
  | (failed) token s s' previous x sub slot e where "acquire_call cfg c key (gs_redis base) = ((True, token), s)"
      "claim_generation cfg c key gid (clear_call c key s) = (Inr previous, s')" "r = Inl e"
      "e \<noteq> ListenerNotStarted"
      "sv' = base\<lparr>gs_heap := gs_heap base @ [\<lparr>rj_key = key, rj_token = token, rj_job = new_job gid\<rparr>],
                  gs_submitted := sub, gs_executor := x, gs_listener := slot,
                  gs_redis := give_up_lock c key token
                                (give_up_id c key gid (give_up_latest cfg c key gid previous s'))\<rparr>"
  | (started) token s s' previous x slot where "acquire_call cfg c key (gs_redis base) = ((True, token), s)"
      "room_conflict key gid base = None" "is_valid_generation_id gid"
      "claim_generation cfg c key gid (clear_call c key s) = (Inr previous, s')" "r = Inr (length (gs_heap base))"
      "sv' = base\<lparr>gs_heap := gs_heap base @ [\<lparr>rj_key = key, rj_token = token, rj_job = new_job gid\<rparr>],
                  gs_jobs := (gs_jobs base)(key \<mapsto> length (gs_heap base)),
                  gs_retained := (gs_retained base)((key, gid) \<mapsto> length (gs_heap base)),
                  gs_submitted := gs_submitted base @ [length (gs_heap base)], gs_executor := x,
                  gs_listener := slot, gs_redis := s'\<rparr>"
proof (cases "generation_store_unavailable configured (sc_probe c) \<or> \<not> is_valid_generation_id gid")
  case True
  then show ?thesis using start gid refused by (auto simp: start_generation_job_def Let_def split: if_splits)
next
  case False
  obtain ok token s where acq: "acquire_call cfg c key (gs_redis base) = ((ok, token), s)" by (metis prod.exhaust)
  note open_start = start [unfolded start_generation_job_def Let_def, folded gid base, unfolded acq prod.case]
  show ?thesis
  proof (cases ok)
    case False': False
    with False open_start acq busy show ?thesis by (auto split: if_splits)
  next
    case ok: True
    show ?thesis
    proof (cases "room_conflict key gid base")
      case (Some e)
      then have "e \<noteq> ListenerNotStarted" using no_listener_error(1) by metis
      with Some False open_start acq ok conflict show ?thesis by (auto split: if_splits)
    next
      case None
      obtain cl s' where cl: "claim_generation cfg c key gid (clear_call c key s) = (cl, s')" by fastforce
      show ?thesis
      proof (cases cl)
        case (Inl e)
        then have "e \<noteq> ListenerNotStarted" using cl no_listener_error(2) by metis
        with Inl False open_start acq ok None cl unclaimed show ?thesis by (auto split: if_splits)
      next
        case (Inr previous)
        have undo: "(gs_retained base)((key, gid) := None) = gs_retained base"
          using room_conflict_None [OF None] by auto
        obtain listening slot where heard: "ensure_cancel_listener (sc_listener_client c) (sc_listener_pubsub c)
            (sc_listener_starts c) (gs_listener base) = (listening, slot)" by fastforce
        note open_claimed = open_start [simplified, unfolded heard prod.case]
        show ?thesis
        proof (cases r)
          case r: (Inl e)
          show ?thesis
          proof (cases listening)
            case False': False
            show ?thesis
              by (rule unheard) (use False False' open_claimed acq ok None cl Inr heard in auto)
          next
            case True
            have undone: "e \<noteq> ListenerNotStarted \<and>
              sv' = base\<lparr>gs_heap := gs_heap base @ [\<lparr>rj_key = key, rj_token = token, rj_job = new_job gid\<rparr>],
                  gs_submitted := gs_submitted sv', gs_executor := gs_executor sv', gs_listener := gs_listener sv',
                  gs_redis := give_up_lock c key token
                                (give_up_id c key gid (give_up_latest cfg c key gid previous s'))\<rparr>"
              using False open_claimed ok None cl Inr r undo True heard
              by (auto simp: launch_job_def split_beta Let_def split: if_splits sum.splits option.splits
                    intro!: gen_service.equality)
            show ?thesis
              by (rule failed [OF _ _ r conjunct1 [OF undone] conjunct2 [OF undone]]) (use acq ok cl Inr in simp_all)
          qed
        next
          case r: (Inr a)
          have "sv' = base\<lparr>gs_heap := gs_heap base @ [\<lparr>rj_key = key, rj_token = token, rj_job = new_job gid\<rparr>],
                  gs_jobs := (gs_jobs base)(key \<mapsto> length (gs_heap base)),
                  gs_retained := (gs_retained base)((key, gid) \<mapsto> length (gs_heap base)),
                  gs_submitted := gs_submitted base @ [length (gs_heap base)], gs_executor := gs_executor sv',
                  gs_listener := gs_listener sv', gs_redis := s'\<rparr> \<and> a = length (gs_heap base)"
            using False open_claimed ok None cl Inr r heard
            by (auto simp: launch_job_def split_beta Let_def split: if_splits sum.splits option.splits
                  intro!: gen_service.equality)
          with False acq ok None cl Inr r show ?thesis by (intro started) auto
        qed
      qed
    qed
  qed
qed

section \<open>What a start does to the server\<close>

text \<open>A calm start: Redis is reachable throughout and nobody else interferes with the calls.\<close>

definition calm :: "'s redis_cmds \<Rightarrow> 's link \<Rightarrow> bool" where
  "calm R l \<longleftrightarrow> lk_client l = Some R \<and> lk_fault l = Delivered \<and> lk_before l = id"

definition calm_call :: "'s redis_cmds \<Rightarrow> 's start_call \<Rightarrow> bool" where
  "calm_call R c \<longleftrightarrow>
     sc_probe c = Some R \<and>
     list_all (calm R) [sc_acquire c, sc_clear c, sc_reserve c, sc_latest c, sc_set_latest c, sc_restore c,
                        sc_unreserve c, sc_release c]"

lemma issue_calm: "calm R l \<Longrightarrow> issue l opr s = opr (Some R) Delivered s"
  by (simp add: issue_def calm_def)

lemma sim_fst: "sim view m m' \<Longrightarrow> fst (m s) = fst (m' (view s))"
  by (metis fst_apsnd simD)

lemma sim_snd: "sim view m m' \<Longrightarrow> view (snd (m s)) = snd (m' (view s))"
  by (metis snd_apsnd simD)

lemma room_keys [simp]:
  "active_lock_key k \<noteq> generation_reservation_key k' g" "generation_reservation_key k' g \<noteq> active_lock_key k"
  "active_lock_key k \<noteq> latest_generation_key k'" "latest_generation_key k' \<noteq> active_lock_key k"
  "cancel_request_key k \<noteq> generation_reservation_key k' g" "generation_reservation_key k' g \<noteq> cancel_request_key k"
  "cancel_request_key k \<noteq> latest_generation_key k'" "latest_generation_key k' \<noteq> cancel_request_key k"
  "cancel_request_key k' \<noteq> active_lock_key k" "latest_generation_key k' \<noteq> generation_reservation_key k g"
  by (simp_all add: active_lock_key_def cancel_request_key_def latest_generation_key_def
        generation_reservation_key_def)

definition latest_value :: "string \<Rightarrow> keyspace \<Rightarrow> rval option" where
  "latest_value key s = map_option fst (ks_data s (latest_generation_key key))"

abbreviation retention_life :: "coord_config \<Rightarrow> ticks option" where
  "retention_life cfg \<equiv> Some (second * generation_retention_ttl_seconds cfg)"

lemma ks_reserve:
  "reserve_generation_id cfg (Some ks_cmds) Delivered key gid s =
     (if ks_data s (generation_reservation_key key gid) = None
      then (Inr (Some True), put_key (generation_reservation_key key gid) (RString ''1'', retention_life cfg) s)
      else (Inr (Some False), s))"
  by (auto simp: reserve_generation_id_def rbind_def rret_def lifetime_def)

lemma ks_set_latest:
  "set_latest_generation_id cfg (Some ks_cmds) Delivered key gid s =
     (True, put_key (latest_generation_key key) (RString gid, retention_life cfg) s)"
  by (auto simp: set_latest_generation_id_def rtry_def lifetime_def)

lemma ks_get_latest:
  "get_latest_generation_id (Some ks_cmds) Delivered key s =
     (case ks_data s (latest_generation_key key) of
        None \<Rightarrow> (Inr None, s)
      | Some (RString v, _) \<Rightarrow> (Inr (Some v), s)
      | Some (RList _, _) \<Rightarrow> (Inl ResponseError, s))"
  by (auto simp: get_latest_generation_id_def split: option.split rval.split)

lemma ks_unreserve:
  "release_generation_id (Some ks_cmds) Delivered key gid s = ((), drop_key (generation_reservation_key key gid) s)"
  by (simp add: release_generation_id_def rtry_def)

lemma ks_clear:
  "clear_remote_cancel_request (Some ks_cmds) Delivered key s = ((), drop_key (cancel_request_key key) s)"
  by (simp add: clear_remote_cancel_request_def rtry_def)

lemma ks_restore:
  assumes "ks_data s (latest_generation_key key) = Some (RString gid, t)"
  shows "snd (restore_latest_generation_id cfg (Some ks_cmds) Delivered key gid previous s) =
     (if previous = None \<or> previous = Some [] then drop_key (latest_generation_key key) s
      else put_key (latest_generation_key key) (RString (the previous), retention_life cfg) s)"
  using assms
  by (auto simp: restore_latest_generation_id_def restore_script_def rtry_def rbind_def rret_def lifetime_def
        split: option.splits)

lemma ks_take_lock:
  "try_acquire_active_job_lock cfg (Some ks_cmds) Delivered key tok s =
     (if ks_data s (active_lock_key key) = None \<and> 0 < cc_active_job_lock_ttl_seconds cfg
      then ((True, Some tok),
            put_key (active_lock_key key) (RString tok, Some (second * cc_active_job_lock_ttl_seconds cfg)) s)
      else ((False, None), s))"
  by (auto simp: try_acquire_active_job_lock_def rtry_def lifetime_def)

lemma ks_drop_lock:
  assumes "ks_data s (active_lock_key key) = Some (RString tok, t)" and "tok \<noteq> []"
  shows "snd (release_active_job_lock (Some ks_cmds) Delivered key (Some tok) s) = drop_key (active_lock_key key) s"
  using assms by (simp add: release_active_job_lock_def release_script_def rtry_def rbind_def rret_def)

lemmas ks_start_ops = ks_reserve ks_set_latest ks_get_latest ks_unreserve ks_clear ks_restore

context redis_server
begin

lemma sim_reserve:
  "sim view (reserve_generation_id cfg (Some R) f job gen) (reserve_generation_id cfg (Some ks_cmds) f job gen)"
  unfolding reserve_generation_id_def option.case ks_cmds_sel by (intro sim_intros sim_cmds)

lemma sim_unreserve:
  "sim view (release_generation_id (Some R) f job gen) (release_generation_id (Some ks_cmds) f job gen)"
  unfolding release_generation_id_def option.case ks_cmds_sel by (intro sim_intros sim_cmds)

lemma sim_set_latest:
  "sim view (set_latest_generation_id cfg (Some R) f job gen) (set_latest_generation_id cfg (Some ks_cmds) f job gen)"
  unfolding set_latest_generation_id_def option.case ks_cmds_sel by (intro sim_intros sim_cmds)

lemma sim_get_latest:
  "sim view (get_latest_generation_id (Some R) f job) (get_latest_generation_id (Some ks_cmds) f job)"
  unfolding get_latest_generation_id_def option.case ks_cmds_sel by (intro sim_intros sim_cmds)

lemma sim_restore:
  "sim view (restore_latest_generation_id cfg (Some R) f job gen prev)
     (restore_latest_generation_id cfg (Some ks_cmds) f job gen prev)"
  unfolding restore_latest_generation_id_def restore_script_def option.case ks_cmds_sel
  by (intro sim_intros sim_cmds)

lemma sim_clear:
  "sim view (clear_remote_cancel_request (Some R) f job) (clear_remote_cancel_request (Some ks_cmds) f job)"
  unfolding clear_remote_cancel_request_def option.case ks_cmds_sel by (intro sim_intros sim_cmds)

lemmas sim_start_ops = sim_acquire sim_release sim_reserve sim_unreserve sim_set_latest sim_get_latest
  sim_restore sim_clear

lemmas start_op_results = sim_start_ops [THEN sim_fst] sim_start_ops [THEN sim_snd]

lemma calm_issue: "calm R l \<Longrightarrow> issue l opr s = opr (Some R) Delivered s"
  by (rule issue_calm)

lemma calm_claim:
  assumes "calm_call R c" and "claim_generation cfg c key gid s = (r, s')"
  shows "(case r of
            Inl e \<Rightarrow> ks_data (view s') = ks_data (view s)
          | Inr previous \<Rightarrow>
              ks_data (view s) (generation_reservation_key key gid) = None \<and>
              latest_value key (view s) = map_option RString previous \<and>
              ks_data (view s') = (ks_data (view s))
                (generation_reservation_key key gid \<mapsto>
                   (RString ''1'', Some (second * generation_retention_ttl_seconds cfg)),
                 latest_generation_key key \<mapsto>
                   (RString gid, Some (second * generation_retention_ttl_seconds cfg))))"
proof -
  note c = assms(1) [unfolded calm_call_def, simplified]
  have r: "r = fst (claim_generation cfg c key gid s)" and s': "s' = snd (claim_generation cfg c key gid s)"
    using assms(2) by simp_all
  show ?thesis
    unfolding r s' claim_generation_def give_up_id_def give_up_latest_def
    using c
    by (cases "ks_data (view s) (generation_reservation_key key gid)";
        cases "ks_data (view s) (latest_generation_key key)")
       (auto simp: calm_issue split_beta Let_def start_op_results ks_start_ops latest_value_def fun_eq_iff
          split: rval.splits)
qed

lemma calm_acquire:
  assumes "calm_call R c" and "acquire_call cfg c key s = ((ok, token), s')"
  shows "ok \<Longrightarrow> token = Some (sc_token c) \<and> ks_data (view s) (active_lock_key key) = None \<and>
           ks_data (view s') = (ks_data (view s))
             (active_lock_key key \<mapsto> (RString (sc_token c), Some (second * cc_active_job_lock_ttl_seconds cfg)))"
    and "\<not> ok \<Longrightarrow> ks_data (view s') = ks_data (view s)"
proof -
  have "try_acquire_active_job_lock cfg (Some ks_cmds) Delivered key (sc_token c) (view s) = ((ok, token), view s')"
    using assms by (intro sim_step [OF sim_acquire]) (simp add: calm_call_def calm_issue)
  note this [symmetric]
  then show "ok \<Longrightarrow> token = Some (sc_token c) \<and> ks_data (view s) (active_lock_key key) = None \<and>
           ks_data (view s') = (ks_data (view s))
             (active_lock_key key \<mapsto> (RString (sc_token c), Some (second * cc_active_job_lock_ttl_seconds cfg)))"
    and "\<not> ok \<Longrightarrow> ks_data (view s') = ks_data (view s)"
    by (auto simp: ks_take_lock split: if_splits)
qed

lemma calm_clear:
  "calm_call R c \<Longrightarrow> ks_data (view (clear_call c key s)) = (ks_data (view s))(cancel_request_key key := None)"
  by (simp add: calm_call_def calm_issue start_op_results ks_clear)

lemma calm_give_up_lock:
  assumes "calm_call R c" and "ks_data (view s) (active_lock_key key) = Some (RString tok, t)" and "tok \<noteq> []"
  shows "ks_data (view (give_up_lock c key (Some tok) s)) = (ks_data (view s))(active_lock_key key := None)"
  using assms by (simp add: calm_call_def calm_issue start_op_results ks_drop_lock give_up_lock_def)

lemma calm_give_up_id:
  "calm_call R c \<Longrightarrow>
   ks_data (view (give_up_id c key gid s)) = (ks_data (view s))(generation_reservation_key key gid := None)"
  by (simp add: calm_call_def calm_issue start_op_results ks_unreserve give_up_id_def)

lemma calm_give_up_latest:
  assumes "calm_call R c" and "ks_data (view s) (latest_generation_key key) = Some (RString gid, t)"
  shows "ks_data (view (give_up_latest cfg c key gid previous s)) = (ks_data (view s))
    (latest_generation_key key :=
       if previous = None \<or> previous = Some [] then None else Some (RString (the previous), retention_life cfg))"
  using assms by (simp add: calm_call_def calm_issue start_op_results ks_restore give_up_latest_def)

lemma calm_started:
  assumes "calm_call R c" and "start_generation_job env cfg configured c key sv = (Inr a, sv')"
  shows "ks_data (view (gs_redis sv')) (active_lock_key key) =
           Some (RString (sc_token c), Some (second * cc_active_job_lock_ttl_seconds cfg))"
    and "ks_data (view (gs_redis sv')) (latest_generation_key key) =
           Some (RString (selected_generation_id c), retention_life cfg)"
    and "ks_data (view (gs_redis sv')) (generation_reservation_key key (selected_generation_id c)) =
           Some (RString ''1'', retention_life cfg)"
    and "is_valid_generation_id (selected_generation_id c)"
proof -
  from assms(2) refl refl
  have "ks_data (view (gs_redis sv')) (active_lock_key key) =
          Some (RString (sc_token c), Some (second * cc_active_job_lock_ttl_seconds cfg)) \<and>
        ks_data (view (gs_redis sv')) (latest_generation_key key) =
          Some (RString (selected_generation_id c), retention_life cfg) \<and>
        ks_data (view (gs_redis sv')) (generation_reservation_key key (selected_generation_id c)) =
          Some (RString ''1'', retention_life cfg) \<and>
        is_valid_generation_id (selected_generation_id c)"
  proof (cases rule: start_generation_job_cases)
    case (started token s s' previous x slot)
    show ?thesis
      using calm_acquire(1) [OF assms(1) started(1) TrueI] calm_claim [OF assms(1) started(4)]
        calm_clear [OF assms(1), of key s] started(3)
      by (simp add: started)
  qed simp_all
  then show "ks_data (view (gs_redis sv')) (active_lock_key key) =
           Some (RString (sc_token c), Some (second * cc_active_job_lock_ttl_seconds cfg))"
    and "ks_data (view (gs_redis sv')) (latest_generation_key key) =
           Some (RString (selected_generation_id c), retention_life cfg)"
    and "ks_data (view (gs_redis sv')) (generation_reservation_key key (selected_generation_id c)) =
           Some (RString ''1'', retention_life cfg)"
    and "is_valid_generation_id (selected_generation_id c)"
    by blast+
qed

end

section \<open>Jobs of a worker\<close>

text \<open>
  What can happen to a worker's tables: a start (with any outcome), the clean-up, a reset, progress of a
  job (a job keeps its id, and once done it stays done), the listener thread's own steps, and anything
  that happens on the server.
\<close>

inductive worker_step :: "'s gen_service \<Rightarrow> 's gen_service \<Rightarrow> bool" where
  start: "start_generation_job env cfg configured c key sv = (r, sv') \<Longrightarrow> worker_step sv sv'"
| cleanup: "worker_step sv (cleanup_expired_jobs cfg now sv)"
| reset: "worker_step sv (sv\<lparr>gs_jobs := Map.empty, gs_retained := Map.empty\<rparr>)"
| progress: "a < length (gs_heap sv) \<Longrightarrow> jb_generation_id j' = jb_generation_id (job_at sv a) \<Longrightarrow>
    (jb_is_done (job_at sv a) \<Longrightarrow> jb_is_done j') \<Longrightarrow> worker_step sv (advance cfg ls l a j' sv)"
| listener: "worker_step sv (sv\<lparr>gs_listener := slot\<rparr>)"
| server: "worker_step sv (sv\<lparr>gs_redis := s\<rparr>)"

text \<open>Every running job on file is its room's current job.\<close>

definition tables_ok :: "'s gen_service \<Rightarrow> bool" where
  "tables_ok sv \<longleftrightarrow>
     (\<forall>k a. gs_jobs sv k = Some a \<longrightarrow> a < length (gs_heap sv)) \<and>
     (\<forall>k g a. gs_retained sv (k, g) = Some a \<longrightarrow>
        a < length (gs_heap sv) \<and> jb_generation_id (job_at sv a) = g \<and>
        (jb_is_done (job_at sv a) \<or> gs_jobs sv k = Some a))"

lemma tables_okD:
  assumes "tables_ok sv"
  shows "gs_jobs sv k = Some a \<Longrightarrow> a < length (gs_heap sv)"
    and "gs_retained sv (k, g) = Some a \<Longrightarrow> a < length (gs_heap sv) \<and> jb_generation_id (job_at sv a) = g \<and>
        (jb_is_done (job_at sv a) \<or> gs_jobs sv k = Some a)"
  using assms by (auto simp: tables_ok_def)

lemma tables_okI:
  assumes "\<And>k a. gs_jobs sv k = Some a \<Longrightarrow> a < length (gs_heap sv)"
    and "\<And>k g a. gs_retained sv (k, g) = Some a \<Longrightarrow> a < length (gs_heap sv) \<and>
        jb_generation_id (job_at sv a) = g \<and> (jb_is_done (job_at sv a) \<or> gs_jobs sv k = Some a)"
  shows "tables_ok sv"
  using assms by (auto simp: tables_ok_def)

lemma cleanup_simps [simp]:
  "gs_heap (cleanup_expired_jobs cfg now sv) = gs_heap sv"
  "gs_redis (cleanup_expired_jobs cfg now sv) = gs_redis sv"
  "gs_jobs (cleanup_expired_jobs cfg now sv) k = Some a \<longleftrightarrow>
     gs_jobs sv k = Some a \<and> \<not> job_expired cfg now (job_at sv a)"
  "gs_retained (cleanup_expired_jobs cfg now sv) kg = Some a \<longleftrightarrow>
     gs_retained sv kg = Some a \<and> \<not> job_expired cfg now (job_at sv a)"
  by (auto simp: cleanup_expired_jobs_def Let_def split: bind_splits if_splits)

lemma running_not_expired: "\<not> jb_is_done j \<Longrightarrow> \<not> job_expired cfg now j"
  by (simp add: job_expired_def)

lemma tables_ok_cleanup: "tables_ok sv \<Longrightarrow> tables_ok (cleanup_expired_jobs cfg now sv)"
  by (rule tables_okI) (auto dest: tables_okD simp: running_not_expired)

lemma tables_ok_grow:
  assumes "tables_ok sv"
  shows "tables_ok (sv\<lparr>gs_heap := gs_heap sv @ [rj], gs_submitted := sub, gs_executor := x,
           gs_listener := slot, gs_redis := s\<rparr>)"
  by (rule tables_okI) (auto dest: tables_okD [OF assms] simp: nth_append)

lemma tables_ok_redis: "tables_ok sv \<Longrightarrow> tables_ok (sv\<lparr>gs_redis := s\<rparr>)"
  by (simp add: tables_ok_def)

lemma tables_ok_listener: "tables_ok sv \<Longrightarrow> tables_ok (sv\<lparr>gs_listener := slot\<rparr>)"
  by (simp add: tables_ok_def)

lemma tables_ok_file:
  assumes "tables_ok sv" and "room_conflict key gid sv = None"
  shows "tables_ok (sv\<lparr>gs_heap := gs_heap sv @ [\<lparr>rj_key = key, rj_token = token, rj_job = new_job gid\<rparr>],
           gs_jobs := (gs_jobs sv)(key \<mapsto> length (gs_heap sv)),
           gs_retained := (gs_retained sv)((key, gid) \<mapsto> length (gs_heap sv)),
           gs_submitted := sub, gs_executor := x, gs_listener := slot, gs_redis := s\<rparr>)"
    (is "tables_ok ?sv")
proof (rule tables_okI)
  fix k a
  assume "gs_jobs ?sv k = Some a"
  then show "a < length (gs_heap ?sv)" by (auto dest: tables_okD(1) [OF assms(1)] split: if_splits)
next
  fix k g a
  assume a: "gs_retained ?sv (k, g) = Some a"
  show "a < length (gs_heap ?sv) \<and> jb_generation_id (job_at ?sv a) = g \<and>
      (jb_is_done (job_at ?sv a) \<or> gs_jobs ?sv k = Some a)"
  proof (cases "(k, g) = (key, gid)")
    case True
    with a show ?thesis by (auto simp: new_job_def)
  next
    case False
    with a have "gs_retained sv (k, g) = Some a" by (auto split: if_splits)
    note ok = tables_okD(2) [OF assms(1) this]
    have "jb_is_done (job_at sv a)" if "gs_jobs sv key = Some a"
      using assms(2) that by (auto simp: room_conflict_def Let_def split: if_splits)
    with ok show ?thesis by (auto simp: nth_append)
  qed
qed

lemma tables_ok_start:
  assumes "tables_ok sv" and "start_generation_job env cfg configured c key sv = (r, sv')"
  shows "tables_ok sv'"
  using assms(2) refl refl
proof (cases rule: start_generation_job_cases)
  case (started token s s' previous x slot)
  then show ?thesis by (simp only: tables_ok_file tables_ok_cleanup assms(1))
next
  case (unheard token s s' previous slot)
  then show ?thesis
    using tables_ok_file [OF tables_ok_cleanup [OF assms(1)] unheard(2), where token = token]
    by (simp add: tables_ok_def)
next
  case (failed token s s' previous x sub slot e)
  then show ?thesis by (simp only: tables_ok_grow tables_ok_cleanup assms(1))
qed (simp_all only: assms(1) tables_ok_redis tables_ok_cleanup)

lemma tables_ok_progress:
  assumes "tables_ok sv" and "a < length (gs_heap sv)" and "jb_generation_id j' = jb_generation_id (job_at sv a)"
    and "jb_is_done (job_at sv a) \<Longrightarrow> jb_is_done j'"
  shows "tables_ok (advance cfg ls l a j' sv)"
proof (rule tables_okI; unfold advance_def Let_def)
qed (use assms(2-4) in \<open>auto simp: nth_list_update dest: tables_okD [OF assms(1)]\<close>)

lemma tables_ok_reset: "tables_ok (sv\<lparr>gs_jobs := Map.empty, gs_retained := Map.empty\<rparr>)"
  by (simp add: tables_ok_def)

lemma worker_step_ok: "worker_step sv sv' \<Longrightarrow> tables_ok sv \<Longrightarrow> tables_ok sv'"
  by (induction rule: worker_step.induct)
     (blast intro: tables_ok_start tables_ok_cleanup tables_ok_progress tables_ok_redis tables_ok_listener tables_ok_reset)+

definition idle_worker :: "'s \<Rightarrow> 's gen_service" where
  "idle_worker s =
     \<lparr>gs_heap = [], gs_jobs = Map.empty, gs_retained = Map.empty, gs_submitted = [],
      gs_executor = new_executor, gs_listener = None, gs_redis = s\<rparr>"

lemma worker_reachable_ok: "worker_step\<^sup>*\<^sup>* (idle_worker s) sv \<Longrightarrow> tables_ok sv"
proof (induction rule: rtranclp_induct)
  case base
  show ?case by (simp add: tables_ok_def idle_worker_def)
qed (auto intro: worker_step_ok)

lemma split_at_first:
  "a @ c # r = b @ c # r' \<Longrightarrow> c \<notin> set a \<Longrightarrow> c \<notin> set b \<Longrightarrow> a = b \<and> r = r'"
proof (induction a arbitrary: b)
  case Nil
  then show ?case by (cases b) auto
next
  case (Cons x a)
  then show ?case by (cases b) auto
qed

lemma show_int_no_colon: "CHR '':'' \<notin> set (show_int i)"
proof -
  have "CHR '':'' \<notin> set (show_nat n)" for n
    using show_nat_digits [of n] by (auto simp: list_all_iff is_digit_def)
  then show ?thesis by (simp add: show_int_def)
qed

section \<open>Properties\<close>

text \<open>
  C2: a start that fails.  The calls to Redis are delivered and nobody interferes with them, and the
  latest id stored for the room is not the empty string (the code never writes one).  If the thread that
  listens for stop requests can be started (or already runs), a start that fails leaves no trace,
  whatever the reason (the room is busy, the id is taken, the pool is full, the renewal thread cannot be
  started, ...): the worker's tables are what they were (up to expired jobs), the room's lock and the
  id's reservation are given back, the room's latest id is the one before, and nothing else on the server
  changed but the stop marker of the room.  If the listener thread cannot be started, nothing is undone:
  the job stays the room's current job, is never handed to the pool, the room's lock is kept, and
  every later start of the worker in this room finds the room busy.
\<close>

theorem failed_start_rolls_back:
  assumes "redis_server R view elapse" and "calm_call R c" and "sc_token c \<noteq> []"
    and "latest_value key (view (gs_redis sv)) \<noteq> Some (RString [])"
    and "start_generation_job env cfg configured c key sv = (Inl e, sv')"
  shows "if e = ListenerNotStarted
         then gs_submitted sv' = gs_submitted sv \<and>
              stored_token key (view (gs_redis sv')) = Some (sc_token c) \<and>
              (\<exists>a. gs_jobs sv' key = Some a \<and> \<not> jb_is_done (job_at sv' a) \<and> length (gs_heap sv) = a) \<and>
              (\<forall>gid. room_conflict key gid sv' = Some AlreadyRunning)
         else ((gs_jobs sv', gs_retained sv') = (gs_jobs sv, gs_retained sv) \<or>
               (gs_jobs sv', gs_retained sv') =
                 (gs_jobs (cleanup_expired_jobs cfg (sc_now c) sv), gs_retained (cleanup_expired_jobs cfg (sc_now c) sv))) \<and>
              (\<forall>k. k = cancel_request_key key \<or> k = latest_generation_key key \<or>
                   ks_data (view (gs_redis sv')) k = ks_data (view (gs_redis sv)) k) \<and>
              latest_value key (view (gs_redis sv')) = latest_value key (view (gs_redis sv))"
proof -
  let ?base = "cleanup_expired_jobs cfg (sc_now c) sv"
  have redis: "gs_redis ?base = gs_redis sv" by (simp add: cleanup_expired_jobs_def Let_def)
  note calm_acquire = redis_server.calm_acquire [OF assms(1,2)]
    and calm_clear = redis_server.calm_clear [OF assms(1,2)]
    and calm_claim = redis_server.calm_claim [OF assms(1,2)]
    and drop_lock = redis_server.calm_give_up_lock [OF assms(1,2) _ assms(3)]
    and drop_id = redis_server.calm_give_up_id [OF assms(1,2)]
    and drop_latest = redis_server.calm_give_up_latest [OF assms(1,2)]
  show ?thesis
    using assms(5) refl refl
  proof (cases rule: start_generation_job_cases)
    case (refused e)
    then show ?thesis by simp
  next
    case (busy t s)
    then show ?thesis using calm_acquire(2) [OF busy(1)] by (simp add: latest_value_def redis)
  next
    case (conflict token s e)
    then show ?thesis
      using calm_acquire(1) [OF conflict(1)] by (auto simp: drop_lock calm_clear latest_value_def redis)
  next
    case (unheard token s s' previous slot)
    have "gs_submitted ?base = gs_submitted sv" by (simp add: cleanup_expired_jobs_def Let_def)
    with unheard show ?thesis
      using calm_acquire(1) [OF unheard(1) TrueI] calm_claim [OF unheard(3)] calm_clear [of key s]
      by (simp add: stored_token_def room_conflict_def new_job_def)
  next
    case (unclaimed token s s' e)
    then show ?thesis
      using calm_acquire(1) [OF unclaimed(1)] calm_claim [OF unclaimed(2)]
      by (auto simp: drop_lock calm_clear latest_value_def redis)
  next
    case (failed token s s' previous x sub slot e)
    then show ?thesis
      using calm_acquire(1) [OF failed(1)] calm_claim [OF failed(2)] assms(4)
      by (auto simp: drop_lock drop_id drop_latest calm_clear latest_value_def redis)
  next
    case (started token s s' previous x slot)
    then show ?thesis by simp
  qed
qed

text \<open>A call for examples, on the keyspace itself.\<close>

definition calm_link :: "keyspace link" where
  "calm_link = \<lparr>lk_client = Some ks_cmds, lk_fault = Delivered, lk_before = id\<rparr>"

definition example_id :: string where
  "example_id = ''0123456789abcdef0123456789abcdef''"

definition example_call :: "bool \<Rightarrow> bool \<Rightarrow> bool \<Rightarrow> string \<Rightarrow> keyspace start_call" where
  "example_call listening accepted thread_starts token =
     \<lparr>sc_generation_id = Some example_id, sc_fresh_id = [], sc_token = token, sc_now = 0,
      sc_probe = Some ks_cmds, sc_acquire = calm_link, sc_clear = calm_link, sc_reserve = calm_link,
      sc_latest = calm_link, sc_set_latest = calm_link, sc_restore = calm_link, sc_unreserve = calm_link,
      sc_release = calm_link, sc_listener_client = Some ks_cmds, sc_listener_pubsub = True,
      sc_listener_starts = listening, sc_accepted = accepted, sc_thread_starts = thread_starts\<rparr>"

lemma example_call_calm: "calm_call ks_cmds (example_call h a t tok)"
  by (simp add: calm_call_def example_call_def calm_def calm_link_def)

lemma example_id_valid: "is_valid_generation_id example_id"
  by code_simp

lemma example_call_sel [simp]:
  "sc_token (example_call h a t tok) = tok" "selected_generation_id (example_call h a t tok) = example_id"
  "sc_probe (example_call h a t tok) = Some ks_cmds" "sc_now (example_call h a t tok) = 0"
  by (simp_all add: example_call_def selected_generation_id_def example_id_def)

lemma example_calls:
  "acquire_call cfg (example_call h a t tok) key s = try_acquire_active_job_lock cfg (Some ks_cmds) Delivered key tok s"
  "clear_call (example_call h a t tok) key s = drop_key (cancel_request_key key) s"
  "give_up_lock (example_call h a t tok) key token s = snd (release_active_job_lock (Some ks_cmds) Delivered key token s)"
  "give_up_id (example_call h a t tok) key gid s = drop_key (generation_reservation_key key gid) s"
  by (simp_all add: example_call_def calm_link_def issue_def ks_clear give_up_lock_def give_up_id_def ks_unreserve)

theorem failed_start_rolls_back_witness:
  "\<exists>sv'. start_generation_job (\<lambda>_. None) example_cfg True (example_call True False True ''t1'') ''room''
           (idle_worker empty_keyspace) = (Inl PoolRefused, sv') \<and>
         ks_data (gs_redis sv') (active_lock_key ''room'') = None"
proof -
  let ?c = "example_call True False True ''t1''"
  obtain e sv' where s: "start_generation_job (\<lambda>_. None) example_cfg True ?c ''room'' (idle_worker empty_keyspace) = (Inl e, sv')"
    and e: "e = PoolRefused"
  proof -
    have "fst (start_generation_job (\<lambda>_. None) example_cfg True ?c ''room'' (idle_worker empty_keyspace)) = Inl PoolRefused"
      by code_simp
    then show ?thesis using that by (metis prod.collapse)
  qed
  have "latest_value ''room'' (id (gs_redis (idle_worker empty_keyspace))) \<noteq> Some (RString [])"
    by (simp add: latest_value_def idle_worker_def empty_keyspace_def)
  from failed_start_rolls_back [OF reference_server.redis_server_axioms example_call_calm _ this s]
  have "ks_data (gs_redis sv') (active_lock_key ''room'') = None"
    using e by (auto simp: idle_worker_def empty_keyspace_def dest: spec [of _ "active_lock_key ''room''"])
  with s e show ?thesis by blast
qed

text \<open>
  C34: one running job per room and worker.  After any sequence of starts (successful or not), stops,
  clean-ups, resets and job progress, two running jobs that the worker keeps for the same room are the
  same job, and it is the room's current job, the one a stop request reaches.
\<close>

theorem one_running_job_per_room:
  assumes "worker_step\<^sup>*\<^sup>* (idle_worker s) sv"
    and "gs_retained sv (key, g) = Some a" and "gs_retained sv (key, g') = Some b"
    and "\<not> jb_is_done (job_at sv a)" and "\<not> jb_is_done (job_at sv b)"
  shows "a = b \<and> g = g' \<and> gs_jobs sv key = Some a"
  using tables_okD(2) [OF worker_reachable_ok [OF assms(1)]] assms(2-5) by (metis option.inject)

theorem one_running_job_per_room_witness:
  "\<exists>sv. worker_step\<^sup>*\<^sup>* (idle_worker empty_keyspace) sv \<and> gs_jobs sv ''room'' = Some 0 \<and> \<not> jb_is_done (job_at sv 0)"
proof -
  let ?run = "start_generation_job (\<lambda>_. None) example_cfg True (example_call True True True ''t1'') ''room'' (idle_worker empty_keyspace)"
  let ?sv = "snd ?run"
  have "worker_step (idle_worker empty_keyspace) ?sv"
    using worker_step.start by (metis prod.collapse)
  then have run: "worker_step\<^sup>*\<^sup>* (idle_worker empty_keyspace) ?sv" by blast
  have "gs_retained ?sv (''room'', example_id) = Some 0 \<and> \<not> jb_is_done (job_at ?sv 0)" by code_simp
  with one_running_job_per_room [OF run, of "''room''" example_id 0 example_id 0] run show ?thesis by blast
qed

text \<open>
  A started generation is visible to every worker.  On the server the room's lock carries the start's
  token and the room's latest id is the new one; a worker that shares the server resolves that id,
  reports the room as busy and the id as taken.
\<close>

theorem started_generation_visible:
  assumes "redis_server R view elapse" and "calm_call R c"
    and "start_generation_job env cfg configured c key sv = (Inr a, sv')"
    and "gs_redis w = gs_redis sv'" and "calm R l"
  shows "stored_token key (view (gs_redis sv')) = Some (sc_token c) \<and>
         fst (resolve_latest_generation_id cfg configured l now key w) = Inr (Some (selected_generation_id c)) \<and>
         fst (has_active_generation cfg l now key w) \<and>
         fst (is_generation_id_available cfg configured l now key (selected_generation_id c) w) = Inr False"
proof -
  let ?gid = "selected_generation_id c" and ?s = "gs_redis sv'"
  note started = redis_server.calm_started [OF assms(1-3)]
  have "fst (get_latest_generation_id (Some R) Delivered key ?s) = Inr (Some ?gid)"
    using sim_fst [OF redis_server.sim_get_latest [OF assms(1)], of Delivered key ?s] started(2)
    by (simp add: ks_get_latest)
  moreover have "fst (has_active_lock (Some R) Delivered key ?s)"
    using redis_server.has_active_lock_view(2) [OF assms(1) prod.collapse [symmetric] refl] started(1) by simp
  moreover have "fst (rc_exists R (generation_reservation_key key ?gid) ?s) = Inr True"
    using sim_fst [OF redis_server.sim_exists [OF assms(1)], of "generation_reservation_key key ?gid" ?s] started(3)
    by simp
  ultimately show ?thesis
    using started(1,4) assms(4,5)
    by (auto simp: stored_token_def resolve_latest_generation_id_def has_active_generation_def
          is_generation_id_available_def generation_store_unavailable_def calm_def issue_def split_beta Let_def)
qed

theorem started_generation_visible_witness:
  "let r = start_generation_job (\<lambda>_. None) example_cfg True (example_call True True True ''t1'') ''room'' (idle_worker empty_keyspace)
   in fst (resolve_latest_generation_id example_cfg True calm_link 0 ''room'' (idle_worker (gs_redis (snd r)))) =
      Inr (Some example_id)"
proof -
  let ?r = "start_generation_job (\<lambda>_. None) example_cfg True (example_call True True True ''t1'') ''room'' (idle_worker empty_keyspace)"
  have "fst ?r = Inr 0" by code_simp
  then have "?r = (Inr 0, snd ?r)" by (metis prod.collapse)
  moreover have "gs_redis (idle_worker (gs_redis (snd ?r))) = gs_redis (snd ?r)" by (simp add: idle_worker_def)
  moreover have "calm ks_cmds calm_link" by (simp add: calm_def calm_link_def)
  ultimately show ?thesis
    using started_generation_visible [OF reference_server.redis_server_axioms example_call_calm, where l = calm_link]
    unfolding Let_def by (metis example_call_sel(2))
qed

text \<open>
  No second generation.  While the lock of a started job lives, no worker can start another
  generation in the room; and as long as the reservation lives, no worker can start one with the same
  id, even when the lock is gone.
\<close>

theorem second_start_refused:
  assumes "redis_server R view elapse" and "calm_call R c" and "calm_call R c'"
    and "start_generation_job env cfg configured c key sv = (Inr a, sv')"
    and "gs_redis w = elapse d (gs_redis sv')"
    and "d < second * cc_active_job_lock_ttl_seconds cfg \<or>
         d < second * generation_retention_ttl_seconds cfg \<and> selected_generation_id c' = selected_generation_id c"
  shows "isl (fst (start_generation_job env cfg' configured' c' key w))"
proof (rule ccontr)
  assume "\<not> isl (fst (start_generation_job env cfg' configured' c' key w))"
  then obtain b w' where second: "start_generation_job env cfg' configured' c' key w = (Inr b, w')"
    by (metis isl_def prod.collapse sum.exhaust_sel)
  note first = redis_server.calm_started [OF assms(1,2,4)]
  from second refl refl show False
  proof (cases rule: start_generation_job_cases)
    case (started token s s' previous x slot)
    note acq = redis_server.calm_acquire(1) [OF assms(1,3) started(1) TrueI]
      and claim = redis_server.calm_claim [OF assms(1,3) started(4)]
      and clear = redis_server.calm_clear [OF assms(1,3), of key s]
    show False
      using acq claim clear assms(5,6) first
      by (auto simp: redis_server.view_elapse [OF assms(1)])
  qed simp_all
qed

theorem second_start_refused_witness:
  "let r = start_generation_job (\<lambda>_. None) example_cfg True (example_call True True True ''t1'') ''room'' (idle_worker empty_keyspace)
   in isl (fst (start_generation_job (\<lambda>_. None) example_cfg True (example_call True True True ''t2'') ''room''
        (idle_worker (ks_elapse (59 * second) (gs_redis (snd r))))))"
proof -
  let ?r = "start_generation_job (\<lambda>_. None) example_cfg True (example_call True True True ''t1'') ''room'' (idle_worker empty_keyspace)"
  have "fst ?r = Inr 0" by code_simp
  then have "?r = (Inr 0, snd ?r)" by (metis prod.collapse)
  moreover have "gs_redis (idle_worker (ks_elapse (59 * second) (gs_redis (snd ?r)))) = ks_elapse (59 * second) (gs_redis (snd ?r))"
    by (simp add: idle_worker_def)
  moreover have "59 * second < second * cc_active_job_lock_ttl_seconds example_cfg" by (simp add: example_cfg_def)
  ultimately show ?thesis
    unfolding Let_def
    using second_start_refused [OF reference_server.redis_server_axioms example_call_calm example_call_calm] by blast
qed

text \<open>
  A start that fails can still leave a running task.  When the renewal thread cannot be started, the
  task is already in the pool: the start is undone and the room is free for another generation, but the
  job runs on without being on file and without a lock.
\<close>

theorem failed_start_can_leave_task:
  "let r = start_generation_job (\<lambda>_. None) example_cfg True (example_call True True False ''t1'') ''room'' (idle_worker empty_keyspace)
   in fst r = Inl ThreadNotStarted \<and> gs_submitted (snd r) = [0] \<and> \<not> jb_is_done (job_at (snd r) 0) \<and>
      gs_retained (snd r) (''room'', example_id) = None \<and> ks_data (gs_redis (snd r)) (active_lock_key ''room'') = None"
  by code_simp

text \<open>
  Rooms of different owners never share a generation key: keys of signed-in users determine the
  user and the room, keys of guests determine the session and the room when session ids hold no colon,
  and no user's key is a guest's key.
\<close>

theorem generation_keys_separate:
  assumes "CHR '':'' \<notin> set sid" and "CHR '':'' \<notin> set sid'"
  shows "(build_generation_key r (Some u) x = build_generation_key r' (Some u') x' \<longleftrightarrow> u = u' \<and> r = r') \<and>
         (build_generation_key r None (Some sid) = build_generation_key r' None (Some sid') \<longleftrightarrow> sid = sid' \<and> r = r') \<and>
         build_generation_key r (Some u) x \<noteq> build_generation_key r' None (Some sid)"
  using split_at_first [of "show_int u" "CHR '':''" r "show_int u'" r'] split_at_first [of sid "CHR '':''" r sid' r']
    assms show_int_no_colon [of u] show_int_no_colon [of u']
  by (auto simp: build_generation_key_def)

theorem generation_keys_separate_witness:
  "build_generation_key ''r'' (Some 7) None \<noteq> build_generation_key ''r'' None (Some ''7'')"
  using generation_keys_separate [of "''7''" "''7''" "''r''" 7 None] by simp

end

