(* ===== verification/Timestamps.thy ===== *)
theory Timestamps
  imports Calendar
begin

text \<open>
  Naive time stamps as text: Python's \<open>datetime.isoformat()\<close> and \<open>datetime.fromisoformat()\<close>.  Components
  take them as the argument \<open>T\<close>; the locale says what they rely on.  The pair at the end prints as
  \<open>isoformat\<close> does and reads the texts it prints (the library accepts further notations).
\<close>

record timestamp_text =
  ts_show :: "ticks \<Rightarrow> string"
  ts_parse :: "string \<Rightarrow> ticks option"

locale timestamps =
  fixes T :: timestamp_text and good :: "ticks \<Rightarrow> bool"
  assumes parse_show: "good t \<Longrightarrow> ts_parse T (ts_show T t) = Some t"
    and show_nonempty: "ts_show T t \<noteq> []"

section \<open>Fixed-width fields\<close>

fun scan_fixed :: "(nat + char) list \<Rightarrow> string \<Rightarrow> int list option" where
  "scan_fixed [] s = (if s = [] then Some [] else None)"
| "scan_fixed (Inl n # ps) s =
     (if n \<le> length s
      then (case dec_digits 0 (take n s) of
              None \<Rightarrow> None
            | Some i \<Rightarrow> map_option ((#) i) (scan_fixed ps (drop n s)))
      else None)"
| "scan_fixed (Inr c # ps) s =
     (case s of [] \<Rightarrow> None | x # xs \<Rightarrow> if x = c then scan_fixed ps xs else None)"

lemma dec_digits_zeros: "dec_digits 0 (replicate m CHR ''0'' @ s) = dec_digits 0 s"
  by (induction m) (simp_all add: is_digit_def digit_value_def)

lemma length_show_nat: "n < 10 ^ k \<Longrightarrow> 0 < k \<Longrightarrow> length (show_nat n) \<le> k"
proof (induction k arbitrary: n)
  case (Suc k)
  show ?case
  proof (cases "n < 10")
    case True
    then show ?thesis by (subst show_nat.simps) simp
  next
    case False
    then have "0 < k" using Suc.prems by (cases k) auto
    moreover have "n div 10 < 10 ^ k" using Suc.prems(1) by (simp add: less_mult_imp_div_less mult.commute)
    ultimately have "length (show_nat (n div 10)) \<le> k" by (intro Suc.IH) auto
    with False show ?thesis by (subst show_nat.simps) simp
  qed
qed simp

lemma scan_pad:
  assumes "0 \<le> i" and "i < 10 ^ n" and "0 < n"
  shows "scan_fixed (Inl n # ps) (pad n (show_int i) @ rest) = map_option ((#) i) (scan_fixed ps rest)"
proof -
  have "nat i < 10 ^ n" using assms(1,2) by (simp add: nat_less_iff)
  then have len: "length (pad n (show_int i)) = n"
    using length_show_nat [of "nat i" n] assms by (simp add: pad_def show_int_def)
  have "dec_digits 0 (pad n (show_int i)) = Some i"
    using assms(1) dec_digits_show_nat [of "nat i"] by (simp add: pad_def show_int_def dec_digits_zeros)
  with len show ?thesis by simp
qed

section \<open>\<open>isoformat\<close>\<close>

definition second_of_day :: "ticks \<Rightarrow> int" where
  "second_of_day t = t mod day_ticks div second"

definition microsecond :: "ticks \<Rightarrow> int" where
  "microsecond t = t mod second"

definition datetime_isoformat :: "ticks \<Rightarrow> string" where
  "datetime_isoformat t =
     isoformat (date_of t) @ ''T'' @ pad 2 (show_int (second_of_day t div 3600)) @ '':''
     @ pad 2 (show_int (second_of_day t div 60 mod 60)) @ '':'' @ pad 2 (show_int (second_of_day t mod 60))
     @ (if microsecond t = 0 then [] else ''.'' @ pad 6 (show_int (microsecond t)))"

abbreviation iso_fields :: "(nat + char) list" where
  "iso_fields \<equiv> [Inl 4, Inr CHR ''-'', Inl 2, Inr CHR ''-'', Inl 2, Inr CHR ''T'', Inl 2, Inr CHR '':'', Inl 2,
     Inr CHR '':'', Inl 2]"

definition datetime_of_fields :: "int list \<Rightarrow> ticks option" where
  "datetime_of_fields fs =
     (case fs of
        [y, m, d, hh, mm, ss, us] \<Rightarrow>
          if valid_date \<lparr>year = y, month = m, day = d\<rparr> \<and> hh < 24 \<and> mm < 60 \<and> ss < 60
          then Some (midnight \<lparr>year = y, month = m, day = d\<rparr> + ((hh * 60 + mm) * 60 + ss) * second + us)
          else None
      | _ \<Rightarrow> None)"

definition datetime_fromisoformat :: "string \<Rightarrow> ticks option" where
  "datetime_fromisoformat s =
     (case scan_fixed iso_fields s of
        Some fs \<Rightarrow> datetime_of_fields (fs @ [0])
      | None \<Rightarrow> Option.bind (scan_fixed (iso_fields @ [Inr CHR ''.'', Inl 6]) s) datetime_of_fields)"

definition in_calendar :: "ticks \<Rightarrow> bool" where
  "in_calendar t \<longleftrightarrow> day_ticks \<le> t \<and> year (date_of t) \<le> 9999"

lemma valid_date_fields:
  "valid_date d \<Longrightarrow> 1 \<le> year d \<and> 1 \<le> month d \<and> month d \<le> 12 \<and> 1 \<le> day d \<and> day d \<le> 31"
  by (auto simp: valid_date_def days_in_month_def split: if_splits)

lemma scan_iso_date:
  assumes "valid_date d" and "year d \<le> 9999"
  shows "scan_fixed (Inl 4 # Inr CHR ''-'' # Inl 2 # Inr CHR ''-'' # Inl 2 # ps) (isoformat d @ rest) =
         map_option (\<lambda>fs. year d # month d # day d # fs) (scan_fixed ps rest)"
  using valid_date_fields [OF assms(1)] assms(2)
  by (simp add: isoformat_def scan_pad option.map_comp comp_def del: scan_fixed.simps(2))

lemma clock_fields:
  fixes s :: int
  assumes "0 \<le> s" and "s < 86400"
  shows "0 \<le> s div 3600" "s div 3600 < 24" "0 \<le> s div 60 mod 60" "s div 60 mod 60 < 60"
    "0 \<le> s mod 60" "s mod 60 < 60" "(s div 3600 * 60 + s div 60 mod 60) * 60 + s mod 60 = s"
proof -
  have e: "s div 3600 = s div 60 div 60" using zdiv_zmult2_eq [of 60 s 60] by simp
  show "(s div 3600 * 60 + s div 60 mod 60) * 60 + s mod 60 = s" unfolding e div_mult_mod_eq by (rule refl)
qed (use assms in \<open>linarith+\<close>)

lemma second_of_day_bounds: "0 \<le> second_of_day t" "second_of_day t < 86400"
proof -
  have "0 \<le> t mod day_ticks" "t mod day_ticks < day_ticks" by simp_all
  then show "0 \<le> second_of_day t" "second_of_day t < 86400" unfolding second_of_day_def by linarith+
qed

lemma microsecond_bounds: "0 \<le> microsecond t" "microsecond t < 10 ^ 6"
  by (simp_all add: microsecond_def)

lemma moment_split: "midnight (date_of t) + second_of_day t * second + microsecond t = t"
proof -
  have "midnight (date_of t) + t mod day_ticks = t"
    unfolding midnight_def date_of_def toordinal_fromordinal by simp
  moreover have "t mod day_ticks mod second = t mod second" by (rule mod_mod_cancel) simp
  moreover have "t mod day_ticks = t mod day_ticks div second * second + t mod day_ticks mod second" by simp
  ultimately show ?thesis unfolding second_of_day_def microsecond_def by linarith
qed

lemma scan_iso_fields:
  assumes "valid_date d" and "year d \<le> 9999" and "0 \<le> hh" "hh < 24" "0 \<le> mm" "mm < 60" "0 \<le> ss" "ss < 60"
  shows "scan_fixed (iso_fields @ ps) (isoformat d @ ''T'' @ pad 2 (show_int hh) @ '':'' @ pad 2 (show_int mm) @ '':''
           @ pad 2 (show_int ss) @ rest) =
         map_option ((@) [year d, month d, day d, hh, mm, ss]) (scan_fixed ps rest)"
  using assms(3-8) unfolding append_Cons append_Nil
  by (simp add: scan_iso_date [OF assms(1,2)] scan_pad option.map_comp comp_def del: scan_fixed.simps(2))

lemma datetime_roundtrip:
  assumes "in_calendar t"
  shows "datetime_fromisoformat (datetime_isoformat t) = Some t"
proof -
  define d s us where "d = date_of t" and "s = second_of_day t" and "us = microsecond t"
  let ?fs = "[year d, month d, day d, s div 3600, s div 60 mod 60, s mod 60]"
  have "1 \<le> t div day_ticks" using assms by (simp add: in_calendar_def pos_imp_zdiv_pos_iff int_one_le_iff_zero_less)
  then have v: "valid_date d" by (simp add: d_def date_of_def valid_fromordinal)
  have y: "year d \<le> 9999" using assms by (simp add: in_calendar_def d_def)
  note c = clock_fields [OF second_of_day_bounds [of t], folded s_def]
  note u = microsecond_bounds [of t, folded us_def]
  have scan: "scan_fixed (iso_fields @ ps) (datetime_isoformat t) =
      map_option ((@) ?fs) (scan_fixed ps (if us = 0 then [] else ''.'' @ pad 6 (show_int us)))" for ps
    unfolding datetime_isoformat_def d_def [symmetric] s_def [symmetric] us_def [symmetric]
    by (intro scan_iso_fields v y c)
  have eta: "\<lparr>year = year d, month = month d, day = day d\<rparr> = d" by simp
  have "datetime_of_fields (?fs @ [us]) =
      Some (midnight d + ((s div 3600 * 60 + s div 60 mod 60) * 60 + s mod 60) * second + us)"
    using v c(2,4,6) by (simp only: datetime_of_fields_def append.simps list.case eta simp_thms if_True)
  then have fields: "datetime_of_fields (?fs @ [us]) = Some t"
    by (simp only: c(7) moment_split [of t, folded d_def s_def us_def])
  show ?thesis
  proof (cases "us = 0")
    case True
    with scan [of "[]"] fields show ?thesis unfolding datetime_fromisoformat_def by simp
  next
    case False
    then have "scan_fixed iso_fields (datetime_isoformat t) = None" using scan [of "[]"] by simp
    moreover have "scan_fixed (iso_fields @ [Inr CHR ''.'', Inl 6]) (datetime_isoformat t) = Some (?fs @ [us])"
      using False scan [of "[Inr CHR ''.'', Inl 6]"] scan_pad [of us 6 "[]" "[]"] u
      by (simp del: scan_fixed.simps(2))
    ultimately show ?thesis using fields by (simp add: datetime_fromisoformat_def del: scan_fixed.simps)
  qed
qed

interpretation iso_text: timestamps
  "\<lparr>ts_show = datetime_isoformat, ts_parse = datetime_fromisoformat\<rparr>" in_calendar
  by unfold_locales (simp_all add: datetime_roundtrip, simp add: datetime_isoformat_def isoformat_def Let_def)

end
