(* ===== verification/Ephemeral_Store.thy ===== *)
theory Ephemeral_Store
  imports Redis_Server Json Timestamps
begin

text \<open>
  \<open>EphemeralChatStore\<close> of \<open>services/ephemeral_store.py\<close>: the chat rooms of guests, kept in Redis with a
  sliding expiry or, without Redis, in process memory.  A room is the dictionary the code stores as
  JSON.  An update reads the room, changes it and writes it back; in Redis it runs under
  \<open>WATCH\<close>/\<open>MULTI\<close>/\<open>EXEC\<close> and is retried when the server reports a conflict.  Time stamps are printed and read
  by \<open>T\<close>; the clock readings of a call are arguments.
\<close>

datatype store_error = RedisFailed redis_exn | NotADict

record 's eph_store =
  es_memory :: "(string \<times> (string \<times> dict) list) list"
  es_client :: "'s redis_cmds option"
  es_redis :: 's

text \<open>\<open>_get_redis\<close>: \<open>obtained\<close> is what \<open>get_redis_client()\<close> would return; only a client is remembered.\<close>

definition get_redis :: "'s redis_cmds option \<Rightarrow> 's eph_store \<Rightarrow> 's redis_cmds option \<times> 's eph_store" where
  "get_redis obtained st =
     (case es_client st of
        Some R \<Rightarrow> (Some R, st)
      | None \<Rightarrow> (obtained, st\<lparr>es_client := obtained\<rparr>))"

definition room_key :: "string \<Rightarrow> string \<Rightarrow> string" where
  "room_key sid room_id = ''ephemeral:'' @ sid @ '':'' @ room_id"

definition encode_room :: "dict \<Rightarrow> string" where
  "encode_room room = dumps (JObj room)"

definition decode_room :: "string \<Rightarrow> json" where
  "decode_room payload = (case loads payload of None \<Rightarrow> JObj [] | Some v \<Rightarrow> v)"

section \<open>Expiry\<close>

text \<open>Only a text or a number can print as a time stamp; every other value reads as none.\<close>

fun parse_timestamp :: "timestamp_text \<Rightarrow> json \<Rightarrow> ticks option" where
  "parse_timestamp T (JStr s) = (if s = [] then None else ts_parse T s)"
| "parse_timestamp T (JInt i) = (if i = 0 then None else ts_parse T (show_int i))"
| "parse_timestamp T _ = None"

definition expiry_baseline :: "timestamp_text \<Rightarrow> dict \<Rightarrow> ticks option" where
  "expiry_baseline T room =
     (case parse_timestamp T (dict_get ''last_active_at'' room) of
        Some t \<Rightarrow> Some t
      | None \<Rightarrow> parse_timestamp T (dict_get ''created_at'' room))"

definition remaining_ttl :: "timestamp_text \<Rightarrow> int \<Rightarrow> ticks \<Rightarrow> dict \<Rightarrow> int" where
  "remaining_ttl T expiration now room =
     (case expiry_baseline T room of
        None \<Rightarrow> expiration
      | Some t \<Rightarrow> max 0 (trunc_seconds (expiration * second - (now - t))))"

definition is_expired :: "timestamp_text \<Rightarrow> int \<Rightarrow> ticks \<Rightarrow> dict \<Rightarrow> bool" where
  "is_expired T expiration now room =
     (case expiry_baseline T room of
        None \<Rightarrow> False
      | Some t \<Rightarrow> expiration * second < now - t)"

definition cleanup ::
  "timestamp_text \<Rightarrow> int \<Rightarrow> ticks \<Rightarrow> 's redis_cmds option \<Rightarrow> 's eph_store \<Rightarrow> 's eph_store" where
  "cleanup T expiration now obtained st =
     (let (client, st) = get_redis obtained st
      in case client of
           Some _ \<Rightarrow> st
         | None \<Rightarrow>
             st\<lparr>es_memory :=
                  filter (\<lambda>(_, rooms). rooms \<noteq> [])
                    (map (\<lambda>(sid, rooms). (sid, filter (\<lambda>(_, room). \<not> is_expired T expiration now room) rooms))
                      (es_memory st))\<rparr>)"

section \<open>Rooms in memory\<close>

definition memory_room :: "string \<Rightarrow> string \<Rightarrow> 's eph_store \<Rightarrow> dict option" where
  "memory_room sid room_id st = Option.bind (map_of (es_memory st) sid) (\<lambda>rooms. map_of rooms room_id)"

definition memory_put :: "string \<Rightarrow> string \<Rightarrow> dict \<Rightarrow> 's eph_store \<Rightarrow> 's eph_store" where
  "memory_put sid room_id room st =
     (let rooms = (case map_of (es_memory st) sid of None \<Rightarrow> [] | Some rooms \<Rightarrow> rooms)
      in st\<lparr>es_memory := AList.update sid (AList.update room_id room rooms) (es_memory st)\<rparr>)"

definition touch :: "timestamp_text \<Rightarrow> ticks \<Rightarrow> dict \<Rightarrow> dict" where
  "touch T now room = AList.update ''last_active_at'' (JStr (ts_show T now)) room"

text \<open>A change of a room; \<open>None\<close> where the callback answers that nothing is to be saved.\<close>

type_synonym mutation = "dict \<Rightarrow> dict option"

definition mutate_room_in_memory ::
  "timestamp_text \<Rightarrow> ticks \<Rightarrow> string \<Rightarrow> string \<Rightarrow> mutation \<Rightarrow> 's eph_store \<Rightarrow> bool \<times> 's eph_store" where
  "mutate_room_in_memory T now sid room_id mutate st =
     (case memory_room sid room_id st of
        Some (kv # kvs) \<Rightarrow>
          (case mutate (kv # kvs) of
             None \<Rightarrow> (False, st)
           | Some room \<Rightarrow> (True, memory_put sid room_id (touch T now room) st))
      | _ \<Rightarrow> (False, st))"

section \<open>Rooms in Redis\<close>

text \<open>The empty and zero values, for which \<open>not value\<close> holds; a bare float is left to the type error.\<close>

fun json_falsy :: "json \<Rightarrow> bool" where
  "json_falsy JNull = True"
| "json_falsy (JBool b) = (\<not> b)"
| "json_falsy (JInt i) = (i = 0)"
| "json_falsy (JStr s) = (s = [])"
| "json_falsy (JArr vs) = (vs = [])"
| "json_falsy (JObj kvs) = (kvs = [])"
| "json_falsy (JFloat _) = False"

definition drop_room :: "'s redis_cmds \<Rightarrow> fault \<Rightarrow> string \<Rightarrow> 's \<Rightarrow> (store_error + dict option) \<times> 's" where
  "drop_room R f key s =
     (let (r, s) = redis_call f (rc_del R key) s
      in (case r of Inl e \<Rightarrow> Inl (RedisFailed e) | Inr _ \<Rightarrow> Inr None, s))"

definition read_room_from_redis ::
  "timestamp_text \<Rightarrow> int \<Rightarrow> ticks \<Rightarrow> 's redis_cmds \<Rightarrow> fault \<times> fault \<Rightarrow> string
     \<Rightarrow> 's \<Rightarrow> (store_error + dict option) \<times> 's" where
  "read_room_from_redis T expiration now R fs key s =
     (let (payload, s) = redis_call (fst fs) (rc_get R key) s
      in case payload of
           Inl e \<Rightarrow> (Inl (RedisFailed e), s)
         | Inr None \<Rightarrow> (Inr None, s)
         | Inr (Some txt) \<Rightarrow>
             if txt = [] then (Inr None, s)
             else if json_falsy (decode_room txt) then drop_room R (snd fs) key s
             else
               (case decode_room txt of
                  JObj room \<Rightarrow>
                    if is_expired T expiration now room then drop_room R (snd fs) key s
                    else (Inr (Some room), s)
                | _ \<Rightarrow> (Inl NotADict, s)))"

text \<open>
  \<open>_write_room_to_redis\<close>: whether the room is saved, and the command that is sent.  The two clock readings
  are the new baseline and the one the lifetime is computed from.
\<close>

definition write_room_to_redis ::
  "timestamp_text \<Rightarrow> int \<Rightarrow> ticks \<times> ticks \<Rightarrow> 's redis_cmds \<Rightarrow> string \<Rightarrow> dict \<Rightarrow> bool \<times> ('s, bool) rcmd" where
  "write_room_to_redis T expiration clocks R key room =
     (let room = touch T (fst clocks) room;
          ttl = remaining_ttl T expiration (snd clocks) room
      in if ttl \<le> 0 then (False, rc_del R key)
         else (True, rc_set R key (encode_room room) (Some ttl) False))"

abbreviation (input) MAX_ROOM_MUTATION_ATTEMPTS :: nat where
  "MAX_ROOM_MUTATION_ATTEMPTS \<equiv> 8"

text \<open>
  One attempt: the clocks, the fate of its requests, what other clients do between the reading and
  \<open>EXEC\<close>, and whether the server then reports that the watched key was touched.
\<close>

record 's attempt =
  at_now :: ticks
  at_read :: "fault \<times> fault"
  at_between :: "'s \<Rightarrow> 's"
  at_conflict :: bool
  at_clocks :: "ticks \<times> ticks"
  at_exec :: fault

definition send_write :: "fault \<Rightarrow> bool \<times> ('s, bool) rcmd \<Rightarrow> 's \<Rightarrow> (store_error + bool) \<times> 's" where
  "send_write f w s =
     (let (r, s) = redis_call f (snd w) s
      in (case r of Inl e \<Rightarrow> Inl (RedisFailed e) | Inr _ \<Rightarrow> Inr (fst w), s))"

fun mutate_attempts ::
  "timestamp_text \<Rightarrow> int \<Rightarrow> 's redis_cmds \<Rightarrow> string \<Rightarrow> mutation \<Rightarrow> (nat \<Rightarrow> 's attempt) \<Rightarrow> nat
     \<Rightarrow> 's \<Rightarrow> (store_error + bool) \<times> 's" where
  "mutate_attempts T expiration R key mutate atts 0 s = (Inr False, s)"
| "mutate_attempts T expiration R key mutate atts (Suc n) s =
     (let a = atts 0;
          (room, s) = read_room_from_redis T expiration (at_now a) R (at_read a) key s
      in case room of
           Inl e \<Rightarrow> (Inl e, s)
         | Inr None \<Rightarrow> (Inr False, s)
         | Inr (Some r) \<Rightarrow>
             (case mutate r of
                None \<Rightarrow> (Inr False, s)
              | Some r' \<Rightarrow>
                  (let s = at_between a s
                   in if at_conflict a
                      then mutate_attempts T expiration R key mutate (\<lambda>i. atts (Suc i)) n s
                      else send_write (at_exec a) (write_room_to_redis T expiration (at_clocks a) R key r') s)))"

definition mutate_room_without_watch ::
  "timestamp_text \<Rightarrow> int \<Rightarrow> 's redis_cmds \<Rightarrow> string \<Rightarrow> mutation \<Rightarrow> 's attempt
     \<Rightarrow> 's \<Rightarrow> (store_error + bool) \<times> 's" where
  "mutate_room_without_watch T expiration R key mutate a s =
     (let (room, s) = read_room_from_redis T expiration (at_now a) R (at_read a) key s
      in case room of
           Inl e \<Rightarrow> (Inl e, s)
         | Inr None \<Rightarrow> (Inr False, s)
         | Inr (Some r) \<Rightarrow>
             (case mutate r of
                None \<Rightarrow> (Inr False, s)
              | Some r' \<Rightarrow>
                  send_write (at_exec a) (write_room_to_redis T expiration (at_clocks a) R key r') (at_between a s)))"

definition mutate_room_in_redis ::
  "timestamp_text \<Rightarrow> int \<Rightarrow> bool \<Rightarrow> 's redis_cmds \<Rightarrow> string \<Rightarrow> mutation \<Rightarrow> (nat \<Rightarrow> 's attempt)
     \<Rightarrow> 's \<Rightarrow> (store_error + bool) \<times> 's" where
  "mutate_room_in_redis T expiration can_watch R key mutate atts =
     (if can_watch then mutate_attempts T expiration R key mutate atts MAX_ROOM_MUTATION_ATTEMPTS
      else mutate_room_without_watch T expiration R key mutate (atts 0))"

record 's room_call =
  rm_client :: "'s redis_cmds option"
  rm_can_watch :: bool
  rm_attempts :: "nat \<Rightarrow> 's attempt"

definition mutate_room ::
  "timestamp_text \<Rightarrow> int \<Rightarrow> 's room_call \<Rightarrow> string \<Rightarrow> string \<Rightarrow> mutation
     \<Rightarrow> 's eph_store \<Rightarrow> (store_error + bool) \<times> 's eph_store" where
  "mutate_room T expiration c sid room_id mutate st =
     (let (client, st) = get_redis (rm_client c) st
      in case client of
           Some R \<Rightarrow>
             (let (r, s) = mutate_room_in_redis T expiration (rm_can_watch c) R (room_key sid room_id) mutate
                             (rm_attempts c) (es_redis st)
              in (r, st\<lparr>es_redis := s\<rparr>))
         | None \<Rightarrow>
             (let (r, st) = mutate_room_in_memory T (fst (at_clocks (rm_attempts c 0))) sid room_id mutate st
              in (Inr r, st)))"

section \<open>Operations\<close>

definition create_room ::
  "timestamp_text \<Rightarrow> int \<Rightarrow> ticks \<Rightarrow> 's redis_cmds option \<Rightarrow> fault \<Rightarrow> string \<Rightarrow> string \<Rightarrow> string
     \<Rightarrow> 's eph_store \<Rightarrow> (store_error + unit) \<times> 's eph_store" where
  "create_room T expiration now obtained f sid room_id title st =
     (let created_at = JStr (ts_show T now);
          room = [(''title'', JStr title), (''messages'', JArr []), (''created_at'', created_at),
                  (''last_active_at'', created_at)];
          (client, st) = get_redis obtained st
      in case client of
           Some R \<Rightarrow>
             (let (r, s) = redis_call f (rc_set R (room_key sid room_id) (encode_room room) (Some expiration) False)
                             (es_redis st)
              in (case r of Inl e \<Rightarrow> Inl (RedisFailed e) | Inr _ \<Rightarrow> Inr (), st\<lparr>es_redis := s\<rparr>))
         | None \<Rightarrow> (Inr (), memory_put sid room_id room st))"

definition get_room ::
  "timestamp_text \<Rightarrow> int \<Rightarrow> ticks \<Rightarrow> 's redis_cmds option \<Rightarrow> fault \<times> fault \<Rightarrow> string \<Rightarrow> string
     \<Rightarrow> 's eph_store \<Rightarrow> (store_error + dict option) \<times> 's eph_store" where
  "get_room T expiration now obtained fs sid room_id st =
     (let (client, st) = get_redis obtained st
      in case client of
           Some R \<Rightarrow>
             (let (r, s) = read_room_from_redis T expiration now R fs (room_key sid room_id) (es_redis st)
              in (r, st\<lparr>es_redis := s\<rparr>))
         | None \<Rightarrow> (Inr (memory_room sid room_id st), st))"

definition room_exists ::
  "timestamp_text \<Rightarrow> int \<Rightarrow> ticks \<Rightarrow> 's redis_cmds option \<Rightarrow> fault \<times> fault \<Rightarrow> string \<Rightarrow> string
     \<Rightarrow> 's eph_store \<Rightarrow> (store_error + bool) \<times> 's eph_store" where
  "room_exists T expiration now obtained fs sid room_id st =
     (let (r, st) = get_room T expiration now obtained fs sid room_id st
      in (case r of Inl e \<Rightarrow> Inl e | Inr room \<Rightarrow> Inr (room \<noteq> None), st))"

definition delete_room ::
  "'s redis_cmds option \<Rightarrow> fault \<Rightarrow> string \<Rightarrow> string \<Rightarrow> 's eph_store
     \<Rightarrow> (store_error + bool) \<times> 's eph_store" where
  "delete_room obtained f sid room_id st =
     (let (client, st) = get_redis obtained st
      in case client of
           Some R \<Rightarrow>
             (let (r, s) = redis_call f (rc_del R (room_key sid room_id)) (es_redis st)
              in (case r of Inl e \<Rightarrow> Inl (RedisFailed e) | Inr b \<Rightarrow> Inr b, st\<lparr>es_redis := s\<rparr>))
         | None \<Rightarrow>
             (case map_of (es_memory st) sid of
                None \<Rightarrow> (Inr False, st)
              | Some rooms \<Rightarrow>
                  if map_of rooms room_id = None then (Inr False, st)
                  else
                    (let rooms = AList.delete room_id rooms
                     in (Inr True,
                         st\<lparr>es_memory := (if rooms = [] then AList.delete sid (es_memory st)
                                          else AList.update sid rooms (es_memory st))\<rparr>))))"

definition messages_of :: "dict \<Rightarrow> json list" where
  "messages_of room = (case dict_get ''messages'' room of JArr ms \<Rightarrow> ms | _ \<Rightarrow> [])"

definition with_messages :: "json list \<Rightarrow> dict \<Rightarrow> dict" where
  "with_messages ms room = AList.update ''messages'' (JArr ms) room"

definition has_role :: "string \<Rightarrow> json \<Rightarrow> bool" where
  "has_role role m \<longleftrightarrow> json_get ''role'' m = JStr role"

definition trim_trailing_user :: "nat \<Rightarrow> mutation" where
  "trim_trailing_user trailing_user_count room =
     (let messages = messages_of room;
          user_indices = filter (\<lambda>i. has_role ''user'' (messages ! i)) [0..<length messages]
      in if length user_indices \<le> trailing_user_count then None
         else
           Some (with_messages
                   (take (user_indices ! (length user_indices - 1 - trailing_user_count)) messages) room))"

definition trim_last_assistant :: "mutation" where
  "trim_last_assistant room =
     (let messages = messages_of room
      in case filter (\<lambda>i. has_role ''assistant'' (messages ! i)) [0..<length messages] of
           [] \<Rightarrow> None
         | i # is \<Rightarrow> Some (with_messages (take (last (i # is)) messages) room))"

definition trim_unanswered :: "mutation" where
  "trim_unanswered room =
     (let messages = messages_of room;
          kept = rev (dropWhile (has_role ''user'') (rev messages))
      in if length kept = length messages then None else Some (with_messages kept room))"

definition delete_messages_from_trailing_user_count where
  "delete_messages_from_trailing_user_count T expiration c sid room_id trailing_user_count =
     mutate_room T expiration c sid room_id (trim_trailing_user trailing_user_count)"

definition delete_last_assistant_message where
  "delete_last_assistant_message T expiration c sid room_id =
     mutate_room T expiration c sid room_id trim_last_assistant"

definition delete_unanswered_user_messages where
  "delete_unanswered_user_messages T expiration c sid room_id =
     mutate_room T expiration c sid room_id trim_unanswered"

definition rename_room where
  "rename_room T expiration c sid room_id new_title =
     mutate_room T expiration c sid room_id (\<lambda>room. Some (AList.update ''title'' (JStr new_title) room))"

text \<open>
  The stored form of a message.  \<open>files\<close> and \<open>images\<close> are what the encoders of \<open>services/attached_files.py\<close>
  and \<open>services/chat_images.py\<close> make of the attachments, \<open>None\<close> when there is nothing to store.
\<close>

definition message_entry ::
  "string \<Rightarrow> string \<Rightarrow> json list \<Rightarrow> json list \<Rightarrow> json option \<Rightarrow> json option \<Rightarrow> json" where
  "message_entry role content message_parts web_search_context files images =
     JObj ([(''role'', JStr role), (''content'', JStr content)]
       @ (if message_parts = [] then [] else [(''message_parts'', JArr message_parts)])
       @ (if web_search_context = [] then [] else [(''web_search_context'', JArr web_search_context)])
       @ (case files of None \<Rightarrow> [] | Some v \<Rightarrow> [(''attached_file_contents'', v)])
       @ (case images of None \<Rightarrow> [] | Some v \<Rightarrow> [(''attached_images'', v)]))"

definition append_entry :: "json \<Rightarrow> mutation" where
  "append_entry e room = Some (with_messages (messages_of room @ [e]) room)"

definition append_message where
  "append_message T expiration c sid room_id role content message_parts web_search_context files images =
     mutate_room T expiration c sid room_id
       (append_entry (message_entry role content message_parts web_search_context files images))"

definition get_messages ::
  "timestamp_text \<Rightarrow> int \<Rightarrow> ticks \<Rightarrow> 's redis_cmds option \<Rightarrow> fault \<times> fault \<Rightarrow> string \<Rightarrow> string
     \<Rightarrow> 's eph_store \<Rightarrow> (store_error + json list) \<times> 's eph_store" where
  "get_messages T expiration now obtained fs sid room_id st =
     (let (r, st) = get_room T expiration now obtained fs sid room_id st
      in (case r of
            Inl e \<Rightarrow> Inl e
          | Inr None \<Rightarrow> Inr []
          | Inr (Some room) \<Rightarrow> Inr (messages_of room), st))"

section \<open>Reading and writing rooms\<close>

text \<open>The room an entry of the keyspace holds.\<close>

definition stored_room :: "string \<Rightarrow> keyspace \<Rightarrow> dict option" where
  "stored_room key s =
     (case ks_data s key of
        Some (RString txt, _) \<Rightarrow> (case decode_room txt of JObj room \<Rightarrow> Some room | _ \<Rightarrow> None)
      | _ \<Rightarrow> None)"

lemma decode_encode: "json_ok (JObj room) \<Longrightarrow> decode_room (encode_room room) = JObj room"
  by (simp add: decode_room_def encode_room_def loads_dumps_lemma del: json_ok.simps dumps.simps)

lemma encode_nonempty [simp]: "encode_room room \<noteq> []"
  by (simp add: encode_room_def)

lemma mutate_attempts_first:
  assumes "\<not> at_conflict (atts 0)" and "atts' 0 = atts 0"
  shows "mutate_attempts T ex R key mutate atts' (Suc n) s = mutate_attempts T ex R key mutate atts (Suc n) s"
  using assms by (simp add: Let_def split: prod.splits sum.splits option.splits)

context redis_server
begin

lemma read_room_found:
  assumes "read_room_from_redis T ex now R fs key s = (Inr (Some room), s')"
  shows "view s' = view s" and "stored_room key (view s) = Some room" and "\<not> is_expired T ex now room"
proof -
  obtain r u where g: "redis_call (fst fs) (rc_get R key) s = (r, u)" by fastforce
  have g': "redis_call (fst fs) (ks_get key) (view s) = (r, view u)"
    by (rule sim_step [OF sim_call [OF sim_get] g])
  obtain p where r: "r = Inr (Some p)" "decode_room p = JObj room" "\<not> is_expired T ex now room" "s' = u"
    using assms g
    by (auto simp: read_room_from_redis_def drop_room_def split_beta Let_def
          split: sum.splits option.splits if_splits json.splits)
  then show "view s' = view s" "stored_room key (view s) = Some room" "\<not> is_expired T ex now room"
    using g' by (cases "fst fs"; auto simp: stored_room_def split: option.splits rval.splits)+
qed

lemma write_view:
  assumes "send_write Delivered (write_room_to_redis T ex clocks R key room) s = (Inr True, s')"
  shows "\<exists>ttl > 0. view s' = put_key key (RString (encode_room (touch T (fst clocks) room)), Some (second * ttl)) (view s)"
proof -
  let ?ttl = "remaining_ttl T ex (snd clocks) (touch T (fst clocks) room)"
  have pos: "0 < ?ttl"
    using assms by (auto simp: send_write_def write_room_to_redis_def split_beta Let_def split: if_splits sum.splits)
  then have s': "s' = snd (rc_set R key (encode_room (touch T (fst clocks) room)) (Some ?ttl) False s)"
    using assms by (auto simp: send_write_def write_room_to_redis_def split_beta Let_def split: if_splits sum.splits)
  have "view s' = snd (ks_set key (encode_room (touch T (fst clocks) room)) (Some ?ttl) False (view s))"
    unfolding s' using simD [OF sim_set] by (metis snd_apsnd)
  with pos show ?thesis by (auto simp: lifetime_def intro!: exI [of _ ?ttl])
qed

lemma mutate_attempts_atomic:
  assumes "\<And>i s. view (at_between (atts i) s) = other i (view s)"
    and "\<And>i s. \<not> at_conflict (atts i) \<Longrightarrow> ks_data (other i s) key = ks_data s key"
    and "\<And>i. at_exec (atts i) = Delivered"
    and "mutate_attempts T ex R key mutate atts n s = (Inr True, s')"
  shows "\<exists>i ttl room room'. i < n \<and> 0 < ttl \<and>
     stored_room key (fold other [0..<Suc i] (view s)) = Some room \<and> mutate room = Some room' \<and>
     view s' = put_key key (RString (encode_room (touch T (fst (at_clocks (atts i))) room')), Some (second * ttl))
                 (fold other [0..<Suc i] (view s))"
  using assms
proof (induction n arbitrary: atts other s)
  case (Suc n)
  obtain r u where read: "read_room_from_redis T ex (at_now (atts 0)) R (at_read (atts 0)) key s = (r, u)" by fastforce
  then obtain room room' where r: "r = Inr (Some room)" "mutate room = Some room'"
    using Suc.prems(4) by (auto simp: Let_def split: sum.splits option.splits)
  note found = read_room_found [OF read [unfolded r(1)]]
  have between: "view (at_between (atts 0) u) = other 0 (view s)" using Suc.prems(1) found(1) by simp
  show ?case
  proof (cases "at_conflict (atts 0)")
    case True
    have "mutate_attempts T ex R key mutate (\<lambda>i. atts (Suc i)) n (at_between (atts 0) u) = (Inr True, s')"
      using Suc.prems(4) read r True by (simp add: Let_def)
    note later = Suc.IH [of "\<lambda>i. atts (Suc i)" "\<lambda>i. other (Suc i)", OF Suc.prems(1) Suc.prems(2) Suc.prems(3) this,
        unfolded between]
    have "fold (\<lambda>i. other (Suc i)) [0..<Suc i] (other 0 x) = fold other [0..<Suc (Suc i)] x" for i x
    proof -
      have "[0..<Suc (Suc i)] = 0 # map Suc [0..<Suc i]" by (simp add: upt_conv_Cons map_Suc_upt del: upt_Suc)
      then show ?thesis by (simp add: fold_map comp_def del: upt_Suc)
    qed
    from later [unfolded this] show ?thesis by (metis Suc_less_eq)
  next
    case False
    have "send_write Delivered (write_room_to_redis T ex (at_clocks (atts 0)) R key room') (at_between (atts 0) u) = (Inr True, s')"
      using Suc.prems(3,4) read r False by (simp add: Let_def)
    from write_view [OF this] obtain ttl where "0 < ttl" "view s' =
        put_key key (RString (encode_room (touch T (fst (at_clocks (atts 0))) room')), Some (second * ttl)) (other 0 (view s))"
      using between by auto
    moreover have "stored_room key (other 0 (view s)) = Some room"
      using found(2) Suc.prems(2) False by (simp add: stored_room_def)
    ultimately show ?thesis using r(2)
      by - (rule exI [of _ "0 :: nat"], rule exI [of _ ttl], rule exI [of _ room], rule exI [of _ room'], simp add: fun_upd_def)
  qed
qed simp

lemma read_room_present:
  assumes "ks_data (view s) key = Some (RString (encode_room room), t)" and "json_ok (JObj room)" and "room \<noteq> []"
    and "\<not> is_expired T ex now room"
  shows "fst (read_room_from_redis T ex now R (Delivered, f) key s) = Inr (Some room)"
proof -
  obtain r u where g: "rc_get R key s = (r, u)" by fastforce
  have "ks_get key (view s) = (r, view u)" by (rule sim_step [OF sim_get g])
  then have "r = Inr (Some (encode_room room))" using assms(1) by simp
  with g assms(3,4) decode_encode [OF assms(2)] show ?thesis by (simp add: read_room_from_redis_def)
qed

end

section \<open>Rooms as lists of messages\<close>

lemma messages_with_messages [simp]: "messages_of (with_messages ms room) = ms"
  by (simp add: messages_of_def with_messages_def dict_get_update)

lemma messages_touch [simp]: "messages_of (touch T now room) = messages_of room"
  by (simp add: messages_of_def touch_def dict_get_update)

lemma update_set: "set (AList.update k v d) \<subseteq> insert (k, v) (set d)"
  by (induction d) auto

lemma json_ok_update: "json_ok (JObj d) \<Longrightarrow> json_ok v \<Longrightarrow> json_ok (JObj (AList.update k v d))"
  using update_set [of k v d] by (auto simp: distinct_update)

lemma json_ok_messages: "json_ok (JObj room) \<Longrightarrow> m \<in> set (messages_of room) \<Longrightarrow> json_ok m"
  by (fastforce simp: messages_of_def dict_get_def split: option.splits json.splits dest!: map_of_SomeD)

lemma json_ok_append:
  assumes "json_ok (JObj room)" and "json_ok e" and "append_entry e room = Some room'"
  shows "json_ok (JObj (touch T now room'))"
proof -
  have "json_ok (JArr (messages_of room @ [e]))" using assms(1,2) json_ok_messages by auto
  with assms show ?thesis
    unfolding append_entry_def touch_def with_messages_def by (auto intro!: json_ok_update simp del: json_ok.simps(4))
qed

lemma filter_index_split:
  assumes "filter (\<lambda>i. P (xs ! i)) [0..<length xs] = is @ i # js"
  shows "i < length xs \<and> P (xs ! i) \<and> length (filter P (drop (Suc i) xs)) = length js"
proof -
  let ?Q = "\<lambda>i. P (xs ! i)"
  have "i \<in> set (filter ?Q [0..<length xs])" by (simp add: assms)
  then have i: "i < length xs" "?Q i" by auto
  have "[0..<length xs] = [0..<i] @ i # [Suc i..<length xs]"
    using i(1) upt_add_eq_append [of 0 i "length xs - i"] upt_conv_Cons [of i "length xs"] by simp
  then have "filter ?Q [0..<length xs] = filter ?Q [0..<i] @ i # filter ?Q [Suc i..<length xs]" using i(2) by simp
  then have "js = filter ?Q [Suc i..<length xs]"
    using assms append_Cons_eq_iff [of i "filter ?Q [0..<i]" "filter ?Q [Suc i..<length xs]" "is" js] by simp
  moreover have "drop (Suc i) xs = map ((!) xs) [Suc i..<length xs]"
    by (metis drop_map drop_upt map_nth plus_nat.add_0)
  ultimately show ?thesis using i by (simp add: filter_map comp_def)
qed

lemma cut_at:
  assumes "i < length xs"
  shows "xs = take i xs @ xs ! i # drop (Suc i) xs"
  by (rule id_take_nth_drop [OF assms])

section \<open>Properties\<close>

text \<open>
  C33: updates of a room are atomic.  Whatever other clients do to the server between the reading and the
  write of each attempt, provided the server reports a conflict whenever the room's key was touched, a
  successful update replaces the room that is stored at the moment of the write by its change: no
  update of another client is lost, and nothing else on the server changes.
\<close>

theorem room_update_atomic:
  assumes "redis_server R view elapse"
    and "\<And>i s. view (at_between (atts i) s) = other i (view s)"
    and "\<And>i s. \<not> at_conflict (atts i) \<Longrightarrow> ks_data (other i s) key = ks_data s key"
    and "\<And>i. at_exec (atts i) = Delivered"
    and "mutate_room_in_redis T ex True R key mutate atts s = (Inr True, s')"
  shows "\<exists>i ttl room room'. i < 8 \<and> 0 < ttl \<and>
     stored_room key (fold other [0..<Suc i] (view s)) = Some room \<and> mutate room = Some room' \<and>
     view s' = put_key key (RString (encode_room (touch T (fst (at_clocks (atts i))) room')), Some (second * ttl))
                 (fold other [0..<Suc i] (view s))"
  using redis_server.mutate_attempts_atomic [OF assms(1), where atts = atts and other = other, OF assms(2-4)] assms(5)
  by (simp add: mutate_room_in_redis_def)

text \<open>A room for examples, and an undisturbed attempt.\<close>

abbreviation iso_T :: timestamp_text where
  "iso_T \<equiv> \<lparr>ts_show = datetime_isoformat, ts_parse = datetime_fromisoformat\<rparr>"

definition example_now :: ticks where
  "example_now = 739000 * day_ticks"

definition example_room :: dict where
  "example_room = [(''title'', JStr ''t''), (''messages'', JArr [message_entry ''user'' ''hi'' [] [] None None])]"

definition quiet_attempt :: "ticks \<Rightarrow> keyspace attempt" where
  "quiet_attempt now = \<lparr>at_now = now, at_read = (Delivered, Delivered), at_between = id, at_conflict = False,
     at_clocks = (now, now), at_exec = Delivered\<rparr>"

definition example_store :: "keyspace eph_store" where
  "example_store = \<lparr>es_memory = [], es_client = Some ks_cmds,
     es_redis = put_key (room_key ''s'' ''r'') (RString (encode_room example_room), Some (60 * second)) empty_keyspace\<rparr>"

lemma example_now_good: "in_calendar example_now"
  by code_simp

lemma example_room_ok: "json_ok (JObj example_room)"
  by (simp add: example_room_def message_entry_def)

theorem room_update_atomic_witness:
  "\<exists>room room'. stored_room (room_key ''s'' ''r'') (es_redis example_store) = Some room \<and>
     append_entry (JStr ''x'') room = Some room'"
proof -
  let ?run = "mutate_room_in_redis iso_T 3600 True ks_cmds (room_key ''s'' ''r'') (append_entry (JStr ''x''))
      (\<lambda>_. quiet_attempt example_now) (es_redis example_store)"
  have "fst ?run = Inr True" by code_simp
  then have run: "?run = (Inr True, snd ?run)" by (metis prod.collapse)
  show ?thesis
    using room_update_atomic [OF reference_server.redis_server_axioms _ _ _ run, where other = "\<lambda>_. id"]
    by (auto simp: quiet_attempt_def fold_id)
qed

text \<open>
  A message that was appended can be read.  After a successful append in Redis, the room's messages,
  read within the expiry time of the write, are the messages before and the new one, in order.
\<close>

theorem append_then_get:
  assumes "redis_server R view elapse" and "timestamps T good"
    and "json_ok (JObj room)" and "json_ok (message_entry role content parts web files images)"
    and "es_client st = Some R" and "rm_can_watch c"
    and "ks_data (view (es_redis st)) (room_key sid rid) = Some (RString (encode_room room), t)"
    and "rm_attempts c 0 = \<lparr>at_now = now, at_read = (Delivered, Delivered), at_between = id, at_conflict = False,
           at_clocks = (now, now), at_exec = Delivered\<rparr>"
    and "good now" and "now \<le> now'" and "now' \<le> now + ex * second"
    and "append_message T ex c sid rid role content parts web files images st = (Inr True, st')"
  shows "fst (get_messages T ex now' obtained (Delivered, Delivered) sid rid st') =
         Inr (messages_of room @ [message_entry role content parts web files images])"
proof -
  let ?e = "message_entry role content parts web files images" and ?key = "room_key sid rid"
  have st': "es_client st' = Some R"
    and upd: "mutate_room_in_redis T ex True R ?key (append_entry ?e) (rm_attempts c) (es_redis st) = (Inr True, es_redis st')"
    using assms(5,6,12) by (auto simp: append_message_def mutate_room_def get_redis_def split_beta Let_def prod_eq_iff)
  have same: "mutate_attempts T ex R ?key m (\<lambda>_. rm_attempts c 0) 8 s = mutate_attempts T ex R ?key m (rm_attempts c) 8 s"
    for m s
    using mutate_attempts_first [of "rm_attempts c" "\<lambda>_. rm_attempts c 0" T ex R ?key m 7 s] assms(8) by simp
  have "mutate_attempts T ex R ?key (append_entry ?e) (\<lambda>_. rm_attempts c 0) 8 (es_redis st) = (Inr True, es_redis st')"
    using upd same by (simp add: mutate_room_in_redis_def)
  from redis_server.mutate_attempts_atomic [OF assms(1), where other = "\<lambda>_. id", OF _ _ _ this]
  obtain ttl room0 room' where r: "stored_room ?key (view (es_redis st)) = Some room0" "append_entry ?e room0 = Some room'"
    "view (es_redis st') = put_key ?key (RString (encode_room (touch T now room')), Some (second * ttl)) (view (es_redis st))"
    using assms(8) by (auto simp: fold_id)
  have "room0 = room" using r(1) assms(7) by (simp add: stored_room_def decode_encode [OF assms(3)])
  then have ok: "json_ok (JObj (touch T now room'))" and ms: "messages_of (touch T now room') = messages_of room @ [?e]"
    using json_ok_append [OF assms(3,4)] r(2) by (auto simp: append_entry_def)
  have ne: "touch T now room' \<noteq> []" by (simp add: touch_def update_nonempty)
  have "expiry_baseline T (touch T now room') = Some now"
    using timestamps.parse_show [OF assms(2,9)] timestamps.show_nonempty [OF assms(2)]
    by (simp add: expiry_baseline_def touch_def dict_get_update)
  then have "\<not> is_expired T ex now' (touch T now room')" using assms(11) by (simp add: is_expired_def)
  then have "fst (read_room_from_redis T ex now' R (Delivered, Delivered) ?key (es_redis st')) = Inr (Some (touch T now room'))"
    using redis_server.read_room_present [OF assms(1) _ ok ne] r(3) by simp
  then show ?thesis using st' ms by (simp add: get_messages_def get_room_def get_redis_def split_beta Let_def)
qed

theorem append_then_get_witness:
  "let c = \<lparr>rm_client = None, rm_can_watch = True, rm_attempts = (\<lambda>_. quiet_attempt example_now)\<rparr>;
       st' = snd (append_message iso_T 3600 c ''s'' ''r'' ''assistant'' ''hello'' [] [] None None example_store)
   in fst (get_messages iso_T 3600 (example_now + 5 * second) None (Delivered, Delivered) ''s'' ''r'' st') =
      Inr (messages_of example_room @ [message_entry ''assistant'' ''hello'' [] [] None None])"
proof -
  let ?c = "\<lparr>rm_client = None, rm_can_watch = True, rm_attempts = (\<lambda>_. quiet_attempt example_now)\<rparr>"
  let ?run = "append_message iso_T 3600 ?c ''s'' ''r'' ''assistant'' ''hello'' [] [] None None example_store"
  have "fst ?run = Inr True" by code_simp
  then have run: "?run = (Inr True, snd ?run)" by (metis prod.collapse)
  have "json_ok (message_entry ''assistant'' ''hello'' [] [] None None)" by (simp add: message_entry_def)
  from append_then_get [OF reference_server.redis_server_axioms iso_text.timestamps_axioms example_room_ok this
      _ _ _ _ example_now_good _ _ run, where t = "Some (60 * second)" and now' = "example_now + 5 * second"]
  show ?thesis by (simp add: example_store_def quiet_attempt_def)
qed

text \<open>
  The three ways of cutting a conversation cut where they promise: before the user message that has
  the given number of user messages after it; before the last assistant message; and before the
  trailing run of user messages, which is cut as a whole.  Each keeps a prefix of the conversation.
\<close>

theorem trims_cut_where_promised:
  "(trim_trailing_user n room = Some kept \<longrightarrow>
      (\<exists>u later. messages_of room = messages_of kept @ u # later \<and> has_role ''user'' u \<and>
                length (filter (has_role ''user'') later) = n)) \<and>
   (trim_last_assistant room = Some kept' \<longrightarrow>
      (\<exists>a later. messages_of room = messages_of kept' @ a # later \<and> has_role ''assistant'' a \<and>
                filter (has_role ''assistant'') later = [])) \<and>
   (trim_unanswered room = Some kept'' \<longrightarrow>
      (\<exists>us. us \<noteq> [] \<and> messages_of room = messages_of kept'' @ us \<and> list_all (has_role ''user'') us \<and>
            (messages_of kept'' = [] \<or> \<not> has_role ''user'' (last (messages_of kept'')))))"
proof (intro conjI impI)
  assume cut: "trim_trailing_user n room = Some kept"
  let ?ms = "messages_of room"
  let ?is = "filter (\<lambda>i. has_role ''user'' (?ms ! i)) [0..<length ?ms]"
  let ?k = "length ?is - 1 - n"
  have k: "?k < length ?is" "length ?is - Suc ?k = n"
    using cut by (auto simp: trim_trailing_user_def Let_def split: if_splits)
  have m: "messages_of kept = take (?is ! ?k) ?ms"
    using cut by (auto simp: trim_trailing_user_def Let_def split: if_splits)
  from filter_index_split [OF id_take_nth_drop [OF k(1)]] k(2)
  show "\<exists>u later. ?ms = messages_of kept @ u # later \<and> has_role ''user'' u \<and>
      length (filter (has_role ''user'') later) = n"
    unfolding m by (metis id_take_nth_drop length_drop)
next
  assume cut: "trim_last_assistant room = Some kept'"
  let ?ms = "messages_of room"
  obtain i "is" where f: "filter (\<lambda>i. has_role ''assistant'' (?ms ! i)) [0..<length ?ms] = i # is"
    and m: "messages_of kept' = take (last (i # is)) ?ms"
    using cut by (auto simp: trim_last_assistant_def Let_def split: list.splits)
  from f have "filter (\<lambda>i. has_role ''assistant'' (?ms ! i)) [0..<length ?ms] =
      butlast (i # is) @ last (i # is) # []" by (simp only: append_butlast_last_id list.distinct not_False_eq_True)
  from filter_index_split [OF this]
  show "\<exists>a later. ?ms = messages_of kept' @ a # later \<and> has_role ''assistant'' a \<and>
      filter (has_role ''assistant'') later = []"
    unfolding m by (metis id_take_nth_drop length_0_conv list.size(3))
next
  assume cut: "trim_unanswered room = Some kept''"
  let ?ms = "messages_of room" and ?us = "rev (takeWhile (has_role ''user'') (rev (messages_of room)))"
  have m: "messages_of kept'' = rev (dropWhile (has_role ''user'') (rev ?ms))"
    and n: "length (messages_of kept'') \<noteq> length ?ms"
    using cut by (auto simp: trim_unanswered_def Let_def split: if_splits)
  have split: "?ms = messages_of kept'' @ ?us"
    unfolding m by (metis rev_append rev_rev_ident takeWhile_dropWhile_id)
  moreover have "list_all (has_role ''user'') ?us" by (auto simp: list_all_iff dest: set_takeWhileD)
  moreover have "messages_of kept'' = [] \<or> \<not> has_role ''user'' (last (messages_of kept''))"
    unfolding m using hd_dropWhile [of "has_role ''user''" "rev ?ms"] by (cases "rev (dropWhile (has_role ''user'') (rev ?ms)) = []") (auto simp: last_rev)
  moreover have "?us \<noteq> []" using n split by (metis append.right_neutral)
  ultimately show "\<exists>us. us \<noteq> [] \<and> ?ms = messages_of kept'' @ us \<and> list_all (has_role ''user'') us \<and>
      (messages_of kept'' = [] \<or> \<not> has_role ''user'' (last (messages_of kept'')))" by blast
qed

theorem trims_cut_where_promised_witness:
  "trim_unanswered example_room = Some (with_messages [] example_room) \<and>
   (\<exists>us. us \<noteq> [] \<and> messages_of example_room = messages_of (with_messages [] example_room) @ us)"
proof -
  have "trim_unanswered example_room = Some (with_messages [] example_room)" by code_simp
  with trims_cut_where_promised [where room = example_room and kept'' = "with_messages [] example_room"]
  show ?thesis by blast
qed

end
