(* ===== verification/Tables.thy ===== *)
theory Tables
  imports Main
begin

text \<open>
  The database as the repositories use it.  A table is a list of rows in the order of their insertion;
  \<open>update_where\<close>, \<open>delete_where\<close> and \<open>select_where\<close> are the statements \<open>UPDATE ... WHERE\<close>,
  \<open>DELETE ... WHERE\<close> and \<open>SELECT ... WHERE\<close>, and \<open>insert_row\<close> refuses a second row with the same primary
  key.  A unit of work is a function from the state to a result or an exception and the new state;
  \<open>transaction\<close> is the block \<open>async with session_scope() as db, db.begin()\<close>: an exception that leaves it
  restores the state it began with.  The locale \<open>settle_once\<close> states what a table promises whose rows are
  settled once and then kept; it is interpreted for the approval cards, for the authorization codes and
  refresh tokens, and for the share links of chats.
\<close>

section \<open>Statements\<close>

definition select_where :: "('r \<Rightarrow> bool) \<Rightarrow> 'r list \<Rightarrow> 'r list" where
  "select_where P rows = filter P rows"

definition select_one :: "('r \<Rightarrow> bool) \<Rightarrow> 'r list \<Rightarrow> 'r option" where
  "select_one P rows = List.find P rows"

definition update_where :: "('r \<Rightarrow> bool) \<Rightarrow> ('r \<Rightarrow> 'r) \<Rightarrow> 'r list \<Rightarrow> 'r list" where
  "update_where P f rows = map (\<lambda>r. if P r then f r else r) rows"

definition delete_where :: "('r \<Rightarrow> bool) \<Rightarrow> 'r list \<Rightarrow> 'r list" where
  "delete_where P rows = filter (\<lambda>r. \<not> P r) rows"

definition row_count :: "('r \<Rightarrow> bool) \<Rightarrow> 'r list \<Rightarrow> int" where
  "row_count P rows = int (length (filter P rows))"

definition insert_row :: "('r \<Rightarrow> 'k) \<Rightarrow> 'r \<Rightarrow> 'r list \<Rightarrow> 'r list option" where
  "insert_row key r rows = (if list_ex (\<lambda>q. key q = key r) rows then None else Some (rows @ [r]))"

definition row_of :: "('r \<Rightarrow> 'k) \<Rightarrow> 'k \<Rightarrow> 'r list \<Rightarrow> 'r option" where
  "row_of key k rows = List.find (\<lambda>r. key r = k) rows"

lemma select_one_Some: "select_one P rows = Some r \<Longrightarrow> r \<in> set rows \<and> P r"
  by (auto simp: select_one_def find_Some_iff)

lemma select_one_None: "select_one P rows = None \<longleftrightarrow> (\<forall>r \<in> set rows. \<not> P r)"
  by (auto simp: select_one_def find_None_iff)

lemma row_of_None: "row_of key k rows = None \<longleftrightarrow> k \<notin> key ` set rows"
  by (auto simp: row_of_def find_None_iff)

lemma row_of_Some: "row_of key k rows = Some r \<Longrightarrow> r \<in> set rows \<and> key r = k"
  by (auto simp: row_of_def find_Some_iff)

lemma row_of_member:
  "distinct (map key rows) \<Longrightarrow> r \<in> set rows \<Longrightarrow> row_of key (key r) rows = Some r"
  by (induction rows) (auto simp: row_of_def)

lemma same_key_row:
  "distinct (map key rows) \<Longrightarrow> r \<in> set rows \<Longrightarrow> q \<in> set rows \<Longrightarrow> key r = key q \<Longrightarrow> r = q"
  by (metis option.inject row_of_member)

lemma row_of_update:
  assumes "\<And>r. key (f r) = key r"
  shows "row_of key k (update_where P f rows) =
           map_option (\<lambda>r. if P r then f r else r) (row_of key k rows)"
  by (induction rows) (simp_all add: row_of_def update_where_def assms)

lemma keys_update:
  assumes "\<And>r. key (f r) = key r"
  shows "map key (update_where P f rows) = map key rows"
  by (simp add: update_where_def assms)

lemma row_of_delete:
  "distinct (map key rows) \<Longrightarrow>
   row_of key k (delete_where P rows) =
     (case row_of key k rows of None \<Rightarrow> None | Some r \<Rightarrow> if P r then None else Some r)"
proof (induction rows)
  case (Cons r rows)
  have "row_of key (key r) rows = None" using Cons.prems by (simp add: row_of_None)
  with Cons show ?case by (auto simp: row_of_def delete_where_def)
qed (simp add: row_of_def delete_where_def)

lemma distinct_delete_where: "distinct (map key rows) \<Longrightarrow> distinct (map key (delete_where P rows))"
  by (simp add: delete_where_def distinct_map_filter)

lemma insert_row_Some:
  "insert_row key r rows = Some rows' \<longleftrightarrow> rows' = rows @ [r] \<and> key r \<notin> key ` set rows"
proof -
  have "list_ex (\<lambda>q. key q = key r) rows \<longleftrightarrow> key r \<in> key ` set rows"
    unfolding list_ex_iff by (metis (mono_tags, lifting) image_iff)
  then show ?thesis by (auto simp: insert_row_def)
qed

lemma row_of_append:
  "row_of key k (rows @ [r]) =
     (case row_of key k rows of None \<Rightarrow> if key r = k then Some r else None | Some q \<Rightarrow> Some q)"
  by (induction rows) (auto simp: row_of_def)

lemma select_one_key:
  assumes "distinct (map key rows)" and "\<And>r. P r \<Longrightarrow> key r = k"
  shows "select_one P rows = (case row_of key k rows of None \<Rightarrow> None | Some r \<Rightarrow> if P r then Some r else None)"
  using assms(1)
proof (induction rows)
  case (Cons r rows)
  show ?case
  proof (cases "key r = k")
    case True
    then have none: "row_of key k rows = None"
      using Cons.prems by (auto simp: row_of_None)
    have "select_one P rows = None"
      using Cons none by simp
    with True none show ?thesis by (simp add: select_one_def row_of_def)
  next
    case False
    then show ?thesis using Cons assms(2) [of r] by (auto simp: select_one_def row_of_def)
  qed
qed (simp add: select_one_def row_of_def)

section \<open>Tables whose rows are kept\<close>

text \<open>
  \<open>table_grows key R N T T'\<close>: every row of \<open>T\<close> is still there, changed at most as the preorder \<open>R\<close> allows,
  the rows that came after it satisfy \<open>N\<close>, and the keys stay unique.
\<close>

definition table_grows ::
  "('r \<Rightarrow> 'k) \<Rightarrow> ('r \<Rightarrow> 'r \<Rightarrow> bool) \<Rightarrow> ('r \<Rightarrow> bool) \<Rightarrow> 'r list \<Rightarrow> 'r list \<Rightarrow> bool" where
  "table_grows key R N T T' \<longleftrightarrow>
     (\<exists>old new. T' = old @ new \<and> list_all2 (\<lambda>r r'. key r' = key r \<and> R r r') T old \<and> list_all N new) \<and>
     (distinct (map key T) \<longrightarrow> distinct (map key T'))"

lemma table_growsI:
  "T' = old @ added \<Longrightarrow> list_all2 (\<lambda>r r'. key r' = key r \<and> R r r') T old \<Longrightarrow> list_all N added \<Longrightarrow>
   (distinct (map key T) \<Longrightarrow> distinct (map key T')) \<Longrightarrow> table_grows key R N T T'"
  unfolding table_grows_def by blast

lemma list_all2_image: "list_all2 R xs ys \<Longrightarrow> y \<in> set ys \<Longrightarrow> \<exists>x \<in> set xs. R x y"
  by (induction rule: list_all2_induct) auto

lemma list_all2_preimage: "list_all2 R xs ys \<Longrightarrow> x \<in> set xs \<Longrightarrow> \<exists>y \<in> set ys. R x y"
  by (induction rule: list_all2_induct) auto

lemma table_grows_refl: "(\<And>r. R r r) \<Longrightarrow> table_grows key R N T T"
  by (rule table_growsI [of _ T "[]"]) (auto intro: list_all2_refl)

lemma table_grows_weaken:
  "table_grows key R N T T' \<Longrightarrow> (\<And>r. N r \<Longrightarrow> N' r) \<Longrightarrow> table_grows key R N' T T'"
  unfolding table_grows_def by (metis list_all_iff)

lemma table_grows_trans:
  assumes "table_grows key R N T T'" and "table_grows key R N T' T''"
    and trans: "\<And>a b c. R a b \<Longrightarrow> R b c \<Longrightarrow> R a c" and new: "\<And>a b. N a \<Longrightarrow> R a b \<Longrightarrow> N b"
  shows "table_grows key R N T T''"
proof -
  let ?R = "\<lambda>r r'. key r' = key r \<and> R r r'"
  from assms(1) obtain old added where 1: "T' = old @ added" "list_all2 ?R T old" "list_all N added"
    by (auto simp: table_grows_def)
  from assms(2) obtain old' added' where 2: "T'' = old' @ added'" "list_all2 ?R T' old'" "list_all N added'"
    by (auto simp: table_grows_def)
  from 2(2) 1(1) obtain xs ys where xs: "old' = xs @ ys" "list_all2 ?R old xs" "list_all2 ?R added ys"
    by (auto simp: list_all2_append1)
  have "list_all2 ?R T xs"
    by (rule list_all2_trans [OF _ 1(2) xs(2)]) (use trans in auto)
  moreover have "list_all N ys"
    using 1(3) list_all2_image [OF xs(3)] new unfolding list_all_iff by metis
  ultimately show ?thesis
    using assms(1,2) 2 xs(1)
    by (intro table_growsI [of _ xs "ys @ added'"]) (auto simp: table_grows_def)
qed

lemma table_grows_update:
  assumes "\<And>r. key (f r) = key r" and "\<And>r. R r r" and "\<And>r. r \<in> set T \<Longrightarrow> P r \<Longrightarrow> R r (f r)"
  shows "table_grows key R N T (update_where P f T)"
proof -
  have "list_all2 (\<lambda>r r'. key r' = key r \<and> R r r') T (update_where P f T)"
    using assms by (auto simp: list_all2_conv_all_nth update_where_def)
  then show ?thesis
    by (intro table_growsI [of _ "update_where P f T" "[]"]) (simp_all add: keys_update [of key f, OF assms(1)])
qed

lemma table_grows_insert:
  assumes "insert_row key r T = Some T'" and "\<And>r. R r r" and "N r"
  shows "table_grows key R N T T'"
  using assms by (intro table_growsI [of _ T "[r]"]) (auto simp: insert_row_Some intro: list_all2_refl)

lemma table_grows_row:
  assumes "table_grows key R N T T'" and "row_of key k T = Some r"
  shows "\<exists>r'. row_of key k T' = Some r' \<and> R r r'"
proof -
  from assms(1) obtain old added where "T' = old @ added"
    "list_all2 (\<lambda>r r'. key r' = key r \<and> R r r') T old" by (auto simp: table_grows_def)
  from this(2,1) assms(2) show ?thesis
    by (induction arbitrary: T' rule: list_all2_induct) (auto simp: row_of_def)
qed

lemma table_grows_member:
  assumes "table_grows key R N T T'" and "r' \<in> set T'"
  shows "N r' \<or> (\<exists>r \<in> set T. key r' = key r \<and> R r r')"
proof -
  from assms(1) obtain old added where "T' = old @ added" "list_all N added"
    "list_all2 (\<lambda>r r'. key r' = key r \<and> R r r') T old" by (auto simp: table_grows_def)
  with assms(2) list_all2_image [OF this(3), of r'] show ?thesis by (auto simp: list_all_iff)
qed

lemma table_grows_new:
  assumes "table_grows key R N T T'" and "row_of key k T = None" and "\<And>r. N r \<Longrightarrow> key r \<noteq> k"
  shows "row_of key k T' = None"
  using table_grows_member [OF assms(1)] assms(2,3) by (force simp: row_of_None)

lemma table_grows_kept:
  assumes "table_grows key R N T T'" and "r \<in> set T"
  shows "\<exists>r' \<in> set T'. key r' = key r \<and> R r r'"
proof -
  from assms(1) obtain old added where "T' = old @ added"
    "list_all2 (\<lambda>r r'. key r' = key r \<and> R r r') T old" by (auto simp: table_grows_def)
  with list_all2_preimage [OF this(2) assms(2)] show ?thesis by auto
qed

section \<open>Units of work\<close>

type_synonym ('s, 'e, 'a) work = "'s \<Rightarrow> ('e + 'a) \<times> 's"

definition transaction :: "('s, 'e, 'a) work \<Rightarrow> ('s, 'e, 'a) work" where
  "transaction m s = (case m s of (Inr a, s') \<Rightarrow> (Inr a, s') | (Inl e, _) \<Rightarrow> (Inl e, s))"

lemma transaction_cases:
  obtains (committed) a s' where "m s = (Inr a, s')" "transaction m s = (Inr a, s')"
  | (rolled_back) e s' where "m s = (Inl e, s')" "transaction m s = (Inl e, s)"
  by (cases "m s"; cases "fst (m s)") (auto simp: transaction_def)

lemma transaction_Inl: "transaction m s = (Inl e, s') \<Longrightarrow> s' = s"
  by (cases rule: transaction_cases [of m s]) auto

lemma transaction_Inr: "transaction m s = (Inr a, s') \<longleftrightarrow> m s = (Inr a, s')"
  by (cases rule: transaction_cases [of m s]) auto

section \<open>Rows that are settled once\<close>

text \<open>
  \<open>row s k\<close> is the row with key \<open>k\<close>, \<open>core r\<close> the part of a row that its settlement fixes, and
  \<open>creates op k\<close> says that \<open>op\<close> may insert a row with key \<open>k\<close>.
\<close>

locale settle_once =
  fixes step :: "'op \<Rightarrow> 's \<Rightarrow> 's"
    and inv :: "'s \<Rightarrow> bool"
    and row :: "'s \<Rightarrow> 'k \<Rightarrow> 'r option"
    and settled :: "'r \<Rightarrow> bool"
    and core :: "'r \<Rightarrow> 'c"
    and creates :: "'op \<Rightarrow> 'k \<Rightarrow> bool"
  assumes inv_step: "inv s \<Longrightarrow> inv (step op s)"
    and settled_kept: "inv s \<Longrightarrow> row s k = Some r \<Longrightarrow> settled r \<Longrightarrow> row (step op s) k = Some r' \<Longrightarrow> \<not> creates op k \<Longrightarrow>
                         settled r' \<and> core r' = core r"
    and not_revived: "inv s \<Longrightarrow> row s k = None \<Longrightarrow> \<not> creates op k \<Longrightarrow> row (step op s) k = None"
begin

definition run :: "'op list \<Rightarrow> 's \<Rightarrow> 's" where
  "run ops s = fold step ops s"

lemma inv_run: "inv s \<Longrightarrow> inv (run ops s)"
  by (induction ops arbitrary: s) (simp_all add: run_def inv_step)

lemma gone_run:
  "inv s \<Longrightarrow> row s k = None \<Longrightarrow> list_all (\<lambda>op. \<not> creates op k) ops \<Longrightarrow> row (run ops s) k = None"
  by (induction ops arbitrary: s) (simp_all add: run_def inv_step not_revived)

lemma settled_run:
  "inv s \<Longrightarrow> row s k = Some r \<Longrightarrow> settled r \<Longrightarrow> list_all (\<lambda>op. \<not> creates op k) ops \<Longrightarrow>
   row (run ops s) k = Some r' \<Longrightarrow> settled r' \<and> core r' = core r"
proof (induction ops arbitrary: s r)
  case (Cons op ops)
  show ?case
  proof (cases "row (step op s) k")
    case None
    then have "row (run ops (step op s)) k = None"
      using Cons.prems by (intro gone_run) (simp_all add: inv_step)
    with Cons.prems show ?thesis by (simp add: run_def)
  next
    case (Some q)
    then have "settled q \<and> core q = core r"
      using Cons.prems by (intro settled_kept [of s k r op q]) simp_all
    then show ?thesis
      using Cons.IH [of "step op s" q] Cons.prems Some by (simp add: run_def inv_step)
  qed
qed (simp add: run_def)

end

text \<open>
  A table with a journal: \<open>journal s\<close> lists the keys whose settlement was recorded.  When a key is
  recorded only by the step that settles its row, no key is recorded twice, provided that new rows
  get keys that were never used.
\<close>

locale settle_once_journal = settle_once step inv row settled core creates
  for step :: "'op \<Rightarrow> 's \<Rightarrow> 's"
    and inv :: "'s \<Rightarrow> bool"
    and row :: "'s \<Rightarrow> 'k \<Rightarrow> 'r option"
    and settled :: "'r \<Rightarrow> bool"
    and core :: "'r \<Rightarrow> 'c"
    and creates :: "'op \<Rightarrow> 'k \<Rightarrow> bool" +
  fixes journal :: "'s \<Rightarrow> 'k list"
    and recorded :: "'op \<Rightarrow> 's \<Rightarrow> 'k list"
  assumes journal_step: "inv s \<Longrightarrow> journal (step op s) = journal s @ recorded op s"
    and recorded_once: "inv s \<Longrightarrow> distinct (recorded op s)"
    and recorded_open: "inv s \<Longrightarrow> k \<in> set (recorded op s) \<Longrightarrow>
          (case row s k of None \<Rightarrow> creates op k | Some r \<Rightarrow> \<not> settled r) \<and>
          (\<exists>r. row (step op s) k = Some r \<and> settled r)"
begin

text \<open>The keys in use: no later step may create them again.\<close>

definition used :: "'k set \<Rightarrow> 's \<Rightarrow> bool" where
  "used K s \<longleftrightarrow> inv s \<and> distinct (journal s) \<and> (\<forall>k. row s k \<noteq> None \<longrightarrow> k \<in> K) \<and>
     (\<forall>k \<in> set (journal s). k \<in> K \<and> (\<forall>r. row s k = Some r \<longrightarrow> settled r))"

fun fresh :: "'k set \<Rightarrow> 'op list \<Rightarrow> bool" where
  "fresh K [] = True"
| "fresh K (op # ops) = ((\<forall>k. creates op k \<longrightarrow> k \<notin> K) \<and> fresh (K \<union> {k. creates op k}) ops)"

lemma used_step:
  assumes "used K s" and new: "\<And>k. creates op k \<Longrightarrow> k \<notin> K"
  shows "used (K \<union> {k. creates op k}) (step op s)"
proof -
  let ?K = "K \<union> {k. creates op k}"
  from assms have inv: "inv s" and dist: "distinct (journal s)"
    and rows: "\<And>k. row s k \<noteq> None \<Longrightarrow> k \<in> K"
    and old: "\<And>k r. k \<in> set (journal s) \<Longrightarrow> k \<in> K \<and> (row s k = Some r \<longrightarrow> settled r)"
    by (auto simp: used_def)
  have in_use: "k \<in> ?K" if "row (step op s) k \<noteq> None" for k
    using that rows [of k] not_revived [OF inv, of k op] by (cases "row s k = None") auto
  have apart: "k \<notin> set (journal s)" if "k \<in> set (recorded op s)" for k
    using recorded_open [OF inv that] old [of k] new [of k] by (auto split: option.splits)
  have kept: "k \<in> ?K \<and> (\<forall>r. row (step op s) k = Some r \<longrightarrow> settled r)"
    if k: "k \<in> set (journal s) \<union> set (recorded op s)" for k
  proof (cases "k \<in> set (recorded op s)")
    case True
    then show ?thesis using recorded_open [OF inv True] in_use [of k] by auto
  next
    case False
    with k have j: "k \<in> set (journal s)" by simp
    have "settled r'" if r': "row (step op s) k = Some r'" for r'
    proof (cases "row s k")
      case None
      then have "\<not> creates op k" using old [OF j] new [of k] by auto
      then show ?thesis using not_revived [OF inv None] r' by simp
    next
      case (Some r)
      then show ?thesis using settled_kept [OF inv Some _ r'] old [OF j, of r] new [of k] by auto
    qed
    then show ?thesis using old [OF j] by auto
  qed
  have "distinct (journal (step op s))"
    using apart dist recorded_once [OF inv] by (auto simp: journal_step [OF inv])
  then show ?thesis
    unfolding used_def using in_use kept inv_step [OF inv] by (auto simp: journal_step [OF inv])
qed

lemma journal_distinct:
  "used K s \<Longrightarrow> fresh K ops \<Longrightarrow> distinct (journal (run ops s))"
proof (induction ops arbitrary: K s)
  case (Cons op ops)
  then have "used (K \<union> {k. creates op k}) (step op s)" by (intro used_step) auto
  then show ?case using Cons by (simp add: run_def)
qed (simp add: run_def used_def)

end

end
