(* ===== verification/Tool_Approvals.thy ===== *)
theory Tool_Approvals
  imports Tables Json Timestamps Rate_Limit
    "HOL-Library.Product_Lexorder" "HOL-Library.List_Lexorder" "HOL-Library.Char_ord"
begin

text \<open>
  The approval cards of chat write tools: \<open>services/chat_tool_approval_service.py\<close> with its repository
  \<open>services/repositories/chat_tool_approval_repository.py\<close>, the part of
  \<open>services/chat_workspace_tools/runner.py\<close> that stores a proposal, and the table of tools of
  \<open>services/chat_workspace_tools\<close>.

  The database has the tables of cards, of grants and of messages, and the rest, which only tools
  change, as a value of type \<open>'d\<close>.  What a tool does when it is executed (\<open>ap_exec\<close>) and how Pydantic
  reads the preview of a card (\<open>ap_parse_preview\<close>) are arguments.  Each transaction is one step of
  \<open>approval_step\<close>; a decision takes two steps, the checks and the locked settlement, so that any other
  step can come between them.
\<close>

section \<open>Rows, cards and errors\<close>

type_synonym uuid = string

datatype approval_status = Pending | Succeeded | Failed | Denied | Expired | Superseded | Cancelled

datatype stored_decision = Once | Always | Auto | Deny

datatype requested_decision = Approve_Once | Approve_Always | Deny_It

datatype approval_result = Target int string | Error_Code string

record approval_row =
  row_id :: uuid
  row_user :: int
  row_room :: string
  row_message :: "int option"
  row_tool :: string
  row_arguments :: dict
  row_preview :: dict
  row_target_ref :: "dict option"
  row_status :: approval_status
  row_decision :: "stored_decision option"
  row_result :: "approval_result option"
  row_created_at :: ticks
  row_expires_at :: ticks
  row_decided_at :: "ticks option"

record grant_row =
  grant_user :: int
  grant_tool :: string
  grant_created_at :: ticks
  grant_source :: "uuid option"

datatype card_warning = Shared_Memo | Untrusted_Input_In_Turn | Private_Text_In_Public_Post

record tool_approval =
  ta_id :: string
  ta_tool :: string
  ta_family :: string
  ta_status :: approval_status
  ta_decision :: "stored_decision option"
  ta_always_allowed :: bool
  ta_preview :: dict
  ta_warnings :: "card_warning list"
  ta_expires_at :: "string option"
  ta_result :: "approval_result option"

datatype message_part = Tool_Approval_Part tool_approval | Other_Part json

record chat_message =
  msg_id :: int
  msg_room :: string
  msg_parts :: "message_part list"

record 'd approval_db =
  approvals :: "approval_row list"
  auto_approvals :: "grant_row list"
  chat_history :: "chat_message list"
  workspace :: 'd

text \<open>
  The exceptions of a tool: \<open>WorkspaceToolError\<close> with its code, an \<open>ApiServiceError\<close> with its status, or
  any other.  The service raises an \<open>ApiServiceError\<close> of its own (\<open>Api_Service_Error\<close> with status and code,
  the conflict with the settled card, the exhausted write limit), the internal
  \<open>_ApprovalAlreadySettledError\<close>, or lets an exception through.
\<close>

datatype tool_error = Workspace_Tool_Error string | Tool_Api_Error int | Tool_Crash

datatype approval_error =
    Api_Service_Error int string
  | Tool_Approval_Conflict tool_approval
  | Chat_Tool_Rate_Limited int
  | Approval_Already_Settled approval_row
  | Tool_Approval_Validation_Error
  | Integrity_Error
  | Assertion_Error
  | Uncaught tool_error

record execution_outcome =
  target_id :: int
  target_title :: string

type_synonym 'd execute_handler =
  "int \<Rightarrow> dict \<Rightarrow> dict \<Rightarrow> ('d, tool_error, execution_outcome) work"

record proposal =
  prop_arguments :: dict
  prop_preview :: dict
  prop_target_ref :: dict
  prop_target_title :: string
  prop_shared :: bool

section \<open>The tools\<close>

datatype tool_budget = Tool_Calls | Reads | Write_Proposals

record 'd tool_spec =
  spec_name :: string
  spec_family :: string
  spec_budget :: tool_budget
  spec_execute :: "'d execute_handler option"
  spec_allows_always :: bool

definition PROFILE_TOOL_SPECS :: "(string \<times> string \<times> tool_budget \<times> bool) list" where
  "PROFILE_TOOL_SPECS =
     [(''profile_settings_read'', ''profile'', Reads, False),
      (''profile_settings_update'', ''profile'', Write_Proposals, False)]"

definition MEMO_TOOL_SPECS :: "(string \<times> string \<times> tool_budget \<times> bool) list" where
  "MEMO_TOOL_SPECS =
     [(''memo_list'', ''memo'', Tool_Calls, False),
      (''memo_search'', ''memo'', Tool_Calls, False),
      (''memo_read'', ''memo'', Reads, False),
      (''memo_create'', ''memo'', Write_Proposals, True),
      (''memo_append'', ''memo'', Write_Proposals, True),
      (''memo_edit'', ''memo'', Write_Proposals, True)]"

definition PROMPTS_TOOL_SPECS :: "(string \<times> string \<times> tool_budget \<times> bool) list" where
  "PROMPTS_TOOL_SPECS =
     [(''shared_prompt_read'', ''shared_prompts'', Reads, False),
      (''my_prompt_list'', ''prompts'', Reads, False),
      (''my_prompt_read'', ''prompts'', Reads, False),
      (''my_skill_list'', ''prompts'', Reads, False),
      (''my_skill_read'', ''prompts'', Reads, False),
      (''publish_prompt'', ''prompts'', Write_Proposals, False),
      (''my_prompt_save'', ''prompts'', Write_Proposals, True),
      (''my_skill_save'', ''prompts'', Write_Proposals, True)]"

record 'd approval_env =
  ap_exec :: "string \<Rightarrow> 'd execute_handler"
  ap_parse_preview :: "dict \<Rightarrow> dict option"

definition get_workspace_tool_spec :: "'d approval_env \<Rightarrow> string \<Rightarrow> 'd tool_spec option" where
  "get_workspace_tool_spec E name =
     map_option
       (\<lambda>(family, budget, always).
          \<lparr>spec_name = name, spec_family = family, spec_budget = budget,
           spec_execute = (if budget = Write_Proposals then Some (ap_exec E name) else None),
           spec_allows_always = always\<rparr>)
       (map_of (PROFILE_TOOL_SPECS @ MEMO_TOOL_SPECS @ PROMPTS_TOOL_SPECS) name)"

section \<open>Cards\<close>

definition TOOL_NAME_FAMILIES :: "(string \<times> string) list" where
  "TOOL_NAME_FAMILIES =
     [(''memo_create'', ''memo''), (''memo_append'', ''memo''), (''memo_edit'', ''memo''),
      (''publish_prompt'', ''prompts''), (''my_prompt_save'', ''prompts''),
      (''my_skill_save'', ''prompts''), (''profile_settings_update'', ''profile'')]"

text \<open>
  \<open>ToolApprovalApi.model_validate\<close>: the name of the tool and its family are those of the table (a family
  outside of it does not match), and the preview, once read by Pydantic, is of the kind of the tool.
\<close>

definition validate_tool_approval_payload ::
  "'d approval_env \<Rightarrow> tool_approval \<Rightarrow> approval_error + tool_approval" where
  "validate_tool_approval_payload E payload =
     (if ta_id payload = [] \<or> map_of TOOL_NAME_FAMILIES (ta_tool payload) \<noteq> Some (ta_family payload)
      then Inl Tool_Approval_Validation_Error
      else case ap_parse_preview E (ta_preview payload) of
          None \<Rightarrow> Inl Tool_Approval_Validation_Error
        | Some preview \<Rightarrow>
            if dict_get ''kind'' preview \<noteq> JStr (ta_tool payload) then Inl Tool_Approval_Validation_Error
            else Inr (payload\<lparr>ta_preview := preview\<rparr>))"

definition serialize_timestamp :: "ticks option \<Rightarrow> string option" where
  "serialize_timestamp v = map_option (\<lambda>t. datetime_isoformat t @ ''+00:00'') v"

definition always_allowed :: "'d tool_spec option \<Rightarrow> dict \<Rightarrow> bool" where
  "always_allowed spec target_ref \<longleftrightarrow>
     (case spec of
        None \<Rightarrow> False
      | Some sp \<Rightarrow> spec_allows_always sp \<and> \<not> json_true (dict_get ''shared'' target_ref))"

abbreviation target_ref_of :: "approval_row \<Rightarrow> dict" where
  "target_ref_of row \<equiv> (case row_target_ref row of None \<Rightarrow> [] | Some d \<Rightarrow> d)"

definition approval_card :: "'d approval_env \<Rightarrow> approval_row \<Rightarrow> approval_error + tool_approval" where
  "approval_card E row =
     (let spec = get_workspace_tool_spec E (row_tool row);
          target_ref = target_ref_of row;
          excerpts = dict_get ''private_overlap_excerpts'' target_ref;
          overlap = json_true excerpts;
          warnings =
            (if json_true (dict_get ''shared'' target_ref) then [Shared_Memo] else [])
            @ (if json_true (dict_get ''untrusted_input'' target_ref) then [Untrusted_Input_In_Turn] else [])
            @ (if overlap then [Private_Text_In_Public_Post] else []);
          preview = (if overlap then AList.update ''private_overlap_excerpts'' excerpts (row_preview row)
                     else row_preview row)
      in validate_tool_approval_payload E
           \<lparr>ta_id = row_id row, ta_tool = row_tool row,
            ta_family = (case spec of Some sp \<Rightarrow> spec_family sp | None \<Rightarrow> []),
            ta_status = row_status row, ta_decision = row_decision row,
            ta_always_allowed = always_allowed spec target_ref, ta_preview = preview,
            ta_warnings = warnings, ta_expires_at = serialize_timestamp (Some (row_expires_at row)),
            ta_result = row_result row\<rparr>)"

definition requires_acknowledgement :: "dict \<Rightarrow> bool" where
  "requires_acknowledgement target_ref \<longleftrightarrow> json_true (dict_get ''private_overlap_excerpts'' target_ref)"

section \<open>The repository\<close>

definition insert_approval :: "approval_row \<Rightarrow> ('d approval_db, approval_error, approval_row) work" where
  "insert_approval row db =
     (case insert_row row_id row (approvals db) of
        None \<Rightarrow> (Inl Integrity_Error, db)
      | Some rows \<Rightarrow> (Inr row, db\<lparr>approvals := rows\<rparr>))"

definition get_actionable :: "uuid \<Rightarrow> int \<Rightarrow> 'd approval_db \<Rightarrow> approval_row option" where
  "get_actionable approval_id user_id db =
     select_one (\<lambda>r. row_id r = approval_id \<and> row_user r = user_id \<and> row_message r \<noteq> None) (approvals db)"

definition settle_row ::
  "approval_status \<Rightarrow> stored_decision option \<Rightarrow> approval_result option \<Rightarrow> ticks \<Rightarrow> approval_row \<Rightarrow> approval_row" where
  "settle_row status decision result decided_at r =
     r\<lparr>row_status := status, row_decision := decision, row_result := result, row_decided_at := Some decided_at\<rparr>"

definition settle ::
  "approval_row \<Rightarrow> approval_status \<Rightarrow> stored_decision option \<Rightarrow> approval_result option \<Rightarrow> ticks
     \<Rightarrow> 'd approval_db \<Rightarrow> approval_row \<times> 'd approval_db" where
  "settle row status decision result decided_at db =
     (settle_row status decision result decided_at row,
      db\<lparr>approvals := update_where (\<lambda>r. row_id r = row_id row)
                       (settle_row status decision result decided_at) (approvals db)\<rparr>)"

definition attach_message ::
  "uuid list \<Rightarrow> int \<Rightarrow> string \<Rightarrow> int \<Rightarrow> 'd approval_db \<Rightarrow> int \<times> 'd approval_db" where
  "attach_message approval_ids user_id chat_room_id message_id db =
     (if approval_ids = [] then (0, db)
      else
        (let P = (\<lambda>r. row_id r \<in> set approval_ids \<and> row_user r = user_id \<and> row_room r = chat_room_id
                      \<and> row_message r = None)
         in (row_count P (approvals db),
             db\<lparr>approvals := update_where P (row_message_update (\<lambda>_. Some message_id)) (approvals db)\<rparr>)))"

definition settle_pending_in_room ::
  "string \<Rightarrow> int \<Rightarrow> approval_status \<Rightarrow> ticks \<Rightarrow> 'd approval_db \<Rightarrow> approval_row list \<times> 'd approval_db" where
  "settle_pending_in_room chat_room_id user_id status decided_at db =
     (let P = (\<lambda>r. row_room r = chat_room_id \<and> row_user r = user_id \<and> row_status r = Pending
                   \<and> row_message r \<noteq> None);
          change = (\<lambda>r. r\<lparr>row_status := status, row_decided_at := Some decided_at\<rparr>)
      in (map change (sort_key (\<lambda>r. (row_created_at r, row_id r)) (select_where P (approvals db))),
          db\<lparr>approvals := update_where P change (approvals db)\<rparr>))"

text \<open>Deleting a card sets the reference of a grant to it to \<open>NULL\<close> (the foreign key's rule).\<close>

definition delete_orphans_in_room ::
  "string \<Rightarrow> int \<Rightarrow> ticks \<Rightarrow> 'd approval_db \<Rightarrow> int \<times> 'd approval_db" where
  "delete_orphans_in_room chat_room_id user_id created_before db =
     (let P = (\<lambda>r. row_room r = chat_room_id \<and> row_user r = user_id \<and> row_message r = None
                   \<and> row_created_at r < created_before);
          gone = map row_id (select_where P (approvals db))
      in (row_count P (approvals db),
          db\<lparr>approvals := delete_where P (approvals db),
             auto_approvals :=
               update_where (\<lambda>g. \<exists>s \<in> set gone. grant_source g = Some s) (grant_source_update (\<lambda>_. None))
                 (auto_approvals db)\<rparr>))"

definition cancel_unattached ::
  "uuid list \<Rightarrow> int \<Rightarrow> ticks \<Rightarrow> 'd approval_db \<Rightarrow> int \<times> 'd approval_db" where
  "cancel_unattached approval_ids user_id decided_at db =
     (if approval_ids = [] then (0, db)
      else
        (let P = (\<lambda>r. row_id r \<in> set approval_ids \<and> row_user r = user_id \<and> row_status r = Pending
                      \<and> row_message r = None)
         in (row_count P (approvals db),
             db\<lparr>approvals :=
                  update_where P (\<lambda>r. r\<lparr>row_status := Cancelled, row_decided_at := Some decided_at\<rparr>)
                    (approvals db)\<rparr>)))"

definition has_grant :: "int \<Rightarrow> string \<Rightarrow> 'd approval_db \<Rightarrow> bool" where
  "has_grant user_id tool_name db \<longleftrightarrow>
     list_ex (\<lambda>g. grant_user g = user_id \<and> grant_tool g = tool_name) (auto_approvals db)"

definition list_grants :: "int \<Rightarrow> 'd approval_db \<Rightarrow> grant_row list" where
  "list_grants user_id db = sort_key grant_created_at (select_where (\<lambda>g. grant_user g = user_id) (auto_approvals db))"

definition upsert_grant :: "ticks \<Rightarrow> int \<Rightarrow> string \<Rightarrow> uuid \<Rightarrow> 'd approval_db \<Rightarrow> 'd approval_db" where
  "upsert_grant now user_id tool_name source db =
     (if has_grant user_id tool_name db then db
      else db\<lparr>auto_approvals := auto_approvals db @
             [\<lparr>grant_user = user_id, grant_tool = tool_name, grant_created_at = now,
               grant_source = Some source\<rparr>]\<rparr>)"

definition delete_grant :: "int \<Rightarrow> string \<Rightarrow> 'd approval_db \<Rightarrow> bool \<times> 'd approval_db" where
  "delete_grant user_id tool_name db =
     (let P = (\<lambda>g. grant_user g = user_id \<and> grant_tool g = tool_name)
      in (0 < row_count P (auto_approvals db), db\<lparr>auto_approvals := delete_where P (auto_approvals db)\<rparr>))"

text \<open>
  \<open>ChatRepository.update_tool_approval_part\<close>, on the parts the message column decodes to.
\<close>

fun same_card :: "tool_approval \<Rightarrow> message_part \<Rightarrow> bool" where
  "same_card approval (Tool_Approval_Part a) = (ta_id a = ta_id approval)"
| "same_card approval (Other_Part _) = False"

definition update_tool_approval_part ::
  "string \<Rightarrow> int \<Rightarrow> tool_approval \<Rightarrow> 'd approval_db \<Rightarrow> bool \<times> 'd approval_db" where
  "update_tool_approval_part chat_room_id message_id approval db =
     (case select_one (\<lambda>m. msg_id m = message_id \<and> msg_room m = chat_room_id) (chat_history db) of
        None \<Rightarrow> (False, db)
      | Some record \<Rightarrow>
          if \<not> list_ex (same_card approval) (msg_parts record) then (False, db)
          else
            (True,
             db\<lparr>chat_history :=
                  update_where (\<lambda>m. msg_id m = message_id \<and> msg_room m = chat_room_id)
                    (msg_parts_update
                       (map (\<lambda>part. if same_card approval part then Tool_Approval_Part approval else part)))
                    (chat_history db)\<rparr>))"

section \<open>Running a tool\<close>

text \<open>What \<open>except (WorkspaceToolError, ApiServiceError)\<close> catches.\<close>

fun is_tool_failure :: "tool_error \<Rightarrow> bool" where
  "is_tool_failure (Workspace_Tool_Error _) = True"
| "is_tool_failure (Tool_Api_Error _) = True"
| "is_tool_failure Tool_Crash = False"

fun execution_error_code :: "tool_error \<Rightarrow> string" where
  "execution_error_code (Workspace_Tool_Error code) = code"
| "execution_error_code (Tool_Api_Error status_code) =
     (if status_code = 404 then ''target_not_found''
      else if status_code = 409 then ''target_changed''
      else if status_code = 400 then ''invalid_content''
      else ''execution_failed'')"
| "execution_error_code Tool_Crash = ''execution_failed''"

definition success_result :: "execution_outcome \<Rightarrow> approval_result" where
  "success_result outcome = Target (target_id outcome) (target_title outcome)"

definition execute_tool ::
  "'d tool_spec \<Rightarrow> int \<Rightarrow> dict \<Rightarrow> dict \<Rightarrow> string option
     \<Rightarrow> ('d approval_db, tool_error, execution_outcome) work" where
  "execute_tool spec user_id arguments target_ref client_ip db =
     (case spec_execute spec of
        None \<Rightarrow> (Inl (Workspace_Tool_Error ''execution_failed''), db)
      | Some execute \<Rightarrow>
          (let execute_target_ref =
                 (case client_ip of
                    Some (c # cs) \<Rightarrow> AList.update ''_client_ip'' (JStr (c # cs)) target_ref
                  | _ \<Rightarrow> target_ref);
               (res, d) = execute user_id arguments execute_target_ref (workspace db)
           in (res, db\<lparr>workspace := d\<rparr>)))"

text \<open>
  The run inside the savepoint \<open>db.begin_nested()\<close> and the \<open>try\<close> around it, which the automatic and the
  decided approval share: a failure of the tool takes back what it did and becomes a result, any other
  exception goes on.
\<close>

definition run_in_savepoint ::
  "'d tool_spec \<Rightarrow> int \<Rightarrow> dict \<Rightarrow> dict \<Rightarrow> string option
     \<Rightarrow> ('d approval_db, approval_error,
         approval_status \<times> approval_result option \<times> execution_outcome option) work" where
  "run_in_savepoint spec user_id arguments target_ref client_ip db =
     (case transaction (execute_tool spec user_id arguments target_ref client_ip) db of
        (Inr outcome, db') \<Rightarrow> (Inr (Succeeded, Some (success_result outcome), Some outcome), db')
      | (Inl e, db') \<Rightarrow>
          if is_tool_failure e
          then (Inr (Failed, Some (Error_Code (execution_error_code e)), None), db')
          else (Inl (Uncaught e), db'))"

section \<open>Proposals\<close>

abbreviation hours :: "int \<Rightarrow> ticks" where
  "hours n \<equiv> n * (3600 * second)"

definition TOOL_APPROVAL_TTL :: ticks where
  "TOOL_APPROVAL_TTL = hours 24"

definition ORPHAN_APPROVAL_GRACE :: ticks where
  "ORPHAN_APPROVAL_GRACE = hours 1"

definition proposal_target_ref :: "proposal \<Rightarrow> bool \<Rightarrow> dict" where
  "proposal_target_ref proposal untrusted_input =
     (if untrusted_input then AList.update ''untrusted_input'' (JBool True) (prop_target_ref proposal)
      else prop_target_ref proposal)"

text \<open>The row both ways of storing a proposal insert, and its card.\<close>

definition proposed_row ::
  "ticks \<Rightarrow> uuid \<Rightarrow> int \<Rightarrow> string \<Rightarrow> string \<Rightarrow> proposal \<Rightarrow> dict \<Rightarrow> approval_status \<Rightarrow> stored_decision option
     \<Rightarrow> approval_result option \<Rightarrow> ticks option \<Rightarrow> approval_row" where
  "proposed_row now uid user_id chat_room_id tool_name proposal target_ref status decision result decided_at =
     \<lparr>row_id = uid, row_user = user_id, row_room = chat_room_id, row_message = None,
      row_tool = tool_name, row_arguments = prop_arguments proposal, row_preview = prop_preview proposal,
      row_target_ref = Some target_ref, row_status = status, row_decision = decision, row_result = result,
      row_created_at = now, row_expires_at = now + TOOL_APPROVAL_TTL, row_decided_at = decided_at\<rparr>"

definition insert_with_card ::
  "'d approval_env \<Rightarrow> approval_row \<Rightarrow> ('d approval_db, approval_error, approval_row \<times> tool_approval) work" where
  "insert_with_card E row db =
     (case insert_approval row db of
        (Inl e, db) \<Rightarrow> (Inl e, db)
      | (Inr row, db) \<Rightarrow> (case approval_card E row of Inl e \<Rightarrow> (Inl e, db) | Inr c \<Rightarrow> (Inr (row, c), db)))"

definition create_pending_approval ::
  "'d approval_env \<Rightarrow> ticks \<Rightarrow> uuid \<Rightarrow> int \<Rightarrow> string \<Rightarrow> string \<Rightarrow> proposal \<Rightarrow> bool
     \<Rightarrow> ('d approval_db, approval_error, approval_row \<times> tool_approval) work" where
  "create_pending_approval E now uid user_id chat_room_id tool_name proposal untrusted_input =
     transaction
       (insert_with_card E
          (proposed_row now uid user_id chat_room_id tool_name proposal
             (proposal_target_ref proposal untrusted_input) Pending None None None))"

definition execute_auto_approved ::
  "'d approval_env \<Rightarrow> ticks \<Rightarrow> uuid \<Rightarrow> int \<Rightarrow> string \<Rightarrow> 'd tool_spec \<Rightarrow> proposal
     \<Rightarrow> ('d approval_db, approval_error, approval_row \<times> tool_approval) work" where
  "execute_auto_approved E now uid user_id chat_room_id spec proposal =
     transaction (\<lambda>db.
       let target_ref = proposal_target_ref proposal False
       in case run_in_savepoint spec user_id (prop_arguments proposal) target_ref None db of
            (Inl e, db) \<Rightarrow> (Inl e, db)
          | (Inr (status, result, _), db) \<Rightarrow>
              insert_with_card E
                (proposed_row now uid user_id chat_room_id (spec_name spec) proposal target_ref
                   status (Some Auto) result (Some now)) db)"

section \<open>The life of a card\<close>

text \<open>
  \<open>save_assistant_message_with_approvals\<close>: \<open>saved\<close> is the id that \<open>save_message_to_db\<close> returned in this
  transaction, with which the message is in the table.
\<close>

definition save_assistant_message_with_approvals ::
  "string \<Rightarrow> int \<Rightarrow> int option \<Rightarrow> message_part list \<Rightarrow> uuid list \<Rightarrow> 'd approval_db
     \<Rightarrow> int option \<times> 'd approval_db" where
  "save_assistant_message_with_approvals chat_room_id user_id saved parts approval_ids db =
     (case saved of
        None \<Rightarrow> (None, db)
      | Some message_id \<Rightarrow>
          (let db = db\<lparr>chat_history := chat_history db @
                         [\<lparr>msg_id = message_id, msg_room = chat_room_id, msg_parts = parts\<rparr>]\<rparr>
           in (Some message_id, snd (attach_message approval_ids user_id chat_room_id message_id db))))"

fun update_cards ::
  "'d approval_env \<Rightarrow> approval_row list \<Rightarrow> ('d approval_db, approval_error, unit) work" where
  "update_cards E [] db = (Inr (), db)"
| "update_cards E (row # rows) db =
     (case row_message row of
        None \<Rightarrow> update_cards E rows db
      | Some message_id \<Rightarrow>
          (case approval_card E row of
             Inl e \<Rightarrow> (Inl e, db)
           | Inr c \<Rightarrow> update_cards E rows (snd (update_tool_approval_part (row_room row) message_id c db))))"

definition supersede_pending_approvals ::
  "'d approval_env \<Rightarrow> ticks \<Rightarrow> string \<Rightarrow> int \<Rightarrow> ('d approval_db, approval_error, approval_row list) work" where
  "supersede_pending_approvals E now chat_room_id user_id =
     transaction (\<lambda>db.
       let (rows, db) = settle_pending_in_room chat_room_id user_id Superseded now db
       in case update_cards E rows db of
            (Inl e, db) \<Rightarrow> (Inl e, db)
          | (Inr _, db) \<Rightarrow>
              (Inr rows, snd (delete_orphans_in_room chat_room_id user_id (now - ORPHAN_APPROVAL_GRACE) db)))"

section \<open>Decisions\<close>

fun STORED_DECISION :: "requested_decision \<Rightarrow> stored_decision" where
  "STORED_DECISION Approve_Once = Once"
| "STORED_DECISION Approve_Always = Always"
| "STORED_DECISION Deny_It = Deny"

definition settled_card ::
  "'d approval_env \<Rightarrow> approval_row \<Rightarrow> stored_decision \<Rightarrow> approval_error + tool_approval" where
  "settled_card E row decision =
     (if row_status row = Expired then Inl (Api_Service_Error 409 ''approval_expired'')
      else case approval_card E row of
          Inl e \<Rightarrow> Inl e
        | Inr c \<Rightarrow> if row_decision row = Some decision then Inr c else Inl (Tool_Approval_Conflict c))"

abbreviation approval_not_found :: approval_error where
  "approval_not_found \<equiv> Api_Service_Error 404 ''approval_not_found''"

definition is_expired :: "approval_row \<Rightarrow> ticks \<Rightarrow> bool" where
  "is_expired row now \<longleftrightarrow> row_expires_at row \<le> now"

definition decided_outcome ::
  "approval_row \<Rightarrow> int \<Rightarrow> stored_decision option \<Rightarrow> 'd tool_spec option \<Rightarrow> string option
     \<Rightarrow> ('d approval_db, approval_error,
         approval_status \<times> approval_result option \<times> execution_outcome option) work" where
  "decided_outcome row user_id decision spec client_ip db =
     (case decision of
        None \<Rightarrow> (Inr (Expired, None, None), db)
      | Some Deny \<Rightarrow> (Inr (Denied, None, None), db)
      | Some _ \<Rightarrow>
          (case spec of
             None \<Rightarrow> (Inl Assertion_Error, db)
           | Some sp \<Rightarrow>
               run_in_savepoint sp user_id (row_arguments row) (target_ref_of row) client_ip db))"

definition settle_locked ::
  "'d approval_env \<Rightarrow> uuid \<Rightarrow> int \<Rightarrow> stored_decision option \<Rightarrow> 'd tool_spec option \<Rightarrow> ticks \<Rightarrow> string option
     \<Rightarrow> ('d approval_db, approval_error,
         approval_row \<times> tool_approval \<times> execution_outcome option) work" where
  "settle_locked E approval_id user_id decision spec now client_ip =
     transaction (\<lambda>db.
       case get_actionable approval_id user_id db of
         None \<Rightarrow> (Inl approval_not_found, db)
       | Some row \<Rightarrow>
           if row_status row \<noteq> Pending then (Inl (Approval_Already_Settled row), db)
           else
             (case decided_outcome row user_id decision spec client_ip db of
                (Inl e, db) \<Rightarrow> (Inl e, db)
              | (Inr (status, result, outcome), db) \<Rightarrow>
                  (let (row, db) = settle row status decision result now db
                   in case approval_card E row of
                        Inl e \<Rightarrow> (Inl e, db)
                      | Inr c \<Rightarrow>
                          (let db =
                                 (case row_message row of
                                    None \<Rightarrow> db
                                  | Some m \<Rightarrow> snd (update_tool_approval_part (row_room row) m c db));
                               db = (if status = Succeeded \<and> decision = Some Always
                                     then upsert_grant now user_id (row_tool row) (row_id row) db else db)
                           in (Inr (row, c, outcome), db)))))"

text \<open>The write limit counts runs per user in the limiter of \<open>services/auth_limits.py\<close>.\<close>

definition consume_chat_tool_write_limit ::
  "(string \<Rightarrow> string) \<Rightarrow> 's call_env \<Rightarrow> int \<Rightarrow> 's limit_state \<Rightarrow> (bool \<times> int) \<times> 's limit_state" where
  "consume_chat_tool_write_limit digest c user_id st =
     (let ((allowed, _, retry_after), st) =
            consume_rate_limit digest c ''chat_tool:write:user'' (show_int user_id) 60 3600 st
      in ((allowed, retry_after), st))"

text \<open>
  \<open>decide_tool_approval\<close> up to its locked transaction.  The result is an answer or what is left to do:
  settling the card as expired (\<open>wd_expiring\<close>) or with the decision.
\<close>

record 'd waiting_decision =
  wd_user :: int
  wd_id :: uuid
  wd_decision :: stored_decision
  wd_expiring :: bool
  wd_spec :: "'d tool_spec option"
  wd_now :: ticks
  wd_client_ip :: "string option"

definition decide_checks ::
  "'d approval_env \<Rightarrow> (string \<Rightarrow> string) \<Rightarrow> 's call_env \<Rightarrow> int \<Rightarrow> uuid \<Rightarrow> requested_decision \<Rightarrow> bool
     \<Rightarrow> string option \<Rightarrow> 'd approval_db \<Rightarrow> 's limit_state
     \<Rightarrow> ((approval_error + tool_approval) + 'd waiting_decision) \<times> 's limit_state" where
  "decide_checks E digest c user_id approval_id requested_decision acknowledge_warnings client_ip db st =
     (let decision = STORED_DECISION requested_decision; now = ce_now c
      in case get_actionable approval_id user_id db of
           None \<Rightarrow> (Inl (Inl approval_not_found), st)
         | Some row \<Rightarrow>
             if row_status row \<noteq> Pending then (Inl (settled_card E row decision), st)
             else
               (let spec = get_workspace_tool_spec E (row_tool row);
                    todo = \<lparr>wd_user = user_id, wd_id = approval_id, wd_decision = decision,
                            wd_expiring = is_expired row now, wd_spec = spec, wd_now = now,
                            wd_client_ip = client_ip\<rparr>
                in if is_expired row now then (Inr todo, st)
                   else if decision = Always \<and> \<not> always_allowed spec (target_ref_of row)
                   then (Inl (Inl (Api_Service_Error 400 ''approval_always_not_allowed'')), st)
                   else if decision = Deny then (Inr todo, st)
                   else if Option.is_none spec then (Inl (Inl approval_not_found), st)
                   else if requires_acknowledgement (target_ref_of row) \<and> \<not> acknowledge_warnings
                   then (Inl (Inl (Api_Service_Error 400 ''approval_ack_required'')), st)
                   else
                     (let ((allowed, retry_after), st) = consume_chat_tool_write_limit digest c user_id st
                      in if \<not> allowed then (Inl (Inl (Chat_Tool_Rate_Limited retry_after)), st)
                         else (Inr todo, st))))"

text \<open>The locked transaction and what follows it: the answer, and the settled row that is audited.\<close>

definition decide_settle ::
  "'d approval_env \<Rightarrow> 'd waiting_decision \<Rightarrow> 'd approval_db
     \<Rightarrow> (approval_error + tool_approval) \<times> approval_row option \<times> 'd approval_db" where
  "decide_settle E w db =
     (let decision = (if wd_expiring w then None else Some (wd_decision w));
          spec = (if wd_expiring w then None else wd_spec w);
          client_ip = (if wd_expiring w then None else wd_client_ip w)
      in case settle_locked E (wd_id w) (wd_user w) decision spec (wd_now w) client_ip db of
           (Inl (Approval_Already_Settled row), db) \<Rightarrow> (settled_card E row (wd_decision w), None, db)
         | (Inl e, db) \<Rightarrow> (Inl e, None, db)
         | (Inr (row, c, _), db) \<Rightarrow>
             (if wd_expiring w then Inl (Api_Service_Error 409 ''approval_expired'') else Inr c, Some row, db))"

definition decide_tool_approval ::
  "'d approval_env \<Rightarrow> (string \<Rightarrow> string) \<Rightarrow> 's call_env \<Rightarrow> int \<Rightarrow> uuid \<Rightarrow> requested_decision \<Rightarrow> bool
     \<Rightarrow> string option \<Rightarrow> 'd approval_db \<times> 's limit_state
     \<Rightarrow> (approval_error + tool_approval) \<times> 'd approval_db \<times> 's limit_state" where
  "decide_tool_approval E digest c user_id approval_id requested ack client_ip = (\<lambda>(db, st).
     case decide_checks E digest c user_id approval_id requested ack client_ip db st of
       (Inl answer, st) \<Rightarrow> (answer, db, st)
     | (Inr w, st) \<Rightarrow> (let (answer, _, db) = decide_settle E w db in (answer, db, st)))"

definition list_auto_approvals :: "'d approval_env \<Rightarrow> int \<Rightarrow> 'd approval_db \<Rightarrow> (string \<times> string \<times> string) list" where
  "list_auto_approvals E user_id db =
     List.map_filter
       (\<lambda>g. map_option
              (\<lambda>sp. (grant_tool g, spec_family sp,
                     (case serialize_timestamp (Some (grant_created_at g)) of None \<Rightarrow> [] | Some s \<Rightarrow> s)))
              (get_workspace_tool_spec E (grant_tool g)))
       (list_grants user_id db)"

section \<open>The audit log and the whole system\<close>

datatype audit_outcome = Proposed | Outcome approval_status

record audit_entry =
  au_tool :: string
  au_user :: int
  au_room :: string
  au_id :: uuid
  au_target :: json
  au_decision :: "stored_decision option"
  au_outcome :: audit_outcome
  au_error_code :: "string option"

definition audit :: "approval_row \<Rightarrow> audit_outcome \<Rightarrow> audit_entry" where
  "audit row outcome =
     \<lparr>au_tool = row_tool row, au_user = row_user row, au_room = row_room row, au_id = row_id row,
      au_target =
        (case row_result row of
           Some (Target i _) \<Rightarrow> if i \<noteq> 0 then JInt i else dict_get ''memo_id'' (target_ref_of row)
         | _ \<Rightarrow> dict_get ''memo_id'' (target_ref_of row)),
      au_decision = row_decision row, au_outcome = outcome,
      au_error_code = (case row_result row of Some (Error_Code code) \<Rightarrow> Some code | _ \<Rightarrow> None)\<rparr>"

record ('d, 's) approval_sys =
  sys_db :: "'d approval_db"
  sys_limits :: "'s limit_state"
  sys_audit :: "audit_entry list"
  sys_waiting :: "'d waiting_decision list"

text \<open>\<open>_may_auto_approve\<close> of the runner.\<close>

definition may_auto_approve ::
  "(string \<Rightarrow> string) \<Rightarrow> 's call_env \<Rightarrow> 'd tool_spec \<Rightarrow> int \<Rightarrow> proposal \<Rightarrow> bool \<Rightarrow> 'd approval_db
     \<Rightarrow> 's limit_state \<Rightarrow> bool \<times> 's limit_state" where
  "may_auto_approve digest c spec user_id proposal untrusted_input db st =
     (if \<not> spec_allows_always spec \<or> prop_shared proposal then (False, st)
      else if \<not> has_grant user_id (spec_name spec) db then (False, st)
      else if untrusted_input then (False, st)
      else (let ((allowed, _), st) = consume_chat_tool_write_limit digest c user_id st in (allowed, st)))"

text \<open>
  One step of the system: storing a proposal of the tool \<open>name\<close> (the end of \<open>_propose\<close> in the runner, with
  the id that \<open>uuid4\<close> returned), saving the reply, superseding the cards of a room, cancelling those
  of a stopped turn, the checks of a decision, the settlement of a decision that passed them, and
  the revocation of a grant.
\<close>

datatype 's approval_op =
    Propose_Op "'s call_env" string int string proposal bool uuid
  | Save_Reply_Op string int "int option" "message_part list" "uuid list"
  | Supersede_Op ticks string int
  | Cancel_Op ticks "uuid list" int
  | Decide_Op "'s call_env" int uuid requested_decision bool "string option"
  | Settle_Op nat
  | Revoke_Op int string

definition store_proposal ::
  "'d approval_env \<Rightarrow> (string \<Rightarrow> string) \<Rightarrow> 's call_env \<Rightarrow> 'd tool_spec \<Rightarrow> int \<Rightarrow> string \<Rightarrow> proposal \<Rightarrow> bool
     \<Rightarrow> uuid \<Rightarrow> ('d, 's) approval_sys \<Rightarrow> ('d, 's) approval_sys" where
  "store_proposal E digest c spec user_id room proposal untrusted uid s =
     (let (auto, st) = may_auto_approve digest c spec user_id proposal untrusted (sys_db s) (sys_limits s);
          s = s\<lparr>sys_limits := st\<rparr>;
          (res, db) =
            (if auto then execute_auto_approved E (ce_now c) uid user_id room spec proposal (sys_db s)
             else create_pending_approval E (ce_now c) uid user_id room (spec_name spec) proposal untrusted
                    (sys_db s))
      in case res of
           Inl _ \<Rightarrow> s\<lparr>sys_db := db\<rparr>
         | Inr (row, _) \<Rightarrow>
             s\<lparr>sys_db := db,
               sys_audit := sys_audit s @ [audit row (if auto then Outcome (row_status row) else Proposed)]\<rparr>)"

fun approval_step ::
  "'d approval_env \<Rightarrow> (string \<Rightarrow> string) \<Rightarrow> 's approval_op \<Rightarrow> ('d, 's) approval_sys \<Rightarrow> ('d, 's) approval_sys" where
  "approval_step E digest (Propose_Op c name user_id room proposal untrusted uid) s =
     (case get_workspace_tool_spec E name of
        None \<Rightarrow> s
      | Some spec \<Rightarrow> store_proposal E digest c spec user_id room proposal untrusted uid s)"
| "approval_step E digest (Save_Reply_Op room user_id saved parts ids) s =
     s\<lparr>sys_db := snd (save_assistant_message_with_approvals room user_id saved parts ids (sys_db s))\<rparr>"
| "approval_step E digest (Supersede_Op now room user_id) s =
     (case supersede_pending_approvals E now room user_id (sys_db s) of
        (Inl _, db) \<Rightarrow> s\<lparr>sys_db := db\<rparr>
      | (Inr rows, db) \<Rightarrow>
          s\<lparr>sys_db := db, sys_audit := sys_audit s @ map (\<lambda>r. audit r (Outcome Superseded)) rows\<rparr>)"
| "approval_step E digest (Cancel_Op now ids user_id) s =
     s\<lparr>sys_db := snd (cancel_unattached ids user_id now (sys_db s))\<rparr>"
| "approval_step E digest (Decide_Op c user_id uid requested ack ip) s =
     (case decide_checks E digest c user_id uid requested ack ip (sys_db s) (sys_limits s) of
        (Inl _, st) \<Rightarrow> s\<lparr>sys_limits := st\<rparr>
      | (Inr w, st) \<Rightarrow> s\<lparr>sys_limits := st, sys_waiting := sys_waiting s @ [w]\<rparr>)"
| "approval_step E digest (Settle_Op n) s =
     (if n < length (sys_waiting s)
      then
        (let (_, settled_row, db) = decide_settle E (sys_waiting s ! n) (sys_db s)
         in s\<lparr>sys_db := db,
              sys_audit := sys_audit s @
                (case settled_row of None \<Rightarrow> [] | Some r \<Rightarrow> [audit r (Outcome (row_status r))]),
              sys_waiting := take n (sys_waiting s) @ drop (Suc n) (sys_waiting s)\<rparr>)
      else s)"
| "approval_step E digest (Revoke_Op user_id tool) s =
     s\<lparr>sys_db := snd (delete_grant user_id tool (sys_db s))\<rparr>"

end
