(* ===== verification/Approval_Safety.thy ===== *)
theory Approval_Safety
  imports Tool_Approvals "HOL-Library.Sublist"
begin

text \<open>
  What the approval cards guarantee, for every sequence of steps of \<open>approval_step\<close>: how a row of the
  table may change, that a card is settled once and its tool run at most once, and under which checks
  a tool runs.
\<close>

section \<open>How a row changes\<close>

inductive row_step :: "approval_row \<Rightarrow> approval_row \<Rightarrow> bool" where
  attached: "row_message r = None \<Longrightarrow> row_step r (r\<lparr>row_message := Some m\<rparr>)"
| decided: "row_status r = Pending \<Longrightarrow> status \<noteq> Pending \<Longrightarrow>
    row_step r (settle_row status decision result t r)"

abbreviation row_steps :: "approval_row \<Rightarrow> approval_row \<Rightarrow> bool" where
  "row_steps \<equiv> row_step\<^sup>*\<^sup>*"

definition row_fixed :: "approval_row \<Rightarrow> uuid \<times> int \<times> string \<times> string \<times> dict \<times> dict \<times> dict option \<times> ticks" where
  "row_fixed r = (row_id r, row_user r, row_room r, row_tool r, row_arguments r, row_preview r,
     row_target_ref r, row_expires_at r)"

definition row_verdict ::
  "approval_row \<Rightarrow> approval_status \<times> stored_decision option \<times> approval_result option \<times> ticks option" where
  "row_verdict r = (row_status r, row_decision r, row_result r, row_decided_at r)"

lemma row_step_keeps:
  "row_step r r' \<Longrightarrow> row_fixed r' = row_fixed r \<and> (row_message r \<noteq> None \<longrightarrow> row_message r' = row_message r) \<and>
     (row_status r \<noteq> Pending \<longrightarrow> row_verdict r' = row_verdict r)"
  by (induction rule: row_step.induct) (auto simp: row_fixed_def row_verdict_def settle_row_def)

lemma row_steps_keep:
  "row_steps r r' \<Longrightarrow> row_fixed r' = row_fixed r \<and> (row_message r \<noteq> None \<longrightarrow> row_message r' = row_message r) \<and>
     (row_status r \<noteq> Pending \<longrightarrow> row_verdict r' = row_verdict r)"
proof (induction rule: rtranclp_induct)
  case (step q r')
  then show ?case using row_step_keeps [of q r'] by (auto simp: row_verdict_def)
qed simp

lemma row_steps_settled:
  "row_steps r r' \<Longrightarrow> row_status r \<noteq> Pending \<Longrightarrow> row_status r' \<noteq> Pending \<and> row_verdict r' = row_verdict r"
  using row_steps_keep [of r r'] by (auto simp: row_verdict_def)

lemma row_steps_supersede:
  "row_status r = Pending \<Longrightarrow> status \<noteq> Pending \<Longrightarrow>
   row_steps r (r\<lparr>row_status := status, row_decided_at := Some t\<rparr>)"
  using decided [of r status "row_decision r" "row_result r" t]
  by (auto simp: settle_row_def intro: r_into_rtranclp)

section \<open>How the table changes\<close>

abbreviation card_row :: "uuid \<Rightarrow> approval_row list \<Rightarrow> approval_row option" where
  "card_row k rows \<equiv> row_of row_id k rows"

abbreviation cards_distinct :: "approval_row list \<Rightarrow> bool" where
  "cards_distinct rows \<equiv> distinct (map row_id rows)"

text \<open>Only a row that is on no message may disappear; only the key \<open>new\<close> may appear.\<close>

definition table_change :: "uuid option \<Rightarrow> approval_row list \<Rightarrow> approval_row list \<Rightarrow> bool" where
  "table_change new T T' \<longleftrightarrow> (cards_distinct T \<longrightarrow> cards_distinct T' \<and>
     (\<forall>k. (card_row k T = None \<longrightarrow> card_row k T' \<noteq> None \<longrightarrow> new = Some k) \<and>
          (\<forall>r. card_row k T = Some r \<longrightarrow>
             (case card_row k T' of None \<Rightarrow> row_message r = None | Some r' \<Rightarrow> row_steps r r'))))"

lemma table_change_refl [intro, simp]: "table_change new T T"
  by (auto simp: table_change_def)

lemma table_change_distinct: "table_change new T T' \<Longrightarrow> cards_distinct T \<Longrightarrow> cards_distinct T'"
  by (simp add: table_change_def)

lemma table_change_new:
  "table_change new T T' \<Longrightarrow> cards_distinct T \<Longrightarrow> card_row k T = None \<Longrightarrow> new \<noteq> Some k \<Longrightarrow> card_row k T' = None"
  by (simp add: table_change_def) (metis option.exhaust)

lemma table_change_gone:
  "table_change new T T' \<Longrightarrow> cards_distinct T \<Longrightarrow> card_row k T = Some r \<Longrightarrow> card_row k T' = None \<Longrightarrow>
   row_message r = None"
  by (simp add: table_change_def) (metis (mono_tags, lifting) option.simps(4))

lemma table_change_row:
  "table_change new T T' \<Longrightarrow> cards_distinct T \<Longrightarrow> card_row k T = Some r \<Longrightarrow> card_row k T' = Some r' \<Longrightarrow>
   row_steps r r'"
  by (simp add: table_change_def) (metis (mono_tags, lifting) option.simps(5))

lemma table_change_trans:
  assumes "table_change None T T'" and "table_change None T' T''"
  shows "table_change None T T''"
  unfolding table_change_def
proof (intro impI conjI allI)
  assume d: "cards_distinct T"
  with assms(1) have d': "cards_distinct T'" by (rule table_change_distinct)
  with assms(2) show "cards_distinct T''" by (rule table_change_distinct)
  fix k
  show "None = Some k" if "card_row k T = None" "card_row k T'' \<noteq> None"
    using that table_change_new [OF assms(1) d, of k] table_change_new [OF assms(2) d', of k] by simp
  fix r assume r: "card_row k T = Some r"
  show "case card_row k T'' of None \<Rightarrow> row_message r = None | Some r' \<Rightarrow> row_steps r r'"
  proof (cases "card_row k T'")
    case None
    then show ?thesis
      using table_change_new [OF assms(2) d'] table_change_gone [OF assms(1) d r] by simp
  next
    case (Some q)
    note q = table_change_row [OF assms(1) d r Some]
    show ?thesis
      using row_steps_keep [OF q] q table_change_gone [OF assms(2) d' Some]
        table_change_row [OF assms(2) d' Some] by (auto split: option.splits)
  qed
qed

lemma table_change_update:
  assumes "\<And>r. row_id (f r) = row_id r" and "\<And>r. r \<in> set T \<Longrightarrow> P r \<Longrightarrow> row_steps r (f r)"
  shows "table_change None T (update_where P f T)"
  unfolding table_change_def
  by (auto simp: row_of_update [of row_id, OF assms(1)] keys_update [of row_id, OF assms(1)] assms(2)
      dest!: row_of_Some)

lemma table_change_delete:
  assumes "\<And>r. P r \<Longrightarrow> row_message r = None"
  shows "table_change None T (delete_where P T)"
  unfolding table_change_def
proof (intro impI conjI)
  assume "cards_distinct T"
  then show "cards_distinct (delete_where P T)" by (rule distinct_delete_where)
qed (auto simp: row_of_delete assms split: option.splits)

lemma table_change_append:
  assumes "row_id r \<notin> row_id ` set T"
  shows "table_change (Some (row_id r)) T (T @ [r])"
  using assms unfolding table_change_def by (auto simp: row_of_append split: option.splits)


section \<open>What each operation does to the database\<close>

lemma insert_approval_Inr:
  "insert_approval row db = (Inr r, db') \<Longrightarrow>
   r = row \<and> row_id row \<notin> row_id ` set (approvals db) \<and> db' = db\<lparr>approvals := approvals db @ [row]\<rparr>"
  by (auto simp: insert_approval_def insert_row_Some split: option.splits)

lemma insert_with_card_Inr:
  assumes "insert_with_card E row db = (Inr (r, c), db')"
  shows "r = row \<and> approval_card E row = Inr c \<and> row_id row \<notin> row_id ` set (approvals db) \<and>
         db' = db\<lparr>approvals := approvals db @ [row]\<rparr>"
  using assms insert_approval_Inr [of row db]
  by (auto simp: insert_with_card_def split: prod.splits sum.splits)

lemma run_in_savepoint_Inr:
  assumes "run_in_savepoint spec user_id arguments target_ref ip db = (Inr (status, result, outcome), db')"
  shows "(\<exists>d out. status = Succeeded \<and> outcome = Some out \<and> result = Some (success_result out)
            \<and> db' = db\<lparr>workspace := d\<rparr>) \<or>
         (\<exists>code. status = Failed \<and> outcome = None \<and> result = Some (Error_Code code) \<and> db' = db)"
  using assms
  by (cases rule: transaction_cases [of "execute_tool spec user_id arguments target_ref ip" db])
    (auto simp: run_in_savepoint_def execute_tool_def split: option.splits prod.splits if_splits)

lemma execute_auto_approved_Inr:
  assumes "execute_auto_approved E now uid user_id room spec proposal db = (Inr (row, c), db')"
  obtains status result d where
    "row = proposed_row now uid user_id room (spec_name spec) proposal (proposal_target_ref proposal False)
             status (Some Auto) result (Some now)"
    "status = Succeeded \<or> status = Failed \<and> d = workspace db"
    "uid \<notin> row_id ` set (approvals db)"
    "db' = db\<lparr>workspace := d, approvals := approvals db @ [row]\<rparr>"
proof -
  let ?tr = "proposal_target_ref proposal False"
  obtain status result outcome db1 where
    run: "run_in_savepoint spec user_id (prop_arguments proposal) ?tr None db = (Inr (status, result, outcome), db1)"
    and ins: "insert_with_card E (proposed_row now uid user_id room (spec_name spec) proposal ?tr
                status (Some Auto) result (Some now)) db1 = (Inr (row, c), db')"
    using assms by (auto simp: execute_auto_approved_def transaction_Inr Let_def split: prod.splits sum.splits)
  have "approvals db1 = approvals db \<and> db1 = db\<lparr>workspace := workspace db1\<rparr>"
    and st: "status = Succeeded \<or> status = Failed \<and> workspace db1 = workspace db"
    using run_in_savepoint_Inr [OF run] by auto
  with insert_with_card_Inr [OF ins] have
    "row = proposed_row now uid user_id room (spec_name spec) proposal ?tr status (Some Auto) result (Some now)"
    "uid \<notin> row_id ` set (approvals db)"
    "db' = db\<lparr>workspace := workspace db1, approvals := approvals db @ [row]\<rparr>"
    by (simp_all add: proposed_row_def)
  with st show ?thesis by (intro that [of status result "workspace db1"])
qed

lemma update_tool_approval_part_keeps [simp]:
  "approvals (snd (update_tool_approval_part room m c db)) = approvals db"
  "auto_approvals (snd (update_tool_approval_part room m c db)) = auto_approvals db"
  "workspace (snd (update_tool_approval_part room m c db)) = workspace db"
  by (simp_all add: update_tool_approval_part_def split: option.splits)

lemma upsert_grant_keeps [simp]:
  "approvals (upsert_grant now u t k db) = approvals db"
  "workspace (upsert_grant now u t k db) = workspace db"
  "chat_history (upsert_grant now u t k db) = chat_history db"
  by (simp_all add: upsert_grant_def)

lemma settle_locked_Inr:
  assumes "settle_locked E k user_id decision spec now ip db = (Inr (row', c, outcome), db')"
  obtains row status result db1 where
    "get_actionable k user_id db = Some row" "row_status row = Pending"
    "decided_outcome row user_id decision spec ip db = (Inr (status, result, outcome), db1)"
    "row' = settle_row status decision result now row" "approval_card E row' = Inr c"
    "approvals db' = update_where (\<lambda>r. row_id r = row_id row) (settle_row status decision result now)
       (approvals db1)"
    "workspace db' = workspace db1"
    "auto_approvals db' = (if status = Succeeded \<and> decision = Some Always
       then auto_approvals (upsert_grant now user_id (row_tool row) (row_id row) db1) else auto_approvals db1)"
    "\<And>m. row_message row = Some m \<Longrightarrow>
       chat_history db' = chat_history (snd (update_tool_approval_part (row_room row) m c db1))"
proof -
  from assms obtain row where row: "get_actionable k user_id db = Some row" "row_status row = Pending"
    by (auto simp: settle_locked_def transaction_Inr split: option.splits if_splits)
  then obtain status result out db1 where
    dec: "decided_outcome row user_id decision spec ip db = (Inr (status, result, out), db1)"
    using assms by (auto simp: settle_locked_def transaction_Inr split: prod.splits sum.splits)
  let ?row = "settle_row status decision result now row"
  from assms row dec obtain c' where c': "approval_card E ?row = Inr c'"
    by (auto simp: settle_locked_def transaction_Inr settle_def split: sum.splits)
  let ?db2 = "db1\<lparr>approvals := update_where (\<lambda>r. row_id r = row_id row)
    (settle_row status decision result now) (approvals db1)\<rparr>"
  let ?db3 = "case row_message ?row of None \<Rightarrow> ?db2
    | Some m \<Rightarrow> snd (update_tool_approval_part (row_room ?row) m c' ?db2)"
  let ?db4 = "if status = Succeeded \<and> decision = Some Always
    then upsert_grant now user_id (row_tool ?row) (row_id ?row) ?db3 else ?db3"
  have st: "settle row status decision result now db1 = (?row, ?db2)" by (simp add: settle_def)
  have "settle_locked E k user_id decision spec now ip db = (Inr (?row, c', out), ?db4)"
    by (simp add: settle_locked_def transaction_Inr row dec st c' Let_def)
  from trans [OF assms [symmetric] this] have eq: "row' = ?row" "c = c'" "outcome = out" "db' = ?db4"
    by (blast dest: arg_cong [of _ _ fst] arg_cong [of _ _ snd])+
  show ?thesis
  proof (rule that [of row status result db1])
    show "auto_approvals db' = (if status = Succeeded \<and> decision = Some Always
       then auto_approvals (upsert_grant now user_id (row_tool row) (row_id row) db1) else auto_approvals db1)"
      unfolding eq(4)
      by (simp add: settle_def settle_row_def upsert_grant_def has_grant_def split: option.splits)
    show "chat_history db' = chat_history (snd (update_tool_approval_part (row_room row) m c db1))"
      if "row_message row = Some m" for m
      using that unfolding eq(2,4)
      by (simp add: settle_def settle_row_def update_tool_approval_part_def split: option.splits)
  qed (use row dec eq c' in \<open>auto simp: settle_def settle_row_def split: option.splits\<close>)
qed

lemma settle_row_keeps [simp]:
  "row_id (settle_row status decision result t r) = row_id r"
  "row_status (settle_row status decision result t r) = status"
  "row_message (settle_row status decision result t r) = row_message r"
  "row_decision (settle_row status decision result t r) = decision"
  "row_tool (settle_row status decision result t r) = row_tool r"
  "row_user (settle_row status decision result t r) = row_user r"
  by (simp_all add: settle_row_def)

lemma decided_outcome_Inr:
  assumes "decided_outcome row user_id decision spec ip db = (Inr (status, result, outcome), db')"
  shows "status \<noteq> Pending" "approvals db' = approvals db" "auto_approvals db' = auto_approvals db"
    "chat_history db' = chat_history db" "workspace db' \<noteq> workspace db \<Longrightarrow> status = Succeeded"
    "status = Succeeded \<or> status = Failed \<Longrightarrow> decision \<noteq> None \<and> decision \<noteq> Some Deny"
proof -
  consider (expired) "decision = None" "status = Expired" "db' = db"
    | (denied) "decision = Some Deny" "status = Denied" "db' = db"
    | (ran) sp where "decision \<noteq> None" "decision \<noteq> Some Deny"
        "run_in_savepoint sp user_id (row_arguments row) (target_ref_of row) ip db =
           (Inr (status, result, outcome), db')"
    using assms by (cases decision; cases "the decision"; cases spec) (auto simp: decided_outcome_def)
  then have "status \<noteq> Pending \<and> approvals db' = approvals db \<and> auto_approvals db' = auto_approvals db \<and>
    chat_history db' = chat_history db \<and> (workspace db' \<noteq> workspace db \<longrightarrow> status = Succeeded) \<and>
    (status = Succeeded \<or> status = Failed \<longrightarrow> decision \<noteq> None \<and> decision \<noteq> Some Deny)"
    by cases (auto dest: run_in_savepoint_Inr)
  then show "status \<noteq> Pending" "approvals db' = approvals db" "auto_approvals db' = auto_approvals db"
    "chat_history db' = chat_history db" "workspace db' \<noteq> workspace db \<Longrightarrow> status = Succeeded"
    "status = Succeeded \<or> status = Failed \<Longrightarrow> decision \<noteq> None \<and> decision \<noteq> Some Deny"
    by blast+
qed

lemma get_actionable_Some:
  "get_actionable k user_id db = Some row \<Longrightarrow>
   row \<in> set (approvals db) \<and> row_id row = k \<and> row_user row = user_id \<and> row_message row \<noteq> None"
  unfolding get_actionable_def by (drule select_one_Some) simp

lemma get_actionable_row:
  "cards_distinct (approvals db) \<Longrightarrow> get_actionable k user_id db = Some row \<Longrightarrow>
   card_row k (approvals db) = Some row"
  by (metis get_actionable_Some row_of_member)

lemma get_actionable_iff:
  assumes "cards_distinct (approvals db)"
  shows "get_actionable k user_id db = Some row \<longleftrightarrow>
    card_row k (approvals db) = Some row \<and> row_user row = user_id \<and> row_message row \<noteq> None"
proof -
  have "get_actionable k user_id db = (case card_row k (approvals db) of None \<Rightarrow> None
      | Some r \<Rightarrow> if row_id r = k \<and> row_user r = user_id \<and> row_message r \<noteq> None then Some r else None)"
    unfolding get_actionable_def by (rule select_one_key [OF assms]) simp
  then show ?thesis by (auto split: option.splits if_splits dest: row_of_Some)
qed

lemma settle_locked_pending:
  assumes "get_actionable k user_id db = Some row" and "row_status row = Pending"
  shows "settle_locked E k user_id decision spec now ip db \<noteq> (Inl (Approval_Already_Settled r), db')"
proof -
  have "approval_card E q \<noteq> Inl (Approval_Already_Settled r)" for q
    by (auto simp: approval_card_def validate_tool_approval_payload_def Let_def split: option.splits if_splits)
  moreover have "decided_outcome row user_id decision spec ip db \<noteq> (Inl (Approval_Already_Settled r), db1)" for db1
    by (auto simp: decided_outcome_def run_in_savepoint_def
        split: option.splits stored_decision.splits prod.splits sum.splits if_splits)
  ultimately show ?thesis
    using assms by (auto simp: settle_locked_def transaction_def settle_def Let_def
        split: prod.splits sum.splits)
qed

lemma settle_locked_table:
  "settle_locked E k user_id decision spec now ip db = (res, db') \<Longrightarrow>
   cards_distinct (approvals db) \<Longrightarrow> table_change None (approvals db) (approvals db')"
proof (cases res)
  case (Inl e)
  assume "settle_locked E k user_id decision spec now ip db = (res, db')"
  then have "db' = db" unfolding settle_locked_def Inl by (rule transaction_Inl)
  then show ?thesis by simp
next
  case (Inr r)
  assume run: "settle_locked E k user_id decision spec now ip db = (res, db')"
    and distinct: "cards_distinct (approvals db)"
  obtain row' c outcome where r: "r = (row', c, outcome)" by (cases r)
  with run Inr have "settle_locked E k user_id decision spec now ip db = (Inr (row', c, outcome), db')"
    by simp
  then show ?thesis
  proof (rule settle_locked_Inr)
    fix row status result db1
    assume row: "get_actionable k user_id db = Some row" "row_status row = Pending"
      and dec: "decided_outcome row user_id decision spec ip db = (Inr (status, result, outcome), db1)"
      and db': "approvals db' = update_where (\<lambda>r. row_id r = row_id row)
                  (settle_row status decision result now) (approvals db1)"
    note facts = decided_outcome_Inr [OF dec]
    have "row_steps r (settle_row status decision result now r)" if "row_id r = row_id row" "r \<in> set (approvals db)" for r
    proof -
      have "r = row" using that get_actionable_Some [OF row(1)] row_of_member [OF distinct, of r]
          row_of_member [OF distinct, of row] by auto
      then show ?thesis using decided [OF row(2) facts(1)] by auto
    qed
    then show ?thesis unfolding db' facts(2) by (intro table_change_update) auto
  qed
qed

lemma update_cards_keeps:
  "update_cards E rows db = (res, db') \<Longrightarrow>
   approvals db' = approvals db \<and> auto_approvals db' = auto_approvals db \<and> workspace db' = workspace db"
  by (induction rows arbitrary: db) (auto split: option.splits sum.splits)

abbreviation pending_in_room :: "string \<Rightarrow> int \<Rightarrow> approval_row \<Rightarrow> bool" where
  "pending_in_room room user_id r \<equiv>
     row_room r = room \<and> row_user r = user_id \<and> row_status r = Pending \<and> row_message r \<noteq> None"

abbreviation superseded_at :: "ticks \<Rightarrow> approval_row \<Rightarrow> approval_row" where
  "superseded_at t r \<equiv> r\<lparr>row_status := Superseded, row_decided_at := Some t\<rparr>"

lemma supersede_Inr:
  assumes "supersede_pending_approvals E now room user_id db = (Inr rows, db')"
  shows "rows = map (superseded_at now)
           (sort_key (\<lambda>r. (row_created_at r, row_id r)) (filter (pending_in_room room user_id) (approvals db)))"
    and "approvals db' = delete_where (\<lambda>r. row_room r = room \<and> row_user r = user_id \<and> row_message r = None
            \<and> row_created_at r < now - ORPHAN_APPROVAL_GRACE)
          (update_where (pending_in_room room user_id) (superseded_at now) (approvals db))"
    and "workspace db' = workspace db"
    and "map (\<lambda>g. (grant_user g, grant_tool g)) (auto_approvals db') =
         map (\<lambda>g. (grant_user g, grant_tool g)) (auto_approvals db)"
proof -
  obtain db1 where db1: "settle_pending_in_room room user_id Superseded now db = (rows, db1)"
    and upd: "\<exists>db2. update_cards E rows db1 = (Inr (), db2) \<and>
      db' = snd (delete_orphans_in_room room user_id (now - ORPHAN_APPROVAL_GRACE) db2)"
    using assms by (auto simp: supersede_pending_approvals_def transaction_Inr split: prod.splits sum.splits)
  then obtain db2 where db2: "update_cards E rows db1 = (Inr (), db2)"
    and db': "db' = snd (delete_orphans_in_room room user_id (now - ORPHAN_APPROVAL_GRACE) db2)" by blast
  note kept = update_cards_keeps [OF db2]
  show "rows = map (superseded_at now)
           (sort_key (\<lambda>r. (row_created_at r, row_id r)) (filter (pending_in_room room user_id) (approvals db)))"
    using db1 by (auto simp: settle_pending_in_room_def select_where_def Let_def)
  show "approvals db' = delete_where (\<lambda>r. row_room r = room \<and> row_user r = user_id \<and> row_message r = None
            \<and> row_created_at r < now - ORPHAN_APPROVAL_GRACE)
          (update_where (pending_in_room room user_id) (superseded_at now) (approvals db))"
    and "workspace db' = workspace db"
    and "map (\<lambda>g. (grant_user g, grant_tool g)) (auto_approvals db') =
         map (\<lambda>g. (grant_user g, grant_tool g)) (auto_approvals db)"
    using db1 kept unfolding db'
    by (auto simp: settle_pending_in_room_def delete_orphans_in_room_def Let_def update_where_def)
qed

lemma supersede_table:
  "supersede_pending_approvals E now room user_id db = (res, db') \<Longrightarrow>
   table_change None (approvals db) (approvals db')"
proof (cases res)
  case (Inl e)
  assume "supersede_pending_approvals E now room user_id db = (res, db')"
  then have "db' = db" unfolding supersede_pending_approvals_def Inl by (rule transaction_Inl)
  then show ?thesis by simp
next
  case (Inr rows)
  assume "supersede_pending_approvals E now room user_id db = (res, db')"
  note eq = supersede_Inr(2) [OF this [unfolded Inr]]
  have "table_change None (approvals db)
      (update_where (pending_in_room room user_id) (superseded_at now) (approvals db))"
    by (rule table_change_update) (simp, rule row_steps_supersede, simp_all)
  then show ?thesis unfolding eq by (rule table_change_trans) (rule table_change_delete, simp)
qed

lemma attach_message_table:
  "table_change None (approvals db) (approvals (snd (attach_message ids user_id room m db)))"
  unfolding attach_message_def Let_def
  by (auto intro!: table_change_update r_into_rtranclp attached)

lemma cancel_unattached_table:
  "table_change None (approvals db) (approvals (snd (cancel_unattached ids user_id t db)))"
  unfolding cancel_unattached_def Let_def
  by (auto intro!: table_change_update row_steps_supersede)

lemma store_proposal_cases [consumes 0, case_names failed pending auto]:
  obtains (failed) st where
    "store_proposal E digest c spec user_id room proposal untrusted uid s = s\<lparr>sys_limits := st\<rparr>"
  | (pending) st row where
    "row = proposed_row (ce_now c) uid user_id room (spec_name spec) proposal
             (proposal_target_ref proposal untrusted) Pending None None None"
    "uid \<notin> row_id ` set (approvals (sys_db s))"
    "store_proposal E digest c spec user_id room proposal untrusted uid s =
       s\<lparr>sys_limits := st, sys_db := (sys_db s)\<lparr>approvals := approvals (sys_db s) @ [row]\<rparr>,
         sys_audit := sys_audit s @ [audit row Proposed]\<rparr>"
  | (auto) st row status result d where
    "may_auto_approve digest c spec user_id proposal untrusted (sys_db s) (sys_limits s) = (True, st)"
    "row = proposed_row (ce_now c) uid user_id room (spec_name spec) proposal
             (proposal_target_ref proposal False) status (Some Auto) result (Some (ce_now c))"
    "status = Succeeded \<or> status = Failed \<and> d = workspace (sys_db s)"
    "uid \<notin> row_id ` set (approvals (sys_db s))"
    "store_proposal E digest c spec user_id room proposal untrusted uid s =
       s\<lparr>sys_limits := st,
         sys_db := (sys_db s)\<lparr>workspace := d, approvals := approvals (sys_db s) @ [row]\<rparr>,
         sys_audit := sys_audit s @ [audit row (Outcome status)]\<rparr>"
proof -
  obtain auto st where
    may: "may_auto_approve digest c spec user_id proposal untrusted (sys_db s) (sys_limits s) = (auto, st)"
    by fastforce
  let ?auto = "execute_auto_approved E (ce_now c) uid user_id room spec proposal (sys_db s)"
  let ?pend = "create_pending_approval E (ce_now c) uid user_id room (spec_name spec) proposal untrusted (sys_db s)"
  obtain res db where res: "(if auto then ?auto else ?pend) = (res, db)" by fastforce
  show ?thesis
  proof (cases res)
    case (Inl e)
    then have "db = sys_db s"
      using res unfolding execute_auto_approved_def create_pending_approval_def
      by (auto split: if_splits dest: transaction_Inl)
    then show ?thesis using may res Inl by (intro failed [of st]) (cases auto; simp add: store_proposal_def Let_def)
  next
    case (Inr p)
    then obtain row cd where p: "res = Inr (row, cd)" by (cases p) auto
    show ?thesis
    proof (cases auto)
      case True
      with res p have "?auto = (Inr (row, cd), db)" by simp
      then show ?thesis
      proof (rule execute_auto_approved_Inr)
        fix status result d
        assume "row = proposed_row (ce_now c) uid user_id room (spec_name spec) proposal
             (proposal_target_ref proposal False) status (Some Auto) result (Some (ce_now c))"
          and "status = Succeeded \<or> status = Failed \<and> d = workspace (sys_db s)"
          and "uid \<notin> row_id ` set (approvals (sys_db s))"
          and "db = (sys_db s)\<lparr>workspace := d, approvals := approvals (sys_db s) @ [row]\<rparr>"
        then show ?thesis
          using may res p True by (intro auto [of st row status result d]) (simp_all add: store_proposal_def proposed_row_def Let_def)
      qed
    next
      case False
      with res p have "insert_with_card E (proposed_row (ce_now c) uid user_id room (spec_name spec) proposal
             (proposal_target_ref proposal untrusted) Pending None None None) (sys_db s) = (Inr (row, cd), db)"
        by (simp add: create_pending_approval_def transaction_Inr)
      from insert_with_card_Inr [OF this] show ?thesis
        using may res p False by (intro pending [of row st]) (simp_all add: store_proposal_def proposed_row_def Let_def)
    qed
  qed
qed

section \<open>Every step keeps settled cards\<close>

fun creates :: "'s approval_op \<Rightarrow> uuid \<Rightarrow> bool" where
  "creates (Propose_Op c name user_id room proposal untrusted uid) k = (k = uid)"
| "creates _ k = False"

fun new_card :: "'s approval_op \<Rightarrow> uuid option" where
  "new_card (Propose_Op c name user_id room proposal untrusted uid) = Some uid"
| "new_card _ = None"

lemma creates_new_card: "creates op k \<longleftrightarrow> new_card op = Some k"
  by (cases op) auto

abbreviation cards :: "('d, 's) approval_sys \<Rightarrow> approval_row list" where
  "cards s \<equiv> approvals (sys_db s)"

definition sys_ok :: "('d, 's) approval_sys \<Rightarrow> bool" where
  "sys_ok s \<longleftrightarrow> cards_distinct (cards s)"

definition sys_row :: "('d, 's) approval_sys \<Rightarrow> uuid \<Rightarrow> approval_row option" where
  "sys_row s k = card_row k (cards s)"

lemma store_proposal_table:
  "table_change (Some uid) (cards s) (cards (store_proposal E digest c spec user_id room proposal untrusted uid s))"
proof (cases rule: store_proposal_cases
    [of E digest c spec user_id room proposal untrusted uid s])
  case (pending st row)
  then show ?thesis using table_change_append [of row "cards s"] by (simp add: proposed_row_def)
next
  case (auto st row status result d)
  then show ?thesis using table_change_append [of row "cards s"] by (simp add: proposed_row_def)
qed simp

lemma decide_settle_db:
  assumes "decide_settle E w db = (answer, audited, db')"
  obtains e where "settle_locked E (wd_id w) (wd_user w) (if wd_expiring w then None else Some (wd_decision w))
      (if wd_expiring w then None else wd_spec w) (wd_now w)
      (if wd_expiring w then None else wd_client_ip w) db = (Inl e, db')" "audited = None"
  | row c out where "settle_locked E (wd_id w) (wd_user w) (if wd_expiring w then None else Some (wd_decision w))
      (if wd_expiring w then None else wd_spec w) (wd_now w)
      (if wd_expiring w then None else wd_client_ip w) db = (Inr (row, c, out), db')" "audited = Some row"
  using assms
  by (auto simp: decide_settle_def Let_def split: prod.splits sum.splits approval_error.splits)

lemma step_table:
  assumes "sys_ok s"
  shows "table_change (new_card op) (cards s) (cards (approval_step E digest op s))"
proof (cases op)
  case (Propose_Op c name user_id room proposal untrusted uid)
  then show ?thesis using store_proposal_table by (auto split: option.splits)
next
  case (Save_Reply_Op room user_id saved parts ids)
  then show ?thesis
    using attach_message_table [of "sys_db s\<lparr>chat_history := chat_history (sys_db s) @ [x]\<rparr>"
        ids user_id room for x]
    by (auto simp: save_assistant_message_with_approvals_def Let_def split: option.splits)
next
  case (Supersede_Op now room user_id)
  obtain res db' where "supersede_pending_approvals E now room user_id (sys_db s) = (res, db')" by fastforce
  with Supersede_Op supersede_table [OF this] show ?thesis by (auto split: sum.splits)
next
  case (Cancel_Op now ids user_id)
  then show ?thesis using cancel_unattached_table by simp
next
  case (Decide_Op c user_id uid requested ack ip)
  then show ?thesis by (auto split: prod.splits sum.splits)
next
  case (Settle_Op n)
  obtain answer audited db' where dec: "decide_settle E (sys_waiting s ! n) (sys_db s) = (answer, audited, db')"
    using prod_cases3 by blast
  then have "table_change None (cards s) (approvals db')"
    by (rule decide_settle_db) (use assms in \<open>auto simp: sys_ok_def intro: settle_locked_table\<close>)
  with dec Settle_Op show ?thesis by simp
next
  case (Revoke_Op user_id tool)
  then show ?thesis by (simp add: delete_grant_def Let_def)
qed

section \<open>The journal of settlements\<close>

definition settled_ids :: "('d, 's) approval_sys \<Rightarrow> uuid list" where
  "settled_ids s = map au_id (filter (\<lambda>a. au_outcome a \<noteq> Proposed) (sys_audit s))"

definition settles :: "('d, 's) approval_sys \<Rightarrow> ('d, 's) approval_sys \<Rightarrow> 's approval_op \<Rightarrow> uuid \<Rightarrow> bool" where
  "settles s s' op k \<longleftrightarrow>
     (case sys_row s k of None \<Rightarrow> creates op k | Some r \<Rightarrow> row_status r = Pending) \<and>
     (\<exists>r. sys_row s' k = Some r \<and> row_status r \<noteq> Pending)"

lemma audit_simps [simp]: "au_id (audit r out) = row_id r" "au_outcome (audit r out) = out"
  "au_user (audit r out) = row_user r" "au_tool (audit r out) = row_tool r"
  "au_decision (audit r out) = row_decision r"
  by (simp_all add: audit_def)

lemma store_proposal_journal:
  fixes s E digest c spec user_id room proposal untrusted uid
  defines "s' \<equiv> store_proposal E digest c spec user_id room proposal untrusted uid s"
  shows "settled_ids s' = settled_ids s \<or>
    settled_ids s' = settled_ids s @ [uid] \<and> sys_row s uid = None \<and>
    (\<exists>r. sys_row s' uid = Some r \<and> row_status r \<noteq> Pending)"
  unfolding s'_def
proof (cases rule: store_proposal_cases [of E digest c spec user_id room proposal untrusted uid s])
  case (auto st row status result d)
  then have "sys_row s uid = None" by (simp add: sys_row_def row_of_None)
  with auto show "settled_ids (store_proposal E digest c spec user_id room proposal untrusted uid s) = settled_ids s \<or>
    settled_ids (store_proposal E digest c spec user_id room proposal untrusted uid s) = settled_ids s @ [uid] \<and>
    sys_row s uid = None \<and>
    (\<exists>r. sys_row (store_proposal E digest c spec user_id room proposal untrusted uid s) uid = Some r \<and>
         row_status r \<noteq> Pending)"
    by (auto simp: settled_ids_def sys_row_def row_of_append proposed_row_def)
qed (simp_all add: settled_ids_def)

lemma supersede_settles:
  assumes "cards_distinct (approvals db)" and "supersede_pending_approvals E now room user_id db = (Inr rows, db')"
  shows "distinct (map row_id rows)"
    and "k \<in> set (map row_id rows) \<Longrightarrow>
      (\<exists>r. card_row k (approvals db) = Some r \<and> row_status r = Pending) \<and>
      (\<exists>r. card_row k (approvals db') = Some r \<and> row_status r \<noteq> Pending)"
proof -
  note eqs = supersede_Inr [OF assms(2)]
  show "distinct (map row_id rows)"
    using assms(1) by (simp add: eqs(1) distinct_map distinct_filter inj_on_def)
  assume "k \<in> set (map row_id rows)"
  then obtain r where r: "r \<in> set (approvals db)" "pending_in_room room user_id r" "row_id r = k"
    by (auto simp: eqs(1))
  then have row: "card_row k (approvals db) = Some r"
    using row_of_member [OF assms(1)] by blast
  have "cards_distinct (update_where (pending_in_room room user_id) (superseded_at now) (approvals db))"
    using assms(1) by (simp add: keys_update)
  then have "card_row k (approvals db') = Some (superseded_at now r)"
    using r row by (simp add: eqs(2) row_of_delete row_of_update)
  with row r show "(\<exists>r. card_row k (approvals db) = Some r \<and> row_status r = Pending) \<and>
      (\<exists>r. card_row k (approvals db') = Some r \<and> row_status r \<noteq> Pending)" by simp
qed

lemma settle_locked_settles:
  assumes "cards_distinct (approvals db)"
    and "settle_locked E k user_id decision spec now ip db = (Inr (row', c, outcome), db')"
  shows "\<exists>r. card_row k (approvals db) = Some r \<and> row_status r = Pending"
    and "card_row k (approvals db') = Some row'" and "row_status row' \<noteq> Pending" and "row_id row' = k"
proof -
  have "(\<exists>r. card_row k (approvals db) = Some r \<and> row_status r = Pending) \<and>
      card_row k (approvals db') = Some row' \<and> row_status row' \<noteq> Pending \<and> row_id row' = k"
  using assms(2)
  proof (rule settle_locked_Inr)
  fix row status result db1
  assume row: "get_actionable k user_id db = Some row" "row_status row = Pending"
    and dec: "decided_outcome row user_id decision spec ip db = (Inr (status, result, outcome), db1)"
    and row': "row' = settle_row status decision result now row"
    and db': "approvals db' = update_where (\<lambda>r. row_id r = row_id row)
       (settle_row status decision result now) (approvals db1)"
  note k = get_actionable_row [OF assms(1) row(1)] get_actionable_Some [OF row(1)]
  from k row dec row' show "(\<exists>r. card_row k (approvals db) = Some r \<and> row_status r = Pending) \<and>
      card_row k (approvals db') = Some row' \<and> row_status row' \<noteq> Pending \<and> row_id row' = k"
    by (simp add: db' row_of_update decided_outcome_Inr [OF dec])
  qed
  then show "\<exists>r. card_row k (approvals db) = Some r \<and> row_status r = Pending"
    and "card_row k (approvals db') = Some row'" and "row_status row' \<noteq> Pending" and "row_id row' = k"
    by blast+
qed

lemma step_journal:
  assumes ok: "sys_ok s"
  shows "\<exists>new. settled_ids (approval_step E digest op s) = settled_ids s @ new \<and> distinct new \<and>
           (\<forall>k \<in> set new. settles s (approval_step E digest op s) op k)"
proof (cases op)
  case (Propose_Op c name user_id room proposal untrusted uid)
  show ?thesis
  proof (cases "get_workspace_tool_spec E name")
    case (Some spec)
    with store_proposal_journal [of E digest c spec user_id room proposal untrusted uid s] Propose_Op
    show ?thesis by (auto simp: settles_def)
  qed (simp add: Propose_Op)
next
  case (Supersede_Op now room user_id)
  obtain res db' where res: "supersede_pending_approvals E now room user_id (sys_db s) = (res, db')" by fastforce
  show ?thesis
  proof (cases res)
    case (Inr rows)
    with res ok have "supersede_pending_approvals E now room user_id (sys_db s) = (Inr rows, db')"
      "cards_distinct (cards s)" by (simp_all add: sys_ok_def)
    note facts = supersede_settles [OF this(2,1)]
    have "settled_ids (approval_step E digest op s) = settled_ids s @ map row_id rows"
      by (simp add: Supersede_Op res Inr settled_ids_def comp_def)
    moreover have "settles s (approval_step E digest op s) op k" if "k \<in> set (map row_id rows)" for k
      using facts(2) [OF that] by (auto simp: settles_def sys_row_def Supersede_Op res Inr)
    ultimately show ?thesis using facts(1) by blast
  qed (simp add: Supersede_Op res settled_ids_def)
next
  case (Settle_Op n)
  obtain answer audited db' where dec: "decide_settle E (sys_waiting s ! n) (sys_db s) = (answer, audited, db')"
    using prod_cases3 by blast
  then show ?thesis
  proof (rule decide_settle_db)
    fix row c out
    assume *: "settle_locked E (wd_id (sys_waiting s ! n)) (wd_user (sys_waiting s ! n))
      (if wd_expiring (sys_waiting s ! n) then None else Some (wd_decision (sys_waiting s ! n)))
      (if wd_expiring (sys_waiting s ! n) then None else wd_spec (sys_waiting s ! n)) (wd_now (sys_waiting s ! n))
      (if wd_expiring (sys_waiting s ! n) then None else wd_client_ip (sys_waiting s ! n)) (sys_db s) =
        (Inr (row, c, out), db')" and "audited = Some row"
    with dec settle_locked_settles [OF ok [unfolded sys_ok_def] *] show ?thesis
      by (auto simp: Settle_Op settled_ids_def settles_def sys_row_def)
  qed (use dec in \<open>simp add: Settle_Op settled_ids_def\<close>)
qed (auto simp: settled_ids_def split: prod.splits sum.splits)

definition newly_settled ::
  "'d approval_env \<Rightarrow> (string \<Rightarrow> string) \<Rightarrow> 's approval_op \<Rightarrow> ('d, 's) approval_sys \<Rightarrow> uuid list" where
  "newly_settled E digest op s = drop (length (settled_ids s)) (settled_ids (approval_step E digest op s))"

interpretation approval_table: settle_once_journal "approval_step E digest" sys_ok sys_row
  "\<lambda>r. row_status r \<noteq> Pending" row_verdict creates settled_ids "newly_settled E digest"
  for E :: "'d approval_env" and digest :: "string \<Rightarrow> string"
proof
  fix s :: "('d, 's) approval_sys" and op
  assume ok: "sys_ok s"
  note change = step_table [OF ok, of op E digest]
  show "sys_ok (approval_step E digest op s)"
    using table_change_distinct [OF change] ok by (simp add: sys_ok_def)
  show "row_status r' \<noteq> Pending \<and> row_verdict r' = row_verdict r"
    if "sys_row s k = Some r" "row_status r \<noteq> Pending" "sys_row (approval_step E digest op s) k = Some r'" for k r r'
    using row_steps_settled [OF table_change_row [OF change]] that ok by (simp add: sys_row_def sys_ok_def)
  show "sys_row (approval_step E digest op s) k = None" if "sys_row s k = None" "\<not> creates op k" for k
    using table_change_new [OF change] that ok by (simp add: sys_row_def sys_ok_def creates_new_card)
  from step_journal [OF ok, of E digest op] obtain new where new:
    "settled_ids (approval_step E digest op s) = settled_ids s @ new" "distinct new"
    "\<forall>k \<in> set new. settles s (approval_step E digest op s) op k" by blast
  then have rec: "newly_settled E digest op s = new" by (simp add: newly_settled_def)
  show "settled_ids (approval_step E digest op s) = settled_ids s @ newly_settled E digest op s"
    and "distinct (newly_settled E digest op s)" using new rec by simp_all
  show "(case sys_row s k of None \<Rightarrow> creates op k | Some r \<Rightarrow> \<not> row_status r \<noteq> Pending) \<and>
        (\<exists>r. sys_row (approval_step E digest op s) k = Some r \<and> row_status r \<noteq> Pending)"
    if "k \<in> set (newly_settled E digest op s)" for k
    using new(3) that rec by (auto simp: settles_def split: option.splits)
qed

abbreviation approval_run ::
  "'d approval_env \<Rightarrow> (string \<Rightarrow> string) \<Rightarrow> 's approval_op list \<Rightarrow> ('d, 's) approval_sys \<Rightarrow> ('d, 's) approval_sys" where
  "approval_run E digest ops s \<equiv> fold (approval_step E digest) ops s"

lemma fresh_cards:
  "distinct (List.map_filter new_card ops) \<Longrightarrow> K \<inter> set (List.map_filter new_card ops) = {} \<Longrightarrow>
   approval_table.fresh K ops"
proof (induction ops arbitrary: K)
  case (Cons op ops)
  have created: "{k. creates op k} = set_option (new_card op)"
    using creates_new_card [of op] by (auto simp: elem_set)
  show ?case unfolding approval_table.fresh.simps
  proof (intro conjI allI impI)
    show "k \<notin> K" if "creates op k" for k
      using Cons.prems that by (auto simp: creates_new_card map_filter_simps)
    show "approval_table.fresh (K \<union> {k. creates op k}) ops"
      unfolding created using Cons.prems
      by (intro Cons.IH) (auto simp: map_filter_simps elem_set split: option.splits)
  qed
qed simp

section \<open>What changes the user's data\<close>

lemma step_workspace:
  assumes "sys_ok s" and "workspace (sys_db (approval_step E digest op s)) \<noteq> workspace (sys_db s)"
  obtains a where "sys_audit (approval_step E digest op s) = sys_audit s @ [a]" "au_outcome a = Outcome Succeeded"
proof (cases op)
  case (Propose_Op c name user_id room proposal untrusted uid)
  with assms(2) obtain spec where spec: "get_workspace_tool_spec E name = Some spec"
    by (auto split: option.splits)
  show ?thesis
    using that assms(2) Propose_Op spec
    by (cases rule: store_proposal_cases [of E digest c spec user_id room proposal untrusted uid s]) auto
next
  case (Save_Reply_Op room user_id saved parts ids)
  with assms(2) show ?thesis
    by (auto simp: save_assistant_message_with_approvals_def attach_message_def Let_def split: option.splits if_splits)
next
  case (Supersede_Op now room user_id)
  obtain res db' where res: "supersede_pending_approvals E now room user_id (sys_db s) = (res, db')" by fastforce
  have "workspace db' = workspace (sys_db s)"
  proof (cases res)
    case (Inl e)
    with res show ?thesis unfolding supersede_pending_approvals_def by (auto dest: transaction_Inl)
  next
    case (Inr rows)
    with res show ?thesis using supersede_Inr(3) by blast
  qed
  with assms(2) Supersede_Op res show ?thesis by (auto split: sum.splits)
next
  case (Cancel_Op now ids user_id)
  with assms(2) show ?thesis by (auto simp: cancel_unattached_def Let_def split: if_splits)
next
  case (Decide_Op c user_id uid requested ack ip)
  with assms(2) show ?thesis by (auto split: prod.splits sum.splits)
next
  case (Settle_Op n)
  obtain answer audited db' where dec: "decide_settle E (sys_waiting s ! n) (sys_db s) = (answer, audited, db')"
    using prod_cases3 by blast
  have changed: "workspace db' \<noteq> workspace (sys_db s)" and n: "n < length (sys_waiting s)"
    using assms(2) dec Settle_Op by (auto split: if_splits)
  from dec show ?thesis
  proof (rule decide_settle_db)
    fix e assume "settle_locked E (wd_id (sys_waiting s ! n)) (wd_user (sys_waiting s ! n))
      (if wd_expiring (sys_waiting s ! n) then None else Some (wd_decision (sys_waiting s ! n)))
      (if wd_expiring (sys_waiting s ! n) then None else wd_spec (sys_waiting s ! n)) (wd_now (sys_waiting s ! n))
      (if wd_expiring (sys_waiting s ! n) then None else wd_client_ip (sys_waiting s ! n)) (sys_db s) = (Inl e, db')"
    then have "db' = sys_db s" unfolding settle_locked_def by (rule transaction_Inl)
    with changed show ?thesis by simp
  next
    fix row c out
    assume "settle_locked E (wd_id (sys_waiting s ! n)) (wd_user (sys_waiting s ! n))
      (if wd_expiring (sys_waiting s ! n) then None else Some (wd_decision (sys_waiting s ! n)))
      (if wd_expiring (sys_waiting s ! n) then None else wd_spec (sys_waiting s ! n)) (wd_now (sys_waiting s ! n))
      (if wd_expiring (sys_waiting s ! n) then None else wd_client_ip (sys_waiting s ! n)) (sys_db s) =
        (Inr (row, c, out), db')" and audited: "audited = Some row"
    then have "row_status row = Succeeded"
      by (elim settle_locked_Inr) (use changed in \<open>auto dest: decided_outcome_Inr(5)\<close>)
    with dec audited n that Settle_Op show ?thesis by simp
  qed
next
  case (Revoke_Op user_id tool)
  with assms(2) show ?thesis by (simp add: delete_grant_def Let_def)
qed

text \<open>The cards to which the changes of the user's data in a run belong, in order.\<close>

fun data_changes ::
  "'d approval_env \<Rightarrow> (string \<Rightarrow> string) \<Rightarrow> 's approval_op list \<Rightarrow> ('d, 's) approval_sys \<Rightarrow> uuid list" where
  "data_changes E digest [] s = []"
| "data_changes E digest (op # ops) s =
     (let s' = approval_step E digest op s
      in (if workspace (sys_db s') \<noteq> workspace (sys_db s) then [au_id (last (sys_audit s'))] else [])
         @ data_changes E digest ops s')"

lemma data_changes_settled:
  "sys_ok s \<Longrightarrow> \<exists>ids. settled_ids (approval_run E digest ops s) = settled_ids s @ ids \<and>
     subseq (data_changes E digest ops s) ids"
proof (induction ops arbitrary: s)
  case (Cons op ops)
  let ?s = "approval_step E digest op s"
  from step_journal [OF Cons.prems, of E digest op] obtain new where new:
    "settled_ids ?s = settled_ids s @ new" by blast
  have "sys_ok ?s" by (rule approval_table.inv_step [OF Cons.prems])
  from Cons.IH [OF this] obtain ids where ids:
    "settled_ids (approval_run E digest ops ?s) = settled_ids ?s @ ids" "subseq (data_changes E digest ops ?s) ids"
    by blast
  have "subseq (if workspace (sys_db ?s) \<noteq> workspace (sys_db s) then [au_id (last (sys_audit ?s))] else []) new"
  proof (cases "workspace (sys_db ?s) = workspace (sys_db s)")
    case False
    from step_workspace [OF Cons.prems False] obtain a where
      "sys_audit ?s = sys_audit s @ [a]" "au_outcome a = Outcome Succeeded" by blast
    with new False show ?thesis by (simp add: settled_ids_def)
  qed simp
  then have "subseq (data_changes E digest (op # ops) s) (new @ ids)"
    unfolding data_changes.simps Let_def using ids(2) by (rule list_emb_append_mono)
  with new ids(1) show ?case by (intro exI [of _ "new @ ids"]) simp
qed simp

lemma settled_ids_distinct:
  assumes "cards s = []" and "sys_audit s = []" and "distinct (List.map_filter new_card ops)"
  shows "distinct (settled_ids (approval_run E digest ops s))"
proof -
  have "approval_table.used {} s"
    using assms unfolding approval_table.used_def by (simp add: sys_ok_def sys_row_def row_of_def settled_ids_def)
  moreover have "approval_table.fresh {} ops" using assms(3) by (intro fresh_cards) simp_all
  ultimately show ?thesis
    using approval_table.journal_distinct [of "{}" s ops E digest] by (simp add: approval_table.run_def)
qed

section \<open>Grants and what was checked before a run\<close>

definition approved_always :: "audit_entry list \<Rightarrow> int \<Rightarrow> string \<Rightarrow> bool" where
  "approved_always log user_id tool \<longleftrightarrow>
     list_ex (\<lambda>b. au_user b = user_id \<and> au_tool b = tool \<and> au_decision b = Some Always
                  \<and> au_outcome b = Outcome Succeeded) log"

definition allows_always :: "string \<Rightarrow> bool" where
  "allows_always tool \<longleftrightarrow>
     tool \<in> {''memo_create'', ''memo_append'', ''memo_edit'', ''my_prompt_save'', ''my_skill_save''}"

lemma allows_always_spec:
  "get_workspace_tool_spec E tool = Some spec \<Longrightarrow>
   spec_name spec = tool \<and> (spec_allows_always spec \<longleftrightarrow> allows_always tool)"
  by (auto simp: get_workspace_tool_spec_def allows_always_def PROFILE_TOOL_SPECS_def MEMO_TOOL_SPECS_def
      PROMPTS_TOOL_SPECS_def split: if_splits)

text \<open>
  The entries of the log are justified in order: a run that was approved "always" is of a tool that may
  be granted, and an automatic run also comes after a successful run approved "always" by the same user.
\<close>

fun justified :: "audit_entry list \<Rightarrow> audit_entry list \<Rightarrow> bool" where
  "justified before [] = True"
| "justified before (a # log) =
     ((au_outcome a = Outcome Succeeded \<or> au_outcome a = Outcome Failed \<longrightarrow>
         (au_decision a = Some Always \<longrightarrow> allows_always (au_tool a)) \<and>
         (au_decision a = Some Auto \<longrightarrow> allows_always (au_tool a) \<and> approved_always before (au_user a) (au_tool a))) \<and>
      justified (before @ [a]) log)"

lemma justified_append: "justified before (xs @ ys) \<longleftrightarrow> justified before xs \<and> justified (before @ xs) ys"
  by (induction xs arbitrary: before) simp_all

lemma approved_always_append: "approved_always xs u t \<Longrightarrow> approved_always (xs @ ys) u t"
  by (simp add: approved_always_def)

definition waiting_ok :: "'d approval_env \<Rightarrow> ('d, 's) approval_sys \<Rightarrow> 'd waiting_decision \<Rightarrow> bool" where
  "waiting_ok E s w \<longleftrightarrow>
     (\<exists>r. sys_row s (wd_id w) = Some r \<and> row_user r = wd_user w \<and> row_message r \<noteq> None \<and>
          wd_spec w = get_workspace_tool_spec E (row_tool r) \<and>
          (wd_expiring w \<longleftrightarrow> row_expires_at r \<le> wd_now w) \<and>
          (\<not> wd_expiring w \<and> wd_decision w = Always \<longrightarrow> always_allowed (wd_spec w) (target_ref_of r)) \<and>
          wd_decision w \<noteq> Auto)"

definition grants_ok :: "'d approval_env \<Rightarrow> ('d, 's) approval_sys \<Rightarrow> bool" where
  "grants_ok E s \<longleftrightarrow> sys_ok s \<and> (\<forall>w \<in> set (sys_waiting s). waiting_ok E s w) \<and>
     (\<forall>g \<in> set (auto_approvals (sys_db s)). approved_always (sys_audit s) (grant_user g) (grant_tool g)) \<and>
     justified [] (sys_audit s)"

lemma waiting_ok_step:
  assumes "sys_ok s" and "waiting_ok E s w"
  shows "waiting_ok E (approval_step E digest op s) w"
proof -
  from assms(2) obtain r where r: "sys_row s (wd_id w) = Some r" "row_message r \<noteq> None"
    and rest: "row_user r = wd_user w" "wd_spec w = get_workspace_tool_spec E (row_tool r)"
      "wd_expiring w \<longleftrightarrow> row_expires_at r \<le> wd_now w" "wd_decision w \<noteq> Auto"
      "\<not> wd_expiring w \<and> wd_decision w = Always \<longrightarrow> always_allowed (wd_spec w) (target_ref_of r)"
    unfolding waiting_ok_def by blast
  note change = step_table [OF assms(1), of op E digest]
  obtain r' where r': "sys_row (approval_step E digest op s) (wd_id w) = Some r'"
    using table_change_gone [OF change, of "wd_id w" r] r assms(1)
    by (cases "sys_row (approval_step E digest op s) (wd_id w)") (auto simp: sys_row_def sys_ok_def)
  have "row_steps r r'"
    using table_change_row [OF change, of "wd_id w" r r'] r r' assms(1) by (simp add: sys_row_def sys_ok_def)
  from row_steps_keep [OF this] r r' rest show ?thesis
    unfolding waiting_ok_def by (intro exI [of _ r']) (simp add: row_fixed_def)
qed

lemma decide_checks_waiting:
  assumes "sys_ok s"
    and "decide_checks E digest c user_id k requested ack ip (sys_db s) st = (Inr w, st')"
  shows "waiting_ok E s w"
proof -
  obtain row where row: "get_actionable k user_id (sys_db s) = Some row" "row_status row = Pending"
    using assms(2) by (auto simp: decide_checks_def Let_def split: option.splits if_splits)
  let ?spec = "get_workspace_tool_spec E (row_tool row)"
  have w: "w = \<lparr>wd_user = user_id, wd_id = k, wd_decision = STORED_DECISION requested,
      wd_expiring = is_expired row (ce_now c), wd_spec = ?spec, wd_now = ce_now c, wd_client_ip = ip\<rparr>"
    and always: "\<not> is_expired row (ce_now c) \<and> STORED_DECISION requested = Always \<longrightarrow>
      always_allowed ?spec (target_ref_of row)"
    using assms(2) row by (auto simp: decide_checks_def Let_def split: if_splits prod.splits)
  have "STORED_DECISION requested \<noteq> Auto" by (cases requested) simp_all
  with w always get_actionable_Some [OF row(1)] get_actionable_row [OF _ row(1)] assms(1) show ?thesis
    unfolding waiting_ok_def by (intro exI [of _ row]) (simp add: sys_row_def sys_ok_def is_expired_def)
qed

lemma grants_ok_extend:
  assumes "grants_ok E s" and "sys_ok s'"
    and "\<And>w. w \<in> set (sys_waiting s') \<Longrightarrow> waiting_ok E s' w"
    and "sys_audit s' = sys_audit s @ new" and "justified (sys_audit s) new"
    and "\<And>g. g \<in> set (auto_approvals (sys_db s')) \<Longrightarrow>
           (grant_user g, grant_tool g) \<in> (\<lambda>g. (grant_user g, grant_tool g)) ` set (auto_approvals (sys_db s)) \<or>
           approved_always new (grant_user g) (grant_tool g)"
  shows "grants_ok E s'"
proof -
  have "approved_always (sys_audit s @ new) (grant_user g) (grant_tool g)"
    if "g \<in> set (auto_approvals (sys_db s'))" for g
    using assms(6) [OF that] assms(1) approved_always_append [of "sys_audit s" _ _ new]
    by (auto simp: grants_ok_def approved_always_def)
  then show ?thesis using assms unfolding grants_ok_def by (simp add: justified_append)
qed

lemma has_grant_member:
  "has_grant u t db \<Longrightarrow> \<exists>g \<in> set (auto_approvals db). grant_user g = u \<and> grant_tool g = t"
  by (auto simp: has_grant_def list_ex_iff)

lemma may_auto_approve_True:
  "may_auto_approve digest c spec user_id proposal untrusted db st = (True, st') \<Longrightarrow>
   spec_allows_always spec \<and> \<not> prop_shared proposal \<and> \<not> untrusted \<and> has_grant user_id (spec_name spec) db \<and>
   (\<exists>n. consume_chat_tool_write_limit digest c user_id st = ((True, n), st'))"
  by (auto simp: may_auto_approve_def split: if_splits prod.splits)

lemma store_proposal_grants:
  assumes "grants_ok E s" and "get_workspace_tool_spec E name = Some spec"
    and w: "\<And>w. w \<in> set (sys_waiting s') \<Longrightarrow> waiting_ok E s' w" and ok: "sys_ok s'"
    and s': "s' = store_proposal E digest c spec user_id room proposal untrusted uid s"
  shows "grants_ok E s'"
proof (cases rule: store_proposal_cases [of E digest c spec user_id room proposal untrusted uid s])
  case (failed st)
  with assms show ?thesis by (intro grants_ok_extend [OF assms(1), of s' "[]"]) auto
next
  case (pending st row)
  with w ok s' show ?thesis
    by (intro grants_ok_extend [OF assms(1), of s' "[audit row Proposed]"]) auto
next
  case (auto st row status result d)
  note may = may_auto_approve_True [OF auto(1)] allows_always_spec [OF assms(2)]
  then obtain g where "g \<in> set (auto_approvals (sys_db s))" "grant_user g = user_id" "grant_tool g = spec_name spec"
    using has_grant_member by blast
  then have "approved_always (sys_audit s) user_id (spec_name spec)"
    using assms(1) by (auto simp: grants_ok_def)
  with may auto w ok s' show ?thesis
    by (intro grants_ok_extend [OF assms(1), of s' "[audit row (Outcome status)]"]) (auto simp: proposed_row_def)
qed

lemma settle_grants:
  assumes "grants_ok E s" and n: "n < length (sys_waiting s)"
    and w: "\<And>w. w \<in> set (sys_waiting s') \<Longrightarrow> waiting_ok E s' w" and ok: "sys_ok s'"
    and s': "s' = approval_step E digest (Settle_Op n) s"
  shows "grants_ok E s'"
proof -
  let ?w = "sys_waiting s ! n"
  obtain answer audited db' where dec: "decide_settle E ?w (sys_db s) = (answer, audited, db')"
    using prod_cases3 by blast
  have audit: "sys_audit s' = sys_audit s @ (case audited of None \<Rightarrow> [] | Some r \<Rightarrow> [audit r (Outcome (row_status r))])"
    and db: "sys_db s' = db'" using dec n s' by simp_all
  from dec show ?thesis
  proof (rule decide_settle_db)
    fix e assume "settle_locked E (wd_id ?w) (wd_user ?w) (if wd_expiring ?w then None else Some (wd_decision ?w))
      (if wd_expiring ?w then None else wd_spec ?w) (wd_now ?w)
      (if wd_expiring ?w then None else wd_client_ip ?w) (sys_db s) = (Inl e, db')" and a: "audited = None"
    then have "db' = sys_db s" unfolding settle_locked_def by (auto dest: transaction_Inl)
    with a audit db w ok show ?thesis by (intro grants_ok_extend [OF assms(1), of s' "[]"]) auto
  next
    fix row' c out
    assume locked: "settle_locked E (wd_id ?w) (wd_user ?w) (if wd_expiring ?w then None else Some (wd_decision ?w))
      (if wd_expiring ?w then None else wd_spec ?w) (wd_now ?w)
      (if wd_expiring ?w then None else wd_client_ip ?w) (sys_db s) = (Inr (row', c, out), db')"
      and a: "audited = Some row'"
    have sysok: "cards_distinct (cards s)" using assms(1) by (simp add: grants_ok_def sys_ok_def)
    from assms(1) n have wok: "waiting_ok E s ?w" by (simp add: grants_ok_def)
    from locked show ?thesis
    proof (rule settle_locked_Inr)
      fix row status result db1
      assume act: "get_actionable (wd_id ?w) (wd_user ?w) (sys_db s) = Some row"
        and outc: "decided_outcome row (wd_user ?w) (if wd_expiring ?w then None else Some (wd_decision ?w))
          (if wd_expiring ?w then None else wd_spec ?w) (if wd_expiring ?w then None else wd_client_ip ?w)
          (sys_db s) = (Inr (status, result, out), db1)"
        and row': "row' = settle_row status (if wd_expiring ?w then None else Some (wd_decision ?w)) result (wd_now ?w) row"
        and grants: "auto_approvals db' = (if status = Succeeded \<and> (if wd_expiring ?w then None else Some (wd_decision ?w)) = Some Always
          then auto_approvals (upsert_grant (wd_now ?w) (wd_user ?w) (row_tool row) (row_id row) db1)
          else auto_approvals db1)"
      have user: "row_user row = wd_user ?w" using get_actionable_Some [OF act] by simp
      have row: "sys_row s (wd_id ?w) = Some row" using get_actionable_row [OF sysok act] by (simp add: sys_row_def)
      have allowed: "allows_always (row_tool row)" if "\<not> wd_expiring ?w" "wd_decision ?w = Always"
        using wok row that allows_always_spec
        by (auto simp: waiting_ok_def always_allowed_def split: option.splits)
      have not_auto: "wd_decision ?w \<noteq> Auto" using wok by (auto simp: waiting_ok_def)
      show ?thesis
      proof (rule grants_ok_extend [OF assms(1) ok w, of "[audit row' (Outcome status)]"])
        show "sys_audit s' = sys_audit s @ [audit row' (Outcome status)]" using audit a row' by simp
        show "justified (sys_audit s) [audit row' (Outcome status)]"
          using allowed not_auto by (auto simp: row')
        show "(grant_user g, grant_tool g) \<in> (\<lambda>g. (grant_user g, grant_tool g)) ` set (auto_approvals (sys_db s)) \<or>
           approved_always [audit row' (Outcome status)] (grant_user g) (grant_tool g)"
          if "g \<in> set (auto_approvals (sys_db s'))" for g
          using that grants user decided_outcome_Inr(3) [OF outc]
          by (auto simp: db row' upsert_grant_def approved_always_def split: if_splits)
      qed
    qed
  qed
qed

lemma step_waiting:
  assumes "w \<in> set (sys_waiting (approval_step E digest op s))"
  shows "w \<in> set (sys_waiting s) \<or>
    (\<exists>c user_id k requested ack ip st'. op = Decide_Op c user_id k requested ack ip \<and>
       decide_checks E digest c user_id k requested ack ip (sys_db s) (sys_limits s) = (Inr w, st'))"
proof (cases op)
  case (Propose_Op c name user_id room proposal untrusted uid)
  have "sys_waiting (store_proposal E digest c spec user_id room proposal untrusted uid s) = sys_waiting s" for spec
    by (cases rule: store_proposal_cases [of E digest c spec user_id room proposal untrusted uid s]) auto
  with assms Propose_Op show ?thesis by (auto split: option.splits)
next
  case (Supersede_Op now room user_id)
  with assms show ?thesis by (auto split: prod.splits sum.splits)
next
  case (Decide_Op c user_id k requested ack ip)
  with assms show ?thesis by (auto split: prod.splits sum.splits)
next
  case (Settle_Op n)
  with assms show ?thesis by (auto split: prod.splits if_splits dest: in_set_takeD in_set_dropD)
qed (use assms in auto)

lemma quiet_step:
  assumes "grants_ok E s" and "sys_ok s'" and "\<And>w. w \<in> set (sys_waiting s') \<Longrightarrow> waiting_ok E s' w"
    and "sys_audit s' = sys_audit s"
    and "\<And>g. g \<in> set (auto_approvals (sys_db s')) \<Longrightarrow>
      (grant_user g, grant_tool g) \<in> (\<lambda>g. (grant_user g, grant_tool g)) ` set (auto_approvals (sys_db s))"
  shows "grants_ok E s'"
  using assms by (intro grants_ok_extend [OF assms(1), of s' "[]"]) auto

lemma supersede_justified: "justified before (map (\<lambda>r. audit r (Outcome Superseded)) rows)"
  by (induction rows arbitrary: before) simp_all

lemma grants_ok_step:
  assumes "grants_ok E s"
  shows "grants_ok E (approval_step E digest op s)"
proof -
  let ?s = "approval_step E digest op s"
  have s: "sys_ok s" using assms by (simp add: grants_ok_def)
  have ok: "sys_ok ?s" by (rule approval_table.inv_step [OF s])
  have w: "waiting_ok E ?s w" if "w \<in> set (sys_waiting ?s)" for w
    using step_waiting [OF that] assms decide_checks_waiting [OF s]
    by (intro waiting_ok_step [OF s]) (auto simp: grants_ok_def)
  note quiet = quiet_step [OF assms ok w]
  show ?thesis
  proof (cases op)
    case (Propose_Op c name user_id room proposal untrusted uid)
    then show ?thesis using store_proposal_grants [OF assms _ w ok] assms by (cases "get_workspace_tool_spec E name") auto
  next
    case (Save_Reply_Op room user_id saved parts ids)
    then show ?thesis
      by (intro quiet)
        (auto simp: save_assistant_message_with_approvals_def attach_message_def Let_def split: option.splits if_splits)
  next
    case (Supersede_Op now room user_id)
    obtain res db' where res: "supersede_pending_approvals E now room user_id (sys_db s) = (res, db')" by fastforce
    show ?thesis
    proof (cases res)
      case (Inl e)
      with res have "db' = sys_db s" unfolding supersede_pending_approvals_def by (auto dest: transaction_Inl)
      with Supersede_Op res Inl assms show ?thesis by simp
    next
      case (Inr rows)
      note same = supersede_Inr(4) [OF res [unfolded Inr]]
      have "(grant_user g, grant_tool g) \<in> (\<lambda>g. (grant_user g, grant_tool g)) ` set (auto_approvals (sys_db s))"
        if "g \<in> set (auto_approvals db')" for g
        using arg_cong [OF same, of set] that by auto
      then show ?thesis
        using Supersede_Op res Inr supersede_justified
        by (intro grants_ok_extend [OF assms ok w, of "map (\<lambda>r. audit r (Outcome Superseded)) rows"]) auto
    qed
  next
    case (Cancel_Op now ids user_id)
    then show ?thesis by (intro quiet) (auto simp: cancel_unattached_def Let_def split: if_splits)
  next
    case (Decide_Op c user_id k requested ack ip)
    then show ?thesis by (intro quiet) (auto split: prod.splits sum.splits)
  next
    case (Settle_Op n)
    then show ?thesis using settle_grants [OF assms _ w ok] assms by (cases "n < length (sys_waiting s)") auto
  next
    case (Revoke_Op user_id tool)
    then show ?thesis by (intro quiet) (auto simp: delete_grant_def delete_where_def Let_def)
  qed
qed

lemma grants_ok_run: "grants_ok E s \<Longrightarrow> grants_ok E (approval_run E digest ops s)"
  by (induction ops arbitrary: s) (simp_all add: grants_ok_step)

section \<open>Deciding once and again\<close>

lemma settle_locked_actionable:
  assumes "cards_distinct (approvals db)"
    and "settle_locked E k user_id decision spec now ip db = (Inr (row', c, outcome), db')"
  shows "get_actionable k user_id db' = Some row'" "row_decision row' = decision" "approval_card E row' = Inr c"
    "row_status row' = Expired \<longleftrightarrow> decision = None"
proof -
  have d': "cards_distinct (approvals db')"
    using table_change_distinct [OF settle_locked_table [OF assms(2,1)] assms(1)] .
  have "row_decision row' = decision \<and> approval_card E row' = Inr c \<and> (row_status row' = Expired \<longleftrightarrow> decision = None)
      \<and> row_user row' = user_id \<and> row_message row' \<noteq> None"
    using assms(2)
  proof (rule settle_locked_Inr)
    fix row status result db1
    assume row: "get_actionable k user_id db = Some row"
      and dec: "decided_outcome row user_id decision spec ip db = (Inr (status, result, outcome), db1)"
      and row': "row' = settle_row status decision result now row" and c: "approval_card E row' = Inr c"
    have "status = Expired \<longleftrightarrow> decision = None"
      using dec run_in_savepoint_Inr [of _ user_id "row_arguments row" _ ip db status result outcome db1]
      by (auto simp: decided_outcome_def split: option.splits stored_decision.splits)
    with get_actionable_Some [OF row] row' c show "row_decision row' = decision \<and> approval_card E row' = Inr c \<and>
      (row_status row' = Expired \<longleftrightarrow> decision = None) \<and> row_user row' = user_id \<and> row_message row' \<noteq> None" by simp
  qed
  with settle_locked_settles [OF assms] d'
  show "get_actionable k user_id db' = Some row'" "row_decision row' = decision" "approval_card E row' = Inr c"
    "row_status row' = Expired \<longleftrightarrow> decision = None"
    by (simp_all add: get_actionable_iff)
qed

lemma decide_pending_settles:
  assumes "get_actionable k user_id db = Some row" and "row_status row = Pending"
    and "decide_tool_approval E digest c user_id k requested ack ip (db, st) = (Inr a, db', st')"
  obtains row' out where "settle_locked E k user_id (Some (STORED_DECISION requested))
    (get_workspace_tool_spec E (row_tool row)) (ce_now c) ip db = (Inr (row', a, out), db')"
proof -
  from assms obtain w where "decide_checks E digest c user_id k requested ack ip db st = (Inr w, st')"
    and dec: "\<exists>audited. decide_settle E w db = (Inr a, audited, db')"
    by (auto simp: decide_tool_approval_def decide_checks_def Let_def split: prod.splits sum.splits if_splits)
  then have w: "wd_id w = k" "wd_user w = user_id" "wd_decision w = STORED_DECISION requested"
    "wd_spec w = get_workspace_tool_spec E (row_tool row)" "wd_now w = ce_now c" "wd_client_ip w = ip"
    using assms(1,2) by (auto simp: decide_checks_def Let_def split: if_splits prod.splits)
  let ?locked = "settle_locked E k user_id (if wd_expiring w then None else Some (wd_decision w))
    (if wd_expiring w then None else wd_spec w) (wd_now w) (if wd_expiring w then None else wd_client_ip w) db"
  have "?locked \<noteq> (Inl (Approval_Already_Settled r), db2)" for r db2
    using settle_locked_pending [OF assms(1,2)] by simp
  with dec w obtain row' out where "?locked = (Inr (row', a, out), db')" "\<not> wd_expiring w"
    by (auto simp: decide_settle_def Let_def split: prod.splits sum.splits approval_error.splits if_splits)
  with w show ?thesis by (intro that [of row' out]) simp
qed

lemma decide_Inr_settled:
  assumes "cards_distinct (approvals db)"
    and "decide_tool_approval E digest c user_id k requested ack ip (db, st) = (Inr a, db', st')"
  obtains row where "get_actionable k user_id db' = Some row" "row_status row \<noteq> Pending" "row_status row \<noteq> Expired"
    "row_decision row = Some (STORED_DECISION requested)" "approval_card E row = Inr a"
proof -
  from assms(2) obtain row where row: "get_actionable k user_id db = Some row"
    by (auto simp: decide_tool_approval_def decide_checks_def Let_def split: option.splits)
  show ?thesis
  proof (cases "row_status row = Pending")
    case False
    with assms(2) row have "settled_card E row (STORED_DECISION requested) = Inr a" "db' = db"
      by (auto simp: decide_tool_approval_def decide_checks_def Let_def)
    with row False show ?thesis
      by (intro that [of row]) (auto simp: settled_card_def split: if_splits sum.splits)
  next
    case True
    obtain row' out where locked: "settle_locked E k user_id (Some (STORED_DECISION requested))
      (get_workspace_tool_spec E (row_tool row)) (ce_now c) ip db = (Inr (row', a, out), db')"
      using decide_pending_settles [OF row True assms(2)] .
    from settle_locked_actionable [OF assms(1) locked] settle_locked_settles [OF assms(1) locked]
    show ?thesis by (intro that [of row']) auto
  qed
qed

lemma STORED_DECISION_inject: "STORED_DECISION x = STORED_DECISION y \<longleftrightarrow> x = y"
  by (cases x; cases y) simp_all

lemma approval_card_Inr:
  "approval_card E row = Inr a \<Longrightarrow> ta_id a = row_id row \<and> ta_status a = row_status row"
  by (auto simp: approval_card_def validate_tool_approval_payload_def Let_def split: option.splits if_splits)

lemma updated_part_in_history:
  assumes "db' = snd (update_tool_approval_part room m a db)"
    and "msg \<in> set (chat_history db')" "msg_id msg = m" "msg_room msg = room"
    and "distinct (map msg_id (chat_history db))"
    and "Tool_Approval_Part b \<in> set (msg_parts msg)" "ta_id b = ta_id a"
  shows "b = a"
proof (cases "select_one (\<lambda>x. msg_id x = m \<and> msg_room x = room) (chat_history db)")
  case None
  with assms(1-4) show ?thesis by (auto simp: update_tool_approval_part_def select_one_None)
next
  case (Some old)
  note old = select_one_Some [OF this]
  have same: "x = old" if "x \<in> set (chat_history db)" "msg_id x = m" for x
    using that old assms(5) by (auto simp: distinct_map dest: inj_onD)
  show ?thesis
  proof (cases "list_ex (same_card a) (msg_parts old)")
    case True
    let ?f = "msg_parts_update (map (\<lambda>part. if same_card a part then Tool_Approval_Part a else part))"
    from True Some assms(1,2) obtain x where x: "x \<in> set (chat_history db)"
      "msg = (if msg_id x = m \<and> msg_room x = room then ?f x else x)"
      by (auto simp: update_tool_approval_part_def update_where_def)
    with assms(3,4) have "msg = ?f x" by (auto split: if_splits)
    then show ?thesis using assms(6,7) by (auto split: if_splits)
  next
    case False
    with Some assms(1-4) have "msg = old" using same by (simp add: update_tool_approval_part_def)
    with False assms(6,7) show ?thesis by (auto simp: list_ex_iff)
  qed
qed

section \<open>The properties\<close>

text \<open>Concrete inputs for the witnesses: a tool that counts its runs, or fails after it counted.\<close>

definition demo_env :: "nat approval_env" where
  "demo_env = \<lparr>ap_exec = (\<lambda>name user_id arguments target_ref d.
       if json_true (dict_get ''fail'' arguments) then (Inl (Workspace_Tool_Error ''target_changed''), Suc d)
       else (Inr \<lparr>target_id = 7, target_title = ''memo''\<rparr>, Suc d)),
     ap_parse_preview = Some\<rparr>"

definition demo_start :: "(nat, unit) approval_sys" where
  "demo_start =
     \<lparr>sys_db = \<lparr>approvals = [], auto_approvals = [], chat_history = [], workspace = 0\<rparr>,
      sys_limits = \<lparr>ls_redis = (), ls_windows = (\<lambda>_. None)\<rparr>, sys_audit = [], sys_waiting = []\<rparr>"

definition demo_call :: "ticks \<Rightarrow> unit call_env" where
  "demo_call t = \<lparr>ce_client = None, ce_fault = Delivered, ce_now = t\<rparr>"

definition demo_proposal :: "dict \<Rightarrow> proposal" where
  "demo_proposal arguments =
     \<lparr>prop_arguments = arguments, prop_preview = [(''kind'', JStr ''memo_create'')], prop_target_ref = [],
      prop_target_title = ''memo'', prop_shared = False\<rparr>"

definition demo_propose :: "dict \<Rightarrow> uuid \<Rightarrow> unit approval_op" where
  "demo_propose arguments k = Propose_Op (demo_call 0) ''memo_create'' 1 ''room'' (demo_proposal arguments) False k"

definition demo_ops :: "unit approval_op list" where
  "demo_ops =
     [demo_propose [] ''a'',
      Save_Reply_Op ''room'' 1 (Some 10) [] [''a''],
      Decide_Op (demo_call 1) 1 ''a'' Approve_Always False None,
      Decide_Op (demo_call 2) 1 ''a'' Approve_Once False None,
      Settle_Op 0, Settle_Op 0,
      demo_propose [] ''b'']"

text \<open>
  C7: whatever the order of the steps, two decisions that both passed their checks included, a card is
  settled at most once, and every change a tool makes to the user's data belongs to a card of its own
  that was settled as succeeded: no approval runs its tool twice.  The ids of the cards are fresh.
\<close>

theorem approval_runs_tool_once:
  assumes "approvals (sys_db s) = []" and "sys_audit s = []" and "distinct (List.map_filter new_card ops)"
  shows "distinct (settled_ids (fold (approval_step E digest) ops s)) \<and>
         distinct (data_changes E digest ops s) \<and>
         set (data_changes E digest ops s) \<subseteq> set (settled_ids (fold (approval_step E digest) ops s))"
proof -
  have "sys_ok s" using assms by (simp add: sys_ok_def)
  from data_changes_settled [OF this, of E digest ops] obtain ids where
    ids: "settled_ids (approval_run E digest ops s) = ids" "subseq (data_changes E digest ops s) ids"
    using assms(2) by (auto simp: settled_ids_def)
  then obtain N where "data_changes E digest ops s = nths ids N" by (auto simp: subseq_conv_nths)
  then show ?thesis
    using settled_ids_distinct [OF assms, of E digest] ids(1) by (auto simp: distinct_nthsI dest: in_set_nthsD)
qed

theorem approval_runs_tool_once_witness:
  "distinct (data_changes demo_env id demo_ops demo_start) \<and>
   data_changes demo_env id demo_ops demo_start = [''a'', ''b'']"
proof
  have "approvals (sys_db demo_start) = []" "sys_audit demo_start = []" by (simp_all add: demo_start_def)
  moreover have "distinct (List.map_filter new_card demo_ops)" by code_simp
  ultimately show "distinct (data_changes demo_env id demo_ops demo_start)"
    using approval_runs_tool_once [of demo_start demo_ops demo_env id] by blast
qed code_simp

text \<open>
  A settled card stays as it was settled.  From any state with unique card ids, no sequence of steps
  changes the status, the decision, the result or the time of decision of a settled card.
\<close>

theorem settled_card_frozen:
  assumes "distinct (map row_id (approvals (sys_db s)))"
    and "row_of row_id k (approvals (sys_db s)) = Some r" and "row_status r \<noteq> Pending"
    and "list_all (\<lambda>op. new_card op \<noteq> Some k) ops"
    and "row_of row_id k (approvals (sys_db (fold (approval_step E digest) ops s))) = Some r'"
  shows "(row_status r', row_decision r', row_result r', row_decided_at r') =
         (row_status r, row_decision r, row_result r, row_decided_at r)"
  using approval_table.settled_run [of s k r ops E digest r'] assms
  by (simp add: sys_ok_def sys_row_def approval_table.run_def creates_new_card row_verdict_def)

theorem settled_card_frozen_witness:
  "\<exists>r r'. row_of row_id ''a'' (approvals (sys_db (approval_run demo_env id (take 5 demo_ops) demo_start))) = Some r \<and>
     row_of row_id ''a'' (approvals (sys_db (fold (approval_step demo_env id) (drop 5 demo_ops)
       (approval_run demo_env id (take 5 demo_ops) demo_start)))) = Some r' \<and>
     row_status r = Succeeded \<and>
     (row_status r', row_decision r', row_result r', row_decided_at r') =
       (row_status r, row_decision r, row_result r, row_decided_at r)"
proof -
  let ?s = "approval_run demo_env id (take 5 demo_ops) demo_start"
  have d: "distinct (map row_id (approvals (sys_db ?s)))" by code_simp
  have st: "map_option row_status (row_of row_id ''a'' (approvals (sys_db ?s))) = Some Succeeded" by code_simp
  then obtain r where r: "row_of row_id ''a'' (approvals (sys_db ?s)) = Some r" "row_status r = Succeeded" by auto
  have "map_option row_status (row_of row_id ''a'' (approvals (sys_db (approval_run demo_env id (drop 5 demo_ops) ?s)))) =
    Some Succeeded" by code_simp
  then obtain r' where r': "row_of row_id ''a'' (approvals (sys_db (approval_run demo_env id (drop 5 demo_ops) ?s))) = Some r'"
    by auto
  have "list_all (\<lambda>op. new_card op \<noteq> Some ''a'') (drop 5 demo_ops)" by code_simp
  from settled_card_frozen [OF d r(1) _ this r'] r r' show ?thesis by auto
qed

text \<open>
  C29: a tool runs without being asked only after it was granted.  In the audit log of any run that starts
  without grants, a run that was approved "always" or automatically is of one of the five tools that
  may be granted (never of \<open>publish_prompt\<close> or \<open>profile_settings_update\<close>), and before every automatic run
  the log holds a successful run of the same tool that the same user approved "always".
\<close>

theorem automatic_runs_were_granted:
  assumes "approvals (sys_db s) = []" and "auto_approvals (sys_db s) = []" and "sys_audit s = []"
    and "sys_waiting s = []"
    and "sys_audit (fold (approval_step E digest) ops s) = earlier @ a # later"
    and "au_outcome a = Outcome Succeeded \<or> au_outcome a = Outcome Failed"
    and "au_decision a = Some Always \<or> au_decision a = Some Auto"
  shows "au_tool a \<in> {''memo_create'', ''memo_append'', ''memo_edit'', ''my_prompt_save'', ''my_skill_save''} \<and>
    (au_decision a = Some Auto \<longrightarrow>
       (\<exists>b \<in> set earlier. au_user b = au_user a \<and> au_tool b = au_tool a \<and>
          au_decision b = Some Always \<and> au_outcome b = Outcome Succeeded))"
proof -
  have "grants_ok E s" using assms(1-4) by (simp add: grants_ok_def sys_ok_def)
  from grants_ok_run [OF this, of digest ops] have "justified [] (earlier @ a # later)"
    using assms(5) by (simp add: grants_ok_def)
  with assms(6,7) show ?thesis
    by (auto simp: justified_append approved_always_def allows_always_def list_ex_iff)
qed

theorem automatic_runs_were_granted_witness:
  "\<exists>earlier a. sys_audit (fold (approval_step demo_env id) demo_ops demo_start) = earlier @ [a] \<and>
     au_decision a = Some Auto \<and>
     (\<exists>b \<in> set earlier. au_user b = au_user a \<and> au_tool b = au_tool a \<and>
          au_decision b = Some Always \<and> au_outcome b = Outcome Succeeded)"
proof -
  let ?log = "sys_audit (fold (approval_step demo_env id) demo_ops demo_start)"
  have "?log \<noteq> []" by code_simp
  then have log: "?log = butlast ?log @ last ?log # []" by simp
  have a: "au_outcome (last ?log) = Outcome Succeeded" "au_decision (last ?log) = Some Auto" by code_simp+
  have "approvals (sys_db demo_start) = []" "auto_approvals (sys_db demo_start) = []" "sys_audit demo_start = []"
    "sys_waiting demo_start = []" by (simp_all add: demo_start_def)
  from automatic_runs_were_granted [OF this log] a log show ?thesis by auto
qed

text \<open>
  Deciding is idempotent.  When a decision was answered with a card, the same decision sent again at
  any time is answered with the same card, another decision is refused as a conflict that carries that
  card, and neither changes the database or consumes the write limit.
\<close>

theorem repeated_decision:
  assumes "distinct (map row_id (approvals db))"
    and "decide_tool_approval E digest c user_id k requested ack ip (db, st) = (Inr a, db', st')"
  shows "decide_tool_approval E digest d user_id k again ack' ip' (db', limits) =
           (if again = requested then Inr a else Inl (Tool_Approval_Conflict a), db', limits)"
  using assms
proof (rule decide_Inr_settled)
  fix row
  assume "get_actionable k user_id db' = Some row" "row_status row \<noteq> Pending" "row_status row \<noteq> Expired"
    "row_decision row = Some (STORED_DECISION requested)" "approval_card E row = Inr a"
  then show ?thesis
    using STORED_DECISION_inject [of requested again]
    by (auto simp: decide_tool_approval_def decide_checks_def settled_card_def Let_def)
qed

definition demo_db :: "dict \<Rightarrow> nat approval_db" where
  "demo_db arguments = sys_db (approval_run demo_env id
     [demo_propose arguments ''a'', Save_Reply_Op ''room'' 1 (Some 10) [] [''a'']] demo_start)"

theorem repeated_decision_witness:
  "\<exists>a db' st'. decide_tool_approval demo_env id (demo_call 1) 1 ''a'' Approve_Once False None
       (demo_db [], sys_limits demo_start) = (Inr a, db', st') \<and>
     decide_tool_approval demo_env id (demo_call 2) 1 ''a'' Approve_Once False None (db', st') = (Inr a, db', st') \<and>
     decide_tool_approval demo_env id (demo_call 2) 1 ''a'' Deny_It False None (db', st') =
       (Inl (Tool_Approval_Conflict a), db', st')"
proof -
  let ?run = "decide_tool_approval demo_env id (demo_call 1) 1 ''a'' Approve_Once False None
       (demo_db [], sys_limits demo_start)"
  have "\<not> isl (fst ?run)" by code_simp
  then obtain a db' st' where run: "?run = (Inr a, db', st')"
    by (cases ?run; cases "fst ?run") auto
  have "distinct (map row_id (approvals (demo_db [])))" by code_simp
  note again = repeated_decision [OF this run]
  show ?thesis using run again [of "demo_call 2"] by (intro exI [of _ a] exI [of _ db'] exI [of _ st']) simp
qed

text \<open>
  What a decision does to a pending card.  The card that is answered says succeeded, failed or denied,
  and denied exactly when the user denied; unless it says succeeded, the user's data and the grants are
  as before, although the tool may have changed data before it failed; a success approved "always"
  leaves the grant; and every copy of the card on its message is the card that is answered.
\<close>

theorem decision_outcome:
  assumes "distinct (map row_id (approvals db))" and "distinct (map msg_id (chat_history db))"
    and "get_actionable k user_id db = Some row" and "row_status row = Pending"
    and "decide_tool_approval E digest c user_id k requested ack ip (db, st) = (Inr a, db', st')"
  shows "(ta_status a = Denied \<longleftrightarrow> requested = Deny_It) \<and> ta_status a \<in> {Succeeded, Failed, Denied} \<and>
    (ta_status a \<noteq> Succeeded \<longrightarrow> workspace db' = workspace db \<and> auto_approvals db' = auto_approvals db) \<and>
    (ta_status a = Succeeded \<and> requested = Approve_Always \<longrightarrow> has_grant user_id (row_tool row) db') \<and>
    (\<forall>msg b. msg \<in> set (chat_history db') \<and> Some (msg_id msg) = row_message row \<and> msg_room msg = row_room row \<and>
       Tool_Approval_Part b \<in> set (msg_parts msg) \<and> ta_id b = k \<longrightarrow> b = a)"
proof -
  obtain row' out where "settle_locked E k user_id (Some (STORED_DECISION requested))
      (get_workspace_tool_spec E (row_tool row)) (ce_now c) ip db = (Inr (row', a, out), db')"
    using decide_pending_settles [OF assms(3-5)] .
  then show ?thesis
  proof (rule settle_locked_Inr)
    fix row0 status result db1
    assume act: "get_actionable k user_id db = Some row0"
      and dec: "decided_outcome row0 user_id (Some (STORED_DECISION requested))
        (get_workspace_tool_spec E (row_tool row)) ip db = (Inr (status, result, out), db1)"
      and row': "row' = settle_row status (Some (STORED_DECISION requested)) result (ce_now c) row0"
      and card: "approval_card E row' = Inr a" and ws: "workspace db' = workspace db1"
      and grants: "auto_approvals db' = (if status = Succeeded \<and> Some (STORED_DECISION requested) = Some Always
        then auto_approvals (upsert_grant (ce_now c) user_id (row_tool row0) (row_id row0) db1) else auto_approvals db1)"
      and hist: "\<And>m. row_message row0 = Some m \<Longrightarrow>
        chat_history db' = chat_history (snd (update_tool_approval_part (row_room row0) m a db1))"
    have eq: "row0 = row" using act assms(3) by simp
    note kept = decided_outcome_Inr [OF dec] and cd = approval_card_Inr [OF card]
    have k: "row_id row = k" using get_actionable_Some [OF assms(3)] by simp
    have st: "ta_status a = status" "ta_id a = k" using cd row' eq k by simp_all
    have verdict: "(status = Denied \<longleftrightarrow> requested = Deny_It) \<and> status \<in> {Succeeded, Failed, Denied}"
      using dec run_in_savepoint_Inr [of _ user_id "row_arguments row0" _ ip db status result out db1]
      by (cases requested) (auto simp: decided_outcome_def split: option.splits)
    have part: "b = a" if "msg \<in> set (chat_history db')" "Some (msg_id msg) = row_message row"
      "msg_room msg = row_room row" "Tool_Approval_Part b \<in> set (msg_parts msg)" "ta_id b = k" for msg b
      using updated_part_in_history [of _ "row_room row" "msg_id msg" a db1 msg b] hist [of "msg_id msg"] that
        assms(2) kept(4) eq st by simp
    have gr: "ta_status a = Succeeded \<and> requested = Approve_Always \<longrightarrow> has_grant user_id (row_tool row) db'"
      using grants eq st by (auto simp: has_grant_def upsert_grant_def split: if_splits)
    show ?thesis using verdict st kept(3,5) ws grants gr part by auto
  qed
qed

theorem decision_outcome_witness:
  "\<exists>a db' st'. decide_tool_approval demo_env id (demo_call 1) 1 ''a'' Approve_Always False None
       (demo_db [(''fail'', JBool True)], sys_limits demo_start) = (Inr a, db', st') \<and>
     ta_status a = Failed \<and> workspace db' = 0 \<and> auto_approvals db' = []"
proof -
  let ?db = "demo_db [(''fail'', JBool True)]"
  let ?run = "decide_tool_approval demo_env id (demo_call 1) 1 ''a'' Approve_Always False None (?db, sys_limits demo_start)"
  have "\<not> isl (fst ?run) \<and> ta_status (projr (fst ?run)) = Failed" by code_simp
  then obtain a db' st' where run: "?run = (Inr a, db', st')" "ta_status a = Failed"
    by (cases ?run; cases "fst ?run") auto
  have "map_option row_status (get_actionable ''a'' 1 ?db) = Some Pending" by code_simp
  then obtain row where row: "get_actionable ''a'' 1 ?db = Some row" "row_status row = Pending" by auto
  have d: "distinct (map row_id (approvals ?db))" "distinct (map msg_id (chat_history ?db))" by code_simp+
  have "workspace ?db = 0" "auto_approvals ?db = []" by code_simp+
  with decision_outcome [OF d row run(1)] run show ?thesis by auto
qed

lemma approval_card_Inl: "approval_card E row = Inl e \<Longrightarrow> e = Tool_Approval_Validation_Error"
  by (auto simp: approval_card_def validate_tool_approval_payload_def Let_def split: option.splits if_splits)

lemma unknown_tool_no_card:
  assumes "get_workspace_tool_spec E (row_tool row) = None"
  shows "approval_card E row = Inl Tool_Approval_Validation_Error"
  using assms
  by (auto simp: approval_card_def validate_tool_approval_payload_def Let_def TOOL_NAME_FAMILIES_def)

lemma update_cards_stuck:
  assumes "r \<in> set rows" and "row_message r \<noteq> None" and "get_workspace_tool_spec E (row_tool r) = None"
  shows "\<exists>db'. update_cards E rows db = (Inl Tool_Approval_Validation_Error, db')"
  using assms
proof (induction rows arbitrary: db)
  case (Cons q rows)
  show ?case
  proof (cases "q = r")
    case True
    then show ?thesis using Cons.prems unknown_tool_no_card [of E r] by auto
  next
    case False
    with Cons show ?thesis by (auto split: option.splits sum.splits dest: approval_card_Inl)
  qed
qed simp

lemma supersede_stuck:
  assumes "r \<in> set (approvals db)" and "pending_in_room room user_id r"
    and "get_workspace_tool_spec E (row_tool r) = None"
  shows "supersede_pending_approvals E now room user_id db = (Inl Tool_Approval_Validation_Error, db)"
proof -
  obtain rows db1 where settled: "settle_pending_in_room room user_id Superseded now db = (rows, db1)" by fastforce
  then have "superseded_at now r \<in> set rows"
    using assms(1,2) by (auto simp: settle_pending_in_room_def Let_def select_where_def)
  then obtain db2 where "update_cards E rows db1 = (Inl Tool_Approval_Validation_Error, db2)"
    using update_cards_stuck [of "superseded_at now r" rows E db1] assms(2,3) by auto
  with settled show ?thesis by (simp add: supersede_pending_approvals_def transaction_def)
qed

text \<open>
  C38: a card whose tool is no longer in the table of tools can neither be denied nor expire nor be
  superseded: building its card fails in validation, the transaction is rolled back and the card stays
  pending.
\<close>

theorem removed_tool_card_stuck:
  assumes "get_actionable k user_id db = Some row" and "row_status row = Pending"
    and "get_workspace_tool_spec E (row_tool row) = None"
  shows "decide_tool_approval E digest c user_id k Deny_It ack ip (db, st) =
           (Inl Tool_Approval_Validation_Error, db, st) \<and>
         supersede_pending_approvals E now (row_room row) user_id db = (Inl Tool_Approval_Validation_Error, db)"
proof
  have "settle_locked E k user_id decision spec t i db = (Inl Tool_Approval_Validation_Error, db)"
    if "decision = None \<or> decision = Some Deny" for decision spec t i
    using that assms
    by (auto simp: settle_locked_def transaction_def decided_outcome_def settle_def unknown_tool_no_card)
  then show "decide_tool_approval E digest c user_id k Deny_It ack ip (db, st) =
      (Inl Tool_Approval_Validation_Error, db, st)"
    using assms by (auto simp: decide_tool_approval_def decide_checks_def decide_settle_def Let_def)
  show "supersede_pending_approvals E now (row_room row) user_id db = (Inl Tool_Approval_Validation_Error, db)"
    using get_actionable_Some [OF assms(1)] assms(2,3) by (intro supersede_stuck) auto
qed

theorem removed_tool_card_stuck_witness:
  "\<exists>db :: nat approval_db. \<exists>row. get_actionable ''a'' 1 db = Some row \<and> row_tool row = ''memo_move'' \<and>
     decide_tool_approval demo_env id (demo_call 1) 1 ''a'' Deny_It False None (db, sys_limits demo_start) =
       (Inl Tool_Approval_Validation_Error, db, sys_limits demo_start)"
proof -
  let ?row = "proposed_row 0 ''a'' 1 ''room'' ''memo_move'' (demo_proposal []) [] Pending None None None
    \<lparr>row_message := Some 10\<rparr>"
  let ?db = "sys_db demo_start\<lparr>approvals := [?row]\<rparr>"
  have "get_actionable ''a'' 1 ?db = Some ?row" "row_status ?row = Pending" "row_tool ?row = ''memo_move''"
    by (simp_all add: get_actionable_def select_one_def proposed_row_def)
  moreover have "get_workspace_tool_spec demo_env (row_tool ?row) = None" by code_simp
  ultimately show ?thesis using removed_tool_card_stuck [of "''a''" 1 ?db ?row demo_env] by blast
qed

end
