(* ===== verification/Mcp_Oauth.thy ===== *)
theory Mcp_Oauth
  imports Tables Json
begin

text \<open>
  The OAuth server for MCP clients: the tables and statements of
  \<open>services/repositories/mcp_oauth_repository.py\<close> and the transactions of \<open>services/mcp_oauth.py\<close> that issue,
  rotate, check and revoke codes and tokens.  Codes and tokens are stored by their digest; the digest
  function, the random values of a call and the clock reading of a transaction are arguments.  The MCP
  SDK loads a code or a refresh token and exchanges it in a second call; what it holds in between is
  part of the system's state, so that other steps can come between the two.
\<close>

section \<open>Tables\<close>

datatype registration_method = Dcr | Cimd | Pre_Registered

record oauth_client =
  cl_id :: string
  cl_metadata :: json
  cl_secret :: "string option"
  cl_method :: registration_method

record user_client =
  uc_client :: string
  uc_user :: int
  uc_provider :: string
  uc_label :: "string option"
  uc_created_at :: ticks
  uc_revoked_at :: "ticks option"

record oauth_grant =
  gr_id :: string
  gr_user :: int
  gr_client :: string
  gr_client_name :: string
  gr_client_host :: string
  gr_scopes :: "string list"
  gr_scope_version :: int
  gr_display_name :: "string option"
  gr_created_at :: ticks
  gr_last_used_at :: "ticks option"
  gr_revoked_at :: "ticks option"

record authorization_code =
  ac_digest :: string
  ac_grant :: string
  ac_client :: string
  ac_redirect_uri :: string
  ac_code_challenge :: string
  ac_scopes :: "string list"
  ac_resource :: string
  ac_expires_at :: ticks
  ac_used_at :: "ticks option"

datatype token_type = Access | Refresh

record oauth_token =
  tk_digest :: string
  tk_grant :: string
  tk_client :: string
  tk_type :: token_type
  tk_scopes :: "string list"
  tk_resource :: string
  tk_expires_at :: ticks
  tk_revoked_at :: "ticks option"
  tk_replaced_at :: "ticks option"
  tk_last_used_at :: "ticks option"

record oauth_db =
  db_users :: "(int \<times> bool) list"
  db_clients :: "oauth_client list"
  db_user_clients :: "user_client list"
  db_grants :: "oauth_grant list"
  db_codes :: "authorization_code list"
  db_tokens :: "oauth_token list"

text \<open>\<open>TokenError\<close> with its code, the errors of the client administration, and a constraint violation.\<close>

datatype oauth_error =
    Token_Error string
  | Not_Verified
  | Unsupported_Scope
  | Client_Limit_Reached
  | Constraint_Violated

section \<open>The repository\<close>

definition load_registered_client :: "string \<Rightarrow> oauth_db \<Rightarrow> oauth_client option" where
  "load_registered_client client_id db =
     select_one
       (\<lambda>c. cl_id c = client_id \<and> cl_method c \<noteq> Cimd
            \<and> \<not> list_ex (\<lambda>u. uc_client u = cl_id c \<and> uc_revoked_at u \<noteq> None) (db_user_clients db))
       (db_clients db)"

text \<open>\<open>INSERT ... ON CONFLICT DO NOTHING\<close>.\<close>

definition store_client :: "oauth_client \<Rightarrow> oauth_db \<Rightarrow> oauth_db" where
  "store_client c db =
     (case insert_row cl_id c (db_clients db) of
        None \<Rightarrow> db
      | Some rows \<Rightarrow> db\<lparr>db_clients := rows\<rparr>)"

definition user_client_is_authorized :: "string \<Rightarrow> int \<Rightarrow> oauth_db \<Rightarrow> bool" where
  "user_client_is_authorized client_id user_id db =
     (case select_one (\<lambda>u. uc_client u = client_id) (db_user_clients db) of
        None \<Rightarrow> True
      | Some row \<Rightarrow> uc_revoked_at row = None \<and> uc_user row = user_id)"

definition active_client :: "int \<Rightarrow> user_client \<Rightarrow> bool" where
  "active_client user_id u \<longleftrightarrow> uc_user u = user_id \<and> uc_revoked_at u = None"

definition count_active_user_clients :: "int \<Rightarrow> oauth_db \<Rightarrow> int" where
  "count_active_user_clients user_id db = row_count (active_client user_id) (db_user_clients db)"

definition insert_personal_client ::
  "string \<Rightarrow> json \<Rightarrow> string option \<Rightarrow> int \<Rightarrow> string \<Rightarrow> string option \<Rightarrow> ticks \<Rightarrow> (oauth_db, oauth_error, unit) work" where
  "insert_personal_client client_id metadata secret user_id provider label now db =
     (case insert_row cl_id
             \<lparr>cl_id = client_id, cl_metadata = metadata, cl_secret = secret, cl_method = Pre_Registered\<rparr>
             (db_clients db) of
        None \<Rightarrow> (Inl Constraint_Violated, db)
      | Some clients \<Rightarrow>
          (case insert_row uc_client
                  \<lparr>uc_client = client_id, uc_user = user_id, uc_provider = provider, uc_label = label,
                   uc_created_at = now, uc_revoked_at = None\<rparr> (db_user_clients db) of
             None \<Rightarrow> (Inl Constraint_Violated, db\<lparr>db_clients := clients\<rparr>)
           | Some ucs \<Rightarrow> (Inr (), db\<lparr>db_clients := clients, db_user_clients := ucs\<rparr>)))"

definition update_user_client_label :: "int \<Rightarrow> string \<Rightarrow> string option \<Rightarrow> oauth_db \<Rightarrow> bool \<times> oauth_db" where
  "update_user_client_label user_id client_id label db =
     (let P = (\<lambda>u. uc_client u = client_id \<and> active_client user_id u)
      in (row_count P (db_user_clients db) = 1,
          db\<lparr>db_user_clients := update_where P (uc_label_update (\<lambda>_. label)) (db_user_clients db)\<rparr>))"

text \<open>Setting \<open>revoked_at\<close> where it is \<open>NULL\<close>, on tokens and grants.\<close>

definition revoke_tokens :: "ticks \<Rightarrow> (oauth_token \<Rightarrow> bool) \<Rightarrow> oauth_db \<Rightarrow> oauth_db" where
  "revoke_tokens now P db =
     db\<lparr>db_tokens := update_where (\<lambda>t. P t \<and> tk_revoked_at t = None)
                       (tk_revoked_at_update (\<lambda>_. Some now)) (db_tokens db)\<rparr>"

definition revoke_grants :: "ticks \<Rightarrow> (oauth_grant \<Rightarrow> bool) \<Rightarrow> oauth_db \<Rightarrow> oauth_db" where
  "revoke_grants now P db =
     db\<lparr>db_grants := update_where (\<lambda>g. P g \<and> gr_revoked_at g = None)
                       (gr_revoked_at_update (\<lambda>_. Some now)) (db_grants db)\<rparr>"

definition revoke_user_client :: "ticks \<Rightarrow> int \<Rightarrow> string \<Rightarrow> oauth_db \<Rightarrow> bool \<times> oauth_db" where
  "revoke_user_client now user_id client_id db =
     (let P = (\<lambda>u. uc_client u = client_id \<and> active_client user_id u);
          n = row_count P (db_user_clients db);
          db = db\<lparr>db_user_clients :=
                    update_where P (uc_revoked_at_update (\<lambda>_. Some now)) (db_user_clients db)\<rparr>
      in if n \<noteq> 1 then (False, db)
         else
           (let mine = (\<lambda>g. gr_user g = user_id \<and> gr_client g = client_id);
                grant_ids = map gr_id (select_where mine (db_grants db));
                db = revoke_tokens now (\<lambda>t. tk_grant t \<in> set grant_ids) db
            in (True, revoke_grants now mine db)))"

definition create_grant_and_code ::
  "ticks \<Rightarrow> oauth_grant \<Rightarrow> authorization_code \<Rightarrow> (oauth_db, oauth_error, unit) work" where
  "create_grant_and_code now g c db =
     (if gr_user g \<notin> fst ` set (db_users db) \<or> gr_client g \<notin> cl_id ` set (db_clients db)
      then (Inl Constraint_Violated, db)
      else case insert_row gr_id g (db_grants db) of
          None \<Rightarrow> (Inl Constraint_Violated, db)
        | Some grants \<Rightarrow>
            (case insert_row ac_digest c (db_codes db) of
               None \<Rightarrow> (Inl Constraint_Violated, db\<lparr>db_grants := grants\<rparr>)
             | Some codes \<Rightarrow> (Inr (), db\<lparr>db_grants := grants, db_codes := codes\<rparr>)))"

definition is_user_verified :: "int \<Rightarrow> oauth_db \<Rightarrow> bool" where
  "is_user_verified user_id db = (map_of (db_users db) user_id = Some True)"

definition token_row ::
  "string \<Rightarrow> string \<Rightarrow> token_type \<Rightarrow> string list \<Rightarrow> string \<Rightarrow> string \<Rightarrow> ticks \<Rightarrow> oauth_token" where
  "token_row grant_id client_id type scopes resource digest expires_at =
     \<lparr>tk_digest = digest, tk_grant = grant_id, tk_client = client_id, tk_type = type, tk_scopes = scopes,
      tk_resource = resource, tk_expires_at = expires_at, tk_revoked_at = None, tk_replaced_at = None,
      tk_last_used_at = None\<rparr>"

definition insert_tokens ::
  "ticks \<Rightarrow> string \<Rightarrow> string \<Rightarrow> string list \<Rightarrow> string \<Rightarrow> string \<Rightarrow> ticks \<Rightarrow> string \<Rightarrow> ticks
     \<Rightarrow> (oauth_db, oauth_error, unit) work" where
  "insert_tokens now grant_id client_id scopes resource access_digest access_expires_at
       refresh_digest refresh_expires_at db =
     (if grant_id \<notin> gr_id ` set (db_grants db) \<or> client_id \<notin> cl_id ` set (db_clients db)
      then (Inl Constraint_Violated, db)
      else case Option.bind
             (insert_row tk_digest
                (token_row grant_id client_id Access scopes resource access_digest access_expires_at)
                (db_tokens db))
             (insert_row tk_digest
                (token_row grant_id client_id Refresh scopes resource refresh_digest refresh_expires_at)) of
          None \<Rightarrow> (Inl Constraint_Violated, db)
        | Some tokens \<Rightarrow>
            (Inr (),
             db\<lparr>db_tokens := tokens,
                db_grants := update_where (\<lambda>g. gr_id g = grant_id)
                               (gr_last_used_at_update (\<lambda>_. Some now)) (db_grants db)\<rparr>))"

text \<open>The grant a join finds, when it is not revoked.\<close>

definition live_grant :: "string \<Rightarrow> oauth_db \<Rightarrow> oauth_grant option" where
  "live_grant grant_id db = select_one (\<lambda>g. gr_id g = grant_id \<and> gr_revoked_at g = None) (db_grants db)"

definition load_authorization_code ::
  "ticks \<Rightarrow> string \<Rightarrow> string \<Rightarrow> oauth_db \<Rightarrow> (authorization_code \<times> int \<times> int) option" where
  "load_authorization_code now client_id code_digest db =
     (case select_one
             (\<lambda>c. ac_digest c = code_digest \<and> ac_client c = client_id \<and> ac_used_at c = None
                  \<and> now < ac_expires_at c) (db_codes db) of
        None \<Rightarrow> None
      | Some c \<Rightarrow> map_option (\<lambda>g. (c, gr_user g, gr_scope_version g)) (live_grant (ac_grant c) db))"

definition consume_authorization_code :: "ticks \<Rightarrow> string \<Rightarrow> oauth_db \<Rightarrow> bool \<times> oauth_db" where
  "consume_authorization_code now code_digest db =
     (let P = (\<lambda>c. ac_digest c = code_digest \<and> ac_used_at c = None)
      in (row_count P (db_codes db) = 1,
          db\<lparr>db_codes := update_where P (ac_used_at_update (\<lambda>_. Some now)) (db_codes db)\<rparr>))"

definition live_token :: "ticks \<Rightarrow> token_type \<Rightarrow> string \<Rightarrow> oauth_token \<Rightarrow> bool" where
  "live_token now type token_digest t \<longleftrightarrow>
     tk_digest t = token_digest \<and> tk_type t = type \<and> tk_revoked_at t = None \<and> now < tk_expires_at t"

definition verified_grant :: "string \<Rightarrow> oauth_db \<Rightarrow> oauth_grant option" where
  "verified_grant grant_id db =
     (case live_grant grant_id db of
        None \<Rightarrow> None
      | Some g \<Rightarrow> if is_user_verified (gr_user g) db then Some g else None)"

definition load_refresh_token ::
  "ticks \<Rightarrow> string \<Rightarrow> string \<Rightarrow> oauth_db \<Rightarrow> (oauth_token \<times> int \<times> int) option" where
  "load_refresh_token now client_id token_digest db =
     (case select_one (\<lambda>t. live_token now Refresh token_digest t \<and> tk_client t = client_id) (db_tokens db) of
        None \<Rightarrow> None
      | Some t \<Rightarrow> map_option (\<lambda>g. (t, gr_user g, gr_scope_version g)) (verified_grant (tk_grant t) db))"

definition mark_refresh_rotated :: "ticks \<Rightarrow> string \<Rightarrow> ticks \<Rightarrow> oauth_db \<Rightarrow> bool \<times> oauth_db" where
  "mark_refresh_rotated now token_digest replaced_at db =
     (let P = (\<lambda>t. tk_digest t = token_digest \<and> tk_type t = Refresh \<and> tk_revoked_at t = None)
      in (row_count P (db_tokens db) = 1,
          db\<lparr>db_tokens :=
               update_where P
                 (\<lambda>t. t\<lparr>tk_replaced_at := (case tk_replaced_at t of None \<Rightarrow> Some replaced_at | Some r \<Rightarrow> Some r),
                        tk_last_used_at := Some now\<rparr>) (db_tokens db)\<rparr>))"

definition load_access_token ::
  "ticks \<Rightarrow> string \<Rightarrow> oauth_db \<Rightarrow> (oauth_token \<times> string \<times> int \<times> int) option" where
  "load_access_token now token_digest db =
     (case select_one (live_token now Access token_digest) (db_tokens db) of
        None \<Rightarrow> None
      | Some t \<Rightarrow>
          map_option (\<lambda>g. (t, gr_id g, gr_user g, gr_scope_version g)) (verified_grant (tk_grant t) db))"

definition touch_access_token :: "ticks \<Rightarrow> string \<Rightarrow> string \<Rightarrow> oauth_db \<Rightarrow> oauth_db" where
  "touch_access_token now token_digest grant_id db =
     db\<lparr>db_tokens := update_where (\<lambda>t. tk_digest t = token_digest)
                       (tk_last_used_at_update (\<lambda>_. Some now)) (db_tokens db),
        db_grants := update_where (\<lambda>g. gr_id g = grant_id)
                       (gr_last_used_at_update (\<lambda>_. Some now)) (db_grants db)\<rparr>"

definition revoke_grant_family :: "ticks \<Rightarrow> string \<Rightarrow> oauth_db \<Rightarrow> oauth_db" where
  "revoke_grant_family now grant_id db =
     revoke_tokens now (\<lambda>t. tk_grant t = grant_id) (revoke_grants now (\<lambda>g. gr_id g = grant_id) db)"

definition revoke_connection :: "ticks \<Rightarrow> int \<Rightarrow> string \<Rightarrow> oauth_db \<Rightarrow> bool \<times> oauth_db" where
  "revoke_connection now user_id grant_id db =
     (let P = (\<lambda>g. gr_id g = grant_id \<and> gr_user g = user_id \<and> gr_revoked_at g = None);
          n = row_count P (db_grants db);
          db = revoke_grants now (\<lambda>g. gr_id g = grant_id \<and> gr_user g = user_id) db
      in if n \<noteq> 1 then (False, db)
         else (True, revoke_tokens now (\<lambda>t. tk_grant t = grant_id) db))"

definition update_connection_display_name ::
  "int \<Rightarrow> string \<Rightarrow> string option \<Rightarrow> oauth_db \<Rightarrow> bool \<times> oauth_db" where
  "update_connection_display_name user_id grant_id display_name db =
     (let P = (\<lambda>g. gr_id g = grant_id \<and> gr_user g = user_id \<and> gr_revoked_at g = None)
      in (row_count P (db_grants db) = 1,
          db\<lparr>db_grants := update_where P (gr_display_name_update (\<lambda>_. display_name)) (db_grants db)\<rparr>))"

definition list_connections :: "int \<Rightarrow> int \<Rightarrow> oauth_db \<Rightarrow> oauth_grant list" where
  "list_connections user_id scope_version db =
     sort_key (\<lambda>g. - gr_created_at g)
       (select_where (\<lambda>g. gr_user g = user_id \<and> gr_revoked_at g = None \<and> scope_version \<le> gr_scope_version g)
          (db_grants db))"

definition revoke_token_digest :: "ticks \<Rightarrow> string \<Rightarrow> oauth_db \<Rightarrow> oauth_db" where
  "revoke_token_digest now token_digest db =
     (case select_one (\<lambda>t. tk_digest t = token_digest) (db_tokens db) of
        None \<Rightarrow> db
      | Some t \<Rightarrow> revoke_grant_family now (tk_grant t) db)"

section \<open>Scopes and labels\<close>

definition MCP_ALLOWED_SCOPES :: "string list" where
  "MCP_ALLOWED_SCOPES =
     [''prompts:read'', ''prompts:write'', ''memos:read'', ''memos:write'', ''context:read'', ''context:write'']"

definition MCP_OAUTH_SCOPE_VERSION :: int where
  "MCP_OAUTH_SCOPE_VERSION = 2"

fun normalize_loop :: "string list \<Rightarrow> string list \<Rightarrow> string list option" where
  "normalize_loop [] normalized = Some normalized"
| "normalize_loop (scope # requested) normalized =
     (if scope \<notin> set MCP_ALLOWED_SCOPES then None
      else normalize_loop requested (if scope \<in> set normalized then normalized else normalized @ [scope]))"

text \<open>\<open>_normalize_scopes\<close>; \<open>None\<close> is its \<open>ValueError\<close>.\<close>

definition normalize_scopes :: "string list option \<Rightarrow> string list \<Rightarrow> string list option" where
  "normalize_scopes scopes default_scopes =
     (case normalize_loop (case scopes of None \<Rightarrow> default_scopes | Some xs \<Rightarrow> xs) [] of
        None \<Rightarrow> None
      | Some [] \<Rightarrow> None
      | Some (x # xs) \<Rightarrow> Some (x # xs))"

definition clean_user_label :: "string option \<Rightarrow> string option" where
  "clean_user_label label =
     (case label of
        None \<Rightarrow> None
      | Some s \<Rightarrow> (if py_strip s = [] then None else Some (take 100 (py_strip s))))"

section \<open>Clients and consent\<close>

text \<open>
  \<open>issue_user_client\<close>: \<open>client_id\<close>, the encrypted secret and the serialised client are what the call
  generated; the checks of the redirect URI come before and are not part of the model.
\<close>

definition issue_user_client ::
  "ticks \<Rightarrow> int \<Rightarrow> string \<Rightarrow> json \<Rightarrow> string option \<Rightarrow> string option \<Rightarrow> string list option
     \<Rightarrow> (oauth_db, oauth_error, string list) work" where
  "issue_user_client now user_id client_id metadata secret label scopes db =
     (if \<not> is_user_verified user_id db then (Inl Not_Verified, db)
      else case normalize_scopes scopes MCP_ALLOWED_SCOPES of
          None \<Rightarrow> (Inl Unsupported_Scope, db)
        | Some client_scopes \<Rightarrow>
            transaction (\<lambda>db.
              if \<not> is_user_verified user_id db then (Inl Not_Verified, db)
              else if 20 \<le> count_active_user_clients user_id db then (Inl Client_Limit_Reached, db)
              else case insert_personal_client client_id metadata secret user_id ''manual''
                          (clean_user_label label) now db of
                  (Inl e, db) \<Rightarrow> (Inl e, db)
                | (Inr _, db) \<Rightarrow> (Inr client_scopes, db)) db)"

record consent_request =
  rq_client_id :: string
  rq_client_name :: string
  rq_client_host :: string
  rq_scopes :: "string list option"
  rq_redirect_uri :: string
  rq_code_challenge :: string
  rq_resource :: string

definition create_authorization_code ::
  "(string \<Rightarrow> string) \<Rightarrow> ticks \<Rightarrow> int \<Rightarrow> consent_request \<Rightarrow> string list \<Rightarrow> string \<Rightarrow> string
     \<Rightarrow> (oauth_db, oauth_error, string) work" where
  "create_authorization_code digest now user_id request scopes grant_id raw_code =
     transaction (\<lambda>db.
       case create_grant_and_code now
              \<lparr>gr_id = grant_id, gr_user = user_id, gr_client = rq_client_id request,
               gr_client_name = or_default (rq_client_name request) (rq_client_id request),
               gr_client_host = rq_client_host request, gr_scopes = scopes,
               gr_scope_version = MCP_OAUTH_SCOPE_VERSION, gr_display_name = None, gr_created_at = now,
               gr_last_used_at = None, gr_revoked_at = None\<rparr>
              \<lparr>ac_digest = digest raw_code, ac_grant = grant_id, ac_client = rq_client_id request,
               ac_redirect_uri = rq_redirect_uri request, ac_code_challenge = rq_code_challenge request,
               ac_scopes = scopes, ac_resource = rq_resource request,
               ac_expires_at = now + 300 * second, ac_used_at = None\<rparr> db of
         (Inl e, db) \<Rightarrow> (Inl e, db)
       | (Inr _, db) \<Rightarrow> (Inr raw_code, db))"

text \<open>
  \<open>complete_consent\<close>: \<open>request\<close> is what \<open>read_consent_request\<close> made of the signed token.  The answer is
  \<open>None\<close>, a redirect with \<open>access_denied\<close>, or a redirect with the code.
\<close>

datatype consent_answer = Access_Denied string | Code_Issued string string

definition complete_consent ::
  "(string \<Rightarrow> string) \<Rightarrow> ticks \<Rightarrow> consent_request option \<Rightarrow> int \<Rightarrow> bool \<Rightarrow> string \<Rightarrow> string
     \<Rightarrow> (oauth_db, oauth_error, consent_answer option) work" where
  "complete_consent digest now request user_id approved grant_id raw_code db =
     (case request of
        None \<Rightarrow> (Inr None, db)
      | Some rq \<Rightarrow>
          if \<not> is_user_verified user_id db then (Inr None, db)
          else case normalize_scopes (rq_scopes rq) MCP_ALLOWED_SCOPES of
              None \<Rightarrow> (Inr None, db)
            | Some scopes \<Rightarrow>
                if \<not> user_client_is_authorized (rq_client_id rq) user_id db then (Inr None, db)
                else if \<not> approved then (Inr (Some (Access_Denied (rq_redirect_uri rq))), db)
                else case create_authorization_code digest now user_id rq scopes grant_id raw_code db of
                    (Inl e, db) \<Rightarrow> (Inl e, db)
                  | (Inr code, db) \<Rightarrow> (Inr (Some (Code_Issued (rq_redirect_uri rq) code)), db))"

section \<open>Codes and tokens\<close>

record stored_code =
  sc_code :: string
  sc_client :: string
  sc_scopes :: "string list"
  sc_redirect_uri :: string
  sc_code_challenge :: string
  sc_resource :: string
  sc_expires_at :: ticks
  sc_user :: int
  sc_grant :: string

record stored_refresh =
  sr_token :: string
  sr_client :: string
  sr_scopes :: "string list"
  sr_expires_at :: ticks
  sr_user :: int
  sr_grant :: string
  sr_resource :: string

record token_answer =
  ta_access_token :: string
  ta_refresh_token :: string
  ta_scopes :: "string list"

definition revoke_if_legacy_scope_grant :: "ticks \<Rightarrow> string \<Rightarrow> int \<Rightarrow> oauth_db \<Rightarrow> bool \<times> oauth_db" where
  "revoke_if_legacy_scope_grant now grant_id scope_version db =
     (if MCP_OAUTH_SCOPE_VERSION \<le> scope_version then (False, db)
      else (True, revoke_grant_family now grant_id db))"

definition load_code ::
  "(string \<Rightarrow> string) \<Rightarrow> ticks \<Rightarrow> string \<Rightarrow> string \<Rightarrow> oauth_db \<Rightarrow> stored_code option \<times> oauth_db" where
  "load_code digest now client_id raw_code db =
     (case load_authorization_code now client_id (digest raw_code) db of
        None \<Rightarrow> (None, db)
      | Some (c, user_id, scope_version) \<Rightarrow>
          (let (legacy, db) = revoke_if_legacy_scope_grant now (ac_grant c) scope_version db
           in if legacy then (None, db)
              else
                (Some \<lparr>sc_code = raw_code, sc_client = client_id, sc_scopes = ac_scopes c,
                       sc_redirect_uri = ac_redirect_uri c, sc_code_challenge = ac_code_challenge c,
                       sc_resource = ac_resource c, sc_expires_at = ac_expires_at c, sc_user = user_id,
                       sc_grant = ac_grant c\<rparr>, db)))"

abbreviation access_ttl :: ticks where
  "access_ttl \<equiv> 3600 * second"

abbreviation refresh_ttl :: ticks where
  "refresh_ttl \<equiv> 30 * 24 * 3600 * second"

definition consume_code_and_issue ::
  "(string \<Rightarrow> string) \<Rightarrow> string \<Rightarrow> ticks \<Rightarrow> stored_code \<Rightarrow> string \<Rightarrow> string
     \<Rightarrow> (oauth_db, oauth_error, token_answer) work" where
  "consume_code_and_issue digest server_url now code access_token refresh_token =
     transaction (\<lambda>db.
       let (consumed, db) = consume_authorization_code now (digest (sc_code code)) db
       in if \<not> consumed then (Inl (Token_Error ''invalid_grant''), db)
          else case insert_tokens now (sc_grant code) (sc_client code) (sc_scopes code)
                      (or_default (sc_resource code) server_url) (digest access_token) (now + access_ttl)
                      (digest refresh_token) (now + refresh_ttl) db of
              (Inl e, db) \<Rightarrow> (Inl e, db)
            | (Inr _, db) \<Rightarrow>
                (Inr \<lparr>ta_access_token = access_token, ta_refresh_token = refresh_token,
                      ta_scopes = sc_scopes code\<rparr>, db))"

text \<open>A refresh token that was rotated more than the grace window ago counts as stolen.\<close>

definition reused_after_grace :: "ticks \<Rightarrow> oauth_token \<Rightarrow> bool" where
  "reused_after_grace now t \<longleftrightarrow>
     (case tk_replaced_at t of None \<Rightarrow> False | Some replaced_at \<Rightarrow> replaced_at \<le> now - 60 * second)"

definition load_refresh ::
  "(string \<Rightarrow> string) \<Rightarrow> ticks \<Rightarrow> string \<Rightarrow> string \<Rightarrow> oauth_db \<Rightarrow> stored_refresh option \<times> oauth_db" where
  "load_refresh digest now client_id raw_token db =
     (case load_refresh_token now client_id (digest raw_token) db of
        None \<Rightarrow> (None, db)
      | Some (t, user_id, scope_version) \<Rightarrow>
          (let (legacy, db) = revoke_if_legacy_scope_grant now (tk_grant t) scope_version db
           in if legacy then (None, db)
              else if reused_after_grace now t then (None, revoke_grant_family now (tk_grant t) db)
              else
                (Some \<lparr>sr_token = raw_token, sr_client = client_id, sr_scopes = tk_scopes t,
                       sr_expires_at = tk_expires_at t, sr_user = user_id, sr_grant = tk_grant t,
                       sr_resource = tk_resource t\<rparr>, db)))"

definition refresh_access_token ::
  "(string \<Rightarrow> string) \<Rightarrow> ticks \<Rightarrow> stored_refresh \<Rightarrow> string list option \<Rightarrow> string \<Rightarrow> string
     \<Rightarrow> (oauth_db, oauth_error, token_answer) work" where
  "refresh_access_token digest now refresh scopes access_token new_refresh_token db =
     (case normalize_scopes scopes (sr_scopes refresh) of
        None \<Rightarrow> (Inl (Token_Error ''invalid_scope''), db)
      | Some requested_scopes \<Rightarrow>
          if \<not> set requested_scopes \<subseteq> set (sr_scopes refresh) then (Inl (Token_Error ''invalid_scope''), db)
          else
            transaction (\<lambda>db.
              case load_refresh_token now (sr_client refresh) (digest (sr_token refresh)) db of
                None \<Rightarrow> (Inl (Token_Error ''invalid_grant''), db)
              | Some (t, _, scope_version) \<Rightarrow>
                  (let (legacy, db) = revoke_if_legacy_scope_grant now (tk_grant t) scope_version db
                   in if legacy then (Inl (Token_Error ''invalid_grant''), db)
                      else if reused_after_grace now t
                      then (Inl (Token_Error ''invalid_grant''), revoke_grant_family now (tk_grant t) db)
                      else
                        (let (rotated, db) = mark_refresh_rotated now (digest (sr_token refresh)) now db
                         in if \<not> rotated then (Inl (Token_Error ''invalid_grant''), db)
                            else case insert_tokens now (tk_grant t) (sr_client refresh) requested_scopes
                                        (tk_resource t) (digest access_token) (now + access_ttl)
                                        (digest new_refresh_token) (now + refresh_ttl) db of
                                (Inl e, db) \<Rightarrow> (Inl e, db)
                              | (Inr _, db) \<Rightarrow>
                                  (Inr \<lparr>ta_access_token = access_token, ta_refresh_token = new_refresh_token,
                                        ta_scopes = requested_scopes\<rparr>, db)))) db)"

record access_info =
  ai_client :: string
  ai_scopes :: "string list"
  ai_user :: int
  ai_grant :: string

definition load_access ::
  "(string \<Rightarrow> string) \<Rightarrow> string \<Rightarrow> ticks \<Rightarrow> string \<Rightarrow> oauth_db \<Rightarrow> access_info option \<times> oauth_db" where
  "load_access digest server_url now raw_token db =
     (case load_access_token now (digest raw_token) db of
        None \<Rightarrow> (None, db)
      | Some (t, grant_id, user_id, scope_version) \<Rightarrow>
          if tk_resource t \<noteq> server_url then (None, db)
          else
            (let (legacy, db) = revoke_if_legacy_scope_grant now grant_id scope_version db
             in if legacy then (None, db)
                else
                  (Some \<lparr>ai_client = tk_client t, ai_scopes = tk_scopes t, ai_user = user_id, ai_grant = grant_id\<rparr>,
                   touch_access_token now (digest raw_token) grant_id db)))"

definition revoke_token_value :: "(string \<Rightarrow> string) \<Rightarrow> ticks \<Rightarrow> string \<Rightarrow> oauth_db \<Rightarrow> oauth_db" where
  "revoke_token_value digest now raw_token db = revoke_token_digest now (digest raw_token) db"

section \<open>The system\<close>

text \<open>
  The state: the database, the codes and refresh tokens that were loaded and not yet exchanged, and the
  digests of the codes for which tokens were handed out.
\<close>

record oauth_sys =
  os_db :: oauth_db
  os_codes :: "stored_code list"
  os_refreshes :: "stored_refresh list"
  os_exchanged :: "string list"

datatype oauth_op =
    Store_Client_Op oauth_client
  | Issue_Client_Op ticks int string json "string option" "string option" "string list option"
  | Label_Op int string "string option"
  | Revoke_Client_Op ticks int string
  | Create_Code_Op ticks int consent_request string string
  | Load_Code_Op ticks string string
  | Exchange_Op ticks nat string string
  | Load_Refresh_Op ticks string string
  | Refresh_Op ticks nat "string list option" string string
  | Access_Op ticks string
  | Revoke_Connection_Op ticks int string
  | Rename_Op int string "string option"
  | Revoke_Token_Op ticks string

fun oauth_step :: "(string \<Rightarrow> string) \<Rightarrow> string \<Rightarrow> oauth_op \<Rightarrow> oauth_sys \<Rightarrow> oauth_sys" where
  "oauth_step digest url (Store_Client_Op c) s = s\<lparr>os_db := store_client c (os_db s)\<rparr>"
| "oauth_step digest url (Issue_Client_Op now user_id client_id metadata secret label scopes) s =
     s\<lparr>os_db := snd (issue_user_client now user_id client_id metadata secret label scopes (os_db s))\<rparr>"
| "oauth_step digest url (Label_Op user_id client_id label) s =
     s\<lparr>os_db := snd (update_user_client_label user_id client_id (clean_user_label label) (os_db s))\<rparr>"
| "oauth_step digest url (Revoke_Client_Op now user_id client_id) s =
     s\<lparr>os_db := snd (revoke_user_client now user_id client_id (os_db s))\<rparr>"
| "oauth_step digest url (Create_Code_Op now user_id request grant_id raw_code) s =
     (case normalize_scopes (rq_scopes request) MCP_ALLOWED_SCOPES of
        None \<Rightarrow> s
      | Some scopes \<Rightarrow>
          s\<lparr>os_db := snd (create_authorization_code digest now user_id request scopes grant_id raw_code (os_db s))\<rparr>)"
| "oauth_step digest url (Load_Code_Op now client_id raw_code) s =
     (let (loaded, db) = load_code digest now client_id raw_code (os_db s)
      in s\<lparr>os_db := db, os_codes := os_codes s @ (case loaded of None \<Rightarrow> [] | Some c \<Rightarrow> [c])\<rparr>)"
| "oauth_step digest url (Exchange_Op now n access_token refresh_token) s =
     (if n < length (os_codes s)
      then
        (case consume_code_and_issue digest url now (os_codes s ! n) access_token refresh_token (os_db s) of
           (Inl _, db) \<Rightarrow> s\<lparr>os_db := db\<rparr>
         | (Inr _, db) \<Rightarrow>
             s\<lparr>os_db := db, os_exchanged := os_exchanged s @ [digest (sc_code (os_codes s ! n))]\<rparr>)
      else s)"
| "oauth_step digest url (Load_Refresh_Op now client_id raw_token) s =
     (let (loaded, db) = load_refresh digest now client_id raw_token (os_db s)
      in s\<lparr>os_db := db, os_refreshes := os_refreshes s @ (case loaded of None \<Rightarrow> [] | Some r \<Rightarrow> [r])\<rparr>)"
| "oauth_step digest url (Refresh_Op now n scopes access_token refresh_token) s =
     (if n < length (os_refreshes s)
      then s\<lparr>os_db := snd (refresh_access_token digest now (os_refreshes s ! n) scopes access_token refresh_token
                            (os_db s))\<rparr>
      else s)"
| "oauth_step digest url (Access_Op now raw_token) s =
     s\<lparr>os_db := snd (load_access digest url now raw_token (os_db s))\<rparr>"
| "oauth_step digest url (Revoke_Connection_Op now user_id grant_id) s =
     s\<lparr>os_db := snd (revoke_connection now user_id grant_id (os_db s))\<rparr>"
| "oauth_step digest url (Rename_Op user_id grant_id name) s =
     s\<lparr>os_db := snd (update_connection_display_name user_id grant_id (clean_user_label name) (os_db s))\<rparr>"
| "oauth_step digest url (Revoke_Token_Op now raw_token) s =
     s\<lparr>os_db := revoke_token_value digest now raw_token (os_db s)\<rparr>"

end
