(* ===== verification/Oauth_Safety.thy ===== *)
theory Oauth_Safety
  imports Mcp_Oauth
begin

text \<open>
  What the OAuth server guarantees for every sequence of its transactions: codes are exchanged once,
  revoked connections stay dead, scopes never exceed what the user consented to, a rotated refresh
  token keeps its first rotation time, and a user never has more than twenty personal clients.
\<close>

section \<open>How rows change\<close>

definition grant_keeps :: "oauth_grant \<Rightarrow> oauth_grant \<Rightarrow> bool" where
  "grant_keeps g g' \<longleftrightarrow> gr_user g' = gr_user g \<and> gr_client g' = gr_client g \<and> gr_scopes g' = gr_scopes g \<and>
     gr_scope_version g' = gr_scope_version g \<and> (gr_revoked_at g \<noteq> None \<longrightarrow> gr_revoked_at g' = gr_revoked_at g)"

definition code_keeps :: "authorization_code \<Rightarrow> authorization_code \<Rightarrow> bool" where
  "code_keeps c c' \<longleftrightarrow> ac_digest c' = ac_digest c \<and> ac_grant c' = ac_grant c \<and> ac_client c' = ac_client c \<and>
     ac_scopes c' = ac_scopes c \<and> (ac_used_at c \<noteq> None \<longrightarrow> ac_used_at c' = ac_used_at c)"

definition token_keeps :: "oauth_token \<Rightarrow> oauth_token \<Rightarrow> bool" where
  "token_keeps t t' \<longleftrightarrow> tk_grant t' = tk_grant t \<and> tk_client t' = tk_client t \<and> tk_type t' = tk_type t \<and>
     tk_scopes t' = tk_scopes t \<and> tk_expires_at t' = tk_expires_at t \<and>
     (tk_revoked_at t \<noteq> None \<longrightarrow> tk_revoked_at t' = tk_revoked_at t) \<and>
     (tk_replaced_at t \<noteq> None \<longrightarrow> tk_replaced_at t' = tk_replaced_at t)"

lemmas keeps_defs = grant_keeps_def code_keeps_def token_keeps_def

lemma keeps_refl [simp]: "grant_keeps g g" "code_keeps c c" "token_keeps t t"
  by (simp_all add: keeps_defs)

text \<open>
  How one operation changes the database: new codes satisfy \<open>C\<close>, new tokens \<open>T\<close> and new grants \<open>G\<close>; no
  row of these tables is ever deleted.
\<close>

definition oauth_change ::
  "(oauth_grant \<Rightarrow> bool) \<Rightarrow> (authorization_code \<Rightarrow> bool) \<Rightarrow> (oauth_token \<Rightarrow> bool) \<Rightarrow> oauth_db \<Rightarrow> oauth_db \<Rightarrow> bool" where
  "oauth_change G C T db db' \<longleftrightarrow>
     table_grows gr_id grant_keeps G (db_grants db) (db_grants db') \<and>
     table_grows ac_digest code_keeps C (db_codes db) (db_codes db') \<and>
     table_grows tk_digest token_keeps T (db_tokens db) (db_tokens db')"

abbreviation none :: "'a \<Rightarrow> bool" where
  "none \<equiv> \<lambda>_. False"

lemma oauth_change_refl [simp, intro]: "oauth_change G C T db db"
  by (simp add: oauth_change_def table_grows_refl)

lemma oauth_change_trans:
  assumes "oauth_change G C T db db'" and "oauth_change G C T db' db''"
    and "\<And>a b. G a \<Longrightarrow> grant_keeps a b \<Longrightarrow> G b" and "\<And>a b. C a \<Longrightarrow> code_keeps a b \<Longrightarrow> C b"
    and "\<And>a b. T a \<Longrightarrow> token_keeps a b \<Longrightarrow> T b"
  shows "oauth_change G C T db db''"
  using assms unfolding oauth_change_def
  by (auto intro!: table_grows_trans [where T = "db_grants db" and T' = "db_grants db'"]
      table_grows_trans [where T = "db_codes db" and T' = "db_codes db'"]
      table_grows_trans [where T = "db_tokens db" and T' = "db_tokens db'"] simp: keeps_defs)

lemma oauth_change_weaken:
  assumes "oauth_change G C T db db'" and "\<And>g. G g \<Longrightarrow> G' g" and "\<And>c. C c \<Longrightarrow> C' c" and "\<And>t. T t \<Longrightarrow> T' t"
  shows "oauth_change G' C' T' db db'"
  using assms unfolding oauth_change_def by (auto intro: table_grows_weaken)

lemma change_grants:
  "(\<And>g. gr_id (f g) = gr_id g) \<Longrightarrow> (\<And>g. P g \<Longrightarrow> grant_keeps g (f g)) \<Longrightarrow>
   oauth_change G C T db (db\<lparr>db_grants := update_where P f (db_grants db)\<rparr>)"
  by (auto simp: oauth_change_def intro: table_grows_update table_grows_refl)

lemma change_codes:
  "(\<And>c. ac_digest (f c) = ac_digest c) \<Longrightarrow> (\<And>c. P c \<Longrightarrow> code_keeps c (f c)) \<Longrightarrow>
   oauth_change G C T db (db\<lparr>db_codes := update_where P f (db_codes db)\<rparr>)"
  by (auto simp: oauth_change_def intro: table_grows_update table_grows_refl)

lemma change_tokens:
  "(\<And>t. tk_digest (f t) = tk_digest t) \<Longrightarrow> (\<And>t. P t \<Longrightarrow> token_keeps t (f t)) \<Longrightarrow>
   oauth_change G C T db (db\<lparr>db_tokens := update_where P f (db_tokens db)\<rparr>)"
  by (auto simp: oauth_change_def intro: table_grows_update table_grows_refl)

lemma revoke_tokens_change: "oauth_change G C T db (revoke_tokens now P db)"
  unfolding revoke_tokens_def by (rule change_tokens) (auto simp: keeps_defs)

lemma revoke_grants_change: "oauth_change G C T db (revoke_grants now P db)"
  unfolding revoke_grants_def by (rule change_grants) (auto simp: keeps_defs)

lemma revoke_grant_family_change: "oauth_change none none none db (revoke_grant_family now grant_id db)"
  unfolding revoke_grant_family_def
  by (rule oauth_change_trans [OF revoke_grants_change revoke_tokens_change]) simp_all

lemma oauth_change_same:
  "db_grants db' = db_grants db \<Longrightarrow> db_codes db' = db_codes db \<Longrightarrow> db_tokens db' = db_tokens db \<Longrightarrow>
   oauth_change G C T db db'"
  by (simp add: oauth_change_def table_grows_refl)

lemma quiet_change: "oauth_change none none none db db' \<Longrightarrow> oauth_change G C T db db'"
  by (erule oauth_change_weaken) auto

lemma quiet_trans:
  "oauth_change none none none db db' \<Longrightarrow> oauth_change none none none db' db'' \<Longrightarrow> oauth_change none none none db db''"
  by (rule oauth_change_trans) auto

lemma revoke_user_client_change: "oauth_change none none none db (snd (revoke_user_client now user_id client_id db))"
proof -
  have 1: "oauth_change none none none db (db\<lparr>db_user_clients := ucs\<rparr>)" for ucs
    by (rule oauth_change_same) simp_all
  show ?thesis
    unfolding revoke_user_client_def Let_def
    using quiet_trans [OF quiet_trans [OF 1 revoke_tokens_change] revoke_grants_change] 1 by simp
qed

lemma revoke_connection_change: "oauth_change none none none db (snd (revoke_connection now user_id grant_id db))"
  unfolding revoke_connection_def Let_def
  using quiet_trans [OF revoke_grants_change revoke_tokens_change] revoke_grants_change by simp

lemma rename_change: "oauth_change none none none db (snd (update_connection_display_name user_id grant_id name db))"
  unfolding update_connection_display_name_def Let_def by (auto intro: change_grants simp: keeps_defs)

lemma revoke_legacy_change:
  "revoke_if_legacy_scope_grant now grant_id version db = (b, db') \<Longrightarrow> oauth_change none none none db db'"
  using revoke_grant_family_change [of db now grant_id]
  by (auto simp: revoke_if_legacy_scope_grant_def split: if_splits)

lemma touch_change: "oauth_change none none none db (touch_access_token now digest grant_id db)"
proof -
  let ?db = "db\<lparr>db_tokens := update_where (\<lambda>t. tk_digest t = digest)
    (tk_last_used_at_update (\<lambda>_. Some now)) (db_tokens db)\<rparr>"
  have "oauth_change none none none db ?db" by (rule change_tokens) (auto simp: keeps_defs)
  moreover have "oauth_change none none none ?db (?db\<lparr>db_grants := update_where (\<lambda>g. gr_id g = grant_id)
      (gr_last_used_at_update (\<lambda>_. Some now)) (db_grants ?db)\<rparr>)"
    by (rule change_grants) (auto simp: keeps_defs)
  ultimately show ?thesis using quiet_trans unfolding touch_access_token_def by simp
qed

lemma load_code_change: "oauth_change none none none db (snd (load_code digest now client_id raw db))"
  using revoke_legacy_change by (auto simp: load_code_def Let_def split: option.splits prod.splits)

lemma load_refresh_change: "oauth_change none none none db (snd (load_refresh digest now client_id raw db))"
  using revoke_legacy_change
  by (auto simp: load_refresh_def Let_def split: option.splits prod.splits
      intro: quiet_trans [OF revoke_legacy_change revoke_grant_family_change])

lemma load_access_change: "oauth_change none none none db (snd (load_access digest url now raw db))"
  using revoke_legacy_change
  by (auto simp: load_access_def Let_def split: option.splits prod.splits
      intro: quiet_trans [OF revoke_legacy_change touch_change])

lemma revoke_token_change: "oauth_change none none none db (revoke_token_value digest now raw db)"
  by (simp add: revoke_token_value_def revoke_token_digest_def revoke_grant_family_change split: option.splits)

lemma consume_change: "oauth_change none none none db (snd (consume_authorization_code now d db))"
  unfolding consume_authorization_code_def Let_def by (auto intro!: change_codes simp: keeps_defs)

lemma rotate_change: "oauth_change none none none db (snd (mark_refresh_rotated now d t db))"
  unfolding mark_refresh_rotated_def Let_def
  by (auto intro!: change_tokens simp: keeps_defs split: option.splits)

section \<open>Scopes\<close>

lemma normalize_loop_Some:
  "normalize_loop requested acc = Some xs \<Longrightarrow>
   set xs = set acc \<union> set requested \<and> set requested \<subseteq> set MCP_ALLOWED_SCOPES"
  by (induction requested acc arbitrary: xs rule: normalize_loop.induct) (auto split: if_splits)

lemma normalize_scopes_Some:
  "normalize_scopes scopes default_scopes = Some xs \<Longrightarrow>
   set xs = set (case scopes of None \<Rightarrow> default_scopes | Some ys \<Rightarrow> ys) \<and> xs \<noteq> [] \<and>
   set xs \<subseteq> set MCP_ALLOWED_SCOPES"
  using normalize_loop_Some [of "case scopes of None \<Rightarrow> default_scopes | Some ys \<Rightarrow> ys" "[]" xs]
  by (auto simp: normalize_scopes_def split: option.splits list.splits)

text \<open>\<open>scopes\<close> do not exceed what the user consented to with the grant.\<close>

definition within :: "oauth_db \<Rightarrow> string \<Rightarrow> string list \<Rightarrow> bool" where
  "within db grant_id scopes \<longleftrightarrow>
     (\<exists>g \<in> set (db_grants db). gr_id g = grant_id \<and> set scopes \<subseteq> set (gr_scopes g))"

lemma within_mono: "oauth_change G C T db db' \<Longrightarrow> within db k xs \<Longrightarrow> within db' k xs"
  unfolding oauth_change_def within_def grant_keeps_def
  by (elim conjE bexE) (drule table_grows_kept, assumption, metis)

lemma insert_tokens_Inr:
  assumes "insert_tokens now k client scopes resource ad ae rd re db = (Inr u, db')"
  shows "oauth_change none none (\<lambda>t. tk_grant t = k \<and> tk_scopes t = scopes) db db'"
proof -
  let ?N = "\<lambda>t. tk_grant t = k \<and> tk_scopes t = scopes"
  from assms obtain mid tokens where
    ins: "insert_row tk_digest (token_row k client Access scopes resource ad ae) (db_tokens db) = Some mid"
      "insert_row tk_digest (token_row k client Refresh scopes resource rd re) mid = Some tokens"
    and db': "db' = db\<lparr>db_tokens := tokens, db_grants := update_where (\<lambda>g. gr_id g = k)
        (gr_last_used_at_update (\<lambda>_. Some now)) (db_grants db)\<rparr>"
    by (auto simp: insert_tokens_def split: if_splits option.splits Option.bind_splits)
  have "table_grows tk_digest token_keeps ?N (db_tokens db) tokens"
    by (rule table_grows_trans [OF table_grows_insert [OF ins(1)] table_grows_insert [OF ins(2)]])
      (auto simp: token_row_def keeps_defs)
  then show ?thesis
    by (auto simp: oauth_change_def db' keeps_defs intro!: table_grows_update table_grows_refl)
qed

lemma consume_code_and_issue_Inr:
  assumes "consume_code_and_issue digest url now code at rt db = (Inr a, db')"
  shows "oauth_change none none (\<lambda>t. tk_grant t = sc_grant code \<and> tk_scopes t = sc_scopes code) db db'"
    and "fst (consume_authorization_code now (digest (sc_code code)) db)"
    and "db_codes db' = db_codes (snd (consume_authorization_code now (digest (sc_code code)) db))"
proof -
  let ?used = "consume_authorization_code now (digest (sc_code code)) db"
  from assms obtain u where used: "fst ?used"
    and ins: "insert_tokens now (sc_grant code) (sc_client code) (sc_scopes code)
      (or_default (sc_resource code) url) (digest at) (now + access_ttl) (digest rt) (now + refresh_ttl) (snd ?used) =
      (Inr u, db')"
    by (auto simp: consume_code_and_issue_def transaction_Inr split: prod.splits sum.splits if_splits)
  show "fst ?used" by (rule used)
  show "db_codes db' = db_codes (snd ?used)"
    using ins by (auto simp: insert_tokens_def split: if_splits option.splits)
  show "oauth_change none none (\<lambda>t. tk_grant t = sc_grant code \<and> tk_scopes t = sc_scopes code) db db'"
    by (rule oauth_change_trans [OF quiet_change [OF consume_change] insert_tokens_Inr [OF ins]])
      (auto simp: keeps_defs)
qed

lemma load_refresh_token_Some:
  assumes "load_refresh_token now client d db = Some (t, u, v)"
  shows "t \<in> set (db_tokens db)" "tk_digest t = d" "tk_type t = Refresh" "tk_revoked_at t = None"
    "\<exists>g \<in> set (db_grants db). gr_id g = tk_grant t \<and> gr_revoked_at g = None \<and> gr_user g = u"
  using assms
  by (auto simp: load_refresh_token_def verified_grant_def live_grant_def live_token_def
      split: option.splits if_splits dest!: select_one_Some)

lemma refresh_access_token_Inr:
  assumes "refresh_access_token digest now r scopes at rt db = (Inr a, db')"
  obtains t u v where "load_refresh_token now (sr_client r) (digest (sr_token r)) db = Some (t, u, v)"
    "\<not> reused_after_grace now t" "set (ta_scopes a) \<subseteq> set (sr_scopes r)"
    "oauth_change none none (\<lambda>t'. tk_grant t' = tk_grant t \<and> tk_scopes t' = ta_scopes a) db db'"
proof -
  from assms obtain req where req: "normalize_scopes scopes (sr_scopes r) = Some req" "set req \<subseteq> set (sr_scopes r)"
    by (auto simp: refresh_access_token_def split: option.splits if_splits)
  with assms obtain t u v where t: "load_refresh_token now (sr_client r) (digest (sr_token r)) db = Some (t, u, v)"
    by (auto simp: refresh_access_token_def transaction_Inr split: option.splits)
  let ?rot = "mark_refresh_rotated now (digest (sr_token r)) now db"
  from assms req t obtain w where keep: "\<not> reused_after_grace now t"
    and ins: "insert_tokens now (tk_grant t) (sr_client r) req (tk_resource t) (digest at) (now + access_ttl)
      (digest rt) (now + refresh_ttl) (snd ?rot) = (Inr w, db')" and a: "ta_scopes a = req"
    by (auto simp: refresh_access_token_def transaction_Inr revoke_if_legacy_scope_grant_def
        split: prod.splits sum.splits if_splits)
  have "oauth_change none none (\<lambda>t'. tk_grant t' = tk_grant t \<and> tk_scopes t' = ta_scopes a) db db'"
    unfolding a by (rule oauth_change_trans [OF quiet_change [OF rotate_change] insert_tokens_Inr [OF ins]])
      (auto simp: keeps_defs)
  with t keep req a show ?thesis by (intro that [of t u v]) simp_all
qed

lemma refresh_access_token_Inl:
  "refresh_access_token digest now r scopes at rt db = (Inl e, db') \<Longrightarrow> db' = db"
  by (auto simp: refresh_access_token_def split: option.splits if_splits dest: transaction_Inl)

lemma create_authorization_code_Inr:
  assumes "create_authorization_code digest now user_id rq scopes k raw db = (Inr a, db')"
  shows "oauth_change (\<lambda>g. gr_id g = k \<and> gr_scopes g = scopes)
    (\<lambda>c. ac_digest c = digest raw \<and> ac_grant c = k \<and> ac_scopes c = scopes) none db db'"
    and "\<exists>g \<in> set (db_grants db'). gr_id g = k \<and> gr_scopes g = scopes"
proof -
  obtain g c grants codes where
    ins: "insert_row gr_id g (db_grants db) = Some grants" "insert_row ac_digest c (db_codes db) = Some codes"
    and rows: "gr_id g = k" "gr_scopes g = scopes" "ac_digest c = digest raw" "ac_grant c = k" "ac_scopes c = scopes"
    and db': "db' = db\<lparr>db_grants := grants, db_codes := codes\<rparr>"
  proof -
    let ?g = "\<lparr>gr_id = k, gr_user = user_id, gr_client = rq_client_id rq,
      gr_client_name = or_default (rq_client_name rq) (rq_client_id rq), gr_client_host = rq_client_host rq,
      gr_scopes = scopes, gr_scope_version = MCP_OAUTH_SCOPE_VERSION, gr_display_name = None, gr_created_at = now,
      gr_last_used_at = None, gr_revoked_at = None\<rparr>"
    let ?c = "\<lparr>ac_digest = digest raw, ac_grant = k, ac_client = rq_client_id rq,
      ac_redirect_uri = rq_redirect_uri rq, ac_code_challenge = rq_code_challenge rq, ac_scopes = scopes,
      ac_resource = rq_resource rq, ac_expires_at = now + 300 * second, ac_used_at = None\<rparr>"
    from assms have "fst (create_grant_and_code now ?g ?c db) = Inr () \<and> snd (create_grant_and_code now ?g ?c db) = db'"
      by (auto simp: create_authorization_code_def transaction_Inr split: prod.splits sum.splits)
    then show thesis
      by (intro that [of ?g "the (insert_row gr_id ?g (db_grants db))" ?c "the (insert_row ac_digest ?c (db_codes db))"])
        (auto simp: create_grant_and_code_def split: if_splits option.splits)
  qed
  from ins rows show "oauth_change (\<lambda>g. gr_id g = k \<and> gr_scopes g = scopes)
    (\<lambda>c. ac_digest c = digest raw \<and> ac_grant c = k \<and> ac_scopes c = scopes) none db db'"
    unfolding oauth_change_def db'
    by (auto intro: table_grows_insert table_grows_refl)
  from ins(1) rows show "\<exists>g \<in> set (db_grants db'). gr_id g = k \<and> gr_scopes g = scopes"
    unfolding db' by (auto simp: insert_row_Some)
qed

section \<open>Every step\<close>

fun code_created :: "(string \<Rightarrow> string) \<Rightarrow> oauth_op \<Rightarrow> string \<Rightarrow> bool" where
  "code_created digest (Create_Code_Op now user_id request grant_id raw_code) k = (k = digest raw_code)"
| "code_created digest _ k = False"

abbreviation anything :: "'a \<Rightarrow> bool" where
  "anything \<equiv> \<lambda>_. True"

abbreviation step_changes :: "(string \<Rightarrow> string) \<Rightarrow> oauth_op \<Rightarrow> oauth_db \<Rightarrow> oauth_db \<Rightarrow> bool" where
  "step_changes digest op \<equiv> oauth_change anything (\<lambda>c. code_created digest op (ac_digest c)) anything"

lemma step_change: "step_changes digest op (os_db s) (os_db (oauth_step digest url op s))"
proof (cases op)
  case (Store_Client_Op c)
  then show ?thesis by (auto simp: store_client_def intro: oauth_change_same split: option.splits)
next
  case (Issue_Client_Op now user_id client_id metadata secret label scopes)
  obtain res db' where res: "issue_user_client now user_id client_id metadata secret label scopes (os_db s) = (res, db')"
    by fastforce
  then have "db_grants db' = db_grants (os_db s)" "db_codes db' = db_codes (os_db s)" "db_tokens db' = db_tokens (os_db s)"
    by (auto simp: issue_user_client_def transaction_def insert_personal_client_def
        split: if_splits option.splits prod.splits sum.splits)
  then show ?thesis using res Issue_Client_Op by (auto intro: oauth_change_same)
next
  case (Label_Op user_id client_id label)
  then show ?thesis by (auto simp: update_user_client_label_def Let_def intro: oauth_change_same)
next
  case (Revoke_Client_Op now user_id client_id)
  then show ?thesis using quiet_change [OF revoke_user_client_change] by simp
next
  case (Create_Code_Op now user_id request grant_id raw_code)
  show ?thesis
  proof (cases "normalize_scopes (rq_scopes request) MCP_ALLOWED_SCOPES")
    case (Some scopes)
    obtain res db' where res: "create_authorization_code digest now user_id request scopes grant_id raw_code (os_db s) = (res, db')"
      by fastforce
    then have "step_changes digest op (os_db s) db'"
    proof (cases res)
      case (Inl e)
      with res have "db' = os_db s" unfolding create_authorization_code_def by (auto dest: transaction_Inl)
      then show ?thesis by simp
    next
      case (Inr a)
      from oauth_change_weaken [OF create_authorization_code_Inr(1) [OF res [unfolded Inr]]] show ?thesis
        by (auto simp: Create_Code_Op)
    qed
    with res Some Create_Code_Op show ?thesis by simp
  qed (simp add: Create_Code_Op)
next
  case (Load_Code_Op now client_id raw_code)
  then show ?thesis using quiet_change [OF load_code_change] by (simp add: case_prod_beta Let_def)
next
  case (Exchange_Op now n access_token refresh_token)
  obtain res db' where res: "consume_code_and_issue digest url now (os_codes s ! n) access_token refresh_token (os_db s) = (res, db')"
    by fastforce
  have "step_changes digest op (os_db s) db'"
  proof (cases res)
    case (Inl e)
    with res have "db' = os_db s" unfolding consume_code_and_issue_def by (auto dest: transaction_Inl)
    then show ?thesis by simp
  next
    case (Inr a)
    from oauth_change_weaken [OF consume_code_and_issue_Inr(1) [OF res [unfolded Inr]]] show ?thesis by auto
  qed
  with res Exchange_Op show ?thesis by (auto split: sum.splits)
next
  case (Load_Refresh_Op now client_id raw_token)
  then show ?thesis using quiet_change [OF load_refresh_change] by (simp add: case_prod_beta Let_def)
next
  case (Refresh_Op now n scopes access_token refresh_token)
  obtain res db' where res: "refresh_access_token digest now (os_refreshes s ! n) scopes access_token refresh_token (os_db s) = (res, db')"
    by fastforce
  have "step_changes digest op (os_db s) db'"
  proof (cases res)
    case (Inl e)
    from refresh_access_token_Inl [OF res [unfolded Inl]] show ?thesis by simp
  next
    case (Inr a)
    show ?thesis
      by (rule refresh_access_token_Inr [OF res [unfolded Inr]]) (auto elim: oauth_change_weaken)
  qed
  with res Refresh_Op show ?thesis by simp
next
  case (Access_Op now raw_token)
  then show ?thesis using quiet_change [OF load_access_change] by simp
next
  case (Revoke_Connection_Op now user_id grant_id)
  then show ?thesis using quiet_change [OF revoke_connection_change] by simp
next
  case (Rename_Op user_id grant_id name)
  then show ?thesis using quiet_change [OF rename_change] by simp
next
  case (Revoke_Token_Op now raw_token)
  then show ?thesis using quiet_change [OF revoke_token_change] by simp
qed

definition keys_ok :: "oauth_sys \<Rightarrow> bool" where
  "keys_ok s \<longleftrightarrow> distinct (map gr_id (db_grants (os_db s))) \<and> distinct (map ac_digest (db_codes (os_db s))) \<and>
     distinct (map tk_digest (db_tokens (os_db s)))"

lemma keys_ok_step: "keys_ok s \<Longrightarrow> keys_ok (oauth_step digest url op s)"
  using step_change [of digest op s url] by (simp add: keys_ok_def oauth_change_def table_grows_def)

abbreviation oauth_run :: "(string \<Rightarrow> string) \<Rightarrow> string \<Rightarrow> oauth_op list \<Rightarrow> oauth_sys \<Rightarrow> oauth_sys" where
  "oauth_run digest url ops s \<equiv> fold (oauth_step digest url) ops s"

lemma keys_ok_run: "keys_ok s \<Longrightarrow> keys_ok (oauth_run digest url ops s)"
  by (induction ops arbitrary: s) (simp_all add: keys_ok_step)

lemma run_change: "oauth_change anything anything anything (os_db s) (os_db (oauth_run digest url ops s))"
proof (induction ops arbitrary: s)
  case (Cons op ops)
  have "oauth_change anything anything anything (os_db s) (os_db (oauth_step digest url op s))"
    by (rule oauth_change_weaken [OF step_change]) simp_all
  from oauth_change_trans [OF this Cons.IH] show ?case by simp
qed simp

section \<open>Codes are exchanged once\<close>

definition newly_exchanged :: "(string \<Rightarrow> string) \<Rightarrow> string \<Rightarrow> oauth_op \<Rightarrow> oauth_sys \<Rightarrow> string list" where
  "newly_exchanged digest url op s = drop (length (os_exchanged s)) (os_exchanged (oauth_step digest url op s))"

definition code_row :: "oauth_sys \<Rightarrow> string \<Rightarrow> authorization_code option" where
  "code_row s k = row_of ac_digest k (db_codes (os_db s))"

lemma row_count_pos: "row_count P rows = 1 \<Longrightarrow> \<exists>r \<in> set rows. P r"
  unfolding row_count_def by (metis One_nat_def filter_False int_ops(1) list.size(3) of_nat_eq_iff zero_neq_one of_nat_1)

lemma step_exchanged:
  assumes "keys_ok s"
  shows "\<exists>added. os_exchanged (oauth_step digest url op s) = os_exchanged s @ added \<and> distinct added \<and>
    (\<forall>k \<in> set added. (\<exists>c. code_row s k = Some c \<and> ac_used_at c = None) \<and>
       (\<exists>c. code_row (oauth_step digest url op s) k = Some c \<and> ac_used_at c \<noteq> None))"
proof (cases "os_exchanged (oauth_step digest url op s) = os_exchanged s")
  case False
  then obtain now n at rt where op: "op = Exchange_Op now n at rt"
    by (cases op) (auto simp: Let_def case_prod_beta split: option.splits if_splits)
  let ?code = "os_codes s ! n" and ?d = "digest (sc_code (os_codes s ! n))"
  from False op obtain a db' where
    run: "consume_code_and_issue digest url now ?code at rt (os_db s) = (Inr a, db')"
    and s': "oauth_step digest url op s = s\<lparr>os_db := db', os_exchanged := os_exchanged s @ [?d]\<rparr>"
    by (auto split: if_splits prod.splits sum.splits)
  note facts = consume_code_and_issue_Inr [OF run]
  obtain c where c: "c \<in> set (db_codes (os_db s))" "ac_digest c = ?d" "ac_used_at c = None"
    using facts(2) row_count_pos by (fastforce simp: consume_authorization_code_def Let_def)
  have row: "code_row s ?d = Some c"
    using row_of_member [of ac_digest "db_codes (os_db s)" c] assms c by (simp add: code_row_def keys_ok_def)
  have "code_row (oauth_step digest url op s) ?d = Some (c\<lparr>ac_used_at := Some now\<rparr>)"
    using row c by (simp add: s' code_row_def facts(3) consume_authorization_code_def Let_def row_of_update)
  with row c s' show ?thesis by (intro exI [of _ "[?d]"]) simp
qed simp

interpretation oauth_codes: settle_once_journal "oauth_step digest url" keys_ok code_row
  "\<lambda>c. ac_used_at c \<noteq> None" ac_used_at "code_created digest" os_exchanged "newly_exchanged digest url"
  for digest url
proof
  fix s op
  assume ok: "keys_ok s"
  note change = step_change [of digest op s url, unfolded oauth_change_def, THEN conjunct2, THEN conjunct1]
  show "keys_ok (oauth_step digest url op s)" using ok by (rule keys_ok_step)
  show "ac_used_at c' \<noteq> None \<and> ac_used_at c' = ac_used_at c"
    if "code_row s k = Some c" "ac_used_at c \<noteq> None" "code_row (oauth_step digest url op s) k = Some c'" for k c c'
    using table_grows_row [OF change, of k c] that by (auto simp: code_row_def code_keeps_def)
  show "code_row (oauth_step digest url op s) k = None" if "code_row s k = None" "\<not> code_created digest op k" for k
    using table_grows_new [OF change, of k] that unfolding code_row_def by blast
  from step_exchanged [OF ok, of digest url op] obtain added where added:
    "os_exchanged (oauth_step digest url op s) = os_exchanged s @ added" "distinct added"
    "\<forall>k \<in> set added. (\<exists>c. code_row s k = Some c \<and> ac_used_at c = None) \<and>
       (\<exists>c. code_row (oauth_step digest url op s) k = Some c \<and> ac_used_at c \<noteq> None)" by blast
  then have rec: "newly_exchanged digest url op s = added" by (simp add: newly_exchanged_def)
  show "os_exchanged (oauth_step digest url op s) = os_exchanged s @ newly_exchanged digest url op s"
    and "distinct (newly_exchanged digest url op s)" using added rec by simp_all
  show "(case code_row s k of None \<Rightarrow> code_created digest op k | Some c \<Rightarrow> \<not> ac_used_at c \<noteq> None) \<and>
        (\<exists>c. code_row (oauth_step digest url op s) k = Some c \<and> ac_used_at c \<noteq> None)"
    if "k \<in> set (newly_exchanged digest url op s)" for k
    using added(3) that rec by auto
qed

lemma exchanged_distinct:
  assumes "db_codes (os_db s) = []" and "keys_ok s" and "os_exchanged s = []"
    and "oauth_codes.fresh digest {} ops"
  shows "distinct (os_exchanged (oauth_run digest url ops s))"
proof -
  have "oauth_codes.used {} s"
    using assms unfolding oauth_codes.used_def by (simp add: code_row_def row_of_def)
  from oauth_codes.journal_distinct [OF this assms(4), of url] show ?thesis
    by (simp add: oauth_codes.run_def)
qed

fun new_code :: "(string \<Rightarrow> string) \<Rightarrow> oauth_op \<Rightarrow> string option" where
  "new_code digest (Create_Code_Op now user_id request grant_id raw_code) = Some (digest raw_code)"
| "new_code digest _ = None"

lemma code_created_new: "code_created digest op k \<longleftrightarrow> new_code digest op = Some k"
  by (cases op) auto

lemma fresh_codes:
  "distinct (List.map_filter (new_code digest) ops) \<Longrightarrow> K \<inter> set (List.map_filter (new_code digest) ops) = {} \<Longrightarrow>
   oauth_codes.fresh digest K ops"
proof (induction ops arbitrary: K)
  case (Cons op ops)
  have created: "{k. code_created digest op k} = set_option (new_code digest op)"
    using code_created_new [of digest op] by (auto simp: elem_set)
  show ?case unfolding oauth_codes.fresh.simps
  proof (intro conjI allI impI)
    show "k \<notin> K" if "code_created digest op k" for k
      using Cons.prems that by (auto simp: code_created_new map_filter_simps)
    show "oauth_codes.fresh digest (K \<union> {k. code_created digest op k}) ops"
      unfolding created using Cons.prems
      by (intro Cons.IH) (auto simp: map_filter_simps elem_set split: option.splits)
  qed
qed simp

section \<open>Revoked connections\<close>

definition revoked :: "string \<Rightarrow> oauth_db \<Rightarrow> bool" where
  "revoked k db \<longleftrightarrow> (\<exists>g \<in> set (db_grants db). gr_id g = k \<and> gr_revoked_at g \<noteq> None)"

lemma revoked_mono: "oauth_change G C T db db' \<Longrightarrow> revoked k db \<Longrightarrow> revoked k db'"
  unfolding oauth_change_def revoked_def grant_keeps_def
  by (elim conjE bexE) (drule table_grows_kept, assumption, metis)

lemma revoked_not_live:
  assumes "distinct (map gr_id (db_grants db))" and "revoked k db"
  shows "live_grant k db = None"
proof -
  from assms(2) obtain g where g: "g \<in> set (db_grants db)" "gr_id g = k" "gr_revoked_at g \<noteq> None"
    by (auto simp: revoked_def)
  then have "h = g" if "h \<in> set (db_grants db)" "gr_id h = k" for h
    using same_key_row [OF assms(1), of h g] that by simp
  with g(3) show ?thesis by (auto simp: live_grant_def select_one_None)
qed

lemma live_grant_id: "live_grant k db = Some g \<Longrightarrow> gr_id g = k \<and> g \<in> set (db_grants db) \<and> gr_revoked_at g = None"
  by (auto simp: live_grant_def dest: select_one_Some)

lemma verified_grant_id:
  "verified_grant k db = Some g \<Longrightarrow>
   live_grant k db = Some g \<and> is_user_verified (gr_user g) db"
  by (auto simp: verified_grant_def split: option.splits if_splits)

lemma load_access_Some:
  assumes "fst (load_access digest url now raw db) = Some info"
  obtains t g where "t \<in> set (db_tokens db)" "live_grant (ai_grant info) db = Some g" "tk_grant t = ai_grant info"
    "ai_scopes info = tk_scopes t" "ai_user info = gr_user g" "is_user_verified (ai_user info) db"
proof -
  from assms obtain t gid u v where tok: "load_access_token now (digest raw) db = Some (t, gid, u, v)"
    and info: "ai_grant info = gid" "ai_scopes info = tk_scopes t" "ai_user info = u"
    by (auto simp: load_access_def Let_def split: option.splits if_splits prod.splits)
  from tok obtain g where "t \<in> set (db_tokens db)" "verified_grant (tk_grant t) db = Some g" "gid = gr_id g" "u = gr_user g"
    by (auto simp: load_access_token_def split: option.splits dest!: select_one_Some)
  with info verified_grant_id [of "tk_grant t" db g] live_grant_id [of "tk_grant t" db g] show ?thesis
    by (intro that [of t g]) auto
qed

text \<open>No code, refresh token or access token of the grant \<open>k\<close> is accepted, at any time.\<close>

definition dead :: "(string \<Rightarrow> string) \<Rightarrow> string \<Rightarrow> string \<Rightarrow> oauth_db \<Rightarrow> bool" where
  "dead digest url k db \<longleftrightarrow>
     (\<forall>now raw info. fst (load_access digest url now raw db) = Some info \<longrightarrow> ai_grant info \<noteq> k) \<and>
     (\<forall>now client raw r. fst (load_refresh digest now client raw db) = Some r \<longrightarrow> sr_grant r \<noteq> k) \<and>
     (\<forall>now client raw c. fst (load_code digest now client raw db) = Some c \<longrightarrow> sc_grant c \<noteq> k)"

lemma revoked_dead:
  assumes "distinct (map gr_id (db_grants db))" and "revoked k db"
  shows "dead digest url k db"
proof -
  note no = revoked_not_live [OF assms]
  have "ai_grant info \<noteq> k" if "fst (load_access digest url now raw db) = Some info" for now raw info
    using that no by (auto elim: load_access_Some)
  moreover have "sr_grant r \<noteq> k" if "fst (load_refresh digest now client raw db) = Some r" for now client raw r
    using that no
    by (auto simp: load_refresh_def load_refresh_token_def verified_grant_def Let_def
        split: option.splits if_splits prod.splits)
  moreover have "sc_grant c \<noteq> k" if "fst (load_code digest now client raw db) = Some c" for now client raw c
    using that no
    by (auto simp: load_code_def load_authorization_code_def Let_def split: option.splits if_splits prod.splits)
  ultimately show ?thesis unfolding dead_def by blast
qed

lemma revoked_run_dead:
  assumes "keys_ok s" and "revoked k (os_db s)"
  shows "dead digest url k (os_db (oauth_run digest url ops s))"
  using revoked_dead [OF _ revoked_mono [OF run_change assms(2)]] keys_ok_run [OF assms(1), of digest url ops]
  by (simp add: keys_ok_def)

lemma revoke_grants_revoked:
  "g \<in> set (db_grants db) \<Longrightarrow> P g \<Longrightarrow> revoked (gr_id g) (revoke_grants now P db)"
proof -
  assume g: "g \<in> set (db_grants db)" "P g"
  let ?g = "if P g \<and> gr_revoked_at g = None then gr_revoked_at_update (\<lambda>_. Some now) g else g"
  have "?g \<in> set (db_grants (revoke_grants now P db))"
    using g(1) by (simp add: revoke_grants_def update_where_def)
  moreover have "gr_id ?g = gr_id g \<and> gr_revoked_at ?g \<noteq> None" using g(2) by simp
  ultimately show ?thesis unfolding revoked_def by blast
qed

lemma revoke_grant_family_revoked:
  "g \<in> set (db_grants db) \<Longrightarrow> revoked (gr_id g) (revoke_grant_family now (gr_id g) db)"
  unfolding revoke_grant_family_def
  by (rule revoked_mono [OF revoke_tokens_change [of none none none]]) (rule revoke_grants_revoked, simp_all)

lemma revoke_connection_revoked:
  assumes "revoke_connection now user_id k db = (True, db')"
  shows "revoked k db'"
proof -
  let ?P = "\<lambda>g. gr_id g = k \<and> gr_user g = user_id"
  from assms obtain g where g: "g \<in> set (db_grants db)" "?P g" "gr_revoked_at g = None"
    using row_count_pos [of "\<lambda>g. gr_id g = k \<and> gr_user g = user_id \<and> gr_revoked_at g = None" "db_grants db"]
    by (auto simp: revoke_connection_def Let_def split: if_splits)
  have "db' = revoke_tokens now (\<lambda>t. tk_grant t = k) (revoke_grants now ?P db)"
    using assms by (auto simp: revoke_connection_def Let_def split: if_splits)
  with revoke_grants_revoked [of g db ?P now] g show ?thesis
    using revoked_mono [OF revoke_tokens_change [of none none none]] by auto
qed

section \<open>Scopes stay within the consent\<close>

definition consent_ok :: "(string \<Rightarrow> string) \<Rightarrow> oauth_sys \<Rightarrow> bool" where
  "consent_ok digest s \<longleftrightarrow> keys_ok s \<and>
     (\<forall>g \<in> set (db_grants (os_db s)). set (gr_scopes g) \<subseteq> set MCP_ALLOWED_SCOPES) \<and>
     (\<forall>c \<in> set (db_codes (os_db s)). within (os_db s) (ac_grant c) (ac_scopes c)) \<and>
     (\<forall>t \<in> set (db_tokens (os_db s)). within (os_db s) (tk_grant t) (tk_scopes t)) \<and>
     (\<forall>c \<in> set (os_codes s). within (os_db s) (sc_grant c) (sc_scopes c)) \<and>
     (\<forall>r \<in> set (os_refreshes s). \<exists>t \<in> set (db_tokens (os_db s)).
        tk_digest t = digest (sr_token r) \<and> tk_scopes t = sr_scopes r)"

lemma consent_ok_change:
  assumes ok: "consent_ok digest s" and change: "oauth_change G C T (os_db s) (os_db s')" and keys: "keys_ok s'"
    and G: "\<And>g. G g \<Longrightarrow> set (gr_scopes g) \<subseteq> set MCP_ALLOWED_SCOPES"
    and C: "\<And>c. C c \<Longrightarrow> within (os_db s') (ac_grant c) (ac_scopes c)"
    and T: "\<And>t. T t \<Longrightarrow> within (os_db s') (tk_grant t) (tk_scopes t)"
    and codes: "\<And>c. c \<in> set (os_codes s') \<Longrightarrow> c \<in> set (os_codes s) \<or> within (os_db s') (sc_grant c) (sc_scopes c)"
    and refr: "\<And>r. r \<in> set (os_refreshes s') \<Longrightarrow> r \<in> set (os_refreshes s) \<or>
      (\<exists>t \<in> set (db_tokens (os_db s)). tk_digest t = digest (sr_token r) \<and> tk_scopes t = sr_scopes r)"
  shows "consent_ok digest s'"
proof -
  note mono = within_mono [OF change] and ch = change [unfolded oauth_change_def]
  have "set (gr_scopes g) \<subseteq> set MCP_ALLOWED_SCOPES" if "g \<in> set (db_grants (os_db s'))" for g
    using table_grows_member [OF ch [THEN conjunct1] that] G ok unfolding consent_ok_def grant_keeps_def by metis
  moreover have "within (os_db s') (ac_grant c) (ac_scopes c)" if "c \<in> set (db_codes (os_db s'))" for c
    using table_grows_member [OF ch [THEN conjunct2, THEN conjunct1] that] C ok mono
    by (auto simp: consent_ok_def code_keeps_def)
  moreover have "within (os_db s') (tk_grant t) (tk_scopes t)" if "t \<in> set (db_tokens (os_db s'))" for t
    using table_grows_member [OF ch [THEN conjunct2, THEN conjunct2] that] T ok mono
    by (auto simp: consent_ok_def token_keeps_def)
  moreover have "within (os_db s') (sc_grant c) (sc_scopes c)" if "c \<in> set (os_codes s')" for c
    using codes [OF that] ok mono by (auto simp: consent_ok_def)
  moreover have "\<exists>t \<in> set (db_tokens (os_db s')). tk_digest t = digest (sr_token r) \<and> tk_scopes t = sr_scopes r"
    if r: "r \<in> set (os_refreshes s')" for r
  proof -
    obtain t where t: "t \<in> set (db_tokens (os_db s))" "tk_digest t = digest (sr_token r)" "tk_scopes t = sr_scopes r"
      using refr [OF r] ok unfolding consent_ok_def by metis
    from table_grows_kept [OF ch [THEN conjunct2, THEN conjunct2] t(1)] t(2,3) show ?thesis
      by (auto simp: token_keeps_def)
  qed
  ultimately show ?thesis using keys unfolding consent_ok_def by blast
qed

lemma within_subset: "within db k xs \<Longrightarrow> set ys \<subseteq> set xs \<Longrightarrow> within db k ys"
  by (auto simp: within_def)

lemma load_code_Some:
  "fst (load_code digest now client_id raw db) = Some sc \<Longrightarrow>
   \<exists>c \<in> set (db_codes db). ac_digest c = digest raw \<and> sc_grant sc = ac_grant c \<and> sc_scopes sc = ac_scopes c"
  by (auto simp: load_code_def load_authorization_code_def Let_def
      split: option.splits if_splits prod.splits dest!: select_one_Some)

lemma load_refresh_Some:
  assumes "fst (load_refresh digest now client_id raw db) = Some r"
  shows "\<exists>t \<in> set (db_tokens db). tk_digest t = digest (sr_token r) \<and> tk_scopes t = sr_scopes r"
proof -
  from assms obtain t u v where t: "load_refresh_token now client_id (digest raw) db = Some (t, u, v)"
    and r: "sr_token r = raw" "sr_scopes r = tk_scopes t"
    by (auto simp: load_refresh_def Let_def split: option.splits if_splits prod.splits)
  with load_refresh_token_Some [OF t] show ?thesis by auto
qed

lemma consent_ok_quiet:
  assumes "consent_ok digest s" and "oauth_change none none none (os_db s) (os_db s')"
    and "os_codes s' = os_codes s" and "os_refreshes s' = os_refreshes s" and "keys_ok s'"
  shows "consent_ok digest s'"
  by (rule consent_ok_change [OF assms(1,2,5)]) (use assms(3,4) in auto)

lemma consent_ok_refresh:
  assumes ok: "consent_ok digest s" and n: "n < length (os_refreshes s)"
    and run: "refresh_access_token digest now (os_refreshes s ! n) scopes at rt (os_db s) = (Inr a, db')"
    and keys: "keys_ok (s\<lparr>os_db := db'\<rparr>)"
  shows "consent_ok digest (s\<lparr>os_db := db'\<rparr>)"
proof -
  let ?r = "os_refreshes s ! n"
  obtain t u v where t: "load_refresh_token now (sr_client ?r) (digest (sr_token ?r)) (os_db s) = Some (t, u, v)"
    and a: "set (ta_scopes a) \<subseteq> set (sr_scopes ?r)"
    and ch: "oauth_change none none (\<lambda>t'. tk_grant t' = tk_grant t \<and> tk_scopes t' = ta_scopes a) (os_db s) db'"
    by (rule refresh_access_token_Inr [OF run])
  note tok = load_refresh_token_Some [OF t]
  obtain t' where t': "t' \<in> set (db_tokens (os_db s))" "tk_digest t' = digest (sr_token ?r)" "tk_scopes t' = sr_scopes ?r"
    using ok n unfolding consent_ok_def by (meson nth_mem)
  have "t' = t"
    using same_key_row [of tk_digest "db_tokens (os_db s)" t' t] tok(1,2) t' ok
    by (simp add: consent_ok_def keys_ok_def)
  have "within (os_db s) (tk_grant t) (tk_scopes t)" using ok tok(1) unfolding consent_ok_def by blast
  then have w: "within (os_db s) (tk_grant t) (ta_scopes a)"
    by (rule within_subset) (use \<open>t' = t\<close> t' a in simp)
  show ?thesis
    by (rule consent_ok_change [OF ok, of none none "\<lambda>t'. tk_grant t' = tk_grant t \<and> tk_scopes t' = ta_scopes a"])
      (use ch keys within_mono [OF ch w] in auto)
qed

lemma consent_ok_step:
  assumes ok: "consent_ok digest s"
  shows "consent_ok digest (oauth_step digest url op s)"
proof -
  let ?s = "oauth_step digest url op s"
  have keys: "keys_ok ?s" using ok by (intro keys_ok_step) (simp add: consent_ok_def)
  note quiet = consent_ok_quiet [OF ok _ _ _ keys]
  show ?thesis
  proof (cases op)
    case (Store_Client_Op c)
    then show ?thesis by (intro quiet) (auto simp: store_client_def intro: oauth_change_same split: option.splits)
  next
    case (Issue_Client_Op now user_id client_id metadata secret label scopes)
    then show ?thesis
      by (intro quiet) (auto simp: issue_user_client_def transaction_def insert_personal_client_def
          intro!: oauth_change_same split: if_splits option.splits prod.splits sum.splits)
  next
    case (Label_Op user_id client_id label)
    then show ?thesis by (intro quiet) (auto simp: update_user_client_label_def Let_def intro: oauth_change_same)
  next
    case (Revoke_Client_Op now user_id client_id)
    then show ?thesis using revoke_user_client_change by (intro quiet) auto
  next
    case (Create_Code_Op now user_id request k raw)
    show ?thesis
    proof (cases "normalize_scopes (rq_scopes request) MCP_ALLOWED_SCOPES")
      case (Some scopes)
      obtain res db' where res: "create_authorization_code digest now user_id request scopes k raw (os_db s) = (res, db')"
        by fastforce
      show ?thesis
      proof (cases res)
        case (Inl e)
        with res have "db' = os_db s" unfolding create_authorization_code_def by (auto dest: transaction_Inl)
        with res Some ok Create_Code_Op show ?thesis by simp
      next
        case (Inr a)
        note facts = create_authorization_code_Inr [OF res [unfolded Inr]]
        have s': "?s = s\<lparr>os_db := db'\<rparr>" using Create_Code_Op Some res by simp
        show ?thesis
          by (rule consent_ok_change [OF ok _ keys, where G = "\<lambda>g. gr_id g = k \<and> gr_scopes g = scopes"
                and C = "\<lambda>c. ac_digest c = digest raw \<and> ac_grant c = k \<and> ac_scopes c = scopes" and T = none])
            (use s' facts normalize_scopes_Some [OF Some] in \<open>auto simp: within_def\<close>)
      qed
    qed (use ok Create_Code_Op in simp)
  next
    case (Load_Code_Op now client_id raw)
    obtain loaded db' where load: "load_code digest now client_id raw (os_db s) = (loaded, db')" by fastforce
    have ch: "oauth_change none none none (os_db s) db'" using load_code_change [of "os_db s" digest now client_id raw] load by simp
    have s': "os_db ?s = db'" "os_codes ?s = os_codes s @ (case loaded of None \<Rightarrow> [] | Some c \<Rightarrow> [c])"
      "os_refreshes ?s = os_refreshes s" using Load_Code_Op load by simp_all
    have "within db' (sc_grant c) (sc_scopes c)" if "loaded = Some c" for c
      using load_code_Some [of digest now client_id raw "os_db s" c] load that ok within_mono [OF ch]
      by (auto simp: consent_ok_def)
    then show ?thesis
      by (intro consent_ok_change [OF ok _ keys, of none none none]) (use s' ch in \<open>auto split: option.splits\<close>)
  next
    case (Exchange_Op now n at rt)
    obtain res db' where res: "consume_code_and_issue digest url now (os_codes s ! n) at rt (os_db s) = (res, db')"
      by fastforce
    show ?thesis
    proof (cases "n < length (os_codes s)")
      case n: True
      show ?thesis
      proof (cases res)
        case (Inl e)
        with res have "db' = os_db s" unfolding consume_code_and_issue_def by (auto dest: transaction_Inl)
        with res Inl ok n Exchange_Op show ?thesis by simp
      next
        case (Inr a)
        note ch = consume_code_and_issue_Inr(1) [OF res [unfolded Inr]]
        have "within (os_db s) (sc_grant (os_codes s ! n)) (sc_scopes (os_codes s ! n))"
          using ok n by (simp add: consent_ok_def)
        note w = within_mono [OF ch this]
        have s': "os_db ?s = db'" "os_codes ?s = os_codes s" "os_refreshes ?s = os_refreshes s"
          using Exchange_Op n res Inr by simp_all
        show ?thesis
          by (rule consent_ok_change [OF ok _ keys, of none none
                "\<lambda>t. tk_grant t = sc_grant (os_codes s ! n) \<and> tk_scopes t = sc_scopes (os_codes s ! n)"])
            (use s' ch w in auto)
      qed
    qed (use ok Exchange_Op in simp)
  next
    case (Load_Refresh_Op now client_id raw)
    obtain loaded db' where load: "load_refresh digest now client_id raw (os_db s) = (loaded, db')" by fastforce
    have ch: "oauth_change none none none (os_db s) db'"
      using load_refresh_change [of "os_db s" digest now client_id raw] load by simp
    have s': "os_db ?s = db'" "os_refreshes ?s = os_refreshes s @ (case loaded of None \<Rightarrow> [] | Some r \<Rightarrow> [r])"
      "os_codes ?s = os_codes s" using Load_Refresh_Op load by simp_all
    show ?thesis
      by (intro consent_ok_change [OF ok _ keys, of none none none])
        (use s' ch load load_refresh_Some [of digest now client_id raw "os_db s"] in \<open>auto split: option.splits\<close>)
  next
    case (Refresh_Op now n scopes at rt)
    obtain res db' where res: "refresh_access_token digest now (os_refreshes s ! n) scopes at rt (os_db s) = (res, db')"
      by fastforce
    show ?thesis
    proof (cases "n < length (os_refreshes s)")
      case n: True
      have s': "?s = s\<lparr>os_db := db'\<rparr>" using Refresh_Op n res by simp
      show ?thesis
      proof (cases res)
        case (Inl e)
        from refresh_access_token_Inl [OF res [unfolded Inl]] s' ok show ?thesis by simp
      next
        case (Inr a)
        from consent_ok_refresh [OF ok n res [unfolded Inr]] keys s' show ?thesis by simp
      qed
    qed (use ok Refresh_Op in simp)
  next
    case (Access_Op now raw)
    then show ?thesis using load_access_change by (intro quiet) auto
  next
    case (Revoke_Connection_Op now user_id k)
    then show ?thesis using revoke_connection_change by (intro quiet) auto
  next
    case (Rename_Op user_id k name)
    then show ?thesis using rename_change by (intro quiet) auto
  next
    case (Revoke_Token_Op now raw)
    then show ?thesis using revoke_token_change by (intro quiet) auto
  qed
qed

lemma consent_ok_run: "consent_ok digest s \<Longrightarrow> consent_ok digest (oauth_run digest url ops s)"
  by (induction ops arbitrary: s) (simp_all add: consent_ok_step)

section \<open>At most twenty personal clients\<close>

definition clients_capped :: "oauth_db \<Rightarrow> bool" where
  "clients_capped db \<longleftrightarrow> (\<forall>user_id. count_active_user_clients user_id db \<le> 20)"

lemma row_count_update_le:
  assumes "\<And>r. Q r \<Longrightarrow> P (f r) \<Longrightarrow> P r"
  shows "row_count P (update_where Q f rows) \<le> row_count P rows"
  by (induction rows) (auto simp: row_count_def update_where_def dest: assms)

lemma clients_capped_same:
  "clients_capped db \<Longrightarrow> db_user_clients db' = db_user_clients db \<Longrightarrow> clients_capped db'"
  by (simp add: clients_capped_def count_active_user_clients_def)

lemma clients_capped_update:
  assumes "clients_capped db" and "\<And>u r. Q r \<Longrightarrow> active_client u (f r) \<Longrightarrow> active_client u r"
    and "db_user_clients db' = update_where Q f (db_user_clients db)"
  shows "clients_capped db'"
  using assms row_count_update_le [of Q "active_client u" f "db_user_clients db" for u]
  unfolding clients_capped_def count_active_user_clients_def by (metis order_trans)

lemma insert_personal_client_Inr:
  "insert_personal_client client_id metadata secret user_id provider label now db = (Inr x, db') \<Longrightarrow>
   count_active_user_clients u db' = count_active_user_clients u db + (if u = user_id then 1 else 0)"
  by (auto simp: insert_personal_client_def insert_row_Some count_active_user_clients_def row_count_def active_client_def
      split: option.splits)

lemma issue_user_client_capped:
  assumes "clients_capped db"
  shows "clients_capped (snd (issue_user_client now user_id client_id metadata secret label scopes db))"
proof -
  obtain res db' where res: "issue_user_client now user_id client_id metadata secret label scopes db = (res, db')"
    by fastforce
  show ?thesis
  proof (cases res)
    case (Inl e)
    with res have "db' = db"
      by (auto simp: issue_user_client_def split: if_splits option.splits dest: transaction_Inl)
    with res assms show ?thesis by simp
  next
    case (Inr xs)
    with res obtain x where few: "count_active_user_clients user_id db < 20"
      and ins: "insert_personal_client client_id metadata secret user_id ''manual'' (clean_user_label label) now db = (Inr x, db')"
      by (auto simp: issue_user_client_def transaction_Inr split: if_splits option.splits prod.splits sum.splits)
    then show ?thesis
      using res assms insert_personal_client_Inr [OF ins] by (auto simp: clients_capped_def)
  qed
qed

lemma clients_capped_step:
  assumes "clients_capped (os_db s)"
  shows "clients_capped (os_db (oauth_step digest url op s))"
proof (cases op)
  case (Store_Client_Op c)
  then show ?thesis
    using assms by (auto simp: store_client_def elim: clients_capped_same split: option.splits)
next
  case (Issue_Client_Op now user_id client_id metadata secret label scopes)
  then show ?thesis using issue_user_client_capped [OF assms] by simp
next
  case (Label_Op user_id client_id label)
  then show ?thesis
    by (intro clients_capped_update [OF assms, of "\<lambda>u. uc_client u = client_id \<and> active_client user_id u"
          "uc_label_update (\<lambda>_. clean_user_label label)"])
      (simp_all add: update_user_client_label_def Let_def active_client_def)
next
  case (Revoke_Client_Op now user_id client_id)
  then show ?thesis
    by (intro clients_capped_update [OF assms, of "\<lambda>u. uc_client u = client_id \<and> active_client user_id u"
          "uc_revoked_at_update (\<lambda>_. Some now)"])
      (simp_all add: revoke_user_client_def revoke_tokens_def revoke_grants_def Let_def active_client_def)
next
  case (Create_Code_Op now user_id request k raw)
  then show ?thesis
    using assms
    by (auto simp: create_authorization_code_def create_grant_and_code_def transaction_def
        elim!: clients_capped_same split: option.splits if_splits prod.splits sum.splits)
next
  case (Load_Code_Op now client_id raw)
  have "db_user_clients (snd (load_code digest now client_id raw (os_db s))) = db_user_clients (os_db s)"
    by (auto simp: load_code_def revoke_if_legacy_scope_grant_def revoke_grant_family_def revoke_tokens_def
        revoke_grants_def split: option.splits)
  with Load_Code_Op assms show ?thesis by (auto simp: Let_def case_prod_beta elim: clients_capped_same)
next
  case (Exchange_Op now n at rt)
  have "db_user_clients (snd (consume_code_and_issue digest url now (os_codes s ! n) at rt (os_db s))) =
    db_user_clients (os_db s)"
    by (auto simp: consume_code_and_issue_def transaction_def insert_tokens_def consume_authorization_code_def Let_def
        split: option.splits if_splits prod.splits sum.splits)
  with Exchange_Op assms show ?thesis
    by (auto elim!: clients_capped_same split: prod.splits sum.splits)
next
  case (Load_Refresh_Op now client_id raw)
  have "db_user_clients (snd (load_refresh digest now client_id raw (os_db s))) = db_user_clients (os_db s)"
    by (auto simp: load_refresh_def revoke_if_legacy_scope_grant_def revoke_grant_family_def revoke_tokens_def
        revoke_grants_def split: option.splits)
  with Load_Refresh_Op assms show ?thesis by (auto simp: Let_def case_prod_beta elim: clients_capped_same)
next
  case (Refresh_Op now n scopes at rt)
  have "db_user_clients (snd (refresh_access_token digest now (os_refreshes s ! n) scopes at rt (os_db s))) =
    db_user_clients (os_db s)"
    by (auto simp: refresh_access_token_def transaction_def insert_tokens_def mark_refresh_rotated_def
        revoke_if_legacy_scope_grant_def Let_def split: option.splits if_splits prod.splits sum.splits)
  with Refresh_Op assms show ?thesis by (auto elim: clients_capped_same)
next
  case (Access_Op now raw)
  have "db_user_clients (snd (load_access digest url now raw (os_db s))) = db_user_clients (os_db s)"
    by (auto simp: load_access_def revoke_if_legacy_scope_grant_def revoke_grant_family_def revoke_tokens_def
        revoke_grants_def touch_access_token_def split: option.splits)
  with Access_Op assms show ?thesis by (auto elim: clients_capped_same)
next
  case (Revoke_Connection_Op now user_id k)
  with assms show ?thesis
    by (auto simp: revoke_connection_def revoke_tokens_def revoke_grants_def Let_def elim: clients_capped_same)
next
  case (Rename_Op user_id k name)
  with assms show ?thesis
    by (auto simp: update_connection_display_name_def Let_def elim: clients_capped_same)
next
  case (Revoke_Token_Op now raw)
  with assms show ?thesis
    by (auto simp: revoke_token_value_def revoke_token_digest_def revoke_grant_family_def revoke_tokens_def
        revoke_grants_def elim: clients_capped_same split: option.splits)
qed

lemma clients_capped_run: "clients_capped (os_db s) \<Longrightarrow> clients_capped (os_db (oauth_run digest url ops s))"
  by (induction ops arbitrary: s) (simp_all add: clients_capped_step)

section \<open>From consent to access\<close>

abbreviation new_grant :: "ticks \<Rightarrow> int \<Rightarrow> consent_request \<Rightarrow> string list \<Rightarrow> string \<Rightarrow> oauth_grant" where
  "new_grant now user_id rq scopes k \<equiv>
     \<lparr>gr_id = k, gr_user = user_id, gr_client = rq_client_id rq,
      gr_client_name = or_default (rq_client_name rq) (rq_client_id rq), gr_client_host = rq_client_host rq,
      gr_scopes = scopes, gr_scope_version = MCP_OAUTH_SCOPE_VERSION, gr_display_name = None, gr_created_at = now,
      gr_last_used_at = None, gr_revoked_at = None\<rparr>"

abbreviation new_code_row ::
  "(string \<Rightarrow> string) \<Rightarrow> ticks \<Rightarrow> consent_request \<Rightarrow> string list \<Rightarrow> string \<Rightarrow> string \<Rightarrow> authorization_code" where
  "new_code_row digest now rq scopes k raw \<equiv>
     \<lparr>ac_digest = digest raw, ac_grant = k, ac_client = rq_client_id rq,
      ac_redirect_uri = rq_redirect_uri rq, ac_code_challenge = rq_code_challenge rq, ac_scopes = scopes,
      ac_resource = rq_resource rq, ac_expires_at = now + 300 * second, ac_used_at = None\<rparr>"

lemma insert_row_fresh: "key r \<notin> key ` set rows \<Longrightarrow> insert_row key r rows = Some (rows @ [r])"
  by (simp add: insert_row_Some)

lemma select_one_last:
  assumes "k \<notin> key ` set rows" and "\<And>q. P q \<Longrightarrow> key q = k"
  shows "select_one P (rows @ rest) = select_one P rest"
  using assms(1) by (induction rows) (auto simp: select_one_def dest: assms(2))

lemma create_code_succeeds:
  assumes "is_user_verified user_id db" and "rq_client_id rq \<in> cl_id ` set (db_clients db)"
    and "k \<notin> gr_id ` set (db_grants db)" and "digest raw \<notin> ac_digest ` set (db_codes db)"
  shows "create_authorization_code digest now user_id rq scopes k raw db =
    (Inr raw, db\<lparr>db_grants := db_grants db @ [new_grant now user_id rq scopes k],
                 db_codes := db_codes db @ [new_code_row digest now rq scopes k raw]\<rparr>)"
proof -
  have "user_id \<in> fst ` set (db_users db)"
    using assms(1) by (force simp: is_user_verified_def dest: map_of_SomeD)
  then show ?thesis
    using assms(2-4)
    by (simp add: create_authorization_code_def create_grant_and_code_def transaction_def insert_row_fresh)
qed

lemma live_grant_last:
  assumes "k \<notin> gr_id ` set (db_grants db)" and "gr_id g = k" and "gr_revoked_at g = None"
    and "db_grants db' = db_grants db @ [g]"
  shows "live_grant k db' = Some g"
  unfolding live_grant_def assms(4)
  by (subst select_one_last [OF assms(1)]) (use assms(2,3) in \<open>auto simp: select_one_def\<close>)

lemma load_code_succeeds:
  assumes "k \<notin> gr_id ` set (db_grants db)" and "digest raw \<notin> ac_digest ` set (db_codes db)"
    and "db' = db\<lparr>db_grants := db_grants db @ [new_grant now user_id rq scopes k],
                 db_codes := db_codes db @ [new_code_row digest now rq scopes k raw]\<rparr>"
    and "t < now + 300 * second"
  shows "load_code digest t (rq_client_id rq) raw db' =
    (Some \<lparr>sc_code = raw, sc_client = rq_client_id rq, sc_scopes = scopes, sc_redirect_uri = rq_redirect_uri rq,
           sc_code_challenge = rq_code_challenge rq, sc_resource = rq_resource rq,
           sc_expires_at = now + 300 * second, sc_user = user_id, sc_grant = k\<rparr>, db')"
proof -
  have g: "live_grant k db' = Some (new_grant now user_id rq scopes k)"
    by (rule live_grant_last [OF assms(1)]) (simp_all add: assms(3))
  have c: "select_one (\<lambda>c. ac_digest c = digest raw \<and> ac_client c = rq_client_id rq \<and> ac_used_at c = None
      \<and> t < ac_expires_at c) (db_codes db') = Some (new_code_row digest now rq scopes k raw)"
    unfolding assms(3)
    by (simp, subst select_one_last [OF assms(2)]) (use assms(4) in \<open>auto simp: select_one_def\<close>)
  show ?thesis
    using g c by (simp add: load_code_def load_authorization_code_def revoke_if_legacy_scope_grant_def)
qed

lemma row_count_last:
  assumes "k \<notin> key ` set rows" and "\<And>q. P q \<Longrightarrow> key q = k"
  shows "row_count P (rows @ [r]) = (if P r then 1 else 0)"
proof -
  have "filter P rows = []" using assms by (force simp: filter_empty_conv)
  then show ?thesis by (simp add: row_count_def)
qed

lemma consent_to_access:
  assumes "is_user_verified user_id db" and "rq_client_id rq \<in> cl_id ` set (db_clients db)"
    and k: "k \<notin> gr_id ` set (db_grants db)" and raw: "digest raw \<notin> ac_digest ` set (db_codes db)"
    and at: "digest at \<notin> tk_digest ` set (db_tokens db)" and rt: "digest rt \<notin> tk_digest ` set (db_tokens db)"
    and "digest at \<noteq> digest rt" and url: "rq_resource rq = url" "url \<noteq> []"
    and late: "t2 < t1 + access_ttl"
    and db1: "db1 = db\<lparr>db_grants := db_grants db @ [new_grant now user_id rq scopes k],
                 db_codes := db_codes db @ [new_code_row digest now rq scopes k raw]\<rparr>"
    and sc: "sc_code code = raw" "sc_client code = rq_client_id rq" "sc_scopes code = scopes"
      "sc_resource code = rq_resource rq" "sc_grant code = k"
  obtains a db2 where "consume_code_and_issue digest url t1 code at rt db1 = (Inr a, db2)"
    "fst (load_access digest url t2 at db2) =
       Some \<lparr>ai_client = rq_client_id rq, ai_scopes = scopes, ai_user = user_id, ai_grant = k\<rparr>"
    "fst (consume_code_and_issue digest url t3 code at' rt' db2) = Inl (Token_Error ''invalid_grant'')"
proof -
  let ?g = "new_grant now user_id rq scopes k" and ?c = "new_code_row digest now rq scopes k raw"
  let ?ta = "token_row k (rq_client_id rq) Access scopes url (digest at) (t1 + access_ttl)"
  let ?tr = "token_row k (rq_client_id rq) Refresh scopes url (digest rt) (t1 + refresh_ttl)"
  let ?P = "\<lambda>c. ac_digest c = digest raw \<and> ac_used_at c = None"
  define codes where "codes = update_where ?P (ac_used_at_update (\<lambda>_. Some t1)) (db_codes db @ [?c])"
  define db2 where "db2 = db1\<lparr>db_codes := codes, db_tokens := db_tokens db @ [?ta, ?tr],
    db_grants := update_where (\<lambda>g. gr_id g = k) (gr_last_used_at_update (\<lambda>_. Some t1)) (db_grants db @ [?g])\<rparr>"
  have one: "row_count ?P (db_codes db @ [?c]) = 1" by (subst row_count_last [OF raw]) simp_all
  have none_left: "row_count ?P codes = 0"
    unfolding codes_def by (auto simp: row_count_def update_where_def filter_empty_conv)
  have ins: "insert_row tk_digest ?ta (db_tokens db) = Some (db_tokens db @ [?ta])"
    "insert_row tk_digest ?tr (db_tokens db @ [?ta]) = Some (db_tokens db @ [?ta, ?tr])"
    using at rt assms(7) by (simp_all add: insert_row_Some token_row_def)
  have issued: "consume_code_and_issue digest url t1 code at rt db1 =
    (Inr \<lparr>ta_access_token = at, ta_refresh_token = rt, ta_scopes = scopes\<rparr>, db2)"
  proof -
    have used: "consume_authorization_code t1 (digest raw) db1 = (True, db1\<lparr>db_codes := codes\<rparr>)"
      using one by (simp add: consume_authorization_code_def codes_def db1 Let_def)
    have parts: "db_tokens (db1\<lparr>db_codes := codes\<rparr>) = db_tokens db"
      "db_grants (db1\<lparr>db_codes := codes\<rparr>) = db_grants db @ [?g]"
      "db_clients (db1\<lparr>db_codes := codes\<rparr>) = db_clients db" by (simp_all add: db1)
    have "insert_tokens t1 k (rq_client_id rq) scopes url (digest at) (t1 + access_ttl) (digest rt)
        (t1 + refresh_ttl) (db1\<lparr>db_codes := codes\<rparr>) = (Inr (), db2)"
      unfolding insert_tokens_def parts ins(1) bind.simps(2) ins(2) db2_def using assms(2) by simp
    then show ?thesis
      using used sc url by (simp add: consume_code_and_issue_def transaction_Inr or_default_def)
  qed
  have gs: "db_grants db2 = update_where (\<lambda>g. gr_id g = k) (gr_last_used_at_update (\<lambda>_. Some t1)) (db_grants db)
      @ [?g\<lparr>gr_last_used_at := Some t1\<rparr>]"
    by (simp add: db2_def update_where_def)
  have kn: "k \<notin> gr_id ` set (update_where (\<lambda>g. gr_id g = k) (gr_last_used_at_update (\<lambda>_. Some t1)) (db_grants db))"
    using k arg_cong [OF keys_update [of gr_id "gr_last_used_at_update (\<lambda>_. Some t1)" "\<lambda>g. gr_id g = k" "db_grants db"],
        of set] by simp
  have live: "live_grant k db2 = Some (?g\<lparr>gr_last_used_at := Some t1\<rparr>)"
    unfolding live_grant_def gs by (subst select_one_last [OF kn]) (auto simp: select_one_def)
  have "is_user_verified user_id db2" using assms(1) by (simp add: is_user_verified_def db2_def db1)
  then have ver: "verified_grant k db2 = Some (?g\<lparr>gr_last_used_at := Some t1\<rparr>)"
    using live by (simp add: verified_grant_def)
  have tok: "select_one (live_token t2 Access (digest at)) (db_tokens db2) = Some ?ta"
    unfolding db2_def
    by (simp, subst select_one_last [OF at])
      (use late in \<open>auto simp: select_one_def live_token_def token_row_def\<close>)
  have acc: "fst (load_access digest url t2 at db2) =
       Some \<lparr>ai_client = rq_client_id rq, ai_scopes = scopes, ai_user = user_id, ai_grant = k\<rparr>"
    using tok ver by (simp add: load_access_def load_access_token_def token_row_def revoke_if_legacy_scope_grant_def)
  have again: "fst (consume_code_and_issue digest url t3 code at' rt' db2) = Inl (Token_Error ''invalid_grant'')"
    using none_left sc by (simp add: consume_code_and_issue_def transaction_def consume_authorization_code_def db2_def Let_def)
  from issued acc again show ?thesis by (rule that)
qed

section \<open>The properties\<close>

text \<open>Concrete inputs for the witnesses; the digest of a text marks it with \<open>#\<close>.\<close>

definition demo_digest :: "string \<Rightarrow> string" where
  "demo_digest s = CHR ''#'' # s"

definition demo_request :: consent_request where
  "demo_request = \<lparr>rq_client_id = ''c'', rq_client_name = ''Tool'', rq_client_host = ''h'',
     rq_scopes = Some [''memos:read'', ''memos:read'', ''prompts:read''], rq_redirect_uri = ''r'',
     rq_code_challenge = ''x'', rq_resource = ''u''\<rparr>"

definition demo_oauth :: oauth_sys where
  "demo_oauth =
     \<lparr>os_db = \<lparr>db_users = [(1, True), (2, True)], db_clients = [\<lparr>cl_id = ''c'', cl_metadata = JNull, cl_secret = None,
        cl_method = Dcr\<rparr>], db_user_clients = [], db_grants = [], db_codes = [], db_tokens = []\<rparr>,
      os_codes = [], os_refreshes = [], os_exchanged = []\<rparr>"

definition demo_oauth_ops :: "oauth_op list" where
  "demo_oauth_ops =
     [Create_Code_Op 0 1 demo_request ''g'' ''raw'',
      Load_Code_Op 1 ''c'' ''raw'', Load_Code_Op 2 ''c'' ''raw'',
      Exchange_Op 3 0 ''at'' ''rt'', Exchange_Op 4 1 ''at2'' ''rt2'',
      Load_Refresh_Op 5 ''c'' ''rt'',
      Refresh_Op 6 0 (Some [''memos:read'']) ''at3'' ''rt3'']"

text \<open>
  C3: an authorization code is exchanged for tokens at most once, even when it was loaded several times
  before the first exchange and whatever happens in between.
\<close>

theorem authorization_code_single_use:
  assumes "db_grants (os_db s) = []" and "db_codes (os_db s) = []" and "db_tokens (os_db s) = []"
    and "os_exchanged s = []" and "distinct (List.map_filter (new_code digest) ops)"
  shows "distinct (os_exchanged (fold (oauth_step digest url) ops s))"
proof (rule exchanged_distinct)
  show "oauth_codes.fresh digest {} ops" by (rule fresh_codes) (use assms(5) in simp_all)
qed (use assms in \<open>simp_all add: keys_ok_def\<close>)

theorem authorization_code_single_use_witness:
  "distinct (os_exchanged (fold (oauth_step demo_digest ''u'') demo_oauth_ops demo_oauth)) \<and>
   os_exchanged (fold (oauth_step demo_digest ''u'') demo_oauth_ops demo_oauth) = [''#raw'']"
proof
  have "db_grants (os_db demo_oauth) = []" "db_codes (os_db demo_oauth) = []" "db_tokens (os_db demo_oauth) = []"
    "os_exchanged demo_oauth = []" by (simp_all add: demo_oauth_def)
  moreover have "distinct (List.map_filter (new_code demo_digest) demo_oauth_ops)" by code_simp
  ultimately show "distinct (os_exchanged (fold (oauth_step demo_digest ''u'') demo_oauth_ops demo_oauth))"
    by (rule authorization_code_single_use)
qed code_simp

text \<open>
  C26: once a user has revoked a connection, none of its codes, refresh tokens and access tokens is
  accepted at any later time, whatever transactions follow, also those that were in flight.
\<close>

theorem revoked_connection_dead:
  assumes "distinct (map gr_id (db_grants (os_db s)))" and "distinct (map ac_digest (db_codes (os_db s)))"
    and "distinct (map tk_digest (db_tokens (os_db s)))"
    and "revoke_connection now user_id k (os_db s) = (True, db')"
    and "s' = fold (oauth_step digest url) ops (s\<lparr>os_db := db'\<rparr>)"
  shows "(fst (load_access digest url t raw (os_db s')) = Some info \<longrightarrow> ai_grant info \<noteq> k) \<and>
         (fst (load_refresh digest t client raw (os_db s')) = Some r \<longrightarrow> sr_grant r \<noteq> k) \<and>
         (fst (load_code digest t client raw (os_db s')) = Some c \<longrightarrow> sc_grant c \<noteq> k)"
proof -
  have "keys_ok (s\<lparr>os_db := db'\<rparr>)"
    using revoke_connection_change [of "os_db s" now user_id k] assms(1-4)
    by (simp add: keys_ok_def oauth_change_def table_grows_def)
  from revoked_run_dead [OF this, of k digest url ops] revoke_connection_revoked [OF assms(4)] show ?thesis
    unfolding assms(5) dead_def by simp
qed

theorem revoked_connection_dead_witness:
  "fst (load_access demo_digest ''u'' 7 ''at3'' (os_db (fold (oauth_step demo_digest ''u'') demo_oauth_ops demo_oauth))) \<noteq> None \<and>
   map_option ai_grant (fst (load_access demo_digest ''u'' 8 ''at3''
      (snd (revoke_connection 7 1 ''g'' (os_db (fold (oauth_step demo_digest ''u'') demo_oauth_ops demo_oauth))))))
      \<noteq> Some ''g''"
proof
  let ?s = "fold (oauth_step demo_digest ''u'') demo_oauth_ops demo_oauth"
  have "Option.is_none (fst (load_access demo_digest ''u'' 7 ''at3'' (os_db ?s))) = False" by code_simp
  then show "fst (load_access demo_digest ''u'' 7 ''at3'' (os_db ?s)) \<noteq> None" by (simp add: Option.is_none_def)
  let ?rev = "revoke_connection 7 1 ''g'' (os_db ?s)"
  have d: "distinct (map gr_id (db_grants (os_db ?s)))" "distinct (map ac_digest (db_codes (os_db ?s)))"
    "distinct (map tk_digest (db_tokens (os_db ?s)))" by code_simp+
  have "fst ?rev" by code_simp
  then have rev: "?rev = (True, snd ?rev)" by (metis prod.collapse)
  from revoked_connection_dead [OF d rev refl, where ops = "[]" and digest = demo_digest and url = "''u''"
      and t = 8 and raw = "''at3''"]
  show "map_option ai_grant (fst (load_access demo_digest ''u'' 8 ''at3'' (snd ?rev))) \<noteq> Some ''g''"
    by auto
qed

text \<open>
  A refresh token that is presented more than the grace window after its rotation ends the whole
  connection: the presentation is refused, and no code or token of the grant is accepted ever after.
\<close>

theorem late_reuse_ends_connection:
  assumes "distinct (map gr_id (db_grants (os_db s)))" and "distinct (map ac_digest (db_codes (os_db s)))"
    and "distinct (map tk_digest (db_tokens (os_db s)))"
    and "load_refresh_token now client (digest raw) (os_db s) = Some (t, u, v)"
    and "tk_replaced_at t = Some r" and "r + 60 * second \<le> now"
    and "load_refresh digest now client raw (os_db s) = (loaded, db')"
  shows "loaded = None \<and> dead digest url (tk_grant t) (os_db (fold (oauth_step digest url) ops (s\<lparr>os_db := db'\<rparr>)))"
proof -
  have reused: "reused_after_grace now t" using assms(5,6) by (simp add: reused_after_grace_def)
  obtain g where g: "g \<in> set (db_grants (os_db s))" "gr_id g = tk_grant t"
    using load_refresh_token_Some(5) [OF assms(4)] by auto
  have family: "revoked (tk_grant t) (revoke_grant_family now (tk_grant t) (os_db s))"
    using revoke_grant_family_revoked [OF g(1)] g(2) by simp
  have loaded: "loaded = None" and "revoked (tk_grant t) db'"
    using assms(4,7) reused family revoked_mono [OF revoke_grant_family_change]
    by (auto simp: load_refresh_def revoke_if_legacy_scope_grant_def split: if_splits)
  moreover have "keys_ok (s\<lparr>os_db := db'\<rparr>)"
    using load_refresh_change [of "os_db s" digest now client raw] assms(1-3,7)
    by (simp add: keys_ok_def oauth_change_def table_grows_def)
  ultimately show ?thesis using revoked_run_dead [of "s\<lparr>os_db := db'\<rparr>" "tk_grant t"] by simp
qed

theorem late_reuse_ends_connection_witness:
  "load_refresh demo_digest (100 * second) ''c'' ''rt''
     (os_db (fold (oauth_step demo_digest ''u'') demo_oauth_ops demo_oauth)) =
     (None, snd (load_refresh demo_digest (100 * second) ''c'' ''rt''
       (os_db (fold (oauth_step demo_digest ''u'') demo_oauth_ops demo_oauth))))"
proof -
  let ?s = "fold (oauth_step demo_digest ''u'') demo_oauth_ops demo_oauth"
  let ?tok = "load_refresh_token (100 * second) ''c'' (demo_digest ''rt'') (os_db ?s)"
  have d: "distinct (map gr_id (db_grants (os_db ?s)))" "distinct (map ac_digest (db_codes (os_db ?s)))"
    "distinct (map tk_digest (db_tokens (os_db ?s)))" by code_simp+
  have "map_option (\<lambda>(t, u, v). tk_replaced_at t) ?tok = Some (Some 6)" by code_simp
  then obtain t u v where tok: "?tok = Some (t, u, v)" "tk_replaced_at t = Some 6" by auto
  obtain loaded db' where load: "load_refresh demo_digest (100 * second) ''c'' ''rt'' (os_db ?s) = (loaded, db')" by fastforce
  from late_reuse_ends_connection [OF d tok _ load] load show ?thesis by simp
qed

text \<open>
  C39: the exchange of a loaded refresh token makes the same test again, but there the revocation does
  not last: the error leaves the transaction, which takes the revocation back.  The database is as
  before and the connection goes on.
\<close>

theorem reuse_revocation_rolled_back:
  assumes "distinct (map gr_id (db_grants db))"
    and "load_refresh_token now (sr_client r) (digest (sr_token r)) db = Some (t, u, v)"
    and "reused_after_grace now t" and "normalize_scopes scopes (sr_scopes r) = Some xs"
    and "set xs \<subseteq> set (sr_scopes r)"
  shows "refresh_access_token digest now r scopes at rt db = (Inl (Token_Error ''invalid_grant''), db) \<and>
         (\<exists>g. live_grant (tk_grant t) (snd (refresh_access_token digest now r scopes at rt db)) = Some g)"
proof -
  have eq: "refresh_access_token digest now r scopes at rt db = (Inl (Token_Error ''invalid_grant''), db)"
    using assms(2-5) by (simp add: refresh_access_token_def transaction_def revoke_if_legacy_scope_grant_def)
  obtain g where "g \<in> set (db_grants db)" "gr_id g = tk_grant t" "gr_revoked_at g = None"
    using load_refresh_token_Some(5) [OF assms(2)] by auto
  then have "live_grant (tk_grant t) db \<noteq> None" by (auto simp: live_grant_def select_one_None)
  with eq show ?thesis by auto
qed

theorem reuse_revocation_rolled_back_witness:
  "refresh_access_token demo_digest (100 * second)
     \<lparr>sr_token = ''rt'', sr_client = ''c'', sr_scopes = [''memos:read''], sr_expires_at = 0, sr_user = 1, sr_grant = ''g'',
      sr_resource = ''u''\<rparr> None ''at4'' ''rt4'' (os_db (fold (oauth_step demo_digest ''u'') demo_oauth_ops demo_oauth)) =
   (Inl (Token_Error ''invalid_grant''), os_db (fold (oauth_step demo_digest ''u'') demo_oauth_ops demo_oauth))"
proof -
  let ?s = "fold (oauth_step demo_digest ''u'') demo_oauth_ops demo_oauth"
  let ?r = "\<lparr>sr_token = ''rt'', sr_client = ''c'', sr_scopes = [''memos:read''], sr_expires_at = 0, sr_user = 1,
    sr_grant = ''g'', sr_resource = ''u''\<rparr>"
  let ?tok = "load_refresh_token (100 * second) (sr_client ?r) (demo_digest (sr_token ?r)) (os_db ?s)"
  have d: "distinct (map gr_id (db_grants (os_db ?s)))" by code_simp
  have "map_option (\<lambda>(t, u, v). tk_replaced_at t) ?tok = Some (Some 6)" by code_simp
  then obtain t u v where tok: "?tok = Some (t, u, v)" "tk_replaced_at t = Some 6" by auto
  then have "reused_after_grace (100 * second) t" by (simp add: reused_after_grace_def)
  moreover have "normalize_scopes None (sr_scopes ?r) = Some [''memos:read'']" by code_simp
  ultimately show ?thesis using reuse_revocation_rolled_back [where digest = demo_digest and r = ?r and now = "100 * second", OF d tok(1)] by simp
qed

text \<open>
  C23: access never exceeds consent.  After any transactions from an empty database, an accepted access
  token acts for the user who consented to its grant, with scopes that this user consented to, all of
  them supported by the server.
\<close>

theorem access_within_consent:
  assumes "db_grants (os_db s) = []" and "db_codes (os_db s) = []" and "db_tokens (os_db s) = []"
    and "os_codes s = []" and "os_refreshes s = []"
    and "s' = fold (oauth_step digest url) ops s"
    and "fst (load_access digest url now raw (os_db s')) = Some info"
  shows "\<exists>g \<in> set (db_grants (os_db s')). gr_id g = ai_grant info \<and> gr_user g = ai_user info \<and>
           gr_revoked_at g = None \<and> set (ai_scopes info) \<subseteq> set (gr_scopes g) \<and>
           set (gr_scopes g) \<subseteq> set MCP_ALLOWED_SCOPES"
proof -
  have "consent_ok digest s" using assms(1-5) by (simp add: consent_ok_def keys_ok_def)
  then have ok: "consent_ok digest s'" unfolding assms(6) by (rule consent_ok_run)
  from assms(7) obtain t g where t: "t \<in> set (db_tokens (os_db s'))" "tk_grant t = ai_grant info"
    "ai_scopes info = tk_scopes t" and g: "live_grant (ai_grant info) (os_db s') = Some g" "ai_user info = gr_user g"
    by (rule load_access_Some)
  note lg = live_grant_id [OF g(1)]
  have "within (os_db s') (tk_grant t) (tk_scopes t)" using ok t(1) unfolding consent_ok_def by blast
  then obtain h where h: "h \<in> set (db_grants (os_db s'))" "gr_id h = ai_grant info" "set (ai_scopes info) \<subseteq> set (gr_scopes h)"
    using t by (auto simp: within_def)
  have "h = g" using same_key_row [of gr_id "db_grants (os_db s')" h g] h lg ok by (simp add: consent_ok_def keys_ok_def)
  with h lg g(2) ok show ?thesis unfolding consent_ok_def by (intro bexI [of _ g]) auto
qed

theorem access_within_consent_witness:
  "\<exists>info. \<exists>g \<in> set (db_grants (os_db (fold (oauth_step demo_digest ''u'') demo_oauth_ops demo_oauth))). fst (load_access demo_digest ''u'' 7 ''at3'' (os_db (fold (oauth_step demo_digest ''u'') demo_oauth_ops demo_oauth))) = Some info \<and>
     gr_user g = ai_user info \<and> set (ai_scopes info) \<subseteq> set (gr_scopes g) \<and> ai_scopes info = [''memos:read'']"
proof -
  let ?s = "fold (oauth_step demo_digest ''u'') demo_oauth_ops demo_oauth"
  have "map_option ai_scopes (fst (load_access demo_digest ''u'' 7 ''at3'' (os_db ?s))) = Some [''memos:read'']" by code_simp
  then obtain info where info: "fst (load_access demo_digest ''u'' 7 ''at3'' (os_db ?s)) = Some info"
    "ai_scopes info = [''memos:read'']" by auto
  have "db_grants (os_db demo_oauth) = []" "db_codes (os_db demo_oauth) = []" "db_tokens (os_db demo_oauth) = []"
    "os_codes demo_oauth = []" "os_refreshes demo_oauth = []" by (simp_all add: demo_oauth_def)
  from access_within_consent [OF this refl info(1)] info show ?thesis by blast
qed

text \<open>
  A user never has more than twenty unrevoked personal clients, whatever transactions run.
\<close>

theorem personal_clients_capped:
  assumes "db_user_clients (os_db s) = []"
  shows "count_active_user_clients user_id (os_db (fold (oauth_step digest url) ops s)) \<le> 20"
proof -
  have "clients_capped (os_db s)"
    using assms by (simp add: clients_capped_def count_active_user_clients_def row_count_def)
  from clients_capped_run [OF this, of digest url ops] show ?thesis by (simp add: clients_capped_def)
qed

theorem personal_clients_capped_witness:
  "count_active_user_clients 1 (os_db (fold (oauth_step demo_digest ''u'')
     [Issue_Client_Op 0 1 ''p'' JNull None (Some ''desk'') None] demo_oauth)) \<le> 20"
proof -
  have "db_user_clients (os_db demo_oauth) = []" by (simp add: demo_oauth_def)
  then show ?thesis by (rule personal_clients_capped)
qed

text \<open>
  C30: the flow works.  When a verified user approves the request of a known client that this user may
  use, the code is answered; loading it within five minutes and exchanging it yields tokens; the
  access token is accepted within the hour for that user with the requested scopes; and exchanging
  the code again is refused.  The random values of the calls are fresh.
\<close>

theorem consent_yields_access:
  assumes "is_user_verified user_id db" and "rq_client_id rq \<in> cl_id ` set (db_clients db)"
    and "user_client_is_authorized (rq_client_id rq) user_id db"
    and "normalize_scopes (rq_scopes rq) MCP_ALLOWED_SCOPES = Some scopes"
    and "k \<notin> gr_id ` set (db_grants db)" and "digest raw \<notin> ac_digest ` set (db_codes db)"
    and "digest at \<notin> tk_digest ` set (db_tokens db)" and "digest rt \<notin> tk_digest ` set (db_tokens db)"
    and "digest at \<noteq> digest rt" and "rq_resource rq = url" and "url \<noteq> []"
    and "loaded < now + 300 * second" and "used < loaded + 3600 * second"
  shows "\<exists>db1 code a db2.
    complete_consent digest now (Some rq) user_id True k raw db =
      (Inr (Some (Code_Issued (rq_redirect_uri rq) raw)), db1) \<and>
    load_code digest loaded (rq_client_id rq) raw db1 = (Some code, db1) \<and>
    consume_code_and_issue digest url loaded code at rt db1 = (Inr a, db2) \<and>
    fst (load_access digest url used at db2) =
      Some \<lparr>ai_client = rq_client_id rq, ai_scopes = scopes, ai_user = user_id, ai_grant = k\<rparr> \<and>
    fst (consume_code_and_issue digest url later code at' rt' db2) = Inl (Token_Error ''invalid_grant'')"
proof -
  let ?db1 = "db\<lparr>db_grants := db_grants db @ [new_grant now user_id rq scopes k],
                db_codes := db_codes db @ [new_code_row digest now rq scopes k raw]\<rparr>"
  let ?code = "\<lparr>sc_code = raw, sc_client = rq_client_id rq, sc_scopes = scopes, sc_redirect_uri = rq_redirect_uri rq,
    sc_code_challenge = rq_code_challenge rq, sc_resource = rq_resource rq,
    sc_expires_at = now + 300 * second, sc_user = user_id, sc_grant = k\<rparr>"
  have "complete_consent digest now (Some rq) user_id True k raw db =
      (Inr (Some (Code_Issued (rq_redirect_uri rq) raw)), ?db1)"
    using assms(1,3,4) create_code_succeeds [where digest = digest and raw = raw, OF assms(1,2,5,6)]
    by (simp add: complete_consent_def)
  moreover have "load_code digest loaded (rq_client_id rq) raw ?db1 = (Some ?code, ?db1)"
    by (rule load_code_succeeds [where digest = digest and raw = raw, OF assms(5,6) refl assms(12)])
  moreover obtain a db2 where "consume_code_and_issue digest url loaded ?code at rt ?db1 = (Inr a, db2)"
    "fst (load_access digest url used at db2) =
       Some \<lparr>ai_client = rq_client_id rq, ai_scopes = scopes, ai_user = user_id, ai_grant = k\<rparr>"
    "fst (consume_code_and_issue digest url later ?code at' rt' db2) = Inl (Token_Error ''invalid_grant'')"
    by (rule consent_to_access [where digest = digest and raw = raw and at = at and rt = rt and code = ?code and ?t3.0 = later
          and at' = at' and rt' = rt', OF assms(1,2,5-11,13) refl])
      simp_all
  ultimately show ?thesis by blast
qed

theorem consent_yields_access_witness:
  "\<exists>db1 code a db2.
    complete_consent demo_digest 0 (Some demo_request) 1 True ''g'' ''raw'' (os_db demo_oauth) =
      (Inr (Some (Code_Issued ''r'' ''raw'')), db1) \<and>
    load_code demo_digest second ''c'' ''raw'' db1 = (Some code, db1) \<and>
    consume_code_and_issue demo_digest ''u'' second code ''at'' ''rt'' db1 = (Inr a, db2) \<and>
    fst (load_access demo_digest ''u'' (60 * second) ''at'' db2) =
      Some \<lparr>ai_client = ''c'', ai_scopes = [''memos:read'', ''prompts:read''], ai_user = 1, ai_grant = ''g''\<rparr>"
proof -
  have "is_user_verified 1 (os_db demo_oauth)"
    "rq_client_id demo_request \<in> cl_id ` set (db_clients (os_db demo_oauth))"
    "user_client_is_authorized (rq_client_id demo_request) 1 (os_db demo_oauth)"
    "normalize_scopes (rq_scopes demo_request) MCP_ALLOWED_SCOPES = Some [''memos:read'', ''prompts:read'']"
    "''g'' \<notin> gr_id ` set (db_grants (os_db demo_oauth))" "demo_digest ''raw'' \<notin> ac_digest ` set (db_codes (os_db demo_oauth))"
    "demo_digest ''at'' \<notin> tk_digest ` set (db_tokens (os_db demo_oauth))"
    "demo_digest ''rt'' \<notin> tk_digest ` set (db_tokens (os_db demo_oauth))" "demo_digest ''at'' \<noteq> demo_digest ''rt''"
    "rq_resource demo_request = ''u''" "''u'' \<noteq> []" "second < 0 + 300 * second" "60 * second < second + 3600 * second"
    by code_simp+
  from consent_yields_access [where digest = demo_digest and raw = "''raw''" and at = "''at''" and rt = "''rt''", OF this] show ?thesis by (simp add: demo_request_def) blast
qed

end
