(* ===== verification/Account_Sessions.thy ===== *)
theory Account_Sessions
  imports Redis_Server Json
begin

text \<open>
  The sessions of a browser on which several accounts are signed in: the keys and limits of
  \<open>services/session_scope.py\<close> and the operations of \<open>services/account_sessions.py\<close>.  The session of the
  active account is what the session cookie points at; the ids of the other accounts' sessions are a
  list (\<open>parked\<close>) of a second cookie.  The bodies are JSON texts in Redis.  A request works on its
  \<open>scope\<close>, which the session middleware fills and saves.
\<close>

section \<open>The scope of a request\<close>

definition session_redis_key :: "string \<Rightarrow> string" where
  "session_redis_key session_id = ''session:'' @ session_id"

definition MAX_PARKED_SESSIONS :: nat where
  "MAX_PARKED_SESSIONS = 4"

definition PARKED_SESSION_FLAG :: string where
  "PARKED_SESSION_FLAG = ''_parked''"

datatype restore_status = Session_New | Session_Restored | Session_Missing | Redis_Unavailable

record scope =
  sc_session :: dict
  sc_session_id :: "string option"
  sc_restore_status :: restore_status
  sc_original_data :: "dict option"
  sc_original_id :: "string option"
  sc_parked_ids :: "string list"
  sc_parked_original :: "string list"
  sc_ids_to_delete :: "string list"

text \<open>\<open>isinstance(value, int)\<close>, which holds of the truth values as well.\<close>

fun as_int :: "json \<Rightarrow> int option" where
  "as_int (JInt i) = Some i"
| "as_int (JBool b) = Some (of_bool b)"
| "as_int _ = None"

definition user_id_from_session :: "dict \<Rightarrow> int option" where
  "user_id_from_session session = as_int (dict_get ''user_id'' session)"

text \<open>A session id that is a non-empty string.\<close>

definition usable_id :: "string option \<Rightarrow> string option" where
  "usable_id session_id = (case session_id of Some (c # cs) \<Rightarrow> Some (c # cs) | _ \<Rightarrow> None)"

record parked_session =
  ps_session_id :: string
  ps_user_id :: int
  ps_data :: dict

section \<open>Parking\<close>

definition restorable_current_session_id :: "scope \<Rightarrow> string option" where
  "restorable_current_session_id sc =
     (case usable_id (sc_session_id sc) of
        None \<Rightarrow> None
      | Some session_id \<Rightarrow> if sc_restore_status sc \<noteq> Session_Restored then None else Some session_id)"

definition park_current_session :: "scope \<Rightarrow> bool \<times> scope" where
  "park_current_session sc =
     (case restorable_current_session_id sc of
        None \<Rightarrow> (False, sc)
      | Some session_id \<Rightarrow>
          (True, sc\<lparr>sc_parked_ids := session_id # filter (\<lambda>item. item \<noteq> session_id) (sc_parked_ids sc),
                    sc_session_id := None\<rparr>))"

definition decode_session :: "string option \<Rightarrow> dict option" where
  "decode_session payload =
     (case payload of
        None \<Rightarrow> None
      | Some body \<Rightarrow>
          if body = [] then None
          else (case loads body of Some (JObj data) \<Rightarrow> Some data | _ \<Rightarrow> None))"

text \<open>
  \<open>_read_parked_sessions\<close> over the ids of the list: \<open>current\<close> is the active session's id and \<open>seen\<close> the
  accounts that were met.  The \<open>n\<close>-th pair of faults is what the reading and a deletion of the \<open>n\<close>-th id meet.
\<close>

fun read_parked ::
  "'s redis_cmds \<Rightarrow> string option \<Rightarrow> (nat \<Rightarrow> fault \<times> fault) \<Rightarrow> string list \<Rightarrow> int list
     \<Rightarrow> ('s, parked_session list) rcmd" where
  "read_parked R current fs [] seen = rret []"
| "read_parked R current fs (session_id # ids) seen =
     (let rest = read_parked R current (\<lambda>i. fs (Suc i)) ids
      in if Some session_id = current then rest seen
         else
           rbind (redis_call (fst (fs 0)) (rc_get R (session_redis_key session_id)))
             (\<lambda>payload.
                case decode_session payload of
                  None \<Rightarrow> rest seen
                | Some data \<Rightarrow>
                    (case user_id_from_session data of
                       None \<Rightarrow> rest seen
                     | Some user_id \<Rightarrow>
                         if user_id \<in> set seen
                         then rbind (redis_call (snd (fs 0)) (rc_del R (session_redis_key session_id)))
                                (\<lambda>_. rest seen)
                         else rbind (rest (user_id # seen))
                                (\<lambda>parked.
                                   rret (\<lparr>ps_session_id = session_id, ps_user_id = user_id, ps_data = data\<rparr>
                                           # parked)))))"

definition read_parked_sessions ::
  "'s redis_cmds \<Rightarrow> (nat \<Rightarrow> fault \<times> fault) \<Rightarrow> scope \<Rightarrow> ('s, parked_session list) rcmd" where
  "read_parked_sessions R fs sc =
     read_parked R (sc_session_id sc) fs (sc_parked_ids sc)
       (case user_id_from_session (sc_session sc) of None \<Rightarrow> [] | Some user_id \<Rightarrow> [user_id])"

definition load_parked_sessions ::
  "'s redis_cmds option \<Rightarrow> (nat \<Rightarrow> fault \<times> fault) \<Rightarrow> scope \<Rightarrow> 's
     \<Rightarrow> parked_session list option \<times> scope \<times> 's" where
  "load_parked_sessions client fs sc s =
     (if sc_parked_ids sc = [] then (Some [], sc, s)
      else
        (case client of
           None \<Rightarrow> (None, sc, s)
         | Some R \<Rightarrow>
             (case read_parked_sessions R fs sc s of
                (Inl _, s) \<Rightarrow> (None, sc, s)
              | (Inr parked, s) \<Rightarrow>
                  (Some parked, sc\<lparr>sc_parked_ids := map ps_session_id parked\<rparr>, s))))"

definition activate_parked_session :: "parked_session \<Rightarrow> bool \<Rightarrow> scope \<Rightarrow> scope" where
  "activate_parked_session target keep_current sc =
     (let session_ids = filter (\<lambda>item. item \<noteq> ps_session_id target) (sc_parked_ids sc);
          sc' = (if keep_current \<and> restorable_current_session_id sc \<noteq> None
                 then sc\<lparr>sc_parked_ids := the (sc_session_id sc) # session_ids\<rparr>
                 else
                   (case usable_id (sc_session_id sc) of
                      None \<Rightarrow> sc\<lparr>sc_parked_ids := session_ids\<rparr>
                    | Some current \<Rightarrow>
                        sc\<lparr>sc_parked_ids := session_ids,
                           sc_ids_to_delete := List.insert current (sc_ids_to_delete sc)\<rparr>))
      in sc'\<lparr>sc_session := filter (\<lambda>(key, value). key \<noteq> PARKED_SESSION_FLAG) (ps_data target),
             sc_session_id := Some (ps_session_id target)\<rparr>)"

section \<open>Settling the list\<close>

fun delete_keys :: "'s redis_cmds \<Rightarrow> (nat \<Rightarrow> fault) \<Rightarrow> string list \<Rightarrow> ('s, unit) rcmd" where
  "delete_keys R fs [] = rret ()"
| "delete_keys R fs (session_id # ids) =
     rbind (redis_call (fs 0) (rc_del R (session_redis_key session_id)))
       (\<lambda>_. delete_keys R (\<lambda>i. fs (Suc i)) ids)"

definition parked_payload :: "dict \<Rightarrow> string" where
  "parked_payload data = dumps (JObj (AList.update PARKED_SESSION_FLAG (JBool True) data))"

fun mark_parked ::
  "'s redis_cmds \<Rightarrow> int option \<Rightarrow> string list \<Rightarrow> (nat \<Rightarrow> fault) \<Rightarrow> parked_session list \<Rightarrow> ('s, unit) rcmd" where
  "mark_parked R max_age newly_parked fs [] = rret ()"
| "mark_parked R max_age newly_parked fs (item # items) =
     (let rest = mark_parked R max_age newly_parked (\<lambda>i. fs (Suc i)) items
      in if ps_session_id item \<in> set newly_parked
         then rbind (redis_call (fs 0)
                       (rc_set R (session_redis_key (ps_session_id item)) (parked_payload (ps_data item)) max_age False))
                (\<lambda>_. rest)
         else rest)"

text \<open>The Redis calls of \<open>settle_parked_sessions\<close>, which stand in its \<open>try\<close> block.\<close>

definition settle_listed ::
  "'s redis_cmds \<Rightarrow> (nat \<Rightarrow> fault \<times> fault) \<Rightarrow> (nat \<Rightarrow> fault) \<Rightarrow> (nat \<Rightarrow> fault) \<Rightarrow> int option \<Rightarrow> string list \<Rightarrow> scope
     \<Rightarrow> ('s, string list) rcmd" where
  "settle_listed R read_faults drop_faults mark_faults max_age newly_parked sc =
     rbind (read_parked_sessions R read_faults sc)
       (\<lambda>parked.
          rbind (delete_keys R drop_faults (map ps_session_id (drop MAX_PARKED_SESSIONS parked)))
            (\<lambda>_. rbind (mark_parked R max_age newly_parked mark_faults (take MAX_PARKED_SESSIONS parked))
                    (\<lambda>_. rret (map ps_session_id (take MAX_PARKED_SESSIONS parked)))))"

text \<open>What the Redis calls of one settling meet.\<close>

record 's settle_io =
  se_client :: "'s redis_cmds option"
  se_read :: "nat \<Rightarrow> fault \<times> fault"
  se_drop :: "nat \<Rightarrow> fault"
  se_mark :: "nat \<Rightarrow> fault"

definition settle_parked_sessions :: "'s settle_io \<Rightarrow> int option \<Rightarrow> scope \<Rightarrow> 's \<Rightarrow> string list \<times> 's" where
  "settle_parked_sessions io max_age sc s =
     (let session_ids = sc_parked_ids sc;
          newly_parked = filter (\<lambda>item. item \<notin> set (sc_parked_original sc)) session_ids
      in case (if newly_parked \<noteq> [] then se_client io else None) of
           None \<Rightarrow> (session_ids, s)
         | Some R \<Rightarrow>
             rtry (settle_listed R (se_read io) (se_drop io) (se_mark io) max_age newly_parked sc)
               (\<lambda>r. case r of Inl _ \<Rightarrow> Pair session_ids | Inr ids \<Rightarrow> Pair ids) s)"

end
