(* ===== verification/Session_Middleware.thy ===== *)
theory Session_Middleware
  imports Account_Sessions
begin

text \<open>
  \<open>HybridSessionMiddleware\<close> of \<open>services/session_middleware.py\<close>, which restores the session of a request
  from its cookie and Redis and saves it right before the response starts, and the handlers that
  change who is signed in: \<open>establish_authenticated_session\<close> of \<open>services/auth_session.py\<close> and sign-out
  and account switching of \<open>blueprints/auth_account.py\<close>.  Signing of cookies is a library's
  (\<open>serializer\<close>); random values are arguments, and so is what a Redis call meets.
\<close>

section \<open>Configuration and cookies\<close>

definition CSRF_SESSION_KEY :: string where
  "CSRF_SESSION_KEY = ''csrf_token''"

definition REDIS_BACKEND :: string where
  "REDIS_BACKEND = ''redis''"

text \<open>\<open>URLSafeSerializer\<close>: \<open>sz_loads\<close> answers \<open>None\<close> for a bad signature.\<close>

record serializer =
  sz_dumps :: "json \<Rightarrow> string"
  sz_loads :: "string \<Rightarrow> json option"

record middleware =
  mw_session_cookie :: string
  mw_max_age :: "int option"
  mw_path :: string
  mw_same_site :: string
  mw_https_only :: bool
  mw_bypass_paths :: "string list"
  mw_serializer :: serializer
  mw_parked_serializer :: serializer

definition parked_sessions_cookie :: "middleware \<Rightarrow> string" where
  "parked_sessions_cookie mw = mw_session_cookie mw @ ''_accounts''"

record cookie =
  ck_name :: string
  ck_value :: string
  ck_path :: string
  ck_httponly :: bool
  ck_samesite :: "string option"
  ck_secure :: bool
  ck_max_age :: "int option"
  ck_expires :: "string option"

definition set_cookie :: "middleware \<Rightarrow> string \<Rightarrow> int option \<Rightarrow> string option \<Rightarrow> cookie" where
  "set_cookie mw value max_age name =
     \<lparr>ck_name = (case name of Some (c # cs) \<Rightarrow> c # cs | _ \<Rightarrow> mw_session_cookie mw), ck_value = value,
      ck_path = mw_path mw, ck_httponly = True,
      ck_samesite = (if mw_same_site mw = [] then None else Some (mw_same_site mw)),
      ck_secure = mw_https_only mw, ck_max_age = max_age,
      ck_expires = (if max_age = Some 0 then Some ''Thu, 01 Jan 1970 00:00:00 GMT'' else None)\<rparr>"

section \<open>Restoring\<close>

text \<open>The request's cookies are a function from names to values (\<open>_read_cookie\<close>).\<close>

definition load_cookie_state :: "middleware \<Rightarrow> (string \<Rightarrow> string option) \<Rightarrow> dict option" where
  "load_cookie_state mw cookies =
     (case Option.bind (cookies (mw_session_cookie mw)) (sz_loads (mw_serializer mw)) of
        Some (JStr payload) \<Rightarrow> Some [(''backend'', JStr REDIS_BACKEND), (''id'', JStr payload)]
      | Some (JObj payload) \<Rightarrow> if dict_get ''backend'' payload = JStr REDIS_BACKEND then Some payload else None
      | _ \<Rightarrow> None)"

fun nonempty_strings :: "json list \<Rightarrow> string list" where
  "nonempty_strings [] = []"
| "nonempty_strings (JStr (c # cs) # vs) = (c # cs) # nonempty_strings vs"
| "nonempty_strings (_ # vs) = nonempty_strings vs"

text \<open>\<open>list(dict.fromkeys(xs))\<close>: the first occurrences, in order.\<close>

fun from_keys :: "'a list \<Rightarrow> 'a list" where
  "from_keys [] = []"
| "from_keys (x # xs) = x # filter (\<lambda>y. y \<noteq> x) (from_keys xs)"

definition load_parked_session_ids :: "middleware \<Rightarrow> (string \<Rightarrow> string option) \<Rightarrow> string list" where
  "load_parked_session_ids mw cookies =
     (case Option.bind (cookies (parked_sessions_cookie mw)) (sz_loads (mw_parked_serializer mw)) of
        Some (JArr payload) \<Rightarrow> take MAX_PARKED_SESSIONS (from_keys (nonempty_strings payload))
      | _ \<Rightarrow> [])"

definition restore_session ::
  "'s redis_cmds option \<Rightarrow> fault \<Rightarrow> dict option \<Rightarrow> 's \<Rightarrow> (dict \<times> string option \<times> restore_status) \<times> 's" where
  "restore_session client f cookie_state s =
     (case cookie_state of
        None \<Rightarrow> (([], None, Session_New), s)
      | Some state \<Rightarrow>
          if state = [] \<or> dict_get ''backend'' state \<noteq> JStr REDIS_BACKEND then (([], None, Session_New), s)
          else
            (case dict_get ''id'' state of
               JStr (c # cs) \<Rightarrow>
                 (let session_id = c # cs
                  in case client of
                       None \<Rightarrow> (([], Some session_id, Redis_Unavailable), s)
                     | Some R \<Rightarrow>
                         (case redis_call f (rc_get R (session_redis_key session_id)) s of
                            (Inl _, s) \<Rightarrow> (([], Some session_id, Redis_Unavailable), s)
                          | (Inr payload, s) \<Rightarrow>
                              (case decode_session payload of
                                 None \<Rightarrow> (([], Some session_id, Session_Missing), s)
                               | Some data \<Rightarrow> ((data, Some session_id, Session_Restored), s))))
             | _ \<Rightarrow> (([], None, Session_New), s)))"

text \<open>
  The part of \<open>__call__\<close> before the application runs; \<open>None\<close> is a request the middleware passes on
  untouched.
\<close>

definition begin_request ::
  "middleware \<Rightarrow> bool \<Rightarrow> string \<Rightarrow> (string \<Rightarrow> string option) \<Rightarrow> 's redis_cmds option \<Rightarrow> fault \<Rightarrow> string \<Rightarrow> 's
     \<Rightarrow> scope option \<times> 's" where
  "begin_request mw is_http path cookies client f csrf s =
     (if \<not> is_http \<or> path \<in> set (mw_bypass_paths mw) then (None, s)
      else
        (case restore_session client f (load_cookie_state mw cookies) s of
           ((data, session_id, status), s) \<Rightarrow>
             (let parked = load_parked_session_ids mw cookies
              in (Some \<lparr>sc_session =
                          (if map_of data CSRF_SESSION_KEY = None
                           then AList.update CSRF_SESSION_KEY (JStr csrf) data else data),
                        sc_session_id = session_id, sc_restore_status = status,
                        sc_original_data = (if status = Session_Restored then Some data else None),
                        sc_original_id = session_id, sc_parked_ids = parked, sc_parked_original = parked,
                        sc_ids_to_delete = []\<rparr>, s))))"

definition rotate_session_identifier :: "scope \<Rightarrow> scope" where
  "rotate_session_identifier sc =
     (case usable_id (sc_session_id sc) of
        None \<Rightarrow> sc\<lparr>sc_session_id := None\<rparr>
      | Some current \<Rightarrow>
          sc\<lparr>sc_ids_to_delete := List.insert current (sc_ids_to_delete sc), sc_session_id := None\<rparr>)"

section \<open>Saving\<close>

text \<open>
  What the Redis calls of one commit meet: the \<open>n\<close>-th deletion, the writing (with what other clients do
  between reading and \<open>EXEC\<close>, and whether the server then reports a conflict), and the settling of the
  parked list; and the id that is drawn when a new one is needed.
\<close>

record 's commit_io =
  co_delete :: "nat \<Rightarrow> 's redis_cmds option \<times> fault"
  co_client :: "'s redis_cmds option"
  co_can_watch :: bool
  co_get :: fault
  co_between :: "'s \<Rightarrow> 's"
  co_conflict :: bool
  co_set :: fault
  co_token :: string
  co_settle :: "'s settle_io"

definition delete_session :: "'s redis_cmds option \<times> fault \<Rightarrow> string \<Rightarrow> 's \<Rightarrow> 's" where
  "delete_session io session_id s =
     (case fst io of
        None \<Rightarrow> s
      | Some R \<Rightarrow> snd (redis_call (snd io) (rc_del R (session_redis_key session_id)) s))"

fun delete_sessions :: "(nat \<Rightarrow> 's redis_cmds option \<times> fault) \<Rightarrow> string list \<Rightarrow> 's \<Rightarrow> 's" where
  "delete_sessions io [] s = s"
| "delete_sessions io (session_id # ids) s =
     delete_sessions (\<lambda>i. io (Suc i)) ids (delete_session (io 0) session_id s)"

definition has_application_session_changes :: "dict \<Rightarrow> dict \<Rightarrow> bool" where
  "has_application_session_changes session original_session =
     (let without_csrf = filter (\<lambda>(key, value). key \<noteq> CSRF_SESSION_KEY)
      in \<not> json_eq (JObj (without_csrf session)) (JObj (without_csrf original_session)))"

text \<open>The answer of a save: written, skipped because of a conflict (\<open>None\<close> in the code), or no Redis.\<close>

datatype save_result = Saved | Conflicted | Not_Saved

definition write_session ::
  "'s redis_cmds \<Rightarrow> int option \<Rightarrow> fault \<Rightarrow> string \<Rightarrow> string \<Rightarrow> 's \<Rightarrow> save_result \<times> 's" where
  "write_session R max_age f session_id payload =
     rtry (redis_call f (rc_set R (session_redis_key session_id) payload max_age False))
       (\<lambda>r. case r of Inl _ \<Rightarrow> Pair Not_Saved | Inr _ \<Rightarrow> Pair Saved)"

definition save_session_if_unchanged ::
  "'s commit_io \<Rightarrow> 's redis_cmds \<Rightarrow> int option \<Rightarrow> string \<Rightarrow> string \<Rightarrow> dict \<Rightarrow> 's \<Rightarrow> save_result \<times> 's" where
  "save_session_if_unchanged io R max_age session_id payload original_session s =
     (if \<not> co_can_watch io then (Not_Saved, s)
      else
        (case redis_call (co_get io) (rc_get R (session_redis_key session_id)) s of
           (Inl _, s) \<Rightarrow> (Not_Saved, s)
         | (Inr current, s) \<Rightarrow>
             (case decode_session current of
                None \<Rightarrow> (Conflicted, s)
              | Some current_session \<Rightarrow>
                  if \<not> json_eq (JObj current_session) (JObj original_session) then (Conflicted, s)
                  else
                    (let s = co_between io s
                     in if co_conflict io then (Conflicted, s)
                        else write_session R max_age (co_set io) session_id payload s))))"

definition save_session ::
  "middleware \<Rightarrow> 's commit_io \<Rightarrow> string \<Rightarrow> dict \<Rightarrow> dict option \<Rightarrow> 's \<Rightarrow> save_result \<times> 's" where
  "save_session mw io session_id session original_session s =
     (case co_client io of
        None \<Rightarrow> (Not_Saved, s)
      | Some R \<Rightarrow>
          (let payload = dumps (JObj session)
           in case original_session of
                Some original \<Rightarrow>
                  save_session_if_unchanged io R (mw_max_age mw) session_id payload original s
              | None \<Rightarrow> write_session R (mw_max_age mw) (co_set io) session_id payload s))"

text \<open>The end of a commit: the cookie that points at the saved session, none after a conflict, or the
  cookie is cleared and the session dropped.\<close>

definition commit_saved ::
  "middleware \<Rightarrow> int option \<Rightarrow> string \<Rightarrow> scope \<Rightarrow> save_result \<Rightarrow> scope \<times> cookie list" where
  "commit_saved mw cookie_max_age session_id sc result =
     (case result of
        Saved \<Rightarrow>
          (sc, [set_cookie mw
                  (sz_dumps (mw_serializer mw)
                     (JObj [(''backend'', JStr REDIS_BACKEND), (''id'', JStr session_id)]))
                  cookie_max_age None])
      | Conflicted \<Rightarrow> (sc, [])
      | Not_Saved \<Rightarrow> (sc\<lparr>sc_session := [], sc_session_id := None\<rparr>, [set_cookie mw [] (Some 0) None]))"

definition commit_nonempty :: "middleware \<Rightarrow> 's commit_io \<Rightarrow> scope \<Rightarrow> 's \<Rightarrow> (scope \<times> cookie list) \<times> 's" where
  "commit_nonempty mw io sc s =
     (let session = sc_session sc;
          cookie_max_age = (if dict_get ''_permanent'' session = JBool True then mw_max_age mw else None);
          session_id = (case usable_id (sc_session_id sc) of Some i \<Rightarrow> i | None \<Rightarrow> co_token io);
          pending = sc_ids_to_delete sc;
          s = delete_sessions (co_delete io) (filter (\<lambda>i. i \<noteq> session_id) pending) s;
          original =
            (if sc_restore_status sc = Session_Restored \<and> Some session_id = sc_original_id sc \<and> pending = []
             then sc_original_data sc else None);
          (result, s) = save_session mw io session_id session original s
      in (commit_saved mw cookie_max_age session_id
            (sc\<lparr>sc_session_id := Some session_id, sc_ids_to_delete := []\<rparr>) result, s))"

definition commit_session :: "middleware \<Rightarrow> 's commit_io \<Rightarrow> scope \<Rightarrow> 's \<Rightarrow> (scope \<times> cookie list) \<times> 's" where
  "commit_session mw io sc s =
     (let session = sc_session sc
      in if dict_get PARKED_SESSION_FLAG session = JBool True then ((sc, []), s)
         else if session = [] then
           (let stale = sc_ids_to_delete sc
                        @ (case usable_id (sc_session_id sc) of None \<Rightarrow> [] | Some i \<Rightarrow> [i])
            in ((sc, [set_cookie mw [] (Some 0) None]), delete_sessions (co_delete io) stale s))
         else if sc_restore_status sc = Session_Missing then
           if \<not> has_application_session_changes session
                  (case sc_original_data sc of None \<Rightarrow> [] | Some d \<Rightarrow> d)
           then ((sc, []), s)
           else commit_nonempty mw io (sc\<lparr>sc_session_id := None\<rparr>) s
         else commit_nonempty mw io sc s)"

definition commit_parked_session_ids :: "middleware \<Rightarrow> 's commit_io \<Rightarrow> scope \<Rightarrow> 's \<Rightarrow> cookie list \<times> 's" where
  "commit_parked_session_ids mw io sc s =
     (if sc_parked_ids sc = sc_parked_original sc then ([], s)
      else
        (case settle_parked_sessions (co_settle io) (mw_max_age mw) sc s of
           (session_ids, s) \<Rightarrow>
             (if session_ids = [] then ([set_cookie mw [] (Some 0) (Some (parked_sessions_cookie mw))], s)
              else
                ([set_cookie mw (sz_dumps (mw_parked_serializer mw) (JArr (map JStr session_ids))) (mw_max_age mw)
                    (Some (parked_sessions_cookie mw))], s))))"

definition commit :: "middleware \<Rightarrow> 's commit_io \<Rightarrow> scope \<Rightarrow> 's \<Rightarrow> (scope \<times> cookie list) \<times> 's" where
  "commit mw io sc s =
     (case commit_session mw io sc s of
        ((sc, cookies), s) \<Rightarrow>
          (case commit_parked_session_ids mw io sc s of
             (more_cookies, s) \<Rightarrow> ((sc, cookies @ more_cookies), s)))"

section \<open>Handlers\<close>

definition normalize_locale :: "string option \<Rightarrow> string option" where
  "normalize_locale value =
     (case value of
        None \<Rightarrow> None
      | Some v \<Rightarrow>
          (let language = takeWhile (\<lambda>c. c \<noteq> CHR ''-'')
                            (map (\<lambda>c. if c = CHR ''_'' then CHR ''-'' else c) (py_lower (py_strip v)))
           in if language \<in> set [''ja'', ''en''] then Some language else None))"

definition set_session_permanent :: "dict \<Rightarrow> bool \<Rightarrow> dict" where
  "set_session_permanent session value =
     (if value then AList.update ''_permanent'' (JBool True) session else AList.delete ''_permanent'' session)"

definition signed_in_session :: "int \<Rightarrow> string \<Rightarrow> string option \<Rightarrow> dict \<Rightarrow> dict" where
  "signed_in_session user_id email preferred_locale session =
     (let session = AList.update ''user_email'' (JStr email) (AList.update ''user_id'' (JInt user_id) session);
          session = AList.delete ''_preferred_locale_loaded'' (AList.delete ''preferred_locale'' session);
          session = (case normalize_locale preferred_locale of
                       None \<Rightarrow> session
                     | Some locale \<Rightarrow>
                         AList.update ''_preferred_locale_loaded'' (JBool True)
                           (AList.update ''preferred_locale'' (JStr locale) session))
      in set_session_permanent session True)"

definition establish_authenticated_session :: "int \<Rightarrow> string \<Rightarrow> string option \<Rightarrow> scope \<Rightarrow> scope" where
  "establish_authenticated_session user_id email preferred_locale sc =
     (let session = sc_session sc;
          signed_in_as_another_user =
            (case user_id_from_session session of None \<Rightarrow> False | Some current \<Rightarrow> current \<noteq> user_id);
          (parked, sc') = (if signed_in_as_another_user then park_current_session sc else (False, sc));
          sc'' =
            (if parked
             then sc'\<lparr>sc_session := (case map_of session CSRF_SESSION_KEY of
                                        None \<Rightarrow> []
                                      | Some JNull \<Rightarrow> []
                                      | Some token \<Rightarrow> [(CSRF_SESSION_KEY, token)])\<rparr>
             else rotate_session_identifier sc')
      in sc''\<lparr>sc_session := signed_in_session user_id email preferred_locale (sc_session sc'')\<rparr>)"

text \<open>\<open>user_exists\<close> is whether \<open>get_user_by_id\<close> finds the account.\<close>

definition sign_out_current_account ::
  "(int \<Rightarrow> bool) \<Rightarrow> 's redis_cmds option \<Rightarrow> (nat \<Rightarrow> fault \<times> fault) \<Rightarrow> scope \<Rightarrow> 's \<Rightarrow> (bool \<times> scope) \<times> 's" where
  "sign_out_current_account user_exists client fs sc s =
     (case load_parked_sessions client fs sc s of
        (parked_sessions, sc, s) \<Rightarrow>
          (let sc = sc\<lparr>sc_session := []\<rparr>
           in case List.find (\<lambda>p. user_exists (ps_user_id p))
                     (case parked_sessions of None \<Rightarrow> [] | Some ps \<Rightarrow> ps) of
                None \<Rightarrow> ((False, sc), s)
              | Some parked \<Rightarrow> ((True, activate_parked_session parked False sc), s)))"

datatype switch_answer = Login_Required | Bad_Target | Switch_Unavailable | Target_Signed_Out | Switched

text \<open>\<open>api_switch_account\<close>: \<open>data\<close> is the JSON body's \<open>user_id\<close>.\<close>

definition api_switch_account ::
  "(int \<Rightarrow> bool) \<Rightarrow> 's redis_cmds option \<Rightarrow> (nat \<Rightarrow> fault \<times> fault) \<Rightarrow> json \<Rightarrow> scope \<Rightarrow> 's
     \<Rightarrow> (switch_answer \<times> scope) \<times> 's" where
  "api_switch_account user_exists client fs data sc s =
     (if user_id_from_session (sc_session sc) = None then ((Login_Required, sc), s)
      else
        (case data of
           JInt target_user_id \<Rightarrow>
             (case load_parked_sessions client fs sc s of
                (None, sc, s) \<Rightarrow> ((Switch_Unavailable, sc), s)
              | (Some parked_sessions, sc, s) \<Rightarrow>
                  (case List.find (\<lambda>p. ps_user_id p = target_user_id) parked_sessions of
                     None \<Rightarrow> ((Target_Signed_Out, sc), s)
                   | Some target \<Rightarrow>
                       if \<not> user_exists (ps_user_id target) then ((Target_Signed_Out, sc), s)
                       else ((Switched, activate_parked_session target True sc), s)))
         | _ \<Rightarrow> ((Bad_Target, sc), s)))"

section \<open>Requests of several browsers\<close>

text \<open>
  The requests in flight and what happens to them: a request begins, its handler changes the session or
  signs in, out or over, and its commit comes at some later time.  \<open>None\<close> marks a finished request.
\<close>

record 's session_sys =
  ss_redis :: 's
  ss_requests :: "scope option list"

datatype 's session_op =
    Begin_Op "string \<Rightarrow> string option" "'s redis_cmds option" fault string
  | Change_Op nat "dict \<Rightarrow> dict"
  | Sign_In_Op nat int string "string option"
  | Sign_Out_Op nat "'s redis_cmds option" "nat \<Rightarrow> fault \<times> fault"
  | Switch_Op nat "'s redis_cmds option" "nat \<Rightarrow> fault \<times> fault" json
  | Commit_Op nat "'s commit_io"
  | Wait_Op "'s \<Rightarrow> 's"

definition request_at :: "nat \<Rightarrow> 's session_sys \<Rightarrow> scope option" where
  "request_at n st = (if n < length (ss_requests st) then ss_requests st ! n else None)"

definition on_request ::
  "nat \<Rightarrow> (scope \<Rightarrow> 's \<Rightarrow> scope option \<times> 's) \<Rightarrow> 's session_sys \<Rightarrow> 's session_sys" where
  "on_request n act st =
     (case request_at n st of
        None \<Rightarrow> st
      | Some sc \<Rightarrow>
          (case act sc (ss_redis st) of
             (sc', s) \<Rightarrow> st\<lparr>ss_redis := s, ss_requests := (ss_requests st)[n := sc']\<rparr>))"

fun session_step ::
  "middleware \<Rightarrow> (int \<Rightarrow> bool) \<Rightarrow> 's session_op \<Rightarrow> 's session_sys \<Rightarrow> 's session_sys" where
  "session_step mw users (Begin_Op cookies client f csrf) st =
     (case begin_request mw True [] cookies client f csrf (ss_redis st) of
        (sc, s) \<Rightarrow> st\<lparr>ss_redis := s, ss_requests := ss_requests st @ [sc]\<rparr>)"
| "session_step mw users (Change_Op n change) st =
     on_request n (\<lambda>sc s. (Some (sc\<lparr>sc_session := change (sc_session sc)\<rparr>), s)) st"
| "session_step mw users (Sign_In_Op n user_id email locale) st =
     on_request n (\<lambda>sc s. (Some (establish_authenticated_session user_id email locale sc), s)) st"
| "session_step mw users (Sign_Out_Op n client fs) st =
     on_request n (\<lambda>sc s. case sign_out_current_account users client fs sc s of ((_, sc), s) \<Rightarrow> (Some sc, s)) st"
| "session_step mw users (Switch_Op n client fs data) st =
     on_request n (\<lambda>sc s. case api_switch_account users client fs data sc s of ((_, sc), s) \<Rightarrow> (Some sc, s)) st"
| "session_step mw users (Commit_Op n io) st = on_request n (\<lambda>sc s. (None, snd (commit mw io sc s))) st"
| "session_step mw users (Wait_Op pass) st = st\<lparr>ss_redis := pass (ss_redis st)\<rparr>"

end
