(* ===== verification/Session_Safety.thy ===== *)
theory Session_Safety
  imports Session_Middleware
begin

text \<open>
  What the session code promises: a saved session is restored as it was, a commit never overwrites a
  newer state, parked sessions stay parked, the list of accounts is settled, a sign-in changes the
  session id, and a session that was signed out stays out.
\<close>

section \<open>Records in the keyspace\<close>

definition absent :: "string \<Rightarrow> keyspace \<Rightarrow> bool" where
  "absent sid k \<longleftrightarrow> ks_data k (session_redis_key sid) = None"

definition stored_session :: "string \<Rightarrow> keyspace \<Rightarrow> dict option" where
  "stored_session sid k =
     (case ks_data k (session_redis_key sid) of
        Some (RString body, _) \<Rightarrow> decode_session (Some body)
      | _ \<Rightarrow> None)"

lemma session_redis_key_eq [simp]: "session_redis_key a = session_redis_key b \<longleftrightarrow> a = b"
  by (simp add: session_redis_key_def)

lemma decode_session_None [simp]: "decode_session None = None"
  by (simp add: decode_session_def)

lemma decode_dumps: "json_ok (JObj d) \<Longrightarrow> decode_session (Some (dumps (JObj d))) = Some d"
  by (simp add: decode_session_def loads_dumps_lemma del: json_ok.simps dumps.simps) simp

lemma map_of_without [simp]:
  "map_of (filter (\<lambda>(key, value). key \<noteq> k') d) k = (if k = k' then None else map_of d k)"
  by (induction d) auto

lemma json_eq_member:
  assumes "json_eq (JObj a) (JObj b)" and "map_of a k = Some v"
  obtains w where "map_of b k = Some w" "json_eq v w"
  using assms map_of_SomeD [OF assms(2)]
  by (subst (asm) json_eq.simps) (auto simp: list_all_iff split: option.splits)

lemma dict_get_Some: "dict_get k d = v \<Longrightarrow> v \<noteq> JNull \<Longrightarrow> map_of d k = Some v"
  by (auto simp: dict_get_def split: option.splits)

lemma absent_stored: "absent sid k \<Longrightarrow> stored_session sid k = None"
  by (simp add: absent_def stored_session_def)

lemma usable_id_simps [simp]:
  "usable_id None = None" "usable_id (Some []) = None" "i \<noteq> [] \<Longrightarrow> usable_id (Some i) = Some i"
  by (simp_all add: usable_id_def split: list.splits)

lemma usable_id_Some [simp]: "usable_id x = Some i \<longleftrightarrow> x = Some i \<and> i \<noteq> []"
  by (auto simp: usable_id_def split: option.splits list.splits)

lemma usable_id_None: "usable_id x = None \<longleftrightarrow> x = None \<or> x = Some []"
  by (auto simp: usable_id_def split: option.splits list.splits)

lemma restorable_Some [simp]:
  "restorable_current_session_id sc = Some i \<longleftrightarrow>
     sc_session_id sc = Some i \<and> i \<noteq> [] \<and> sc_restore_status sc = Session_Restored"
  unfolding restorable_current_session_id_def
  by (cases "sc_session_id sc"; cases "the (sc_session_id sc)") (auto split: option.splits)

section \<open>Programs that never write a record\<close>

text \<open>\<open>keeps sid m\<close>: when there is no record for \<open>sid\<close>, there is none after \<open>m\<close>.\<close>

definition keeps :: "string \<Rightarrow> (keyspace \<Rightarrow> 'a \<times> keyspace) \<Rightarrow> bool" where
  "keeps sid m \<longleftrightarrow> (\<forall>k. absent sid k \<longrightarrow> absent sid (snd (m k)))"

named_theorems keeps_intros \<open>rules for programs that leave an absent record absent\<close>

lemma keepsD: "keeps sid m \<Longrightarrow> m k = (r, k') \<Longrightarrow> absent sid k \<Longrightarrow> absent sid k'"
  by (metis keeps_def snd_conv)

lemma keeps_rret [keeps_intros]: "keeps sid (rret a)"
  by (simp add: keeps_def rret_def)

lemma keeps_Pair [keeps_intros]: "keeps sid (Pair a)"
  by (simp add: keeps_def)

lemma keeps_get [keeps_intros]: "keeps sid (ks_get key)"
  by (auto simp: keeps_def split: option.splits rval.splits)

lemma keeps_del [keeps_intros]: "keeps sid (ks_del key)"
  by (auto simp: keeps_def absent_def)

lemma keeps_set: "i \<noteq> sid \<Longrightarrow> keeps sid (ks_set (session_redis_key i) v ex nx)"
  by (auto simp: keeps_def absent_def)

lemma keeps_call [keeps_intros]: "keeps sid m \<Longrightarrow> keeps sid (redis_call f m)"
  by (cases f) (simp_all add: keeps_def)

lemma keeps_rbind [keeps_intros]:
  "keeps sid m \<Longrightarrow> (\<And>a. keeps sid (f a)) \<Longrightarrow> keeps sid (rbind m f)"
  by (fastforce simp: keeps_def rbind_def split: prod.splits sum.splits)

lemma keeps_rtry [keeps_intros]:
  "keeps sid m \<Longrightarrow> (\<And>r. keeps sid (h r)) \<Longrightarrow> keeps sid (rtry m h)"
  by (fastforce simp: keeps_def rtry_def split: prod.splits)

lemma keeps_case_sum [keeps_intros]:
  "(\<And>e. keeps sid (g e)) \<Longrightarrow> (\<And>a. keeps sid (f a)) \<Longrightarrow> keeps sid (case x of Inl e \<Rightarrow> g e | Inr a \<Rightarrow> f a)"
  by (cases x) simp_all

lemma keeps_case_option [keeps_intros]:
  "keeps sid m \<Longrightarrow> (\<And>a. keeps sid (f a)) \<Longrightarrow> keeps sid (case x of None \<Rightarrow> m | Some a \<Rightarrow> f a)"
  by (cases x) simp_all

lemma keeps_if [keeps_intros]: "keeps sid m \<Longrightarrow> keeps sid n \<Longrightarrow> keeps sid (if b then m else n)"
  by simp

lemma keeps_read_parked [keeps_intros]: "keeps sid (read_parked ks_cmds cur fs ids seen)"
proof (induction ids arbitrary: fs seen)
  case (Cons i ids)
  then show ?case unfolding read_parked.simps Let_def ks_cmds_sel by (intro keeps_intros)
qed (simp add: keeps_rret)

lemma keeps_delete_keys [keeps_intros]: "keeps sid (delete_keys ks_cmds fs ids)"
  by (induction ids arbitrary: fs) (auto intro!: keeps_rret keeps_rbind keeps_call keeps_del)

lemma keeps_mark_parked:
  "sid \<notin> ps_session_id ` set ps \<Longrightarrow> keeps sid (mark_parked ks_cmds max_age new fs ps)"
  by (induction ps arbitrary: fs)
    (auto simp: Let_def intro!: keeps_rret keeps_rbind keeps_call keeps_set)

text \<open>How the reading of a list begins: the first id is passed over, removed, or answered.\<close>

lemma read_parked_cases:
  assumes "read_parked ks_cmds cur fs (i # ids) seen k = (Inr ps, k')"
  obtains (skip) "Some i = cur \<or> Option.bind (stored_session i k) user_id_from_session = None"
      "read_parked ks_cmds cur (\<lambda>n. fs (Suc n)) ids seen k = (Inr ps, k')"
    | (old) d u where "Some i \<noteq> cur" "stored_session i k = Some d" "user_id_from_session d = Some u" "u \<in> set seen"
      "read_parked ks_cmds cur (\<lambda>n. fs (Suc n)) ids seen (drop_key (session_redis_key i) k) = (Inr ps, k')"
    | (new) d u qs where "Some i \<noteq> cur" "stored_session i k = Some d" "user_id_from_session d = Some u" "u \<notin> set seen"
      "ps = \<lparr>ps_session_id = i, ps_user_id = u, ps_data = d\<rparr> # qs"
      "read_parked ks_cmds cur (\<lambda>n. fs (Suc n)) ids (u # seen) k = (Inr qs, k')"
proof (cases "Some i = cur")
  case True
  with assms skip show thesis by (simp add: Let_def)
next
  case False
  then obtain payload where g: "redis_call (fst (fs 0)) (ks_get (session_redis_key i)) k = (Inr payload, k)"
    using assms by (cases "fst (fs 0)") (auto simp: Let_def rbind_def split: option.splits rval.splits)
  have st: "stored_session i k = decode_session payload"
    using g by (cases "fst (fs 0)") (auto simp: stored_session_def split: option.splits rval.splits)
  show thesis
  proof (cases "Option.bind (stored_session i k) user_id_from_session")
    case None
    with assms False g st show thesis
      by (intro skip) (auto simp: Let_def rbind_def split: option.splits)
  next
    case (Some u)
    then obtain d where d: "stored_session i k = Some d" "user_id_from_session d = Some u"
      by (cases "stored_session i k") auto
    have dp: "decode_session payload = Some d" using d(1) st by simp
    show thesis
    proof (cases "u \<in> set seen")
      case True
      obtain r k1 where del: "redis_call (snd (fs 0)) (ks_del (session_redis_key i)) k = (r, k1)" by fastforce
      from assms False g dp d(2) True del obtain b where r: "r = Inr b"
        and rest: "read_parked ks_cmds cur (\<lambda>n. fs (Suc n)) ids seen k1 = (Inr ps, k')"
        by (auto simp: Let_def rbind_def split: sum.splits)
      have "k1 = drop_key (session_redis_key i) k" using del r by (cases "snd (fs 0)") auto
      with rest False d True show thesis by (intro old) simp_all
    next
      case fresh: False
      with assms False g dp d(2) obtain qs where "ps = \<lparr>ps_session_id = i, ps_user_id = u, ps_data = d\<rparr> # qs"
        "read_parked ks_cmds cur (\<lambda>n. fs (Suc n)) ids (u # seen) k = (Inr qs, k')"
        by (auto simp: Let_def rbind_def rret_def split: prod.splits sum.splits)
      with False d fresh show thesis by (intro new)
    qed
  qed
qed

lemma read_parked_present:
  "read_parked ks_cmds cur fs ids seen k = (Inr ps, k') \<Longrightarrow> absent sid k \<Longrightarrow> sid \<notin> ps_session_id ` set ps"
proof (induction ids arbitrary: fs seen k ps)
  case Nil
  then show ?case by (simp add: rret_def)
next
  case (Cons i ids)
  from Cons.prems(1) show ?case
  proof (cases rule: read_parked_cases)
    case skip
    with Cons show ?thesis by blast
  next
    case old
    have "absent sid (drop_key (session_redis_key i) k)" using Cons.prems(2) by (simp add: absent_def)
    with old Cons.IH show ?thesis by blast
  next
    case (new d u qs)
    have "i \<noteq> sid" using new(2) absent_stored [OF Cons.prems(2)] by auto
    with new Cons.IH [OF new(6) Cons.prems(2)] show ?thesis by simp
  qed
qed

lemma keeps_settle_listed: "keeps sid (settle_listed ks_cmds rd dr mk age new sc)"
  unfolding keeps_def
proof (intro allI impI)
  fix k
  assume k: "absent sid k"
  obtain r k1 where run: "read_parked_sessions ks_cmds rd sc k = (r, k1)" by fastforce
  note run' = run [unfolded read_parked_sessions_def]
  have k1: "absent sid k1" by (rule keepsD [OF keeps_read_parked run' k])
  have "keeps sid (rbind (delete_keys ks_cmds dr (map ps_session_id (drop MAX_PARKED_SESSIONS ps)))
      (\<lambda>_. rbind (mark_parked ks_cmds age new mk (take MAX_PARKED_SESSIONS ps))
              (\<lambda>_. rret (map ps_session_id (take MAX_PARKED_SESSIONS ps)))))" if "r = Inr ps" for ps
    using read_parked_present [OF run' [unfolded that] k] set_take_subset [of MAX_PARKED_SESSIONS ps]
    by (intro keeps_intros keeps_mark_parked) auto
  with run k1 show "absent sid (snd (settle_listed ks_cmds rd dr mk age new sc k))"
    by (cases r) (simp_all add: settle_listed_def rbind_def keeps_def)
qed

lemma read_parked_not_current:
  "read_parked ks_cmds cur fs ids seen k = (Inr ps, k') \<Longrightarrow> p \<in> set ps \<Longrightarrow> Some (ps_session_id p) \<noteq> cur"
proof (induction ids arbitrary: fs seen k ps)
  case Nil
  then show ?case by (simp add: rret_def)
next
  case (Cons i ids)
  from Cons.prems(1) show ?case
    by (cases rule: read_parked_cases) (use Cons in auto)
qed

section \<open>Settling the list of accounts\<close>

text \<open>The account whose session a record holds.\<close>

definition account_of :: "keyspace \<Rightarrow> string \<Rightarrow> int option" where
  "account_of k sid = Option.bind (stored_session sid k) user_id_from_session"

text \<open>No session key holds a list, which \<open>GET\<close> would refuse.\<close>

definition strings_only :: "keyspace \<Rightarrow> bool" where
  "strings_only k \<longleftrightarrow> (\<forall>sid v. map_option fst (ks_data k (session_redis_key sid)) = Some v \<longrightarrow> (\<exists>body. v = RString body))"

lemma strings_only_get:
  assumes "strings_only k"
  obtains payload where "ks_get (session_redis_key i) k = (Inr payload, k)" "decode_session payload = stored_session i k"
proof (cases "ks_data k (session_redis_key i)")
  case None
  then show thesis by (intro that [of None]) (simp_all add: stored_session_def)
next
  case (Some e)
  then obtain body x where "e = (RString body, x)" using assms by (cases e) (auto simp: strings_only_def)
  with Some show thesis by (intro that [of "Some body"]) (simp_all add: stored_session_def)
qed

lemma strings_only_drop: "strings_only k \<Longrightarrow> strings_only (drop_key key k)"
  by (auto simp: strings_only_def)

lemma stored_drop: "stored_session j (drop_key (session_redis_key i) k) = (if j = i then None else stored_session j k)"
  by (simp add: stored_session_def)

text \<open>
  What the reading of a list leaves: its answer lists sessions of different accounts, and every listed
  session it does not answer is the active one or no longer holds an account.
\<close>

definition reading_settled ::
  "string option \<Rightarrow> string list \<Rightarrow> int list \<Rightarrow> keyspace \<Rightarrow> parked_session list \<Rightarrow> keyspace \<Rightarrow> bool" where
  "reading_settled cur ids seen k ps k' \<longleftrightarrow>
     strings_only k' \<and> set (map ps_session_id ps) \<subseteq> set ids \<and> distinct (map ps_session_id ps)
     \<and> distinct (map ps_user_id ps) \<and> set (map ps_user_id ps) \<inter> set seen = {}
     \<and> (\<forall>p \<in> set ps. stored_session (ps_session_id p) k = Some (ps_data p)
          \<and> user_id_from_session (ps_data p) = Some (ps_user_id p) \<and> Some (ps_session_id p) \<noteq> cur)
     \<and> (\<forall>i \<in> set ids. i \<notin> set (map ps_session_id ps) \<longrightarrow> Some i \<noteq> cur \<longrightarrow> account_of k' i = None)
     \<and> (\<forall>j. j \<notin> set ids \<longrightarrow> ks_data k' (session_redis_key j) = ks_data k (session_redis_key j))"

lemma account_of_cong: "ks_data k' (session_redis_key i) = ks_data k (session_redis_key i) \<Longrightarrow> account_of k' i = account_of k i"
  by (simp add: account_of_def stored_session_def)

lemma reading_skip:
  assumes "reading_settled cur ids seen k ps k'" and "i \<notin> set ids" and "Some i = cur \<or> account_of k i = None"
  shows "reading_settled cur (i # ids) seen k ps k'"
  using assms account_of_cong [of k' i k] by (auto simp: reading_settled_def)

lemma reading_old:
  assumes "reading_settled cur ids seen (drop_key (session_redis_key i) k) ps k'" and "i \<notin> set ids"
  shows "reading_settled cur (i # ids) seen k ps k'"
proof -
  have "ks_data k' (session_redis_key i) = None" using assms by (simp add: reading_settled_def)
  then have "account_of k' i = None" by (simp add: account_of_def stored_session_def)
  moreover have "stored_session (ps_session_id p) k = Some (ps_data p)" if "p \<in> set ps" for p
    using assms(1) that by (auto simp: reading_settled_def stored_drop split: if_splits)
  ultimately show ?thesis using assms by (auto simp: reading_settled_def)
qed

lemma reading_new:
  assumes "reading_settled cur ids (u # seen) k ps k'" and "i \<notin> set ids" and "Some i \<noteq> cur"
    and "stored_session i k = Some d" and "user_id_from_session d = Some u" and "u \<notin> set seen"
  shows "reading_settled cur (i # ids) seen k (\<lparr>ps_session_id = i, ps_user_id = u, ps_data = d\<rparr> # ps) k'"
  using assms by (auto simp: reading_settled_def)

lemma read_parked_settled:
  assumes "strings_only k" and "distinct ids"
  obtains ps k' where "read_parked ks_cmds cur (\<lambda>_. (Delivered, Delivered)) ids seen k = (Inr ps, k')"
    "reading_settled cur ids seen k ps k'"
  using assms
proof (induction ids arbitrary: seen k thesis)
  case Nil
  then show ?case by (simp add: rret_def reading_settled_def)
next
  case (Cons i ids)
  then have i: "i \<notin> set ids" "distinct ids" by simp_all
  obtain payload where get: "ks_get (session_redis_key i) k = (Inr payload, k)" "decode_session payload = stored_session i k"
    by (rule strings_only_get [OF Cons.prems(2)])
  let ?read = "\<lambda>ids seen. read_parked ks_cmds cur (\<lambda>_. (Delivered, Delivered)) ids seen"
  consider (skip) "Some i = cur \<or> account_of k i = None" | (old) d u where "Some i \<noteq> cur" "stored_session i k = Some d"
      "user_id_from_session d = Some u" "u \<in> set seen"
    | (new) d u where "Some i \<noteq> cur" "stored_session i k = Some d" "user_id_from_session d = Some u" "u \<notin> set seen"
    by (cases "stored_session i k") (auto simp: account_of_def)
  then show ?case
  proof cases
    case skip
    obtain ps k' where rest: "?read ids seen k = (Inr ps, k')" "reading_settled cur ids seen k ps k'"
      by (rule Cons.IH [OF _ Cons.prems(2) i(2)])
    have "?read (i # ids) seen k = (Inr ps, k')"
      using skip rest(1) get by (auto simp: Let_def rbind_def account_of_def split: option.splits)
    then show ?thesis by (rule Cons.prems(1) [OF _ reading_skip [OF rest(2) i(1) skip]])
  next
    case old
    obtain ps k' where rest: "?read ids seen (drop_key (session_redis_key i) k) = (Inr ps, k')"
      "reading_settled cur ids seen (drop_key (session_redis_key i) k) ps k'"
      by (rule Cons.IH [OF _ strings_only_drop [OF Cons.prems(2)] i(2)])
    have "?read (i # ids) seen k = (Inr ps, k')" using old get rest(1) by (auto simp: Let_def rbind_def)
    then show ?thesis by (rule Cons.prems(1) [OF _ reading_old [OF rest(2) i(1)]])
  next
    case new
    obtain ps k' where rest: "?read ids (u # seen) k = (Inr ps, k')" "reading_settled cur ids (u # seen) k ps k'"
      by (rule Cons.IH [OF _ Cons.prems(2) i(2)])
    have "?read (i # ids) seen k = (Inr (\<lparr>ps_session_id = i, ps_user_id = u, ps_data = d\<rparr> # ps), k')"
      using new get rest(1) by (auto simp: Let_def rbind_def rret_def)
    then show ?thesis by (rule Cons.prems(1) [OF _ reading_new [OF rest(2) i(1) new]])
  qed
qed

lemma delete_keys_delivered:
  "delete_keys ks_cmds (\<lambda>_. Delivered) ids k =
     (Inr (), k\<lparr>ks_data := (\<lambda>x. if x \<in> session_redis_key ` set ids then None else ks_data k x)\<rparr>)"
  by (induction ids arbitrary: k) (auto simp: rret_def rbind_def fun_eq_iff intro!: arg_cong [of _ _ "\<lambda>f. k\<lparr>ks_data := f\<rparr>" for k])

lemma mark_parked_delivered:
  assumes "\<not> bad_expiry age" and "distinct (map ps_session_id ps)"
  obtains k' where "mark_parked ks_cmds age new (\<lambda>_. Delivered) ps k = (Inr (), k')"
    "\<And>p. p \<in> set ps \<Longrightarrow> ps_session_id p \<in> set new \<Longrightarrow>
       ks_data k' (session_redis_key (ps_session_id p)) = Some (RString (parked_payload (ps_data p)), lifetime age)"
    "\<And>j. j \<notin> set (map ps_session_id ps) \<Longrightarrow> ks_data k' (session_redis_key j) = ks_data k (session_redis_key j)"
  using assms
proof (induction ps arbitrary: k thesis)
  case Nil
  show ?case by (rule Nil.prems(1) [of k]) (simp_all add: rret_def)
next
  case (Cons p ps)
  define k1 where "k1 = (if ps_session_id p \<in> set new
    then put_key (session_redis_key (ps_session_id p)) (RString (parked_payload (ps_data p)), lifetime age) k else k)"
  obtain k' where k': "mark_parked ks_cmds age new (\<lambda>_. Delivered) ps k1 = (Inr (), k')"
    "\<And>q. q \<in> set ps \<Longrightarrow> ps_session_id q \<in> set new \<Longrightarrow>
       ks_data k' (session_redis_key (ps_session_id q)) = Some (RString (parked_payload (ps_data q)), lifetime age)"
    "\<And>j. j \<notin> set (map ps_session_id ps) \<Longrightarrow> ks_data k' (session_redis_key j) = ks_data k1 (session_redis_key j)"
    using Cons.IH [of k1] Cons.prems(2,3) by auto
  have "mark_parked ks_cmds age new (\<lambda>_. Delivered) (p # ps) k = (Inr (), k')"
    using k'(1) Cons.prems(2) by (cases "ps_session_id p \<in> set new") (simp_all add: Let_def rbind_def k1_def)
  then show ?case
    by (rule Cons.prems(1)) (use k' Cons.prems(3) in \<open>auto simp: k1_def split: if_splits\<close>)
qed

lemma settle_listed_settled:
  assumes "strings_only k" and "distinct (sc_parked_ids sc)" and "\<not> bad_expiry age"
  obtains ids k' where
    "settle_listed ks_cmds (\<lambda>_. (Delivered, Delivered)) (\<lambda>_. Delivered) (\<lambda>_. Delivered) age new sc k = (Inr ids, k')"
    "length ids \<le> MAX_PARKED_SESSIONS" "set ids \<subseteq> set (sc_parked_ids sc)" "distinct (map (account_of k) ids)"
    "None \<notin> set (map (account_of k) ids)" "user_id_from_session (sc_session sc) \<notin> set (map (account_of k) ids)"
    "\<And>i. i \<in> set ids \<Longrightarrow> i \<in> set new \<Longrightarrow> \<exists>d. stored_session i k = Some d \<and>
       ks_data k' (session_redis_key i) = Some (RString (parked_payload d), lifetime age)"
    "\<And>i. i \<in> set (sc_parked_ids sc) \<Longrightarrow> i \<notin> set ids \<Longrightarrow> Some i \<noteq> sc_session_id sc \<Longrightarrow> account_of k' i = None"
proof -
  define seen where "seen = (case user_id_from_session (sc_session sc) of None \<Rightarrow> [] | Some u \<Rightarrow> [u])"
  obtain ps k1 where read: "read_parked ks_cmds (sc_session_id sc) (\<lambda>_. (Delivered, Delivered)) (sc_parked_ids sc) seen k = (Inr ps, k1)"
    and ok: "reading_settled (sc_session_id sc) (sc_parked_ids sc) seen k ps k1"
    by (rule read_parked_settled [OF assms(1,2)])
  define kept where "kept = take MAX_PARKED_SESSIONS ps"
  define over where "over = map ps_session_id (drop MAX_PARKED_SESSIONS ps)"
  define k2 where "k2 = k1\<lparr>ks_data := (\<lambda>x. if x \<in> session_redis_key ` set over then None else ks_data k1 x)\<rparr>"
  have ps: "ps = kept @ drop MAX_PARKED_SESSIONS ps" by (simp add: kept_def)
  have "distinct (map ps_session_id ps)" "distinct (map ps_user_id ps)" using ok by (simp_all add: reading_settled_def)
  then have dist: "distinct (map ps_session_id kept)" "distinct (map ps_user_id kept)"
    unfolding kept_def take_map [symmetric] by (simp_all add: distinct_take)
  obtain k' where mark: "mark_parked ks_cmds age new (\<lambda>_. Delivered) kept k2 = (Inr (), k')"
    and marked: "\<And>p. p \<in> set kept \<Longrightarrow> ps_session_id p \<in> set new \<Longrightarrow>
       ks_data k' (session_redis_key (ps_session_id p)) = Some (RString (parked_payload (ps_data p)), lifetime age)"
    and rest: "\<And>j. j \<notin> set (map ps_session_id kept) \<Longrightarrow> ks_data k' (session_redis_key j) = ks_data k2 (session_redis_key j)"
    by (rule mark_parked_delivered [OF assms(3) dist(1), of new k2]) blast
  have kept: "stored_session (ps_session_id p) k = Some (ps_data p) \<and> account_of k (ps_session_id p) = Some (ps_user_id p)
      \<and> ps_user_id p \<notin> set seen \<and> ps_session_id p \<in> set (sc_parked_ids sc)" if "p \<in> set kept" for p
  proof -
    have "p \<in> set ps" using that set_take_subset [of MAX_PARKED_SESSIONS ps] by (auto simp: kept_def)
    with ok show ?thesis by (auto simp: reading_settled_def account_of_def)
  qed
  then have accounts: "map (account_of k) (map ps_session_id kept) = map Some (map ps_user_id kept)" by simp
  show thesis
  proof (rule that)
    show "settle_listed ks_cmds (\<lambda>_. (Delivered, Delivered)) (\<lambda>_. Delivered) (\<lambda>_. Delivered) age new sc k =
        (Inr (map ps_session_id kept), k')"
      using read mark unfolding settle_listed_def read_parked_sessions_def seen_def [symmetric] kept_def over_def k2_def
      by (simp add: rbind_def rret_def delete_keys_delivered)
    show "distinct (map (account_of k) (map ps_session_id kept))"
      unfolding accounts using dist(2) by (subst distinct_map) simp
    show "None \<notin> set (map (account_of k) (map ps_session_id kept))" unfolding accounts by auto
    show "user_id_from_session (sc_session sc) \<notin> set (map (account_of k) (map ps_session_id kept))"
      unfolding accounts using kept by (auto simp: seen_def) blast
    show "account_of k' i = None"
      if "i \<in> set (sc_parked_ids sc)" "i \<notin> set (map ps_session_id kept)" "Some i \<noteq> sc_session_id sc" for i
    proof (cases "i \<in> set over")
      case True
      then have "ks_data k' (session_redis_key i) = None" using rest [OF that(2)] by (simp add: k2_def)
      then show ?thesis by (simp add: account_of_def stored_session_def)
    next
      case False
      then have "i \<notin> set (map ps_session_id ps)" using that(2) by (subst ps) (simp add: over_def)
      then have "account_of k1 i = None" using ok that by (simp add: reading_settled_def)
      moreover have "ks_data k' (session_redis_key i) = ks_data k1 (session_redis_key i)"
        using rest [OF that(2)] False by (auto simp: k2_def)
      ultimately show ?thesis using account_of_cong by metis
    qed
  qed (use kept marked in \<open>auto simp: kept_def\<close>)
qed

section \<open>A record that is gone stays gone\<close>

text \<open>
  A request is harmless to an id when its commit cannot create that id's record: it does not hold the
  id, or it holds it as the one it was restored from.
\<close>

definition harmless :: "string \<Rightarrow> scope \<Rightarrow> bool" where
  "harmless sid sc \<longleftrightarrow>
     sc_session_id sc = Some sid \<longrightarrow>
       sc_restore_status sc = Session_Missing
       \<or> (sc_restore_status sc = Session_Restored \<and> sc_original_id sc = Some sid
          \<and> sc_original_data sc \<noteq> None \<and> sc_ids_to_delete sc = [])"

definition commit_io_ok :: "'s redis_cmds \<Rightarrow> ('s \<Rightarrow> keyspace) \<Rightarrow> string \<Rightarrow> 's commit_io \<Rightarrow> bool" where
  "commit_io_ok R view sid io \<longleftrightarrow>
     (\<forall>i. fst (co_delete io i) \<in> {None, Some R}) \<and> co_client io \<in> {None, Some R}
     \<and> se_client (co_settle io) \<in> {None, Some R} \<and> co_token io \<noteq> sid
     \<and> (\<forall>s. absent sid (view s) \<longrightarrow> absent sid (view (co_between io s)))"

text \<open>
  The steps of a run after the sign-out: they talk to the server \<open>R\<close>, a beginning request reaches it, a
  new id is not the old one, and what else happens to the server does not bring the record back.
\<close>

fun session_op_ok :: "'s redis_cmds \<Rightarrow> ('s \<Rightarrow> keyspace) \<Rightarrow> string \<Rightarrow> 's session_op \<Rightarrow> bool" where
  "session_op_ok R view sid (Begin_Op cookies client f csrf) \<longleftrightarrow> client = Some R \<and> f = Delivered"
| "session_op_ok R view sid (Change_Op n change) \<longleftrightarrow> True"
| "session_op_ok R view sid (Sign_In_Op n user_id email lang) \<longleftrightarrow> True"
| "session_op_ok R view sid (Sign_Out_Op n client fs) \<longleftrightarrow> client \<in> {None, Some R}"
| "session_op_ok R view sid (Switch_Op n client fs data) \<longleftrightarrow> client \<in> {None, Some R}"
| "session_op_ok R view sid (Commit_Op n io) \<longleftrightarrow> commit_io_ok R view sid io"
| "session_op_ok R view sid (Wait_Op pass) \<longleftrightarrow> (\<forall>s. absent sid (view s) \<longrightarrow> absent sid (view (pass s)))"

definition gone :: "string \<Rightarrow> ('s \<Rightarrow> keyspace) \<Rightarrow> 's session_sys \<Rightarrow> bool" where
  "gone sid view st \<longleftrightarrow>
     absent sid (view (ss_redis st)) \<and> (\<forall>sc. Some sc \<in> set (ss_requests st) \<longrightarrow> harmless sid sc)"

lemma harmless_session [simp]: "harmless sid (sc\<lparr>sc_session := d\<rparr>) = harmless sid sc"
  by (simp add: harmless_def)

lemma harmless_parked [simp]: "harmless sid (sc\<lparr>sc_parked_ids := ids\<rparr>) = harmless sid sc"
  by (simp add: harmless_def)

lemma harmless_other_id: "sc_session_id sc \<noteq> Some sid \<Longrightarrow> harmless sid sc"
  by (simp add: harmless_def)

lemma activate_session_id [simp]: "sc_session_id (activate_parked_session p keep sc) = Some (ps_session_id p)"
  by (simp add: activate_parked_session_def Let_def)

lemma sign_in_session_id [simp]: "sc_session_id (establish_authenticated_session u e l sc) = None"
  by (auto simp: establish_authenticated_session_def park_current_session_def rotate_session_identifier_def
      Let_def split: option.splits prod.splits)

lemma request_in: "request_at n st = Some sc \<Longrightarrow> Some sc \<in> set (ss_requests st)"
  by (auto simp: request_at_def split: if_splits) (metis nth_mem)

lemma set_find: "List.find P xs = Some x \<Longrightarrow> x \<in> set xs"
  by (metis find_Some_iff nth_mem)

context redis_server
begin

lemma absent_step:
  assumes "sim view m m'" and "keeps sid m'" and "absent sid (view s)"
  shows "absent sid (view (snd (m s)))"
  using sim_step [OF assms(1)] keepsD [OF assms(2) _ assms(3)] by (metis prod.collapse)

lemma sim_read_parked [sim_intros]: "sim view (read_parked R cur fs ids seen) (read_parked ks_cmds cur fs ids seen)"
proof (induction ids arbitrary: fs seen)
  case (Cons i ids)
  then show ?case unfolding read_parked.simps Let_def ks_cmds_sel by (intro sim_intros sim_cmds)
qed (simp add: sim_rret)

lemma sim_delete_keys [sim_intros]: "sim view (delete_keys R fs ids) (delete_keys ks_cmds fs ids)"
proof (induction ids arbitrary: fs)
  case (Cons i ids)
  then show ?case unfolding delete_keys.simps ks_cmds_sel by (intro sim_intros sim_cmds)
qed (simp add: sim_rret)

lemma sim_mark_parked [sim_intros]: "sim view (mark_parked R age new fs ps) (mark_parked ks_cmds age new fs ps)"
proof (induction ps arbitrary: fs)
  case (Cons p ps)
  then show ?case unfolding mark_parked.simps Let_def ks_cmds_sel by (intro sim_intros sim_cmds)
qed (simp add: sim_rret)

lemma load_parked_absent:
  assumes "load_parked_sessions client fs sc s = (ps, sc', s')" and "client \<in> {None, Some R}"
    and "absent sid (view s)"
  shows "absent sid (view s') \<and> sid \<notin> ps_session_id ` set (case ps of None \<Rightarrow> [] | Some l \<Rightarrow> l) \<and>
         (\<exists>ids. sc' = sc\<lparr>sc_parked_ids := ids\<rparr>)"
proof (cases "sc_parked_ids sc = [] \<or> client = None")
  case True
  then have "ps = Some [] \<or> ps = None" "sc' = sc" "s' = s" using assms(1)
    by (auto simp: load_parked_sessions_def split: if_splits)
  then show ?thesis using assms(3) by (auto intro: exI [of _ "sc_parked_ids sc"])
next
  case False
  then have R: "client = Some R" using assms(2) by auto
  obtain r t where run: "read_parked_sessions R fs sc s = (r, t)" by fastforce
  note ks = sim_step [OF sim_read_parked run [unfolded read_parked_sessions_def]]
  have "absent sid (view t)" by (rule keepsD [OF keeps_read_parked ks assms(3)])
  moreover have "sid \<notin> ps_session_id ` set l" if "r = Inr l" for l
    using read_parked_present [OF ks [unfolded that] assms(3)] .
  ultimately show ?thesis
    using assms(1) False R run
    by (auto simp: load_parked_sessions_def split: sum.splits intro: exI [of _ "sc_parked_ids sc"])
qed

lemma load_parked_not_current:
  assumes "load_parked_sessions client fs sc s = (ps, sc', s')" and "client \<in> {None, Some R}"
    and "p \<in> set (case ps of None \<Rightarrow> [] | Some l \<Rightarrow> l)"
  shows "Some (ps_session_id p) \<noteq> sc_session_id sc"
proof -
  have "sc_parked_ids sc \<noteq> []" "client = Some R"
    using assms by (auto simp: load_parked_sessions_def split: if_splits option.splits)
  then obtain l where run: "read_parked_sessions R fs sc s = (Inr l, s')" "p \<in> set l"
    using assms by (auto simp: load_parked_sessions_def split: sum.splits prod.splits)
  show ?thesis
    by (rule read_parked_not_current [OF sim_step [OF sim_read_parked run(1) [unfolded read_parked_sessions_def]] run(2)])
qed

lemma delete_session_absent:
  "absent sid (view s) \<Longrightarrow> fst io \<in> {None, Some R} \<Longrightarrow> absent sid (view (delete_session io i s))"
  by (auto simp: delete_session_def intro: absent_step [OF sim_call [OF sim_del] keeps_call [OF keeps_del]])

lemma delete_sessions_absent:
  "absent sid (view s) \<Longrightarrow> (\<And>i. fst (io i) \<in> {None, Some R}) \<Longrightarrow> absent sid (view (delete_sessions io ids s))"
proof (induction ids arbitrary: io s)
  case (Cons i ids)
  then show ?case by (simp add: delete_session_absent del: insert_iff)
qed simp

lemma write_session_absent:
  assumes "absent sid (view s)" and "i \<noteq> sid"
  shows "absent sid (view (snd (write_session R age f i payload s)))"
  unfolding write_session_def
  by (rule absent_step [OF sim_rtry [OF sim_call [OF sim_set] sim_case_sum [OF sim_pair sim_pair]] _ assms(1)])
    (intro keeps_rtry keeps_call keeps_set [OF assms(2)] keeps_case_sum keeps_Pair)

lemma save_session_absent:
  assumes "absent sid (view s)" and "commit_io_ok R view sid io" and "i = sid \<Longrightarrow> orig \<noteq> None"
  shows "absent sid (view (snd (save_session mw io i d orig s)))"
proof (cases "co_client io")
  case None
  then show ?thesis using assms(1) by (simp add: save_session_def)
next
  case (Some R')
  then have R: "co_client io = Some R" using assms(2) by (auto simp: commit_io_ok_def)
  show ?thesis
  proof (cases orig)
    case None
    then have "i \<noteq> sid" using assms(3) by auto
    then show ?thesis using R None write_session_absent [OF assms(1)] by (simp add: save_session_def Let_def)
  next
    case (Some d0)
    obtain r t where get: "redis_call (co_get io) (rc_get R (session_redis_key i)) s = (r, t)" by fastforce
    note ks = sim_step [OF sim_call [OF sim_get] get]
    have t: "absent sid (view t)" by (rule keepsD [OF keeps_call [OF keeps_get] ks assms(1)])
    have none: "decode_session p = None" if "i = sid" "r = Inr p" for p
      using ks assms(1) that by (cases "co_get io") (auto simp: absent_def)
    have btw: "absent sid (view (co_between io t))" using t assms(2) by (simp add: commit_io_ok_def)
    show ?thesis
      using Some R get t none assms(1) write_session_absent [OF btw]
      by (cases "i = sid") (auto simp: save_session_def save_session_if_unchanged_def Let_def btw
          split: sum.splits option.splits)
  qed
qed

lemma sim_settle_listed [sim_intros]:
  "sim view (settle_listed R rd dr mk age new sc) (settle_listed ks_cmds rd dr mk age new sc)"
  unfolding settle_listed_def read_parked_sessions_def by (intro sim_intros)

lemma settle_absent:
  assumes "absent sid (view s)" and "se_client io \<in> {None, Some R}"
  shows "absent sid (view (snd (settle_parked_sessions io age sc s)))"
proof (cases "filter (\<lambda>i. i \<notin> set (sc_parked_original sc)) (sc_parked_ids sc) = [] \<or> se_client io = None")
  case True
  then have "settle_parked_sessions io age sc s = (sc_parked_ids sc, s)"
    unfolding settle_parked_sessions_def Let_def by auto
  with assms(1) show ?thesis by simp
next
  case False
  then have "se_client io = Some R" using assms(2) by auto
  with False absent_step [OF sim_settle_listed keeps_settle_listed assms(1)] show ?thesis
    by (auto simp: settle_parked_sessions_def rtry_def Let_def split: prod.splits sum.splits) (metis snd_conv)+
qed

lemma commit_nonempty_absent:
  assumes "absent sid (view s)" and "commit_io_ok R view sid io" and "harmless sid sc"
    and "sc_session_id sc = Some sid \<Longrightarrow> sc_restore_status sc \<noteq> Session_Missing"
  shows "absent sid (view (snd (commit_nonempty mw io sc s)))"
proof -
  define i where "i = (case usable_id (sc_session_id sc) of Some i \<Rightarrow> i | None \<Rightarrow> co_token io)"
  define orig where "orig = (if sc_restore_status sc = Session_Restored \<and> Some i = sc_original_id sc
    \<and> sc_ids_to_delete sc = [] then sc_original_data sc else None)"
  let ?t = "delete_sessions (co_delete io) (filter (\<lambda>j. j \<noteq> i) (sc_ids_to_delete sc)) s"
  have t: "absent sid (view ?t)" using assms(1,2) by (intro delete_sessions_absent) (auto simp: commit_io_ok_def)
  have "orig \<noteq> None" if "i = sid"
  proof -
    have "sc_session_id sc = Some sid"
      using that assms(2) unfolding i_def by (auto simp: commit_io_ok_def split: option.splits)
    then show ?thesis using assms(3,4) that by (auto simp: harmless_def orig_def)
  qed
  from save_session_absent [OF t assms(2) this] show ?thesis
    unfolding commit_nonempty_def Let_def i_def [symmetric] orig_def [symmetric] by (simp add: split_beta)
qed

lemma commit_absent:
  assumes "absent sid (view s)" and "commit_io_ok R view sid io" and "harmless sid sc"
  shows "absent sid (view (snd (commit mw io sc s)))"
proof -
  have "absent sid (view (delete_sessions (co_delete io) ids s))" for ids
    using assms(1,2) by (intro delete_sessions_absent) (simp_all add: commit_io_ok_def)
  moreover have "absent sid (view (snd (commit_nonempty mw io (sc\<lparr>sc_session_id := None\<rparr>) s)))"
    by (rule commit_nonempty_absent [OF assms(1,2)]) (simp_all add: harmless_def)
  ultimately have "absent sid (view (snd (commit_session mw io sc s)))"
    using assms(1) commit_nonempty_absent [OF assms] by (simp add: commit_session_def Let_def)
  then have "absent sid (view (snd (commit_parked_session_ids mw io sc' (snd (commit_session mw io sc s)))))" for sc'
    using settle_absent [of sid _ "co_settle io"] assms(2)
    by (auto simp: commit_parked_session_ids_def commit_io_ok_def split: prod.splits) (metis snd_conv)+
  then show ?thesis by (simp add: commit_def split_beta)
qed

lemma get_view:
  assumes "rc_get R key s = (r, t)"
  shows "view t = view s" and "ks_get key (view s) = (r, view s)"
proof -
  have ks: "ks_get key (view s) = (r, view t)" by (rule sim_step [OF sim_get assms])
  then show "view t = view s" by (auto split: option.splits rval.splits)
  with ks show "ks_get key (view s) = (r, view s)" by simp
qed

lemma restore_delivered:
  assumes "restore_session (Some R) Delivered state s = ((data, i, status), t)"
  shows "view t = view s"
    and "i = Some sid \<Longrightarrow> absent sid (view s) \<Longrightarrow> status = Session_Missing"
    and "i = Some sid \<Longrightarrow> stored_session sid (view s) = Some d \<Longrightarrow> status = Session_Restored \<and> data = d"
proof -
  show "view t = view s"
    using assms by (auto simp: restore_session_def Let_def dest!: get_view(1)
      split: option.splits if_splits json.splits list.splits prod.splits sum.splits)
  show "status = Session_Missing" if "i = Some sid" "absent sid (view s)"
    using assms that by (auto simp: restore_session_def Let_def absent_def dest!: get_view(2)
      split: option.splits if_splits json.splits list.splits prod.splits sum.splits)
  show "status = Session_Restored \<and> data = d" if "i = Some sid" "stored_session sid (view s) = Some d"
    using assms that by (auto simp: restore_session_def Let_def stored_session_def dest!: get_view(2)
      split: option.splits if_splits json.splits list.splits prod.splits sum.splits rval.splits)
qed

lemma begin_gone:
  assumes "begin_request mw http path cookies (Some R) Delivered csrf s = (req, s')" and "absent sid (view s)"
  shows "absent sid (view s')" and "req = Some sc \<Longrightarrow> harmless sid sc"
proof -
  obtain data i status t where rs: "restore_session (Some R) Delivered (load_cookie_state mw cookies) s = ((data, i, status), t)"
    by (metis prod.collapse)
  note rd = restore_delivered [OF rs]
  show "absent sid (view s')"
    using assms rs rd(1) by (auto simp: begin_request_def Let_def split: if_splits)
  show "harmless sid sc" if "req = Some sc"
    using assms rs rd(2) that by (auto simp: begin_request_def harmless_def Let_def split: if_splits)
qed

lemma on_request_gone:
  assumes "gone sid view st"
    and "\<And>sc s req t. harmless sid sc \<Longrightarrow> absent sid (view s) \<Longrightarrow> act sc s = (req, t) \<Longrightarrow>
           absent sid (view t) \<and> (\<forall>sc'. req = Some sc' \<longrightarrow> harmless sid sc')"
  shows "gone sid view (on_request n act st)"
proof (cases "request_at n st")
  case None
  then show ?thesis using assms(1) by (simp add: on_request_def)
next
  case (Some sc)
  obtain req t where act: "act sc (ss_redis st) = (req, t)" by fastforce
  from assms(1) request_in [OF Some] have "harmless sid sc" "absent sid (view (ss_redis st))" by (auto simp: gone_def)
  from assms(2) [OF this act] show ?thesis
    using assms(1) Some act set_update_subset_insert [of "ss_requests st" n req]
    by (auto simp: on_request_def gone_def)
qed

lemma sign_out_gone:
  assumes "harmless sid sc" and "absent sid (view s)" and "client \<in> {None, Some R}"
    and "sign_out_current_account users client fs sc s = ((b, sc'), t)"
  shows "absent sid (view t) \<and> harmless sid sc'"
proof -
  obtain ps sc1 s1 where load: "load_parked_sessions client fs sc s = (ps, sc1, s1)" by (metis prod.collapse)
  note l = load_parked_absent [OF load assms(3,2)]
  have "harmless sid (sc1\<lparr>sc_session := []\<rparr>)" using l assms(1) by auto
  moreover have "harmless sid (activate_parked_session p False (sc1\<lparr>sc_session := []\<rparr>))"
    if "List.find (\<lambda>p. users (ps_user_id p)) (case ps of None \<Rightarrow> [] | Some l \<Rightarrow> l) = Some p" for p
    using set_find [OF that] l by (intro harmless_other_id) auto
  ultimately show ?thesis
    using assms(4) load l by (auto simp: sign_out_current_account_def Let_def split: option.splits)
qed

lemma switch_gone:
  assumes "harmless sid sc" and "absent sid (view s)" and "client \<in> {None, Some R}"
    and "api_switch_account users client fs data sc s = ((a, sc'), t)"
  shows "absent sid (view t) \<and> harmless sid sc'"
proof -
  obtain ps sc1 s1 where load: "load_parked_sessions client fs sc s = (ps, sc1, s1)" by (metis prod.collapse)
  note l = load_parked_absent [OF load assms(3,2)]
  have "harmless sid sc1" using l assms(1) by auto
  moreover have "harmless sid (activate_parked_session p True sc1)"
    if "ps = Some qs" "List.find P qs = Some p" for p P qs
    using set_find [OF that(2)] l that(1) by (intro harmless_other_id) auto
  ultimately show ?thesis
    using assms load l by (auto simp: api_switch_account_def split: if_splits json.splits option.splits)
qed

lemma session_step_gone:
  assumes "gone sid view st" and "session_op_ok R view sid op"
  shows "gone sid view (session_step mw users op st)"
proof (cases op)
  case (Begin_Op cookies client f csrf)
  obtain req t where b: "begin_request mw True [] cookies (Some R) Delivered csrf (ss_redis st) = (req, t)" by fastforce
  have "absent sid (view (ss_redis st))" using assms(1) by (simp add: gone_def)
  from begin_gone [OF b this] show ?thesis
    using assms Begin_Op b by (auto simp: gone_def)
next
  case (Change_Op n change)
  show ?thesis unfolding Change_Op session_step.simps by (rule on_request_gone [OF assms(1)]) auto
next
  case (Sign_In_Op n u e l)
  show ?thesis unfolding Sign_In_Op session_step.simps
    by (rule on_request_gone [OF assms(1)]) (auto intro: harmless_other_id)
next
  case (Sign_Out_Op n client fs)
  show ?thesis unfolding Sign_Out_Op session_step.simps
  proof (rule on_request_gone [OF assms(1)])
    fix sc s req t
    assume h: "harmless sid sc" "absent sid (view s)"
      and act: "(case sign_out_current_account users client fs sc s of ((_, sc), s) \<Rightarrow> (Some sc, s)) = (req, t)"
    obtain b sc' where so: "sign_out_current_account users client fs sc s = ((b, sc'), t)" "req = Some sc'"
      using act by (auto split: prod.splits)
    have "client \<in> {None, Some R}" using assms(2) Sign_Out_Op by simp
    from sign_out_gone [OF h this so(1)] so(2) show "absent sid (view t) \<and> (\<forall>sc'. req = Some sc' \<longrightarrow> harmless sid sc')"
      by simp
  qed
next
  case (Switch_Op n client fs data)
  show ?thesis unfolding Switch_Op session_step.simps
  proof (rule on_request_gone [OF assms(1)])
    fix sc s req t
    assume h: "harmless sid sc" "absent sid (view s)"
      and act: "(case api_switch_account users client fs data sc s of ((_, sc), s) \<Rightarrow> (Some sc, s)) = (req, t)"
    obtain a sc' where sw: "api_switch_account users client fs data sc s = ((a, sc'), t)" "req = Some sc'"
      using act by (auto split: prod.splits)
    have "client \<in> {None, Some R}" using assms(2) Switch_Op by simp
    from switch_gone [OF h this sw(1)] sw(2) show "absent sid (view t) \<and> (\<forall>sc'. req = Some sc' \<longrightarrow> harmless sid sc')"
      by simp
  qed
next
  case (Commit_Op n io)
  have ok: "commit_io_ok R view sid io" using assms(2) Commit_Op by simp
  show ?thesis unfolding Commit_Op session_step.simps
    by (rule on_request_gone [OF assms(1)]) (use commit_absent [OF _ ok] in auto)
next
  case (Wait_Op pass)
  then show ?thesis using assms by (simp add: gone_def)
qed

lemma session_run_gone:
  "gone sid view st \<Longrightarrow> list_all (session_op_ok R view sid) ops \<Longrightarrow>
   gone sid view (fold (session_step mw users) ops st)"
  by (induction ops arbitrary: st) (simp_all add: session_step_gone)

lemma delete_sessions_removes:
  assumes "sid \<in> set ids" and "\<And>i. io i = (Some R, Delivered)"
  shows "absent sid (view (delete_sessions io ids s))"
  using assms
proof (induction ids arbitrary: io s)
  case (Cons i ids)
  have "view (snd (rc_del R (session_redis_key i) s)) = drop_key (session_redis_key i) (view s)"
    using simD [OF sim_del, of "session_redis_key i" s] by (metis ks_del.simps snd_apsnd snd_conv)
  then have "absent sid (view (delete_session (io 0) i s))" if "i = sid"
    using that Cons.prems(2) by (simp add: delete_session_def absent_def)
  with Cons show ?case
    by (cases "i = sid") (auto intro!: delete_sessions_absent)
qed simp

text \<open>A commit removes the records it is asked to remove.\<close>

lemma commit_removes:
  assumes ok: "commit_io_ok R view sid io" and del: "\<And>i. co_delete io i = (Some R, Delivered)"
    and "dict_get PARKED_SESSION_FLAG (sc_session sc) \<noteq> JBool True" and "sc_restore_status sc \<noteq> Session_Missing"
    and "sid \<in> set (sc_ids_to_delete sc) \<and> sc_session_id sc \<noteq> Some sid
         \<or> sc_session sc = [] \<and> sc_session_id sc = Some sid \<and> sid \<noteq> []"
  shows "absent sid (view (snd (commit_session mw io sc s)))"
proof (cases "sc_session sc = []")
  case True
  with assms(5) have "sid \<in> set (sc_ids_to_delete sc @ (case usable_id (sc_session_id sc) of None \<Rightarrow> [] | Some i \<Rightarrow> [i]))"
    by auto
  with True assms(3) delete_sessions_removes [OF this del] show ?thesis
    by (simp add: commit_session_def Let_def)
next
  case False
  with assms(5) have other: "sid \<in> set (sc_ids_to_delete sc)" "sc_session_id sc \<noteq> Some sid" by auto
  then have pending: "sc_ids_to_delete sc \<noteq> []" by auto
  define i where "i = (case usable_id (sc_session_id sc) of Some i \<Rightarrow> i | None \<Rightarrow> co_token io)"
  have i: "i \<noteq> sid" using other(2) ok unfolding i_def by (auto simp: commit_io_ok_def split: option.splits)
  let ?t = "delete_sessions (co_delete io) (filter (\<lambda>j. j \<noteq> i) (sc_ids_to_delete sc)) s"
  have "absent sid (view ?t)" using i other(1) by (intro delete_sessions_removes [OF _ del]) simp
  then have "absent sid (view (snd (save_session mw io i d orig ?t)))" for d orig
    by (rule save_session_absent [OF _ ok]) (use i in simp)
  then show ?thesis
    using False pending assms(3,4) unfolding commit_session_def commit_nonempty_def Let_def i_def [symmetric]
    by (simp add: split_beta)
qed

lemma settled_absent:
  assumes "absent sid (view (snd (commit_session mw io sc s)))" and "commit_io_ok R view sid io"
  shows "absent sid (view (snd (commit mw io sc s)))"
proof -
  have "absent sid (view (snd (commit_parked_session_ids mw io sc' (snd (commit_session mw io sc s)))))" for sc'
    using settle_absent [OF assms(1), of "co_settle io"] assms(2)
    by (auto simp: commit_parked_session_ids_def commit_io_ok_def assms(1) split: prod.splits) (metis snd_conv)+
  then show ?thesis by (simp add: commit_def split_beta)
qed

lemma sign_out_commit_absent:
  assumes "sc_session_id sc = Some sid" and "sid \<noteq> []" and "sc_restore_status sc = Session_Restored"
    and "client \<in> {None, Some R}" and "sign_out_current_account users client fs sc s = ((b, sc'), t)"
    and "commit_io_ok R view sid io" and "\<And>i. co_delete io i = (Some R, Delivered)"
  shows "absent sid (view (snd (commit mw io sc' t)))"
proof (rule settled_absent [OF commit_removes [OF assms(6,7)] assms(6)])
  obtain ps sc1 s1 where load: "load_parked_sessions client fs sc s = (ps, sc1, s1)" by (metis prod.collapse)
  define found where "found = List.find (\<lambda>p. users (ps_user_id p)) (case ps of None \<Rightarrow> [] | Some l \<Rightarrow> l)"
  have sc1: "sc_session_id sc1 = Some sid" "sc_restore_status sc1 = Session_Restored"
    using load assms(1,3) by (auto simp: load_parked_sessions_def split: if_splits option.splits sum.splits prod.splits)
  have sc': "sc' = (case found of None \<Rightarrow> sc1\<lparr>sc_session := []\<rparr> | Some p \<Rightarrow> activate_parked_session p False (sc1\<lparr>sc_session := []\<rparr>))"
    using assms(5) load unfolding sign_out_current_account_def found_def by (auto simp: Let_def split: option.splits)
  have other: "ps_session_id p \<noteq> sid" if "found = Some p" for p
    using load_parked_not_current [OF load assms(4)] set_find [OF that [unfolded found_def]] assms(1) by auto
  show "dict_get PARKED_SESSION_FLAG (sc_session sc') \<noteq> JBool True" "sc_restore_status sc' \<noteq> Session_Missing"
    using sc' sc1(2) by (auto simp: activate_parked_session_def Let_def dict_get_def split: option.splits)
  show "sid \<in> set (sc_ids_to_delete sc') \<and> sc_session_id sc' \<noteq> Some sid
      \<or> sc_session sc' = [] \<and> sc_session_id sc' = Some sid \<and> sid \<noteq> []"
    using sc' sc1(1) other assms(2) by (auto simp: activate_parked_session_def Let_def split: option.splits)
qed

lemma write_session_view:
  assumes "write_session R age f i payload s = (r, t)"
  shows "view t = view s \<and> r = Not_Saved
         \<or> view t = put_key (session_redis_key i) (RString payload, lifetime age) (view s)
           \<and> \<not> bad_expiry age \<and> (r = Saved \<longleftrightarrow> f = Delivered)"
proof -
  let ?cmd = "\<lambda>c. redis_call f (rc_set c (session_redis_key i) payload age False)"
  obtain a where call: "?cmd R s = (a, t)" and r: "r = (case a of Inl _ \<Rightarrow> Not_Saved | Inr _ \<Rightarrow> Saved)"
    using assms by (cases "?cmd R s") (auto simp: write_session_def rtry_def split: sum.splits)
  have "?cmd ks_cmds (view s) = (a, view t)" unfolding ks_cmds_sel by (rule sim_step [OF sim_call [OF sim_set] call])
  then show ?thesis using r by (cases f) (auto split: if_splits)
qed

lemma save_if_unchanged_view:
  assumes "save_session_if_unchanged io R age i payload d s = (r, t)"
    and "\<And>s. view (co_between io s) = other (view s)"
    and "\<not> co_conflict io \<Longrightarrow> ks_data (other (view s)) (session_redis_key i) = ks_data (view s) (session_redis_key i)"
  shows "view t \<in> {view s, other (view s)} \<and> r \<noteq> Saved
         \<or> (\<exists>cur. stored_session i (other (view s)) = Some cur \<and> json_eq (JObj cur) (JObj d) \<and>
              view t = put_key (session_redis_key i) (RString payload, lifetime age) (other (view s)))"
proof (cases "co_can_watch io")
  case False
  with assms(1) show ?thesis by (simp add: save_session_if_unchanged_def)
next
  case True
  obtain a u where get: "redis_call (co_get io) (rc_get R (session_redis_key i)) s = (a, u)" by fastforce
  have ks: "redis_call (co_get io) (ks_get (session_redis_key i)) (view s) = (a, view u)"
    by (rule sim_step [OF sim_call [OF sim_get] get])
  then have u: "view u = view s" by (cases "co_get io") (auto split: option.splits rval.splits)
  have st: "stored_session i (view s) = decode_session p" if "a = Inr p" for p
    using ks that by (cases "co_get io") (auto simp: stored_session_def split: option.splits rval.splits)
  show ?thesis
  proof (cases "\<exists>p cur. a = Inr p \<and> decode_session p = Some cur \<and> json_eq (JObj cur) (JObj d) \<and> \<not> co_conflict io")
    case True
    then obtain p cur where p: "a = Inr p" "decode_session p = Some cur" "json_eq (JObj cur) (JObj d)" "\<not> co_conflict io"
      by blast
    have w: "write_session R age (co_set io) i payload (co_between io u) = (r, t)"
      using assms(1) \<open>co_can_watch io\<close> get p by (simp add: save_session_if_unchanged_def Let_def)
    have "stored_session i (other (view s)) = Some cur"
      using st [OF p(1)] p(2) assms(3) [OF p(4)] by (simp add: stored_session_def)
    with write_session_view [OF w] p(3) assms(2) u show ?thesis by auto
  next
    case False
    with assms(1) \<open>co_can_watch io\<close> get u assms(2) show ?thesis
      by (auto simp: save_session_if_unchanged_def Let_def split: sum.splits option.splits if_splits)
  qed
qed

lemma restored_commit:
  assumes "sc_restore_status sc = Session_Restored" and "sc_session_id sc = Some sid" and "sid \<noteq> []"
    and "sc_original_id sc = Some sid" and "sc_original_data sc = Some d" and "sc_ids_to_delete sc = []"
    and "sc_session sc \<noteq> []" and "dict_get PARKED_SESSION_FLAG (sc_session sc) \<noteq> JBool True"
    and "co_client io = Some R"
  obtains age r t where
    "save_session_if_unchanged io R (mw_max_age mw) sid (dumps (JObj (sc_session sc))) d s = (r, t)"
    "commit_session mw io sc s = (commit_saved mw age sid (sc\<lparr>sc_session_id := Some sid, sc_ids_to_delete := []\<rparr>) r, t)"
proof -
  obtain r t where run: "save_session_if_unchanged io R (mw_max_age mw) sid (dumps (JObj (sc_session sc))) d s = (r, t)"
    by fastforce
  from assms run show thesis
    by (intro that [OF run]) (simp add: commit_session_def commit_nonempty_def save_session_def Let_def)
qed

lemma sign_out_then_gone:
  assumes "request_at n st = Some sc" and "sc_session_id sc = Some sid" and "sid \<noteq> []"
    and "sc_restore_status sc = Session_Restored" and "client \<in> {None, Some R}"
    and "commit_io_ok R view sid io" and "\<And>i. co_delete io i = (Some R, Delivered)"
    and "\<And>m sc'. m \<noteq> n \<Longrightarrow> request_at m st = Some sc' \<Longrightarrow> harmless sid sc'"
  shows "gone sid view (fold (session_step mw users) [Sign_Out_Op n client fs, Commit_Op n io] st)"
proof -
  obtain b sc1 t where so: "sign_out_current_account users client fs sc (ss_redis st) = ((b, sc1), t)"
    by (metis prod.collapse)
  have n: "n < length (ss_requests st)" using assms(1) by (simp add: request_at_def split: if_splits)
  have run: "fold (session_step mw users) [Sign_Out_Op n client fs, Commit_Op n io] st =
      st\<lparr>ss_redis := snd (commit mw io sc1 t), ss_requests := (ss_requests st)[n := None]\<rparr>"
    using assms(1) so n by (simp add: on_request_def request_at_def)
  have "harmless sid sc'" if req: "Some sc' \<in> set ((ss_requests st)[n := None])" for sc'
  proof -
    obtain m where m: "m < length (ss_requests st)" "(ss_requests st)[n := None] ! m = Some sc'"
      using req by (auto simp: in_set_conv_nth)
    then have "m \<noteq> n" by (metis n nth_list_update_eq option.distinct(1))
    with m assms(8) [of m] show ?thesis by (simp add: request_at_def)
  qed
  with sign_out_commit_absent [OF assms(2-5) so assms(6,7)] show ?thesis
    unfolding run by (simp add: gone_def)
qed

lemma begin_absent:
  assumes "fst (begin_request mw True path cookies (Some R) Delivered csrf s) = Some sc"
    and "sc_session_id sc = Some sid" and "absent sid (view s)"
  shows "sc_session sc = [(CSRF_SESSION_KEY, JStr csrf)]"
proof -
  obtain data i status t where rs: "restore_session (Some R) Delivered (load_cookie_state mw cookies) s = ((data, i, status), t)"
    by (metis prod.collapse)
  have i: "i = Some sid" using assms(1,2) rs by (auto simp: begin_request_def Let_def split: if_splits)
  have "data = []" if "status = Session_Missing"
    using rs that by (auto simp: restore_session_def Let_def
        split: option.splits if_splits json.splits list.splits prod.splits sum.splits)
  with restore_delivered(2) [OF rs i assms(3)] show ?thesis
    using assms(1) rs by (auto simp: begin_request_def Let_def split: if_splits)
qed

lemma save_unconditional:
  assumes "co_client io = Some R" and "co_set io = Delivered" and "\<not> bad_expiry (mw_max_age mw)"
    and "save_session mw io i d None s = (r, t)"
  shows "r = Saved" and "view t = put_key (session_redis_key i) (RString (dumps (JObj d)), lifetime (mw_max_age mw)) (view s)"
proof -
  have "write_session R (mw_max_age mw) Delivered i (dumps (JObj d)) s = (r, t)"
    using assms by (simp add: save_session_def Let_def)
  moreover have "r \<noteq> Not_Saved"
    using calculation assms(3) simD [OF sim_set, of "session_redis_key i" "dumps (JObj d)" "mw_max_age mw" False s]
    by (auto simp: write_session_def rtry_def simp del: dumps.simps split: sum.splits prod.splits)
  ultimately show "r = Saved" "view t = put_key (session_redis_key i) (RString (dumps (JObj d)), lifetime (mw_max_age mw)) (view s)"
    using write_session_view [OF \<open>write_session R _ Delivered i _ s = _\<close>] by auto
qed

text \<open>Whatever way a commit took: when it hands out a cookie that is not cleared, the session was written.\<close>

lemma save_session_saved:
  assumes "co_client io = Some R" and "save_session mw io i d orig s = (Saved, t)"
  obtains k where "view t = put_key (session_redis_key i) (RString (dumps (JObj d)), lifetime (mw_max_age mw)) k"
    "\<not> bad_expiry (mw_max_age mw)"
proof (cases orig)
  case None
  then have "write_session R (mw_max_age mw) (co_set io) i (dumps (JObj d)) s = (Saved, t)"
    using assms by (simp add: save_session_def Let_def)
  from write_session_view [OF this] show thesis by (auto intro: that)
next
  case (Some d0)
  then have "\<exists>u. write_session R (mw_max_age mw) (co_set io) i (dumps (JObj d)) u = (Saved, t)"
    using assms by (auto simp: save_session_def save_session_if_unchanged_def Let_def simp del: dumps.simps
        split: if_splits sum.splits option.splits prod.splits)
  then obtain u where "write_session R (mw_max_age mw) (co_set io) i (dumps (JObj d)) u = (Saved, t)" by blast
  from write_session_view [OF this] show thesis by (auto intro: that)
qed

lemma commit_nonempty_saved:
  assumes "commit_nonempty mw io sc s = ((sc', cookies), s')" and "c \<in> set cookies" and "ck_max_age c \<noteq> Some 0"
    and "co_client io = Some R" and "co_token io \<noteq> []"
  obtains i k where "i \<noteq> []" "sc_session_id sc' = Some i"
    "ck_value c = sz_dumps (mw_serializer mw) (JObj [(''backend'', JStr REDIS_BACKEND), (''id'', JStr i)])"
    "view s' = put_key (session_redis_key i) (RString (dumps (JObj (sc_session sc))), lifetime (mw_max_age mw)) k"
    "\<not> bad_expiry (mw_max_age mw)"
proof -
  define i where "i = (case usable_id (sc_session_id sc) of Some i \<Rightarrow> i | None \<Rightarrow> co_token io)"
  define orig where "orig = (if sc_restore_status sc = Session_Restored \<and> Some i = sc_original_id sc
    \<and> sc_ids_to_delete sc = [] then sc_original_data sc else None)"
  define age where "age = (if dict_get ''_permanent'' (sc_session sc) = JBool True then mw_max_age mw else None)"
  obtain r t where save: "save_session mw io i (sc_session sc) orig
      (delete_sessions (co_delete io) (filter (\<lambda>j. j \<noteq> i) (sc_ids_to_delete sc)) s) = (r, t)" by fastforce
  have com: "commit_saved mw age i (sc\<lparr>sc_session_id := Some i, sc_ids_to_delete := []\<rparr>) r = (sc', cookies)" "s' = t"
    using assms(1) save unfolding commit_nonempty_def Let_def i_def [symmetric] orig_def [symmetric] age_def [symmetric]
    by simp_all
  have r: "r = Saved" using com(1) assms(2,3) by (cases r) (auto simp: commit_saved_def set_cookie_def)
  obtain k where "view t = put_key (session_redis_key i) (RString (dumps (JObj (sc_session sc))), lifetime (mw_max_age mw)) k"
    "\<not> bad_expiry (mw_max_age mw)"
    by (rule save_session_saved [OF assms(4) save [unfolded r]])
  moreover have "i \<noteq> []" using assms(5) unfolding i_def by (auto split: option.splits)
  ultimately show thesis
    using that com r assms(2) by (auto simp: commit_saved_def set_cookie_def simp del: dumps.simps)
qed

lemma commit_session_saved:
  assumes "commit_session mw io sc s = ((sc', cookies), s')" and "c \<in> set cookies" and "ck_max_age c \<noteq> Some 0"
    and "co_client io = Some R" and "co_token io \<noteq> []"
  obtains i k where "i \<noteq> []" "sc_session_id sc' = Some i"
    "ck_value c = sz_dumps (mw_serializer mw) (JObj [(''backend'', JStr REDIS_BACKEND), (''id'', JStr i)])"
    "view s' = put_key (session_redis_key i) (RString (dumps (JObj (sc_session sc))), lifetime (mw_max_age mw)) k"
    "\<not> bad_expiry (mw_max_age mw)"
proof -
  have "sc_session sc \<noteq> []"
    using assms(1-3) by (auto simp: commit_session_def Let_def set_cookie_def split: if_splits)
  then consider "commit_nonempty mw io sc s = ((sc', cookies), s')"
    | "commit_nonempty mw io (sc\<lparr>sc_session_id := None\<rparr>) s = ((sc', cookies), s')"
    using assms(1,2) by (auto simp: commit_session_def Let_def split: if_splits)
  then show thesis
  proof cases
    case 1
    show thesis by (rule commit_nonempty_saved [OF 1 assms(2-5)]) (rule that)
  next
    case 2
    show thesis by (rule commit_nonempty_saved [OF 2 assms(2-5)]) (rule that, simp_all)
  qed
qed

lemma sim_back: "sim view m m' \<Longrightarrow> m' (view s) = (r, k) \<Longrightarrow> \<exists>t. m s = (r, t) \<and> view t = k"
  using simD [of view m m' s] by (cases "m s") auto

lemma delete_session_view:
  "view (delete_session (Some R, Delivered) i s) = drop_key (session_redis_key i) (view s)"
  using simD [OF sim_del, of "session_redis_key i" s] by (simp add: delete_session_def) (metis ks_del.simps snd_apsnd snd_conv)

end

section \<open>Signing in\<close>

abbreviation sign_in_keys :: "string set" where
  "sign_in_keys \<equiv> {''user_id'', ''user_email'', ''preferred_locale'', ''_preferred_locale_loaded'', ''_permanent''}"

lemma map_of_signed_in:
  "map_of (signed_in_session u e l d) ''user_id'' = Some (JInt u)"
  "k \<notin> sign_in_keys \<Longrightarrow> map_of (signed_in_session u e l d) k = map_of d k"
  by (auto simp: signed_in_session_def set_session_permanent_def Let_def update_conv' delete_conv' split: option.splits)

lemma signed_in_keys:
  assumes "k \<in> fst ` set (signed_in_session u e l d)"
  shows "k \<in> sign_in_keys \<or> k \<in> fst ` set d"
proof (rule ccontr)
  assume "\<not> ?thesis"
  then have "map_of (signed_in_session u e l d) k = None" by (simp add: map_of_signed_in map_of_eq_None_iff)
  with assms show False by (simp add: map_of_eq_None_iff)
qed

lemma signed_in_nonempty: "signed_in_session u e l d \<noteq> []"
  using map_of_signed_in(1) [of u e l d] by auto

section \<open>The properties\<close>

text \<open>A browser with one account for the witnesses; cookies are signed by writing them as JSON.\<close>

definition demo_middleware :: middleware where
  "demo_middleware =
     \<lparr>mw_session_cookie = ''session'', mw_max_age = Some 3600, mw_path = ''/'', mw_same_site = ''lax'',
      mw_https_only = True, mw_bypass_paths = [], mw_serializer = \<lparr>sz_dumps = dumps, sz_loads = loads\<rparr>,
      mw_parked_serializer = \<lparr>sz_dumps = dumps, sz_loads = loads\<rparr>\<rparr>"

definition demo_session :: dict where
  "demo_session = [(''csrf_token'', JStr ''t''), (''user_id'', JInt 1)]"

definition demo_store :: keyspace where
  "demo_store = put_key (session_redis_key ''a'') (RString (dumps (JObj demo_session)), None) empty_keyspace"

definition demo_scope :: scope where
  "demo_scope =
     \<lparr>sc_session = demo_session, sc_session_id = Some ''a'', sc_restore_status = Session_Restored,
      sc_original_data = Some demo_session, sc_original_id = Some ''a'', sc_parked_ids = [], sc_parked_original = [],
      sc_ids_to_delete = []\<rparr>"

definition demo_io :: "keyspace commit_io" where
  "demo_io =
     \<lparr>co_delete = (\<lambda>_. (Some ks_cmds, Delivered)), co_client = Some ks_cmds, co_can_watch = True, co_get = Delivered,
      co_between = id, co_conflict = False, co_set = Delivered, co_token = ''n'',
      co_settle = \<lparr>se_client = Some ks_cmds, se_read = (\<lambda>_. (Delivered, Delivered)), se_drop = (\<lambda>_. Delivered),
                   se_mark = (\<lambda>_. Delivered)\<rparr>\<rparr>"

lemmas demo_defs = demo_scope_def demo_io_def demo_middleware_def

lemma demo_io_ok: "sid \<noteq> ''n'' \<Longrightarrow> commit_io_ok ks_cmds id sid demo_io"
  by (simp add: commit_io_ok_def demo_io_def)

lemma demo_session_ok: "json_ok (JObj demo_session)"
  by code_simp

lemma demo_stored: "stored_session ''a'' demo_store = Some demo_session"
  using decode_dumps [OF demo_session_ok] by (simp add: stored_session_def demo_store_def del: dumps.simps)

text \<open>
  C4: signing out is final, for requests restored from their own cookie and while Redis can be read.
  A request signs its account out and the deletions of its commit reach Redis.  Every other request in
  flight at that moment is harmless: it holds another session, or it holds this one because it was
  restored from it (or found no record).  This leaves out a request that had already switched to the
  session from another account, whose commit saves unconditionally, and one whose restoration failed
  because Redis was unreachable.  Later requests may begin (reading Redis successfully), change their
  session, sign in, sign out, switch accounts and commit, in any order and with any loss of the commits'
  requests; new session ids differ from the old one, and nothing but these requests writes its record.  Then the session stays gone, and a request with the old cookie finds an empty session that
  only holds a fresh CSRF token.
\<close>

theorem signed_out_stays_out:
  assumes "redis_server R view elapse"
    and "request_at n st = Some sc" and "sc_session_id sc = Some sid" and "sid \<noteq> []"
    and "sc_restore_status sc = Session_Restored" and "client \<in> {None, Some R}"
    and "commit_io_ok R view sid io" and "\<And>i. co_delete io i = (Some R, Delivered)"
    and "\<And>m sc'. m \<noteq> n \<Longrightarrow> request_at m st = Some sc' \<Longrightarrow> harmless sid sc'"
    and "list_all (session_op_ok R view sid) ops"
    and "st' = fold (session_step mw users) (Sign_Out_Op n client fs # Commit_Op n io # ops) st"
  shows "stored_session sid (view (ss_redis st')) = None \<and>
         (fst (begin_request mw True path cookies (Some R) Delivered csrf (ss_redis st')) = Some sc' \<longrightarrow>
          sc_session_id sc' = Some sid \<longrightarrow> sc_session sc' = [(CSRF_SESSION_KEY, JStr csrf)])"
proof -
  note gone = redis_server.session_run_gone [OF assms(1) redis_server.sign_out_then_gone [OF assms(1-9)] assms(10)]
  then have "absent sid (view (ss_redis st'))" unfolding assms(11) by (simp add: gone_def)
  with redis_server.begin_absent [OF assms(1)] show ?thesis by (auto simp: absent_stored)
qed

theorem signed_out_stays_out_witness:
  "stored_session ''a'' demo_store = Some demo_session \<and>
   stored_session ''a'' (ss_redis (fold (session_step demo_middleware (\<lambda>_. True))
     [Sign_Out_Op 0 (Some ks_cmds) (\<lambda>_. (Delivered, Delivered)), Commit_Op 0 demo_io, Commit_Op 1 demo_io]
     \<lparr>ss_redis = demo_store, ss_requests = [Some demo_scope, Some demo_scope]\<rparr>)) = None"
proof -
  let ?st = "\<lparr>ss_redis = demo_store, ss_requests = [Some demo_scope, Some demo_scope]\<rparr>"
  have "request_at 0 ?st = Some demo_scope" "sc_session_id demo_scope = Some ''a''" "''a'' \<noteq> []"
    "sc_restore_status demo_scope = Session_Restored" "Some ks_cmds \<in> {None, Some ks_cmds}"
    by (simp_all add: request_at_def demo_scope_def)
  note s = this
  have d: "co_delete demo_io i = (Some ks_cmds, Delivered)" for i by (simp add: demo_io_def)
  have h: "harmless ''a'' sc'" if "m \<noteq> 0" "request_at m ?st = Some sc'" for m sc'
    using that by (auto simp: request_at_def harmless_def demo_scope_def nth_Cons split: if_splits nat.splits)
  have "list_all (session_op_ok ks_cmds id ''a'') [Commit_Op 1 demo_io]" using demo_io_ok [of "''a''"] by simp
  from signed_out_stays_out [OF reference_server.redis_server_axioms s demo_io_ok d h this refl] demo_stored
  show ?thesis by simp
qed

text \<open>
  No commit overwrites a newer state.  A request that was restored from a session writes that
  session's record only if, at the moment of writing, the record still equals what the request was
  restored from (as Python compares dictionaries); in every other case its commit leaves Redis alone
  and hands out no cookie that points at a session.  \<open>other\<close> is what other clients do between the
  reading and \<open>EXEC\<close>; a key they changed is reported as a conflict.
\<close>

theorem commit_keeps_newer:
  assumes "redis_server R view elapse" and "co_client io = Some R"
    and "sc_restore_status sc = Session_Restored" and "sc_session_id sc = Some sid" and "sid \<noteq> []"
    and "sc_original_id sc = Some sid" and "sc_original_data sc = Some d" and "sc_ids_to_delete sc = []"
    and "sc_session sc \<noteq> []"
    and "\<And>s. view (co_between io s) = other (view s)"
    and "\<not> co_conflict io \<Longrightarrow> ks_data (other (view s)) (session_redis_key sid) = ks_data (view s) (session_redis_key sid)"
    and "commit_session mw io sc s = ((sc', cookies), s')"
  shows "view s' \<in> {view s, other (view s)} \<and> list_all (\<lambda>c. ck_value c = []) cookies
    \<or> (\<exists>cur. stored_session sid (other (view s)) = Some cur \<and> json_eq (JObj cur) (JObj d) \<and>
         view s' = put_key (session_redis_key sid) (RString (dumps (JObj (sc_session sc))), lifetime (mw_max_age mw))
                     (other (view s)))"
proof (cases "dict_get PARKED_SESSION_FLAG (sc_session sc) = JBool True")
  case True
  with assms(12) show ?thesis by (simp add: commit_session_def)
next
  case False
  obtain age r t where save:
    "save_session_if_unchanged io R (mw_max_age mw) sid (dumps (JObj (sc_session sc))) d s = (r, t)"
    "commit_session mw io sc s = (commit_saved mw age sid (sc\<lparr>sc_session_id := Some sid, sc_ids_to_delete := []\<rparr>) r, t)"
    by (rule redis_server.restored_commit [OF assms(1,3-9) False assms(2)])
  have "list_all (\<lambda>c. ck_value c = []) cookies" if "r \<noteq> Saved"
    using that save(2) assms(12) by (cases r) (auto simp: commit_saved_def set_cookie_def)
  with redis_server.save_if_unchanged_view [OF assms(1) save(1) assms(10,11)] save(2) assms(12) show ?thesis
    by (auto simp del: dumps.simps)
qed

theorem commit_keeps_newer_witness:
  "commit_session demo_middleware demo_io demo_scope demo_store =
     (fst (commit_session demo_middleware demo_io demo_scope demo_store),
      snd (commit_session demo_middleware demo_io demo_scope demo_store)) \<and>
   (snd (commit_session demo_middleware demo_io demo_scope demo_store) = demo_store
    \<or> snd (commit_session demo_middleware demo_io demo_scope demo_store) =
        put_key (session_redis_key ''a'') (RString (dumps (JObj demo_session)), Some (second * 3600)) demo_store)"
proof -
  obtain sc' cookies s' where com: "commit_session demo_middleware demo_io demo_scope demo_store = ((sc', cookies), s')"
    by (metis prod.collapse)
  have "sc_restore_status demo_scope = Session_Restored" "sc_session_id demo_scope = Some ''a''" "''a'' \<noteq> []"
    "sc_original_id demo_scope = Some ''a''" "sc_original_data demo_scope = Some demo_session"
    "sc_ids_to_delete demo_scope = []" "sc_session demo_scope \<noteq> []"
    by (simp_all add: demo_scope_def demo_session_def)
  note s = this
  have "co_client demo_io = Some ks_cmds" "\<And>s. id (co_between demo_io s) = id (id s)" by (simp_all add: demo_io_def)
  from commit_keeps_newer [OF reference_server.redis_server_axioms this(1) s this(2) _ com] com show ?thesis
    by (auto simp: demo_scope_def demo_middleware_def lifetime_def simp del: dumps.simps)
qed

text \<open>
  What is saved is restored.  When a commit hands out a session cookie, the next request that brings
  this cookie within the configured lifetime has exactly the session that was committed, under the
  same id.  \<open>sz_loads\<close> reads what \<open>sz_dumps\<close> signed.
\<close>

theorem session_restored_as_saved:
  assumes "redis_server R view elapse" and "\<And>v. json_ok v \<Longrightarrow> sz_loads (mw_serializer mw) (sz_dumps (mw_serializer mw) v) = Some v"
    and "json_ok (JObj (sc_session sc))" and "co_client io = Some R" and "co_token io \<noteq> []"
    and "commit_session mw io sc s = ((sc', cookies), s')" and "c \<in> set cookies" and "ck_max_age c \<noteq> Some 0"
    and "\<And>a. mw_max_age mw = Some a \<Longrightarrow> d < second * a"
    and "browser (mw_session_cookie mw) = Some (ck_value c)" and "path \<notin> set (mw_bypass_paths mw)"
  shows "\<exists>sc2 s2. begin_request mw True path browser (Some R) Delivered csrf (elapse d s') = (Some sc2, s2) \<and>
    sc_restore_status sc2 = Session_Restored \<and> sc_session_id sc2 = sc_session_id sc' \<and>
    sc_original_data sc2 = Some (sc_session sc) \<and>
    (map_of (sc_session sc) CSRF_SESSION_KEY \<noteq> None \<longrightarrow> sc_session sc2 = sc_session sc)"
proof -
  obtain i k where i: "i \<noteq> []" "sc_session_id sc' = Some i"
    "ck_value c = sz_dumps (mw_serializer mw) (JObj [(''backend'', JStr REDIS_BACKEND), (''id'', JStr i)])"
    "view s' = put_key (session_redis_key i) (RString (dumps (JObj (sc_session sc))), lifetime (mw_max_age mw)) k"
    by (rule redis_server.commit_session_saved [OF assms(1,6-8,4,5)])
  let ?s = "elapse d s'"
  have "\<exists>e. ks_data (view ?s) (session_redis_key i) = Some (RString (dumps (JObj (sc_session sc))), e)"
    using i(4) assms(9) unfolding redis_server.view_elapse [OF assms(1)]
    by (cases "mw_max_age mw") (auto simp: lifetime_def simp del: dumps.simps)
  then have stored: "stored_session i (view ?s) = Some (sc_session sc)"
    using decode_dumps [OF assms(3)] by (auto simp: stored_session_def simp del: dumps.simps)
  have state: "load_cookie_state mw browser = Some [(''backend'', JStr REDIS_BACKEND), (''id'', JStr i)]"
    using assms(2,10) i(3) by (simp add: load_cookie_state_def dict_get_def)
  obtain data j status t where rs: "restore_session (Some R) Delivered (load_cookie_state mw browser) ?s = ((data, j, status), t)"
    by (metis prod.collapse)
  have j: "j = Some i"
    using rs i(1) unfolding state
    by (cases i) (auto simp: restore_session_def dict_get_def Let_def split: sum.splits option.splits prod.splits)
  from redis_server.restore_delivered(3) [OF assms(1) rs j stored] show ?thesis
    using rs j i(2) assms(11) by (auto simp: begin_request_def Let_def)
qed

theorem session_restored_as_saved_witness:
  "\<exists>c \<in> set (snd (fst (commit_session demo_middleware demo_io demo_scope demo_store))).
     map_option (\<lambda>sc. (sc_session_id sc, sc_original_data sc))
       (fst (begin_request demo_middleware True ''/'' (Map.empty(''session'' \<mapsto> ck_value c)) (Some ks_cmds) Delivered ''x''
          (ks_elapse second (snd (commit_session demo_middleware demo_io demo_scope demo_store)))))
     = Some (Some ''a'', Some demo_session)"
proof -
  obtain sc' cookies s' where com: "commit_session demo_middleware demo_io demo_scope demo_store = ((sc', cookies), s')"
    by (metis prod.collapse)
  have "map ck_max_age (snd (fst (commit_session demo_middleware demo_io demo_scope demo_store))) = [None]"
    "sc_session_id (fst (fst (commit_session demo_middleware demo_io demo_scope demo_store))) = Some ''a''" by code_simp+
  then obtain c where c: "c \<in> set cookies" "ck_max_age c \<noteq> Some 0" "sc_session_id sc' = Some ''a''" using com by (cases cookies) auto
  have law: "sz_loads (mw_serializer demo_middleware) (sz_dumps (mw_serializer demo_middleware) v) = Some v" if "json_ok v" for v
    using loads_dumps_lemma [OF that] by (simp add: demo_middleware_def)
  have "json_ok (JObj (sc_session demo_scope))" "co_client demo_io = Some ks_cmds" "co_token demo_io \<noteq> []"
    using demo_session_ok by (simp_all add: demo_scope_def demo_io_def del: json_ok.simps)
  moreover have "mw_max_age demo_middleware = Some a \<Longrightarrow> second < second * a" for a by (simp add: demo_middleware_def)
  moreover have "(Map.empty(''session'' \<mapsto> ck_value c)) (mw_session_cookie demo_middleware) = Some (ck_value c)"
    "''/'' \<notin> set (mw_bypass_paths demo_middleware)" by (simp_all add: demo_middleware_def)
  ultimately obtain sc2 s2 where "begin_request demo_middleware True ''/'' (Map.empty(''session'' \<mapsto> ck_value c)) (Some ks_cmds)
      Delivered ''x'' (ks_elapse second s') = (Some sc2, s2)" "sc_session_id sc2 = sc_session_id sc'"
      "sc_original_data sc2 = Some (sc_session demo_scope)"
    using session_restored_as_saved [OF reference_server.redis_server_axioms law _ _ _ com c(1,2)] by blast
  then show ?thesis using com c(1,3) by (intro bexI [of _ c]) (simp_all add: demo_scope_def)
qed

text \<open>
  A parked session stays parked.  A request that was restored from a session which has been parked
  since (its record carries the marker) changes neither Redis nor the browser's session cookie, so it
  cannot turn the browser back to the account that was switched from.
\<close>

theorem parked_session_stays_parked:
  assumes "redis_server R view elapse" and "co_client io = Some R" and "co_can_watch io" and "co_get io = Delivered"
    and "sc_restore_status sc = Session_Restored" and "sc_session_id sc = Some sid" and "sid \<noteq> []"
    and "sc_original_id sc = Some sid" and "sc_original_data sc = Some d" and "sc_ids_to_delete sc = []"
    and "sc_session sc \<noteq> []"
    and "stored_session sid (view s) = Some cur" and "dict_get PARKED_SESSION_FLAG cur = JBool True"
    and "map_of d PARKED_SESSION_FLAG = None \<or> dict_get PARKED_SESSION_FLAG (sc_session sc) = JBool True"
    and "commit_session mw io sc s = ((sc', cookies), s')"
  shows "cookies = [] \<and> view s' = view s"
proof (cases "dict_get PARKED_SESSION_FLAG (sc_session sc) = JBool True")
  case True
  with assms(15) show ?thesis by (simp add: commit_session_def)
next
  case False
  obtain age r t where save:
    "save_session_if_unchanged io R (mw_max_age mw) sid (dumps (JObj (sc_session sc))) d s = (r, t)"
    "commit_session mw io sc s = (commit_saved mw age sid (sc\<lparr>sc_session_id := Some sid, sc_ids_to_delete := []\<rparr>) r, t)"
    by (rule redis_server.restored_commit [OF assms(1,5-11) False assms(2)])
  have "\<not> json_eq (JObj cur) (JObj d)"
    using json_eq_member [of cur d PARKED_SESSION_FLAG] dict_get_Some [OF assms(13)] assms(14) False by auto
  moreover obtain a u where get: "rc_get R (session_redis_key sid) s = (a, u)" by fastforce
  moreover note v = redis_server.get_view [OF assms(1) get]
  moreover obtain body where "a = Inr (Some body)" "decode_session (Some body) = Some cur"
    using v(2) assms(12) by (auto simp: stored_session_def split: option.splits rval.splits)
  ultimately have "r = Conflicted" "t = u"
    using save(1) assms(3,4) by (simp_all add: save_session_if_unchanged_def)
  then show ?thesis using save(2) assms(15) v(1) by (simp add: commit_saved_def)
qed

theorem parked_session_stays_parked_witness:
  "commit_session demo_middleware demo_io demo_scope
     (put_key (session_redis_key ''a'') (RString (parked_payload demo_session), None) demo_store) =
   ((fst (fst (commit_session demo_middleware demo_io demo_scope
     (put_key (session_redis_key ''a'') (RString (parked_payload demo_session), None) demo_store))), []),
    put_key (session_redis_key ''a'') (RString (parked_payload demo_session), None) demo_store)"
proof -
  let ?s = "put_key (session_redis_key ''a'') (RString (parked_payload demo_session), None) demo_store"
  let ?cur = "AList.update PARKED_SESSION_FLAG (JBool True) demo_session"
  have "co_client demo_io = Some ks_cmds" "co_can_watch demo_io" "co_get demo_io = Delivered"
    "sc_restore_status demo_scope = Session_Restored" "sc_session_id demo_scope = Some ''a''" "''a'' \<noteq> []"
    "sc_original_id demo_scope = Some ''a''" "sc_original_data demo_scope = Some demo_session"
    "sc_ids_to_delete demo_scope = []" "sc_session demo_scope \<noteq> []"
    by (simp_all add: demo_scope_def demo_io_def demo_session_def)
  moreover have "json_ok (JObj ?cur)" "dict_get PARKED_SESSION_FLAG ?cur = JBool True"
    "map_of demo_session PARKED_SESSION_FLAG = None" by code_simp+
  moreover from this(1) have "stored_session ''a'' (id ?s) = Some ?cur"
    using decode_dumps [of ?cur] by (simp add: stored_session_def parked_payload_def del: dumps.simps json_ok.simps)
  moreover obtain sc' cookies s' where com: "commit_session demo_middleware demo_io demo_scope ?s = ((sc', cookies), s')"
    by (metis prod.collapse)
  ultimately have "cookies = [] \<and> id s' = id ?s"
    using parked_session_stays_parked [OF reference_server.redis_server_axioms] by blast
  with com show ?thesis by simp
qed

text \<open>
  C40: an outage at the start of a request can erase a session.  A request that begins while Redis cannot be
  reached keeps the id of its cookie with an empty session; when Redis answers again by the time of
  the commit, the record of that id, whatever it held, is replaced by a session that holds only a
  CSRF token: the account is signed out.
\<close>

theorem outage_erases_session:
  assumes "redis_server R view elapse"
    and "load_cookie_state mw browser = Some [(''backend'', JStr REDIS_BACKEND), (''id'', JStr sid)]" and "sid \<noteq> []"
    and "begin_request mw True path browser None f csrf s = (Some sc, s1)"
    and "co_client io = Some R" and "co_set io = Delivered" and "\<not> bad_expiry (mw_max_age mw)"
  shows "stored_session sid (view (snd (commit mw io sc s1))) = Some [(CSRF_SESSION_KEY, JStr csrf)]"
proof -
  let ?d = "[(CSRF_SESSION_KEY, JStr csrf)]"
  have sc: "sc_session sc = ?d" "sc_session_id sc = Some sid" "sc_restore_status sc = Redis_Unavailable"
    "sc_ids_to_delete sc = []" "sc_parked_ids sc = sc_parked_original sc"
    using assms(2-4) by (cases sid; auto simp: begin_request_def restore_session_def dict_get_def Let_def split: if_splits)+
  obtain r t where save: "save_session mw io sid ?d None s1 = (r, t)" by fastforce
  note sv = redis_server.save_unconditional [OF assms(1,5-7) save]
  have flag: "dict_get PARKED_SESSION_FLAG ?d = JNull"
    by (simp add: dict_get_def PARKED_SESSION_FLAG_def CSRF_SESSION_KEY_def)
  have "snd (commit_session mw io sc s1) = t" and "\<exists>sc' cs. fst (commit_session mw io sc s1) = (sc', cs) \<and>
      sc_parked_ids sc' = sc_parked_original sc'"
    using sc assms(3) save flag sv(1)
    by (auto simp: commit_session_def commit_nonempty_def commit_saved_def Let_def)
  then have "snd (commit mw io sc s1) = t"
    by (cases "commit_session mw io sc s1") (auto simp: commit_def commit_parked_session_ids_def)
  moreover have "json_ok (JObj ?d)" by simp
  ultimately show ?thesis
    using sv(2) decode_dumps [of ?d] by (simp add: stored_session_def del: dumps.simps)
qed

theorem outage_erases_session_witness:
  "Option.bind (stored_session ''a'' demo_store) user_id_from_session = Some 1 \<and>
   (\<exists>sc. begin_request demo_middleware True ''/''
       (Map.empty(''session'' \<mapsto> dumps (JObj [(''backend'', JStr ''redis''), (''id'', JStr ''a'')]))) None Delivered ''x'' demo_store =
       (Some sc, demo_store) \<and>
     stored_session ''a'' (snd (commit demo_middleware demo_io sc demo_store)) = Some [(CSRF_SESSION_KEY, JStr ''x'')])"
proof -
  let ?b = "Map.empty(''session'' \<mapsto> dumps (JObj [(''backend'', JStr ''redis''), (''id'', JStr ''a'')]))"
  have state: "load_cookie_state demo_middleware ?b = Some [(''backend'', JStr REDIS_BACKEND), (''id'', JStr ''a'')]" by code_simp
  then obtain sc where b: "begin_request demo_middleware True ''/'' ?b None Delivered ''x'' demo_store = (Some sc, demo_store)"
    by (auto simp: begin_request_def restore_session_def dict_get_def demo_middleware_def Let_def simp del: dumps.simps)
  have "''a'' \<noteq> []" "co_client demo_io = Some ks_cmds" "co_set demo_io = Delivered" "\<not> bad_expiry (mw_max_age demo_middleware)"
    by (simp_all add: demo_io_def demo_middleware_def)
  with outage_erases_session [OF reference_server.redis_server_axioms state _ b]
  have "stored_session ''a'' (snd (commit demo_middleware demo_io sc demo_store)) = Some [(CSRF_SESSION_KEY, JStr ''x'')]" by simp
  moreover have "user_id_from_session demo_session = Some 1" by code_simp
  ultimately show ?thesis using b by (simp add: demo_stored)
qed

text \<open>
  The list of accounts is settled.  When a request parked a session and Redis answers, the list that
  goes into the cookie holds at most four sessions of different accounts, none of them the active
  one; a session that this request parked carries the marker; and every session that was in the list
  and is not any more is the active one or holds no account in Redis, so nothing signed in is left
  behind.
\<close>

theorem accounts_settled:
  assumes "redis_server R view elapse" and "se_client io = Some R" and "se_read io = (\<lambda>_. (Delivered, Delivered))"
    and "se_drop io = (\<lambda>_. Delivered)" and "se_mark io = (\<lambda>_. Delivered)" and "\<not> bad_expiry age"
    and "strings_only (view s)" and "distinct (sc_parked_ids sc)"
    and "i0 \<in> set (sc_parked_ids sc)" and "i0 \<notin> set (sc_parked_original sc)"
  shows "\<exists>ids s'. settle_parked_sessions io age sc s = (ids, s') \<and>
    length ids \<le> 4 \<and> set ids \<subseteq> set (sc_parked_ids sc) \<and> distinct (map (account_of (view s)) ids) \<and>
    None \<notin> set (map (account_of (view s)) ids) \<and>
    user_id_from_session (sc_session sc) \<notin> set (map (account_of (view s)) ids) \<and>
    (\<forall>i \<in> set ids - set (sc_parked_original sc). \<exists>d. stored_session i (view s) = Some d \<and>
       ks_data (view s') (session_redis_key i) = Some (RString (parked_payload d), lifetime age)) \<and>
    (\<forall>i \<in> set (sc_parked_ids sc) - set ids. Some i \<noteq> sc_session_id sc \<longrightarrow> account_of (view s') i = None)"
proof -
  define new where "new = filter (\<lambda>i. i \<notin> set (sc_parked_original sc)) (sc_parked_ids sc)"
  have "new \<noteq> []" using assms(9,10) by (auto simp: new_def filter_empty_conv)
  obtain ids k' where run:
    "settle_listed ks_cmds (\<lambda>_. (Delivered, Delivered)) (\<lambda>_. Delivered) (\<lambda>_. Delivered) age new sc (view s) = (Inr ids, k')"
    and facts: "length ids \<le> MAX_PARKED_SESSIONS" "set ids \<subseteq> set (sc_parked_ids sc)" "distinct (map (account_of (view s)) ids)"
    "None \<notin> set (map (account_of (view s)) ids)" "user_id_from_session (sc_session sc) \<notin> set (map (account_of (view s)) ids)"
    "\<And>i. i \<in> set ids \<Longrightarrow> i \<in> set new \<Longrightarrow> \<exists>d. stored_session i (view s) = Some d \<and>
       ks_data k' (session_redis_key i) = Some (RString (parked_payload d), lifetime age)"
    "\<And>i. i \<in> set (sc_parked_ids sc) \<Longrightarrow> i \<notin> set ids \<Longrightarrow> Some i \<noteq> sc_session_id sc \<Longrightarrow> account_of k' i = None"
    by (rule settle_listed_settled [OF assms(7,8,6), of new]) blast
  obtain t where t: "settle_listed R (\<lambda>_. (Delivered, Delivered)) (\<lambda>_. Delivered) (\<lambda>_. Delivered) age new sc s = (Inr ids, t)"
    "view t = k'"
    using redis_server.sim_back [OF assms(1) redis_server.sim_settle_listed [OF assms(1)] run] by blast
  have "settle_parked_sessions io age sc s = (ids, t)"
    using t(1) assms(2-5) \<open>new \<noteq> []\<close> unfolding settle_parked_sessions_def Let_def new_def [symmetric]
    by (simp add: rtry_def)
  moreover have "i \<in> set new" if "i \<in> set ids - set (sc_parked_original sc)" for i
    using that facts(2) by (auto simp: new_def)
  ultimately show ?thesis using facts t(2)
    by (intro exI [of _ ids] exI [of _ t]) (simp add: MAX_PARKED_SESSIONS_def)
qed

theorem accounts_settled_witness:
  "\<exists>ids s'. settle_parked_sessions (co_settle demo_io) (Some 3600) (demo_scope\<lparr>sc_session_id := Some ''b'',
       sc_session := [(''user_id'', JInt 2)], sc_parked_ids := [''a'']\<rparr>) demo_store = (ids, s') \<and>
     distinct (map (account_of demo_store) ids) \<and> Some 2 \<notin> set (map (account_of demo_store) ids)"
proof -
  let ?sc = "demo_scope\<lparr>sc_session_id := Some ''b'', sc_session := [(''user_id'', JInt 2)], sc_parked_ids := [''a'']\<rparr>"
  let ?io = "co_settle demo_io"
  have "se_client ?io = Some ks_cmds" "se_read ?io = (\<lambda>_. (Delivered, Delivered))" "se_drop ?io = (\<lambda>_. Delivered)"
    "se_mark ?io = (\<lambda>_. Delivered)" "\<not> bad_expiry (Some 3600)" by (simp_all add: demo_io_def)
  note io = this
  have "strings_only (id demo_store)" "distinct (sc_parked_ids ?sc)" "''a'' \<in> set (sc_parked_ids ?sc)"
    "''a'' \<notin> set (sc_parked_original ?sc)"
    by (auto simp: strings_only_def demo_store_def empty_keyspace_def demo_scope_def)
  from accounts_settled [OF reference_server.redis_server_axioms io this]
  have "\<exists>ids s'. settle_parked_sessions ?io (Some 3600) ?sc demo_store = (ids, s') \<and>
     distinct (map (account_of demo_store) ids) \<and> user_id_from_session (sc_session ?sc) \<notin> set (map (account_of demo_store) ids)"
    by (metis id_apply)
  moreover have "user_id_from_session (sc_session ?sc) = Some 2" by code_simp
  ultimately show ?thesis by simp
qed

text \<open>
  A sign-in changes the session id.  After a sign-in is committed, the browser is given a new id whose
  session belongs to the new account.  The record of the old id is gone; or, when another account was
  signed in, it is left as it was for that account and put at the head of the parked list, and nothing
  of its session is carried over but the CSRF token.
\<close>

theorem sign_in_changes_session_id:
  assumes "redis_server R view elapse" and "co_client io = Some R" and "co_set io = Delivered"
    and "\<not> bad_expiry (mw_max_age mw)" and "co_delete io 0 = (Some R, Delivered)" and "co_token io \<noteq> old"
    and "sc_session_id sc = Some old" and "old \<noteq> []" and "sc_restore_status sc = Session_Restored"
    and "sc_original_id sc = Some old" and "sc_ids_to_delete sc = []"
    and "dict_get PARKED_SESSION_FLAG (sc_session sc) \<noteq> JBool True"
    and "commit_session mw io (establish_authenticated_session user_id email lang sc) s = ((sc', cookies), s')"
  shows "sc_session_id sc' = Some (co_token io) \<and> user_id_from_session (sc_session sc') = Some user_id \<and>
    ks_data (view s') (session_redis_key (co_token io)) =
      Some (RString (dumps (JObj (sc_session sc'))), lifetime (mw_max_age mw)) \<and>
    (if user_id_from_session (sc_session sc) \<in> {None, Some user_id} then absent old (view s')
     else ks_data (view s') (session_redis_key old) = ks_data (view s) (session_redis_key old) \<and>
          hd (sc_parked_ids sc') = old \<and>
          fst ` set (sc_session sc') \<subseteq> insert CSRF_SESSION_KEY sign_in_keys)"
proof -
  define another where "another \<longleftrightarrow> user_id_from_session (sc_session sc) \<notin> {None, Some user_id}"
  define base where "base = (if another
    then (case map_of (sc_session sc) CSRF_SESSION_KEY of
            None \<Rightarrow> [] | Some JNull \<Rightarrow> [] | Some token \<Rightarrow> [(CSRF_SESSION_KEY, token)])
    else sc_session sc)"
  define sc1 where "sc1 = establish_authenticated_session user_id email lang sc"
  have current: "restorable_current_session_id sc = Some old" using assms(7-9) by simp
  have park: "park_current_session sc =
      (True, sc\<lparr>sc_parked_ids := old # filter (\<lambda>i. i \<noteq> old) (sc_parked_ids sc), sc_session_id := None\<rparr>)"
    unfolding park_current_session_def current by simp
  have sc1: "sc_session sc1 = signed_in_session user_id email lang base" "sc_session_id sc1 = None"
    "sc_restore_status sc1 = Session_Restored" "sc_original_id sc1 = Some old"
    "sc_ids_to_delete sc1 = (if another then [] else [old])" "another \<Longrightarrow> hd (sc_parked_ids sc1) = old"
    using assms(7-11) park
    by (auto simp: sc1_def base_def another_def establish_authenticated_session_def
        rotate_session_identifier_def Let_def split: option.splits prod.splits)
  have keys: "fst ` set base \<subseteq> {CSRF_SESSION_KEY}" if another
    using that unfolding base_def
    by (cases "map_of (sc_session sc) CSRF_SESSION_KEY"; cases "the (map_of (sc_session sc) CSRF_SESSION_KEY)") simp_all
  have "map_of base PARKED_SESSION_FLAG = None" if another
    using keys [OF that] by (auto simp: map_of_eq_None_iff PARKED_SESSION_FLAG_def CSRF_SESSION_KEY_def)
  moreover have "PARKED_SESSION_FLAG \<notin> sign_in_keys" by (simp add: PARKED_SESSION_FLAG_def)
  ultimately have flag: "dict_get PARKED_SESSION_FLAG (sc_session sc1) \<noteq> JBool True"
    using assms(12) map_of_signed_in(2) [of PARKED_SESSION_FLAG user_id email lang base] unfolding sc1(1) dict_get_def
    by (cases another) (simp_all add: base_def)
  define t where "t = delete_sessions (co_delete io) (filter (\<lambda>i. i \<noteq> co_token io) (sc_ids_to_delete sc1)) s"
  have t: "view t = (if another then view s else drop_key (session_redis_key old) (view s))"
    using assms(5,6) by (simp add: t_def sc1(5) redis_server.delete_session_view [OF assms(1)])
  obtain r u where save: "save_session mw io (co_token io) (sc_session sc1) None t = (r, u)" by fastforce
  note sv = redis_server.save_unconditional [OF assms(1-4) save]
  have "commit_session mw io sc1 s = (commit_saved mw
      (if dict_get ''_permanent'' (sc_session sc1) = JBool True then mw_max_age mw else None) (co_token io)
      (sc1\<lparr>sc_session_id := Some (co_token io), sc_ids_to_delete := []\<rparr>) Saved, u)"
    using flag save sv(1) sc1(2-4) assms(6) signed_in_nonempty [of user_id email lang base] t_def
    by (simp add: commit_session_def commit_nonempty_def Let_def sc1(1) eq_commute [of old])
  then have out: "sc' = sc1\<lparr>sc_session_id := Some (co_token io), sc_ids_to_delete := []\<rparr>" "s' = u"
    using assms(13) by (simp_all add: sc1_def commit_saved_def)
  from keys have "another \<Longrightarrow> fst ` set (sc_session sc1) \<subseteq> insert CSRF_SESSION_KEY sign_in_keys"
    using signed_in_keys [of _ user_id email lang base] unfolding sc1(1) by blast
  moreover have "user_id_from_session (sc_session sc1) = Some user_id"
    by (simp add: sc1(1) user_id_from_session_def dict_get_def map_of_signed_in)
  ultimately show ?thesis
    using sv(2) t assms(6) sc1(6) unfolding out another_def absent_def by (auto simp del: dumps.simps)
qed

theorem sign_in_changes_session_id_witness:
  "sc_session_id (fst (fst (commit_session demo_middleware demo_io
     (establish_authenticated_session 2 ''e'' None demo_scope) demo_store))) = Some ''n'' \<and>
   ks_data (snd (commit_session demo_middleware demo_io (establish_authenticated_session 2 ''e'' None demo_scope) demo_store))
     (session_redis_key ''a'') = ks_data demo_store (session_redis_key ''a'')"
proof -
  obtain sc' cookies s' where com: "commit_session demo_middleware demo_io
      (establish_authenticated_session 2 ''e'' None demo_scope) demo_store = ((sc', cookies), s')"
    by (metis prod.collapse)
  have "co_client demo_io = Some ks_cmds" "co_set demo_io = Delivered" "\<not> bad_expiry (mw_max_age demo_middleware)"
    "co_delete demo_io 0 = (Some ks_cmds, Delivered)" "co_token demo_io \<noteq> ''a''" "sc_session_id demo_scope = Some ''a''"
    "''a'' \<noteq> []" "sc_restore_status demo_scope = Session_Restored" "sc_original_id demo_scope = Some ''a''"
    "sc_ids_to_delete demo_scope = []"
    by (simp_all add: demo_defs)
  note s = this
  have "dict_get PARKED_SESSION_FLAG (sc_session demo_scope) \<noteq> JBool True"
    "user_id_from_session (sc_session demo_scope) = Some 1" by code_simp+
  with sign_in_changes_session_id [OF reference_server.redis_server_axioms s _ com] com show ?thesis
    by (simp add: demo_io_def)
qed

end
