(* ===== verification/Email_Auth.thy ===== *)
theory Email_Auth
  imports Redis_Server Json
begin

text \<open>
  Sign-in by a code that is sent by mail: \<open>services/email_auth_transaction.py\<close>.  A transaction (whose code,
  as a digest, how many wrong guesses) lives in Redis under a random id for five minutes; checking a
  code is one optimistic \<open>WATCH\<close>/\<open>MULTI\<close>/\<open>EXEC\<close> round, tried at most three times.  The round is two steps,
  \<open>verify_watch\<close> and \<open>verify_exec\<close>, so that the whole call (\<open>verify_email_auth_transaction\<close>) and the
  interleaving of many calls (\<open>code_step\<close>) are built from the same parts.  \<open>sha256\<close> is the hex digest;
  random values, clock readings and what a Redis call meets are arguments.
\<close>

section \<open>Transactions\<close>

abbreviation (input) EMAIL_AUTH_TRANSACTION_TTL_SECONDS :: int where
  "EMAIL_AUTH_TRANSACTION_TTL_SECONDS \<equiv> 300"

abbreviation (input) EMAIL_AUTH_TRANSACTION_MAX_ATTEMPTS :: int where
  "EMAIL_AUTH_TRANSACTION_MAX_ATTEMPTS \<equiv> 5"

abbreviation (input) FLOW_LOGIN :: string where
  "FLOW_LOGIN \<equiv> ''login''"

abbreviation (input) FLOW_REGISTRATION :: string where
  "FLOW_REGISTRATION \<equiv> ''registration''"

datatype code_status =
    Code_Success
  | Code_Invalid
  | Code_Expired
  | Code_Exhausted
  | Code_Missing
  | Code_Unavailable
  | Code_Conflict

record email_auth_transaction =
  et_transaction_id :: string
  et_flow :: string
  et_user_id :: int
  et_email :: string
  et_code_digest :: string
  et_issued_at :: int
  et_attempts :: int
  et_locale :: "string option"

record verification_result =
  vr_status :: code_status
  vr_transaction :: "email_auth_transaction option"

definition transaction_key :: "string \<Rightarrow> string" where
  "transaction_key transaction_id = ''email_auth_transaction:'' @ transaction_id"

definition code_digest :: "(string \<Rightarrow> string) \<Rightarrow> string \<Rightarrow> string" where
  "code_digest sha256 code = sha256 code"

definition json_text :: "string option \<Rightarrow> json" where
  "json_text value = (case value of None \<Rightarrow> JNull | Some t \<Rightarrow> JStr t)"

definition transaction_fields :: "email_auth_transaction \<Rightarrow> dict" where
  "transaction_fields tx =
     [(''flow'', JStr (et_flow tx)),
      (''user_id'', JInt (et_user_id tx)),
      (''email'', JStr (et_email tx)),
      (''code_digest'', JStr (et_code_digest tx)),
      (''issued_at'', JInt (et_issued_at tx)),
      (''attempts'', JInt (et_attempts tx)),
      (''locale'', json_text (et_locale tx))]"

definition serialize_transaction :: "email_auth_transaction \<Rightarrow> string" where
  "serialize_transaction tx = dumps (JObj (transaction_fields tx))"

text \<open>\<open>isinstance(value, int) and not isinstance(value, bool) and value >= least\<close>.\<close>

fun int_at_least :: "int \<Rightarrow> json \<Rightarrow> int option" where
  "int_at_least least (JInt i) = (if least \<le> i then Some i else None)"
| "int_at_least least _ = None"

fun text_where :: "(string \<Rightarrow> bool) \<Rightarrow> json \<Rightarrow> string option" where
  "text_where ok (JStr t) = (if ok t then Some t else None)"
| "text_where ok _ = None"

text \<open>\<open>int(time.time())\<close>.\<close>

definition unix_time :: "ticks \<Rightarrow> int" where
  "unix_time now = now div second"

text \<open>
  The checks of \<open>_decode_transaction\<close> on a dictionary.  The outer \<open>None\<close> is the \<open>TypeError\<close> Python raises when
  it looks up a list or a dictionary in the set of flows; the inner one is a value that is not a
  transaction.
\<close>

definition decode_fields :: "string \<Rightarrow> dict \<Rightarrow> email_auth_transaction option option" where
  "decode_fields transaction_id payload =
     (case dict_get ''flow'' payload of
        JArr _ \<Rightarrow> None
      | JObj _ \<Rightarrow> None
      | flow \<Rightarrow>
          Some
            (case (text_where (\<lambda>t. t \<in> {FLOW_LOGIN, FLOW_REGISTRATION}) flow,
                   int_at_least 1 (dict_get ''user_id'' payload),
                   text_where (\<lambda>t. t \<noteq> []) (dict_get ''email'' payload),
                   text_where (\<lambda>t. length t = 64) (dict_get ''code_digest'' payload),
                   int_at_least 1 (dict_get ''issued_at'' payload),
                   int_at_least 0 (dict_get ''attempts'' payload)) of
               (Some flow, Some user_id, Some email, Some digest, Some issued_at, Some attempts) \<Rightarrow>
                 Some \<lparr>et_transaction_id = transaction_id, et_flow = flow, et_user_id = user_id,
                       et_email = email, et_code_digest = digest, et_issued_at = issued_at,
                       et_attempts = attempts, et_locale = text_where (\<lambda>_. True) (dict_get ''locale'' payload)\<rparr>
             | _ \<Rightarrow> None))"

definition transaction_status :: "ticks \<Rightarrow> email_auth_transaction \<Rightarrow> code_status" where
  "transaction_status now tx =
     (if EMAIL_AUTH_TRANSACTION_TTL_SECONDS \<le> unix_time now - et_issued_at tx then Code_Expired else Code_Success)"

definition decode_transaction ::
  "string \<Rightarrow> ticks \<Rightarrow> string option \<Rightarrow> (email_auth_transaction option \<times> code_status) option" where
  "decode_transaction transaction_id now raw_payload =
     (case Option.bind raw_payload loads of
        Some (JObj payload) \<Rightarrow>
          map_option (\<lambda>decoded. case decoded of
                        None \<Rightarrow> (None, Code_Missing)
                      | Some tx \<Rightarrow> (Some tx, transaction_status now tx)) (decode_fields transaction_id payload)
      | _ \<Rightarrow> Some (None, Code_Missing))"

definition remaining_seconds :: "ticks \<Rightarrow> int \<Rightarrow> int" where
  "remaining_seconds now issued_at =
     (let elapsed = max (unix_time now - issued_at) 0
      in max (EMAIL_AUTH_TRANSACTION_TTL_SECONDS - elapsed) 1)"

section \<open>Storing and reading\<close>

text \<open>The client a call obtains from \<open>get_redis_client()\<close>, and what its requests meet.\<close>

record 's store_io =
  so_client :: "'s redis_cmds option"
  so_fault :: fault
  so_now :: ticks
  so_token :: string

definition store_email_auth_transaction ::
  "(string \<Rightarrow> string) \<Rightarrow> 's store_io \<Rightarrow> string \<Rightarrow> int \<Rightarrow> string \<Rightarrow> string \<Rightarrow> string option \<Rightarrow> 's
     \<Rightarrow> string option \<times> 's" where
  "store_email_auth_transaction sha256 io flow user_id email code locale_name s =
     (if flow \<notin> {FLOW_LOGIN, FLOW_REGISTRATION} then (None, s)
      else if user_id \<le> 0 \<or> email = [] \<or> code = [] then (None, s)
      else
        (case so_client io of
           None \<Rightarrow> (None, s)
         | Some R \<Rightarrow>
             (let tx = \<lparr>et_transaction_id = so_token io, et_flow = flow, et_user_id = user_id, et_email = email,
                        et_code_digest = code_digest sha256 code, et_issued_at = unix_time (so_now io),
                        et_attempts = 0, et_locale = locale_name\<rparr>
              in case redis_call (so_fault io)
                        (rc_set R (transaction_key (so_token io)) (serialize_transaction tx)
                           (Some EMAIL_AUTH_TRANSACTION_TTL_SECONDS) True) s of
                   (Inl _, s) \<Rightarrow> (None, s)
                 | (Inr stored, s) \<Rightarrow> (if stored then Some (so_token io) else None, s))))"

definition delete_email_auth_transaction ::
  "'s redis_cmds option \<times> fault \<Rightarrow> string \<Rightarrow> 's \<Rightarrow> 's" where
  "delete_email_auth_transaction io transaction_id s =
     (if transaction_id = [] then s
      else
        (case fst io of
           None \<Rightarrow> s
         | Some R \<Rightarrow> snd (redis_call (snd io) (rc_del R (transaction_key transaction_id)) s)))"

record 's lookup_io =
  lo_client :: "'s redis_cmds option"
  lo_get :: fault
  lo_now :: ticks
  lo_delete :: "'s redis_cmds option \<times> fault"

text \<open>\<open>get_email_auth_transaction\<close>; the outer \<open>None\<close> is the exception of \<open>_decode_transaction\<close>.\<close>

definition get_email_auth_transaction ::
  "'s lookup_io \<Rightarrow> string \<Rightarrow> 's \<Rightarrow> email_auth_transaction option option \<times> 's" where
  "get_email_auth_transaction io transaction_id s =
     (if transaction_id = [] then (Some None, s)
      else
        (case lo_client io of
           None \<Rightarrow> (Some None, s)
         | Some R \<Rightarrow>
             (case redis_call (lo_get io) (rc_get R (transaction_key transaction_id)) s of
                (Inl _, s) \<Rightarrow> (Some None, s)
              | (Inr raw_payload, s) \<Rightarrow>
                  (case decode_transaction transaction_id (lo_now io) raw_payload of
                     None \<Rightarrow> (None, s)
                   | Some (tx, status) \<Rightarrow>
                       if status = Code_Expired
                       then (Some None, delete_email_auth_transaction (lo_delete io) transaction_id s)
                       else if status \<noteq> Code_Success then (Some None, s)
                       else (Some tx, s)))))"

section \<open>Checking a code\<close>

text \<open>What an attempt does once it has read the value: answer at once, or send a command under \<open>MULTI\<close>.\<close>

datatype pending =
    Pend_Delete verification_result
  | Pend_Set string int verification_result

abbreviation result_only :: "code_status \<Rightarrow> verification_result" where
  "result_only status \<equiv> \<lparr>vr_status = status, vr_transaction = None\<rparr>"

definition decide_code ::
  "ticks \<times> ticks \<Rightarrow> string \<Rightarrow> string \<Rightarrow> string option \<Rightarrow> verification_result + pending" where
  "decide_code clocks transaction_id submitted_digest raw_payload =
     (case decode_transaction transaction_id (fst clocks) raw_payload of
        None \<Rightarrow> Inl (result_only Code_Unavailable)
      | Some (None, status) \<Rightarrow> Inl (result_only status)
      | Some (Some tx, status) \<Rightarrow>
          if status = Code_Expired then Inr (Pend_Delete (result_only Code_Expired))
          else if EMAIL_AUTH_TRANSACTION_MAX_ATTEMPTS \<le> et_attempts tx
          then Inr (Pend_Delete (result_only Code_Exhausted))
          else if submitted_digest = et_code_digest tx
          then Inr (Pend_Delete \<lparr>vr_status = Code_Success, vr_transaction = Some tx\<rparr>)
          else
            (let next_attempts = et_attempts tx + 1
             in if EMAIL_AUTH_TRANSACTION_MAX_ATTEMPTS \<le> next_attempts
                then Inr (Pend_Delete (result_only Code_Exhausted))
                else
                  (let updated = tx\<lparr>et_attempts := next_attempts\<rparr>
                   in Inr (Pend_Set (serialize_transaction updated)
                             (remaining_seconds (snd clocks) (et_issued_at tx))
                             \<lparr>vr_status = Code_Invalid, vr_transaction = Some updated\<rparr>))))"

text \<open>
  The state of a call: \<open>Trying n\<close> has \<open>n\<close> rounds left, \<open>Watching\<close> has read a value under \<open>WATCH\<close> and is about to
  send \<open>EXEC\<close>.
\<close>

datatype verify_phase =
    Trying nat
  | Watching nat "string option" pending
  | Answered verification_result

definition verify_watch ::
  "(string \<Rightarrow> string) \<Rightarrow> 's redis_cmds \<Rightarrow> fault \<Rightarrow> ticks \<times> ticks \<Rightarrow> string \<Rightarrow> string \<Rightarrow> nat \<Rightarrow> 's
     \<Rightarrow> verify_phase \<times> 's" where
  "verify_watch sha256 R f clocks transaction_id submitted_code n s =
     (case redis_call f (rc_get R (transaction_key transaction_id)) s of
        (Inl _, s) \<Rightarrow> (Answered (result_only Code_Unavailable), s)
      | (Inr raw_payload, s) \<Rightarrow>
          (case decide_code clocks transaction_id (code_digest sha256 submitted_code) raw_payload of
             Inl result \<Rightarrow> (Answered result, s)
           | Inr pending \<Rightarrow> (Watching n raw_payload pending, s)))"

fun pending_result :: "pending \<Rightarrow> verification_result" where
  "pending_result (Pend_Delete result) = result"
| "pending_result (Pend_Set _ _ result) = result"

fun pending_command :: "'s redis_cmds \<Rightarrow> string \<Rightarrow> pending \<Rightarrow> ('s, bool) rcmd" where
  "pending_command R key (Pend_Delete _) = rc_del R key"
| "pending_command R key (Pend_Set payload ttl _) = rc_set R key payload (Some ttl) False"

definition verify_exec ::
  "'s redis_cmds \<Rightarrow> bool \<Rightarrow> fault \<Rightarrow> string \<Rightarrow> nat \<Rightarrow> pending \<Rightarrow> 's \<Rightarrow> verify_phase \<times> 's" where
  "verify_exec R conflict f transaction_id n pending s =
     (if conflict then (Trying n, s)
      else
        (case redis_call f (pending_command R (transaction_key transaction_id) pending) s of
           (Inl _, s) \<Rightarrow> (Answered (result_only Code_Unavailable), s)
         | (Inr _, s) \<Rightarrow> (Answered (pending_result pending), s)))"

text \<open>What the rounds of one call meet.\<close>

record 's round_io =
  ro_read :: fault
  ro_clocks :: "ticks \<times> ticks"
  ro_between :: "'s \<Rightarrow> 's"
  ro_conflict :: bool
  ro_exec :: fault

fun verify_rounds ::
  "(string \<Rightarrow> string) \<Rightarrow> 's redis_cmds \<Rightarrow> (nat \<Rightarrow> 's round_io) \<Rightarrow> string \<Rightarrow> string \<Rightarrow> nat \<Rightarrow> 's
     \<Rightarrow> verification_result \<times> 's" where
  "verify_rounds sha256 R io transaction_id code 0 s = (result_only Code_Conflict, s)"
| "verify_rounds sha256 R io transaction_id code (Suc n) s =
     (case verify_watch sha256 R (ro_read (io 0)) (ro_clocks (io 0)) transaction_id code n s of
        (Watching _ _ pending, s) \<Rightarrow>
          (case verify_exec R (ro_conflict (io 0)) (ro_exec (io 0)) transaction_id n pending
                  (ro_between (io 0) s) of
             (Answered result, s) \<Rightarrow> (result, s)
           | (_, s) \<Rightarrow> verify_rounds sha256 R (\<lambda>i. io (Suc i)) transaction_id code n s)
      | (Answered result, s) \<Rightarrow> (result, s)
      | (Trying _, s) \<Rightarrow> (result_only Code_Conflict, s))"

abbreviation (input) VERIFY_ROUNDS :: nat where
  "VERIFY_ROUNDS \<equiv> 3"

text \<open>\<open>client\<close> is \<open>None\<close> also for a client without \<open>pipeline\<close>.\<close>

definition verify_email_auth_transaction ::
  "(string \<Rightarrow> string) \<Rightarrow> 's redis_cmds option \<Rightarrow> (nat \<Rightarrow> 's round_io) \<Rightarrow> string \<Rightarrow> string \<Rightarrow> 's
     \<Rightarrow> verification_result \<times> 's" where
  "verify_email_auth_transaction sha256 client io transaction_id submitted_code s =
     (if transaction_id = [] then (result_only Code_Missing, s)
      else
        (case client of
           None \<Rightarrow> (result_only Code_Unavailable, s)
         | Some R \<Rightarrow> verify_rounds sha256 R io transaction_id submitted_code VERIFY_ROUNDS s))"

section \<open>Many calls at once\<close>

text \<open>
  Calls of several workers on one server, step by step and in any order.  The server aborts \<open>EXEC\<close> when the
  watched key was changed or expired since \<open>WATCH\<close>; it does so at least when its value differs from the
  one that was read, which \<open>view\<close> shows, and \<open>spurious\<close> allows every further abort.
\<close>

record verification =
  ve_id :: string
  ve_code :: string
  ve_phase :: verify_phase

record 's code_sys =
  cs_redis :: 's
  cs_calls :: "verification list"

datatype 's code_op =
    Issue_Op "'s store_io" string int string string "string option"
  | Lookup_Op "'s lookup_io" string
  | Discard_Op "'s redis_cmds option \<times> fault" string
  | Submit_Op string string
  | Watch_Op nat fault "ticks \<times> ticks"
  | Exec_Op nat bool fault
  | Pass_Op ticks

fun stored_text :: "string \<Rightarrow> keyspace \<Rightarrow> string option" where
  "stored_text k s = (case ks_data s k of Some (RString v, _) \<Rightarrow> Some v | _ \<Rightarrow> None)"

definition on_call ::
  "nat \<Rightarrow> (verification \<Rightarrow> 's \<Rightarrow> verify_phase \<times> 's) \<Rightarrow> 's code_sys \<Rightarrow> 's code_sys" where
  "on_call n act st =
     (if n < length (cs_calls st)
      then (case act (cs_calls st ! n) (cs_redis st) of
              (phase, s) \<Rightarrow>
                st\<lparr>cs_redis := s, cs_calls := (cs_calls st)[n := (cs_calls st ! n)\<lparr>ve_phase := phase\<rparr>]\<rparr>)
      else st)"

fun watch_call ::
  "(string \<Rightarrow> string) \<Rightarrow> 's redis_cmds \<Rightarrow> fault \<Rightarrow> ticks \<times> ticks \<Rightarrow> verification \<Rightarrow> 's \<Rightarrow> verify_phase \<times> 's" where
  "watch_call sha256 R f clocks v s =
     (case ve_phase v of
        Trying 0 \<Rightarrow> (Answered (result_only Code_Conflict), s)
      | Trying (Suc n) \<Rightarrow> verify_watch sha256 R f clocks (ve_id v) (ve_code v) n s
      | phase \<Rightarrow> (phase, s))"

fun exec_call ::
  "('s \<Rightarrow> keyspace) \<Rightarrow> 's redis_cmds \<Rightarrow> bool \<Rightarrow> fault \<Rightarrow> verification \<Rightarrow> 's \<Rightarrow> verify_phase \<times> 's" where
  "exec_call view R spurious f v s =
     (case ve_phase v of
        Watching n raw pending \<Rightarrow>
          verify_exec R (spurious \<or> stored_text (transaction_key (ve_id v)) (view s) \<noteq> raw) f (ve_id v) n pending s
      | phase \<Rightarrow> (phase, s))"

fun code_step ::
  "(string \<Rightarrow> string) \<Rightarrow> 's redis_cmds \<Rightarrow> ('s \<Rightarrow> keyspace) \<Rightarrow> (ticks \<Rightarrow> 's \<Rightarrow> 's) \<Rightarrow> 's code_op
     \<Rightarrow> 's code_sys \<Rightarrow> 's code_sys" where
  "code_step sha256 R view elapse (Issue_Op io flow user_id email code locale_name) st =
     st\<lparr>cs_redis := snd (store_email_auth_transaction sha256 io flow user_id email code locale_name (cs_redis st))\<rparr>"
| "code_step sha256 R view elapse (Lookup_Op io tid) st =
     st\<lparr>cs_redis := snd (get_email_auth_transaction io tid (cs_redis st))\<rparr>"
| "code_step sha256 R view elapse (Discard_Op io tid) st =
     st\<lparr>cs_redis := delete_email_auth_transaction io tid (cs_redis st)\<rparr>"
| "code_step sha256 R view elapse (Submit_Op tid code) st =
     st\<lparr>cs_calls := cs_calls st @ [\<lparr>ve_id = tid, ve_code = code, ve_phase = Trying VERIFY_ROUNDS\<rparr>]\<rparr>"
| "code_step sha256 R view elapse (Watch_Op n f clocks) st = on_call n (watch_call sha256 R f clocks) st"
| "code_step sha256 R view elapse (Exec_Op n spurious f) st = on_call n (exec_call view R spurious f) st"
| "code_step sha256 R view elapse (Pass_Op d) st = st\<lparr>cs_redis := elapse d (cs_redis st)\<rparr>"

end
