(* ===== verification/Email_Safety.thy ===== *)
theory Email_Safety
  imports Email_Auth
begin

text \<open>
  What the mailed codes promise: a stored transaction is read back as it was written and only well-formed
  ones are read at all; a check of a code does exactly one of seven things; and however many checks run
  against each other, a code is accepted once at most and five guesses are judged at most.
\<close>

section \<open>Well-formed transactions\<close>

definition transaction_ok :: "email_auth_transaction \<Rightarrow> bool" where
  "transaction_ok tx \<longleftrightarrow>
     et_flow tx \<in> {FLOW_LOGIN, FLOW_REGISTRATION} \<and> 0 < et_user_id tx \<and> et_email tx \<noteq> [] \<and>
     length (et_code_digest tx) = 64 \<and> 0 < et_issued_at tx \<and> 0 \<le> et_attempts tx"

text \<open>Python refuses to read integers of more than 4300 digits.\<close>

definition transaction_printable :: "email_auth_transaction \<Rightarrow> bool" where
  "transaction_printable tx \<longleftrightarrow>
     (\<forall>i \<in> {et_user_id tx, et_issued_at tx, et_attempts tx}. length (show_int i) \<le> 4300)"

lemma transaction_key_eq [simp]: "transaction_key a = transaction_key b \<longleftrightarrow> a = b"
  by (simp add: transaction_key_def)

lemma dict_get_fields [simp]:
  "dict_get ''flow'' (transaction_fields tx) = JStr (et_flow tx)"
  "dict_get ''user_id'' (transaction_fields tx) = JInt (et_user_id tx)"
  "dict_get ''email'' (transaction_fields tx) = JStr (et_email tx)"
  "dict_get ''code_digest'' (transaction_fields tx) = JStr (et_code_digest tx)"
  "dict_get ''issued_at'' (transaction_fields tx) = JInt (et_issued_at tx)"
  "dict_get ''attempts'' (transaction_fields tx) = JInt (et_attempts tx)"
  "dict_get ''locale'' (transaction_fields tx) = json_text (et_locale tx)"
  by (simp_all add: transaction_fields_def dict_get_def)

lemma text_where_json_text [simp]: "text_where (\<lambda>_. True) (json_text t) = t"
  by (simp add: json_text_def split: option.splits)

lemma loads_serialize:
  "transaction_printable tx \<Longrightarrow> loads (serialize_transaction tx) = Some (JObj (transaction_fields tx))"
  unfolding serialize_transaction_def
  by (rule loads_dumps_lemma)
    (auto simp: transaction_fields_def transaction_printable_def json_text_def split: option.splits)

lemma decode_fields_ok:
  "transaction_ok tx \<Longrightarrow> decode_fields (et_transaction_id tx) (transaction_fields tx) = Some (Some tx)"
  by (auto simp: decode_fields_def transaction_ok_def)

lemma decode_serialize:
  "transaction_ok tx \<Longrightarrow> transaction_printable tx \<Longrightarrow> et_transaction_id tx = tid \<Longrightarrow>
   decode_transaction tid now (Some (serialize_transaction tx)) = Some (Some tx, transaction_status now tx)"
  using decode_fields_ok [of tx] by (simp add: decode_transaction_def loads_serialize)

lemma int_at_least_Some: "int_at_least m v = Some i \<longleftrightarrow> v = JInt i \<and> m \<le> i"
  by (cases v) auto

lemma text_where_Some: "text_where P v = Some t \<longleftrightarrow> v = JStr t \<and> P t"
  by (cases v) auto

lemma decode_fields_Some:
  assumes "decode_fields tid d = Some (Some tx)"
  shows "transaction_ok tx \<and> et_transaction_id tx = tid"
  using assms
  by (auto simp: decode_fields_def transaction_ok_def int_at_least_Some text_where_Some
      split: json.splits option.splits if_splits)

lemma decode_transaction_Some:
  assumes "decode_transaction tid now raw = Some (Some tx, st)"
  shows "transaction_ok tx \<and> et_transaction_id tx = tid \<and> st = transaction_status now tx"
proof -
  from assms obtain d where "decode_fields tid d = Some (Some tx)" "st = transaction_status now tx"
    unfolding decode_transaction_def by (auto split: option.splits json.splits)
  then show ?thesis using decode_fields_Some by simp
qed

lemma decode_None [simp]: "decode_transaction tid now None = Some (None, Code_Missing)"
  by (simp add: decode_transaction_def)

section \<open>One check of a code\<close>

abbreviation guessed :: "int \<Rightarrow> email_auth_transaction \<Rightarrow> email_auth_transaction" where
  "guessed a tx \<equiv> tx\<lparr>et_attempts := a\<rparr>"

text \<open>What a check of \<open>digest\<close> against a stored transaction comes to.\<close>

definition judgement :: "ticks \<times> ticks \<Rightarrow> string \<Rightarrow> email_auth_transaction \<Rightarrow> pending" where
  "judgement clocks digest tx =
     (if transaction_status (fst clocks) tx = Code_Expired then Pend_Delete (result_only Code_Expired)
      else if digest = et_code_digest tx
      then Pend_Delete \<lparr>vr_status = Code_Success, vr_transaction = Some tx\<rparr>
      else if et_attempts tx = 4 then Pend_Delete (result_only Code_Exhausted)
      else Pend_Set (serialize_transaction (guessed (et_attempts tx + 1) tx))
             (remaining_seconds (snd clocks) (et_issued_at tx))
             \<lparr>vr_status = Code_Invalid, vr_transaction = Some (guessed (et_attempts tx + 1) tx)\<rparr>)"

lemma decide_serialized:
  assumes "transaction_ok tx" "transaction_printable tx" "et_transaction_id tx = tid" "et_attempts tx < 5"
  shows "decide_code clocks tid digest (Some (serialize_transaction tx)) = Inr (judgement clocks digest tx)"
  using assms
  by (auto simp: decide_code_def decode_serialize judgement_def Let_def transaction_status_def)

lemma remaining_seconds_bounds: "1 \<le> remaining_seconds now t \<and> remaining_seconds now t \<le> 300"
  by (simp add: remaining_seconds_def Let_def)

lemma status_cases: "transaction_status now tx \<in> {Code_Expired, Code_Success}"
  by (simp add: transaction_status_def)

context redis_server
begin

lemma call_get:
  assumes "redis_call f (rc_get R k) s = (r, s')"
  shows "view s' = view s" and "r = Inr v \<Longrightarrow> v = stored_text k (view s)"
proof -
  have "redis_call f (ks_get k) (view s) = (r, view s')"
    by (rule sim_step [OF sim_call [OF sim_get] assms])
  then show "view s' = view s" and "r = Inr v \<Longrightarrow> v = stored_text k (view s)"
    by (cases f; auto split: option.splits rval.splits prod.splits)+
qed

lemma call_del:
  assumes "redis_call f (rc_del R k) s = (r, s')"
  shows "view s' = (if f = NotSent then view s else drop_key k (view s))"
    and "f = Delivered \<Longrightarrow> \<exists>b. r = Inr b" and "f \<noteq> Delivered \<Longrightarrow> r = Inl ConnectionError"
  using sim_step [OF sim_call [OF sim_del] assms] by (cases f; auto)+

lemma call_set:
  assumes "redis_call f (rc_set R k v (Some t) nx) s = (r, s')" and "0 < t"
  shows "view s' =
      (if f = NotSent \<or> nx \<and> ks_data (view s) k \<noteq> None then view s
       else put_key k (RString v, Some (second * t)) (view s))"
    and "f = Delivered \<Longrightarrow> r = Inr (\<not> (nx \<and> ks_data (view s) k \<noteq> None))"
    and "f \<noteq> Delivered \<Longrightarrow> r = Inl ConnectionError"
  using sim_step [OF sim_call [OF sim_set] assms(1)] assms(2)
  by (cases f; auto simp: lifetime_def split: if_splits)+

end

section \<open>Many checks at once\<close>

text \<open>The guesses a stored entry still allows, and the answers that tell something about the code.\<close>

fun guesses_left :: "rentry option \<Rightarrow> int" where
  "guesses_left (Some (RString v, _)) =
     (case loads v of
        Some (JObj d) \<Rightarrow> (case dict_get ''attempts'' d of JInt a \<Rightarrow> 5 - a | _ \<Rightarrow> 0)
      | _ \<Rightarrow> 0)"
| "guesses_left _ = 0"

definition judged :: "verification_result \<Rightarrow> bool" where
  "judged r \<longleftrightarrow> vr_status r \<in> {Code_Success, Code_Invalid, Code_Exhausted}"

definition accepted :: "verification_result \<Rightarrow> bool" where
  "accepted r \<longleftrightarrow> vr_status r = Code_Success"

fun phase_answer :: "(verification_result \<Rightarrow> bool) \<Rightarrow> verify_phase \<Rightarrow> bool" where
  "phase_answer P (Answered r) = P r"
| "phase_answer P _ = False"

definition answers :: "(verification_result \<Rightarrow> bool) \<Rightarrow> string \<Rightarrow> verification list \<Rightarrow> int" where
  "answers P tid calls = int (length (filter (\<lambda>v. ve_id v = tid \<and> phase_answer P (ve_phase v)) calls))"

lemma length_filter_update:
  "n < length xs \<Longrightarrow>
   length (filter P (xs[n := y])) + of_bool (P (xs ! n)) = length (filter P xs) + of_bool (P y)"
proof (induction xs arbitrary: n)
  case (Cons x xs)
  then show ?case
  proof (cases n)
    case (Suc m)
    with Cons.prems have "m < length xs" by simp
    from Cons.IH [OF this] show ?thesis using Suc by simp
  qed simp
qed simp

lemma answers_update:
  assumes "n < length calls"
  shows "answers P tid (calls[n := (calls ! n)\<lparr>ve_phase := phase\<rparr>]) =
     answers P tid calls
       + (if ve_id (calls ! n) = tid
          then of_bool (phase_answer P phase) - of_bool (phase_answer P (ve_phase (calls ! n))) else 0)"
  using length_filter_update [OF assms, of "\<lambda>v. ve_id v = tid \<and> phase_answer P (ve_phase v)"
      "(calls ! n)\<lparr>ve_phase := phase\<rparr>"]
  by (auto simp: answers_def)

text \<open>A transaction as it was issued; \<open>entry_fits\<close> and \<open>phase_fits\<close> hold of its entry and of its checks.\<close>

definition issued :: "string \<Rightarrow> email_auth_transaction \<Rightarrow> bool" where
  "issued tid tx \<longleftrightarrow> transaction_ok tx \<and> transaction_printable tx \<and> et_transaction_id tx = tid"

definition entry_fits :: "email_auth_transaction \<Rightarrow> rentry option \<Rightarrow> bool" where
  "entry_fits tx e \<longleftrightarrow>
     e = None \<or> (\<exists>a ttl. 0 \<le> a \<and> a < 5 \<and> e = Some (RString (serialize_transaction (guessed a tx)), ttl))"

fun phase_fits :: "(string \<Rightarrow> string) \<Rightarrow> email_auth_transaction \<Rightarrow> string \<Rightarrow> verify_phase \<Rightarrow> bool" where
  "phase_fits sha256 tx code (Trying n) = True"
| "phase_fits sha256 tx code (Watching n raw p) =
     (\<exists>a clocks. 0 \<le> a \<and> a < 5 \<and> raw = Some (serialize_transaction (guessed a tx)) \<and>
        p = judgement clocks (code_digest sha256 code) (guessed a tx))"
| "phase_fits sha256 tx code (Answered r) =
     (accepted r \<longrightarrow> code_digest sha256 code = et_code_digest tx \<and> (\<exists>a. vr_transaction r = Some (guessed a tx)))"

definition code_inv :: "(string \<Rightarrow> string) \<Rightarrow> string \<Rightarrow> email_auth_transaction \<Rightarrow> rentry option \<Rightarrow> verification list \<Rightarrow> bool" where
  "code_inv sha256 tid tx e calls \<longleftrightarrow>
     entry_fits tx e \<and> (\<forall>v \<in> set calls. ve_id v = tid \<longrightarrow> phase_fits sha256 tx (ve_code v) (ve_phase v)) \<and>
     answers judged tid calls + guesses_left e \<le> 5 \<and> answers accepted tid calls + of_bool (e \<noteq> None) \<le> 1"

lemma show_small: "0 \<le> a \<Longrightarrow> a < 5 \<Longrightarrow> length (show_int a) \<le> 4300"
proof -
  assume "0 \<le> a" "a < 5"
  then have "a = 0 \<or> a = 1 \<or> a = 2 \<or> a = 3 \<or> a = 4" by linarith
  moreover have "length (show_int 0) \<le> 4300" "length (show_int 1) \<le> 4300" "length (show_int 2) \<le> 4300"
    "length (show_int 3) \<le> 4300" "length (show_int 4) \<le> 4300"
    by code_simp+
  ultimately show ?thesis by blast
qed

lemma issued_guessed:
  assumes "issued tid tx" "0 \<le> a" "a < 5"
  shows "issued tid (guessed a tx)"
  using assms show_small [OF assms(2,3)]
  by (simp add: issued_def transaction_ok_def transaction_printable_def)

lemma guesses_left_serialized:
  assumes "issued tid tx" "0 \<le> a" "a < 5"
  shows "guesses_left (Some (RString (serialize_transaction (guessed a tx)), ttl)) = 5 - a"
  using issued_guessed [OF assms] by (simp add: issued_def loads_serialize)

lemma guessed_inject:
  assumes "issued tid tx" "0 \<le> a" "a < 5" "0 \<le> b" "b < 5"
    and "serialize_transaction (guessed a tx) = serialize_transaction (guessed b tx)"
  shows "a = b"
  using guesses_left_serialized [OF assms(1-3), of None] guesses_left_serialized [OF assms(1,4,5), of None] assms(6)
  by simp

lemma entry_fits_left: "issued tid tx \<Longrightarrow> entry_fits tx e \<Longrightarrow> 0 \<le> guesses_left e \<and> guesses_left e \<le> 5"
  using guesses_left_serialized by (fastforce simp: entry_fits_def)

text \<open>An entry that others leave alone, let age, or remove.\<close>

definition fades :: "rentry option \<Rightarrow> rentry option \<Rightarrow> bool" where
  "fades e e' \<longleftrightarrow> e' = None \<or> (\<exists>v t t'. e = Some (v, t) \<and> e' = Some (v, t'))"

lemma fades_refl [simp]: "fades e e"
  by (cases e) (auto simp: fades_def)

lemma fades_None [simp]: "fades e None"
  by (simp add: fades_def)

lemma fades_age: "fades e (Option.bind e (age_entry d))"
  by (cases e; cases "snd (the e)") (auto simp: fades_def split: if_splits)

lemma guesses_left_ttl: "guesses_left (Some (v, t)) = guesses_left (Some (v, t'))"
  by (cases v) simp_all

lemma code_inv_fades:
  assumes "issued tid tx" "code_inv sha256 tid tx e calls" "fades e e'"
  shows "code_inv sha256 tid tx e' calls"
proof -
  have fits: "entry_fits tx e" using assms(2) by (simp add: code_inv_def)
  have "entry_fits tx e'" using fits assms(3) by (auto simp: entry_fits_def fades_def)
  moreover have "guesses_left e' \<le> guesses_left e"
    using assms(3) entry_fits_left [OF assms(1) fits] guesses_left_ttl unfolding fades_def
    by (metis guesses_left.simps(2) order_refl)
  moreover have "e' \<noteq> None \<longrightarrow> e \<noteq> None" using assms(3) by (auto simp: fades_def)
  ultimately show ?thesis using assms(2) by (cases "e = None"; cases "e' = None") (auto simp: code_inv_def)
qed

text \<open>One call moves from a phase to another while the entry changes from \<open>e\<close> to \<open>e'\<close>.\<close>

definition moves_well ::
  "(string \<Rightarrow> string) \<Rightarrow> email_auth_transaction \<Rightarrow> string \<Rightarrow> rentry option \<Rightarrow> verify_phase \<Rightarrow> rentry option \<Rightarrow> verify_phase \<Rightarrow> bool" where
  "moves_well sha256 tx code e phase e' phase' \<longleftrightarrow>
     entry_fits tx e' \<and> phase_fits sha256 tx code phase' \<and>
     of_bool (phase_answer judged phase') + guesses_left e' \<le> of_bool (phase_answer judged phase) + guesses_left e \<and>
     (of_bool (phase_answer accepted phase') :: int) + of_bool (e' \<noteq> None)
       \<le> of_bool (phase_answer accepted phase) + of_bool (e \<noteq> None)"

lemma code_inv_moves:
  assumes "code_inv sha256 tid tx e calls" "n < length calls" "ve_id (calls ! n) = tid"
    and "moves_well sha256 tx (ve_code (calls ! n)) e (ve_phase (calls ! n)) e' phase'"
  shows "code_inv sha256 tid tx e' (calls[n := (calls ! n)\<lparr>ve_phase := phase'\<rparr>])"
  using assms(1,3,4) set_update_subset_insert [of calls n "(calls ! n)\<lparr>ve_phase := phase'\<rparr>"]
  by (auto simp: code_inv_def moves_well_def answers_update [OF assms(2)])

lemma code_inv_other:
  assumes "code_inv sha256 tid tx e calls" "n < length calls" "ve_id (calls ! n) \<noteq> tid"
  shows "code_inv sha256 tid tx e (calls[n := (calls ! n)\<lparr>ve_phase := phase'\<rparr>])"
  using assms(1,3) set_update_subset_insert [of calls n "(calls ! n)\<lparr>ve_phase := phase'\<rparr>"]
  by (auto simp: code_inv_def answers_update [OF assms(2)])

text \<open>Operations that belong to the server \<open>R\<close> and do not issue the id \<open>tid\<close> again.\<close>

fun op_fits :: "'s redis_cmds \<Rightarrow> string \<Rightarrow> 's code_op \<Rightarrow> bool" where
  "op_fits R tid (Issue_Op io _ _ _ _ _) = (so_client io \<in> {None, Some R} \<and> so_token io \<noteq> tid)"
| "op_fits R tid (Lookup_Op io _) = (lo_client io \<in> {None, Some R} \<and> fst (lo_delete io) \<in> {None, Some R})"
| "op_fits R tid (Discard_Op io _) = (fst io \<in> {None, Some R})"
| "op_fits R tid _ = True"

abbreviation tid_entry :: "('s \<Rightarrow> keyspace) \<Rightarrow> string \<Rightarrow> 's \<Rightarrow> rentry option" where
  "tid_entry view tid s \<equiv> ks_data (view s) (transaction_key tid)"

lemma stored_text_fits:
  assumes "entry_fits tx e" "e = ks_data k key"
  shows "stored_text key k = None \<and> e = None
    \<or> (\<exists>a ttl. 0 \<le> a \<and> a < 5 \<and> e = Some (RString (serialize_transaction (guessed a tx)), ttl) \<and>
         stored_text key k = Some (serialize_transaction (guessed a tx)))"
  using assms by (auto simp: entry_fits_def)

lemma judgement_accepted:
  assumes "accepted (pending_result (judgement clocks d tx))"
  shows "judgement clocks d tx = Pend_Delete \<lparr>vr_status = Code_Success, vr_transaction = Some tx\<rparr>"
    and "d = et_code_digest tx"
  using assms by (auto simp: judgement_def accepted_def split: if_splits)

text \<open>The entry a command leaves that reaches the server.\<close>

definition settled :: "pending \<Rightarrow> rentry option" where
  "settled p = (case p of Pend_Delete _ \<Rightarrow> None | Pend_Set v ttl _ \<Rightarrow> Some (RString v, Some (second * ttl)))"

lemma judgement_ttl: "judgement clocks d tx = Pend_Set v ttl r \<Longrightarrow> 0 < ttl"
  using remaining_seconds_bounds [of "snd clocks" "et_issued_at tx"] by (auto simp: judgement_def split: if_splits)

context redis_server
begin

lemma delete_fades:
  assumes "fst io \<in> {None, Some R}"
  shows "fades (tid_entry view tid s) (tid_entry view tid (delete_email_auth_transaction io i s))"
proof (cases "fst io")
  case (Some R')
  with assms have R: "fst io = Some R" by simp
  obtain r t where call: "redis_call (snd io) (rc_del R (transaction_key i)) s = (r, t)" by fastforce
  then show ?thesis using call_del(1) [OF call] R by (simp add: delete_email_auth_transaction_def)
qed (simp add: delete_email_auth_transaction_def)

lemma lookup_fades:
  assumes "lo_client io \<in> {None, Some R}" "fst (lo_delete io) \<in> {None, Some R}"
  shows "fades (tid_entry view tid s) (tid_entry view tid (snd (get_email_auth_transaction io i s)))"
proof (cases "lo_client io")
  case (Some R')
  with assms have R: "lo_client io = Some R" by simp
  obtain r t where call: "redis_call (lo_get io) (rc_get R (transaction_key i)) s = (r, t)" by fastforce
  have "view t = view s" by (rule call_get(1) [OF call])
  moreover have "fades (tid_entry view tid t) (tid_entry view tid (delete_email_auth_transaction (lo_delete io) i t))"
    by (rule delete_fades [OF assms(2)])
  ultimately show ?thesis using call R
    by (auto simp: get_email_auth_transaction_def split: sum.splits option.splits)
qed (simp add: get_email_auth_transaction_def)

lemma issue_other_fades:
  assumes "so_client io \<in> {None, Some R}" "so_token io \<noteq> tid"
  shows "fades (tid_entry view tid s)
    (tid_entry view tid (snd (store_email_auth_transaction sha256 io flow user_id email code lc s)))"
proof (cases "so_client io")
  case (Some R')
  with assms have R: "so_client io = Some R" by simp
  have "view t = view s \<or> (\<exists>v e. view t = put_key (transaction_key (so_token io)) (v, e) (view s))"
    if "redis_call (so_fault io) (rc_set R (transaction_key (so_token io)) v (Some 300) True) s = (r, t)" for v r t
    using call_set(1) [OF that] by auto
  then show ?thesis using R assms(2)
    by (fastforce simp: store_email_auth_transaction_def Let_def split: prod.splits sum.splits)
qed (simp add: store_email_auth_transaction_def)

lemma verify_watch_outcome:
  assumes "issued tid tx" and "entry_fits tx (tid_entry view tid s)"
    and "verify_watch sha256 R f clocks tid code n s = (phase, t)"
  shows "view t = view s \<and>
    ((\<exists>r. phase = Answered r \<and> \<not> judged r) \<or>
     (\<exists>a. 0 \<le> a \<and> a < 5 \<and> phase = Watching n (Some (serialize_transaction (guessed a tx)))
            (judgement clocks (code_digest sha256 code) (guessed a tx))))"
proof -
  obtain r t' where call: "redis_call f (rc_get R (transaction_key tid)) s = (r, t')" by fastforce
  have keep: "view t' = view s" by (rule call_get(1) [OF call])
  show ?thesis
  proof (cases r)
    case (Inl e)
    with assms call keep show ?thesis by (auto simp: verify_watch_def judged_def)
  next
    case (Inr raw)
    have raw: "raw = stored_text (transaction_key tid) (view s)" by (rule call_get(2) [OF call Inr])
    from stored_text_fits [OF assms(2) refl] show ?thesis
    proof (elim disjE exE conjE)
      assume "stored_text (transaction_key tid) (view s) = None"
      with assms call keep raw Inr show ?thesis
        by (auto simp: verify_watch_def judged_def decide_code_def)
    next
      fix a ttl
      assume a: "0 \<le> a" "a < 5" "stored_text (transaction_key tid) (view s) = Some (serialize_transaction (guessed a tx))"
      have "decide_code clocks tid d raw = Inr (judgement clocks d (guessed a tx))" for d
        using issued_guessed [OF assms(1) a(1,2)] raw a by (simp add: decide_serialized issued_def)
      then have "phase = Watching n raw (judgement clocks (code_digest sha256 code) (guessed a tx)) \<and> t = t'"
        using assms(3) call Inr by (simp add: verify_watch_def)
      moreover have "raw = Some (serialize_transaction (guessed a tx))" using raw a(3) by simp
      ultimately show ?thesis using keep a(1,2) by blast
    qed
  qed
qed

lemma watch_moves:
  assumes "issued tid tx" "ve_id v = tid" "phase_fits sha256 tx (ve_code v) (ve_phase v)"
    and "entry_fits tx (tid_entry view tid s)" and "watch_call sha256 R f clocks v s = (phase, t)"
  shows "view t = view s \<and>
    moves_well sha256 tx (ve_code v) (tid_entry view tid s) (ve_phase v) (tid_entry view tid t) phase"
proof (cases "ve_phase v")
  case (Trying m)
  show ?thesis
  proof (cases m)
    case 0
    with Trying assms show ?thesis by (auto simp: moves_well_def judged_def accepted_def)
  next
    case (Suc n)
    with Trying assms have "verify_watch sha256 R f clocks tid (ve_code v) n s = (phase, t)" by simp
    from verify_watch_outcome [OF assms(1,4) this] have "view t = view s"
      and "phase_fits sha256 tx (ve_code v) phase" and "\<not> phase_answer judged phase" and "\<not> phase_answer accepted phase"
      unfolding judged_def accepted_def by (force, metis accepted_def insertCI phase_fits.simps(2,3), auto)
    then show ?thesis using Trying assms(4) by (simp add: moves_well_def)
  qed
next
  case (Watching m raw p)
  with assms(5) have "phase = ve_phase v" "t = s" by simp_all
  with assms(3,4) show ?thesis by (simp add: moves_well_def)
next
  case (Answered r)
  with assms(5) have "phase = ve_phase v" "t = s" by simp_all
  with assms(3,4) show ?thesis by (simp add: moves_well_def)
qed

lemma call_pending:
  assumes "redis_call f (pending_command R k p) s = (r, t)" and "\<And>v ttl r. p = Pend_Set v ttl r \<Longrightarrow> 0 < ttl"
  shows "view t = (if f = NotSent then view s else (view s)\<lparr>ks_data := (ks_data (view s))(k := settled p)\<rparr>)"
    and "f = Delivered \<longleftrightarrow> (\<exists>b. r = Inr b)"
proof -
  have "view t = (if f = NotSent then view s else (view s)\<lparr>ks_data := (ks_data (view s))(k := settled p)\<rparr>)
      \<and> (f = Delivered \<longleftrightarrow> (\<exists>b. r = Inr b))"
  proof (cases p)
    case (Pend_Delete q)
    with assms(1) have call: "redis_call f (rc_del R k) s = (r, t)" by simp
    from call_del [OF call] Pend_Delete show ?thesis by (cases f) (auto simp: settled_def)
  next
    case (Pend_Set v ttl q)
    with assms(1) have call: "redis_call f (rc_set R k v (Some ttl) False) s = (r, t)" by simp
    from call_set [OF call assms(2) [OF Pend_Set]] Pend_Set show ?thesis by (cases f) (auto simp: settled_def)
  qed
  then show "view t = (if f = NotSent then view s else (view s)\<lparr>ks_data := (ks_data (view s))(k := settled p)\<rparr>)"
    and "f = Delivered \<longleftrightarrow> (\<exists>b. r = Inr b)"
    by simp_all
qed

lemma settled_moves:
  assumes "issued tid tx" "0 \<le> a" "a < 5" "e = Some (RString (serialize_transaction (guessed a tx)), ttl)"
    and "p = judgement clocks (code_digest sha256 code) (guessed a tx)"
    and "e' = settled p"
    and "phase' = Answered (pending_result p) \<or> phase' = Answered (result_only Code_Unavailable)"
  shows "moves_well sha256 tx code e (Watching n raw p) e' phase'"
proof (cases p)
  case (Pend_Delete r)
  then have "e' = None" using assms(6) by (simp add: settled_def)
  moreover have "guesses_left e = 5 - a" using assms(1-4) by (simp add: guesses_left_serialized del: guesses_left.simps(1))
  moreover have "accepted r \<Longrightarrow> code_digest sha256 code = et_code_digest tx \<and> vr_transaction r = Some (guessed a tx)"
    using judgement_accepted [of clocks "code_digest sha256 code" "guessed a tx"]
    by (simp add: assms(5) [symmetric] Pend_Delete)
  ultimately show ?thesis using assms(3,4,7) Pend_Delete
    by (auto simp: moves_well_def entry_fits_def judged_def accepted_def)
next
  case (Pend_Set v ttl' r)
  then have p: "v = serialize_transaction (guessed (a + 1) tx)" "vr_status r = Code_Invalid" "a \<noteq> 4"
    using assms(5) by (auto simp: judgement_def split: if_splits)
  then have a: "0 \<le> a + 1" "a + 1 < 5" using assms(2,3) by auto
  have "entry_fits tx e'" using assms(6) Pend_Set p(1) a by (auto simp: entry_fits_def settled_def)
  moreover have "guesses_left e' = 4 - a" "guesses_left e = 5 - a"
    using assms(4,6) Pend_Set p(1) guesses_left_serialized [OF assms(1) a] guesses_left_serialized [OF assms(1-3)]
    by (simp_all add: settled_def)
  ultimately show ?thesis using assms(4,6,7) Pend_Set p(2)
    by (auto simp: moves_well_def judged_def accepted_def settled_def)
qed

lemma exec_moves:
  assumes "issued tid tx" "ve_id v = tid" "phase_fits sha256 tx (ve_code v) (ve_phase v)"
    and "entry_fits tx (tid_entry view tid s)" and "exec_call view R spurious f v s = (phase, t)"
  shows "moves_well sha256 tx (ve_code v) (tid_entry view tid s) (ve_phase v) (tid_entry view tid t) phase"
proof (cases "\<exists>n raw p. ve_phase v = Watching n raw p \<and> \<not> spurious \<and> stored_text (transaction_key tid) (view s) = raw")
  case True
  then obtain n raw p where w: "ve_phase v = Watching n raw p" "\<not> spurious"
    "stored_text (transaction_key tid) (view s) = raw" by blast
  with assms(3) obtain a clocks where a: "0 \<le> a" "a < 5" "raw = Some (serialize_transaction (guessed a tx))"
    "p = judgement clocks (code_digest sha256 (ve_code v)) (guessed a tx)" by auto
  obtain ttl where e: "tid_entry view tid s = Some (RString (serialize_transaction (guessed a tx)), ttl)"
    using stored_text_fits [OF assms(4) refl] w(3) a(3) by auto
  obtain r t' where call: "redis_call f (pending_command R (transaction_key tid) p) s = (r, t')" by fastforce
  have ttl: "\<And>v ttl r. p = Pend_Set v ttl r \<Longrightarrow> 0 < ttl" using judgement_ttl a(4) by metis
  have out: "t = t'" "phase = (case r of Inl _ \<Rightarrow> Answered (result_only Code_Unavailable) | Inr _ \<Rightarrow> Answered (pending_result p))"
    using assms(2,5) w call by (auto simp: verify_exec_def split: sum.splits)
  show ?thesis
  proof (cases "f = NotSent")
    case True
    then have "tid_entry view tid t = tid_entry view tid s" and "phase = Answered (result_only Code_Unavailable)"
      using call_pending [OF call ttl] out by (auto split: sum.splits)
    with assms(4) w(1) show ?thesis by (auto simp: moves_well_def judged_def accepted_def)
  next
    case False
    then have "tid_entry view tid t = settled p" using call_pending(1) [OF call ttl] out by simp
    moreover have "phase = Answered (pending_result p) \<or> phase = Answered (result_only Code_Unavailable)"
      using out by (auto split: sum.splits)
    ultimately show ?thesis unfolding w(1) by (rule settled_moves [OF assms(1) a(1,2) e a(4)])
  qed
next
  case False
  then have "t = s \<and> (phase = ve_phase v \<or> (\<exists>n raw p. ve_phase v = Watching n raw p \<and> phase = Trying n))"
    using assms(2,5) by (cases "ve_phase v") (auto simp: verify_exec_def)
  with assms(3,4) show ?thesis by (auto simp: moves_well_def)
qed

lemma pending_other:
  assumes "redis_call f (pending_command R k p) s = (r, t)" and "k' \<noteq> k"
  shows "ks_data (view t) k' = ks_data (view s) k'"
proof (cases p)
  case (Pend_Delete q)
  with assms(1) have "redis_call f (rc_del R k) s = (r, t)" by simp
  from call_del(1) [OF this] assms(2) show ?thesis by simp
next
  case (Pend_Set v ttl q)
  with assms(1) have call: "redis_call f (rc_set R k v (Some ttl) False) s = (r, t)" by simp
  have "view t = snd (redis_call f (ks_set k v (Some ttl) False) (view s))"
    using sim_step [OF sim_call [OF sim_set] call] by simp
  with assms(2) show ?thesis by (cases f) simp_all
qed

lemma watch_other: "watch_call sha256 R f clocks v s = (phase, t) \<Longrightarrow> view t = view s"
  using call_get(1) by (fastforce simp: verify_watch_def split: verify_phase.splits nat.splits prod.splits sum.splits)

lemma exec_other:
  assumes "exec_call view R spurious f v s = (phase, t)" and "ve_id v \<noteq> tid"
  shows "tid_entry view tid t = tid_entry view tid s"
  using assms pending_other [of f "transaction_key (ve_id v)" _ s _ t "transaction_key tid"]
  by (fastforce simp: verify_exec_def split: verify_phase.splits if_splits prod.splits sum.splits)

lemma on_call_inv:
  assumes "issued tid tx" "code_inv sha256 tid tx (tid_entry view tid (cs_redis st)) (cs_calls st)"
    and own: "\<And>v phase t. v \<in> set (cs_calls st) \<Longrightarrow> ve_id v = tid \<Longrightarrow> act v (cs_redis st) = (phase, t) \<Longrightarrow>
       phase_fits sha256 tx (ve_code v) (ve_phase v) \<Longrightarrow>
       entry_fits tx (tid_entry view tid (cs_redis st)) \<Longrightarrow>
       moves_well sha256 tx (ve_code v) (tid_entry view tid (cs_redis st)) (ve_phase v) (tid_entry view tid t) phase"
    and other: "\<And>v phase t. ve_id v \<noteq> tid \<Longrightarrow> act v (cs_redis st) = (phase, t) \<Longrightarrow>
       tid_entry view tid t = tid_entry view tid (cs_redis st)"
  shows "code_inv sha256 tid tx (tid_entry view tid (cs_redis (on_call n act st))) (cs_calls (on_call n act st))"
proof (cases "n < length (cs_calls st)")
  case True
  obtain phase t where act: "act (cs_calls st ! n) (cs_redis st) = (phase, t)" by fastforce
  show ?thesis
  proof (cases "ve_id (cs_calls st ! n) = tid")
    case own_call: True
    have "cs_calls st ! n \<in> set (cs_calls st)" using True by simp
    moreover have "phase_fits sha256 tx (ve_code (cs_calls st ! n)) (ve_phase (cs_calls st ! n))"
      "entry_fits tx (tid_entry view tid (cs_redis st))"
      using assms(2) own_call calculation by (simp_all add: code_inv_def)
    ultimately show ?thesis
      using code_inv_moves [OF assms(2) True own_call own [OF _ own_call act]] True act by (simp add: on_call_def)
  next
    case False
    with code_inv_other [OF assms(2) True False] other [OF False act] True act show ?thesis
      by (simp add: on_call_def)
  qed
next
  case False
  with assms(2) show ?thesis by (simp add: on_call_def)
qed

lemma code_step_inv:
  assumes "issued tid tx" "op_fits R tid op"
    and "code_inv sha256 tid tx (tid_entry view tid (cs_redis st)) (cs_calls st)"
  shows "code_inv sha256 tid tx (tid_entry view tid (cs_redis (code_step sha256 R view elapse op st)))
           (cs_calls (code_step sha256 R view elapse op st))"
proof (cases op)
  case (Issue_Op io flow user_id email code lc)
  with assms(2) have "so_client io \<in> {None, Some R}" "so_token io \<noteq> tid" by auto
  from code_inv_fades [OF assms(1,3) issue_other_fades [OF this]] Issue_Op show ?thesis by simp
next
  case (Lookup_Op io i)
  with assms(2) have "lo_client io \<in> {None, Some R}" "fst (lo_delete io) \<in> {None, Some R}" by auto
  from code_inv_fades [OF assms(1,3) lookup_fades [OF this]] Lookup_Op show ?thesis by simp
next
  case (Discard_Op io i)
  with assms(2) have "fst io \<in> {None, Some R}" by simp
  from code_inv_fades [OF assms(1,3) delete_fades [OF this]] Discard_Op show ?thesis by simp
next
  case (Submit_Op i code)
  with assms(3) show ?thesis by (auto simp: code_inv_def answers_def)
next
  case (Watch_Op n f clocks)
  have "code_inv sha256 tid tx (tid_entry view tid (cs_redis (on_call n (watch_call sha256 R f clocks) st)))
      (cs_calls (on_call n (watch_call sha256 R f clocks) st))"
    by (rule on_call_inv [OF assms(1,3)]) (use watch_moves [OF assms(1)] watch_other in metis)+
  with Watch_Op show ?thesis by simp
next
  case (Exec_Op n spurious f)
  have "code_inv sha256 tid tx (tid_entry view tid (cs_redis (on_call n (exec_call view R spurious f) st)))
      (cs_calls (on_call n (exec_call view R spurious f) st))"
    by (rule on_call_inv [OF assms(1,3)]) (use exec_moves [OF assms(1)] exec_other in metis)+
  with Exec_Op show ?thesis by simp
next
  case (Pass_Op d)
  with code_inv_fades [OF assms(1,3) fades_age [of _ d]] show ?thesis by (simp add: view_elapse)
qed

lemma code_run_inv:
  assumes "issued tid tx" "\<forall>op \<in> set ops. op_fits R tid op"
    and "code_inv sha256 tid tx (tid_entry view tid (cs_redis st)) (cs_calls st)"
  shows "code_inv sha256 tid tx (tid_entry view tid (cs_redis (fold (code_step sha256 R view elapse) ops st)))
           (cs_calls (fold (code_step sha256 R view elapse) ops st))"
  using assms(2,3)
proof (induction ops arbitrary: st)
  case (Cons op ops)
  then show ?case using code_step_inv [OF assms(1), of op sha256 st] by simp
qed simp

text \<open>A transaction that was just stored.\<close>

lemma store_Some:
  assumes "so_client io = Some R"
    and "store_email_auth_transaction sha256 io flow user_id email code lc s = (Some tid, s')"
  shows "so_token io = tid \<and> flow \<in> {FLOW_LOGIN, FLOW_REGISTRATION} \<and> 0 < user_id \<and> email \<noteq> [] \<and> code \<noteq> [] \<and>
    view s' = put_key (transaction_key tid)
      (RString (serialize_transaction
         \<lparr>et_transaction_id = tid, et_flow = flow, et_user_id = user_id, et_email = email,
          et_code_digest = code_digest sha256 code, et_issued_at = unix_time (so_now io), et_attempts = 0,
          et_locale = lc\<rparr>), Some (second * 300)) (view s)"
proof -
  define body where "body = serialize_transaction
     \<lparr>et_transaction_id = so_token io, et_flow = flow, et_user_id = user_id, et_email = email,
      et_code_digest = code_digest sha256 code, et_issued_at = unix_time (so_now io), et_attempts = 0, et_locale = lc\<rparr>"
  obtain r t where call: "redis_call (so_fault io) (rc_set R (transaction_key (so_token io)) body (Some 300) True) s = (r, t)"
    by fastforce
  have "(0::int) < 300" by simp
  note set = call_set [OF call this]
  from assms call have out: "flow \<in> {FLOW_LOGIN, FLOW_REGISTRATION}" "0 < user_id" "email \<noteq> []" "code \<noteq> []"
    "r = Inr True" "tid = so_token io" "s' = t"
    by (auto simp: store_email_auth_transaction_def body_def Let_def split: if_splits sum.splits)
  then have "so_fault io = Delivered" using set(3) by fastforce
  with set(1,2) out show ?thesis by (auto simp: body_def)
qed

end

section \<open>Checks one after another\<close>

text \<open>
  The contract of a mailed code, without Redis: \<open>n\<close> guesses are left, the right one is accepted and ends
  it, the last wrong one ends it, and from then on there is nothing to check.
\<close>

fun code_verdicts :: "(string \<Rightarrow> bool) \<Rightarrow> nat \<Rightarrow> string list \<Rightarrow> code_status list" where
  "code_verdicts right n [] = []"
| "code_verdicts right 0 (c # cs) = Code_Missing # code_verdicts right 0 cs"
| "code_verdicts right (Suc n) (c # cs) =
     (if right c then Code_Success # code_verdicts right 0 cs
      else if n = 0 then Code_Exhausted # code_verdicts right 0 cs
      else Code_Invalid # code_verdicts right n cs)"

text \<open>The same on the server: a check at each of the given times, undisturbed, time passing between.\<close>

definition calm_round :: "ticks \<Rightarrow> 's round_io" where
  "calm_round now =
     \<lparr>ro_read = Delivered, ro_clocks = (now, now), ro_between = id, ro_conflict = False, ro_exec = Delivered\<rparr>"

fun check_codes ::
  "(string \<Rightarrow> string) \<Rightarrow> 's redis_cmds \<Rightarrow> (ticks \<Rightarrow> 's \<Rightarrow> 's) \<Rightarrow> string \<Rightarrow> ticks \<Rightarrow> (ticks \<times> string) list \<Rightarrow> 's
     \<Rightarrow> verification_result list" where
  "check_codes sha256 R elapse tid clock [] s = []"
| "check_codes sha256 R elapse tid clock ((t, code) # cs) s =
     (case verify_email_auth_transaction sha256 (Some R) (\<lambda>_. calm_round t) tid code (elapse (t - clock) s) of
        (r, s) \<Rightarrow> r # check_codes sha256 R elapse tid t cs s)"

text \<open>An entry with \<open>n\<close> guesses left that outlives every time at which its code is still valid.\<close>

definition entry_alive :: "email_auth_transaction \<Rightarrow> ticks \<Rightarrow> nat \<Rightarrow> rentry option \<Rightarrow> bool" where
  "entry_alive tx clock n e \<longleftrightarrow>
     (if n = 0 then e = None
      else \<exists>ttl. e = Some (RString (serialize_transaction (guessed (5 - int n) tx)), Some ttl) \<and> n \<le> 5 \<and>
             second * (et_issued_at tx + 300) \<le> clock + ttl)"

lemma unix_time_bounds: "second * unix_time t \<le> t" "t < second * unix_time t + second"
  unfolding unix_time_def by (simp_all add: algebra_simps)

lemma entry_alive_age:
  assumes "entry_alive tx clock n e" and "unix_time t < et_issued_at tx + 300"
  shows "entry_alive tx t n (Option.bind e (age_entry (t - clock)))"
proof (cases "n = 0")
  case False
  with assms(1) obtain ttl where e: "e = Some (RString (serialize_transaction (guessed (5 - int n) tx)), Some ttl)"
    "n \<le> 5" "second * (et_issued_at tx + 300) \<le> clock + ttl"
    by (auto simp: entry_alive_def)
  have "second * (unix_time t + 1) \<le> second * (et_issued_at tx + 300)" using assms(2) by simp
  with unix_time_bounds(2) [of t] e(3) have "t < clock + ttl" by simp
  with False e show ?thesis by (auto simp: entry_alive_def)
qed (use assms in \<open>simp add: entry_alive_def\<close>)

lemma remaining_covers:
  assumes "et_issued_at tx \<le> unix_time t" "unix_time t < et_issued_at tx + 300"
  shows "second * (et_issued_at tx + 300) \<le> t + second * remaining_seconds t (et_issued_at tx)"
  using assms unix_time_bounds(1) [of t] by (simp add: remaining_seconds_def Let_def algebra_simps)

context redis_server
begin

text \<open>An undisturbed check of a stored transaction does what its judgement says.\<close>

lemma calm_check:
  assumes "issued tid tx" "et_attempts tx < 5" "tid \<noteq> []"
    and "tid_entry view tid s = Some (RString (serialize_transaction tx), ttl)"
    and "p = judgement (t, t) (code_digest sha256 code) tx"
  obtains s' where
    "verify_email_auth_transaction sha256 (Some R) (\<lambda>_. calm_round t) tid code s = (pending_result p, s')"
    "view s' = (view s)\<lparr>ks_data := (ks_data (view s))(transaction_key tid := settled p)\<rparr>"
proof -
  let ?k = "transaction_key tid"
  obtain r t1 where get: "redis_call Delivered (rc_get R ?k) s = (r, t1)" by fastforce
  from sim_step [OF sim_call [OF sim_get] get] assms(4)
  have r: "r = Inr (Some (serialize_transaction tx))" "view t1 = view s" by auto
  have "decide_code (t, t) tid (code_digest sha256 code) (Some (serialize_transaction tx)) = Inr p"
    using assms by (simp add: decide_serialized issued_def)
  with get r have watch: "verify_watch sha256 R Delivered (t, t) tid code 2 s
      = (Watching 2 (Some (serialize_transaction tx)) p, t1)"
    by (simp add: verify_watch_def)
  obtain q t2 where exec: "redis_call Delivered (pending_command R ?k p) t1 = (q, t2)" by fastforce
  have ttl: "\<And>v ttl r. p = Pend_Set v ttl r \<Longrightarrow> 0 < ttl" using judgement_ttl assms(5) by metis
  from call_pending [OF exec ttl] r
  have "\<exists>b. q = Inr b" "view t2 = (view s)\<lparr>ks_data := (ks_data (view s))(?k := settled p)\<rparr>" by auto
  moreover have "verify_email_auth_transaction sha256 (Some R) (\<lambda>_. calm_round t) tid code s = (pending_result p, t2)"
    if "q = Inr b" for b
    using assms(3) watch exec that
    by (simp add: verify_email_auth_transaction_def numeral_3_eq_3 calm_round_def verify_exec_def numeral_2_eq_2)
  ultimately show ?thesis using that by blast
qed

lemma missing_check:
  assumes "tid \<noteq> []" "tid_entry view tid s = None"
  obtains s' where
    "verify_email_auth_transaction sha256 (Some R) (\<lambda>_. calm_round t) tid code s = (result_only Code_Missing, s')"
    "view s' = view s"
proof -
  obtain r t1 where get: "redis_call Delivered (rc_get R (transaction_key tid)) s = (r, t1)" by fastforce
  from sim_step [OF sim_call [OF sim_get] get] assms(2) have "r = Inr None" "view t1 = view s" by auto
  with get assms(1) that show ?thesis
    by (simp add: verify_email_auth_transaction_def numeral_3_eq_3 calm_round_def verify_watch_def decide_code_def)
qed

text \<open>The guesses left after one more.\<close>

lemma alive_check:
  assumes "issued tid tx" "tid \<noteq> []" "entry_alive tx t n (tid_entry view tid s)"
    and "et_issued_at tx \<le> unix_time t" "unix_time t < et_issued_at tx + 300"
  obtains r s' n' where
    "verify_email_auth_transaction sha256 (Some R) (\<lambda>_. calm_round t) tid code s = (r, s')"
    "entry_alive tx t n' (tid_entry view tid s')"
    "\<And>cs. code_verdicts (\<lambda>c. code_digest sha256 c = et_code_digest tx) n (code # cs) =
       vr_status r # code_verdicts (\<lambda>c. code_digest sha256 c = et_code_digest tx) n' cs"
proof (cases n)
  case 0
  with assms(3) have "tid_entry view tid s = None" by (simp add: entry_alive_def)
  from missing_check [OF assms(2) this] obtain s' where
    "verify_email_auth_transaction sha256 (Some R) (\<lambda>_. calm_round t) tid code s = (result_only Code_Missing, s')"
    "view s' = view s" .
  with that [of "result_only Code_Missing" s' 0] assms(3) 0 show ?thesis by simp
next
  case (Suc m)
  define a where "a = 5 - int n"
  from assms(3) Suc obtain ttl where
    e: "tid_entry view tid s = Some (RString (serialize_transaction (guessed a tx)), ttl)" and n: "n \<le> 5"
    by (auto simp: entry_alive_def a_def)
  have a: "0 \<le> a" "a < 5" "a = 4 \<longleftrightarrow> m = 0" "a + 1 = 5 - int m" using n Suc by (auto simp: a_def)
  define p where "p = judgement (t, t) (code_digest sha256 code) (guessed a tx)"
  have "et_attempts (guessed a tx) < 5" using a(2) by simp
  from calm_check [OF issued_guessed [OF assms(1) a(1,2)] this assms(2) e p_def] obtain s' where calm:
    "verify_email_auth_transaction sha256 (Some R) (\<lambda>_. calm_round t) tid code s = (pending_result p, s')"
    "view s' = (view s)\<lparr>ks_data := (ks_data (view s))(transaction_key tid := settled p)\<rparr>" .
  then have s': "verify_email_auth_transaction sha256 (Some R) (\<lambda>_. calm_round t) tid code s = (pending_result p, s')"
    "tid_entry view tid s' = settled p"
    by simp_all
  have live: "transaction_status t (guessed a tx) = Code_Success" using assms(5) by (simp add: transaction_status_def)
  show ?thesis
  proof (cases "code_digest sha256 code = et_code_digest tx \<or> m = 0")
    case True
    then have "settled p = None" using live a(3) by (auto simp: p_def judgement_def settled_def)
    with that [OF s'(1), of 0] s'(2) True Suc live a(3) show ?thesis
      by (auto simp: entry_alive_def p_def judgement_def)
  next
    case False
    then have "p = Pend_Set (serialize_transaction (guessed (a + 1) tx)) (remaining_seconds t (et_issued_at tx))
        \<lparr>vr_status = Code_Invalid, vr_transaction = Some (guessed (a + 1) tx)\<rparr>"
      using live a(3) by (simp add: p_def judgement_def)
    with that [OF s'(1), of m] s'(2) False Suc n a(4) remaining_covers [OF assms(4,5)] show ?thesis
      by (auto simp: entry_alive_def settled_def)
  qed
qed

lemma check_codes_verdicts:
  assumes "issued tid tx" "tid \<noteq> []" "entry_alive tx clock n (tid_entry view tid s)"
    and "\<forall>(t, c) \<in> set cs. et_issued_at tx \<le> unix_time t \<and> unix_time t < et_issued_at tx + 300"
  shows "map vr_status (check_codes sha256 R elapse tid clock cs s) =
           code_verdicts (\<lambda>c. code_digest sha256 c = et_code_digest tx) n (map snd cs)"
  using assms(3,4)
proof (induction cs arbitrary: clock n s)
  case (Cons tc cs)
  obtain t code where tc: "tc = (t, code)" by fastforce
  with Cons.prems have t: "et_issued_at tx \<le> unix_time t" "unix_time t < et_issued_at tx + 300" by auto
  have "entry_alive tx t n (tid_entry view tid (elapse (t - clock) s))"
    using entry_alive_age [OF Cons.prems(1) t(2)] by (simp add: view_elapse)
  then obtain r s' n' where one:
    "verify_email_auth_transaction sha256 (Some R) (\<lambda>_. calm_round t) tid code (elapse (t - clock) s) = (r, s')"
    "entry_alive tx t n' (tid_entry view tid s')"
    "\<And>cs. code_verdicts (\<lambda>c. code_digest sha256 c = et_code_digest tx) n (code # cs) =
       vr_status r # code_verdicts (\<lambda>c. code_digest sha256 c = et_code_digest tx) n' cs"
    using alive_check [OF assms(1,2) _ t, of n "elapse (t - clock) s" sha256 code] by blast
  with Cons.IH [OF one(2)] Cons.prems(2) tc show ?case by simp
qed simp

end

lemma code_inv_sound:
  assumes "issued tid tx" "code_inv sha256 tid tx e calls"
  shows "answers judged tid calls \<le> 5" "answers accepted tid calls \<le> 1"
    and "v \<in> set calls \<Longrightarrow> ve_id v = tid \<Longrightarrow> ve_phase v = Answered r \<Longrightarrow> vr_status r = Code_Success \<Longrightarrow>
      code_digest sha256 (ve_code v) = et_code_digest tx \<and> (\<exists>a. vr_transaction r = Some (guessed a tx))"
proof -
  have "0 \<le> guesses_left e" using assms entry_fits_left by (auto simp: code_inv_def)
  with assms(2) show "answers judged tid calls \<le> 5" by (simp add: code_inv_def)
  show "answers accepted tid calls \<le> 1" using assms(2) by (cases "e = None") (auto simp: code_inv_def)
  show "code_digest sha256 (ve_code v) = et_code_digest tx \<and> (\<exists>a. vr_transaction r = Some (guessed a tx))"
    if "v \<in> set calls" "ve_id v = tid" "ve_phase v = Answered r" "vr_status r = Code_Success"
    using assms(2) that by (fastforce simp: code_inv_def accepted_def)
qed

section \<open>Properties\<close>

text \<open>A code for examples, issued at the Unix time 1000.5 s.\<close>

definition demo_sha :: "string \<Rightarrow> string" where
  "demo_sha code = take 64 (code @ replicate 64 CHR ''0'')"

definition demo_issue :: "keyspace store_io" where
  "demo_issue = \<lparr>so_client = Some ks_cmds, so_fault = Delivered, so_now = 1000500000, so_token = ''t''\<rparr>"

definition demo_redis :: keyspace where
  "demo_redis = snd (store_email_auth_transaction demo_sha demo_issue FLOW_LOGIN 7 ''a@b'' ''123456'' None empty_keyspace)"

lemma demo_unix [simp]: "unix_time (so_now demo_issue) = 1000"
  by (simp add: demo_issue_def unix_time_def)

lemma demo_digits: "length (show_int 7) \<le> 4300" "length (show_int 1000) \<le> 4300"
  by code_simp+

lemma demo_stored_code:
  "store_email_auth_transaction demo_sha demo_issue FLOW_LOGIN 7 ''a@b'' ''123456'' None empty_keyspace
     = (Some ''t'', demo_redis)"
  by (simp add: demo_redis_def store_email_auth_transaction_def demo_issue_def empty_keyspace_def Let_def)

lemma demo_issue_ok:
  "so_client demo_issue = Some ks_cmds" "length (demo_sha ''123456'') = 64" "0 < unix_time (so_now demo_issue)"
  "length (show_int 7) \<le> 4300" "length (show_int (unix_time (so_now demo_issue))) \<le> 4300"
  using demo_digits by (simp_all add: demo_issue_def demo_sha_def unix_time_def)

text \<open>Two workers check the right code at the same time.\<close>

definition demo_race :: "keyspace code_op list" where
  "demo_race =
     [Submit_Op ''t'' ''123456'', Submit_Op ''t'' ''123456'',
      Watch_Op 0 Delivered (1001000000, 1001000000), Watch_Op 1 Delivered (1001000000, 1001000000),
      Exec_Op 1 False Delivered, Exec_Op 0 False Delivered, Watch_Op 0 Delivered (1001000000, 1001000000)]"

text \<open>
  C5: guesses at a mailed code are bounded.  After a code was issued under a fresh id, let any number of
  checks of that id, by any workers and with any codes, run step by step in any order, with conflicts,
  lost connections, expiry, lookups, deletions and other transactions in between.  At most five of the
  checks are answered in a way that tells whether the guess was right, at most one accepts, and an
  accepted guess has the digest of the code that was issued, and its answer names the flow, the user and
  the address it was issued for.
\<close>

theorem code_guesses_bounded:
  assumes "redis_server R view elapse" and "so_client io = Some R"
    and "store_email_auth_transaction sha256 io flow user_id email code lc s = (Some tid, s')"
    and "length (sha256 code) = 64" and "0 < unix_time (so_now io)"
    and "length (show_int user_id) \<le> 4300" and "length (show_int (unix_time (so_now io))) \<le> 4300"
    and "\<forall>v \<in> set calls. ve_id v \<noteq> tid" and "\<forall>op \<in> set ops. op_fits R tid op"
    and "final = cs_calls (fold (code_step sha256 R view elapse) ops \<lparr>cs_redis = s', cs_calls = calls\<rparr>)"
  shows "answers judged tid final \<le> 5 \<and> answers accepted tid final \<le> 1 \<and>
    (\<forall>v \<in> set final. \<forall>r. ve_id v = tid \<and> ve_phase v = Answered r \<and> vr_status r = Code_Success \<longrightarrow>
       sha256 (ve_code v) = sha256 code \<and>
       (\<exists>tx. vr_transaction r = Some tx \<and> et_flow tx = flow \<and> et_user_id tx = user_id \<and> et_email tx = email))"
proof -
  let ?tx = "\<lparr>et_transaction_id = tid, et_flow = flow, et_user_id = user_id, et_email = email,
     et_code_digest = code_digest sha256 code, et_issued_at = unix_time (so_now io), et_attempts = 0, et_locale = lc\<rparr>"
  note stored = redis_server.store_Some [OF assms(1-3)]
  have tx: "issued tid ?tx" using stored assms(4-7) show_small [of 0]
    by (auto simp: issued_def transaction_ok_def transaction_printable_def code_digest_def)
  have guess: "guessed 0 ?tx = ?tx" by simp
  have "filter (\<lambda>v. ve_id v = tid \<and> phase_answer P (ve_phase v)) calls = []" for P
    using assms(8) by (simp add: filter_empty_conv)
  then have "code_inv sha256 tid ?tx (tid_entry view tid s') calls"
    using stored assms(8) guess guesses_left_serialized [OF tx, of 0] unfolding code_inv_def entry_fits_def answers_def
    by force
  with redis_server.code_run_inv [OF assms(1) tx assms(9), of sha256 "\<lparr>cs_redis = s', cs_calls = calls\<rparr>"]
  have inv: "code_inv sha256 tid ?tx (tid_entry view tid
      (cs_redis (fold (code_step sha256 R view elapse) ops \<lparr>cs_redis = s', cs_calls = calls\<rparr>))) final"
    using assms(10) by simp
  note sound = code_inv_sound [OF tx inv]
  have "sha256 (ve_code v) = sha256 code \<and>
       (\<exists>tx. vr_transaction r = Some tx \<and> et_flow tx = flow \<and> et_user_id tx = user_id \<and> et_email tx = email)"
    if "v \<in> set final" "ve_id v = tid" "ve_phase v = Answered r" "vr_status r = Code_Success" for v r
    using sound(3) [OF that] by (auto simp: code_digest_def)
  with sound(1,2) show ?thesis by blast
qed

theorem code_guesses_bounded_witness:
  "answers judged ''t'' (cs_calls (fold (code_step demo_sha ks_cmds id ks_elapse) demo_race
       \<lparr>cs_redis = demo_redis, cs_calls = []\<rparr>)) \<le> 5 \<and>
   answers accepted ''t'' (cs_calls (fold (code_step demo_sha ks_cmds id ks_elapse) demo_race
       \<lparr>cs_redis = demo_redis, cs_calls = []\<rparr>)) \<le> 1"
proof -
  have "\<forall>op \<in> set demo_race. op_fits ks_cmds ''t'' op" by (simp add: demo_race_def)
  from code_guesses_bounded [OF reference_server.redis_server_axioms demo_issue_ok(1) demo_stored_code
      demo_issue_ok(2-5) _ this refl, of "[]"]
  show ?thesis by simp
qed

text \<open>
  Checks made one after another within the five minutes answer what the contract \<open>code_verdicts\<close> says:
  up to four wrong guesses are reported as wrong, the right one is accepted, a fifth wrong one ends the
  transaction, and after that there is nothing left to check.  In particular the mailed code is accepted
  whenever it is entered in time after at most four wrong guesses: neither the seconds that pass nor the
  rewriting of the record make it expire early.
\<close>

theorem code_answers_refine:
  assumes "redis_server R view elapse" and "so_client io = Some R"
    and "store_email_auth_transaction sha256 io flow user_id email code lc s = (Some tid, s')"
    and "length (sha256 code) = 64" and "0 < unix_time (so_now io)" and "tid \<noteq> []"
    and "length (show_int user_id) \<le> 4300" and "length (show_int (unix_time (so_now io))) \<le> 4300"
    and "\<forall>(t, c) \<in> set cs. unix_time (so_now io) \<le> unix_time t \<and> unix_time t < unix_time (so_now io) + 300"
  shows "map vr_status (check_codes sha256 R elapse tid (so_now io) cs s') =
           code_verdicts (\<lambda>c. sha256 c = sha256 code) 5 (map snd cs)"
proof -
  let ?tx = "\<lparr>et_transaction_id = tid, et_flow = flow, et_user_id = user_id, et_email = email,
     et_code_digest = code_digest sha256 code, et_issued_at = unix_time (so_now io), et_attempts = 0, et_locale = lc\<rparr>"
  note stored = redis_server.store_Some [OF assms(1-3)]
  have tx: "issued tid ?tx" using stored assms(4,5,7,8) show_small [of 0]
    by (auto simp: issued_def transaction_ok_def transaction_printable_def code_digest_def)
  have "entry_alive ?tx (so_now io) 5 (tid_entry view tid s')"
    using stored unix_time_bounds(1) [of "so_now io"] by (simp add: entry_alive_def)
  from redis_server.check_codes_verdicts [OF assms(1) tx assms(6) this, of cs sha256] assms(9)
  show ?thesis by (simp add: code_digest_def)
qed

theorem code_answers_refine_witness:
  "map vr_status (check_codes demo_sha ks_cmds ks_elapse ''t'' 1000500000
      [(1001000000, ''1''), (1002000000, ''2''), (1299999999, ''123456''), (1299999999, ''123456'')] demo_redis) =
   [Code_Invalid, Code_Invalid, Code_Success, Code_Missing]"
proof -
  have "demo_sha ''1'' \<noteq> demo_sha ''123456''" "demo_sha ''2'' \<noteq> demo_sha ''123456''" by code_simp+
  then have "code_verdicts (\<lambda>c. demo_sha c = demo_sha ''123456'') 5 [''1'', ''2'', ''123456'', ''123456'']
      = [Code_Invalid, Code_Invalid, Code_Success, Code_Missing]"
    by (simp add: eval_nat_numeral)
  then show ?thesis
    using code_answers_refine [OF reference_server.redis_server_axioms demo_issue_ok(1) demo_stored_code
        demo_issue_ok(2,3) _ demo_issue_ok(4,5),
        of "[(1001000000, ''1''), (1002000000, ''2''), (1299999999, ''123456''), (1299999999, ''123456'')]"]
    by (simp add: unix_time_def demo_issue_def)
qed

text \<open>
  C36: the values in Redis are typed.  Whatever text is stored under a transaction's key, what is read from
  it as a transaction is well-formed: a known flow, a positive user id, a non-empty address, a digest of
  64 characters, a positive time and a count that is not negative.  And every well-formed transaction is
  read back exactly as it was written.
\<close>

theorem decoded_transactions_typed:
  "(decode_transaction tid now raw = Some (Some tx, st) \<longrightarrow> transaction_ok tx \<and> et_transaction_id tx = tid) \<and>
   (transaction_ok tx \<and> transaction_printable tx \<longrightarrow>
      decode_transaction (et_transaction_id tx) now (Some (serialize_transaction tx)) =
        Some (Some tx, transaction_status now tx))"
  using decode_transaction_Some decode_serialize by blast

theorem decoded_transactions_typed_witness:
  "decode_transaction ''t'' 1001000000 (Some (serialize_transaction
       \<lparr>et_transaction_id = ''t'', et_flow = FLOW_LOGIN, et_user_id = 7, et_email = ''a@b'',
        et_code_digest = demo_sha ''123456'', et_issued_at = 1000, et_attempts = 0, et_locale = None\<rparr>)) =
   Some (Some \<lparr>et_transaction_id = ''t'', et_flow = FLOW_LOGIN, et_user_id = 7, et_email = ''a@b'',
        et_code_digest = demo_sha ''123456'', et_issued_at = 1000, et_attempts = 0, et_locale = None\<rparr>, Code_Success)"
  (is "decode_transaction _ _ (Some (serialize_transaction ?tx)) = _")
proof -
  have "transaction_ok ?tx \<and> transaction_printable ?tx"
    using demo_digits show_small [of 0] by (simp add: transaction_ok_def transaction_printable_def demo_sha_def)
  then show ?thesis using decoded_transactions_typed [of "''t''" 1001000000 None ?tx Code_Missing]
    by (simp add: transaction_status_def unix_time_def)
qed

end
