(* ===== verification/Email_Routes.thy ===== *)
theory Email_Routes
  imports Email_Auth Rate_Limit Quota Session_Middleware Tables
begin

text \<open>
  The handlers of sign-in and registration by mail: \<open>blueprints/auth_email.py\<close>,
  \<open>blueprints/verification.py\<close> and \<open>blueprints/email_auth_support.py\<close>.  A handler works on one
  \<open>auth_world\<close>: the Redis server, the in-memory counters, the users table, the session of its request and
  the mails and follow-up calls it made.  The limits and the mailed codes live on the same server.  What
  a call meets (connections, clock readings, random values, a mail or database call that raises) is an
  argument.  The texts of the answers are the constructors of \<open>auth_message\<close>.
\<close>

section \<open>State and answers\<close>

record user_row =
  us_id :: int
  us_email :: string
  us_is_verified :: bool

datatype follow_up =
    Copied_Tasks int
  | Claimed_Prompts int string

record 's auth_world =
  aw_redis :: 's
  aw_windows :: windows
  aw_daily :: counts
  aw_monthly :: counts
  aw_users :: "user_row list"
  aw_scope :: scope
  aw_mails :: "(string \<times> string) list"
  aw_follow_ups :: "follow_up list"

datatype auth_message =
    Bad_Body
  | Limited "limit_message option"
  | Mail_Quota_Used int
  | User_Unknown
  | Code_Mismatch
  | Too_Many_Attempts
  | Code_Outdated
  | No_Transaction
  | Auth_Unavailable
  | Internal_Error

datatype auth_reply =
    Reply_Fail auth_message int bool
  | Reply_Limited auth_message
  | Reply_Signed_In string bool bool
  | Reply_Sent cookie

abbreviation (input) AUTH_FAILURE_STATUS_CODE :: int where
  "AUTH_FAILURE_STATUS_CODE \<equiv> 401"

definition on_limits :: "('s limit_state \<Rightarrow> 'r \<times> 's limit_state) \<Rightarrow> 's auth_world \<Rightarrow> 'r \<times> 's auth_world" where
  "on_limits act w =
     (case act \<lparr>ls_redis = aw_redis w, ls_windows = aw_windows w\<rparr> of
        (r, st) \<Rightarrow> (r, w\<lparr>aw_redis := ls_redis st, aw_windows := ls_windows st\<rparr>))"

definition on_quota :: "('s quota_state \<Rightarrow> 'r \<times> 's quota_state) \<Rightarrow> 's auth_world \<Rightarrow> 'r \<times> 's auth_world" where
  "on_quota act w =
     (case act \<lparr>qs_redis = aw_redis w, qs_daily = aw_daily w, qs_monthly = aw_monthly w\<rparr> of
        (r, st) \<Rightarrow> (r, w\<lparr>aw_redis := qs_redis st, aw_daily := qs_daily st, aw_monthly := qs_monthly st\<rparr>))"

definition on_redis :: "('s \<Rightarrow> 'r \<times> 's) \<Rightarrow> 's auth_world \<Rightarrow> 'r \<times> 's auth_world" where
  "on_redis act w = (case act (aw_redis w) of (r, s) \<Rightarrow> (r, w\<lparr>aw_redis := s\<rparr>))"

abbreviation on_session :: "(dict \<Rightarrow> dict) \<Rightarrow> 's auth_world \<Rightarrow> 's auth_world" where
  "on_session f w \<equiv> w\<lparr>aw_scope := (aw_scope w)\<lparr>sc_session := f (sc_session (aw_scope w))\<rparr>\<rparr>"

section \<open>Users\<close>

definition get_user_by_id :: "int \<Rightarrow> user_row list \<Rightarrow> user_row option" where
  "get_user_by_id user_id users = select_one (\<lambda>u. us_id u = user_id) users"

definition get_user_by_email :: "string \<Rightarrow> user_row list \<Rightarrow> user_row option" where
  "get_user_by_email email users = select_one (\<lambda>u. us_email u = email) users"

text \<open>\<open>new_id\<close> is the number the database gives the row.\<close>

definition create_user :: "int \<Rightarrow> string \<Rightarrow> user_row list \<Rightarrow> user_row list" where
  "create_user new_id email users = users @ [\<lparr>us_id = new_id, us_email = email, us_is_verified = False\<rparr>]"

definition set_user_verified :: "int \<Rightarrow> user_row list \<Rightarrow> user_row list" where
  "set_user_verified user_id users = update_where (\<lambda>u. us_id u = user_id) (\<lambda>u. u\<lparr>us_is_verified := True\<rparr>) users"

section \<open>Shared helpers\<close>

definition pop_keys :: "string list \<Rightarrow> dict \<Rightarrow> dict" where
  "pop_keys keys session = filter (\<lambda>(k, _). k \<notin> set keys) session"

definition LOGIN_KEYS :: "string list" where
  "LOGIN_KEYS =
     [''login_verification_code'', ''login_temp_user_id'', ''login_temp_email'',
      ''login_verification_code_issued_at'', ''login_verification_code_attempts'', ''login_verification_locale'']"

definition REGISTRATION_KEYS :: "string list" where
  "REGISTRATION_KEYS =
     [''verification_code'', ''temp_user_id'', ''temp_email'', ''verification_code_issued_at'',
      ''verification_code_attempts'', ''verification_locale'']"

definition clear_legacy_email_auth_session :: "dict \<Rightarrow> dict" where
  "clear_legacy_email_auth_session session = pop_keys (LOGIN_KEYS @ REGISTRATION_KEYS) session"

definition clear_login_verification_session :: "dict \<Rightarrow> dict" where
  "clear_login_verification_session session = pop_keys LOGIN_KEYS session"

definition clear_registration_verification_session :: "dict \<Rightarrow> dict" where
  "clear_registration_verification_session session = pop_keys REGISTRATION_KEYS session"

definition set_email_auth_transaction_cookie :: "string \<Rightarrow> bool \<Rightarrow> cookie" where
  "set_email_auth_transaction_cookie transaction_id secure =
     \<lparr>ck_name = ''email_auth_transaction'', ck_value = transaction_id, ck_path = ''/'', ck_httponly = True,
      ck_samesite = Some (if secure then ''none'' else ''lax''), ck_secure = secure,
      ck_max_age = Some EMAIL_AUTH_TRANSACTION_TTL_SECONDS, ck_expires = None\<rparr>"

text \<open>
  \<open>load_dedicated_email_auth_transaction\<close>: \<open>placed\<close> is the transaction an earlier handler put on the request,
  \<open>cookie_id\<close> the id in the cookie.  The outer \<open>None\<close> of the first component is an exception.
\<close>

definition load_dedicated_email_auth_transaction ::
  "'s lookup_io \<Rightarrow> email_auth_transaction option \<Rightarrow> string option \<Rightarrow> string \<Rightarrow> 's
     \<Rightarrow> (email_auth_transaction option option \<times> bool) \<times> 's" where
  "load_dedicated_email_auth_transaction io placed cookie_id expected_flow s =
     (let dedicated_requested = (placed \<noteq> None \<or> cookie_id \<noteq> None);
          (found, s) =
            (case (placed, cookie_id) of
               (None, Some tid) \<Rightarrow> get_email_auth_transaction io tid s
             | _ \<Rightarrow> (Some placed, s))
      in if \<not> dedicated_requested then ((Some None, False), s)
         else
           (case found of
              None \<Rightarrow> ((None, True), s)
            | Some None \<Rightarrow> ((Some None, True), s)
            | Some (Some tx) \<Rightarrow>
                if et_flow tx \<noteq> expected_flow \<or> (cookie_id \<noteq> None \<and> Some (et_transaction_id tx) \<noteq> cookie_id)
                then ((Some None, True), s)
                else ((Some (Some tx), True), s)))"

abbreviation email_auth_unavailable_response :: auth_reply where
  "email_auth_unavailable_response \<equiv> Reply_Fail Auth_Unavailable 503 False"

definition get_guest_prompt_token :: "dict \<Rightarrow> string option" where
  "get_guest_prompt_token session =
     (case dict_get ''guest_prompt_token'' session of
        JStr token \<Rightarrow> if 32 \<le> length token then Some token else None
      | _ \<Rightarrow> None)"

text \<open>The follow-ups of a sign-in; a call that raises is logged and leaves the sign-in alone.\<close>

definition claim_guest_prompts_after_login :: "bool \<Rightarrow> int \<Rightarrow> 's auth_world \<Rightarrow> 's auth_world" where
  "claim_guest_prompts_after_login raises user_id w =
     (case get_guest_prompt_token (sc_session (aw_scope w)) of
        None \<Rightarrow> w
      | Some token \<Rightarrow> if raises then w else w\<lparr>aw_follow_ups := aw_follow_ups w @ [Claimed_Prompts user_id token]\<rparr>)"

definition copy_default_tasks_after_login :: "bool \<Rightarrow> int \<Rightarrow> 's auth_world \<Rightarrow> 's auth_world" where
  "copy_default_tasks_after_login raises user_id w =
     (if raises then w else w\<lparr>aw_follow_ups := aw_follow_ups w @ [Copied_Tasks user_id]\<rparr>)"

section \<open>Checking a code\<close>

text \<open>What a request that checks a code meets.\<close>

record ('s, 'ip, 'net) verify_env =
  vn_ip :: "('ip, 'net) ip_lib"
  vn_environ :: environ
  vn_sha256 :: "string \<Rightarrow> string"
  vn_request :: request
  vn_limits :: "'s call_env \<times> 's call_env"
  vn_lookup :: "'s lookup_io"
  vn_client :: "'s redis_cmds option"
  vn_rounds :: "nat \<Rightarrow> 's round_io"
  vn_now :: ticks
  vn_copy_raises :: bool
  vn_claim_raises :: bool

definition consume_attempt ::
  "('s, 'ip, 'net) verify_env \<Rightarrow> string \<Rightarrow> 's auth_world \<Rightarrow> (bool \<times> limit_message option) \<times> 's auth_world" where
  "consume_attempt E email =
     on_limits (consume_verification_attempt_limit (vn_ip E) (vn_environ E) (vn_sha256 E) (vn_limits E) (vn_request E) email)"

text \<open>\<open>str(auth_code or "")\<close>.\<close>

definition submitted_text :: "string option \<Rightarrow> string" where
  "submitted_text auth_code = (case auth_code of None \<Rightarrow> [] | Some t \<Rightarrow> t)"

definition failed_check_reply :: "code_status \<Rightarrow> auth_reply" where
  "failed_check_reply status =
     (case status of
        Code_Invalid \<Rightarrow> Reply_Fail Code_Mismatch AUTH_FAILURE_STATUS_CODE False
      | Code_Exhausted \<Rightarrow> Reply_Fail Too_Many_Attempts AUTH_FAILURE_STATUS_CODE True
      | Code_Expired \<Rightarrow> Reply_Fail Code_Outdated AUTH_FAILURE_STATUS_CODE True
      | Code_Missing \<Rightarrow> Reply_Fail No_Transaction AUTH_FAILURE_STATUS_CODE True
      | _ \<Rightarrow> email_auth_unavailable_response)"

definition verify_dedicated_login_code ::
  "('s, 'ip, 'net) verify_env \<Rightarrow> string option \<Rightarrow> email_auth_transaction \<Rightarrow> 's auth_world
     \<Rightarrow> auth_reply \<times> 's auth_world" where
  "verify_dedicated_login_code E auth_code tx w =
     (case consume_attempt E (et_email tx) w of
        ((allowed, limit_error), w) \<Rightarrow>
          if \<not> allowed then (Reply_Limited (Limited limit_error), w)
          else
            (case on_redis (verify_email_auth_transaction (vn_sha256 E) (vn_client E) (vn_rounds E)
                              (et_transaction_id tx) (submitted_text auth_code)) w of
               (result, w) \<Rightarrow>
                 if vr_status result \<noteq> Code_Success then (failed_check_reply (vr_status result), w)
                 else
                   (case get_user_by_id (et_user_id tx) (aw_users w) of
                      Some user \<Rightarrow>
                        if \<not> us_is_verified user
                        then (Reply_Fail User_Unknown AUTH_FAILURE_STATUS_CODE True,
                              on_session (pop_keys [''user_id'', ''user_email'']) (on_session clear_legacy_email_auth_session w))
                        else
                          (let w = w\<lparr>aw_scope := establish_authenticated_session (et_user_id tx) (us_email user) None (aw_scope w)\<rparr>;
                               w = on_session clear_legacy_email_auth_session w;
                               w = copy_default_tasks_after_login (vn_copy_raises E) (et_user_id tx) w;
                               w = claim_guest_prompts_after_login (vn_claim_raises E) (et_user_id tx) w
                           in (Reply_Signed_In ''login'' False True, w))
                    | None \<Rightarrow>
                        (Reply_Fail User_Unknown AUTH_FAILURE_STATUS_CODE True,
                         on_session (pop_keys [''user_id'', ''user_email'']) (on_session clear_legacy_email_auth_session w)))))"

definition verify_dedicated_registration_code ::
  "('s, 'ip, 'net) verify_env \<Rightarrow> string option \<Rightarrow> email_auth_transaction \<Rightarrow> 's auth_world
     \<Rightarrow> auth_reply \<times> 's auth_world" where
  "verify_dedicated_registration_code E user_code tx w =
     (case consume_attempt E (et_email tx) w of
        ((allowed, limit_error), w) \<Rightarrow>
          if \<not> allowed then (Reply_Limited (Limited limit_error), w)
          else
            (case on_redis (verify_email_auth_transaction (vn_sha256 E) (vn_client E) (vn_rounds E)
                              (et_transaction_id tx) (submitted_text user_code)) w of
               (result, w) \<Rightarrow>
                 if vr_status result \<noteq> Code_Success then (failed_check_reply (vr_status result), w)
                 else
                   (case get_user_by_id (et_user_id tx) (aw_users w) of
                      None \<Rightarrow>
                        (Reply_Fail User_Unknown AUTH_FAILURE_STATUS_CODE True,
                         on_session clear_legacy_email_auth_session w)
                    | Some user \<Rightarrow>
                        (let w = w\<lparr>aw_users := set_user_verified (et_user_id tx) (aw_users w)\<rparr>
                         in if vn_copy_raises E then (Reply_Fail Internal_Error 500 False, w)
                            else
                              (let w = w\<lparr>aw_follow_ups := aw_follow_ups w @ [Copied_Tasks (et_user_id tx)]\<rparr>;
                                   w = w\<lparr>aw_scope := establish_authenticated_session (et_user_id tx) (us_email user) None
                                                      (aw_scope w)\<rparr>;
                                   w = claim_guest_prompts_after_login (vn_claim_raises E) (et_user_id tx) w;
                                   w = on_session clear_legacy_email_auth_session w
                               in (Reply_Signed_In ''register'' True True, w))))))"

section \<open>Codes kept in the session\<close>

text \<open>
  Older versions kept the code in the session; such a session can still be used until the code expires.
  They wrote texts and integers only: \<open>int(value or 0)\<close> and \<open>str(value)\<close> are given for these, and any other
  value counts as the exception \<open>int\<close> raises.
\<close>

fun session_int :: "json \<Rightarrow> int option" where
  "session_int (JInt i) = Some i"
| "session_int (JBool b) = Some (of_bool b)"
| "session_int (JStr t) = (if t = [] then Some 0 else py_int t)"
| "session_int JNull = Some 0"
| "session_int _ = None"

fun session_text :: "json \<Rightarrow> string" where
  "session_text (JStr t) = t"
| "session_text (JInt i) = (if i = 0 then [] else show_int i)"
| "session_text _ = []"

definition constant_time_compare :: "(string \<Rightarrow> string) \<Rightarrow> string \<Rightarrow> string \<Rightarrow> bool" where
  "constant_time_compare sha256 left right \<longleftrightarrow> sha256 left = sha256 right"

text \<open>
  The checks of a code kept in the session under the given keys (code, user, address, time, attempts);
  \<open>Inr\<close> is the user of a right code, \<open>Inl\<close> an answer.
\<close>

definition legacy_check ::
  "('s, 'ip, 'net) verify_env \<Rightarrow> string list \<Rightarrow> string \<times> string \<times> string \<times> string \<times> string \<Rightarrow> string option
     \<Rightarrow> 's auth_world \<Rightarrow> (auth_reply + int) \<times> 's auth_world" where
  "legacy_check E all_keys keys auth_code w =
     (let (code_key, user_key, email_key, issued_key, attempts_key) = keys;
          session = sc_session (aw_scope w);
          session_code = dict_get code_key session;
          user = dict_get user_key session
      in if \<not> json_true session_code \<or> \<not> json_true user
         then (Inl (Reply_Fail No_Transaction AUTH_FAILURE_STATUS_CODE False), w)
         else
           (case (session_int (dict_get issued_key session), session_int (dict_get attempts_key session)) of
              (Some issued_at, Some tries) \<Rightarrow>
                if issued_at \<le> 0 \<or> EMAIL_AUTH_TRANSACTION_TTL_SECONDS < unix_time (vn_now E) - issued_at
                then (Inl (Reply_Fail Code_Outdated AUTH_FAILURE_STATUS_CODE False), on_session (pop_keys all_keys) w)
                else if EMAIL_AUTH_TRANSACTION_MAX_ATTEMPTS \<le> tries
                then (Inl (Reply_Fail Too_Many_Attempts AUTH_FAILURE_STATUS_CODE False), on_session (pop_keys all_keys) w)
                else
                  (case consume_attempt E (session_text (dict_get email_key session)) w of
                     ((allowed, limit_error), w) \<Rightarrow>
                       if \<not> allowed then (Inl (Reply_Limited (Limited limit_error)), w)
                       else if constant_time_compare (vn_sha256 E) (submitted_text auth_code) (session_text session_code)
                       then (case session_int user of
                               None \<Rightarrow> (Inl (Reply_Fail Internal_Error 500 False), w)
                             | Some user_id \<Rightarrow> (Inr user_id, w))
                       else
                         (let w = on_session (AList.update attempts_key (JInt (tries + 1))) w
                          in if EMAIL_AUTH_TRANSACTION_MAX_ATTEMPTS \<le> tries + 1
                             then (Inl (Reply_Fail Too_Many_Attempts AUTH_FAILURE_STATUS_CODE False),
                                   on_session (pop_keys all_keys) w)
                             else (Inl (Reply_Fail Code_Mismatch AUTH_FAILURE_STATUS_CODE False), w)))
            | _ \<Rightarrow> (Inl (Reply_Fail Internal_Error 500 False), w)))"

definition verify_legacy_login_code ::
  "('s, 'ip, 'net) verify_env \<Rightarrow> string option \<Rightarrow> 's auth_world \<Rightarrow> auth_reply \<times> 's auth_world" where
  "verify_legacy_login_code E auth_code w =
     (case legacy_check E LOGIN_KEYS
             (''login_verification_code'', ''login_temp_user_id'', ''login_temp_email'',
              ''login_verification_code_issued_at'', ''login_verification_code_attempts'') auth_code w of
        (Inl reply, w) \<Rightarrow> (reply, w)
      | (Inr user_id, w) \<Rightarrow>
          (let refused =
                 (Reply_Fail User_Unknown AUTH_FAILURE_STATUS_CODE False,
                  on_session (pop_keys [''user_id'', ''user_email'']) (on_session clear_login_verification_session w))
           in case get_user_by_id user_id (aw_users w) of
                None \<Rightarrow> refused
              | Some user \<Rightarrow>
                  if \<not> us_is_verified user then refused
                  else
                    (let w = w\<lparr>aw_scope := establish_authenticated_session user_id (us_email user) None (aw_scope w)\<rparr>;
                         w = on_session clear_login_verification_session w;
                         w = copy_default_tasks_after_login (vn_copy_raises E) user_id w;
                         w = claim_guest_prompts_after_login (vn_claim_raises E) user_id w
                     in (Reply_Signed_In ''login'' False False, w))))"

definition verify_legacy_registration_code ::
  "('s, 'ip, 'net) verify_env \<Rightarrow> string option \<Rightarrow> 's auth_world \<Rightarrow> auth_reply \<times> 's auth_world" where
  "verify_legacy_registration_code E user_code w =
     (case legacy_check E REGISTRATION_KEYS
             (''verification_code'', ''temp_user_id'', ''temp_email'', ''verification_code_issued_at'',
              ''verification_code_attempts'') user_code w of
        (Inl reply, w) \<Rightarrow> (reply, w)
      | (Inr user_id, w) \<Rightarrow>
          (case get_user_by_id user_id (aw_users w) of
             None \<Rightarrow>
               (Reply_Fail User_Unknown AUTH_FAILURE_STATUS_CODE False,
                on_session (pop_keys [''user_id'', ''user_email''])
                  (on_session clear_registration_verification_session w))
           | Some user \<Rightarrow>
               (let w = w\<lparr>aw_users := set_user_verified user_id (aw_users w)\<rparr>
                in if vn_copy_raises E then (Reply_Fail Internal_Error 500 False, w)
                   else
                     (let w = w\<lparr>aw_follow_ups := aw_follow_ups w @ [Copied_Tasks user_id]\<rparr>;
                          w = w\<lparr>aw_scope := establish_authenticated_session user_id (us_email user) None (aw_scope w)\<rparr>;
                          w = claim_guest_prompts_after_login (vn_claim_raises E) user_id w;
                          w = on_session clear_registration_verification_session w
                      in (Reply_Signed_In ''register'' True False, w)))))"

section \<open>Routes\<close>

text \<open>
  \<open>payload\<close> is the code in a valid body, \<open>None\<close> a body that was refused; \<open>placed\<close> and \<open>cookie_id\<close> as above.
\<close>

definition verify_route ::
  "('s, 'ip, 'net) verify_env \<Rightarrow> string
     \<Rightarrow> (string option \<Rightarrow> email_auth_transaction \<Rightarrow> 's auth_world \<Rightarrow> auth_reply \<times> 's auth_world)
     \<Rightarrow> (string option \<Rightarrow> 's auth_world \<Rightarrow> auth_reply \<times> 's auth_world)
     \<Rightarrow> email_auth_transaction option \<Rightarrow> string option \<Rightarrow> string option option \<Rightarrow> 's auth_world \<Rightarrow> auth_reply \<times> 's auth_world" where
  "verify_route E flow dedicated legacy placed cookie_id payload w =
     (case payload of
        None \<Rightarrow> (Reply_Fail Bad_Body 400 False, w)
      | Some auth_code \<Rightarrow>
          (case on_redis (load_dedicated_email_auth_transaction (vn_lookup E) placed cookie_id flow) w of
             ((found, dedicated_requested), w) \<Rightarrow>
               if dedicated_requested
               then (case found of
                       None \<Rightarrow> (Reply_Fail Internal_Error 500 False, w)
                     | Some None \<Rightarrow> (Reply_Fail No_Transaction AUTH_FAILURE_STATUS_CODE True, w)
                     | Some (Some tx) \<Rightarrow> dedicated auth_code tx w)
               else legacy auth_code w))"

definition api_verify_login_code where
  "api_verify_login_code E =
     verify_route E FLOW_LOGIN (verify_dedicated_login_code E) (verify_legacy_login_code E)"

definition api_verify_registration_code where
  "api_verify_registration_code E =
     verify_route E FLOW_REGISTRATION (verify_dedicated_registration_code E) (verify_legacy_registration_code E)"

definition api_verify_email_code ::
  "('s, 'ip, 'net) verify_env \<Rightarrow> string option \<Rightarrow> string option option \<Rightarrow> 's auth_world \<Rightarrow> auth_reply \<times> 's auth_world" where
  "api_verify_email_code E cookie_id payload w =
     (case cookie_id of
        Some transaction_id \<Rightarrow>
          (case on_redis (get_email_auth_transaction (vn_lookup E) transaction_id) w of
             (None, w) \<Rightarrow> (Reply_Fail Internal_Error 500 False, w)
           | (Some None, w) \<Rightarrow> (Reply_Fail No_Transaction AUTH_FAILURE_STATUS_CODE True, w)
           | (Some (Some tx), w) \<Rightarrow>
               if et_flow tx \<notin> {FLOW_LOGIN, FLOW_REGISTRATION} then (Reply_Fail Auth_Unavailable 503 True, w)
               else if et_flow tx = FLOW_LOGIN then api_verify_login_code E (Some tx) cookie_id payload w
               else api_verify_registration_code E (Some tx) cookie_id payload w)
      | None \<Rightarrow>
          (let session = sc_session (aw_scope w)
           in if json_true (dict_get ''login_verification_code'' session) \<and> json_true (dict_get ''login_temp_user_id'' session)
              then api_verify_login_code E None None payload w
              else if json_true (dict_get ''verification_code'' session) \<and> json_true (dict_get ''temp_user_id'' session)
              then api_verify_registration_code E None None payload w
              else (Reply_Fail No_Transaction AUTH_FAILURE_STATUS_CODE False, w)))"

text \<open>What a request that sends a code meets; \<open>sn_code\<close> is the drawn code.\<close>

record ('s, 'ip, 'net) send_env =
  sn_ip :: "('ip, 'net) ip_lib"
  sn_environ :: environ
  sn_sha256 :: "string \<Rightarrow> string"
  sn_request :: request
  sn_limits :: "'s call_env \<times> 's call_env \<times> 's call_env"
  sn_quota :: "'s quota_env"
  sn_code :: string
  sn_locale :: "string option"
  sn_store :: "'s store_io"
  sn_mail_raises :: bool
  sn_discard :: "'s redis_cmds option \<times> fault"
  sn_secure :: bool
  sn_new_id :: int

text \<open>\<open>generate_verification_code\<close>: \<open>drawn\<close> is what \<open>secrets.randbelow(900000)\<close> answers.\<close>

definition generate_verification_code :: "int \<Rightarrow> string" where
  "generate_verification_code drawn = show_int (drawn + 100000)"

definition consume_send_limits ::
  "('s, 'ip, 'net) send_env \<Rightarrow> string \<Rightarrow> 's auth_world \<Rightarrow> (bool \<times> limit_message option) \<times> 's auth_world" where
  "consume_send_limits E email =
     on_limits (consume_auth_email_send_limits (sn_ip E) (sn_environ E) (sn_sha256 E) (sn_limits E) (sn_request E) email)"

text \<open>The end of both handlers: store the code, mail it, and take it back when the mail fails.\<close>

definition store_and_mail ::
  "('s, 'ip, 'net) send_env \<Rightarrow> string \<Rightarrow> int \<Rightarrow> string \<Rightarrow> 's auth_world \<Rightarrow> auth_reply \<times> 's auth_world" where
  "store_and_mail E flow user_id email w =
     (case on_redis (store_email_auth_transaction (sn_sha256 E) (sn_store E) flow user_id email (sn_code E) (sn_locale E)) w of
        (None, w) \<Rightarrow> (email_auth_unavailable_response, w)
      | (Some transaction_id, w) \<Rightarrow>
          if transaction_id = [] then (email_auth_unavailable_response, w)
          else
            (let w = on_session clear_legacy_email_auth_session w
             in if sn_mail_raises E
                then (Reply_Fail Internal_Error 500 False,
                      w\<lparr>aw_redis := delete_email_auth_transaction (sn_discard E) transaction_id (aw_redis w)\<rparr>)
                else (Reply_Sent (set_email_auth_transaction_cookie transaction_id (sn_secure E)),
                      w\<lparr>aw_mails := aw_mails w @ [(email, sn_code E)]\<rparr>)))"

definition api_send_login_code ::
  "('s, 'ip, 'net) send_env \<Rightarrow> string option \<Rightarrow> 's auth_world \<Rightarrow> auth_reply \<times> 's auth_world" where
  "api_send_login_code E payload w =
     (case payload of
        None \<Rightarrow> (Reply_Fail Bad_Body 400 False, w)
      | Some email \<Rightarrow>
          (case consume_send_limits E email w of
             ((allowed, limit_error), w) \<Rightarrow>
               if \<not> allowed then (Reply_Limited (Limited limit_error), w)
               else
                 (case get_user_by_email email (aw_users w) of
                    None \<Rightarrow> (Reply_Fail User_Unknown AUTH_FAILURE_STATUS_CODE False, w)
                  | Some user \<Rightarrow>
                      if \<not> us_is_verified user then (Reply_Fail User_Unknown AUTH_FAILURE_STATUS_CODE False, w)
                      else
                        (case on_quota (consume_auth_email_daily_quota (sn_environ E) (sn_sha256 E) (sn_quota E) None) w of
                           ((can_send_email, _, daily_limit), w) \<Rightarrow>
                             if \<not> can_send_email then (Reply_Limited (Mail_Quota_Used daily_limit), w)
                             else store_and_mail E FLOW_LOGIN (us_id user) email w))))"

definition api_send_verification_email ::
  "('s, 'ip, 'net) send_env \<Rightarrow> string option \<Rightarrow> 's auth_world \<Rightarrow> auth_reply \<times> 's auth_world" where
  "api_send_verification_email E payload w =
     (case payload of
        None \<Rightarrow> (Reply_Fail Bad_Body 400 False, w)
      | Some email \<Rightarrow>
          (case consume_send_limits E email w of
             ((allowed, limit_error), w) \<Rightarrow>
               if \<not> allowed then (Reply_Limited (Limited limit_error), w)
               else
                 (case on_quota (consume_auth_email_daily_quota (sn_environ E) (sn_sha256 E) (sn_quota E) None) w of
                    ((can_send_email, _, daily_limit), w) \<Rightarrow>
                      if \<not> can_send_email then (Reply_Limited (Mail_Quota_Used daily_limit), w)
                      else
                        (case get_user_by_email email (aw_users w) of
                           Some user \<Rightarrow> store_and_mail E FLOW_REGISTRATION (us_id user) email w
                         | None \<Rightarrow>
                             store_and_mail E FLOW_REGISTRATION (sn_new_id E) email
                               (w\<lparr>aw_users := create_user (sn_new_id E) email (aw_users w)\<rparr>)))))"

definition api_send_email_code ::
  "('s, 'ip, 'net) send_env \<Rightarrow> string option \<Rightarrow> 's auth_world \<Rightarrow> auth_reply \<times> 's auth_world" where
  "api_send_email_code E payload w =
     (case payload of
        None \<Rightarrow> (Reply_Fail Bad_Body 400 False, w)
      | Some email \<Rightarrow>
          (case get_user_by_email email (aw_users w) of
             Some user \<Rightarrow>
               if us_is_verified user then api_send_login_code E payload w
               else api_send_verification_email E payload w
           | None \<Rightarrow> api_send_verification_email E payload w))"

end
