(* ===== verification/Email_Sign_In.thy ===== *)
theory Email_Sign_In
  imports Email_Safety Email_Routes Session_Safety
begin

text \<open>
  What the routes of sign-in by mail promise: a request is signed in only by the code that was mailed for
  its transaction, as the user of that transaction, within its lifetime; an answer that refuses leaves no
  other account signed in; and a code that could not be mailed is taken back.
\<close>

section \<open>The limits and the codes share a server\<close>

lemma rate_limit_script_frame:
  assumes "rate_limit_script ks_cmds key limit ttl s = (x, s')" and "k \<noteq> key"
  shows "ks_data s' k = ks_data s k"
  using assms
  by (auto simp: rate_limit_script_def rbind_def rret_def rfail_def
        split: option.splits if_splits rval.splits prod.splits sum.splits)

lemma limit_key_prefix: "limit_key digest p i = p @ '':'' @ digest (or_default (py_lower (py_strip i)) ''unknown'')"
  by (simp add: limit_key_def)

context redis_server
begin

lemma consume_with_redis_frame:
  assumes "consume_with_redis R f key limit ttl s = (x, s')" and "k \<noteq> key"
  shows "ks_data (view s') k = ks_data (view s) k"
proof -
  obtain y t where y: "rate_limit_script R key limit ttl s = (y, t)" by fastforce
  from sim_step [OF sim_rate_limit_script y] have "rate_limit_script ks_cmds key limit ttl (view s) = (y, view t)" .
  from rate_limit_script_frame [OF this assms(2)] assms(1) y show ?thesis
    by (cases f) (auto simp: consume_with_redis_def rtry_def)
qed

lemma consume_rate_limit_frame:
  assumes "consume_rate_limit digest c p i limit ttl st = (x, st')" and "ce_client c \<in> {None, Some R}"
    and "k \<noteq> limit_key digest p i"
  shows "ks_data (view (ls_redis st')) k = ks_data (view (ls_redis st)) k"
  using assms(1,2) consume_with_redis_frame [of "ce_fault c" "limit_key digest p i" limit ttl "ls_redis st", OF _ assms(3)]
  by (auto simp: consume_rate_limit_def Let_def split: if_splits option.splits prod.splits)

lemma consume_attempt_frame:
  assumes "consume_attempt E email w = (x, w')"
    and "ce_client (fst (vn_limits E)) \<in> {None, Some R}" "ce_client (snd (vn_limits E)) \<in> {None, Some R}"
  shows "tid_entry view tid (aw_redis w') = tid_entry view tid (aw_redis w)"
    and "aw_users w' = aw_users w \<and> aw_scope w' = aw_scope w"
proof -
  have keys: "transaction_key tid \<noteq> limit_key d ''verify_code:email'' i" "transaction_key tid \<noteq> limit_key d ''verify_code:ip'' i"
    for d i by (simp_all add: transaction_key_def limit_key_def)
  obtain c1 c2 where c: "vn_limits E = (c1, c2)" by fastforce
  note frames = consume_rate_limit_frame [OF _ _ keys(1)] consume_rate_limit_frame [OF _ _ keys(2)]
  show "tid_entry view tid (aw_redis w') = tid_entry view tid (aw_redis w)"
    using assms c
    by (auto simp: consume_attempt_def on_limits_def consume_verification_attempt_limit_def Let_def
        split: prod.splits if_splits dest!: frames)
  show "aw_users w' = aw_users w \<and> aw_scope w' = aw_scope w"
    using assms(1) by (auto simp: consume_attempt_def on_limits_def split: prod.splits)
qed

end

section \<open>A check among others\<close>

text \<open>Other clients may do anything to the record that the program does: age it, count it up, or remove it.\<close>

definition env_fits ::
  "('s \<Rightarrow> keyspace) \<Rightarrow> email_auth_transaction \<Rightarrow> string \<Rightarrow> (nat \<Rightarrow> 's round_io) \<Rightarrow> bool" where
  "env_fits view tx tid io \<longleftrightarrow>
     (\<forall>i s. entry_fits tx (tid_entry view tid s) \<longrightarrow> entry_fits tx (tid_entry view tid (ro_between (io i) s)))"

lemma env_fits_tail: "env_fits view tx tid io \<Longrightarrow> env_fits view tx tid (\<lambda>i. io (Suc i))"
  by (simp add: env_fits_def)

context redis_server
begin

lemma verify_rounds_sound:
  assumes "issued tid tx" "entry_fits tx (tid_entry view tid s)" "env_fits view tx tid io"
    and "verify_rounds sha256 R io tid code n s = (r, s')" "accepted r"
  shows "code_digest sha256 code = et_code_digest tx \<and> tid_entry view tid s' = None \<and>
    (\<exists>i<n. unix_time (fst (ro_clocks (io i))) < et_issued_at tx + 300)"
  using assms(2-)
proof (induction n arbitrary: io s)
  case (Suc n)
  obtain phase t where w: "verify_watch sha256 R (ro_read (io 0)) (ro_clocks (io 0)) tid code n s = (phase, t)"
    by fastforce
  from verify_watch_outcome [OF assms(1) Suc.prems(1) w] show ?case
  proof (elim conjE disjE exE)
    fix q assume "phase = Answered q" "\<not> judged q"
    with Suc.prems(3,4) w show ?thesis by (auto simp: judged_def accepted_def)
  next
    fix a assume t: "view t = view s" and a: "0 \<le> a" "a < 5"
      and phase: "phase = Watching n (Some (serialize_transaction (guessed a tx)))
        (judgement (ro_clocks (io 0)) (code_digest sha256 code) (guessed a tx))"
    define p where "p = judgement (ro_clocks (io 0)) (code_digest sha256 code) (guessed a tx)"
    have fits: "entry_fits tx (tid_entry view tid (ro_between (io 0) t))"
      using Suc.prems(1,2) t by (simp add: env_fits_def)
    obtain phase' u where e: "verify_exec R (ro_conflict (io 0)) (ro_exec (io 0)) tid n p (ro_between (io 0) t) = (phase', u)"
      by fastforce
    show ?thesis
    proof (cases "ro_conflict (io 0)")
      case True
      with e have "phase' = Trying n" "u = ro_between (io 0) t" by (auto simp: verify_exec_def)
      with Suc.prems(3) w phase e p_def have "verify_rounds sha256 R (\<lambda>i. io (Suc i)) tid code n (ro_between (io 0) t) = (r, s')"
        by simp
      from Suc.IH [OF fits env_fits_tail [OF Suc.prems(2)] this Suc.prems(4)] show ?thesis by auto
    next
      case False
      obtain q u' where call: "redis_call (ro_exec (io 0)) (pending_command R (transaction_key tid) p) (ro_between (io 0) t) = (q, u')"
        by fastforce
      have ttl: "\<And>v ttl r. p = Pend_Set v ttl r \<Longrightarrow> 0 < ttl" using judgement_ttl p_def by metis
      from False e call have out: "u = u'" "phase' = Answered (case q of Inl _ \<Rightarrow> result_only Code_Unavailable | Inr _ \<Rightarrow> pending_result p)"
        by (auto simp: verify_exec_def split: sum.splits)
      with Suc.prems(3) w phase e p_def have "r = (case q of Inl _ \<Rightarrow> result_only Code_Unavailable | Inr _ \<Rightarrow> pending_result p)" "s' = u'"
        by auto
      with Suc.prems(4) obtain b where q: "q = Inr b" "accepted (pending_result p)" "s' = u'"
        by (cases q) (auto simp: accepted_def)
      note acc = judgement_accepted [of "ro_clocks (io 0)" "code_digest sha256 code" "guessed a tx", folded p_def, OF q(2)]
      have "transaction_status (fst (ro_clocks (io 0))) (guessed a tx) \<noteq> Code_Expired"
        using acc(1) by (auto simp: p_def judgement_def split: if_splits)
      then have "unix_time (fst (ro_clocks (io 0))) < et_issued_at tx + 300" by (auto simp: transaction_status_def split: if_splits)
      moreover have "tid_entry view tid s' = None"
        using call_pending [OF call ttl] q(1,3) acc(1) by (auto simp: settled_def)
      ultimately show ?thesis using acc(2) by auto
    qed
  qed
qed (auto simp: accepted_def)

lemma lookup_fits:
  assumes "issued tid tx" "entry_fits tx (tid_entry view tid s)" "lo_client io = Some R"
    and "fst (lo_delete io) \<in> {None, Some R}" "get_email_auth_transaction io tid s = (found, s')"
  shows "entry_fits tx (tid_entry view tid s')" and "found = Some (Some tx') \<Longrightarrow> \<exists>a. tx' = guessed a tx"
proof -
  have "fades (tid_entry view tid s) (tid_entry view tid s')"
    using lookup_fades [OF _ assms(4), where tid = tid and s = s and i = tid] assms(3-5) by simp
  with assms(2) show "entry_fits tx (tid_entry view tid s')" by (auto simp: entry_fits_def fades_def)
  obtain r t where call: "redis_call (lo_get io) (rc_get R (transaction_key tid)) s = (r, t)" by fastforce
  have decode: "decode_transaction tid now (Some (serialize_transaction (guessed a tx)))
      = Some (Some (guessed a tx), transaction_status now (guessed a tx))" if "0 \<le> a" "a < 5" for a now
    using issued_guessed [OF assms(1) that] by (simp add: issued_def decode_serialize)
  show "\<exists>a. tx' = guessed a tx" if "found = Some (Some tx')"
    using stored_text_fits [OF assms(2) refl] call_get [OF call] assms(3,5) call decode that
    by (auto simp: get_email_auth_transaction_def split: sum.splits if_splits option.splits)
qed

end

section \<open>Sessions\<close>

lemma dict_get_pop [simp]: "dict_get k (pop_keys keys d) = (if k \<in> set keys then JNull else dict_get k d)"
proof -
  have "map_of (filter (\<lambda>(k, _). k \<notin> set keys) d) k = (if k \<in> set keys then None else map_of d k)"
    by (induction d) auto
  then show ?thesis by (simp add: dict_get_def pop_keys_def)
qed

lemma user_after_sign_in [simp]:
  "user_id_from_session (sc_session (establish_authenticated_session u email lc sc)) = Some u"
  by (auto simp: establish_authenticated_session_def Let_def user_id_from_session_def dict_get_def map_of_signed_in
      split: prod.splits if_splits)

lemma user_id_pop [simp]:
  "''user_id'' \<notin> set keys \<Longrightarrow> user_id_from_session (pop_keys keys d) = user_id_from_session d"
  "''user_id'' \<in> set keys \<Longrightarrow> user_id_from_session (pop_keys keys d) = None"
  by (simp_all add: user_id_from_session_def)

lemma legacy_keys [simp]: "''user_id'' \<notin> set LOGIN_KEYS" "''user_id'' \<notin> set REGISTRATION_KEYS"
  by (simp_all add: LOGIN_KEYS_def REGISTRATION_KEYS_def)

lemma user_id_clear [simp]:
  "user_id_from_session (clear_legacy_email_auth_session d) = user_id_from_session d"
  "user_id_from_session (clear_login_verification_session d) = user_id_from_session d"
  "user_id_from_session (clear_registration_verification_session d) = user_id_from_session d"
  by (simp_all add: clear_legacy_email_auth_session_def clear_login_verification_session_def
      clear_registration_verification_session_def)

lemma follow_ups_keep [simp]:
  "aw_scope (claim_guest_prompts_after_login b u w) = aw_scope w"
  "aw_scope (copy_default_tasks_after_login b u w) = aw_scope w"
  "aw_redis (claim_guest_prompts_after_login b u w) = aw_redis w"
  "aw_redis (copy_default_tasks_after_login b u w) = aw_redis w"
  "aw_users (claim_guest_prompts_after_login b u w) = aw_users w"
  "aw_users (copy_default_tasks_after_login b u w) = aw_users w"
  by (simp_all add: claim_guest_prompts_after_login_def copy_default_tasks_after_login_def split: option.splits)

section \<open>Signing in\<close>

text \<open>The connections of a request are to this server or to none.\<close>

definition on_server :: "'s redis_cmds \<Rightarrow> ('s, 'ip, 'net) verify_env \<Rightarrow> bool" where
  "on_server R E \<longleftrightarrow>
     vn_client E = Some R \<and> lo_client (vn_lookup E) = Some R \<and> fst (lo_delete (vn_lookup E)) \<in> {None, Some R} \<and>
     ce_client (fst (vn_limits E)) \<in> {None, Some R} \<and> ce_client (snd (vn_limits E)) \<in> {None, Some R}"

text \<open>What a sign-in by the code of \<open>tx\<close> rests on, and what it leaves.\<close>

definition proven ::
  "('s \<Rightarrow> keyspace) \<Rightarrow> ('s, 'ip, 'net) verify_env \<Rightarrow> string \<Rightarrow> email_auth_transaction \<Rightarrow> string option \<Rightarrow> 's auth_world \<Rightarrow> bool" where
  "proven view E tid tx code w' \<longleftrightarrow>
     vn_sha256 E (submitted_text code) = et_code_digest tx \<and>
     (\<exists>i<3. unix_time (fst (ro_clocks (vn_rounds E i))) < et_issued_at tx + 300) \<and>
     tid_entry view tid (aw_redis w') = None \<and>
     user_id_from_session (sc_session (aw_scope w')) = Some (et_user_id tx) \<and>
     (\<exists>u \<in> set (aw_users w'). us_id u = et_user_id tx \<and> us_is_verified u)"

fun signed_in :: "auth_reply \<Rightarrow> bool" where
  "signed_in (Reply_Signed_In _ _ _) = True"
| "signed_in _ = False"

lemma not_signed_in [simp]: "\<not> signed_in (failed_check_reply st)"
  by (simp add: failed_check_reply_def split: code_status.splits)

lemma get_user_by_id_Some: "get_user_by_id i us = Some u \<Longrightarrow> u \<in> set us \<and> us_id u = i"
  unfolding get_user_by_id_def by (rule select_one_Some)

lemma set_user_verified_member:
  "u \<in> set us \<Longrightarrow> us_id u = i \<Longrightarrow> \<exists>v \<in> set (set_user_verified i us). us_id v = i \<and> us_is_verified v"
  by (rule bexI [of _ "u\<lparr>us_is_verified := True\<rparr>"]) (auto simp: set_user_verified_def update_where_def image_iff)

lemma on_redis_frame:
  "on_redis act w = (r, w') \<Longrightarrow> act (aw_redis w) = (r, aw_redis w') \<and> aw_users w' = aw_users w \<and> aw_scope w' = aw_scope w"
  by (auto simp: on_redis_def split: prod.splits)

context redis_server
begin

lemma dedicated_check:
  assumes "issued tid tx" "entry_fits tx (tid_entry view tid (aw_redis w))" "env_fits view tx tid (vn_rounds E)"
    and "on_server R E" "consume_attempt E email w = (x, w1)"
    and "on_redis (verify_email_auth_transaction (vn_sha256 E) (vn_client E) (vn_rounds E) tid (submitted_text code)) w1 = (r, w2)"
    and "vr_status r = Code_Success"
  shows "vn_sha256 E (submitted_text code) = et_code_digest tx \<and>
     (\<exists>i<3. unix_time (fst (ro_clocks (vn_rounds E i))) < et_issued_at tx + 300) \<and>
     tid_entry view tid (aw_redis w2) = None \<and> aw_users w2 = aw_users w \<and> aw_scope w2 = aw_scope w"
proof -
  have c: "vn_client E = Some R" "ce_client (fst (vn_limits E)) \<in> {None, Some R}"
    "ce_client (snd (vn_limits E)) \<in> {None, Some R}" using assms(4) by (auto simp: on_server_def)
  note limit = consume_attempt_frame [OF assms(5) c(2,3)]
  note verify = on_redis_frame [OF assms(6)]
  have acc: "accepted r" using assms(7) by (simp add: accepted_def)
  have "entry_fits tx (tid_entry view tid (aw_redis w1))" using limit(1) assms(2) by simp
  moreover have "verify_rounds (vn_sha256 E) R (vn_rounds E) tid (submitted_text code) 3 (aw_redis w1) = (r, aw_redis w2)"
    using verify acc c(1) by (auto simp: verify_email_auth_transaction_def accepted_def split: if_splits)
  ultimately show ?thesis
    using verify_rounds_sound [OF assms(1) _ assms(3) _ acc] limit(2) verify by (auto simp: code_digest_def)
qed

lemma dedicated_login_proven:
  assumes "issued tid tx" "entry_fits tx (tid_entry view tid (aw_redis w))" "env_fits view tx tid (vn_rounds E)"
    and "on_server R E" "verify_dedicated_login_code E code (guessed a tx) w = (reply, w')" "signed_in reply"
  shows "proven view E tid tx code w'"
proof -
  obtain x w1 where l: "consume_attempt E (et_email tx) w = (x, w1)" by fastforce
  obtain r w2 where v: "on_redis (verify_email_auth_transaction (vn_sha256 E) (vn_client E) (vn_rounds E) tid
      (submitted_text code)) w1 = (r, w2)" by fastforce
  have id: "et_transaction_id (guessed a tx) = tid" using assms(1) by (simp add: issued_def)
  from assms(5,6) l v id have ok: "vr_status r = Code_Success"
    by (auto simp: verify_dedicated_login_code_def split: prod.splits if_splits)
  from assms(5,6) l v id ok obtain u where u: "get_user_by_id (et_user_id tx) (aw_users w2) = Some u" "us_is_verified u"
    "aw_redis w' = aw_redis w2" "aw_users w' = aw_users w2"
    "user_id_from_session (sc_session (aw_scope w')) = Some (et_user_id tx)"
    by (auto simp: verify_dedicated_login_code_def Let_def split: prod.splits if_splits option.splits)
  with dedicated_check [OF assms(1-4) l v ok] get_user_by_id_Some [OF u(1)] show ?thesis by (auto simp: proven_def)
qed

lemma dedicated_registration_proven:
  assumes "issued tid tx" "entry_fits tx (tid_entry view tid (aw_redis w))" "env_fits view tx tid (vn_rounds E)"
    and "on_server R E" "verify_dedicated_registration_code E code (guessed a tx) w = (reply, w')" "signed_in reply"
  shows "proven view E tid tx code w'"
proof -
  obtain x w1 where l: "consume_attempt E (et_email tx) w = (x, w1)" by fastforce
  obtain r w2 where v: "on_redis (verify_email_auth_transaction (vn_sha256 E) (vn_client E) (vn_rounds E) tid
      (submitted_text code)) w1 = (r, w2)" by fastforce
  have id: "et_transaction_id (guessed a tx) = tid" using assms(1) by (simp add: issued_def)
  from assms(5,6) l v id have ok: "vr_status r = Code_Success"
    by (auto simp: verify_dedicated_registration_code_def split: prod.splits if_splits)
  from assms(5,6) l v id ok obtain u where u: "get_user_by_id (et_user_id tx) (aw_users w2) = Some u"
    "aw_redis w' = aw_redis w2" "aw_users w' = set_user_verified (et_user_id tx) (aw_users w2)"
    "user_id_from_session (sc_session (aw_scope w')) = Some (et_user_id tx)"
    by (auto simp: verify_dedicated_registration_code_def Let_def split: prod.splits if_splits option.splits)
  with dedicated_check [OF assms(1-4) l v ok] get_user_by_id_Some [OF u(1)] set_user_verified_member
  show ?thesis by (auto simp: proven_def)
qed

lemma verify_email_code_proven:
  assumes "issued tid tx" "entry_fits tx (tid_entry view tid (aw_redis w))" "env_fits view tx tid (vn_rounds E)"
    and "on_server R E" "api_verify_email_code E (Some tid) payload w = (reply, w')" "signed_in reply"
  shows "\<exists>code. payload = Some code \<and> proven view E tid tx code w'"
proof -
  obtain found w1 where f: "on_redis (get_email_auth_transaction (vn_lookup E) tid) w = (found, w1)" by fastforce
  have c: "lo_client (vn_lookup E) = Some R" "fst (lo_delete (vn_lookup E)) \<in> {None, Some R}"
    using assms(4) by (auto simp: on_server_def)
  note look = lookup_fits [OF assms(1,2) c, of found "aw_redis w1"]
  have fits: "entry_fits tx (tid_entry view tid (aw_redis w1))" using look(1) on_redis_frame [OF f] by simp
  from assms(5,6) f obtain tx' where tx': "found = Some (Some tx')"
    by (auto simp: api_verify_email_code_def split: option.splits)
  then obtain a where a: "tx' = guessed a tx" using look(2) on_redis_frame [OF f] by blast
  have w1: "w1\<lparr>aw_redis := aw_redis w1\<rparr> = w1" by simp
  have id: "et_transaction_id tx = tid" using assms(1) by (simp add: issued_def)
  show ?thesis
  proof (cases payload)
    case None
    with assms(5,6) f tx' show ?thesis
      by (auto simp: api_verify_email_code_def api_verify_login_code_def api_verify_registration_code_def verify_route_def
          split: if_splits)
  next
    case (Some code)
    have "verify_dedicated_login_code E code (guessed a tx) w1 = (reply, w') \<or>
          verify_dedicated_registration_code E code (guessed a tx) w1 = (reply, w')"
      using assms(5,6) f tx' a Some id w1
      by (auto simp: api_verify_email_code_def api_verify_login_code_def api_verify_registration_code_def verify_route_def
          load_dedicated_email_auth_transaction_def on_redis_def Let_def split: if_splits)
    then show ?thesis
      using dedicated_login_proven [OF assms(1) fits assms(3,4) _ assms(6)]
        dedicated_registration_proven [OF assms(1) fits assms(3,4) _ assms(6)] Some
      by blast
  qed
qed

end

text \<open>Answers that refuse.\<close>

lemma dedicated_login_refused:
  assumes "verify_dedicated_login_code E code tx w = (reply, w')" "\<not> signed_in reply"
  shows "user_id_from_session (sc_session (aw_scope w')) \<in> {user_id_from_session (sc_session (aw_scope w)), None}"
  using assms
  by (auto simp: verify_dedicated_login_code_def consume_attempt_def on_limits_def Let_def
      split: prod.splits if_splits option.splits dest!: on_redis_frame)

lemma dedicated_registration_refused:
  assumes "verify_dedicated_registration_code E code tx w = (reply, w')" "\<not> signed_in reply"
  shows "user_id_from_session (sc_session (aw_scope w')) = user_id_from_session (sc_session (aw_scope w))"
  using assms
  by (auto simp: verify_dedicated_registration_code_def consume_attempt_def on_limits_def Let_def
      split: prod.splits if_splits option.splits dest!: on_redis_frame)

lemma legacy_check_scope:
  assumes "legacy_check E ks (ck, uk, ek, ik, ak) code w = (r, w')" "''user_id'' \<notin> set ks" "ak \<noteq> ''user_id''"
  shows "user_id_from_session (sc_session (aw_scope w')) = user_id_from_session (sc_session (aw_scope w))"
  using assms
  by (auto simp: legacy_check_def consume_attempt_def on_limits_def Let_def user_id_from_session_def dict_get_update
      split: prod.splits if_splits option.splits)

lemma legacy_login_refused:
  assumes "verify_legacy_login_code E code w = (reply, w')" "\<not> signed_in reply"
  shows "user_id_from_session (sc_session (aw_scope w')) \<in> {user_id_from_session (sc_session (aw_scope w)), None}"
  using assms
  by (auto simp: verify_legacy_login_code_def Let_def split: prod.splits sum.splits option.splits if_splits
      dest!: legacy_check_scope)

lemma legacy_registration_refused:
  assumes "verify_legacy_registration_code E code w = (reply, w')" "\<not> signed_in reply"
  shows "user_id_from_session (sc_session (aw_scope w')) \<in> {user_id_from_session (sc_session (aw_scope w)), None}"
  using assms
  by (auto simp: verify_legacy_registration_code_def Let_def split: prod.splits sum.splits option.splits if_splits
      dest!: legacy_check_scope)

lemma verify_route_refused:
  assumes "verify_route E flow d l placed cookie_id payload w = (reply, w')" "\<not> signed_in reply"
    and "\<And>c tx w w'. d c tx w = (reply, w') \<Longrightarrow> P w w'" and "\<And>c w w'. l c w = (reply, w') \<Longrightarrow> P w w'"
    and "P = (\<lambda>w w'. user_id_from_session (sc_session (aw_scope w')) \<in> {user_id_from_session (sc_session (aw_scope w)), None})"
  shows "P w w'"
  using assms(1)
  by (auto simp: verify_route_def assms(5) split: option.splits prod.splits if_splits dest!: on_redis_frame
      dest: assms(3,4) [unfolded assms(5)])

section \<open>Properties\<close>

text \<open>A request for examples: user 7 enters the code of the example transaction half a second after it was sent.\<close>

definition demo_check :: "(keyspace, string, string) verify_env" where
  "demo_check =
     \<lparr>vn_ip = text_ips, vn_environ = (\<lambda>_. None), vn_sha256 = demo_sha,
      vn_request = \<lparr>req_client_host = Some ''9.9.9.9'', req_x_forwarded_for = None, req_x_real_ip = None\<rparr>,
      vn_limits = (\<lparr>ce_client = None, ce_fault = Delivered, ce_now = 1001000000\<rparr>,
                   \<lparr>ce_client = None, ce_fault = Delivered, ce_now = 1001000000\<rparr>),
      vn_lookup = \<lparr>lo_client = Some ks_cmds, lo_get = Delivered, lo_now = 1001000000, lo_delete = (None, Delivered)\<rparr>,
      vn_client = Some ks_cmds, vn_rounds = (\<lambda>_. calm_round 1001000000), vn_now = 1001000000,
      vn_copy_raises = False, vn_claim_raises = False\<rparr>"

definition demo_auth_world :: "keyspace auth_world" where
  "demo_auth_world =
     \<lparr>aw_redis = demo_redis, aw_windows = (\<lambda>_. None), aw_daily = (\<lambda>_. None), aw_monthly = (\<lambda>_. None),
      aw_users = [\<lparr>us_id = 7, us_email = ''a@b'', us_is_verified = True\<rparr>],
      aw_scope = \<lparr>sc_session = [], sc_session_id = None, sc_restore_status = Session_New, sc_original_data = None,
                  sc_original_id = None, sc_parked_ids = [], sc_parked_original = [], sc_ids_to_delete = []\<rparr>,
      aw_mails = [], aw_follow_ups = []\<rparr>"

lemma demo_signs_in:
  "signed_in (fst (api_verify_email_code demo_check (Some ''t'') (Some (Some ''123456'')) demo_auth_world))"
  by code_simp

lemma demo_fits:
  "issued ''t'' \<lparr>et_transaction_id = ''t'', et_flow = FLOW_LOGIN, et_user_id = 7, et_email = ''a@b'',
     et_code_digest = demo_sha ''123456'', et_issued_at = 1000, et_attempts = 0, et_locale = None\<rparr>"
  (is "issued _ ?tx")
  "entry_fits \<lparr>et_transaction_id = ''t'', et_flow = FLOW_LOGIN, et_user_id = 7, et_email = ''a@b'',
     et_code_digest = demo_sha ''123456'', et_issued_at = 1000, et_attempts = 0, et_locale = None\<rparr>
     (tid_entry id ''t'' (aw_redis demo_auth_world))"
proof -
  show "issued ''t'' ?tx"
    using demo_digits show_small [of 0]
    by (simp add: issued_def transaction_ok_def transaction_printable_def demo_sha_def)
  have "?tx = guessed 0 ?tx" by simp
  then have "tid_entry id ''t'' demo_redis = Some (RString (serialize_transaction (guessed 0 ?tx)), Some (second * 300))"
    using reference_server.store_Some [OF demo_issue_ok(1) demo_stored_code, THEN conjunct2, THEN conjunct2,
        THEN conjunct2, THEN conjunct2, THEN conjunct2, THEN arg_cong [of _ _ ks_data]]
    by (simp add: code_digest_def)
  then show "entry_fits ?tx (tid_entry id ''t'' (aw_redis demo_auth_world))"
    unfolding entry_fits_def demo_auth_world_def by (intro disjI2 exI conjI) auto
qed

text \<open>
  C6: only the mailed code signs in.  Let \<open>tx\<close> be the transaction issued under the id that a request's cookie
  carries, and let other clients do to its record whatever the program does: count it up, let it age,
  remove it.  If the request is answered with a sign-in, then the submitted code has the digest of the
  mailed one, it was read less than five minutes after the issue, the record is gone, the session belongs
  to the user of the transaction, and that user is a verified user of the users table.
\<close>

theorem mail_sign_in_sound:
  assumes "redis_server R view elapse" and "issued tid tx"
    and "entry_fits tx (tid_entry view tid (aw_redis w))" and "env_fits view tx tid (vn_rounds E)"
    and "on_server R E"
    and "api_verify_email_code E (Some tid) payload w = (reply, w')" and "signed_in reply"
  shows "\<exists>code. payload = Some code \<and> vn_sha256 E (submitted_text code) = et_code_digest tx \<and>
     (\<exists>i<3. unix_time (fst (ro_clocks (vn_rounds E i))) < et_issued_at tx + 300) \<and>
     tid_entry view tid (aw_redis w') = None \<and>
     user_id_from_session (sc_session (aw_scope w')) = Some (et_user_id tx) \<and>
     (\<exists>u \<in> set (aw_users w'). us_id u = et_user_id tx \<and> us_is_verified u)"
  using redis_server.verify_email_code_proven [OF assms] unfolding proven_def by blast

theorem mail_sign_in_sound_witness:
  "user_id_from_session (sc_session (aw_scope (snd
     (api_verify_email_code demo_check (Some ''t'') (Some (Some ''123456'')) demo_auth_world)))) = Some 7"
proof -
  have env: "env_fits id \<lparr>et_transaction_id = ''t'', et_flow = FLOW_LOGIN, et_user_id = 7, et_email = ''a@b'',
      et_code_digest = demo_sha ''123456'', et_issued_at = 1000, et_attempts = 0, et_locale = None\<rparr> ''t'' (vn_rounds demo_check)"
    by (simp add: env_fits_def demo_check_def calm_round_def)
  have "on_server ks_cmds demo_check" by (simp add: on_server_def demo_check_def)
  from mail_sign_in_sound [OF reference_server.redis_server_axioms demo_fits env this prod.collapse [symmetric] demo_signs_in]
  show ?thesis by auto
qed

text \<open>
  A refused check signs nobody in.  Whatever a request that checks a code meets and whatever it is
  answered, unless the answer is a sign-in its session belongs to the user it belonged to before, or to
  nobody.
\<close>

theorem refused_check_keeps_account:
  assumes "api_verify_email_code E cookie_id payload w = (reply, w')" and "\<not> signed_in reply"
  shows "user_id_from_session (sc_session (aw_scope w')) \<in> {user_id_from_session (sc_session (aw_scope w)), None}"
proof -
  let ?P = "\<lambda>w w'. user_id_from_session (sc_session (aw_scope w')) \<in> {user_id_from_session (sc_session (aw_scope w)), None}"
  have login: "?P w w'" if "api_verify_login_code E placed c payload w = (reply, w')" for placed c w
    by (rule verify_route_refused [OF that [unfolded api_verify_login_code_def] assms(2) _ _ refl])
      (use dedicated_login_refused legacy_login_refused assms(2) in blast)+
  have registration: "?P w w'" if "api_verify_registration_code E placed c payload w = (reply, w')" for placed c w
    by (rule verify_route_refused [OF that [unfolded api_verify_registration_code_def] assms(2) _ _ refl])
      (use dedicated_registration_refused legacy_registration_refused assms(2) in blast)+
  show ?thesis
    using assms(1)
    by (auto simp: api_verify_email_code_def Let_def split: option.splits prod.splits if_splits
        dest!: on_redis_frame dest: login registration)
qed

theorem refused_check_keeps_account_witness:
  "user_id_from_session (sc_session (aw_scope (snd
     (api_verify_email_code demo_check (Some ''t'') (Some (Some ''999999'')) demo_auth_world)))) = None"
proof -
  have "\<not> signed_in (fst (api_verify_email_code demo_check (Some ''t'') (Some (Some ''999999'')) demo_auth_world))"
    by code_simp
  from refused_check_keeps_account [OF prod.collapse [symmetric] this] show ?thesis
    by (auto simp: demo_auth_world_def user_id_from_session_def dict_get_def)
qed

end
