(* ===== verification/Agent_Budget.thy ===== *)
theory Agent_Budget
  imports Env_Settings
begin

text \<open>
  \<open>services/chat_agent_budget.py\<close>: how many model decisions, tool calls, page reads and write proposals one
  chat turn may use.  The limits come from the environment; the counters only grow.
\<close>

section \<open>Limits from the environment\<close>

abbreviation (input) DEFAULT_MAX_LLM_TURNS :: int where
  "DEFAULT_MAX_LLM_TURNS \<equiv> 8"
abbreviation (input) DEFAULT_MAX_TOOL_CALLS :: int where
  "DEFAULT_MAX_TOOL_CALLS \<equiv> 6"
abbreviation (input) MAX_LLM_TURNS_LIMIT :: int where
  "MAX_LLM_TURNS_LIMIT \<equiv> 8"
abbreviation (input) MAX_TOOL_CALLS_LIMIT :: int where
  "MAX_TOOL_CALLS_LIMIT \<equiv> 10"
abbreviation (input) DEFAULT_MAX_READ_CALLS :: int where
  "DEFAULT_MAX_READ_CALLS \<equiv> 12"
abbreviation (input) DEFAULT_MAX_READ_CHARS :: int where
  "DEFAULT_MAX_READ_CHARS \<equiv> 48000"
abbreviation (input) READ_MESSAGE_MAX_CHARS :: int where
  "READ_MESSAGE_MAX_CHARS \<equiv> 4000"
abbreviation (input) READ_MESSAGE_MIN_CHARS :: int where
  "READ_MESSAGE_MIN_CHARS \<equiv> 512"
abbreviation (input) DEFAULT_MAX_WRITE_PROPOSALS :: int where
  "DEFAULT_MAX_WRITE_PROPOSALS \<equiv> 3"

definition get_clamped_int_env :: "environ \<Rightarrow> string \<Rightarrow> int \<Rightarrow> int \<Rightarrow> int" where
  "get_clamped_int_env env name dflt maximum =
     (case env name of
        None \<Rightarrow> dflt
      | Some raw \<Rightarrow>
          (case py_int raw of
             None \<Rightarrow> dflt
           | Some value \<Rightarrow> min (max value 1) maximum))"

definition legacy_total_steps :: "environ \<Rightarrow> int option" where
  "legacy_total_steps env =
     (case env ''CHAT_AGENT_MAX_STEPS'' of
        None \<Rightarrow> None
      | Some raw \<Rightarrow>
          (case py_int raw of
             None \<Rightarrow> None
           | Some value \<Rightarrow> if 0 < value then Some value else None))"

definition get_max_tool_calls :: "environ \<Rightarrow> int" where
  "get_max_tool_calls env =
     (if env ''CHAT_AGENT_MAX_TOOL_CALLS'' \<noteq> None
      then get_clamped_int_env env ''CHAT_AGENT_MAX_TOOL_CALLS'' DEFAULT_MAX_TOOL_CALLS MAX_TOOL_CALLS_LIMIT
      else
        (case legacy_total_steps env of
           Some legacy_total \<Rightarrow> min (max (legacy_total div 2) 1) MAX_TOOL_CALLS_LIMIT
         | None \<Rightarrow> DEFAULT_MAX_TOOL_CALLS))"

definition get_max_llm_turns :: "environ \<Rightarrow> int" where
  "get_max_llm_turns env =
     (if env ''CHAT_AGENT_MAX_LLM_TURNS'' \<noteq> None
      then get_clamped_int_env env ''CHAT_AGENT_MAX_LLM_TURNS'' DEFAULT_MAX_LLM_TURNS MAX_LLM_TURNS_LIMIT
      else
        (case legacy_total_steps env of
           Some legacy_total \<Rightarrow> min (max (legacy_total - legacy_total div 2) 1) MAX_LLM_TURNS_LIMIT
         | None \<Rightarrow> DEFAULT_MAX_LLM_TURNS))"

section \<open>The counters of a turn\<close>

record step_budget =
  sb_max_llm_turns :: int
  sb_max_tool_calls :: int
  sb_llm_turns :: int
  sb_tool_calls :: int
  sb_max_read_calls :: int
  sb_max_read_chars :: int
  sb_read_calls :: int
  sb_read_chars :: int
  sb_max_write_proposals :: int
  sb_write_proposals :: int

definition budget_from_environment :: "environ \<Rightarrow> step_budget" where
  "budget_from_environment env =
     \<lparr>sb_max_llm_turns = get_max_llm_turns env, sb_max_tool_calls = get_max_tool_calls env,
      sb_llm_turns = 0, sb_tool_calls = 0, sb_max_read_calls = DEFAULT_MAX_READ_CALLS,
      sb_max_read_chars = DEFAULT_MAX_READ_CHARS, sb_read_calls = 0, sb_read_chars = 0,
      sb_max_write_proposals = DEFAULT_MAX_WRITE_PROPOSALS, sb_write_proposals = 0\<rparr>"

definition max_steps :: "step_budget \<Rightarrow> int" where
  "max_steps b = sb_max_llm_turns b + sb_max_tool_calls b"

definition budget_step :: "step_budget \<Rightarrow> int" where
  "budget_step b = sb_llm_turns b + sb_tool_calls b"

definition read_message_limit :: "step_budget \<Rightarrow> int" where
  "read_message_limit b = min READ_MESSAGE_MAX_CHARS (max 0 (sb_max_read_chars b - sb_read_chars b))"

definition reads_exhausted :: "step_budget \<Rightarrow> bool" where
  "reads_exhausted b \<longleftrightarrow> sb_max_read_calls b \<le> sb_read_calls b \<or> read_message_limit b < READ_MESSAGE_MIN_CHARS"

definition start_read_call :: "step_budget \<Rightarrow> step_budget" where
  "start_read_call b = b\<lparr>sb_read_calls := sb_read_calls b + 1\<rparr>"

definition consume_read_chars :: "int \<Rightarrow> step_budget \<Rightarrow> step_budget" where
  "consume_read_chars chars b = b\<lparr>sb_read_chars := sb_read_chars b + max 0 chars\<rparr>"

definition write_proposals_exhausted :: "step_budget \<Rightarrow> bool" where
  "write_proposals_exhausted b \<longleftrightarrow> sb_max_write_proposals b \<le> sb_write_proposals b"

definition start_write_proposal :: "step_budget \<Rightarrow> step_budget" where
  "start_write_proposal b = b\<lparr>sb_write_proposals := sb_write_proposals b + 1\<rparr>"

definition tool_calls_exhausted :: "step_budget \<Rightarrow> bool" where
  "tool_calls_exhausted b \<longleftrightarrow> sb_max_tool_calls b \<le> sb_tool_calls b"

definition llm_turns_exhausted :: "step_budget \<Rightarrow> bool" where
  "llm_turns_exhausted b \<longleftrightarrow> sb_max_llm_turns b \<le> sb_llm_turns b"

definition research_exhausted :: "step_budget \<Rightarrow> bool" where
  "research_exhausted b \<longleftrightarrow> tool_calls_exhausted b \<or> llm_turns_exhausted b"

definition start_llm_turn :: "step_budget \<Rightarrow> step_budget" where
  "start_llm_turn b = b\<lparr>sb_llm_turns := sb_llm_turns b + 1\<rparr>"

definition start_tool_call :: "step_budget \<Rightarrow> step_budget" where
  "start_tool_call b = b\<lparr>sb_tool_calls := sb_tool_calls b + 1\<rparr>"

section \<open>Invariant\<close>

definition budget_inv :: "step_budget \<Rightarrow> bool" where
  "budget_inv b \<longleftrightarrow>
     0 \<le> sb_llm_turns b \<and> sb_llm_turns b \<le> sb_max_llm_turns b \<and> sb_max_llm_turns b \<le> MAX_LLM_TURNS_LIMIT \<and>
     0 \<le> sb_tool_calls b \<and> sb_tool_calls b \<le> sb_max_tool_calls b \<and> sb_max_tool_calls b \<le> MAX_TOOL_CALLS_LIMIT \<and>
     0 \<le> sb_read_calls b \<and> sb_read_calls b \<le> sb_max_read_calls b \<and> sb_max_read_calls b = DEFAULT_MAX_READ_CALLS \<and>
     0 \<le> sb_write_proposals b \<and> sb_write_proposals b \<le> sb_max_write_proposals b \<and>
     sb_max_write_proposals b = DEFAULT_MAX_WRITE_PROPOSALS"

lemma clamped_bounds: "1 \<le> dflt \<Longrightarrow> dflt \<le> m \<Longrightarrow> 1 \<le> get_clamped_int_env env name dflt m \<and> get_clamped_int_env env name dflt m \<le> m"
  by (auto simp: get_clamped_int_env_def split: option.splits)

lemma max_llm_turns_bounds: "1 \<le> get_max_llm_turns env \<and> get_max_llm_turns env \<le> MAX_LLM_TURNS_LIMIT"
  using clamped_bounds [of DEFAULT_MAX_LLM_TURNS MAX_LLM_TURNS_LIMIT env "''CHAT_AGENT_MAX_LLM_TURNS''"]
  by (auto simp: get_max_llm_turns_def split: option.splits)

lemma max_tool_calls_bounds: "1 \<le> get_max_tool_calls env \<and> get_max_tool_calls env \<le> MAX_TOOL_CALLS_LIMIT"
  using clamped_bounds [of DEFAULT_MAX_TOOL_CALLS MAX_TOOL_CALLS_LIMIT env "''CHAT_AGENT_MAX_TOOL_CALLS''"]
  by (auto simp: get_max_tool_calls_def split: option.splits)

lemma budget_inv_from_environment: "budget_inv (budget_from_environment env)"
  using max_llm_turns_bounds [of env] max_tool_calls_bounds [of env]
  by (simp add: budget_inv_def budget_from_environment_def)

named_theorems budget_intros \<open>operations of the budget that keep its invariant\<close>

lemma budget_inv_tool [budget_intros]:
  "budget_inv b \<Longrightarrow> \<not> tool_calls_exhausted b \<Longrightarrow> budget_inv (start_tool_call b)"
  by (simp add: budget_inv_def tool_calls_exhausted_def start_tool_call_def)

lemma budget_inv_read [budget_intros]:
  "budget_inv b \<Longrightarrow> \<not> reads_exhausted b \<Longrightarrow> budget_inv (start_read_call b)"
  by (simp add: budget_inv_def reads_exhausted_def start_read_call_def)

lemma budget_inv_chars [budget_intros]: "budget_inv b \<Longrightarrow> budget_inv (consume_read_chars n b)"
  by (simp add: budget_inv_def consume_read_chars_def)

lemma budget_inv_write [budget_intros]:
  "budget_inv b \<Longrightarrow> \<not> write_proposals_exhausted b \<Longrightarrow> budget_inv (start_write_proposal b)"
  by (simp add: budget_inv_def write_proposals_exhausted_def start_write_proposal_def)

lemma budget_inv_llm [budget_intros]:
  "budget_inv b \<Longrightarrow> \<not> llm_turns_exhausted b \<Longrightarrow> budget_inv (start_llm_turn b)"
  by (simp add: budget_inv_def llm_turns_exhausted_def start_llm_turn_def)

lemma turns_kept [simp]:
  "sb_llm_turns (start_tool_call b) = sb_llm_turns b" "sb_llm_turns (start_read_call b) = sb_llm_turns b"
  "sb_llm_turns (consume_read_chars n b) = sb_llm_turns b" "sb_llm_turns (start_write_proposal b) = sb_llm_turns b"
  "sb_llm_turns (start_llm_turn b) = sb_llm_turns b + 1"
  "sb_max_llm_turns (start_tool_call b) = sb_max_llm_turns b" "sb_max_llm_turns (start_read_call b) = sb_max_llm_turns b"
  "sb_max_llm_turns (consume_read_chars n b) = sb_max_llm_turns b"
  "sb_max_llm_turns (start_write_proposal b) = sb_max_llm_turns b" "sb_max_llm_turns (start_llm_turn b) = sb_max_llm_turns b"
  by (simp_all add: start_tool_call_def start_read_call_def consume_read_chars_def start_write_proposal_def start_llm_turn_def)

end
