(* ===== verification/Agent_Loop.thy ===== *)
theory Agent_Loop
  imports Agent_Budget Generation_Job
begin

text \<open>
  The decision loop of a chat turn: \<open>services/chat_generation_agent_loop.py\<close>, the offering and running of
  tools in \<open>services/chat_generation_tools.py\<close>, the admission of a web search in
  \<open>services/chat_generation_web_search.py\<close> and the workspace tools in
  \<open>services/chat_workspace_tools/runner.py\<close>.  The state holds what decides how the loop goes on: the
  budget, the flags of the recoveries, the tools, the published answer, the approval cards and whether
  external content was read.  What the model, a tool or the text analysis comes up with is an input
  (\<open>iteration\<close>, \<open>tool_input\<close>): the loop is defined for every behaviour of the model.  Telemetry, drafts
  and the wording of messages are left out.
\<close>

section \<open>Tools\<close>

datatype tool_budget = Reads | Tool_Calls | Write_Proposals

record workspace_tool =
  wt_name :: string
  wt_budget :: tool_budget
  wt_allows_always :: bool

text \<open>The toolbox of a turn: its tools by name.\<close>

type_synonym toolbox = "workspace_tool list"

definition toolbox_spec :: "toolbox \<Rightarrow> string \<Rightarrow> workspace_tool option" where
  "toolbox_spec box name = List.find (\<lambda>spec. wt_name spec = name) box"

definition toolbox_is_write :: "toolbox \<Rightarrow> string \<Rightarrow> bool" where
  "toolbox_is_write box name \<longleftrightarrow>
     (case toolbox_spec box name of None \<Rightarrow> False | Some spec \<Rightarrow> wt_budget spec = Write_Proposals)"

definition toolbox_uses_read_budget :: "toolbox \<Rightarrow> string \<Rightarrow> bool" where
  "toolbox_uses_read_budget box name \<longleftrightarrow>
     (case toolbox_spec box name of None \<Rightarrow> False | Some spec \<Rightarrow> wt_budget spec = Reads)"

abbreviation (input) GET_EVIDENCE_TOOL_NAME :: string where
  "GET_EVIDENCE_TOOL_NAME \<equiv> ''get_evidence''"
abbreviation (input) READ_WEB_PAGE_TOOL_NAME :: string where
  "READ_WEB_PAGE_TOOL_NAME \<equiv> ''read_web_page''"
abbreviation (input) PERSONAL_KNOWLEDGE_TOOL_NAME :: string where
  "PERSONAL_KNOWLEDGE_TOOL_NAME \<equiv> ''personal_knowledge_search''"
abbreviation (input) SHARED_PROMPT_TOOL_NAME :: string where
  "SHARED_PROMPT_TOOL_NAME \<equiv> ''shared_prompt_search''"
abbreviation (input) WEB_SEARCH_TOOL_NAME :: string where
  "WEB_SEARCH_TOOL_NAME \<equiv> ''web_search''"

definition EXTERNAL_CONTENT_TOOL_NAMES :: "string list" where
  "EXTERNAL_CONTENT_TOOL_NAMES =
     [WEB_SEARCH_TOOL_NAME, READ_WEB_PAGE_TOOL_NAME, SHARED_PROMPT_TOOL_NAME, ''shared_prompt_read'']"

section \<open>State of a turn\<close>

text \<open>
  What the tools did, in order: an answer with content handed to the model, a write run without a card, a
  card put up.  \<open>Content_Read name marked\<close> is the tool message with the payload of the tool \<open>name\<close>, and
  \<open>marked\<close> says that the payload holds evidence from outside or facts the user has not confirmed.  The
  entry is written where the payload is produced; it does not look at \<open>tr_untrusted_input_ingested\<close>.
\<close>

datatype tool_event =
    Content_Read string bool
  | Auto_Executed string
  | Card_Created string

text \<open>
  \<open>tr_write_claim\<close> is what \<open>_unconfirmed_write_claim_fallback\<close> answers for a text and the turn's cards: the notice
  that replaces a claim no card supports.
\<close>

record turn_run =
  tr_budget :: step_budget
  tr_configured_tools :: "string list"
  tr_toolbox :: "toolbox option"
  tr_personal_search :: bool
  tr_shared_search :: bool
  tr_evidence_records :: nat
  tr_has_web_records :: bool
  tr_write_claim :: "string \<Rightarrow> string list \<Rightarrow> string option"
  tr_chunks :: "string list"
  tr_final_answer_incomplete :: "llm_error option"
  tr_continuation_count :: int
  tr_tool_approval_parts :: "string list"
  tr_approval_pending :: bool
  tr_approval_pending_summaries :: "string list"
  tr_untrusted_input_ingested :: bool
  tr_suppress_next_generation_started :: bool
  tr_minimal_context_required :: bool
  tr_tool_schema_recovery_attempted :: bool
  tr_empty_answer_recovery_attempted :: bool
  tr_workspace_action_recovery_attempted :: bool
  tr_tools_disabled_after_failure :: bool
  tr_research_failure_recovery_attempted :: bool
  tr_cancelled :: bool
  tr_published :: "(int \<times> int) list"
  tr_requests :: "string list option list"
  tr_tool_log :: "tool_event list"

abbreviation on_budget :: "(step_budget \<Rightarrow> step_budget) \<Rightarrow> turn_run \<Rightarrow> turn_run" where
  "on_budget f st \<equiv> st\<lparr>tr_budget := f (tr_budget st)\<rparr>"

abbreviation ingest_untrusted :: "turn_run \<Rightarrow> turn_run" where
  "ingest_untrusted st \<equiv> st\<lparr>tr_untrusted_input_ingested := True\<rparr>"

definition answer_with :: "string \<Rightarrow> bool \<Rightarrow> turn_run \<Rightarrow> turn_run" where
  "answer_with name marked st = st\<lparr>tr_tool_log := tr_tool_log st @ [Content_Read name marked]\<rparr>"

section \<open>Offering tools\<close>

definition tool_available :: "turn_run \<Rightarrow> string \<Rightarrow> bool" where
  "tool_available st name =
     (let b = tr_budget st;
          can_gain_evidence =
            list_ex (\<lambda>t. t \<notin> {GET_EVIDENCE_TOOL_NAME, READ_WEB_PAGE_TOOL_NAME}) (tr_configured_tools st)
      in if name = GET_EVIDENCE_TOOL_NAME
         then \<not> (reads_exhausted b \<or> \<not> (can_gain_evidence \<or> tr_evidence_records st \<noteq> 0))
         else if name = READ_WEB_PAGE_TOOL_NAME
         then \<not> (reads_exhausted b \<or> \<not> (can_gain_evidence \<or> tr_has_web_records st))
         else if tr_toolbox st \<noteq> None \<and> toolbox_is_write (the (tr_toolbox st)) name
         then \<not> (write_proposals_exhausted b \<or> tr_approval_pending st)
         else if tr_toolbox st \<noteq> None \<and> toolbox_uses_read_budget (the (tr_toolbox st)) name
         then \<not> reads_exhausted b
         else \<not> tool_calls_exhausted b)"

definition available_agent_tools :: "turn_run \<Rightarrow> string list" where
  "available_agent_tools st = filter (tool_available st) (tr_configured_tools st)"

definition offered_agent_tools :: "turn_run \<Rightarrow> string list" where
  "offered_agent_tools st =
     (if tr_tools_disabled_after_failure st then []
      else if tr_approval_pending st then []
      else if sb_max_llm_turns (tr_budget st) - 1 \<le> sb_llm_turns (tr_budget st) then []
      else available_agent_tools st)"

text \<open>
  \<open>_configure_agent_tools\<close>: \<open>web_enabled\<close> is \<open>is_web_search_enabled()\<close> and \<open>memo_only\<close> what
  \<open>_is_memo_only_request\<close> answers for the request.
\<close>

definition configure_agent_tools :: "bool \<Rightarrow> bool \<Rightarrow> turn_run \<Rightarrow> turn_run" where
  "configure_agent_tools web_enabled memo_only st =
     (let suppress = (tr_toolbox st \<noteq> None \<and> memo_only)
      in st\<lparr>tr_configured_tools :=
              (if web_enabled \<and> \<not> suppress then [WEB_SEARCH_TOOL_NAME] else [])
              @ (if tr_personal_search st then [PERSONAL_KNOWLEDGE_TOOL_NAME] else [])
              @ (if tr_shared_search st then [SHARED_PROMPT_TOOL_NAME] else [])
              @ (case tr_toolbox st of None \<Rightarrow> [] | Some box \<Rightarrow> map wt_name box)
              @ (if \<not> suppress then [GET_EVIDENCE_TOOL_NAME, READ_WEB_PAGE_TOOL_NAME] else [])\<rparr>)"

section \<open>Running tools\<close>

text \<open>
  What a tool call meets.  \<open>ti_refused\<close> is a call whose arguments or target the tool rejects
  (\<open>WorkspaceToolArgumentError\<close>, \<open>WorkspaceToolError\<close>), \<open>ti_raises\<close> any other exception; the new records of a
  web search are those added before it raised, if it did.
\<close>

record tool_input =
  ti_raises :: bool
  ti_refused :: bool
  ti_query_empty :: bool
  ti_payload_chars :: int
  ti_new_records :: nat
  ti_web_records :: bool
  ti_external_evidence :: bool
  ti_unconfirmed_facts :: bool
  ti_unread_memo :: bool
  ti_shared_target :: bool
  ti_granted :: bool
  ti_write_limit_allows :: bool
  ti_save_raises :: bool
  ti_summary :: string

definition add_records :: "tool_input \<Rightarrow> turn_run \<Rightarrow> turn_run" where
  "add_records i st =
     st\<lparr>tr_evidence_records := tr_evidence_records st + ti_new_records i,
        tr_has_web_records := tr_has_web_records st \<or> ti_web_records i\<rparr>"

definition record_unsupported_tool_call :: "turn_run \<Rightarrow> turn_run" where
  "record_unsupported_tool_call st =
     (if \<not> tool_calls_exhausted (tr_budget st) then on_budget start_tool_call st
      else if \<not> reads_exhausted (tr_budget st) then on_budget start_read_call st
      else st)"

text \<open>A memo or shared-prompt search: admission, the search, its records.\<close>

definition run_lookup_tool_call :: "string \<Rightarrow> bool \<Rightarrow> tool_input \<Rightarrow> turn_run \<Rightarrow> turn_run" where
  "run_lookup_tool_call name has_search i st =
     (if tool_calls_exhausted (tr_budget st) then st
      else
        (let st = on_budget start_tool_call st
         in if \<not> has_search \<or> ti_query_empty i \<or> ti_raises i then st
            else answer_with name (ti_unconfirmed_facts i) (add_records i st)))"

definition run_read_tool_call :: "string \<Rightarrow> tool_input \<Rightarrow> turn_run \<Rightarrow> turn_run" where
  "run_read_tool_call name i st =
     (if reads_exhausted (tr_budget st) then st
      else
        (let st = on_budget start_read_call st;
             st = (if name \<noteq> READ_WEB_PAGE_TOOL_NAME \<and> ti_external_evidence i then ingest_untrusted st else st)
         in answer_with name (ti_external_evidence i) (on_budget (consume_read_chars (ti_payload_chars i)) st)))"

definition run_web_search_tool_call :: "tool_input \<Rightarrow> turn_run \<Rightarrow> turn_run" where
  "run_web_search_tool_call i st =
     (if tool_calls_exhausted (tr_budget st) then st
      else
        (let st = on_budget start_tool_call st
         in if ti_query_empty i then st else answer_with WEB_SEARCH_TOOL_NAME False (add_records i st)))"

definition workspace_read :: "workspace_tool \<Rightarrow> tool_input \<Rightarrow> turn_run \<Rightarrow> turn_run" where
  "workspace_read spec i st =
     (let uses_reads = (wt_budget spec = Reads)
      in if (if uses_reads then reads_exhausted (tr_budget st) else tool_calls_exhausted (tr_budget st)) then st
         else
           (let st = on_budget (if uses_reads then start_read_call else start_tool_call) st
            in if ti_raises i then st
               else
                 (let st = (if ti_refused i then st else answer_with (wt_name spec) False (add_records i st))
                  in if uses_reads then on_budget (consume_read_chars (ti_payload_chars i)) st else st)))"

text \<open>\<open>_may_auto_approve\<close> of the runner.\<close>

definition runner_may_auto_approve :: "workspace_tool \<Rightarrow> tool_input \<Rightarrow> turn_run \<Rightarrow> bool" where
  "runner_may_auto_approve spec i st \<longleftrightarrow>
     wt_allows_always spec \<and> \<not> ti_shared_target i \<and> ti_granted i \<and> \<not> tr_untrusted_input_ingested st \<and>
     ti_write_limit_allows i"

definition workspace_propose :: "workspace_tool \<Rightarrow> tool_input \<Rightarrow> turn_run \<Rightarrow> turn_run" where
  "workspace_propose spec i st =
     (if write_proposals_exhausted (tr_budget st) \<or> ti_unread_memo i then st
      else
        (let st = on_budget start_write_proposal st
         in if ti_raises i \<or> ti_refused i then st
            else
              (let auto = runner_may_auto_approve spec i st
               in if ti_save_raises i then st
                  else
                    (let st = st\<lparr>tr_tool_approval_parts := tr_tool_approval_parts st @ [wt_name spec],
                                 tr_tool_log := tr_tool_log st
                                   @ [if auto then Auto_Executed (wt_name spec) else Card_Created (wt_name spec)]\<rparr>
                     in if auto then st
                        else st\<lparr>tr_approval_pending_summaries := tr_approval_pending_summaries st @ [ti_summary i]\<rparr>))))"

definition run_workspace_tool :: "workspace_tool \<Rightarrow> tool_input \<Rightarrow> turn_run \<Rightarrow> turn_run" where
  "run_workspace_tool spec i st =
     (if wt_budget spec = Write_Proposals then workspace_propose spec i st else workspace_read spec i st)"

text \<open>One call of \<open>_dispatch_tool_calls\<close>: the runner of an available tool, and the call with its checks.\<close>

definition run_tool :: "string \<Rightarrow> tool_input \<Rightarrow> turn_run \<Rightarrow> turn_run" where
  "run_tool name i st =
     (case Option.bind (tr_toolbox st) (\<lambda>box. toolbox_spec box name) of
        Some spec \<Rightarrow> run_workspace_tool spec i st
      | None \<Rightarrow>
          if name = PERSONAL_KNOWLEDGE_TOOL_NAME \<and> tr_personal_search st
          then (if \<not> tool_calls_exhausted (tr_budget st) \<and> \<not> ti_query_empty i \<and> \<not> ti_raises i \<and> ti_unconfirmed_facts i
                then ingest_untrusted (run_lookup_tool_call name True i st) else run_lookup_tool_call name True i st)
          else if name = SHARED_PROMPT_TOOL_NAME \<and> tr_shared_search st then run_lookup_tool_call name True i st
          else if name \<in> {GET_EVIDENCE_TOOL_NAME, READ_WEB_PAGE_TOOL_NAME} then run_read_tool_call name i st
          else if name \<noteq> WEB_SEARCH_TOOL_NAME then record_unsupported_tool_call st
          else run_web_search_tool_call i st)"

definition dispatch_tool_call :: "string \<times> tool_input \<Rightarrow> turn_run \<Rightarrow> turn_run" where
  "dispatch_tool_call tc st =
     (if fst tc \<notin> set (available_agent_tools st) then record_unsupported_tool_call st
      else if fst tc \<in> set EXTERNAL_CONTENT_TOOL_NAMES then run_tool (fst tc) (snd tc) (ingest_untrusted st)
      else run_tool (fst tc) (snd tc) st)"

definition dispatch_tool_calls :: "(string \<times> tool_input) list \<Rightarrow> turn_run \<Rightarrow> turn_run" where
  "dispatch_tool_calls calls st =
     (let st = fold dispatch_tool_call calls st
      in if tr_approval_pending_summaries st \<noteq> [] \<and> \<not> tr_approval_pending st
         then st\<lparr>tr_approval_pending := True\<rparr> else st)"

section \<open>One decision\<close>

text \<open>
  How the stream of a decision ends: stopped, with an exception, or with tool calls and a body.  Of the
  body only what the loop looks at is given: the visible chunks, whether a state update without its tags
  was found in it, whether it was cut off at the output limit, and then where its last sentence ends
  (\<open>db_sentence_end\<close>), what the continuation passes meet, what is left of their text without state updates
  (\<open>db_filter\<close>, with the rest the filter held back) and after how many of these chunks the job was cancelled.
\<close>

record decision_body =
  db_visible :: "string list"
  db_untagged_update :: bool
  db_output_limited :: bool
  db_sentence_end :: "string \<Rightarrow> nat"
  db_environ :: environ
  db_should_stop :: bool
  db_passes :: "nat \<Rightarrow> pass_input"
  db_filter :: "string list \<Rightarrow> string list \<times> string"
  db_cancel_after :: "nat option"

datatype stream_end =
    Stream_Stopped
  | Stream_Raised llm_error
  | Stream_Decided "(string \<times> tool_input) list" decision_body

record iteration =
  it_stop :: bool
  it_fits :: bool
  it_cancelled :: bool
  it_stream :: stream_end
  it_salvaged :: "string list"

datatype loop_end =
    Loop_Stopped
  | Loop_Finished
  | Loop_Raised llm_error

text \<open>\<open>_can_degrade_to_answer\<close>.\<close>

definition can_degrade_to_answer :: "turn_run \<Rightarrow> string list option \<Rightarrow> llm_error \<Rightarrow> bool" where
  "can_degrade_to_answer st active_tools exc \<longleftrightarrow>
     \<not> (tr_cancelled st \<or> tr_research_failure_recovery_attempted st) \<and> active_tools \<noteq> None \<and>
     exc \<notin> {Configuration_Error, Authentication_Error, Invalid_Model_Error} \<and> is_service_error exc"

text \<open>
  The exceptions of \<open>_stream_model_decision\<close>: a replay of the decision after a change of the state
  (\<open>Inr\<close>), or the exception goes on (\<open>Inl\<close>).
\<close>

definition stream_recovery :: "bool \<Rightarrow> string list option \<Rightarrow> llm_error \<Rightarrow> turn_run \<Rightarrow> llm_error + turn_run" where
  "stream_recovery force_answer active_tools exc st =
     (case exc of
        Input_Limit_Error \<Rightarrow>
          if tr_minimal_context_required st \<or> tr_chunks st \<noteq> [] then Inl exc
          else Inr (st\<lparr>tr_minimal_context_required := True, tr_suppress_next_generation_started := True\<rparr>)
      | Tool_Schema_Error \<Rightarrow>
          if force_answer \<and> active_tools = None \<and> \<not> tr_tool_schema_recovery_attempted st \<and> \<not> tr_cancelled st
          then Inr (st\<lparr>tr_tool_schema_recovery_attempted := True, tr_suppress_next_generation_started := True\<rparr>)
          else Inl exc
      | _ \<Rightarrow> Inl exc)"

text \<open>
  \<open>_publish_completed_answer_step\<close>: the chunks are added as they are, without the research trace in front of
  the first one; nothing is added once the job is cancelled.
\<close>

definition publish_completed_answer_step :: "string list \<Rightarrow> turn_run \<Rightarrow> turn_run" where
  "publish_completed_answer_step step_chunks st =
     (let step_chunks =
            (if tr_toolbox st = None then step_chunks
             else (case tr_write_claim st (concat step_chunks) (tr_tool_approval_parts st) of
                     None \<Rightarrow> step_chunks
                   | Some fallback \<Rightarrow> [fallback]))
      in if tr_cancelled st then st else st\<lparr>tr_chunks := tr_chunks st @ step_chunks\<rparr>)"

definition hold_chunks :: "string list \<Rightarrow> turn_run \<Rightarrow> turn_run" where
  "hold_chunks cs st = (if tr_cancelled st then st else st\<lparr>tr_chunks := tr_chunks st @ cs\<rparr>)"

text \<open>The chunks held back from \<open>start\<close> on are published as one.\<close>

definition publish_held_tail :: "nat \<Rightarrow> turn_run \<Rightarrow> turn_run" where
  "publish_held_tail start st =
     (if tr_cancelled st then st
      else
        (let completed_tail = concat (drop start (tr_chunks st));
             st = st\<lparr>tr_chunks := take start (tr_chunks st)\<rparr>
         in if completed_tail = [] then st else publish_completed_answer_step [completed_tail] st))"

text \<open>
  \<open>_continue_interrupted_answer\<close>.  With \<open>memo_tail_start\<close> the continuation is held back behind that index and
  published together with the unfinished tail in front of it.
\<close>

definition continue_interrupted_answer ::
  "decision_body \<Rightarrow> string \<Rightarrow> nat option \<Rightarrow> turn_run \<Rightarrow> (llm_error + llm_error option) \<times> turn_run" where
  "continue_interrupted_answer body published_text memo_tail_start st =
     (case stream_final_answer_with_recovery (db_environ body) (db_passes body) (db_should_stop body)
             published_text (Some Output_Limit_Error) of
        (ending, result) \<Rightarrow>
          (let (fed, trailing) = db_filter body (ra_published result);
               fed = (case db_cancel_after body of None \<Rightarrow> fed | Some n \<Rightarrow> take n fed);
               st = (if memo_tail_start = None then fold (\<lambda>c. publish_completed_answer_step [c]) fed st
                     else hold_chunks fed st);
               st = st\<lparr>tr_cancelled := tr_cancelled st \<or> db_cancel_after body \<noteq> None\<rparr>
           in case ending of
                Recovery_Raised exc \<Rightarrow> (Inl exc, st)
              | Recovered error \<Rightarrow>
                  (let st = (if trailing = [] then st
                             else if memo_tail_start = None then publish_completed_answer_step [trailing] st
                             else hold_chunks [trailing] st);
                       st = (case memo_tail_start of None \<Rightarrow> st | Some start \<Rightarrow> publish_held_tail start st)
                   in (Inr error, st\<lparr>tr_continuation_count := ra_continuation_count result\<rparr>))))"

definition incomplete_answer :: "(llm_error + llm_error option) \<times> turn_run \<Rightarrow> (llm_error + bool) \<times> turn_run" where
  "incomplete_answer r =
     (case r of
        (Inl exc, st) \<Rightarrow> (Inl exc, st)
      | (Inr error, st) \<Rightarrow> (Inr False, st\<lparr>tr_final_answer_incomplete := error\<rparr>))"

text \<open>The end of \<open>_finish_answer_step\<close>: the answer is published.\<close>

definition publish_answer :: "decision_body \<Rightarrow> string list \<Rightarrow> turn_run \<Rightarrow> (llm_error + bool) \<times> turn_run" where
  "publish_answer body visible st =
     (let visible_text = concat visible
      in if visible = [] then (Inr False, st)
         else if db_output_limited body \<and> tr_toolbox st \<noteq> None
         then (case tr_write_claim st visible_text (tr_tool_approval_parts st) of
                 Some fallback \<Rightarrow> (Inr False, publish_completed_answer_step [fallback] st)
               | None \<Rightarrow>
                   (let split_at = db_sentence_end body visible_text;
                        st = (if split_at = 0 then st
                              else publish_completed_answer_step [take split_at visible_text] st);
                        memo_tail_start = length (tr_chunks st);
                        st = (if split_at < length visible_text
                              then st\<lparr>tr_chunks := tr_chunks st @ [drop split_at visible_text]\<rparr> else st)
                    in incomplete_answer (continue_interrupted_answer body visible_text (Some memo_tail_start) st)))
         else
           (let st = publish_completed_answer_step visible st
            in if db_output_limited body
               then incomplete_answer (continue_interrupted_answer body visible_text None st)
               else (Inr False, st)))"

text \<open>\<open>_finish_answer_step\<close>: an exception, or whether the loop goes on, and the state.\<close>

definition finish_answer_step ::
  "string list option \<Rightarrow> decision_body \<Rightarrow> turn_run \<Rightarrow> (llm_error + bool) \<times> turn_run" where
  "finish_answer_step active_tools body st =
     (let visible = (if \<not> tr_cancelled st \<and> db_untagged_update body then [] else db_visible body)
      in if visible \<noteq> [] \<and> tr_toolbox st \<noteq> None \<and> active_tools \<noteq> None \<and> active_tools \<noteq> Some []
            \<and> tr_tool_approval_parts st = [] \<and> \<not> tr_workspace_action_recovery_attempted st \<and> \<not> tr_cancelled st
            \<and> \<not> db_output_limited body \<and> tr_write_claim st (concat visible) [] \<noteq> None
         then (Inr True, st\<lparr>tr_workspace_action_recovery_attempted := True, tr_suppress_next_generation_started := True\<rparr>)
         else if visible = [] \<and> tr_chunks st = [] \<and> \<not> tr_empty_answer_recovery_attempted st \<and> \<not> tr_cancelled st
         then (Inr True, st\<lparr>tr_empty_answer_recovery_attempted := True, tr_suppress_next_generation_started := True\<rparr>)
         else publish_answer body visible st)"

text \<open>Whether the decision has to answer, and the tools its request carries.\<close>

definition must_answer :: "turn_run \<Rightarrow> bool" where
  "must_answer st \<longleftrightarrow>
     offered_agent_tools st = [] \<or>
     (tr_empty_answer_recovery_attempted st \<and> (tr_toolbox st = None \<or> tr_tool_approval_parts st \<noteq> []))"

definition active_tools_of :: "turn_run \<Rightarrow> string list option" where
  "active_tools_of st = (if must_answer st then None else Some (offered_agent_tools st))"

text \<open>The request is sent: the turn is counted and announced.\<close>

definition begin_decision :: "iteration \<Rightarrow> turn_run \<Rightarrow> turn_run" where
  "begin_decision it st =
     (let active_tools = active_tools_of st;
          st = on_budget start_llm_turn st;
          st = (if tr_suppress_next_generation_started st then st
                else st\<lparr>tr_published := tr_published st @ [(budget_step (tr_budget st), max_steps (tr_budget st))]\<rparr>)
      in st\<lparr>tr_suppress_next_generation_started := False,
            tr_requests := tr_requests st @ [active_tools],
            tr_cancelled := tr_cancelled st \<or> it_cancelled it\<rparr>)"

text \<open>The stream of the decision has ended.\<close>

definition end_decision ::
  "bool \<Rightarrow> string list option \<Rightarrow> stream_end \<Rightarrow> turn_run \<Rightarrow> loop_end option \<times> turn_run" where
  "end_decision force_answer active_tools outcome st =
     (case outcome of
        Stream_Stopped \<Rightarrow> (Some Loop_Stopped, st\<lparr>tr_cancelled := True\<rparr>)
      | Stream_Raised exc \<Rightarrow>
          (case stream_recovery force_answer active_tools exc st of
             Inr st \<Rightarrow> (None, st)
           | Inl exc \<Rightarrow>
               if can_degrade_to_answer st active_tools exc
               then (None, st\<lparr>tr_research_failure_recovery_attempted := True,
                              tr_tools_disabled_after_failure := True,
                              tr_suppress_next_generation_started := True\<rparr>)
               else (Some (Loop_Raised exc), st))
      | Stream_Decided calls body \<Rightarrow>
          (let tool_calls = (if force_answer then [] else calls)
           in if tool_calls = []
              then (case finish_answer_step active_tools body st of
                      (Inl exc, st) \<Rightarrow> (Some (Loop_Raised exc), st)
                    | (Inr True, st) \<Rightarrow> (None, st)
                    | (Inr False, st) \<Rightarrow> (Some Loop_Finished, st))
              else (None, dispatch_tool_calls tool_calls st)))"

text \<open>
  One pass of \<open>_run_agent_loop\<close>; \<open>None\<close> where the loop goes on.  \<open>it_stop\<close> is \<open>_should_stop()\<close> at its head,
  \<open>it_fits\<close> whether \<open>_prepare_turn_messages\<close> found a request that fits, \<open>it_cancelled\<close> whether the job was
  cancelled while the decision streamed, \<open>it_salvaged\<close> the buffered text published at the end of the budget.
\<close>

definition agent_iteration :: "iteration \<Rightarrow> turn_run \<Rightarrow> loop_end option \<times> turn_run" where
  "agent_iteration it st =
     (if it_stop it then (Some Loop_Stopped, st\<lparr>tr_cancelled := True\<rparr>)
      else if llm_turns_exhausted (tr_budget st)
      then (Some Loop_Finished,
            if it_salvaged it = [] then st else publish_completed_answer_step (it_salvaged it) st)
      else if \<not> it_fits it then (Some (Loop_Raised Input_Limit_Error), st)
      else end_decision (must_answer st) (active_tools_of st) (it_stream it) (begin_decision it st))"

text \<open>
  \<open>_run_agent_loop\<close>: the passes meet \<open>inputs 0\<close>, \<open>inputs 1\<close> and so on.  The value is \<open>None\<close> if the loop never
  returns.
\<close>

partial_function (option) agent_loop :: "(nat \<Rightarrow> iteration) \<Rightarrow> turn_run \<Rightarrow> (loop_end \<times> turn_run) option" where
  [code]: "agent_loop inputs st =
     (case agent_iteration (inputs 0) st of
        (Some e, st) \<Rightarrow> Some (e, st)
      | (None, st) \<Rightarrow> agent_loop (\<lambda>n. inputs (Suc n)) st)"

end
