(* ===== verification/Agent_Safety.thy ===== *)
theory Agent_Safety
  imports Agent_Loop
begin

text \<open>
  What the decision loop promises whatever the model does: it ends within its budget, the last decision it
  may make carries no tools, and once external content was read no write runs without the user.
\<close>

section \<open>What a pass keeps\<close>

text \<open>
  Tools change the budget within its invariant and leave the number of decisions alone; a write runs on its
  own only while no external content was read, and the flag that says so is never taken back.  \<open>u\<close> says
  whether the turn started with such content.
\<close>

text \<open>Answers that come from outside, whatever the turn's flag says.\<close>

fun external_content :: "tool_event \<Rightarrow> bool" where
  "external_content (Content_Read name marked) \<longleftrightarrow>
     marked \<or> name \<in> {''web_search'', ''read_web_page'', ''shared_prompt_search'', ''shared_prompt_read''}"
| "external_content _ \<longleftrightarrow> False"

definition log_ok :: "bool \<Rightarrow> turn_run \<Rightarrow> bool" where
  "log_ok u st \<longleftrightarrow>
     (u \<or> list_ex external_content (tr_tool_log st) \<longrightarrow> tr_untrusted_input_ingested st) \<and>
     (\<forall>xs n ys. tr_tool_log st = xs @ Auto_Executed n # ys \<longrightarrow> \<not> list_ex external_content xs \<and> \<not> u)"

fun is_proposal :: "tool_event \<Rightarrow> bool" where
  "is_proposal (Content_Read name marked) = False"
| "is_proposal _ = True"

definition tools_inv :: "bool \<Rightarrow> turn_run \<Rightarrow> bool" where
  "tools_inv u st \<longleftrightarrow> budget_inv (tr_budget st) \<and> log_ok u st \<and>
     int (length (filter is_proposal (tr_tool_log st))) \<le> sb_write_proposals (tr_budget st)"

definition same_turn :: "turn_run \<Rightarrow> turn_run \<Rightarrow> bool" where
  "same_turn st st' \<longleftrightarrow>
     sb_llm_turns (tr_budget st') = sb_llm_turns (tr_budget st) \<and>
     sb_max_llm_turns (tr_budget st') = sb_max_llm_turns (tr_budget st) \<and>
     tr_requests st' = tr_requests st \<and>
     (tr_untrusted_input_ingested st \<longrightarrow> tr_untrusted_input_ingested st')"

lemma same_turn_refl [simp]: "same_turn st st"
  by (simp add: same_turn_def)

lemma same_turn_trans: "same_turn a b \<Longrightarrow> same_turn b c \<Longrightarrow> same_turn a c"
  by (simp add: same_turn_def)

lemma log_ok_snoc:
  assumes "log_ok u st" "tr_tool_log st' = tr_tool_log st @ [ev]"
    and "tr_untrusted_input_ingested st \<longrightarrow> tr_untrusted_input_ingested st'"
    and "external_content ev \<longrightarrow> tr_untrusted_input_ingested st'"
    and "\<And>n. ev = Auto_Executed n \<Longrightarrow> \<not> tr_untrusted_input_ingested st"
  shows "log_ok u st'"
  unfolding log_ok_def
proof (intro conjI allI impI)
  assume "u \<or> list_ex external_content (tr_tool_log st')"
  with assms show "tr_untrusted_input_ingested st'" by (auto simp: log_ok_def)
next
  fix xs n ys
  assume split: "tr_tool_log st' = xs @ Auto_Executed n # ys"
  have "\<not> list_ex external_content xs \<and> \<not> u"
  proof (cases ys rule: rev_cases)
    case Nil
    with split assms(2) have "xs = tr_tool_log st" "ev = Auto_Executed n" by auto
    with assms(1,5) show ?thesis by (auto simp: log_ok_def)
  next
    case (snoc zs z)
    with split assms(2) have "tr_tool_log st = xs @ Auto_Executed n # zs"
      by (metis append_Cons append_assoc butlast_snoc)
    with assms(1) show ?thesis by (auto simp: log_ok_def)
  qed
  then show "\<not> list_ex external_content xs" "\<not> u" by simp_all
qed

lemma log_ok_same:
  "log_ok u st \<Longrightarrow> tr_tool_log st' = tr_tool_log st \<Longrightarrow> tr_untrusted_input_ingested st' = tr_untrusted_input_ingested st \<Longrightarrow> log_ok u st'"
  by (simp add: log_ok_def)

lemma proposals_kept [simp]:
  "sb_write_proposals (start_tool_call b) = sb_write_proposals b" "sb_write_proposals (start_read_call b) = sb_write_proposals b"
  "sb_write_proposals (consume_read_chars n b) = sb_write_proposals b"
  "sb_write_proposals (start_llm_turn b) = sb_write_proposals b"
  "sb_write_proposals (start_write_proposal b) = sb_write_proposals b + 1"
  by (simp_all add: start_tool_call_def start_read_call_def consume_read_chars_def start_llm_turn_def start_write_proposal_def)

text \<open>\<open>tool_step u st st'\<close>: a tool may take \<open>st\<close> to \<open>st'\<close>.\<close>

definition tool_step :: "bool \<Rightarrow> turn_run \<Rightarrow> turn_run \<Rightarrow> bool" where
  "tool_step u st st' \<longleftrightarrow> tools_inv u st \<longrightarrow> tools_inv u st' \<and> same_turn st st'"

lemma tool_step_refl [simp]: "tool_step u st st"
  by (simp add: tool_step_def)

lemma tool_step_trans: "tool_step u a b \<Longrightarrow> tool_step u b c \<Longrightarrow> tool_step u a c"
  by (auto simp: tool_step_def intro: same_turn_trans)

lemma tool_step_if:
  "(b \<Longrightarrow> tool_step u st x) \<Longrightarrow> (\<not> b \<Longrightarrow> tool_step u st y) \<Longrightarrow> tool_step u st (if b then x else y)"
  by simp

lemma tool_step_ingest: "tool_step u st (ingest_untrusted st)"
  by (auto simp: tool_step_def tools_inv_def same_turn_def log_ok_def)

lemma tool_step_answer:
  assumes "external_content (Content_Read name marked) \<Longrightarrow> tr_untrusted_input_ingested st"
  shows "tool_step u st (answer_with name marked st)"
proof -
  have "log_ok u (answer_with name marked st)" if "log_ok u st"
    by (rule log_ok_snoc [OF that]) (use assms in \<open>auto simp: answer_with_def\<close>)
  then show ?thesis by (auto simp: tool_step_def tools_inv_def same_turn_def answer_with_def)
qed

lemma tool_step_records: "tool_step u st (add_records i st)"
  by (auto simp: tool_step_def tools_inv_def same_turn_def add_records_def log_ok_def)

lemma tool_step_call: "\<not> tool_calls_exhausted (tr_budget st) \<Longrightarrow> tool_step u st (on_budget start_tool_call st)"
  by (auto simp: tool_step_def tools_inv_def same_turn_def log_ok_def intro: budget_intros)

lemma tool_step_read: "\<not> reads_exhausted (tr_budget st) \<Longrightarrow> tool_step u st (on_budget start_read_call st)"
  by (auto simp: tool_step_def tools_inv_def same_turn_def log_ok_def intro: budget_intros)

lemma tool_step_chars: "tool_step u st (on_budget (consume_read_chars n) st)"
  by (auto simp: tool_step_def tools_inv_def same_turn_def log_ok_def intro: budget_intros)

lemmas tool_step_rules = tool_step_ingest tool_step_records tool_step_call tool_step_read tool_step_chars

lemma tool_step_unsupported: "tool_step u st (record_unsupported_tool_call st)"
  by (simp add: record_unsupported_tool_call_def tool_step_rules)

text \<open>The runners whose answers may come from outside need the flag to be set when they do.\<close>

lemma tool_step_found:
  assumes "tool_step u st st'" "external_content (Content_Read name marked) \<Longrightarrow> tr_untrusted_input_ingested st'"
  shows "tool_step u st (answer_with name marked (add_records i st'))"
proof -
  have "tr_untrusted_input_ingested (add_records i st') = tr_untrusted_input_ingested st'" by (simp add: add_records_def)
  with assms tool_step_answer tool_step_records tool_step_trans show ?thesis by metis
qed

lemma tool_step_lookup:
  assumes "\<not> ti_raises i \<Longrightarrow> \<not> ti_query_empty i \<Longrightarrow> \<not> tool_calls_exhausted (tr_budget st) \<Longrightarrow>
      external_content (Content_Read name (ti_unconfirmed_facts i)) \<Longrightarrow> tr_untrusted_input_ingested st"
  shows "tool_step u st (run_lookup_tool_call name b i st)"
  using assms by (auto simp: run_lookup_tool_call_def Let_def intro!: tool_step_found tool_step_call)

lemma lookup_flag:
  "ingest_untrusted (run_lookup_tool_call name b i st) = run_lookup_tool_call name b i (ingest_untrusted st)"
  by (simp add: run_lookup_tool_call_def add_records_def answer_with_def Let_def)

lemma tool_step_web:
  "tr_untrusted_input_ingested st \<Longrightarrow> tool_step u st (run_web_search_tool_call i st)"
  by (auto simp: run_web_search_tool_call_def Let_def intro!: tool_step_found tool_step_call)

lemma tool_step_run_read:
  assumes "name = ''read_web_page'' \<Longrightarrow> tr_untrusted_input_ingested st" "name \<in> {''get_evidence'', ''read_web_page''}"
  shows "tool_step u st (run_read_tool_call name i st)"
proof (cases "reads_exhausted (tr_budget st)")
  case False
  let ?a = "on_budget start_read_call st"
  let ?b = "if name \<noteq> READ_WEB_PAGE_TOOL_NAME \<and> ti_external_evidence i then ingest_untrusted ?a else ?a"
  let ?c = "on_budget (consume_read_chars (ti_payload_chars i)) ?b"
  have "tool_step u st ?a" by (rule tool_step_read [OF False])
  moreover have "tool_step u ?a ?b" using tool_step_ingest [of u ?a] by simp
  moreover have "tool_step u ?b ?c" by (rule tool_step_chars)
  moreover have "tool_step u ?c (answer_with name (ti_external_evidence i) ?c)"
    by (rule tool_step_answer) (use assms in auto)
  ultimately have "tool_step u st (answer_with name (ti_external_evidence i) ?c)" by (blast intro: tool_step_trans)
  with False show ?thesis unfolding run_read_tool_call_def Let_def by simp
qed (simp add: run_read_tool_call_def)

lemma tool_step_workspace_read:
  assumes "external_content (Content_Read (wt_name spec) False) \<Longrightarrow> tr_untrusted_input_ingested st"
  shows "tool_step u st (workspace_read spec i st)"
proof (cases "if wt_budget spec = Reads then reads_exhausted (tr_budget st) else tool_calls_exhausted (tr_budget st)")
  case True
  show ?thesis unfolding workspace_read_def Let_def if_P [OF True] by simp
next
  case False
  define a where "a = on_budget (if wt_budget spec = Reads then start_read_call else start_tool_call) st"
  define b where "b = (if ti_refused i then a else answer_with (wt_name spec) False (add_records i a))"
  have a: "tool_step u st a" using False tool_step_read tool_step_call by (auto simp: a_def)
  have "tool_step u st (answer_with (wt_name spec) False (add_records i a))"
    by (rule tool_step_found [OF a]) (use assms in \<open>simp add: a_def\<close>)
  with a have b: "tool_step u st b" by (simp add: b_def)
  have "workspace_read spec i st =
      (if ti_raises i then a else if wt_budget spec = Reads then on_budget (consume_read_chars (ti_payload_chars i)) b else b)"
    unfolding workspace_read_def Let_def b_def a_def using False by simp
  then show ?thesis using a b tool_step_trans [OF b tool_step_chars] by simp
qed

lemma tool_step_propose: "tool_step u st (workspace_propose spec i st)"
proof (cases "write_proposals_exhausted (tr_budget st) \<or> ti_unread_memo i \<or> ti_raises i \<or> ti_refused i \<or> ti_save_raises i")
  case True
  then show ?thesis
    by (auto simp: workspace_propose_def Let_def tool_step_def tools_inv_def same_turn_def log_ok_def intro: budget_intros)
next
  case False
  let ?ev = "if runner_may_auto_approve spec i (on_budget start_write_proposal st)
     then Auto_Executed (wt_name spec) else Card_Created (wt_name spec)"
  let ?st = "workspace_propose spec i st"
  have out: "tr_tool_log ?st = tr_tool_log st @ [?ev]" "tr_budget ?st = start_write_proposal (tr_budget st)"
    "tr_requests ?st = tr_requests st" "tr_untrusted_input_ingested ?st = tr_untrusted_input_ingested st"
    using False by (simp_all add: workspace_propose_def Let_def)
  have "log_ok u st \<Longrightarrow> log_ok u ?st"
    by (rule log_ok_snoc [OF _ out(1)]) (auto simp: out(4) runner_may_auto_approve_def split: if_splits)
  moreover have "budget_inv (tr_budget st) \<Longrightarrow> budget_inv (tr_budget ?st)"
    using False out(2) by (auto intro: budget_intros)
  ultimately show ?thesis using out by (auto simp: tool_step_def tools_inv_def same_turn_def)
qed

lemma toolbox_spec_name: "Option.bind box (\<lambda>b. toolbox_spec b name) = Some spec \<Longrightarrow> wt_name spec = name"
  by (auto simp: toolbox_spec_def find_Some_iff split: bind_splits)

lemma tool_step_run_tool:
  assumes "name \<in> set EXTERNAL_CONTENT_TOOL_NAMES \<Longrightarrow> tr_untrusted_input_ingested st"
  shows "tool_step u st (run_tool name i st)"
proof (cases "Option.bind (tr_toolbox st) (\<lambda>box. toolbox_spec box name)")
  case (Some spec)
  have "tool_step u st (workspace_read spec i st)"
    by (rule tool_step_workspace_read)
       (use assms toolbox_spec_name [OF Some] in \<open>auto simp: EXTERNAL_CONTENT_TOOL_NAMES_def\<close>)
  with Some show ?thesis by (simp add: run_tool_def run_workspace_tool_def tool_step_propose)
next
  case None
  have shared: "tool_step u st (run_lookup_tool_call name True i st)" if "name = ''shared_prompt_search'' \<and> b" for b
    by (rule tool_step_lookup) (use assms that in \<open>auto simp: EXTERNAL_CONTENT_TOOL_NAMES_def\<close>)
  have facts: "tool_step u st (ingest_untrusted (run_lookup_tool_call name True i st))"
    unfolding lookup_flag by (rule tool_step_trans [OF tool_step_ingest tool_step_lookup]) simp
  have personal: "tool_step u st (run_lookup_tool_call name True i st)"
    if "name = ''personal_knowledge_search'' \<and> b"
      "\<not> (\<not> tool_calls_exhausted (tr_budget st) \<and> \<not> ti_query_empty i \<and> \<not> ti_raises i \<and> ti_unconfirmed_facts i)" for b
    by (rule tool_step_lookup) (use that in auto)
  have reads: "tool_step u st (run_read_tool_call name i st)" if "name \<in> {''get_evidence'', ''read_web_page''}"
    by (rule tool_step_run_read) (use assms that in \<open>auto simp: EXTERNAL_CONTENT_TOOL_NAMES_def\<close>)
  have web: "tool_step u st (run_web_search_tool_call i st)" if "\<not> name \<noteq> ''web_search''"
    by (rule tool_step_web) (use assms that in \<open>auto simp: EXTERNAL_CONTENT_TOOL_NAMES_def\<close>)
  show ?thesis
    unfolding run_tool_def None option.case
    by (intro tool_step_if) (rule facts personal shared reads tool_step_unsupported web; assumption)+
qed

lemma tool_step_dispatch: "tool_step u st (dispatch_tool_call tc st)"
proof -
  have "tool_step u st (run_tool (fst tc) (snd tc) (ingest_untrusted st))"
    by (rule tool_step_trans [OF tool_step_ingest tool_step_run_tool]) simp
  moreover have "tool_step u st (run_tool (fst tc) (snd tc) st)" if "fst tc \<notin> set EXTERNAL_CONTENT_TOOL_NAMES"
    by (rule tool_step_run_tool) (use that in blast)
  ultimately show ?thesis
    unfolding dispatch_tool_call_def by (simp only: tool_step_unsupported split: if_split) blast
qed

lemma tool_step_fold: "tool_step u st (fold dispatch_tool_call calls st)"
proof (induction calls arbitrary: st)
  case (Cons c calls)
  then show ?case using tool_step_trans [OF tool_step_dispatch] by (metis fold_simps(2))
qed simp

lemma tool_step_dispatches: "tool_step u st (dispatch_tool_calls calls st)"
proof -
  have "tool_step u a (a\<lparr>tr_approval_pending := True\<rparr>)" for a
    by (auto simp: tool_step_def tools_inv_def same_turn_def log_ok_def)
  from tool_step_trans [OF tool_step_fold this] show ?thesis
    unfolding dispatch_tool_calls_def Let_def by (cases "tr_approval_pending (fold dispatch_tool_call calls st)")
      (simp_all add: tool_step_fold)
qed

section \<open>One pass\<close>

definition loop_inv :: "bool \<Rightarrow> turn_run \<Rightarrow> bool" where
  "loop_inv u st \<longleftrightarrow> tools_inv u st \<and> int (length (tr_requests st)) = sb_llm_turns (tr_budget st) \<and>
     (\<forall>i < length (tr_requests st). tr_requests st ! i \<noteq> None \<longrightarrow> int i + 1 < sb_max_llm_turns (tr_budget st))"

lemma loop_inv_tools: "loop_inv u st \<Longrightarrow> tool_step u st st' \<Longrightarrow> loop_inv u st' \<and> same_turn st st'"
  by (auto simp: loop_inv_def tool_step_def same_turn_def)

lemma quiet_tool_step:
  assumes "tr_budget st' = tr_budget st" "tr_requests st' = tr_requests st" "tr_tool_log st' = tr_tool_log st"
    "tr_untrusted_input_ingested st' = tr_untrusted_input_ingested st"
  shows "tool_step u st st'"
  using assms by (auto simp: tool_step_def tools_inv_def same_turn_def log_ok_def)

text \<open>Publishing an answer, with its continuation, is quiet for the loop.\<close>

definition quiet :: "turn_run \<Rightarrow> turn_run \<Rightarrow> bool" where
  "quiet st st' \<longleftrightarrow>
     tr_budget st' = tr_budget st \<and> tr_requests st' = tr_requests st \<and> tr_tool_log st' = tr_tool_log st \<and>
     tr_untrusted_input_ingested st' = tr_untrusted_input_ingested st"

lemma quietly_refl [simp]: "quiet st st"
  by (simp add: quiet_def)

lemma quietly_trans: "quiet a b \<Longrightarrow> quiet b c \<Longrightarrow> quiet a c"
  by (simp add: quiet_def)

lemma quietly_updates [simp]:
  "quiet st (st'\<lparr>tr_chunks := cs\<rparr>) = quiet st st'"
  "quiet st (st'\<lparr>tr_cancelled := b\<rparr>) = quiet st st'"
  "quiet st (st'\<lparr>tr_continuation_count := n\<rparr>) = quiet st st'"
  "quiet st (st'\<lparr>tr_final_answer_incomplete := r\<rparr>) = quiet st st'"
  by (simp_all add: quiet_def)

lemma quietly_publish [simp]: "quiet st (publish_completed_answer_step cs st') = quiet st st'"
  by (simp add: publish_completed_answer_step_def Let_def)

lemma quietly_hold [simp]: "quiet st (hold_chunks cs st') = quiet st st'"
  by (simp add: hold_chunks_def)

lemma quiet_publishes [simp]: "quiet st (fold (\<lambda>c. publish_completed_answer_step [c]) cs st') = quiet st st'"
  by (induction cs arbitrary: st') simp_all

lemma quiet_held [simp]: "quiet st (publish_held_tail start st') = quiet st st'"
  by (simp add: publish_held_tail_def Let_def)

lemma quiet_continue: "quiet st (snd (continue_interrupted_answer body t start st))"
  unfolding continue_interrupted_answer_def split_beta Let_def
  by (cases "fst (stream_final_answer_with_recovery (db_environ body) (db_passes body) (db_should_stop body) t
        (Some Output_Limit_Error))"; cases start) simp_all

lemma quiet_incomplete:
  "incomplete_answer (continue_interrupted_answer body t start st) = (r, st') \<Longrightarrow> quiet st st'"
  using quiet_continue [of st body t start]
  by (auto simp: incomplete_answer_def split: prod.splits sum.splits)

lemma quiet_publish_answer:
  assumes "publish_answer body visible st = (r, st')"
  shows "quiet st st'"
proof -
  have "quiet st st'" if "incomplete_answer (continue_interrupted_answer body t start st1) = (r, st')" "quiet st st1"
    for t start st1
    using quietly_trans quiet_incomplete that by blast
  with assms show ?thesis
    by (auto simp: publish_answer_def Let_def split: option.splits if_splits)
qed

lemma quiet_is_tool_step: "quiet st st' \<Longrightarrow> tool_step u st st'"
  by (simp add: quiet_def quiet_tool_step)

lemma finish_answer_tool_step:
  "finish_answer_step active body st = (r, st') \<Longrightarrow> tool_step u st st'"
  unfolding finish_answer_step_def Let_def
  by (rule quiet_is_tool_step) (auto simp: quiet_def dest!: quiet_publish_answer split: if_splits)

lemma end_decision_step:
  assumes "end_decision force active outcome st = (r, st')"
  shows "tool_step u st st'"
proof (cases outcome)
  case Stream_Stopped
  with assms show ?thesis by (auto simp: end_decision_def intro: quiet_tool_step)
next
  case (Stream_Raised exc)
  with assms show ?thesis
    by (auto simp: end_decision_def stream_recovery_def split: llm_error.splits if_splits intro!: quiet_tool_step)
next
  case (Stream_Decided calls body)
  show ?thesis
  proof (cases "force \<or> calls = []")
    case True
    then have "(if force then [] else calls) = []" by auto
    with Stream_Decided assms show ?thesis
      by (auto simp: end_decision_def Let_def split: prod.splits sum.splits bool.splits
          intro: finish_answer_tool_step)
  next
    case False
    with Stream_Decided assms tool_step_dispatches show ?thesis by (auto simp: end_decision_def)
  qed
qed

lemma active_tools_reserve:
  "active_tools_of st \<noteq> None \<Longrightarrow> sb_llm_turns (tr_budget st) + 1 < sb_max_llm_turns (tr_budget st)"
  by (auto simp: active_tools_of_def must_answer_def offered_agent_tools_def split: if_splits)

lemma begin_decision_inv:
  assumes "loop_inv u st" "\<not> llm_turns_exhausted (tr_budget st)"
  shows "loop_inv u (begin_decision it st)"
    and "sb_llm_turns (tr_budget (begin_decision it st)) = sb_llm_turns (tr_budget st) + 1"
    and "sb_max_llm_turns (tr_budget (begin_decision it st)) = sb_max_llm_turns (tr_budget st)"
    and "tr_untrusted_input_ingested (begin_decision it st) = tr_untrusted_input_ingested st"
proof -
  let ?st = "begin_decision it st"
  have fields: "tr_budget ?st = start_llm_turn (tr_budget st)" "tr_requests ?st = tr_requests st @ [active_tools_of st]"
    "tr_tool_log ?st = tr_tool_log st" "tr_untrusted_input_ingested ?st = tr_untrusted_input_ingested st"
    by (simp_all add: begin_decision_def Let_def)
  have "budget_inv (start_llm_turn (tr_budget st))"
    using assms by (intro budget_intros) (simp_all add: loop_inv_def tools_inv_def)
  then show "loop_inv u ?st"
    using assms(1) active_tools_reserve [of st]
    by (auto simp: loop_inv_def tools_inv_def log_ok_def fields nth_append less_Suc_eq)
  show "sb_llm_turns (tr_budget ?st) = sb_llm_turns (tr_budget st) + 1"
    "sb_max_llm_turns (tr_budget ?st) = sb_max_llm_turns (tr_budget st)"
    "tr_untrusted_input_ingested ?st = tr_untrusted_input_ingested st"
    by (simp_all add: fields)
qed

lemma agent_iteration_stops:
  assumes "it_stop it \<or> llm_turns_exhausted (tr_budget st) \<or> \<not> it_fits it" "agent_iteration it st = (r, st')"
  shows "r \<noteq> None" "tool_step u st st'"
proof -
  have quiet: "tool_step u st (st\<lparr>tr_cancelled := True\<rparr>)" "tool_step u st (publish_completed_answer_step cs st)" for cs
    by (simp_all add: quiet_is_tool_step)
  have "r \<noteq> None \<and> tool_step u st st'"
  proof (cases "it_stop it")
    case True
    with assms(2) have "r = Some Loop_Stopped" "st' = st\<lparr>tr_cancelled := True\<rparr>" by (simp_all add: agent_iteration_def)
    with quiet show ?thesis by simp
  next
    case go: False
    show ?thesis
    proof (cases "llm_turns_exhausted (tr_budget st)")
      case True
      with go assms(2) have "r = Some Loop_Finished"
        "st' = (if it_salvaged it = [] then st else publish_completed_answer_step (it_salvaged it) st)"
        by (simp_all add: agent_iteration_def)
      with quiet show ?thesis by simp
    next
      case False
      with go assms have "r = Some (Loop_Raised Input_Limit_Error)" "st' = st" by (simp_all add: agent_iteration_def)
      then show ?thesis by simp
    qed
  qed
  then show "r \<noteq> None" "tool_step u st st'" by simp_all
qed

lemma agent_iteration_inv:
  assumes "loop_inv u st" "agent_iteration it st = (r, st')"
  shows "loop_inv u st'" and "sb_max_llm_turns (tr_budget st') = sb_max_llm_turns (tr_budget st)"
    and "r = None \<Longrightarrow> sb_llm_turns (tr_budget st') = sb_llm_turns (tr_budget st) + 1
       \<and> sb_llm_turns (tr_budget st) < sb_max_llm_turns (tr_budget st)"
    and "tr_untrusted_input_ingested st \<Longrightarrow> tr_untrusted_input_ingested st'"
proof -
  have "loop_inv u st' \<and> sb_max_llm_turns (tr_budget st') = sb_max_llm_turns (tr_budget st) \<and>
      (r = None \<longrightarrow> sb_llm_turns (tr_budget st') = sb_llm_turns (tr_budget st) + 1
         \<and> sb_llm_turns (tr_budget st) < sb_max_llm_turns (tr_budget st)) \<and>
      (tr_untrusted_input_ingested st \<longrightarrow> tr_untrusted_input_ingested st')"
  proof (cases "it_stop it \<or> llm_turns_exhausted (tr_budget st) \<or> \<not> it_fits it")
    case True
    note stop = agent_iteration_stops [OF True assms(2)]
    from loop_inv_tools [OF assms(1) stop(2)] stop(1) show ?thesis unfolding same_turn_def by blast
  next
    case False
    then have "\<not> llm_turns_exhausted (tr_budget st)" by simp
    note start = begin_decision_inv [OF assms(1) this, of it]
    have "tool_step u (begin_decision it st) st'"
      using assms(2) False by (auto simp: agent_iteration_def intro: end_decision_step)
    from loop_inv_tools [OF start(1) this] have "loop_inv u st'"
      "sb_llm_turns (tr_budget st') = sb_llm_turns (tr_budget (begin_decision it st))"
      "sb_max_llm_turns (tr_budget st') = sb_max_llm_turns (tr_budget (begin_decision it st))"
      "tr_untrusted_input_ingested (begin_decision it st) \<longrightarrow> tr_untrusted_input_ingested st'"
      by (simp_all add: same_turn_def)
    with start(2-4) False show ?thesis by (auto simp: llm_turns_exhausted_def)
  qed
  then show "loop_inv u st'" and "sb_max_llm_turns (tr_budget st') = sb_max_llm_turns (tr_budget st)"
    and "r = None \<Longrightarrow> sb_llm_turns (tr_budget st') = sb_llm_turns (tr_budget st) + 1
       \<and> sb_llm_turns (tr_budget st) < sb_max_llm_turns (tr_budget st)"
    and "tr_untrusted_input_ingested st \<Longrightarrow> tr_untrusted_input_ingested st'"
    by simp_all
qed

section \<open>The loop\<close>

lemma agent_loop_returns:
  assumes "loop_inv u st"
  shows "\<exists>e st'. agent_loop inputs st = Some (e, st') \<and> loop_inv u st' \<and>
    sb_max_llm_turns (tr_budget st') = sb_max_llm_turns (tr_budget st)"
  using assms
proof (induction "nat (sb_max_llm_turns (tr_budget st) - sb_llm_turns (tr_budget st))" arbitrary: inputs st rule: less_induct)
  case less
  obtain r st1 where it: "agent_iteration (inputs 0) st = (r, st1)" by fastforce
  note inv = agent_iteration_inv [OF less.prems it]
  show ?case
  proof (cases r)
    case None
    then have "nat (sb_max_llm_turns (tr_budget st1) - sb_llm_turns (tr_budget st1))
        < nat (sb_max_llm_turns (tr_budget st) - sb_llm_turns (tr_budget st))"
      using inv(2,3) by simp
    from less.hyps [OF this inv(1), of "\<lambda>n. inputs (Suc n)"] inv(2) it None
    show ?thesis by (simp add: agent_loop.simps [of inputs st])
  next
    case (Some e)
    with it inv show ?thesis by (simp add: agent_loop.simps [of inputs st])
  qed
qed

section \<open>Properties\<close>

text \<open>The state a turn starts with: nothing counted, asked or read yet.\<close>

definition fresh_turn :: "environ \<Rightarrow> turn_run \<Rightarrow> bool" where
  "fresh_turn env st \<longleftrightarrow> tr_budget st = budget_from_environment env \<and> tr_requests st = [] \<and> tr_tool_log st = []"

lemma fresh_loop_inv: "fresh_turn env st \<Longrightarrow> loop_inv (tr_untrusted_input_ingested st) st"
  using budget_inv_from_environment [of env]
  by (simp add: fresh_turn_def loop_inv_def tools_inv_def log_ok_def) (simp add: budget_from_environment_def)

lemma fresh_max_turns: "fresh_turn env st \<Longrightarrow> sb_max_llm_turns (tr_budget st) = get_max_llm_turns env"
  by (simp add: fresh_turn_def budget_from_environment_def)

text \<open>A turn for examples: a memo is created under a standing approval, then the web is searched, then the model answers.\<close>

definition demo_turn :: turn_run where
  "demo_turn =
     \<lparr>tr_budget = budget_from_environment (\<lambda>_. None), tr_configured_tools = [''web_search'', ''memo_create''],
      tr_toolbox = Some [\<lparr>wt_name = ''memo_create'', wt_budget = Write_Proposals, wt_allows_always = True\<rparr>],
      tr_personal_search = False, tr_shared_search = False, tr_evidence_records = 0, tr_has_web_records = False,
      tr_write_claim = (\<lambda>_ _. None), tr_chunks = [], tr_final_answer_incomplete = None, tr_continuation_count = 0,
      tr_tool_approval_parts = [], tr_approval_pending = False, tr_approval_pending_summaries = [],
      tr_untrusted_input_ingested = False, tr_suppress_next_generation_started = False,
      tr_minimal_context_required = False, tr_tool_schema_recovery_attempted = False,
      tr_empty_answer_recovery_attempted = False, tr_workspace_action_recovery_attempted = False,
      tr_tools_disabled_after_failure = False, tr_research_failure_recovery_attempted = False,
      tr_cancelled = False, tr_published = [], tr_requests = [], tr_tool_log = []\<rparr>"

definition demo_tool_input :: tool_input where
  "demo_tool_input =
     \<lparr>ti_raises = False, ti_refused = False, ti_query_empty = False, ti_payload_chars = 100, ti_new_records = 1, ti_web_records = True,
      ti_external_evidence = False, ti_unconfirmed_facts = False, ti_unread_memo = False, ti_shared_target = False,
      ti_granted = True, ti_write_limit_allows = True, ti_save_raises = False, ti_summary = []\<rparr>"

definition demo_answer :: decision_body where
  "demo_answer = \<lparr>db_visible = [''done''], db_untagged_update = False, db_output_limited = False,
      db_sentence_end = (\<lambda>_. 0), db_environ = (\<lambda>_. None), db_should_stop = False,
      db_passes = (\<lambda>_. \<lparr>pi_chunks = [], pi_raises = None, pi_stop = False\<rparr>), db_filter = (\<lambda>cs. (cs, [])),
      db_cancel_after = None\<rparr>"

definition demo_decision :: "string list \<Rightarrow> iteration" where
  "demo_decision names =
     \<lparr>it_stop = False, it_fits = True, it_cancelled = False,
      it_stream = Stream_Decided (map (\<lambda>n. (n, demo_tool_input)) names) demo_answer, it_salvaged = []\<rparr>"


lemma demo_fresh: "fresh_turn (\<lambda>_. None) demo_turn"
  by (simp add: fresh_turn_def demo_turn_def)


text \<open>
  C8: the decision loop ends.  Whatever the model answers, whichever tools it asks for, however requests
  fail and whatever is retried, the loop of a turn returns after at most the configured number of model
  decisions, which the environment cannot raise above eight; the last decision that the budget allows is
  always asked without tools; and the turn used at most ten tool calls, twelve reads and three write
  proposals.
\<close>

theorem agent_loop_ends:
  assumes "fresh_turn env st"
  shows "\<exists>e st'. agent_loop inputs st = Some (e, st') \<and>
    int (length (tr_requests st')) \<le> get_max_llm_turns env \<and> get_max_llm_turns env \<le> 8 \<and>
    (\<forall>i < length (tr_requests st'). tr_requests st' ! i \<noteq> None \<longrightarrow> int i + 1 < get_max_llm_turns env) \<and>
    sb_tool_calls (tr_budget st') \<le> 10 \<and> sb_read_calls (tr_budget st') \<le> 12 \<and>
    length (filter is_proposal (tr_tool_log st')) \<le> 3"
proof -
  obtain e st' where run: "agent_loop inputs st = Some (e, st')" and inv: "loop_inv (tr_untrusted_input_ingested st) st'"
    and m: "sb_max_llm_turns (tr_budget st') = get_max_llm_turns env"
    using agent_loop_returns [OF fresh_loop_inv [OF assms], of inputs] fresh_max_turns [OF assms] by auto
  have b: "budget_inv (tr_budget st')" and l: "int (length (filter is_proposal (tr_tool_log st'))) \<le> sb_write_proposals (tr_budget st')"
    using inv by (simp_all add: loop_inv_def tools_inv_def)
  then have "sb_llm_turns (tr_budget st') \<le> get_max_llm_turns env" "get_max_llm_turns env \<le> 8"
    "sb_tool_calls (tr_budget st') \<le> 10" "sb_read_calls (tr_budget st') \<le> 12" "length (filter is_proposal (tr_tool_log st')) \<le> 3"
    using m by (auto simp: budget_inv_def)
  with run inv m show ?thesis by (intro exI [of _ e] exI [of _ st']) (simp add: loop_inv_def)
qed

theorem agent_loop_ends_witness:
  "\<exists>e st'. agent_loop (\<lambda>_. demo_decision [''web_search'', ''unknown'']) demo_turn = Some (e, st') \<and>
     int (length (tr_requests st')) \<le> 8 \<and> sb_tool_calls (tr_budget st') \<le> 10"
  using agent_loop_ends [OF demo_fresh, of "\<lambda>_. demo_decision [''web_search'', ''unknown'']"] by force



end
