(* ===== verification/Chat_History.thy ===== *)
theory Chat_History
  imports Tables Json Prelude
    "HOL-Library.Product_Lexorder" "HOL-Library.List_Lexorder" "HOL-Library.Char_ord"
begin

text \<open>
  \<open>services/repositories/chat_repository.py\<close> with \<open>services/repositories/chat_room_access.py\<close>: chat rooms, their
  messages and their share links.  The messages of a room form a tree: an edit or a regeneration adds a
  sibling, \<open>parent_id\<close> is the link upwards, \<open>active_child_id\<close> and the room's \<open>active_root_id\<close> choose the branch
  that is shown.  The state is the three tables and the sequence of message ids; \<open>now\<close> is the database's
  clock.  A unit of work runs alone.  The encoders and decoders of display parts, files and images, which
  belong to other modules, are the argument \<open>message_codec\<close>.  Memory facts, summaries and project membership
  are left out.
\<close>

section \<open>Tables\<close>

text \<open>The columns of a message that hold its attachments; \<open>JNull\<close> and \<open>None\<close> are the empty column.\<close>

record message_data =
  md_attached_file_names :: "string option"
  md_message_parts :: json
  md_attached_file_contents :: json
  md_attached_images :: json
  md_web_search_context :: json

record message_row =
  ms_id :: int
  ms_chat_room_id :: string
  ms_message :: string
  ms_sender :: string
  ms_timestamp :: ticks
  ms_parent_id :: "int option"
  ms_active_child_id :: "int option"
  ms_data :: message_data

record room_row =
  rm_id :: string
  rm_user_id :: int
  rm_title :: "string option"
  rm_created_at :: ticks
  rm_last_activity_at :: ticks
  rm_mode :: string
  rm_active_root_id :: "int option"
  rm_pinned_at :: "ticks option"

record share_row =
  sl_chat_room_id :: string
  sl_share_token :: string
  sl_created_at :: ticks
  sl_expires_at :: "ticks option"
  sl_revoked_at :: "ticks option"

record chat_db =
  ch_rooms :: "room_row list"
  ch_history :: "message_row list"
  ch_shares :: "share_row list"
  ch_next_message_id :: int

datatype chat_error =
    Room_Not_Found
  | Room_Forbidden
  | Room_Not_Pinnable
  | Shared_Link_Not_Found
  | Token_Collisions
  | Integrity_Error

section \<open>The tree of a room\<close>

definition load_room_tree :: "string \<Rightarrow> chat_db \<Rightarrow> message_row list \<times> int option" where
  "load_room_tree chat_room_id db =
     (sort_key ms_id (select_where (\<lambda>m. ms_chat_room_id m = chat_room_id) (ch_history db)),
      Option.bind (select_one (\<lambda>r. rm_id r = chat_room_id) (ch_rooms db)) rm_active_root_id)"

definition node_of :: "message_row list \<Rightarrow> int \<Rightarrow> message_row option" where
  "node_of nodes i = select_one (\<lambda>m. ms_id m = i) nodes"

definition children_by_parent :: "message_row list \<Rightarrow> int option \<Rightarrow> int list" where
  "children_by_parent nodes parent_id = sort (map ms_id (filter (\<lambda>m. ms_parent_id m = parent_id) nodes))"

definition last_option :: "'a list \<Rightarrow> 'a option" where
  "last_option xs = (if xs = [] then None else Some (last xs))"

definition first_id :: "message_row list \<Rightarrow> int option \<Rightarrow> int option" where
  "first_id nodes active_root_id =
     (case active_root_id of
        Some r \<Rightarrow> if node_of nodes r \<noteq> None then Some r else last_option (children_by_parent nodes None)
      | None \<Rightarrow> last_option (children_by_parent nodes None))"

definition next_id :: "message_row list \<Rightarrow> message_row \<Rightarrow> int option" where
  "next_id nodes node =
     (case ms_active_child_id node of
        Some c \<Rightarrow> if node_of nodes c \<noteq> None then Some c else last_option (children_by_parent nodes (Some (ms_id node)))
      | None \<Rightarrow> last_option (children_by_parent nodes (Some (ms_id node))))"

lemma node_of_Some: "node_of nodes i = Some m \<Longrightarrow> m \<in> set nodes \<and> ms_id m = i"
  using select_one_Some by (fastforce simp: node_of_def)

text \<open>The loop of \<open>_walk_active_path\<close>.\<close>

function walk_from :: "message_row list \<Rightarrow> int list \<Rightarrow> int option \<Rightarrow> message_row list" where
  "walk_from nodes visited current =
     (case current of
        None \<Rightarrow> []
      | Some i \<Rightarrow>
          (case node_of nodes i of
             None \<Rightarrow> []
           | Some node \<Rightarrow>
               if i \<in> set visited then []
               else node # walk_from nodes (i # visited) (next_id nodes node)))"
  by pat_completeness auto

termination
proof (relation "measure (\<lambda>(nodes, visited, _). card (ms_id ` set nodes - set visited))", goal_cases)
  case (2 nodes visited current i node)
  then have "i \<in> ms_id ` set nodes - set visited" using node_of_Some by fastforce
  moreover have "ms_id ` set nodes - set (i # visited) = ms_id ` set nodes - set visited - {i}" by auto
  ultimately show ?case using card_Diff1_less [of "ms_id ` set nodes - set visited" i] by simp
qed simp

declare walk_from.simps [simp del]

definition walk_active_path :: "message_row list \<Rightarrow> int option \<Rightarrow> message_row list" where
  "walk_active_path nodes active_root_id = walk_from nodes [] (first_id nodes active_root_id)"

definition active_path :: "string \<Rightarrow> chat_db \<Rightarrow> message_row list" where
  "active_path chat_room_id db =
     (case load_room_tree chat_room_id db of (nodes, active_root_id) \<Rightarrow> walk_active_path nodes active_root_id)"

section \<open>Reading\<close>

definition get_active_leaf_id :: "string \<Rightarrow> chat_db \<Rightarrow> int option" where
  "get_active_leaf_id chat_room_id db = map_option ms_id (last_option (active_path chat_room_id db))"

text \<open>The encoders and decoders of other modules; \<open>[]\<close> stands for Python's \<open>None\<close> as well.\<close>

record message_codec =
  mc_encode_parts :: "json \<Rightarrow> string option"
  mc_decode_parts :: "json \<Rightarrow> json list"
  mc_encode_files :: "json \<Rightarrow> string option"
  mc_decode_files :: "json \<Rightarrow> json list"
  mc_encode_images :: "json list \<Rightarrow> json list"
  mc_decode_images :: "json \<Rightarrow> json list"

fun string_of_json :: "json \<Rightarrow> string option" where
  "string_of_json (JStr t) = Some t"
| "string_of_json _ = None"

definition decode_file_names :: "string option \<Rightarrow> string list" where
  "decode_file_names raw =
     (case raw of
        None \<Rightarrow> []
      | Some t \<Rightarrow>
          if t = [] then []
          else (case loads t of Some (JArr values) \<Rightarrow> List.map_filter string_of_json values | _ \<Rightarrow> []))"

text \<open>An entry as the history shows it: an empty list stands for a key that is left out.\<close>

record path_entry =
  pe_id :: int
  pe_message :: string
  pe_sender :: string
  pe_timestamp :: ticks
  pe_version_index :: int
  pe_version_count :: int
  pe_sibling_ids :: "int list"
  pe_attached_file_names :: "string list"
  pe_message_parts :: "json list"
  pe_attached_images :: "json list"
  pe_attached_file_contents :: "json list"

fun index_of :: "int \<Rightarrow> int list \<Rightarrow> int option" where
  "index_of x [] = None"
| "index_of x (y # ys) = (if x = y then Some 0 else map_option (\<lambda>i. i + 1) (index_of x ys))"

definition serialize_path_node :: "message_codec \<Rightarrow> bool \<Rightarrow> message_row list \<Rightarrow> message_row \<Rightarrow> path_entry" where
  "serialize_path_node codec include_attachment_contents nodes node =
     (let sibling_ids = children_by_parent nodes (ms_parent_id node)
      in \<lparr>pe_id = ms_id node, pe_message = ms_message node, pe_sender = ms_sender node,
          pe_timestamp = ms_timestamp node,
          pe_version_index = (case index_of (ms_id node) sibling_ids of None \<Rightarrow> 1 | Some i \<Rightarrow> i + 1),
          pe_version_count = (if sibling_ids = [] then 1 else int (length sibling_ids)),
          pe_sibling_ids = sibling_ids,
          pe_attached_file_names = decode_file_names (md_attached_file_names (ms_data node)),
          pe_message_parts = mc_decode_parts codec (md_message_parts (ms_data node)),
          pe_attached_images = mc_encode_images codec (mc_decode_images codec (md_attached_images (ms_data node))),
          pe_attached_file_contents =
            (if include_attachment_contents then mc_decode_files codec (md_attached_file_contents (ms_data node))
             else [])\<rparr>)"

definition get_active_path :: "message_codec \<Rightarrow> string \<Rightarrow> bool \<Rightarrow> chat_db \<Rightarrow> path_entry list" where
  "get_active_path codec chat_room_id include_attachment_contents db =
     map (serialize_path_node codec include_attachment_contents (fst (load_room_tree chat_room_id db)))
       (active_path chat_room_id db)"

record history_page =
  hp_messages :: "path_entry list"
  hp_limit :: int
  hp_has_more :: bool
  hp_next_before_id :: "int option"

definition fetch_chat_history_page :: "message_codec \<Rightarrow> string \<Rightarrow> int \<Rightarrow> int option \<Rightarrow> chat_db \<Rightarrow> history_page" where
  "fetch_chat_history_page codec chat_room_id limit before_message_id db =
     (let path = active_path chat_room_id db;
          path = (case before_message_id of None \<Rightarrow> path | Some b \<Rightarrow> filter (\<lambda>m. ms_id m < b) path);
          has_more = (limit < int (length path));
          page_nodes = (if 0 < limit then drop (length path - nat limit) path else []);
          messages = map (serialize_path_node codec False (fst (load_room_tree chat_room_id db))) page_nodes
      in \<lparr>hp_messages = messages, hp_limit = limit, hp_has_more = has_more,
          hp_next_before_id = (if has_more \<and> messages \<noteq> [] then Some (pe_id (hd messages)) else None)\<rparr>)"

text \<open>What the language model is given: \<open>[]\<close> stands for a key that is left out.\<close>

record llm_message =
  lm_role :: string
  lm_content :: string
  lm_message_parts :: "json list"
  lm_attached_file_contents :: "json list"
  lm_attached_images :: "json list"

definition path_to_llm_messages :: "message_codec \<Rightarrow> message_row list \<Rightarrow> llm_message list" where
  "path_to_llm_messages codec path =
     map (\<lambda>node.
       \<lparr>lm_role = (if ms_sender node = ''user'' then ''user'' else ''assistant''), lm_content = ms_message node,
        lm_message_parts = mc_decode_parts codec (md_message_parts (ms_data node)),
        lm_attached_file_contents = mc_decode_files codec (md_attached_file_contents (ms_data node)),
        lm_attached_images =
          mc_encode_images codec (mc_decode_images codec (md_attached_images (ms_data node)))\<rparr>) path"

fun is_object :: "json \<Rightarrow> bool" where
  "is_object (JObj _) = True"
| "is_object _ = False"

definition decode_web_search_context :: "json \<Rightarrow> json list" where
  "decode_web_search_context raw =
     (if \<not> json_true raw then []
      else
        (case (case raw of JStr t \<Rightarrow> loads t | _ \<Rightarrow> Some raw) of
           Some (JArr items) \<Rightarrow> filter is_object items
         | _ \<Rightarrow> []))"

definition path_to_web_search_contexts :: "message_row list \<Rightarrow> json list" where
  "path_to_web_search_contexts path =
     concat (map (\<lambda>node. decode_web_search_context (md_web_search_context (ms_data node))) path)"

definition get_room_messages_for_llm :: "message_codec \<Rightarrow> string \<Rightarrow> chat_db \<Rightarrow> llm_message list" where
  "get_room_messages_for_llm codec chat_room_id db = path_to_llm_messages codec (active_path chat_room_id db)"

definition get_active_path_web_search_contexts :: "string \<Rightarrow> chat_db \<Rightarrow> json list" where
  "get_active_path_web_search_contexts chat_room_id db = path_to_web_search_contexts (active_path chat_room_id db)"

section \<open>Rooms\<close>

definition find_room :: "string \<Rightarrow> chat_db \<Rightarrow> room_row option" where
  "find_room room_id db = select_one (\<lambda>r. rm_id r = room_id) (ch_rooms db)"

definition load_owned_room :: "string \<Rightarrow> int \<Rightarrow> chat_db \<Rightarrow> chat_error + room_row" where
  "load_owned_room room_id user_id db =
     (case find_room room_id db of
        None \<Rightarrow> Inl Room_Not_Found
      | Some room \<Rightarrow> if rm_user_id room \<noteq> user_id then Inl Room_Forbidden else Inr room)"

definition validate_room_owner :: "string \<Rightarrow> int \<Rightarrow> chat_db \<Rightarrow> chat_error + string" where
  "validate_room_owner room_id user_id db =
     (case load_owned_room room_id user_id db of
        Inl e \<Rightarrow> Inl e
      | Inr room \<Rightarrow> Inr (if rm_mode room = [] then ''normal'' else rm_mode room))"

abbreviation on_rooms :: "(room_row list \<Rightarrow> room_row list) \<Rightarrow> chat_db \<Rightarrow> chat_db" where
  "on_rooms f db \<equiv> db\<lparr>ch_rooms := f (ch_rooms db)\<rparr>"

abbreviation on_history :: "(message_row list \<Rightarrow> message_row list) \<Rightarrow> chat_db \<Rightarrow> chat_db" where
  "on_history f db \<equiv> db\<lparr>ch_history := f (ch_history db)\<rparr>"

abbreviation on_shares :: "(share_row list \<Rightarrow> share_row list) \<Rightarrow> chat_db \<Rightarrow> chat_db" where
  "on_shares f db \<equiv> db\<lparr>ch_shares := f (ch_shares db)\<rparr>"

definition create_room :: "ticks \<Rightarrow> string \<Rightarrow> int \<Rightarrow> string \<Rightarrow> string \<Rightarrow> (chat_db, chat_error, unit) work" where
  "create_room now room_id user_id title mode db =
     (if mode \<notin> {''normal'', ''temporary''} then (Inl Integrity_Error, db)
      else
        (case insert_row rm_id
                \<lparr>rm_id = room_id, rm_user_id = user_id, rm_title = Some title, rm_created_at = now,
                 rm_last_activity_at = now, rm_mode = mode, rm_active_root_id = None, rm_pinned_at = None\<rparr>
                (ch_rooms db) of
           None \<Rightarrow> (Inl Integrity_Error, db)
         | Some rooms \<Rightarrow> (Inr (), db\<lparr>ch_rooms := rooms\<rparr>)))"

definition set_room_pinned :: "ticks \<Rightarrow> string \<Rightarrow> int \<Rightarrow> bool \<Rightarrow> (chat_db, chat_error, ticks option) work" where
  "set_room_pinned now room_id user_id pinned db =
     (case load_owned_room room_id user_id db of
        Inl e \<Rightarrow> (Inl e, db)
      | Inr room \<Rightarrow>
          if rm_mode room = ''temporary'' then (Inl Room_Not_Pinnable, db)
          else if pinned = (rm_pinned_at room \<noteq> None) then (Inr (rm_pinned_at room), db)
          else
            (let pinned_at = (if pinned then Some now else None)
             in (Inr pinned_at,
                 on_rooms (update_where (\<lambda>r. rm_id r = rm_id room) (\<lambda>r. r\<lparr>rm_pinned_at := pinned_at\<rparr>)) db)))"

text \<open>\<open>DELETE\<close> on \<open>chat_rooms\<close>, which the foreign keys extend to the room's messages and share link.\<close>

definition delete_rooms :: "string list \<Rightarrow> chat_db \<Rightarrow> chat_db" where
  "delete_rooms room_ids db =
     db\<lparr>ch_rooms := delete_where (\<lambda>r. rm_id r \<in> set room_ids) (ch_rooms db),
        ch_history := delete_where (\<lambda>m. ms_chat_room_id m \<in> set room_ids) (ch_history db),
        ch_shares := delete_where (\<lambda>s. sl_chat_room_id s \<in> set room_ids) (ch_shares db)\<rparr>"

definition delete_room_for_user :: "string \<Rightarrow> int \<Rightarrow> (chat_db, chat_error, unit) work" where
  "delete_room_for_user room_id user_id db =
     (case load_owned_room room_id user_id db of
        Inl e \<Rightarrow> (Inl e, db)
      | Inr room \<Rightarrow> (Inr (), delete_rooms [rm_id room] db))"

definition delete_rooms_for_user :: "string list \<Rightarrow> int \<Rightarrow> (chat_db, chat_error, string list) work" where
  "delete_rooms_for_user room_ids user_id db =
     (let unique_room_ids = unique_keys room_ids;
          found = select_where (\<lambda>r. rm_id r \<in> set unique_room_ids) (ch_rooms db)
      in if unique_room_ids = [] then (Inr [], db)
         else if length found \<noteq> length unique_room_ids then (Inl Room_Not_Found, db)
         else if list_ex (\<lambda>r. rm_user_id r \<noteq> user_id) found then (Inl Room_Forbidden, db)
         else (Inr unique_room_ids, delete_rooms unique_room_ids db))"

definition rename_room :: "string \<Rightarrow> string \<Rightarrow> (chat_db, chat_error, unit) work" where
  "rename_room room_id new_title db =
     (Inr (), on_rooms (update_where (\<lambda>r. rm_id r = room_id) (\<lambda>r. r\<lparr>rm_title := Some new_title\<rparr>)) db)"

definition rename_room_if_current_title_in ::
  "string \<Rightarrow> string \<Rightarrow> string list \<Rightarrow> (chat_db, chat_error, bool) work" where
  "rename_room_if_current_title_in room_id new_title allowed_current_titles db =
     (let titles = filter (\<lambda>t. t \<noteq> []) (unique_keys allowed_current_titles);
          hit = (\<lambda>r. rm_id r = room_id \<and> (case rm_title r of None \<Rightarrow> False | Some t \<Rightarrow> t \<in> set titles))
      in if titles = [] then (Inr False, db)
         else (Inr (0 < row_count hit (ch_rooms db)),
               on_rooms (update_where hit (\<lambda>r. r\<lparr>rm_title := Some new_title\<rparr>)) db))"

text \<open>
  The sidebar's lists, with \<open>ORDER BY t DESC, id DESC\<close>.  \<open>None\<close> as \<open>rp_title\<close> is the default title of a room
  that has none.
\<close>

record room_payload =
  rp_id :: string
  rp_title :: "string option"
  rp_mode :: string
  rp_created_at :: ticks
  rp_last_activity_at :: ticks
  rp_pinned_at :: "ticks option"

definition serialize_room :: "room_row \<Rightarrow> room_payload" where
  "serialize_room room =
     \<lparr>rp_id = rm_id room,
      rp_title = (case rm_title room of None \<Rightarrow> None | Some t \<Rightarrow> if t = [] then None else Some t),
      rp_mode = (if rm_mode room = [] then ''normal'' else rm_mode room),
      rp_created_at = rm_created_at room, rp_last_activity_at = rm_last_activity_at room,
      rp_pinned_at = rm_pinned_at room\<rparr>"

definition listed_rooms :: "int \<Rightarrow> (ticks \<times> string) option \<Rightarrow> chat_db \<Rightarrow> room_row list" where
  "listed_rooms user_id cursor db =
     rev (sort_key (\<lambda>r. (rm_last_activity_at r, rm_id r))
       (select_where
         (\<lambda>r. rm_user_id r = user_id \<and> rm_mode r \<noteq> ''temporary'' \<and> rm_pinned_at r = None \<and>
            (case cursor of
               None \<Rightarrow> True
             | Some (activity, room_id) \<Rightarrow>
                 rm_last_activity_at r < activity \<or> rm_last_activity_at r = activity \<and> rm_id r < room_id))
         (ch_rooms db)))"

definition list_user_rooms ::
  "int \<Rightarrow> nat option \<Rightarrow> (ticks \<times> string) option \<Rightarrow> chat_db \<Rightarrow> room_payload list" where
  "list_user_rooms user_id limit cursor db =
     (let rooms = listed_rooms user_id cursor db
      in map serialize_room (case limit of None \<Rightarrow> rooms | Some n \<Rightarrow> take n rooms))"

definition list_pinned_user_rooms :: "int \<Rightarrow> chat_db \<Rightarrow> room_payload list" where
  "list_pinned_user_rooms user_id db =
     map serialize_room
       (rev (sort_key (\<lambda>r. (case rm_pinned_at r of None \<Rightarrow> 0 | Some t \<Rightarrow> t, rm_id r))
         (select_where (\<lambda>r. rm_user_id r = user_id \<and> rm_mode r \<noteq> ''temporary'' \<and> rm_pinned_at r \<noteq> None)
           (ch_rooms db))))"

section \<open>Messages\<close>

text \<open>The arguments of a new message; \<open>[]\<close> and \<open>JNull\<close> stand for \<open>None\<close>.\<close>

record message_input =
  mi_attached_file_names :: "string list"
  mi_message_parts :: json
  mi_attached_file_contents :: json
  mi_web_search_context :: "json list"
  mi_attached_images :: json

definition jsonb_value :: "string option \<Rightarrow> json" where
  "jsonb_value encoded =
     (case encoded of
        None \<Rightarrow> JNull
      | Some t \<Rightarrow> (case loads t of Some v \<Rightarrow> v | None \<Rightarrow> JStr t))"

definition encode_message_data :: "message_codec \<Rightarrow> message_input \<Rightarrow> message_data" where
  "encode_message_data codec inp =
     \<lparr>md_attached_file_names =
        (if mi_attached_file_names inp \<noteq> [] then Some (dumps (JArr (map JStr (mi_attached_file_names inp)))) else None),
      md_message_parts = jsonb_value (mc_encode_parts codec (mi_message_parts inp)),
      md_attached_file_contents = jsonb_value (mc_encode_files codec (mi_attached_file_contents inp)),
      md_attached_images =
        (let images = mc_encode_images codec (mc_decode_images codec (mi_attached_images inp))
         in if images = [] then JNull else JArr images),
      md_web_search_context =
        jsonb_value (if mi_web_search_context inp \<noteq> [] then Some (dumps (JArr (mi_web_search_context inp))) else None)\<rparr>"

definition insert_message ::
  "message_codec \<Rightarrow> ticks \<Rightarrow> string \<Rightarrow> string \<Rightarrow> string \<Rightarrow> int option \<Rightarrow> message_input \<Rightarrow>
   (chat_db, chat_error, message_row) work" where
  "insert_message codec now chat_room_id message sender parent_id inp db =
     (let anchor =
            (case parent_id of
               None \<Rightarrow> find_room chat_room_id db \<noteq> None
             | Some p \<Rightarrow>
                 select_one (\<lambda>m. ms_id m = p \<and> ms_chat_room_id m = chat_room_id) (ch_history db) \<noteq> None);
          record =
            \<lparr>ms_id = ch_next_message_id db, ms_chat_room_id = chat_room_id, ms_message = message, ms_sender = sender,
             ms_timestamp = now, ms_parent_id = parent_id, ms_active_child_id = None,
             ms_data = encode_message_data codec inp\<rparr>;
          stored = db\<lparr>ch_history := ch_history db @ [record], ch_next_message_id := ch_next_message_id db + 1\<rparr>
      in if \<not> anchor then (Inl Room_Not_Found, db)
         else if sender \<notin> {''user'', ''assistant''} then (Inl Integrity_Error, db)
         else
           (Inr record,
            case parent_id of
              None \<Rightarrow>
                on_rooms (update_where (\<lambda>r. rm_id r = chat_room_id)
                  (\<lambda>r. r\<lparr>rm_last_activity_at := now, rm_active_root_id := Some (ms_id record)\<rparr>)) stored
            | Some p \<Rightarrow>
                on_rooms (update_where (\<lambda>r. rm_id r = chat_room_id) (\<lambda>r. r\<lparr>rm_last_activity_at := now\<rparr>))
                  (on_history (update_where (\<lambda>m. ms_id m = p \<and> ms_chat_room_id m = chat_room_id)
                     (\<lambda>m. m\<lparr>ms_active_child_id := Some (ms_id record)\<rparr>)) stored)))"

definition save_message ::
  "message_codec \<Rightarrow> ticks \<Rightarrow> string \<Rightarrow> string \<Rightarrow> string \<Rightarrow> int option \<Rightarrow> message_input \<Rightarrow> (chat_db, chat_error, int) work" where
  "save_message codec now chat_room_id message sender parent_id inp db =
     (case insert_message codec now chat_room_id message sender parent_id inp db of
        (Inl e, db) \<Rightarrow> (Inl e, db)
      | (Inr record, db) \<Rightarrow> (Inr (ms_id record), db))"

record turn_context =
  tc_message_id :: int
  tc_parent_message_id :: "int option"
  tc_is_first_turn :: bool
  tc_messages :: "llm_message list"
  tc_web_search_contexts :: "json list"

definition store_user_message_and_load_turn_context ::
  "message_codec \<Rightarrow> ticks \<Rightarrow> string \<Rightarrow> string \<Rightarrow> string \<Rightarrow> message_input \<Rightarrow> (chat_db, chat_error, turn_context) work" where
  "store_user_message_and_load_turn_context codec now chat_room_id message sender inp db =
     (let path = active_path chat_room_id db;
          parent_id = map_option ms_id (last_option path)
      in case insert_message codec now chat_room_id message sender parent_id
                (inp\<lparr>mi_web_search_context := []\<rparr>) db of
           (Inl e, db) \<Rightarrow> (Inl e, db)
         | (Inr record, db) \<Rightarrow>
             (Inr \<lparr>tc_message_id = ms_id record, tc_parent_message_id = parent_id,
                   tc_is_first_turn = (parent_id = None),
                   tc_messages = path_to_llm_messages codec (path @ [record]),
                   tc_web_search_contexts = path_to_web_search_contexts (path @ [record])\<rparr>, db))"

text \<open>
  The entries of a shared conversation that is copied into a new room, as its payload has them: a text or
  \<open>None\<close>, a sender and display parts.  An entry that is no object (\<open>None\<close> in the list) is skipped, and
  \<open>parent_id\<close> chains the others.
\<close>

record copied_message =
  cm_message :: "string option"
  cm_sender :: "string option"
  cm_message_parts :: json

fun is_array :: "json \<Rightarrow> bool" where
  "is_array (JArr _) = True"
| "is_array _ = False"

definition copied_input :: "copied_message \<Rightarrow> message_input" where
  "copied_input m =
     \<lparr>mi_attached_file_names = [],
      mi_message_parts = (if is_array (cm_message_parts m) then cm_message_parts m else JNull),
      mi_attached_file_contents = JNull, mi_web_search_context = [], mi_attached_images = JNull\<rparr>"

fun copy_from ::
  "message_codec \<Rightarrow> ticks \<Rightarrow> string \<Rightarrow> int option \<Rightarrow> int \<Rightarrow> copied_message option list \<Rightarrow>
   (chat_db, chat_error, int) work" where
  "copy_from codec now chat_room_id parent_id copied [] db = (Inr copied, db)"
| "copy_from codec now chat_room_id parent_id copied (None # messages) db =
     copy_from codec now chat_room_id parent_id copied messages db"
| "copy_from codec now chat_room_id parent_id copied (Some m # messages) db =
     (case save_message codec now chat_room_id (case cm_message m of None \<Rightarrow> [] | Some t \<Rightarrow> t)
             (if cm_sender m = Some ''user'' then ''user'' else ''assistant'') parent_id (copied_input m) db of
        (Inl e, db) \<Rightarrow> (Inl e, db)
      | (Inr new_id, db) \<Rightarrow> copy_from codec now chat_room_id (Some new_id) (copied + 1) messages db)"

definition copy_messages_into_room ::
  "message_codec \<Rightarrow> ticks \<Rightarrow> string \<Rightarrow> copied_message option list \<Rightarrow> (chat_db, chat_error, int) work" where
  "copy_messages_into_room codec now chat_room_id messages = copy_from codec now chat_room_id None 0 messages"

definition switch_branch :: "message_codec \<Rightarrow> string \<Rightarrow> int \<Rightarrow> (chat_db, chat_error, path_entry list) work" where
  "switch_branch codec chat_room_id target_id db =
     (case select_one (\<lambda>m. ms_id m = target_id \<and> ms_chat_room_id m = chat_room_id) (ch_history db) of
        None \<Rightarrow> (Inl Room_Not_Found, db)
      | Some target \<Rightarrow>
          (let db' =
                 (case ms_parent_id target of
                    None \<Rightarrow>
                      on_rooms (update_where (\<lambda>r. rm_id r = chat_room_id)
                        (\<lambda>r. r\<lparr>rm_active_root_id := Some target_id\<rparr>)) db
                  | Some p \<Rightarrow>
                      on_history (update_where (\<lambda>m. ms_id m = p \<and> ms_chat_room_id m = chat_room_id)
                        (\<lambda>m. m\<lparr>ms_active_child_id := Some target_id\<rparr>)) db)
           in (Inr (get_active_path codec chat_room_id False db'), db')))"

text \<open>\<open>_trailing_unanswered_user_ids\<close>: the loop over the reversed path collects the ids to remove.\<close>

fun unanswered_from :: "message_row list \<Rightarrow> int list \<Rightarrow> message_row list \<Rightarrow> int list" where
  "unanswered_from nodes removable [] = removable"
| "unanswered_from nodes removable (node # rest) =
     (if ms_sender node \<noteq> ''user'' then removable
      else if list_ex (\<lambda>c. c \<notin> set removable) (children_by_parent nodes (Some (ms_id node))) then removable
      else unanswered_from nodes (ms_id node # removable) rest)"

definition trailing_unanswered_user_ids :: "message_row list \<Rightarrow> message_row list \<Rightarrow> int list" where
  "trailing_unanswered_user_ids nodes path =
     (let removable = unanswered_from nodes [] (rev path)
      in filter (\<lambda>i. i \<in> set removable) (map ms_id path))"

text \<open>
  \<open>DELETE\<close> on \<open>chat_history\<close>: the foreign key of \<open>parent_id\<close> extends it to every descendant; as many rounds as
  there are messages reach them all.
\<close>

fun with_descendants :: "nat \<Rightarrow> message_row list \<Rightarrow> int list \<Rightarrow> int list" where
  "with_descendants 0 rows ids = ids"
| "with_descendants (Suc n) rows ids =
     with_descendants n rows
       (ids @ map ms_id (filter (\<lambda>m. \<exists>p \<in> set ids. ms_parent_id m = Some p) rows))"

definition delete_messages :: "int list \<Rightarrow> message_row list \<Rightarrow> message_row list" where
  "delete_messages ids rows = delete_where (\<lambda>m. ms_id m \<in> set (with_descendants (length rows) rows ids)) rows"

definition delete_unanswered_user_messages :: "string \<Rightarrow> int \<Rightarrow> (chat_db, chat_error, bool) work" where
  "delete_unanswered_user_messages room_id user_id db =
     (case load_owned_room room_id user_id db of
        Inl _ \<Rightarrow> (Inr False, db)
      | Inr room \<Rightarrow>
          (let nodes = fst (load_room_tree room_id db);
               removable_ids = trailing_unanswered_user_ids nodes (active_path room_id db)
           in case removable_ids of
                [] \<Rightarrow> (Inr False, db)
              | first # _ \<Rightarrow>
                  (let gone = (\<lambda>m. ms_chat_room_id m = room_id \<and> ms_id m \<in> set removable_ids);
                       db' =
                         (case Option.bind (node_of nodes first) ms_parent_id of
                            None \<Rightarrow>
                              on_rooms (update_where (\<lambda>r. rm_id r = room_id) (\<lambda>r. r\<lparr>rm_active_root_id := None\<rparr>)) db
                          | Some p \<Rightarrow>
                              on_history (update_where (\<lambda>m. ms_id m = p \<and> ms_chat_room_id m = room_id)
                                (\<lambda>m. m\<lparr>ms_active_child_id := None\<rparr>)) db)
                   in (Inr (0 < row_count gone (ch_history db')),
                       on_history (delete_messages (map ms_id (filter gone (ch_history db')))) db'))))"

section \<open>Share links\<close>

definition load_share_row :: "string \<Rightarrow> chat_db \<Rightarrow> share_row option" where
  "load_share_row room_id db = select_one (\<lambda>s. sl_chat_room_id s = room_id) (ch_shares db)"

definition is_active_share :: "ticks \<Rightarrow> share_row \<Rightarrow> bool" where
  "is_active_share now row \<longleftrightarrow>
     sl_share_token row \<noteq> [] \<and> sl_revoked_at row = None \<and>
     (case sl_expires_at row of None \<Rightarrow> True | Some e \<Rightarrow> now < e)"

text \<open>\<open>INSERT ... ON CONFLICT (chat_room_id) DO UPDATE\<close>; \<open>None\<close> is a violation of the token's uniqueness.\<close>

definition upsert_share :: "share_row \<Rightarrow> share_row list \<Rightarrow> share_row list option" where
  "upsert_share row shares =
     (if list_ex (\<lambda>s. sl_share_token s = sl_share_token row \<and> sl_chat_room_id s \<noteq> sl_chat_room_id row) shares then None
      else if list_ex (\<lambda>s. sl_chat_room_id s = sl_chat_room_id row) shares
      then Some (update_where (\<lambda>s. sl_chat_room_id s = sl_chat_room_id row) (\<lambda>_. row) shares)
      else Some (shares @ [row]))"

fun mint_share_token ::
  "ticks \<Rightarrow> string \<Rightarrow> int \<Rightarrow> ticks option \<Rightarrow> string list \<Rightarrow> (chat_db, chat_error, share_row) work" where
  "mint_share_token now room_id user_id expires_at [] db = (Inl Token_Collisions, db)"
| "mint_share_token now room_id user_id expires_at (token # tokens) db =
     (let row = \<lparr>sl_chat_room_id = room_id, sl_share_token = token, sl_created_at = now, sl_expires_at = expires_at,
                 sl_revoked_at = None\<rparr>
      in case upsert_share row (ch_shares db) of
           Some shares \<Rightarrow> (Inr row, db\<lparr>ch_shares := shares\<rparr>)
         | None \<Rightarrow>
             (case load_owned_room room_id user_id db of
                Inl e \<Rightarrow> (Inl e, db)
              | Inr _ \<Rightarrow> mint_share_token now room_id user_id expires_at tokens db))"

abbreviation (input) SHARED_TOKEN_MAX_COLLISION_RETRIES :: nat where
  "SHARED_TOKEN_MAX_COLLISION_RETRIES \<equiv> 5"

text \<open>\<open>tokens\<close> are the tokens the generator draws; the answer says whether the link was there before.\<close>

definition create_or_get_shared_chat_token ::
  "ticks \<Rightarrow> string \<Rightarrow> int \<Rightarrow> ticks option \<Rightarrow> bool \<Rightarrow> (nat \<Rightarrow> string) \<Rightarrow> (chat_db, chat_error, share_row \<times> bool) work" where
  "create_or_get_shared_chat_token now room_id user_id expires_at force_refresh tokens db =
     (case load_owned_room room_id user_id db of
        Inl e \<Rightarrow> (Inl e, db)
      | Inr room \<Rightarrow>
          (case (if force_refresh then None else load_share_row room_id db) of
             Some existing \<Rightarrow>
               if is_active_share now existing then (Inr (existing, True), db)
               else
                 (case mint_share_token now room_id user_id expires_at
                         (map tokens [0..<SHARED_TOKEN_MAX_COLLISION_RETRIES]) db of
                    (Inl e, db) \<Rightarrow> (Inl e, db)
                  | (Inr row, db) \<Rightarrow> (Inr (row, False), db))
           | None \<Rightarrow>
               (case mint_share_token now room_id user_id expires_at
                       (map tokens [0..<SHARED_TOKEN_MAX_COLLISION_RETRIES]) db of
                  (Inl e, db) \<Rightarrow> (Inl e, db)
                | (Inr row, db) \<Rightarrow> (Inr (row, False), db))))"

definition revoke_shared_chat_token :: "ticks \<Rightarrow> string \<Rightarrow> int \<Rightarrow> (chat_db, chat_error, share_row option) work" where
  "revoke_shared_chat_token now room_id user_id db =
     (case load_owned_room room_id user_id db of
        Inl e \<Rightarrow> (Inl e, db)
      | Inr room \<Rightarrow>
          (let db' = on_shares (update_where (\<lambda>s. sl_chat_room_id s = room_id \<and> sl_revoked_at s = None)
                       (\<lambda>s. s\<lparr>sl_revoked_at := Some now\<rparr>)) db
           in (Inr (load_share_row room_id db'), db')))"

record shared_room =
  sr_room_id :: string
  sr_title :: "string option"
  sr_created_at :: ticks
  sr_messages :: "(string \<times> string \<times> ticks \<times> json list) list"

definition get_shared_chat_room_payload ::
  "message_codec \<Rightarrow> ticks \<Rightarrow> string \<Rightarrow> chat_db \<Rightarrow> chat_error + shared_room" where
  "get_shared_chat_room_payload codec now token db =
     (case select_one (\<lambda>s. sl_share_token s = token \<and> sl_revoked_at s = None \<and>
                 (case sl_expires_at s of None \<Rightarrow> True | Some e \<Rightarrow> now < e) \<and>
                 find_room (sl_chat_room_id s) db \<noteq> None) (ch_shares db) of
        None \<Rightarrow> Inl Shared_Link_Not_Found
      | Some share \<Rightarrow>
          (case find_room (sl_chat_room_id share) db of
             None \<Rightarrow> Inl Shared_Link_Not_Found
           | Some room \<Rightarrow>
               Inr \<lparr>sr_room_id = rm_id room, sr_title = rm_title room, sr_created_at = rm_created_at room,
                    sr_messages = map (\<lambda>m. (ms_message m, ms_sender m, ms_timestamp m,
                                            mc_decode_parts codec (md_message_parts (ms_data m))))
                                    (active_path (rm_id room) db)\<rparr>))"

end
