(* ===== verification/Chat_Tree.thy ===== *)
theory Chat_Tree
  imports Chat_History
begin

text \<open>
  The walk along the active branch of a room.  \<open>tree_ok\<close> is what the messages of a room satisfy: ids are
  unique, a reply is younger than what it answers, and a chosen child that exists is a child.  On such a
  tree the loop of \<open>_walk_active_path\<close> follows the chosen children from a root to a leaf, its test for
  visited messages never fires, and its result is characterised by \<open>walk_unique\<close>.
\<close>

section \<open>Trees of messages\<close>

definition tree_ok :: "message_row list \<Rightarrow> bool" where
  "tree_ok nodes \<longleftrightarrow> distinct (map ms_id nodes) \<and>
     (\<forall>m \<in> set nodes. \<forall>p. ms_parent_id m = Some p \<longrightarrow> p < ms_id m) \<and>
     (\<forall>m \<in> set nodes. \<forall>q \<in> set nodes. ms_active_child_id m = Some (ms_id q) \<longrightarrow> ms_parent_id q = Some (ms_id m))"

lemma tree_ok_distinct: "tree_ok nodes \<Longrightarrow> distinct (map ms_id nodes)"
  by (simp add: tree_ok_def)

lemma tree_ok_younger: "tree_ok nodes \<Longrightarrow> m \<in> set nodes \<Longrightarrow> ms_parent_id m = Some p \<Longrightarrow> p < ms_id m"
  by (simp add: tree_ok_def)

lemma tree_ok_child:
  "tree_ok nodes \<Longrightarrow> m \<in> set nodes \<Longrightarrow> q \<in> set nodes \<Longrightarrow> ms_active_child_id m = Some (ms_id q) \<Longrightarrow>
   ms_parent_id q = Some (ms_id m)"
  by (simp add: tree_ok_def)

lemma node_of_member: "distinct (map ms_id nodes) \<Longrightarrow> m \<in> set nodes \<Longrightarrow> node_of nodes (ms_id m) = Some m"
  using row_of_member [of ms_id nodes m] by (simp add: node_of_def row_of_def select_one_def)

lemma node_of_None: "node_of nodes i = None \<longleftrightarrow> i \<notin> ms_id ` set nodes"
  by (auto simp: node_of_def select_one_None)

lemma last_option_Some: "last_option xs = Some x \<longleftrightarrow> xs \<noteq> [] \<and> last xs = x"
  by (simp add: last_option_def)

lemma last_option_None [simp]: "last_option xs = None \<longleftrightarrow> xs = []"
  by (simp add: last_option_def)

lemma set_children: "set (children_by_parent nodes p) = ms_id ` {m \<in> set nodes. ms_parent_id m = p}"
  by (auto simp: children_by_parent_def)

lemma last_child:
  assumes "last_option (children_by_parent nodes p) = Some c"
  shows "\<exists>q \<in> set nodes. ms_id q = c \<and> ms_parent_id q = p"
proof -
  have "c \<in> set (children_by_parent nodes p)"
    using assms last_in_set [of "children_by_parent nodes p"] by (auto simp: last_option_Some)
  then show ?thesis by (auto simp: set_children)
qed

lemma next_id_child:
  assumes "tree_ok nodes" "m \<in> set nodes" "next_id nodes m = Some c"
  shows "\<exists>q \<in> set nodes. ms_id q = c \<and> ms_parent_id q = Some (ms_id m)"
proof (cases "ms_active_child_id m")
  case None
  with assms(3) last_child show ?thesis by (auto simp: next_id_def)
next
  case (Some d)
  show ?thesis
  proof (cases "node_of nodes d")
    case None
    with Some assms(3) last_child show ?thesis by (auto simp: next_id_def)
  next
    case (Some q)
    with \<open>ms_active_child_id m = Some d\<close> assms(3) have "d = c" by (simp add: next_id_def)
    moreover have "q \<in> set nodes" "ms_id q = d" using node_of_Some [OF Some] by auto
    ultimately show ?thesis
      using tree_ok_child [OF assms(1,2), of q] \<open>ms_active_child_id m = Some d\<close> by auto
  qed
qed

lemma next_id_None: "next_id nodes m = None \<longleftrightarrow>
    (case ms_active_child_id m of None \<Rightarrow> True | Some c \<Rightarrow> node_of nodes c = None) \<and>
    children_by_parent nodes (Some (ms_id m)) = []"
  by (auto simp: next_id_def split: option.splits)

section \<open>The walk\<close>

text \<open>A branch: each message answers the one before it, and is the one that \<open>next_id\<close> chooses.\<close>

definition chosen :: "message_row list \<Rightarrow> message_row list \<Rightarrow> bool" where
  "chosen nodes path \<longleftrightarrow> set path \<subseteq> set nodes \<and>
     successively (\<lambda>a b. next_id nodes a = Some (ms_id b)) path \<and>
     (path \<noteq> [] \<longrightarrow> next_id nodes (last path) = None)"

lemma chosen_Nil [simp]: "chosen nodes []"
  by (simp add: chosen_def)

lemma chosen_Cons:
  "chosen nodes (m # path) \<longleftrightarrow> m \<in> set nodes \<and> chosen nodes path \<and>
     next_id nodes m = (case path of [] \<Rightarrow> None | q # _ \<Rightarrow> Some (ms_id q))"
  by (auto simp: chosen_def successively_Cons split: list.splits)

lemma chosen_answers:
  assumes "tree_ok nodes" "chosen nodes path"
  shows "successively (\<lambda>a b. ms_parent_id b = Some (ms_id a)) path"
  using assms(2)
proof (induction path)
  case (Cons m path)
  then show ?case
  proof (cases path)
    case (Cons q rest)
    then have q: "q \<in> set nodes" and m: "m \<in> set nodes" and nxt: "next_id nodes m = Some (ms_id q)"
      using Cons.prems by (auto simp: chosen_Cons)
    obtain q' where "q' \<in> set nodes" "ms_id q' = ms_id q" "ms_parent_id q' = Some (ms_id m)"
      using next_id_child [OF assms(1) m nxt] by auto
    then have "ms_parent_id q = Some (ms_id m)"
      using same_key_row [OF tree_ok_distinct [OF assms(1)] _ q] by auto
    with Cons Cons.IH Cons.prems show ?thesis by (simp add: chosen_Cons)
  qed simp
qed simp

lemma answers_increasing:
  assumes "tree_ok nodes" "set path \<subseteq> set nodes" "successively (\<lambda>a b. ms_parent_id b = Some (ms_id a)) path"
  shows "sorted_wrt (<) (map ms_id path)"
proof -
  have "successively (\<lambda>a b. ms_id a < ms_id b) path"
    by (rule successively_mono [OF assms(3)]) (use assms tree_ok_younger in auto)
  then have "sorted_wrt (\<lambda>a b. ms_id a < ms_id b) path"
    by (subst (asm) successively_conv_sorted_wrt) (auto intro!: transpI)
  then show ?thesis by (simp add: sorted_wrt_map)
qed

lemma walk_from_chosen:
  assumes "tree_ok nodes" "node_of nodes i = Some m" "\<forall>v \<in> set visited. v < i"
  shows "\<exists>rest. walk_from nodes visited (Some i) = m # rest \<and> chosen nodes (m # rest)"
  using assms(2,3)
proof (induction "card (ms_id ` set nodes - set visited)" arbitrary: i m visited rule: less_induct)
  case less
  have m: "m \<in> set nodes" "ms_id m = i" using node_of_Some [OF less.prems(1)] by auto
  have step: "walk_from nodes visited (Some i) = m # walk_from nodes (i # visited) (next_id nodes m)"
    using less.prems by (subst walk_from.simps) auto
  show ?case
  proof (cases "next_id nodes m")
    case None
    then show ?thesis using m step by (simp add: chosen_Cons walk_from.simps)
  next
    case (Some c)
    then obtain q where q: "q \<in> set nodes" "ms_id q = c" "ms_parent_id q = Some i"
      using next_id_child [OF assms(1) m(1)] m(2) by auto
    have nq: "node_of nodes c = Some q" using node_of_member [OF tree_ok_distinct [OF assms(1)] q(1)] q(2) by simp
    have "i < c" using tree_ok_younger [OF assms(1) q(1,3)] q(2) by simp
    moreover have "ms_id ` set nodes - set (i # visited) = ms_id ` set nodes - set visited - {i}" by auto
    then have "card (ms_id ` set nodes - set (i # visited)) < card (ms_id ` set nodes - set visited)"
      using card_Diff1_less [of "ms_id ` set nodes - set visited" i] m less.prems(2) by auto
    ultimately obtain rest where "walk_from nodes (i # visited) (Some c) = q # rest" "chosen nodes (q # rest)"
      using less.hyps [of "i # visited" c q] nq less.prems(2) by fastforce
    then show ?thesis using step Some m q by (simp add: chosen_Cons)
  qed
qed

lemma chosen_unique:
  assumes "distinct (map ms_id nodes)" "chosen nodes (m # path)" "chosen nodes (m # path')"
  shows "path = path'"
  using assms(2,3)
proof (induction path arbitrary: m path')
  case Nil
  then show ?case by (cases path') (auto simp: chosen_Cons)
next
  case (Cons q path)
  then obtain q' rest where path': "path' = q' # rest" "ms_id q = ms_id q'"
    by (cases path') (auto simp: chosen_Cons)
  then have "q = q'" using Cons.prems same_key_row [OF assms(1)] by (auto simp: chosen_Cons)
  with Cons path' show ?case by (auto simp: chosen_Cons)
qed

lemma first_id_None: "first_id nodes r = None \<longleftrightarrow>
    (case r of None \<Rightarrow> True | Some i \<Rightarrow> node_of nodes i = None) \<and> children_by_parent nodes None = []"
  by (auto simp: first_id_def split: option.splits)

lemma first_id_node:
  assumes "first_id nodes r = Some i"
  shows "\<exists>m \<in> set nodes. ms_id m = i"
  using assms last_child [of nodes None] node_of_None [of nodes]
  by (auto simp: first_id_def split: option.splits if_splits)

lemma walk_active_path_cases:
  assumes "tree_ok nodes"
  obtains (empty) "first_id nodes r = None" "walk_active_path nodes r = []"
  | (branch) m rest where "first_id nodes r = Some (ms_id m)" "walk_active_path nodes r = m # rest"
      "chosen nodes (m # rest)"
proof (cases "first_id nodes r")
  case None
  then show ?thesis using empty by (simp add: walk_active_path_def walk_from.simps)
next
  case (Some i)
  then obtain m where m: "m \<in> set nodes" "ms_id m = i" using first_id_node by blast
  then have "node_of nodes i = Some m" using node_of_member [OF tree_ok_distinct [OF assms]] by auto
  from walk_from_chosen [OF assms this, of "[]"] obtain rest where
    "walk_from nodes [] (Some i) = m # rest" "chosen nodes (m # rest)" by auto
  then show ?thesis using branch [of m rest] Some m by (simp add: walk_active_path_def)
qed

lemma walk_unique:
  assumes "tree_ok nodes" "first_id nodes r = Some (ms_id m)" "chosen nodes (m # path)"
  shows "walk_active_path nodes r = m # path"
proof (rule walk_active_path_cases [OF assms(1), of r])
  fix q rest
  assume q: "first_id nodes r = Some (ms_id q)" "walk_active_path nodes r = q # rest" "chosen nodes (q # rest)"
  then have "q = m"
    using assms same_key_row [OF tree_ok_distinct [OF assms(1)], of q m] by (auto simp: chosen_Cons)
  with q chosen_unique [OF tree_ok_distinct [OF assms(1)] q(3)] assms(3) show ?thesis by auto
qed (use assms in auto)

lemma walk_chosen: "tree_ok nodes \<Longrightarrow> chosen nodes (walk_active_path nodes r)"
  by (rule walk_active_path_cases [of nodes r]) auto

lemma walk_first:
  "tree_ok nodes \<Longrightarrow> walk_active_path nodes r = m # rest \<Longrightarrow> first_id nodes r = Some (ms_id m)"
  by (rule walk_active_path_cases [of nodes r]) auto

lemma walk_sound:
  assumes "tree_ok nodes"
  shows "set (walk_active_path nodes r) \<subseteq> set nodes \<and>
         successively (\<lambda>a b. ms_parent_id b = Some (ms_id a)) (walk_active_path nodes r) \<and>
         sorted_wrt (<) (map ms_id (walk_active_path nodes r)) \<and>
         (walk_active_path nodes r \<noteq> [] \<longrightarrow>
            children_by_parent nodes (Some (ms_id (last (walk_active_path nodes r)))) = [])"
proof -
  note path = walk_chosen [OF assms, of r]
  have "set (walk_active_path nodes r) \<subseteq> set nodes" using path by (simp add: chosen_def)
  then show ?thesis
    using chosen_answers [OF assms path] answers_increasing [OF assms] path
    by (auto simp: chosen_def next_id_None)
qed

lemma walk_Nil: "tree_ok nodes \<Longrightarrow> walk_active_path nodes r = [] \<longleftrightarrow> first_id nodes r = None"
  by (rule walk_active_path_cases [of nodes r]) auto

section \<open>Trees that differ in what is chosen\<close>

lemma children_set:
  assumes "distinct (map ms_id nodes)"
  shows "children_by_parent nodes p = sorted_list_of_set (ms_id ` {m \<in> set nodes. ms_parent_id m = p})"
proof -
  let ?xs = "map ms_id (filter (\<lambda>m. ms_parent_id m = p) nodes)"
  have "distinct ?xs" using assms by (simp add: distinct_map_filter)
  moreover have "set ?xs = ms_id ` {m \<in> set nodes. ms_parent_id m = p}" by auto
  ultimately show ?thesis
    unfolding children_by_parent_def by (metis distinct_remdups_id sorted_list_of_set_sort_remdups)
qed

lemma next_id_updated:
  assumes "distinct (map ms_id nodes)" "distinct (map ms_id nodes')" "set nodes' = f ` set nodes"
    and "\<And>m. ms_id (f m) = ms_id m" "\<And>m. ms_parent_id (f m) = ms_parent_id m"
  shows "children_by_parent nodes' p = children_by_parent nodes p"
    and "node_of nodes' i = None \<longleftrightarrow> node_of nodes i = None"
    and "ms_active_child_id (f m) = ms_active_child_id m \<Longrightarrow> next_id nodes' (f m) = next_id nodes m"
proof -
  have "{m \<in> f ` set nodes. ms_parent_id m = p} = f ` {m \<in> set nodes. ms_parent_id m = p}" for p
    using assms(5) by auto
  then have "ms_id ` {m \<in> f ` set nodes. ms_parent_id m = p} = ms_id ` {m \<in> set nodes. ms_parent_id m = p}" for p
    using assms(4) by (simp add: image_image)
  then show children: "children_by_parent nodes' p = children_by_parent nodes p" for p
    by (simp add: children_set assms(1-3))
  show nodes: "node_of nodes' i = None \<longleftrightarrow> node_of nodes i = None" for i
    using assms(4) by (auto simp: node_of_None assms(3) image_image)
  show "ms_active_child_id (f m) = ms_active_child_id m \<Longrightarrow> next_id nodes' (f m) = next_id nodes m"
    by (simp add: next_id_def children nodes assms(4) split: option.splits)
qed

end
