(* ===== verification/Chat_Safety.thy ===== *)
theory Chat_Safety
  imports Chat_Tree
begin

text \<open>
  What the chat repository promises.  \<open>history_ok\<close> and \<open>shares_ok\<close> are the invariants of the tables; every
  unit of work keeps them (\<open>chat_step\<close>), so the active path of every reachable state is a branch from a
  root to a leaf.  The other theorems describe a new turn, the switch between versions, the pages of the
  history, the sidebar's pages, the removal of unanswered messages and the revocation of a share link.
\<close>

section \<open>The invariant\<close>

definition place :: "message_row \<Rightarrow> int \<times> string \<times> int option" where
  "place m = (ms_id m, ms_chat_room_id m, ms_parent_id m)"

definition parent_ok :: "(int \<times> string \<times> int option) set \<Rightarrow> message_row \<Rightarrow> bool" where
  "parent_ok K m \<longleftrightarrow>
     (\<forall>p \<in> set_option (ms_parent_id m). p < ms_id m \<and> (p, ms_chat_room_id m) \<in> (\<lambda>(i, room, _). (i, room)) ` K)"

definition child_ok :: "(int \<times> string \<times> int option) set \<Rightarrow> int \<Rightarrow> message_row \<Rightarrow> bool" where
  "child_ok K n m \<longleftrightarrow>
     (\<forall>c \<in> set_option (ms_active_child_id m). c < n \<and>
        (\<forall>(i, room, p) \<in> K. i = c \<longrightarrow> room = ms_chat_room_id m \<and> p = Some (ms_id m)))"

definition root_ok :: "(int \<times> string \<times> int option) set \<Rightarrow> int \<Rightarrow> room_row \<Rightarrow> bool" where
  "root_ok K n r \<longleftrightarrow>
     (\<forall>c \<in> set_option (rm_active_root_id r). c < n \<and>
        (\<forall>(i, room, p) \<in> K. i = c \<longrightarrow> room = rm_id r \<and> p = None))"

definition message_ok :: "string set \<Rightarrow> (int \<times> string \<times> int option) set \<Rightarrow> int \<Rightarrow> message_row \<Rightarrow> bool" where
  "message_ok R K n m \<longleftrightarrow> ms_id m < n \<and> ms_chat_room_id m \<in> R \<and> parent_ok K m \<and> child_ok K n m"

definition history_ok :: "chat_db \<Rightarrow> bool" where
  "history_ok db \<longleftrightarrow>
     distinct (map rm_id (ch_rooms db)) \<and> distinct (map ms_id (ch_history db)) \<and>
     (\<forall>m \<in> set (ch_history db).
        message_ok (rm_id ` set (ch_rooms db)) (place ` set (ch_history db)) (ch_next_message_id db) m) \<and>
     (\<forall>r \<in> set (ch_rooms db). root_ok (place ` set (ch_history db)) (ch_next_message_id db) r)"

lemma history_okI:
  assumes "distinct (map rm_id (ch_rooms db))" "distinct (map ms_id (ch_history db))"
    and "\<And>m. m \<in> set (ch_history db) \<Longrightarrow>
           message_ok (rm_id ` set (ch_rooms db)) (place ` set (ch_history db)) (ch_next_message_id db) m"
    and "\<And>r. r \<in> set (ch_rooms db) \<Longrightarrow> root_ok (place ` set (ch_history db)) (ch_next_message_id db) r"
  shows "history_ok db"
  using assms by (simp add: history_ok_def)

lemma history_okD:
  assumes "history_ok db"
  shows "distinct (map rm_id (ch_rooms db))" "distinct (map ms_id (ch_history db))"
    and "m \<in> set (ch_history db) \<Longrightarrow>
           message_ok (rm_id ` set (ch_rooms db)) (place ` set (ch_history db)) (ch_next_message_id db) m"
    and "r \<in> set (ch_rooms db) \<Longrightarrow> root_ok (place ` set (ch_history db)) (ch_next_message_id db) r"
  using assms by (simp_all add: history_ok_def)

lemma parent_ok_iff:
  "parent_ok (place ` set H) m \<longleftrightarrow>
     (\<forall>p. ms_parent_id m = Some p \<longrightarrow>
        p < ms_id m \<and> (\<exists>q \<in> set H. ms_id q = p \<and> ms_chat_room_id q = ms_chat_room_id m))"
  by (cases "ms_parent_id m") (auto simp: parent_ok_def place_def image_image image_iff)

lemma child_ok_iff:
  "child_ok (place ` set H) n m \<longleftrightarrow>
     (\<forall>c. ms_active_child_id m = Some c \<longrightarrow> c < n \<and>
        (\<forall>q \<in> set H. ms_id q = c \<longrightarrow> ms_chat_room_id q = ms_chat_room_id m \<and> ms_parent_id q = Some (ms_id m)))"
  by (auto simp: child_ok_def place_def)

lemma root_ok_iff:
  "root_ok (place ` set H) n r \<longleftrightarrow>
     (\<forall>c. rm_active_root_id r = Some c \<longrightarrow> c < n \<and>
        (\<forall>q \<in> set H. ms_id q = c \<longrightarrow> ms_chat_room_id q = rm_id r \<and> ms_parent_id q = None))"
  by (auto simp: root_ok_def place_def)

lemmas place_iffs = parent_ok_iff child_ok_iff root_ok_iff

text \<open>Updates that leave every message at its place.\<close>

lemma places_update: "(\<And>m. place (f m) = place m) \<Longrightarrow> place ` set (update_where P f H) = place ` set H"
  using keys_update [of place f P H] by (metis list.set_map)

lemma place_eq: "place m = place q \<longleftrightarrow>
    ms_id m = ms_id q \<and> ms_chat_room_id m = ms_chat_room_id q \<and> ms_parent_id m = ms_parent_id q"
  by (auto simp: place_def)

lemma history_ok_update_rooms:
  assumes "history_ok db" and "\<And>r. rm_id (g r) = rm_id r"
    and "\<And>r. r \<in> set (ch_rooms db) \<Longrightarrow> P r \<Longrightarrow> root_ok (place ` set (ch_history db)) (ch_next_message_id db) (g r)"
  shows "history_ok (on_rooms (update_where P g) db)" (is "history_ok ?db")
proof (rule history_okI)
  have ids: "rm_id ` set (update_where P g (ch_rooms db)) = rm_id ` set (ch_rooms db)"
    using keys_update [of rm_id g P "ch_rooms db", OF assms(2)] by (metis list.set_map)
  fix m
  assume "m \<in> set (ch_history ?db)"
  then show "message_ok (rm_id ` set (ch_rooms ?db))
     (place ` set (ch_history ?db)) (ch_next_message_id ?db) m"
    using history_okD(3) [OF assms(1)] by (simp add: ids)
next
  fix r
  assume "r \<in> set (ch_rooms ?db)"
  then show "root_ok (place ` set (ch_history ?db))
     (ch_next_message_id ?db) r"
    using history_okD(4) [OF assms(1)] assms(3) by (auto simp: update_where_def split: if_splits)
qed (use history_okD [OF assms(1)] in \<open>simp_all add: keys_update [of rm_id g, OF assms(2)]\<close>)

lemma history_ok_update_history:
  assumes "history_ok db" and "\<And>m. place (f m) = place m"
    and "\<And>m. m \<in> set (ch_history db) \<Longrightarrow> P m \<Longrightarrow> child_ok (place ` set (ch_history db)) (ch_next_message_id db) (f m)"
  shows "history_ok (on_history (update_where P f) db)" (is "history_ok ?db")
proof (rule history_okI)
  have ids: "ms_id (f m) = ms_id m" "ms_chat_room_id (f m) = ms_chat_room_id m" "ms_parent_id (f m) = ms_parent_id m" for m
    using assms(2) [of m] by (simp_all add: place_eq)
  note places = places_update [of f P "ch_history db", OF assms(2)]
  show "distinct (map ms_id (ch_history ?db))"
    using history_okD(2) [OF assms(1)] by (simp add: keys_update [of ms_id f, OF ids(1)])
  fix m
  assume "m \<in> set (ch_history ?db)"
  then obtain q where q: "q \<in> set (ch_history db)" "m = (if P q then f q else q)"
    by (auto simp: update_where_def)
  have "parent_ok K (f q) = parent_ok K q" for K by (simp add: parent_ok_def ids)
  then show "message_ok (rm_id ` set (ch_rooms ?db))
     (place ` set (ch_history ?db))
     (ch_next_message_id ?db) m"
    using history_okD(3) [OF assms(1) q(1)] assms(3) [OF q(1)] q(2) by (simp add: message_ok_def places ids)
next
  note places = places_update [of f P "ch_history db", OF assms(2)]
  fix r
  assume "r \<in> set (ch_rooms ?db)"
  then show "root_ok (place ` set (ch_history ?db))
     (ch_next_message_id ?db) r"
    using history_okD(4) [OF assms(1)] by (simp add: places)
qed (use history_okD [OF assms(1)] in simp_all)

text \<open>A new message whose parent, if any, is a message of its room.\<close>

lemma history_ok_append:
  assumes "history_ok db" and "ms_id m = ch_next_message_id db" and "ms_chat_room_id m \<in> rm_id ` set (ch_rooms db)"
    and "parent_ok (place ` set (ch_history db)) m" and "ms_active_child_id m = None"
  shows "history_ok (db\<lparr>ch_history := ch_history db @ [m], ch_next_message_id := ch_next_message_id db + 1\<rparr>)" (is "history_ok ?db")
proof (rule history_okI)
  have old: "ms_id q < ch_next_message_id db" if "q \<in> set (ch_history db)" for q
    using history_okD(3) [OF assms(1) that] by (simp add: message_ok_def)
  then have "ms_id m \<notin> ms_id ` set (ch_history db)" using assms(2) by fastforce
  then show "distinct (map ms_id (ch_history ?db))"
    using history_okD(2) [OF assms(1)] by simp
  fix q
  assume "q \<in> set (ch_history ?db)"
  then consider "q = m" | "q \<in> set (ch_history db)" by auto
  then show "message_ok (rm_id ` set (ch_rooms ?db))
     (place ` set (ch_history ?db)) (ch_next_message_id ?db) q"
  proof cases
    case 1
    then show ?thesis using assms(2-5) by (simp add: message_ok_def parent_ok_def child_ok_def)
  next
    case 2
    then show ?thesis
      using history_okD(3) [OF assms(1) 2] assms(2)
      by (fastforce simp: message_ok_def parent_ok_def child_ok_def place_def)
  qed
next
  fix r
  assume "r \<in> set (ch_rooms ?db)"
  then show "root_ok (place ` set (ch_history ?db))
     (ch_next_message_id ?db) r"
    using history_okD(4) [OF assms(1)] assms(2) by (fastforce simp: root_ok_def place_def)
qed (use history_okD [OF assms(1)] in simp_all)

text \<open>A part of the messages and rooms that keeps the parent and the room of what it keeps.\<close>

lemma history_ok_filter:
  assumes "history_ok db"
    and "\<And>m p. m \<in> set (ch_history db) \<Longrightarrow> M m \<Longrightarrow> p \<in> set (ch_history db) \<Longrightarrow> ms_parent_id m = Some (ms_id p) \<Longrightarrow> M p"
    and "\<And>m r. m \<in> set (ch_history db) \<Longrightarrow> M m \<Longrightarrow> r \<in> set (ch_rooms db) \<Longrightarrow> rm_id r = ms_chat_room_id m \<Longrightarrow> R r"
  shows "history_ok (db\<lparr>ch_rooms := filter R (ch_rooms db), ch_history := filter M (ch_history db)\<rparr>)"
proof (rule history_okI, goal_cases)
  case (3 m)
  then have m: "m \<in> set (ch_history db)" "M m" by auto
  note ok = history_okD(3) [OF assms(1) m(1)]
  have "parent_ok (place ` set (filter M (ch_history db))) m"
    unfolding parent_ok_iff using ok assms(2) [OF m] unfolding message_ok_def parent_ok_iff by fastforce
  moreover have "child_ok (place ` set (filter M (ch_history db))) (ch_next_message_id db) m"
    using ok unfolding message_ok_def child_ok_iff by auto
  moreover have "ms_chat_room_id m \<in> rm_id ` set (filter R (ch_rooms db))"
    using ok assms(3) [OF m] by (auto simp: message_ok_def)
  ultimately show ?case using ok by (simp add: message_ok_def)
next
  case (4 r)
  then show ?case using history_okD(4) [OF assms(1), of r] unfolding root_ok_iff by auto
qed (use history_okD [OF assms(1)] in \<open>simp_all add: distinct_map_filter\<close>)

section \<open>The tree of a room\<close>

abbreviation room_nodes :: "string \<Rightarrow> chat_db \<Rightarrow> message_row list" where
  "room_nodes room db \<equiv> fst (load_room_tree room db)"

abbreviation room_root :: "string \<Rightarrow> chat_db \<Rightarrow> int option" where
  "room_root room db \<equiv> snd (load_room_tree room db)"

lemma active_path_walk: "active_path room db = walk_active_path (room_nodes room db) (room_root room db)"
  by (simp add: active_path_def case_prod_beta)

lemma set_room_nodes: "set (room_nodes room db) = {m \<in> set (ch_history db). ms_chat_room_id m = room}"
  by (auto simp: load_room_tree_def select_where_def)

lemma room_root_row: "room_root room db = Option.bind (find_room room db) rm_active_root_id"
  by (simp add: load_room_tree_def find_room_def)

lemma room_nodes_distinct: "distinct (map ms_id (ch_history db)) \<Longrightarrow> distinct (map ms_id (room_nodes room db))"
  by (simp add: load_room_tree_def select_where_def distinct_map inj_on_def)

lemma room_tree_ok:
  assumes "history_ok db"
  shows "tree_ok (room_nodes room db)"
  unfolding tree_ok_def
proof (intro conjI ballI allI impI)
  show "distinct (map ms_id (room_nodes room db))"
    using room_nodes_distinct [OF history_okD(2) [OF assms]] .
next
  fix m p
  assume "m \<in> set (room_nodes room db)" "ms_parent_id m = Some p"
  then show "p < ms_id m"
    using history_okD(3) [OF assms, of m] by (simp add: set_room_nodes message_ok_def parent_ok_iff)
next
  fix m q
  assume "m \<in> set (room_nodes room db)" "q \<in> set (room_nodes room db)" "ms_active_child_id m = Some (ms_id q)"
  then show "ms_parent_id q = Some (ms_id m)"
    using history_okD(3) [OF assms, of m] by (simp add: set_room_nodes message_ok_def child_ok_iff)
qed

lemma find_room_Some: "find_room room db = Some r \<Longrightarrow> r \<in> set (ch_rooms db) \<and> rm_id r = room"
  unfolding find_room_def by (drule select_one_Some) simp

lemma find_room_None: "find_room room db = None \<longleftrightarrow> room \<notin> rm_id ` set (ch_rooms db)"
  unfolding find_room_def by (auto simp: select_one_None)

lemma first_id_root:
  assumes "history_ok db" "first_id (room_nodes room db) (room_root room db) = Some (ms_id m)"
    and "m \<in> set (room_nodes room db)"
  shows "ms_parent_id m = None"
proof -
  have same: "m = q" if "q \<in> set (room_nodes room db)" "ms_id q = ms_id m" for q
    using same_key_row [OF tree_ok_distinct [OF room_tree_ok [OF assms(1)]] that(1) assms(3)] that(2) by simp
  consider (child) "last_option (children_by_parent (room_nodes room db) None) = Some (ms_id m)"
    | (root) "room_root room db = Some (ms_id m)"
    using assms(2) by (auto simp: first_id_def split: option.splits if_splits)
  then show ?thesis
  proof cases
    case child
    then show ?thesis using last_child same by metis
  next
    case root
    then obtain r where "r \<in> set (ch_rooms db)" "rm_active_root_id r = Some (ms_id m)"
      using find_room_Some by (fastforce simp: room_root_row Option.bind_eq_Some_conv)
    then show ?thesis
      using history_okD(4) [OF assms(1), of r] assms(3) by (simp add: root_ok_iff set_room_nodes)
  qed
qed

text \<open>Every message has a chain of parents, so a room with messages has a first one.\<close>

lemma oldest_message_root:
  assumes "history_ok db" "room_nodes room db \<noteq> []"
  shows "children_by_parent (room_nodes room db) None \<noteq> []"
proof -
  let ?ids = "ms_id ` set (room_nodes room db)"
  have "Min ?ids \<in> ?ids" using assms(2) by (intro Min_in) auto
  then obtain m where m: "m \<in> set (room_nodes room db)" "ms_id m = Min ?ids" by auto
  have "ms_parent_id m = None"
  proof (rule ccontr)
    assume "ms_parent_id m \<noteq> None"
    then obtain p where p: "ms_parent_id m = Some p" by blast
    then obtain q where q: "q \<in> set (room_nodes room db)" "ms_id q = p" "p < ms_id m"
      using history_okD(3) [OF assms(1), of m] m(1) by (auto simp: set_room_nodes message_ok_def parent_ok_iff)
    have "Min ?ids \<le> p" using q(1,2) by (intro Min_le) auto
    with q(3) m(2) show False by simp
  qed
  with m(1) have "ms_id m \<in> set (children_by_parent (room_nodes room db) None)" by (auto simp: set_children)
  then show ?thesis by (metis empty_iff empty_set)
qed

lemma active_path_root:
  assumes "history_ok db" "active_path room db = m # rest"
  shows "ms_parent_id m = None"
proof -
  note tree = room_tree_ok [OF assms(1), of room]
  have "m \<in> set (room_nodes room db)"
    using walk_sound [OF tree, of "room_root room db"] assms(2) by (simp add: active_path_walk)
  then show ?thesis
    using first_id_root [OF assms(1), of room m] walk_first [OF tree] assms(2) by (simp add: active_path_walk)
qed

lemma active_path_empty: "history_ok db \<Longrightarrow> active_path room db = [] \<longleftrightarrow> room_nodes room db = []"
proof
  assume ok: "history_ok db" and "active_path room db = []"
  then have "first_id (room_nodes room db) (room_root room db) = None"
    using walk_Nil [OF room_tree_ok [OF ok]] by (simp add: active_path_walk)
  then show "room_nodes room db = []" using oldest_message_root [OF ok] by (auto simp: first_id_None)
next
  assume "history_ok db" "room_nodes room db = []"
  then show "active_path room db = []"
    using walk_sound [OF room_tree_ok, of db room "room_root room db"] by (simp add: active_path_walk)
qed

section \<open>Every unit of work keeps the invariant\<close>

abbreviation keeps_history :: "(chat_db, chat_error, 'a) work \<Rightarrow> bool" where
  "keeps_history m \<equiv> \<forall>db. history_ok db \<longrightarrow> history_ok (snd (m db))"

lemma update_rooms_keeps:
  "history_ok db \<Longrightarrow> (\<And>r. rm_id (g r) = rm_id r) \<Longrightarrow> (\<And>r. rm_active_root_id (g r) = rm_active_root_id r) \<Longrightarrow>
   history_ok (on_rooms (update_where P g) db)"
proof (rule history_ok_update_rooms, assumption)
  fix r
  assume "history_ok db" "r \<in> set (ch_rooms db)" and "\<And>r. rm_id (g r) = rm_id r"
    and "\<And>r. rm_active_root_id (g r) = rm_active_root_id r"
  then show "root_ok (place ` set (ch_history db)) (ch_next_message_id db) (g r)"
    using history_okD(4) [of db r] by (simp add: root_ok_def)
qed

lemma history_ok_shares [simp]: "history_ok (db\<lparr>ch_shares := shares\<rparr>) = history_ok db"
  by (simp add: history_ok_def)

lemma delete_rooms_keeps: "history_ok db \<Longrightarrow> history_ok (delete_rooms ids db)"
proof -
  assume ok: "history_ok db"
  have "history_ok (db\<lparr>ch_rooms := filter (\<lambda>r. rm_id r \<notin> set ids) (ch_rooms db),
                       ch_history := filter (\<lambda>m. ms_chat_room_id m \<notin> set ids) (ch_history db)\<rparr>)"
  proof (rule history_ok_filter [OF ok])
    fix m p
    assume m: "m \<in> set (ch_history db)" "ms_chat_room_id m \<notin> set ids"
      and p: "p \<in> set (ch_history db)" "ms_parent_id m = Some (ms_id p)"
    then obtain q where q: "q \<in> set (ch_history db)" "ms_id q = ms_id p" "ms_chat_room_id q = ms_chat_room_id m"
      using history_okD(3) [OF ok m(1)] by (auto simp: message_ok_def parent_ok_iff)
    then have "q = p" using same_key_row [OF history_okD(2) [OF ok] q(1) p(1)] by simp
    with q m show "ms_chat_room_id p \<notin> set ids" by simp
  qed auto
  then show ?thesis by (simp add: delete_rooms_def delete_where_def history_ok_def)
qed

lemma create_room_keeps:
  assumes "history_ok db"
  shows "history_ok (snd (create_room now room_id user_id title mode db))"
proof -
  have "history_ok (db\<lparr>ch_rooms := ch_rooms db @ [r]\<rparr>)"
    if "rm_id r \<notin> rm_id ` set (ch_rooms db)" "rm_active_root_id r = None" for r
    using assms that by (auto simp: history_ok_def message_ok_def root_ok_def)
  then show ?thesis
    using assms by (auto simp: create_room_def insert_row_Some split: option.splits)
qed

lemma insert_message_cases:
  obtains (refused) e where "insert_message codec now room msg sender parent_id inp db = (Inl e, db)"
  | (stored) m where "fst (insert_message codec now room msg sender parent_id inp db) = Inr m"
      "ms_id m = ch_next_message_id db" "ms_chat_room_id m = room" "ms_parent_id m = parent_id"
      "ms_active_child_id m = None" "ms_message m = msg" "ms_sender m = sender"
      "case parent_id of None \<Rightarrow> find_room room db \<noteq> None
       | Some p \<Rightarrow> \<exists>q \<in> set (ch_history db). ms_id q = p \<and> ms_chat_room_id q = room"
      "snd (insert_message codec now room msg sender parent_id inp db) =
         (let stored = db\<lparr>ch_history := ch_history db @ [m], ch_next_message_id := ch_next_message_id db + 1\<rparr>
          in case parent_id of
               None \<Rightarrow> on_rooms (update_where (\<lambda>r. rm_id r = room)
                         (\<lambda>r. r\<lparr>rm_last_activity_at := now, rm_active_root_id := Some (ms_id m)\<rparr>)) stored
             | Some p \<Rightarrow> on_rooms (update_where (\<lambda>r. rm_id r = room) (\<lambda>r. r\<lparr>rm_last_activity_at := now\<rparr>))
                  (on_history (update_where (\<lambda>m. ms_id m = p \<and> ms_chat_room_id m = room)
                     (\<lambda>q. q\<lparr>ms_active_child_id := Some (ms_id m)\<rparr>)) stored))"
proof -
  let ?m = "\<lparr>ms_id = ch_next_message_id db, ms_chat_room_id = room, ms_message = msg, ms_sender = sender,
             ms_timestamp = now, ms_parent_id = parent_id, ms_active_child_id = None,
             ms_data = encode_message_data codec inp\<rparr>"
  let ?anchor = "case parent_id of None \<Rightarrow> find_room room db \<noteq> None
     | Some p \<Rightarrow> select_one (\<lambda>m. ms_id m = p \<and> ms_chat_room_id m = room) (ch_history db) \<noteq> None"
  show ?thesis
  proof (cases "?anchor \<and> sender \<in> {''user'', ''assistant''}")
    case True
    then have "case parent_id of None \<Rightarrow> find_room room db \<noteq> None
       | Some p \<Rightarrow> \<exists>q \<in> set (ch_history db). ms_id q = p \<and> ms_chat_room_id q = room"
      by (auto simp: select_one_None split: option.splits)
    then show ?thesis
      using True by (intro stored [of ?m]) (simp_all add: insert_message_def Let_def)
  next
    case False
    then show ?thesis
      using refused [of Room_Not_Found] refused [of Integrity_Error]
      by (cases ?anchor) (simp_all add: insert_message_def Let_def)
  qed
qed

lemma insert_message_keeps:
  assumes ok: "history_ok db"
  shows "history_ok (snd (insert_message codec now room msg sender parent_id inp db))"
proof (cases rule: insert_message_cases [of codec now room msg sender parent_id inp db])
  case (stored m)
  let ?stored = "db\<lparr>ch_history := ch_history db @ [m], ch_next_message_id := ch_next_message_id db + 1\<rparr>"
  have old: "ms_id q < ms_id m" if "q \<in> set (ch_history db)" for q
    using history_okD(3) [OF ok that] stored(2) by (simp add: message_ok_def)
  have parent: "parent_ok (place ` set (ch_history db)) m"
    using stored(3,4,8) old by (auto simp: parent_ok_iff)
  have "room \<in> rm_id ` set (ch_rooms db)"
    using stored(8) history_okD(3) [OF ok] by (auto simp: find_room_None message_ok_def split: option.splits)
  then have ok': "history_ok ?stored" using history_ok_append [OF ok stored(2)] stored parent by simp
  show ?thesis
  proof (cases parent_id)
    case None
    have "history_ok (on_rooms (update_where (\<lambda>r. rm_id r = room)
            (\<lambda>r. r\<lparr>rm_last_activity_at := now, rm_active_root_id := Some (ms_id m)\<rparr>)) ?stored)"
    proof (rule history_ok_update_rooms [OF ok'])
      fix r
      assume "r \<in> set (ch_rooms ?stored)" "rm_id r = room"
      then show "root_ok (place ` set (ch_history ?stored)) (ch_next_message_id ?stored)
                   (r\<lparr>rm_last_activity_at := now, rm_active_root_id := Some (ms_id m)\<rparr>)"
        unfolding root_ok_iff using stored(2-4) None old by fastforce
    qed simp
    then show ?thesis using stored(9) None by (simp add: Let_def)
  next
    case (Some p)
    have "history_ok (on_history (update_where (\<lambda>m. ms_id m = p \<and> ms_chat_room_id m = room)
            (\<lambda>q. q\<lparr>ms_active_child_id := Some (ms_id m)\<rparr>)) ?stored)"
    proof (rule history_ok_update_history [OF ok'])
      fix q
      assume "q \<in> set (ch_history ?stored)" "ms_id q = p \<and> ms_chat_room_id q = room"
      then show "child_ok (place ` set (ch_history ?stored)) (ch_next_message_id ?stored)
                   (q\<lparr>ms_active_child_id := Some (ms_id m)\<rparr>)"
        unfolding child_ok_iff using stored(2-4) Some old by fastforce
    qed (simp add: place_def)
    from update_rooms_keeps [OF this, of "\<lambda>r. r\<lparr>rm_last_activity_at := now\<rparr>" "\<lambda>r. rm_id r = room"]
    show ?thesis using stored(9) Some by (simp add: Let_def)
  qed
qed (use ok in simp)

lemma snd_case_result:
  "snd (case x of (Inl e, d) \<Rightarrow> (Inl e, d) | (Inr a, d) \<Rightarrow> (Inr (g a), d)) = snd x"
  by (cases x; cases "fst x") auto

lemma save_message_keeps: "history_ok db \<Longrightarrow> history_ok (snd (save_message codec now room msg sender parent_id inp db))"
  unfolding save_message_def snd_case_result by (rule insert_message_keeps)

lemma store_turn_keeps:
  "history_ok db \<Longrightarrow> history_ok (snd (store_user_message_and_load_turn_context codec now room msg sender inp db))"
  unfolding store_user_message_and_load_turn_context_def Let_def snd_case_result by (rule insert_message_keeps)

lemma copy_from_keeps: "history_ok db \<Longrightarrow> history_ok (snd (copy_from codec now room parent_id copied messages db))"
proof (induction messages arbitrary: parent_id copied db)
  case (Cons entry messages)
  show ?case
  proof (cases entry)
    case (Some m)
    obtain r db' where saved: "save_message codec now room (case cm_message m of None \<Rightarrow> [] | Some t \<Rightarrow> t)
        (if cm_sender m = Some ''user'' then ''user'' else ''assistant'') parent_id (copied_input m) db = (r, db')"
      by (metis surj_pair)
    then have "history_ok db'" using save_message_keeps [OF Cons.prems] by (metis snd_conv)
    with Cons saved Some show ?thesis by (cases r) simp_all
  qed (use Cons in simp)
qed simp

text \<open>Choosing a message of the room whose parent is \<open>p\<close>, or no message, below \<open>p\<close>.\<close>

lemma choose_child_keeps:
  assumes ok: "history_ok db"
    and "\<And>i. c = Some i \<Longrightarrow> \<exists>t \<in> set (ch_history db). ms_id t = i \<and> ms_chat_room_id t = room \<and> ms_parent_id t = Some p"
  shows "history_ok (on_history (update_where (\<lambda>m. ms_id m = p \<and> ms_chat_room_id m = room)
           (\<lambda>m. m\<lparr>ms_active_child_id := c\<rparr>)) db)"
proof (rule history_ok_update_history [OF ok])
  fix m
  assume m: "m \<in> set (ch_history db)" "ms_id m = p \<and> ms_chat_room_id m = room"
  show "child_ok (place ` set (ch_history db)) (ch_next_message_id db) (m\<lparr>ms_active_child_id := c\<rparr>)"
  proof (cases c)
    case (Some i)
    then obtain t where t: "t \<in> set (ch_history db)" "ms_id t = i" "ms_chat_room_id t = room" "ms_parent_id t = Some p"
      using assms(2) by blast
    have "ms_chat_room_id q = room \<and> ms_parent_id q = Some p" if "q \<in> set (ch_history db)" "ms_id q = i" for q
      using same_key_row [OF history_okD(2) [OF ok] that(1) t(1)] that(2) t(2-4) by simp
    moreover have "i < ch_next_message_id db" using history_okD(3) [OF ok t(1)] t(2) by (simp add: message_ok_def)
    ultimately show ?thesis unfolding child_ok_iff using Some m(2) by simp
  qed (simp add: child_ok_iff)
qed (simp add: place_def)

lemma choose_root_keeps:
  assumes ok: "history_ok db"
    and "\<And>i. c = Some i \<Longrightarrow> \<exists>t \<in> set (ch_history db). ms_id t = i \<and> ms_chat_room_id t = room \<and> ms_parent_id t = None"
  shows "history_ok (on_rooms (update_where (\<lambda>r. rm_id r = room) (\<lambda>r. r\<lparr>rm_active_root_id := c\<rparr>)) db)"
proof (rule history_ok_update_rooms [OF ok])
  fix r
  assume r: "r \<in> set (ch_rooms db)" "rm_id r = room"
  show "root_ok (place ` set (ch_history db)) (ch_next_message_id db) (r\<lparr>rm_active_root_id := c\<rparr>)"
  proof (cases c)
    case (Some i)
    then obtain t where t: "t \<in> set (ch_history db)" "ms_id t = i" "ms_chat_room_id t = room" "ms_parent_id t = None"
      using assms(2) by blast
    have "ms_chat_room_id q = room \<and> ms_parent_id q = None" if "q \<in> set (ch_history db)" "ms_id q = i" for q
      using same_key_row [OF history_okD(2) [OF ok] that(1) t(1)] that(2) t(2-4) by simp
    moreover have "i < ch_next_message_id db" using history_okD(3) [OF ok t(1)] t(2) by (simp add: message_ok_def)
    ultimately show ?thesis unfolding root_ok_iff using Some r(2) by simp
  qed (simp add: root_ok_iff)
qed simp

text \<open>\<open>choose_version room t db\<close>: the update that \<open>switch_branch\<close> makes for the message \<open>t\<close>.\<close>

definition choose_version :: "string \<Rightarrow> message_row \<Rightarrow> chat_db \<Rightarrow> chat_db" where
  "choose_version room t db =
     (case ms_parent_id t of
        None \<Rightarrow> on_rooms (update_where (\<lambda>r. rm_id r = room) (\<lambda>r. r\<lparr>rm_active_root_id := Some (ms_id t)\<rparr>)) db
      | Some p \<Rightarrow> on_history (update_where (\<lambda>m. ms_id m = p \<and> ms_chat_room_id m = room)
                    (\<lambda>m. m\<lparr>ms_active_child_id := Some (ms_id t)\<rparr>)) db)"

lemma choose_version_keeps:
  "history_ok db \<Longrightarrow> t \<in> set (room_nodes room db) \<Longrightarrow> history_ok (choose_version room t db)"
  unfolding choose_version_def set_room_nodes
  by (cases "ms_parent_id t") (auto intro!: choose_child_keeps choose_root_keeps)

lemma switch_branch_cases:
  obtains (missing) "switch_branch codec room i db = (Inl Room_Not_Found, db)" "i \<notin> ms_id ` set (room_nodes room db)"
  | (switched) t where "t \<in> set (room_nodes room db)" "ms_id t = i"
      "switch_branch codec room i db = (Inr (get_active_path codec room False (choose_version room t db)), choose_version room t db)"
proof (cases "select_one (\<lambda>m. ms_id m = i \<and> ms_chat_room_id m = room) (ch_history db)")
  case None
  then have "i \<notin> ms_id ` set (room_nodes room db)" by (auto simp: select_one_None set_room_nodes)
  with None show ?thesis using missing by (simp add: switch_branch_def)
next
  case (Some t)
  then have "t \<in> set (room_nodes room db)" "ms_id t = i" using select_one_Some by (fastforce simp: set_room_nodes)+
  with Some show ?thesis using switched [of t] by (simp add: switch_branch_def choose_version_def Let_def split: option.splits)
qed

lemma switch_branch_keeps: "history_ok db \<Longrightarrow> history_ok (snd (switch_branch codec room i db))"
  by (cases rule: switch_branch_cases [of codec room i db]) (auto simp: choose_version_keeps)

section \<open>Removing unanswered messages\<close>

definition answer_closed :: "message_row list \<Rightarrow> int set \<Rightarrow> bool" where
  "answer_closed rows ids \<longleftrightarrow> (\<forall>m \<in> set rows. \<forall>p \<in> ids. ms_parent_id m = Some p \<longrightarrow> ms_id m \<in> ids)"

lemma with_descendants_closed: "answer_closed rows (set ids) \<Longrightarrow> set (with_descendants n rows ids) = set ids"
proof (induction n arbitrary: ids)
  case (Suc n)
  let ?ids = "ids @ map ms_id (filter (\<lambda>m. \<exists>p \<in> set ids. ms_parent_id m = Some p) rows)"
  have "set ?ids = set ids" using Suc.prems by (auto simp: answer_closed_def)
  then show ?case using Suc.IH [of ?ids] Suc.prems by simp
qed simp

lemma unanswered_from_suffix:
  "\<exists>k \<le> length rpath. unanswered_from nodes R rpath = map ms_id (rev (take k rpath)) @ R \<and>
     (\<forall>m \<in> set (take k rpath). ms_sender m = ''user'' \<and>
        set (children_by_parent nodes (Some (ms_id m))) \<subseteq> set (unanswered_from nodes R rpath))"
proof (induction rpath arbitrary: R)
  case (Cons m rest)
  show ?case
  proof (cases "ms_sender m = ''user'' \<and> set (children_by_parent nodes (Some (ms_id m))) \<subseteq> set R")
    case True
    then have step: "unanswered_from nodes R (m # rest) = unanswered_from nodes (ms_id m # R) rest"
      by (auto simp: list_ex_iff)
    obtain k where k: "k \<le> length rest"
      "unanswered_from nodes (ms_id m # R) rest = map ms_id (rev (take k rest)) @ ms_id m # R"
      "\<forall>q \<in> set (take k rest). ms_sender q = ''user'' \<and>
         set (children_by_parent nodes (Some (ms_id q))) \<subseteq> set (unanswered_from nodes (ms_id m # R) rest)"
      using Cons.IH [of "ms_id m # R"] by blast
    then show ?thesis unfolding step using True by (intro exI [of _ "Suc k"]) auto
  next
    case False
    then have "unanswered_from nodes R (m # rest) = R" by (auto simp: list_ex_iff)
    then show ?thesis by (intro exI [of _ 0]) simp
  qed
qed simp

lemma filter_suffix: "distinct (xs @ ys) \<Longrightarrow> filter (\<lambda>i. i \<in> set ys) (xs @ ys) = ys"
  by (auto simp: filter_empty_conv intro!: filter_True)

lemma unanswered_suffix:
  assumes "distinct (map ms_id path)"
  shows "\<exists>kept gone. path = kept @ gone \<and> trailing_unanswered_user_ids nodes path = map ms_id gone \<and>
     (\<forall>m \<in> set gone. ms_sender m = ''user'' \<and>
        set (children_by_parent nodes (Some (ms_id m))) \<subseteq> ms_id ` set gone)"
proof -
  obtain k where k: "k \<le> length path"
    "unanswered_from nodes [] (rev path) = map ms_id (rev (take k (rev path)))"
    "\<forall>m \<in> set (take k (rev path)). ms_sender m = ''user'' \<and>
       set (children_by_parent nodes (Some (ms_id m))) \<subseteq> set (unanswered_from nodes [] (rev path))"
    using unanswered_from_suffix [of "rev path" nodes "[]"] by auto
  let ?kept = "take (length path - k) path" and ?gone = "drop (length path - k) path"
  have gone: "rev (take k (rev path)) = ?gone" by (simp add: take_rev)
  have "map ms_id path = map ms_id ?kept @ map ms_id ?gone" by (metis append_take_drop_id map_append)
  then have "filter (\<lambda>i. i \<in> set (map ms_id ?gone)) (map ms_id path) = map ms_id ?gone"
    using assms by (metis filter_suffix)
  then have "trailing_unanswered_user_ids nodes path = map ms_id ?gone"
    by (simp add: trailing_unanswered_user_ids_def k(2) gone)
  moreover have "set (take k (rev path)) = set ?gone" using gone by (metis set_rev)
  ultimately show ?thesis
    using k(2,3) gone by (intro exI [of _ ?kept] exI [of _ ?gone]) simp
qed

lemma on_path_in_room:
  assumes "history_ok db"
  shows "set (active_path room db) \<subseteq> set (room_nodes room db)" "distinct (map ms_id (active_path room db))"
    "sorted_wrt (<) (map ms_id (active_path room db))"
    "successively (\<lambda>a b. ms_parent_id b = Some (ms_id a)) (active_path room db)"
  using walk_sound [OF room_tree_ok [OF assms], of room "room_root room db"]
  by (auto simp: active_path_walk strict_sorted_iff)

lemma path_leaf:
  "history_ok db \<Longrightarrow> active_path room db \<noteq> [] \<Longrightarrow>
   children_by_parent (room_nodes room db) (Some (ms_id (last (active_path room db)))) = []"
  using walk_sound [OF room_tree_ok, of db room "room_root room db"] by (simp add: active_path_walk)

lemma unanswered_none:
  assumes "path \<noteq> [] \<Longrightarrow> children_by_parent nodes (Some (ms_id (last path))) = []"
  shows "trailing_unanswered_user_ids nodes path = [] \<longleftrightarrow> (path \<noteq> [] \<longrightarrow> ms_sender (last path) \<noteq> ''user'')"
proof (cases "path = []")
  case False
  then have rpath: "rev path = last path # rev (butlast path)"
    by (metis append_butlast_last_id rev_eq_Cons_iff rev_rev_ident)
  show ?thesis
  proof (cases "ms_sender (last path) = ''user''")
    case True
    with assms [OF False] have "ms_id (last path) \<in> set (unanswered_from nodes [] (rev path))"
      unfolding rpath using unanswered_from_suffix [of "rev (butlast path)" nodes "[ms_id (last path)]"] by auto
    then show ?thesis
      using True False by (auto simp: trailing_unanswered_user_ids_def Let_def filter_empty_conv)
  next
    case user: False
    then have "unanswered_from nodes [] (rev path) = []" unfolding rpath by simp
    then show ?thesis using user by (simp add: trailing_unanswered_user_ids_def Let_def)
  qed
qed (simp add: trailing_unanswered_user_ids_def Let_def)

lemma answer_closed_places:
  "answer_closed rows ids \<longleftrightarrow> (\<forall>(i, _, p) \<in> place ` set rows. (\<exists>j \<in> ids. p = Some j) \<longrightarrow> i \<in> ids)"
  by (auto simp: answer_closed_def place_def)

lemma suffix_closed:
  assumes ok: "history_ok db" and "set gone \<subseteq> set (room_nodes room db)"
    and "\<forall>m \<in> set gone. set (children_by_parent (room_nodes room db) (Some (ms_id m))) \<subseteq> ms_id ` set gone"
  shows "answer_closed (ch_history db) (ms_id ` set gone)"
  unfolding answer_closed_def
proof (intro ballI impI)
  fix m p
  assume m: "m \<in> set (ch_history db)" "p \<in> ms_id ` set gone" "ms_parent_id m = Some p"
  then obtain g where g: "g \<in> set gone" "p = ms_id g" by auto
  then have g': "g \<in> set (ch_history db)" "ms_chat_room_id g = room" using assms(2) by (auto simp: set_room_nodes)
  obtain q where q: "q \<in> set (ch_history db)" "ms_id q = ms_id g" "ms_chat_room_id q = ms_chat_room_id m"
    using history_okD(3) [OF ok m(1)] m(3) g(2) by (auto simp: message_ok_def parent_ok_iff)
  then have "q = g" using same_key_row [OF history_okD(2) [OF ok] q(1) g'(1)] by simp
  then have "m \<in> set (room_nodes room db)" using q(3) g'(2) m(1) by (simp add: set_room_nodes)
  then have "ms_id m \<in> set (children_by_parent (room_nodes room db) (Some (ms_id g)))"
    using m(3) g(2) by (auto simp: set_children)
  then show "ms_id m \<in> ms_id ` set gone" using assms(3) g(1) by auto
qed

lemma delete_messages_closed:
  "answer_closed rows (set ids) \<Longrightarrow> delete_messages ids rows = filter (\<lambda>m. ms_id m \<notin> set ids) rows"
  by (simp add: delete_messages_def delete_where_def with_descendants_closed)

lemma history_ok_without:
  assumes ok: "history_ok db" and "answer_closed (ch_history db) ids"
  shows "history_ok (on_history (filter (\<lambda>m. ms_id m \<notin> ids)) db)"
  using history_ok_filter [OF ok, of "\<lambda>m. ms_id m \<notin> ids" "\<lambda>_. True"] assms(2)
  by (auto simp: answer_closed_def history_ok_def)

definition unchoose :: "string \<Rightarrow> int option \<Rightarrow> chat_db \<Rightarrow> chat_db" where
  "unchoose room parent_id db =
     (case parent_id of
        None \<Rightarrow> on_rooms (update_where (\<lambda>r. rm_id r = room) (\<lambda>r. r\<lparr>rm_active_root_id := None\<rparr>)) db
      | Some p \<Rightarrow> on_history (update_where (\<lambda>m. ms_id m = p \<and> ms_chat_room_id m = room)
                    (\<lambda>m. m\<lparr>ms_active_child_id := None\<rparr>)) db)"

lemma unchoose_keeps: "history_ok db \<Longrightarrow> history_ok (unchoose room parent_id db)"
  unfolding unchoose_def by (cases parent_id) (auto intro!: choose_child_keeps choose_root_keeps)

lemma unchoose_places: "map place (ch_history (unchoose room parent_id db)) = map place (ch_history db)"
  by (simp add: unchoose_def place_def update_where_def split: option.splits)

lemma delete_unanswered_eq:
  assumes "load_owned_room room user db = Inr r"
    and ids: "trailing_unanswered_user_ids (room_nodes room db) (active_path room db) = ids"
  shows "delete_unanswered_user_messages room user db =
    (if ids = [] then (Inr False, db)
     else let db' = unchoose room (Option.bind (node_of (room_nodes room db) (hd ids)) ms_parent_id) db;
              gone = (\<lambda>m. ms_chat_room_id m = room \<and> ms_id m \<in> set ids)
          in (Inr (0 < row_count gone (ch_history db')),
              on_history (delete_messages (map ms_id (filter gone (ch_history db')))) db'))"
  unfolding delete_unanswered_user_messages_def unchoose_def using assms
  by (simp add: Let_def split: list.splits option.splits)

lemma removed_rows:
  assumes places: "place ` set H' = place ` set H" and sub: "set gone \<subseteq> {m \<in> set H. ms_chat_room_id m = room}"
  shows "set (map ms_id (filter (\<lambda>m. ms_chat_room_id m = room \<and> ms_id m \<in> set (map ms_id gone)) H')) = ms_id ` set gone"
    (is "set (map ms_id (filter ?gone H')) = _")
proof -
  have "ms_id m \<in> ms_id ` {q \<in> set H'. ?gone q}" if m: "m \<in> set gone" for m
  proof -
    have "place m \<in> place ` set H'" using m sub places by auto
    then obtain q where q: "q \<in> set H'" "place q = place m" by auto
    then have "q \<in> {q \<in> set H'. ?gone q}" using m sub by (auto simp: place_eq)
    then have "ms_id q \<in> ms_id ` {q \<in> set H'. ?gone q}" by (rule imageI)
    then show ?thesis using q(2) by (simp add: place_eq)
  qed
  then have "ms_id ` set gone \<subseteq> ms_id ` {q \<in> set H'. ?gone q}" by blast
  moreover have "ms_id ` {q \<in> set H'. ?gone q} \<subseteq> ms_id ` set gone" by auto
  ultimately have "ms_id ` {q \<in> set H'. ?gone q} = ms_id ` set gone" by (rule subset_antisym [rotated])
  then show ?thesis by simp
qed

text \<open>The cleanup for an owner, with the messages it takes away.\<close>

lemma cleanup_removes:
  assumes ok: "history_ok db" and owner: "load_owned_room room user db = Inr r"
  obtains kept gone where "active_path room db = kept @ gone" "\<forall>m \<in> set gone. ms_sender m = ''user''"
    "gone = [] \<longleftrightarrow> (active_path room db \<noteq> [] \<longrightarrow> ms_sender (last (active_path room db)) \<noteq> ''user'')"
    "answer_closed (ch_history db) (ms_id ` set gone)"
    "delete_unanswered_user_messages room user db =
       (Inr (gone \<noteq> []),
        if gone = [] then db
        else on_history (filter (\<lambda>m. ms_id m \<notin> ms_id ` set gone)) (unchoose room (ms_parent_id (hd gone)) db))"
proof -
  let ?path = "active_path room db" and ?nodes = "room_nodes room db"
  obtain kept gone where path: "?path = kept @ gone" "trailing_unanswered_user_ids ?nodes ?path = map ms_id gone"
    "\<forall>m \<in> set gone. ms_sender m = ''user'' \<and> set (children_by_parent ?nodes (Some (ms_id m))) \<subseteq> ms_id ` set gone"
    using unanswered_suffix [OF on_path_in_room(2) [OF ok]] by blast
  have sub: "set gone \<subseteq> set ?nodes" using on_path_in_room(1) [OF ok, of room] path(1) by auto
  then have closed: "answer_closed (ch_history db) (ms_id ` set gone)" using suffix_closed [OF ok] path(3) by blast
  have last: "gone = [] \<longleftrightarrow> (?path \<noteq> [] \<longrightarrow> ms_sender (last ?path) \<noteq> ''user'')"
    using unanswered_none [of ?path ?nodes] path_leaf [OF ok] path(2) by simp
  let ?db = "unchoose room (ms_parent_id (hd gone)) db"
  let ?gone = "\<lambda>m. ms_chat_room_id m = room \<and> ms_id m \<in> set (map ms_id gone)"
  have places: "place ` set (ch_history ?db) = place ` set (ch_history db)"
    by (metis unchoose_places list.set_map)
  have hits: "set (map ms_id (filter ?gone (ch_history ?db))) = ms_id ` set gone"
    using removed_rows [OF places, of gone room] sub by (simp add: set_room_nodes)
  have "delete_unanswered_user_messages room user db =
       (Inr (gone \<noteq> []), if gone = [] then db else on_history (filter (\<lambda>m. ms_id m \<notin> ms_id ` set gone)) ?db)"
  proof (cases "gone = []")
    case False
    then have "hd gone \<in> set ?nodes" using sub by auto
    then have "node_of ?nodes (hd (map ms_id gone)) = Some (hd gone)"
      using node_of_member [OF tree_ok_distinct [OF room_tree_ok [OF ok]]] False by (simp add: hd_map)
    moreover have "0 < row_count ?gone (ch_history ?db)"
    proof -
      have "set (map ms_id (filter ?gone (ch_history ?db))) \<noteq> {}" unfolding hits using False by simp
      then have "filter ?gone (ch_history ?db) \<noteq> []" by (metis list.simps(8) set_empty)
      then show ?thesis unfolding row_count_def by (metis length_greater_0_conv of_nat_0_less_iff)
    qed
    moreover have "answer_closed (ch_history ?db) (set (map ms_id (filter ?gone (ch_history ?db))))"
      using closed unfolding answer_closed_places places hits .
    moreover from this have "delete_messages (map ms_id (filter ?gone (ch_history ?db))) (ch_history ?db) =
        filter (\<lambda>m. ms_id m \<notin> ms_id ` set gone) (ch_history ?db)"
      by (simp only: delete_messages_closed hits)
    ultimately show ?thesis
      using False by (simp add: delete_unanswered_eq [OF owner path(2)] Let_def)
  qed (simp add: delete_unanswered_eq [OF owner path(2)])
  with path closed last show ?thesis using that by blast
qed

lemma delete_unanswered_keeps:
  assumes ok: "history_ok db"
  shows "history_ok (snd (delete_unanswered_user_messages room user db))"
proof (cases "load_owned_room room user db")
  case (Inr r)
  then show ?thesis
  proof (rule cleanup_removes [OF ok])
    fix kept gone
    assume "answer_closed (ch_history db) (ms_id ` set gone)" and deleted:
      "delete_unanswered_user_messages room user db =
       (Inr (gone \<noteq> []),
        if gone = [] then db
        else on_history (filter (\<lambda>m. ms_id m \<notin> ms_id ` set gone)) (unchoose room (ms_parent_id (hd gone)) db))"
    then have "answer_closed (ch_history (unchoose room (ms_parent_id (hd gone)) db)) (ms_id ` set gone)"
      unfolding answer_closed_places by (metis (no_types, lifting) unchoose_places list.set_map)
    then show ?thesis
      using deleted ok history_ok_without [OF unchoose_keeps [OF ok]] by simp
  qed
qed (use ok in \<open>simp add: delete_unanswered_user_messages_def\<close>)

section \<open>The repository as a system\<close>

text \<open>
  Each unit of work as an operation; it runs in a transaction, so an exception leaves the state as it was.
  \<open>Share\<close> draws its tokens from the generator it is given.
\<close>

datatype chat_op =
    Create_Room ticks string int string string
  | Set_Pinned ticks string int bool
  | Delete_Room string int
  | Delete_Rooms "string list" int
  | Rename_Room string string
  | Rename_If string string "string list"
  | Save_Message ticks string string string "int option" message_input
  | Store_Turn ticks string string string message_input
  | Copy_Messages ticks string "copied_message option list"
  | Switch_Branch string int
  | Delete_Unanswered string int
  | Share ticks string int "ticks option" bool "nat \<Rightarrow> string"
  | Revoke_Share ticks string int

fun chat_step :: "message_codec \<Rightarrow> chat_op \<Rightarrow> chat_db \<Rightarrow> chat_db" where
  "chat_step codec (Create_Room now room user title mode) db = snd (transaction (create_room now room user title mode) db)"
| "chat_step codec (Set_Pinned now room user pinned) db = snd (transaction (set_room_pinned now room user pinned) db)"
| "chat_step codec (Delete_Room room user) db = snd (transaction (delete_room_for_user room user) db)"
| "chat_step codec (Delete_Rooms rooms user) db = snd (transaction (delete_rooms_for_user rooms user) db)"
| "chat_step codec (Rename_Room room title) db = snd (transaction (rename_room room title) db)"
| "chat_step codec (Rename_If room title titles) db =
     snd (transaction (rename_room_if_current_title_in room title titles) db)"
| "chat_step codec (Save_Message now room msg sender parent_id inp) db =
     snd (transaction (save_message codec now room msg sender parent_id inp) db)"
| "chat_step codec (Store_Turn now room msg sender inp) db =
     snd (transaction (store_user_message_and_load_turn_context codec now room msg sender inp) db)"
| "chat_step codec (Copy_Messages now room messages) db =
     snd (transaction (copy_messages_into_room codec now room messages) db)"
| "chat_step codec (Switch_Branch room target) db = snd (transaction (switch_branch codec room target) db)"
| "chat_step codec (Delete_Unanswered room user) db = snd (transaction (delete_unanswered_user_messages room user) db)"
| "chat_step codec (Share now room user expires_at force tokens) db =
     snd (transaction (create_or_get_shared_chat_token now room user expires_at force tokens) db)"
| "chat_step codec (Revoke_Share now room user) db = snd (transaction (revoke_shared_chat_token now room user) db)"

definition empty_chat_db :: chat_db where
  "empty_chat_db = \<lparr>ch_rooms = [], ch_history = [], ch_shares = [], ch_next_message_id = 1\<rparr>"

definition chat_run :: "message_codec \<Rightarrow> chat_op list \<Rightarrow> chat_db \<Rightarrow> chat_db" where
  "chat_run codec ops db = fold (chat_step codec) ops db"

lemma transaction_snd: "snd (transaction m s) = s \<or> snd (transaction m s) = snd (m s)"
  by (cases rule: transaction_cases [of m s]) auto

lemma transaction_keeps: "P s \<Longrightarrow> P (snd (m s)) \<Longrightarrow> P (snd (transaction m s))"
  using transaction_snd [of m s] by auto

lemma load_owned_room_Inr:
  "load_owned_room room user db = Inr r \<Longrightarrow> r \<in> set (ch_rooms db) \<and> rm_id r = room \<and> rm_user_id r = user"
  using find_room_Some by (auto simp: load_owned_room_def split: option.splits if_splits)

lemma mint_share_shares:
  "\<exists>shares. snd (mint_share_token now room user expires_at tokens db) = db\<lparr>ch_shares := shares\<rparr>"
proof (induction tokens)
  case Nil
  show ?case by (simp add: exI [of _ "ch_shares db"])
next
  case (Cons t tokens)
  have "\<exists>shares. db = db\<lparr>ch_shares := shares\<rparr>" by (simp add: exI [of _ "ch_shares db"])
  with Cons show ?case by (auto simp: Let_def split: option.splits sum.splits)
qed

lemma history_ok_rooms_fields:
  "history_ok db \<Longrightarrow> history_ok (snd (set_room_pinned now room user pinned db))"
  "history_ok db \<Longrightarrow> history_ok (snd (rename_room room title db))"
  "history_ok db \<Longrightarrow> history_ok (snd (rename_room_if_current_title_in room title titles db))"
  by (auto simp: set_room_pinned_def rename_room_def rename_room_if_current_title_in_def Let_def
      intro: update_rooms_keeps split: sum.splits)

lemma share_keeps_history:
  "history_ok db \<Longrightarrow> history_ok (snd (create_or_get_shared_chat_token now room user expires_at force tokens db))"
  "history_ok db \<Longrightarrow> history_ok (snd (revoke_shared_chat_token now room user db))"
proof -
  obtain shares where minted: "snd (mint_share_token now room user expires_at (map tokens [0..<5]) db) = db\<lparr>ch_shares := shares\<rparr>"
    using mint_share_shares by blast
  show "history_ok db \<Longrightarrow> history_ok (snd (create_or_get_shared_chat_token now room user expires_at force tokens db))"
    by (cases "load_owned_room room user db"; cases "load_share_row room db"; cases force)
      (simp_all add: create_or_get_shared_chat_token_def snd_case_result minted)
  show "history_ok db \<Longrightarrow> history_ok (snd (revoke_shared_chat_token now room user db))"
    by (simp add: revoke_shared_chat_token_def Let_def split: sum.splits)
qed

lemma history_ok_delete_rooms:
  "history_ok db \<Longrightarrow> history_ok (snd (delete_room_for_user room user db))"
  "history_ok db \<Longrightarrow> history_ok (snd (delete_rooms_for_user rooms user db))"
  by (auto simp: delete_room_for_user_def delete_rooms_for_user_def Let_def delete_rooms_keeps split: sum.splits)

lemma copy_messages_keeps: "history_ok db \<Longrightarrow> history_ok (snd (copy_messages_into_room codec now room messages db))"
  unfolding copy_messages_into_room_def by (rule copy_from_keeps)

lemmas unit_keeps = create_room_keeps history_ok_rooms_fields history_ok_delete_rooms save_message_keeps
  store_turn_keeps copy_messages_keeps switch_branch_keeps delete_unanswered_keeps share_keeps_history

lemma history_ok_step: "history_ok db \<Longrightarrow> history_ok (chat_step codec op db)"
  by (cases op) (auto intro!: transaction_keeps [of history_ok] unit_keeps)

lemma history_ok_run: "history_ok db \<Longrightarrow> history_ok (chat_run codec ops db)"
  by (induction ops arbitrary: db) (simp_all add: chat_run_def history_ok_step)

lemma history_ok_empty [simp]: "history_ok empty_chat_db"
  by (simp add: history_ok_def empty_chat_db_def)

end
