(* ===== verification/Chat_Branches.thy ===== *)
theory Chat_Branches
  imports Chat_Safety
begin

text \<open>
  The properties of the chat history that follow from its invariant: the active path of every reachable
  state, a new turn, switching between versions and back, the pages of the history and of the sidebar, the
  removal of unanswered messages.
\<close>

section \<open>The active path\<close>

text \<open>
  C10: In every state that the repository's units of work can produce, the active path of a room is a
  conversation of that room: it is empty only when the room has no message, starts at a message without
  parent, each further message answers the one before it, ids increase along it, and it ends at a message
  that has no answer.
\<close>

theorem active_path_sound:
  "let db = chat_run codec ops empty_chat_db; path = active_path room db;
       messages = {m \<in> set (ch_history db). ms_chat_room_id m = room}
   in set path \<subseteq> messages \<and> (path = [] \<longleftrightarrow> messages = {}) \<and>
      (path = [] \<or>
         ms_parent_id (hd path) = None \<and>
         successively (\<lambda>a b. ms_parent_id b = Some (ms_id a)) path \<and>
         sorted_wrt (<) (map ms_id path) \<and>
         {m \<in> messages. ms_parent_id m = Some (ms_id (last path))} = {})"
proof -
  let ?db = "chat_run codec ops empty_chat_db"
  let ?path = "active_path room ?db"
  have ok: "history_ok ?db" by (rule history_ok_run) simp
  have "{m \<in> set (room_nodes room ?db). ms_parent_id m = Some (ms_id (last ?path))} = {}"
    "ms_parent_id (hd ?path) = None" if "?path \<noteq> []"
  proof -
    show "ms_parent_id (hd ?path) = None"
      using active_path_root [OF ok, of room "hd ?path" "tl ?path"] that by simp
    have "set (children_by_parent (room_nodes room ?db) (Some (ms_id (last ?path)))) = {}"
      using path_leaf [OF ok that] by simp
    then show "{m \<in> set (room_nodes room ?db). ms_parent_id m = Some (ms_id (last ?path))} = {}"
      unfolding set_children by blast
  qed
  moreover have "?path = [] \<longleftrightarrow> set (room_nodes room ?db) = {}"
    using active_path_empty [OF ok, of room] by simp
  ultimately show ?thesis
    using on_path_in_room [OF ok, of room] unfolding Let_def set_room_nodes [symmetric] by blast
qed

section \<open>Updates and the paths of rooms\<close>

lemma find_room_update:
  assumes "\<And>r. rm_id (g r) = rm_id r"
  shows "find_room room' (on_rooms (update_where P g) db) =
    map_option (\<lambda>r. if P r then g r else r) (find_room room' db)"
  using row_of_update [of rm_id g room' P "ch_rooms db", OF assms]
  by (simp add: find_room_def row_of_def select_one_def)

lemma room_root_update:
  assumes "ch_rooms db' = update_where (\<lambda>r. rm_id r = room) g (ch_rooms db)" "\<And>r. rm_id (g r) = rm_id r"
  shows "room_root room' db' =
    (if room' = room then Option.bind (find_room room db) (\<lambda>r. rm_active_root_id (g r)) else room_root room' db)"
proof -
  have "find_room room' db' = map_option (\<lambda>r. if rm_id r = room then g r else r) (find_room room' db)"
    using find_room_update [of g room' "\<lambda>r. rm_id r = room" db, OF assms(2)] assms(1) by (simp add: find_room_def)
  then show ?thesis
    by (cases "find_room room' db") (auto simp: room_root_row dest: find_room_Some)
qed

lemma room_nodes_rooms [simp]:
  "room_nodes room (db\<lparr>ch_rooms := rooms\<rparr>) = room_nodes room db"
  "room_root room (db\<lparr>ch_history := rows\<rparr>) = room_root room db"
  "room_root room (db\<lparr>ch_next_message_id := n\<rparr>) = room_root room db"
  "room_nodes room (db\<lparr>ch_next_message_id := n\<rparr>) = room_nodes room db"
  by (simp_all add: load_room_tree_def)

lemma room_nodes_history:
  "filter (\<lambda>m. ms_chat_room_id m = room) rows = filter (\<lambda>m. ms_chat_room_id m = room) (ch_history db) \<Longrightarrow>
   room_nodes room (db\<lparr>ch_history := rows\<rparr>) = room_nodes room db"
  by (simp add: load_room_tree_def select_where_def)

lemma filter_update_other:
  "(\<And>m. ms_chat_room_id (f m) = ms_chat_room_id m) \<Longrightarrow> (\<And>m. P m \<Longrightarrow> ms_chat_room_id m \<noteq> room) \<Longrightarrow>
   filter (\<lambda>m. ms_chat_room_id m = room) (update_where P f rows) = filter (\<lambda>m. ms_chat_room_id m = room) rows"
  by (induction rows) (auto simp: update_where_def)

text \<open>The message shown, whatever child is chosen below it.\<close>

abbreviation unchosen :: "message_row \<Rightarrow> message_row" where
  "unchosen m \<equiv> m\<lparr>ms_active_child_id := None\<rparr>"

lemma read_unchosen [simp]:
  "path_to_llm_messages codec (map unchosen path) = path_to_llm_messages codec path"
  "path_to_web_search_contexts (map unchosen path) = path_to_web_search_contexts path"
  "serialize_path_node codec full nodes (unchosen m) = serialize_path_node codec full nodes m"
  by (simp_all add: path_to_llm_messages_def path_to_web_search_contexts_def serialize_path_node_def comp_def)

section \<open>A new turn\<close>

definition point_to :: "int \<Rightarrow> int \<Rightarrow> message_row \<Rightarrow> message_row" where
  "point_to p c q = (if ms_id q = p then q\<lparr>ms_active_child_id := Some c\<rparr> else q)"

lemma point_to_simps [simp]:
  "ms_id (point_to p c q) = ms_id q" "ms_parent_id (point_to p c q) = ms_parent_id q"
  "ms_chat_room_id (point_to p c q) = ms_chat_room_id q" "unchosen (point_to p c q) = unchosen q"
  by (simp_all add: point_to_def)

text \<open>\<open>nodes'\<close> is \<open>nodes\<close> with the new answer \<open>m\<close> to the message \<open>p\<close>.\<close>

definition appended :: "message_row list \<Rightarrow> message_row list \<Rightarrow> message_row \<Rightarrow> int \<Rightarrow> bool" where
  "appended nodes nodes' m p \<longleftrightarrow> tree_ok nodes \<and> tree_ok nodes' \<and>
     set nodes' = insert m (point_to p (ms_id m) ` set nodes) \<and>
     (\<forall>q \<in> set nodes. ms_id q < ms_id m \<and> (\<forall>c. ms_active_child_id q = Some c \<longrightarrow> c < ms_id m)) \<and>
     ms_parent_id m = Some p \<and> ms_active_child_id m = None"

lemma appendedD:
  assumes "appended nodes nodes' m p"
  shows "tree_ok nodes" "tree_ok nodes'" "set nodes' = insert m (point_to p (ms_id m) ` set nodes)"
    "q \<in> set nodes \<Longrightarrow> ms_id q < ms_id m" "q \<in> set nodes \<Longrightarrow> ms_active_child_id q = Some c \<Longrightarrow> c < ms_id m"
    "ms_parent_id m = Some p" "ms_active_child_id m = None"
  using assms by (auto simp: appended_def)

lemma children_appended:
  assumes app: "appended nodes nodes' m p" and "c \<noteq> Some p"
  shows "children_by_parent nodes' c = children_by_parent nodes c"
proof -
  have "{q \<in> set nodes'. ms_parent_id q = c} = point_to p (ms_id m) ` {q \<in> set nodes. ms_parent_id q = c}"
    using assms(2) appendedD(6) [OF app] unfolding appendedD(3) [OF app] by auto
  then show ?thesis
    by (simp add: children_set tree_ok_distinct appendedD(1,2) [OF app] image_image)
qed

lemma node_of_appended:
  assumes app: "appended nodes nodes' m p"
  shows "node_of nodes' c = None \<longleftrightarrow> node_of nodes c = None \<and> c \<noteq> ms_id m"
  by (auto simp: node_of_None appendedD(3) [OF app] image_image)

lemma next_id_appended:
  assumes app: "appended nodes nodes' m p" and q: "q \<in> set nodes" "ms_id q \<noteq> p"
  shows "next_id nodes' q = next_id nodes q"
  using q(2) appendedD(5) [OF app q(1)]
  by (auto simp: next_id_def children_appended [OF app] node_of_appended [OF app] split: option.splits)

lemma next_id_new:
  assumes app: "appended nodes nodes' m p"
  shows "next_id nodes' m = None" "ms_id q = p \<Longrightarrow> next_id nodes' (point_to p (ms_id m) q) = Some (ms_id m)"
proof -
  have "ms_parent_id q \<noteq> Some (ms_id m)" if "q \<in> set nodes'" for q
  proof
    assume "ms_parent_id q = Some (ms_id m)"
    then have "ms_id m < ms_id q" using tree_ok_younger [OF appendedD(2) [OF app] that] by simp
    moreover have "ms_id q \<le> ms_id m"
      using that appendedD(4) [OF app] by (auto simp: appendedD(3) [OF app] order_le_less)
    ultimately show False by simp
  qed
  then have "set (children_by_parent nodes' (Some (ms_id m))) = {}" by (auto simp: set_children)
  then show "next_id nodes' m = None" by (simp add: next_id_None appendedD(7) [OF app])
  show "ms_id q = p \<Longrightarrow> next_id nodes' (point_to p (ms_id m) q) = Some (ms_id m)"
    using node_of_appended [OF app, of "ms_id m"] by (simp add: next_id_def point_to_def)
qed

lemma walk_appended:
  assumes app: "appended nodes nodes' m p" and r: "\<And>c. r = Some c \<Longrightarrow> c < ms_id m"
    and path: "walk_active_path nodes r = path" "path \<noteq> []" "ms_id (last path) = p"
  shows "walk_active_path nodes' r = map (point_to p (ms_id m)) path @ [m]"
proof -
  let ?f = "point_to p (ms_id m)"
  note tree = appendedD(1) [OF app]
  have chosen: "chosen nodes path" using walk_chosen [OF tree, of r] path(1) by simp
  then have sub: "set path \<subseteq> set nodes" by (simp add: chosen_def)
  have tip: "q = last path" if "q \<in> set path" "ms_id q = p" for q
    using same_key_row [OF tree_ok_distinct [OF tree], of q "last path"] sub last_in_set [OF path(2)] path(3) that
    by auto
  have "successively (\<lambda>a b. next_id nodes' (?f a) = Some (ms_id (?f b))) path"
  proof (rule successively_mono)
    show "successively (\<lambda>a b. next_id nodes a = Some (ms_id b)) path" using chosen by (simp add: chosen_def)
    fix a b
    assume a: "a \<in> set path" "b \<in> set path" "next_id nodes a = Some (ms_id b)"
    then have "ms_id a \<noteq> p" using tip [of a] chosen path(2) by (auto simp: chosen_def)
    then have "?f a = a" by (simp add: point_to_def)
    then show "next_id nodes' (?f a) = Some (ms_id (?f b))"
      using next_id_appended [OF app _ \<open>ms_id a \<noteq> p\<close>] a chosen by (auto simp: chosen_def)
  qed
  then have "chosen nodes' (map ?f path @ [m])"
    using chosen path(2,3) next_id_new [OF app]
    by (auto simp: chosen_def successively_append_iff successively_map last_map appendedD(3) [OF app])
  moreover have "first_id nodes' r = first_id nodes r"
    using r by (auto simp: first_id_def children_appended [OF app] node_of_appended [OF app] split: option.splits)
  then have "first_id nodes' r = Some (ms_id (?f (hd path)))"
    using walk_first [OF tree, of r "hd path" "tl path"] path by simp
  moreover have "map ?f path @ [m] = ?f (hd path) # (map ?f (tl path) @ [m])" using path(2) by (cases path) auto
  ultimately show ?thesis using walk_unique [OF appendedD(2) [OF app]] by metis
qed

lemma insert_message_Inr:
  assumes "insert_message codec now room msg sender parent_id inp db = (Inr m, db')"
  shows "ms_id m = ch_next_message_id db" "ms_chat_room_id m = room" "ms_parent_id m = parent_id"
    "ms_active_child_id m = None" "ms_message m = msg" "ms_sender m = sender"
    "db' = (let stored = db\<lparr>ch_history := ch_history db @ [m], ch_next_message_id := ch_next_message_id db + 1\<rparr>
          in case parent_id of
               None \<Rightarrow> on_rooms (update_where (\<lambda>r. rm_id r = room)
                         (\<lambda>r. r\<lparr>rm_last_activity_at := now, rm_active_root_id := Some (ms_id m)\<rparr>)) stored
             | Some p \<Rightarrow> on_rooms (update_where (\<lambda>r. rm_id r = room) (\<lambda>r. r\<lparr>rm_last_activity_at := now\<rparr>))
                  (on_history (update_where (\<lambda>m. ms_id m = p \<and> ms_chat_room_id m = room)
                     (\<lambda>q. q\<lparr>ms_active_child_id := Some (ms_id m)\<rparr>)) stored))"
    "case parent_id of None \<Rightarrow> find_room room db \<noteq> None
     | Some p \<Rightarrow> \<exists>q \<in> set (ch_history db). ms_id q = p \<and> ms_chat_room_id q = room"
  using assms by (cases rule: insert_message_cases [of codec now room msg sender parent_id inp db]; simp)+

lemma insert_other_room:
  assumes "insert_message codec now room msg sender parent_id inp db = (Inr m, db')" and "room' \<noteq> room"
  shows "active_path room' db' = active_path room' db"
proof -
  note stored = insert_message_Inr [OF assms(1)]
  have "filter (\<lambda>q. ms_chat_room_id q = room') (update_where (\<lambda>q. ms_id q = p \<and> ms_chat_room_id q = room)
          (\<lambda>q. q\<lparr>ms_active_child_id := Some (ms_id m)\<rparr>) (ch_history db @ [m])) =
        filter (\<lambda>q. ms_chat_room_id q = room') (ch_history db @ [m])" for p
    using assms(2) by (intro filter_update_other) auto
  then have "room_nodes room' db' = room_nodes room' db"
    using assms(2) stored(2) by (auto simp: stored(7) Let_def load_room_tree_def select_where_def split: option.splits)
  moreover have "room_root room' db' = room_root room' db"
  proof (cases parent_id)
    case None
    then show ?thesis
      using assms(2) stored(7) room_root_update [of db' room "\<lambda>r. r\<lparr>rm_last_activity_at := now, rm_active_root_id := Some (ms_id m)\<rparr>" db room']
      by (simp add: Let_def)
  next
    case (Some p)
    then show ?thesis
      using assms(2) stored(7) room_root_update [of db' room "\<lambda>r. r\<lparr>rm_last_activity_at := now\<rparr>" db room']
      by (simp add: Let_def)
  qed
  ultimately show ?thesis by (simp add: active_path_walk)
qed

lemma insert_first_path:
  assumes ok: "history_ok db" and "room_nodes room db = []"
    and stored: "insert_message codec now room msg sender None inp db = (Inr m, db')"
  shows "active_path room db' = [m]"
proof -
  note m = insert_message_Inr [OF stored]
  have "set (room_nodes room db) = {}" using assms(2) by simp
  then have "filter (\<lambda>m. ms_chat_room_id m = room) (ch_history db) = []"
    unfolding set_room_nodes by (auto simp: filter_empty_conv)
  then have nodes: "room_nodes room db' = [m]"
    using m(2) by (simp add: m(7) Let_def load_room_tree_def select_where_def)
  have "room_root room db' = Some (ms_id m)"
    using m(7,8) room_root_update [of db' room "\<lambda>r. r\<lparr>rm_last_activity_at := now, rm_active_root_id := Some (ms_id m)\<rparr>" db room]
    by (auto simp: Let_def)
  then have "first_id (room_nodes room db') (room_root room db') = Some (ms_id m)"
    by (simp add: nodes first_id_def node_of_def select_one_def)
  moreover have "history_ok db'" using insert_message_keeps [OF ok] stored by (metis snd_conv)
  moreover have "chosen (room_nodes room db') [m]"
    by (simp add: nodes chosen_Cons next_id_def m(3,4) children_by_parent_def)
  ultimately show ?thesis using walk_unique [OF room_tree_ok] by (simp add: active_path_walk)
qed

lemma insert_appended:
  assumes ok: "history_ok db"
    and stored: "insert_message codec now room msg sender (Some p) inp db = (Inr m, db')"
  shows "appended (room_nodes room db) (room_nodes room db') m p" "room_root room db' = room_root room db"
proof -
  note m = insert_message_Inr [OF stored]
  have ok': "history_ok db'" using insert_message_keeps [OF ok] stored by (metis snd_conv)
  have rows: "message_ok (rm_id ` set (ch_rooms db)) (place ` set (ch_history db)) (ms_id m) q"
    if "q \<in> set (room_nodes room db)" for q
    using history_okD(3) [OF ok] that m(1) by (simp add: set_room_nodes)
  obtain q where "q \<in> set (ch_history db)" "ms_id q = p" using m(8) by auto
  then have "p \<noteq> ms_id m" using history_okD(3) [OF ok, of q] m(1) by (simp add: message_ok_def)
  then have "set (room_nodes room db') = insert m (point_to p (ms_id m) ` set (room_nodes room db))"
    using m(2) by (auto simp: m(7) Let_def set_room_nodes update_where_def point_to_def image_iff)
  then show "appended (room_nodes room db) (room_nodes room db') m p"
    using rows room_tree_ok [OF ok] room_tree_ok [OF ok'] m(3,4)
    by (auto simp: appended_def message_ok_def child_ok_iff)
  show "room_root room db' = room_root room db"
    using m(7) room_root_update [of db' room "\<lambda>r. r\<lparr>rm_last_activity_at := now\<rparr>" db room]
    by (simp add: Let_def room_root_row)
qed

text \<open>The path after an answer to its last message, or after the first message of an empty room.\<close>

lemma insert_path:
  assumes ok: "history_ok db"
    and stored: "insert_message codec now room msg sender (map_option ms_id (last_option (active_path room db))) inp db = (Inr m, db')"
  shows "map unchosen (active_path room db') = map unchosen (active_path room db) @ [m]"
proof (cases "active_path room db = []")
  case True
  then have "active_path room db' = [m]"
    using insert_first_path [OF ok] stored active_path_empty [OF ok] by (simp add: last_option_def)
  moreover have "unchosen m = m" using insert_message_Inr(4) [OF stored] by simp
  ultimately show ?thesis using True by simp
next
  case False
  let ?p = "ms_id (last (active_path room db))"
  have m: "insert_message codec now room msg sender (Some ?p) inp db = (Inr m, db')"
    using stored False by (simp add: last_option_def)
  have "c < ms_id m" if "room_root room db = Some c" for c
    using that history_okD(4) [OF ok] insert_message_Inr(1) [OF m]
    by (auto simp: room_root_row root_ok_def Option.bind_eq_Some_conv dest!: find_room_Some)
  then have "active_path room db' = map (point_to ?p (ms_id m)) (active_path room db) @ [m]"
    using walk_appended [OF insert_appended(1) [OF ok m], of "room_root room db"] insert_appended(2) [OF ok m] False
    by (simp add: active_path_walk)
  moreover have "unchosen m = m" using insert_message_Inr(4) [OF stored] by simp
  ultimately show ?thesis by (simp add: comp_def)
qed

text \<open>
  C11: Storing a user's message extends the shown conversation of its room by exactly that message, under the
  last message shown before, and changes no other room's conversation.  The context it returns for the model,
  computed from the tree as it was before, is what reading the conversation back from the database gives.
\<close>

theorem new_turn_reads_back:
  assumes "history_ok db"
    and "store_user_message_and_load_turn_context codec now room msg sender inp db = (Inr ctx, db')"
  shows "tc_messages ctx = get_room_messages_for_llm codec room db' \<and>
         tc_web_search_contexts ctx = get_active_path_web_search_contexts room db' \<and>
         get_active_leaf_id room db' = Some (tc_message_id ctx) \<and>
         tc_parent_message_id ctx = get_active_leaf_id room db \<and>
         (\<exists>m. map unchosen (active_path room db') = map unchosen (active_path room db) @ [m] \<and>
              ms_id m = tc_message_id ctx \<and> ms_message m = msg \<and> ms_sender m = sender) \<and>
         (\<forall>room'. room' = room \<or> active_path room' db' = active_path room' db)"
proof -
  let ?parent = "map_option ms_id (last_option (active_path room db))"
  let ?inp = "inp\<lparr>mi_web_search_context := []\<rparr>"
  obtain m where m: "insert_message codec now room msg sender ?parent ?inp db = (Inr m, db')"
    and ctx: "ctx = \<lparr>tc_message_id = ms_id m, tc_parent_message_id = ?parent, tc_is_first_turn = (?parent = None),
                   tc_messages = path_to_llm_messages codec (active_path room db @ [m]),
                   tc_web_search_contexts = path_to_web_search_contexts (active_path room db @ [m])\<rparr>"
    using assms(2) unfolding store_user_message_and_load_turn_context_def Let_def
    by (cases "insert_message codec now room msg sender ?parent ?inp db";
        cases "fst (insert_message codec now room msg sender ?parent ?inp db)") auto
  note path = insert_path [OF assms(1) m] and new = insert_message_Inr [OF m]
  have "unchosen m = m" using new(4) by simp
  then have same: "map unchosen (active_path room db') = map unchosen (active_path room db @ [m])" using path by simp
  have "path_to_llm_messages codec (active_path room db') = path_to_llm_messages codec (active_path room db @ [m])"
    using same read_unchosen(1) by metis
  moreover have "path_to_web_search_contexts (active_path room db') = path_to_web_search_contexts (active_path room db @ [m])"
    using same read_unchosen(2) by metis
  moreover have "map ms_id (active_path room db') = map ms_id (active_path room db @ [m])"
    using arg_cong [OF same, of "map ms_id"] by (simp add: comp_def)
  then have "active_path room db' \<noteq> [] \<and> ms_id (last (active_path room db')) = ms_id m"
    by (metis last_map last_snoc map_is_Nil_conv snoc_eq_iff_butlast)
  ultimately show ?thesis
    using path new(5,6) insert_other_room [OF m]
    by (auto simp: ctx get_room_messages_for_llm_def get_active_path_web_search_contexts_def get_active_leaf_id_def
        last_option_def)
qed

section \<open>Switching between versions\<close>

lemma room_nodes_set_update:
  assumes "ch_history db' = update_where (\<lambda>m. ms_id m = p \<and> ms_chat_room_id m = room)
             (\<lambda>m. m\<lparr>ms_active_child_id := Some c\<rparr>) (ch_history db)"
  shows "set (room_nodes room db') = point_to p c ` set (room_nodes room db)"
  unfolding set_room_nodes assms by (auto simp: update_where_def point_to_def image_iff)

lemma pointed_same:
  assumes "tree_ok nodes" "tree_ok nodes'" "set nodes' = point_to p c ` set nodes"
  shows "children_by_parent nodes' i = children_by_parent nodes i" "first_id nodes' r = first_id nodes r"
    "ms_id q \<noteq> p \<Longrightarrow> next_id nodes' q = next_id nodes q"
proof -
  note upd = next_id_updated [OF tree_ok_distinct [OF assms(1)] tree_ok_distinct [OF assms(2)] assms(3)
      point_to_simps(1) point_to_simps(2)]
  show "children_by_parent nodes' i = children_by_parent nodes i" by (rule upd(1))
  show "first_id nodes' r = first_id nodes r" by (cases r) (simp_all add: first_id_def upd(1) upd(2))
  show "ms_id q \<noteq> p \<Longrightarrow> next_id nodes' q = next_id nodes q" using upd(3) [of q] by (simp add: point_to_def)
qed

lemma chosen_pointed:
  assumes "tree_ok nodes" "tree_ok nodes'" "set nodes' = point_to p c ` set nodes"
    and "chosen nodes path" "p \<notin> ms_id ` set path"
  shows "chosen nodes' path"
proof -
  have "q \<in> set nodes'" if "q \<in> set path" for q
  proof -
    have "point_to p c q = q" using that assms(5) by (auto simp: point_to_def)
    then show ?thesis using that assms(3,4) by (metis chosen_def image_eqI subsetD)
  qed
  moreover have "next_id nodes' q = next_id nodes q" if "q \<in> set path" for q
    using pointed_same(3) [OF assms(1-3)] that assms(5) by (metis imageI)
  moreover have "successively (\<lambda>a b. next_id nodes' a = Some (ms_id b)) path"
    using assms(4) calculation(2) by (auto simp: chosen_def intro: successively_mono)
  ultimately show ?thesis using assms(4) by (auto simp: chosen_def)
qed

lemma walk_pointed:
  assumes tree: "tree_ok nodes" "tree_ok nodes'" and upd: "set nodes' = point_to (ms_id a) (ms_id t) ` set nodes"
    and path: "walk_active_path nodes r = pre @ a # post" and t: "chosen nodes' (t # rest)"
  shows "walk_active_path nodes' r = map (point_to (ms_id a) (ms_id t)) (pre @ [a]) @ t # rest"
proof -
  let ?f = "point_to (ms_id a) (ms_id t)" and ?xs = "pre @ [a]"
  have chosen: "chosen nodes (?xs @ post)" using walk_chosen [OF tree(1), of r] path by simp
  have sub: "set ?xs \<subseteq> set nodes" using chosen by (simp add: chosen_def)
  have "sorted_wrt (<) (map ms_id (pre @ a # post))" using walk_sound [OF tree(1), of r] path by simp
  then have other: "ms_id q \<noteq> ms_id a" if "q \<in> set pre" for q using that by (fastforce simp: sorted_wrt_append)
  have step: "successively (\<lambda>a b. next_id nodes a = Some (ms_id b)) ?xs"
    using chosen by (auto simp: chosen_def successively_append_iff)
  have "successively (\<lambda>a b. next_id nodes' a = Some (ms_id b)) (map ?f ?xs)"
  proof -
    have eq: "next_id nodes' (?f q) = next_id nodes q" if "q \<in> set pre" for q
      using pointed_same(3) [OF tree upd other [OF that]] other [OF that] by (simp add: point_to_def)
    have "successively (\<lambda>a b. next_id nodes' (?f a) = Some (ms_id b)) pre"
      using step eq by (auto simp: successively_append_iff intro: successively_mono)
    then show ?thesis
      using step eq [of "last pre"]
      by (cases "pre = []") (auto simp: successively_append_iff successively_map last_map)
  qed
  moreover have "next_id nodes' (?f a) = Some (ms_id t)"
  proof -
    have "t \<in> set nodes'" using t by (simp add: chosen_Cons)
    then have "node_of nodes' (ms_id t) \<noteq> None" by (auto simp: node_of_None)
    then show ?thesis by (simp add: next_id_def point_to_def)
  qed
  ultimately have "chosen nodes' (map ?f ?xs @ t # rest)"
    using t sub upd by (auto simp: chosen_def successively_append_iff)
  moreover have "map ?f ?xs @ t # rest = ?f (hd ?xs) # (tl (map ?f ?xs) @ t # rest)" by (cases pre) auto
  moreover have "first_id nodes' r = Some (ms_id (?f (hd ?xs)))"
    using walk_first [OF tree(1), of r "hd ?xs" "tl (?xs @ post)"] path
    by (cases pre) (auto simp: pointed_same(2) [OF tree upd])
  ultimately show ?thesis using walk_unique [OF tree(2)] by metis
qed

lemma choose_version_nodes:
  "ms_parent_id t = Some p \<Longrightarrow>
   set (room_nodes room (choose_version room t db)) = point_to p (ms_id t) ` set (room_nodes room db) \<and>
   room_root room (choose_version room t db) = room_root room db"
  by (simp add: choose_version_def room_nodes_set_update)

lemma choose_version_root:
  assumes "ms_parent_id t = None" "find_room room db \<noteq> None"
  shows "room_nodes room (choose_version room t db) = room_nodes room db"
    "room_root room (choose_version room t db) = Some (ms_id t)"
  using assms room_root_update [of "choose_version room t db" room "\<lambda>r. r\<lparr>rm_active_root_id := Some (ms_id t)\<rparr>" db room]
  by (auto simp: choose_version_def)

text \<open>The path after a version of a message of the path was chosen.\<close>

lemma point_to_again [simp]: "point_to p c (point_to p d q) = point_to p c q"
  by (simp add: point_to_def)

lemma pointed_shown:
  assumes ok: "history_ok db" and ok': "history_ok db'"
    and upd: "set (room_nodes room db') = point_to (ms_id a) (ms_id t) ` set (room_nodes room db)"
    and root: "room_root room db' = room_root room db"
    and path: "active_path room db = pre @ a # post" and t: "chosen (room_nodes room db') (t # rest)"
  shows "get_active_path codec room full db' =
    map (serialize_path_node codec full (room_nodes room db)) (pre @ a # t # rest)"
proof -
  note tree = room_tree_ok [OF ok, of room] and tree' = room_tree_ok [OF ok', of room]
  have "active_path room db' = map (point_to (ms_id a) (ms_id t)) (pre @ [a]) @ t # rest"
    using walk_pointed [OF tree tree' upd _ t] path root by (simp add: active_path_walk)
  moreover have "serialize_path_node codec full (room_nodes room db') (point_to p c q) =
      serialize_path_node codec full (room_nodes room db) q"
    "serialize_path_node codec full (room_nodes room db') q = serialize_path_node codec full (room_nodes room db) q" for p c q
    by (simp_all add: serialize_path_node_def Let_def point_to_def pointed_same(1) [OF tree tree' upd])
  ultimately show ?thesis by (simp add: get_active_path_def)
qed

lemma path_split_sorted:
  assumes "history_ok db" "active_path room db = pre @ a # post"
  shows "ms_id a \<notin> ms_id ` set post" "chosen (room_nodes room db) post"
    "q \<in> set pre \<Longrightarrow> ms_id q < ms_id a" "a \<in> set (room_nodes room db)"
proof -
  have sorted: "sorted_wrt (<) (map ms_id (pre @ a # post))" using on_path_in_room(3) [OF assms(1), of room] assms(2) by simp
  then show "ms_id a \<notin> ms_id ` set post" by (fastforce simp: sorted_wrt_append)
  show "q \<in> set pre \<Longrightarrow> ms_id q < ms_id a" using sorted by (simp add: sorted_wrt_append)
  have "chosen (room_nodes room db) (pre @ a # post)"
    using walk_chosen [OF room_tree_ok [OF assms(1)], of room "room_root room db"] assms(2) by (simp add: active_path_walk)
  then show "chosen (room_nodes room db) post" "a \<in> set (room_nodes room db)"
    by (induction pre) (simp_all add: chosen_Cons)
qed

lemma start_chosen:
  assumes "tree_ok nodes" "t \<in> set nodes"
  shows "\<exists>rest. chosen nodes (t # rest)"
  using walk_from_chosen [OF assms(1) node_of_member [OF tree_ok_distinct [OF assms(1)] assms(2)], of "[]"] by auto

text \<open>Choosing the version \<open>t\<close> below the message \<open>a\<close> of the path, and then its version \<open>u\<close> again.\<close>

lemma switch_answers:
  assumes ok: "history_ok db" and path: "active_path room db = pre @ a # u # us"
    and t: "t \<in> set (room_nodes room db)" "ms_parent_id t = Some (ms_id a)"
    and u: "ms_parent_id u = Some (ms_id a)"
  shows "\<exists>rest. get_active_path codec room full (choose_version room t db) =
           map (serialize_path_node codec full (room_nodes room db)) (pre @ a # t # rest)"
    and "get_active_path codec room full (choose_version room u (choose_version room t db)) =
           get_active_path codec room full db"
proof -
  let ?db' = "choose_version room t db"
  let ?db'' = "choose_version room u ?db'"
  have ok': "history_ok ?db'" using choose_version_keeps [OF ok t(1)] .
  note nodes' = choose_version_nodes [OF t(2), of room db]
  have younger: "ms_id a < ms_id t" using tree_ok_younger [OF room_tree_ok [OF ok] t] .
  then have "point_to (ms_id a) (ms_id t) t = t" by (simp add: point_to_def)
  then have "t \<in> set (room_nodes room ?db')" using nodes' t(1) by (metis image_eqI)
  then obtain rest where "chosen (room_nodes room ?db') (t # rest)"
    using start_chosen [OF room_tree_ok [OF ok']] by blast
  then show "\<exists>rest. get_active_path codec room full ?db' =
      map (serialize_path_node codec full (room_nodes room db)) (pre @ a # t # rest)"
    using pointed_shown [OF ok ok' _ _ path] nodes' by blast
  have u_in: "u \<in> set (room_nodes room db)" using path_split_sorted(2) [OF ok path] by (simp add: chosen_Cons)
  have a_u: "ms_id a \<noteq> ms_id u" using tree_ok_younger [OF room_tree_ok [OF ok] u_in u] by simp
  then have "point_to (ms_id a) (ms_id t) u = u" by (simp add: point_to_def)
  then have "u \<in> set (room_nodes room ?db')" using nodes' u_in by (metis image_eqI)
  then have ok'': "history_ok ?db''" using choose_version_keeps [OF ok'] by blast
  have nodes'': "set (room_nodes room ?db'') = point_to (ms_id a) (ms_id u) ` set (room_nodes room db)"
    "room_root room ?db'' = room_root room db"
    using choose_version_nodes [OF u, of room ?db'] nodes' by (simp_all add: image_image)
  have "chosen (room_nodes room ?db'') (u # us)"
    using chosen_pointed [OF room_tree_ok [OF ok] room_tree_ok [OF ok''] nodes''(1)] path_split_sorted(1,2) [OF ok path] by blast
  from pointed_shown [OF ok ok'' nodes'' path this]
  show "get_active_path codec room full ?db'' = get_active_path codec room full db"
    by (simp add: get_active_path_def path)
qed

text \<open>The same for the first message of the path.\<close>

lemma switch_roots:
  assumes ok: "history_ok db" and path: "active_path room db = u # us"
    and t: "t \<in> set (room_nodes room db)" "ms_parent_id t = None"
  shows "\<exists>rest. get_active_path codec room full (choose_version room t db) =
           map (serialize_path_node codec full (room_nodes room db)) (t # rest)"
    and "get_active_path codec room full (choose_version room u (choose_version room t db)) =
           get_active_path codec room full db"
proof -
  let ?db' = "choose_version room t db"
  have u: "ms_parent_id u = None" "chosen (room_nodes room db) (u # us)"
    using active_path_root [OF ok path] walk_chosen [OF room_tree_ok [OF ok], of room "room_root room db"] path
    by (simp_all add: active_path_walk)
  have room: "find_room room db \<noteq> None"
    using history_okD(3) [OF ok, of t] t(1) by (simp add: find_room_None message_ok_def set_room_nodes)
  note nodes' = choose_version_root [OF t(2) room]
  have room': "find_room room ?db' \<noteq> None"
    using room t(2) by (simp add: choose_version_def find_room_update)
  have shown: "active_path room d = x # xs"
    if "room_nodes room d = room_nodes room db" "room_root room d = Some (ms_id x)" "chosen (room_nodes room db) (x # xs)" for d x xs
  proof -
    have "x \<in> set (room_nodes room db)" using that(3) by (simp add: chosen_Cons)
    then have "first_id (room_nodes room db) (Some (ms_id x)) = Some (ms_id x)"
      by (simp add: first_id_def node_of_member [OF tree_ok_distinct [OF room_tree_ok [OF ok]]])
    then show ?thesis using walk_unique [OF room_tree_ok [OF ok] _ that(3)] that(1,2) by (simp add: active_path_walk)
  qed
  obtain rest where "chosen (room_nodes room db) (t # rest)" using start_chosen [OF room_tree_ok [OF ok] t(1)] by blast
  then show "\<exists>rest. get_active_path codec room full ?db' =
      map (serialize_path_node codec full (room_nodes room db)) (t # rest)"
    using shown [OF nodes'] nodes' by (auto simp: get_active_path_def)
  show "get_active_path codec room full (choose_version room u ?db') = get_active_path codec room full db"
    using shown [of "choose_version room u ?db'" u us] choose_version_root [OF u(1) room'] nodes' u(2) path
    by (simp add: get_active_path_def)
qed

lemma switch_branch_to:
  assumes ok: "history_ok db" and t: "t \<in> set (room_nodes room db)"
  shows "switch_branch codec room (ms_id t) db =
    (Inr (get_active_path codec room False (choose_version room t db)), choose_version room t db)"
proof (cases rule: switch_branch_cases [of codec room "ms_id t" db])
  case (switched t')
  then have "t' = t" using same_key_row [OF tree_ok_distinct [OF room_tree_ok [OF ok]] _ t] by simp
  with switched show ?thesis by simp
qed (use t in auto)

lemma choose_version_cong:
  "ms_id t = ms_id u \<Longrightarrow> ms_parent_id t = ms_parent_id u \<Longrightarrow> choose_version room t db = choose_version room u db"
  by (cases "ms_parent_id u") (simp_all add: choose_version_def)

lemma choose_version_nodes_kept:
  assumes "u \<in> set (room_nodes room db)"
  shows "\<exists>u' \<in> set (room_nodes room (choose_version room t db)). ms_id u' = ms_id u \<and> ms_parent_id u' = ms_parent_id u"
proof (cases "ms_parent_id t")
  case None
  then show ?thesis using assms by (auto simp: choose_version_def)
next
  case (Some p)
  then show ?thesis
    using assms choose_version_nodes [OF Some, of room db] by (metis imageI point_to_simps(1,2))
qed

lemma switch_back:
  assumes ok: "history_ok db" and t: "t \<in> set (room_nodes room db)" and u: "u \<in> set (room_nodes room db)"
  shows "switch_branch codec room (ms_id u) (choose_version room t db) =
    (Inr (get_active_path codec room False (choose_version room u (choose_version room t db))),
     choose_version room u (choose_version room t db))"
proof -
  obtain u' where "u' \<in> set (room_nodes room (choose_version room t db))" "ms_id u' = ms_id u" "ms_parent_id u' = ms_parent_id u"
    using choose_version_nodes_kept [OF u] by blast
  then show ?thesis
    using switch_branch_to [OF choose_version_keeps [OF ok t], of u' room codec] choose_version_cong [of u' u] by simp
qed

lemma serialized_id [simp]: "pe_id (serialize_path_node codec full nodes m) = ms_id m"
  by (simp add: serialize_path_node_def Let_def)

lemma shown_before:
  assumes "\<And>q. q \<in> set pre \<Longrightarrow> ms_id q \<noteq> ms_id m"
  shows "takeWhile (\<lambda>x. pe_id x \<noteq> ms_id m) (map (serialize_path_node codec full nodes) (pre @ m # rest)) =
    map (serialize_path_node codec full nodes) pre"
  using assms by (induction pre) auto

text \<open>
  C12: A message of the conversation shown lists its versions.  Switching to any of them shows the
  conversation unchanged up to that message and the chosen version in its place, and switching back to the
  version that was shown restores exactly the conversation that was shown before.
\<close>

theorem switch_back_restores:
  assumes ok: "history_ok db" and e: "e \<in> set (get_active_path codec room False db)" and i: "i \<in> set (pe_sibling_ids e)"
  shows "\<exists>entries db' db''.
           switch_branch codec room i db = (Inr entries, db') \<and> i \<in> pe_id ` set entries \<and>
           takeWhile (\<lambda>x. pe_id x \<noteq> i) entries = takeWhile (\<lambda>x. pe_id x \<noteq> pe_id e) (get_active_path codec room False db) \<and>
           switch_branch codec room (pe_id e) db' = (Inr (get_active_path codec room False db), db'')"
proof -
  let ?ser = "serialize_path_node codec False (room_nodes room db)"
  obtain pre u us where path: "active_path room db = pre @ u # us" and u: "e = ?ser u"
    using e by (auto simp: get_active_path_def dest: split_list)
  have uin: "u \<in> set (room_nodes room db)" using path_split_sorted(4) [OF ok path] .
  obtain t where t: "t \<in> set (room_nodes room db)" "ms_id t = i" "ms_parent_id t = ms_parent_id u"
    using i by (auto simp: u serialize_path_node_def Let_def set_children)
  let ?db' = "choose_version room t db"
  have first: "switch_branch codec room i db = (Inr (get_active_path codec room False ?db'), ?db')"
    using switch_branch_to [OF ok t(1)] t(2) by simp
  have second: "switch_branch codec room (pe_id e) ?db' =
      (Inr (get_active_path codec room False (choose_version room u ?db')), choose_version room u ?db')"
    using switch_back [OF ok t(1) uin] by (simp add: u)
  have answers: "successively (\<lambda>a b. ms_parent_id b = Some (ms_id a)) (pre @ u # us)"
    using on_path_in_room(4) [OF ok, of room] path by simp
  obtain rest where shown: "get_active_path codec room False ?db' = map ?ser (pre @ t # rest)"
    and restored: "get_active_path codec room False (choose_version room u ?db') = get_active_path codec room False db"
  proof (cases pre rule: rev_cases)
    case Nil
    then have path': "active_path room db = u # us" using path by simp
    then have "ms_parent_id t = None" using active_path_root [OF ok] t(3) by simp
    then show ?thesis using that switch_roots [OF ok path' t(1), of codec False] Nil by auto
  next
    case (snoc xs a)
    then have a: "active_path room db = xs @ a # u # us" "ms_parent_id u = Some (ms_id a)"
      using path answers by (simp_all add: successively_append_iff)
    then show ?thesis
      using that switch_answers [OF ok a(1) t(1) _ a(2), of codec False] t(3) snoc by auto
  qed
  have "ms_id q \<noteq> ms_id t" if "q \<in> set pre" for q
  proof (cases pre rule: rev_cases)
    case (snoc xs a)
    then have "ms_parent_id t = Some (ms_id a)" using answers t(3) by (simp add: successively_append_iff)
    then have "ms_id a < ms_id t" using tree_ok_younger [OF room_tree_ok [OF ok] t(1)] by simp
    moreover have "ms_id q \<le> ms_id a"
      using that snoc path path_split_sorted(3) [OF ok, of room xs a "u # us"] by fastforce
    ultimately show ?thesis by simp
  qed (use that in simp)
  then have "takeWhile (\<lambda>x. pe_id x \<noteq> i) (get_active_path codec room False ?db') = map ?ser pre"
    using shown_before [of pre t codec False "room_nodes room db" rest] t(2) by (simp add: shown)
  moreover have "takeWhile (\<lambda>x. pe_id x \<noteq> pe_id e) (get_active_path codec room False db) = map ?ser pre"
    using shown_before [of pre u codec False "room_nodes room db" us] path_split_sorted(3) [OF ok path]
    by (force simp: get_active_path_def path u)
  moreover have "i \<in> pe_id ` set (get_active_path codec room False ?db')" unfolding shown using t(2) by auto
  ultimately show ?thesis using first second restored by auto
qed

section \<open>Pages\<close>

text \<open>A client that starts with the newest page and follows \<open>next_before_id\<close>, for at most \<open>n\<close> requests.\<close>

fun read_history ::
  "message_codec \<Rightarrow> string \<Rightarrow> int \<Rightarrow> nat \<Rightarrow> int option \<Rightarrow> chat_db \<Rightarrow> path_entry list" where
  "read_history codec room limit 0 before db = []"
| "read_history codec room limit (Suc n) before db =
     (let page = fetch_chat_history_page codec room limit before db
      in (if hp_has_more page then read_history codec room limit n (hp_next_before_id page) db else [])
         @ hp_messages page)"

lemma filter_before:
  "sorted_wrt (<) (map f xs) \<Longrightarrow> j < length xs \<Longrightarrow> filter (\<lambda>x. f x < f (xs ! j)) xs = take j (xs :: 'a list)"
  for f :: "'a \<Rightarrow> 'b :: linorder"
proof (induction xs arbitrary: j)
  case (Cons x xs)
  show ?case
  proof (cases j)
    case 0
    then show ?thesis using Cons.prems by (auto simp: filter_empty_conv)
  next
    case (Suc i)
    then have "f x < f (xs ! i)" using Cons.prems by auto
    then show ?thesis using Cons Suc by simp
  qed
qed simp

lemma read_history_prefix:
  fixes codec :: message_codec
  assumes sorted: "sorted_wrt (<) (map ms_id (active_path room db))" and limit: "0 < limit"
  defines "shown \<equiv> map (serialize_path_node codec False (room_nodes room db))"
  shows "k < n \<Longrightarrow> k \<le> length (active_path room db) \<Longrightarrow>
    (case before of None \<Rightarrow> active_path room db | Some b \<Rightarrow> filter (\<lambda>m. ms_id m < b) (active_path room db)) =
      take k (active_path room db) \<Longrightarrow>
    read_history codec room limit n before db = shown (take k (active_path room db))"
proof (induction n arbitrary: k before)
  case (Suc n)
  let ?path = "active_path room db" and ?j = "k - nat limit"
  let ?page = "fetch_chat_history_page codec room limit before db" and ?rows = "drop ?j (take k ?path)"
  have len: "length (take k ?path) = k" using Suc.prems(2) by simp
  have page: "hp_messages ?page = shown ?rows" "hp_has_more ?page \<longleftrightarrow> limit < int k"
    "hp_next_before_id ?page = (if limit < int k \<and> ?rows \<noteq> [] then Some (ms_id (hd ?rows)) else None)"
    unfolding fetch_chat_history_page_def Let_def Suc.prems(3) len using limit
    by (simp_all add: shown_def hd_map del: drop_eq_Nil take_eq_Nil)
  show ?case
  proof (cases "limit < int k")
    case True
    then have j: "?j < k" "?j < length ?path" using Suc.prems(2) limit by linarith+
    then have rows: "?rows \<noteq> []" "hd ?rows = ?path ! ?j" by (simp_all add: hd_drop_conv_nth)
    have "read_history codec room limit n (Some (ms_id (?path ! ?j))) db = shown (take ?j ?path)"
      using Suc.IH [of ?j "Some (ms_id (?path ! ?j))"] Suc.prems(1,2) j filter_before [OF sorted j(2)] by simp
    moreover have "take ?j ?path @ ?rows = take k ?path"
      using j by (metis append_take_drop_id less_imp_le_nat min.absorb1 take_take)
    ultimately show ?thesis
      using True rows page by (simp add: Let_def shown_def flip: map_append del: drop_eq_Nil)
  next
    case False
    then have "?j = 0" by linarith
    then show ?thesis using False page by (simp add: Let_def)
  qed
qed simp

text \<open>
  C13: A client that reads a room's history page by page, newest first, following the cursor of each page until
  there are no more, receives the whole conversation shown: every message once, in order, whatever the page
  size.
\<close>

theorem history_pages_complete:
  assumes "history_ok db" and "0 < limit" and "length (active_path room db) < n"
  shows "read_history codec room limit n None db = get_active_path codec room False db"
  using read_history_prefix [OF on_path_in_room(3) [OF assms(1), of room] assms(2), of "length (active_path room db)" n None codec] assms(3)
  by (simp add: get_active_path_def)

lemma filter_after:
  "sorted_wrt (>) (map f xs) \<Longrightarrow> j < length xs \<Longrightarrow> filter (\<lambda>x. f x < f (xs ! j)) xs = drop (Suc j) (xs :: 'a list)"
  for f :: "'a \<Rightarrow> 'b :: linorder"
proof (induction xs arbitrary: j)
  case (Cons x xs)
  show ?case
  proof (cases j)
    case 0
    then show ?thesis using Cons.prems by (auto intro!: filter_True)
  next
    case (Suc i)
    then have "\<not> f x < f (xs ! i)" using Cons.prems by (auto simp: not_less intro: less_imp_le)
    then show ?thesis using Cons Suc by simp
  qed
qed simp

abbreviation room_key :: "room_row \<Rightarrow> ticks \<times> string" where
  "room_key r \<equiv> (rm_last_activity_at r, rm_id r)"

lemma listed_rooms_cursor: "listed_rooms user (Some c) db = filter (\<lambda>r. room_key r < c) (listed_rooms user None db)"
proof -
  let ?P = "\<lambda>r. rm_user_id r = user \<and> rm_mode r \<noteq> ''temporary'' \<and> rm_pinned_at r = None"
  have "(\<lambda>r. ?P r \<and> room_key r < c) = (\<lambda>r. rm_user_id r = user \<and> rm_mode r \<noteq> ''temporary'' \<and> rm_pinned_at r = None \<and>
      (rm_last_activity_at r < fst c \<or> rm_last_activity_at r = fst c \<and> rm_id r < snd c))"
    by (cases c) (auto simp: less_prod_def)
  then have "listed_rooms user (Some c) db =
      rev (sort_key room_key (filter (\<lambda>r. room_key r < c) (filter ?P (ch_rooms db))))"
    unfolding filter_filter by (simp add: listed_rooms_def select_where_def case_prod_beta)
  also have "\<dots> = filter (\<lambda>r. room_key r < c) (rev (sort_key room_key (filter ?P (ch_rooms db))))"
    by (simp only: filter_sort [symmetric] rev_filter)
  finally show ?thesis by (simp add: listed_rooms_def select_where_def)
qed

lemma listed_rooms_sorted:
  assumes "distinct (map rm_id (ch_rooms db))"
  shows "sorted_wrt (>) (map room_key (listed_rooms user None db))"
proof -
  let ?rows = "filter (\<lambda>r. rm_user_id r = user \<and> rm_mode r \<noteq> ''temporary'' \<and> rm_pinned_at r = None) (ch_rooms db)"
  have "distinct (map room_key ?rows)" using assms by (auto simp: distinct_map inj_on_def)
  then have "distinct (map room_key (sort_key room_key ?rows))"
    by (simp add: distinct_map)
  then have "sorted_wrt (<) (map room_key (sort_key room_key ?rows))" by (simp add: strict_sorted_iff)
  then show ?thesis by (simp add: listed_rooms_def select_where_def sorted_wrt_rev flip: rev_map)
qed

text \<open>
  The sidebar's pages continue each other: the page after the cursor of the room at position \<open>k\<close> of a
  user's list starts with the room at position \<open>k + 1\<close>, so pages that follow each other neither skip nor
  repeat a room, also when rooms share the time of their last activity.
\<close>

theorem room_pages_continue:
  assumes "history_ok db" and "k < length (list_user_rooms user None None db)"
  shows "list_user_rooms user (Some n)
           (Some (rp_last_activity_at (list_user_rooms user None None db ! k), rp_id (list_user_rooms user None None db ! k))) db =
         take n (drop (Suc k) (list_user_rooms user None None db))"
proof -
  let ?rooms = "listed_rooms user None db"
  have k: "k < length ?rooms" using assms(2) by (simp add: list_user_rooms_def)
  have "listed_rooms user (Some (room_key (?rooms ! k))) db = drop (Suc k) ?rooms"
    unfolding listed_rooms_cursor
    using filter_after [of room_key, OF listed_rooms_sorted [OF history_okD(1) [OF assms(1)]] k] .
  then show ?thesis
    using k by (simp add: list_user_rooms_def serialize_room_def take_map drop_map)
qed

section \<open>Unanswered messages\<close>

text \<open>
  C14: Removing the unanswered messages of a room takes away the end of the conversation shown, and only
  messages of the user: every answer stays, and so does every message on another branch, although deleting a
  message would take its answers with it.  Something is removed exactly when the caller owns the room and its
  conversation ends with a message of the user.
\<close>

theorem cleanup_keeps_answers:
  assumes ok: "history_ok db" and "delete_unanswered_user_messages room user db = (Inr removed, db')"
  shows "\<exists>kept gone. active_path room db = kept @ gone \<and> list_all (\<lambda>m. ms_sender m = ''user'') gone \<and>
           map ms_id (ch_history db') = filter (\<lambda>i. i \<notin> ms_id ` set gone) (map ms_id (ch_history db)) \<and>
           (removed \<longleftrightarrow> gone \<noteq> []) \<and>
           (removed \<longleftrightarrow> (\<exists>r \<in> set (ch_rooms db). rm_id r = room \<and> rm_user_id r = user) \<and>
              active_path room db \<noteq> [] \<and> ms_sender (last (active_path room db)) = ''user'') \<and>
           history_ok db'"
proof (cases "load_owned_room room user db")
  case (Inl e)
  have "\<not> (\<exists>r \<in> set (ch_rooms db). rm_id r = room \<and> rm_user_id r = user)"
  proof
    assume "\<exists>r \<in> set (ch_rooms db). rm_id r = room \<and> rm_user_id r = user"
    then obtain r where r: "r \<in> set (ch_rooms db)" "rm_id r = room" "rm_user_id r = user" by auto
    then have "find_room room db = Some r"
      using row_of_member [OF history_okD(1) [OF ok] r(1)] by (simp add: find_room_def row_of_def select_one_def)
    with Inl r show False by (simp add: load_owned_room_def)
  qed
  moreover have "db' = db" "\<not> removed" using assms(2) Inl by (simp_all add: delete_unanswered_user_messages_def)
  ultimately show ?thesis using ok by (intro exI [of _ "active_path room db"] exI [of _ "[]"]) simp
next
  case (Inr r)
  have ok': "history_ok db'" using delete_unanswered_keeps [OF ok] assms(2) by (metis snd_conv)
  have owner: "\<exists>r \<in> set (ch_rooms db). rm_id r = room \<and> rm_user_id r = user" using load_owned_room_Inr [OF Inr] by auto
  from ok Inr show ?thesis
  proof (rule cleanup_removes)
    fix kept gone :: "message_row list"
    let ?db = "unchoose room (ms_parent_id (hd gone)) db"
    assume gone: "active_path room db = kept @ gone" "\<forall>m \<in> set gone. ms_sender m = ''user''"
      "gone = [] \<longleftrightarrow> (active_path room db \<noteq> [] \<longrightarrow> ms_sender (last (active_path room db)) \<noteq> ''user'')"
      "delete_unanswered_user_messages room user db =
         (Inr (gone \<noteq> []), if gone = [] then db else on_history (filter (\<lambda>m. ms_id m \<notin> ms_id ` set gone)) ?db)"
    have "map ms_id (ch_history ?db) = map ms_id (ch_history db)"
      using arg_cong [OF unchoose_places, of "map fst"] by (simp add: place_def comp_def)
    moreover have "map ms_id (filter (\<lambda>m. ms_id m \<notin> S) rows) = filter (\<lambda>i. i \<notin> S) (map ms_id rows)" for S and rows :: "message_row list"
      by (simp add: filter_map comp_def)
    ultimately have "map ms_id (ch_history db') = filter (\<lambda>i. i \<notin> ms_id ` set gone) (map ms_id (ch_history db))"
      using gone(4) assms(2) by (auto split: if_splits)
    then show ?thesis
      using gone assms(2) owner ok' by (intro exI [of _ kept] exI [of _ gone]) (auto simp: list_all_iff)
  qed
qed

section \<open>A room with two versions of its first message\<close>

definition codec_example :: message_codec where
  "codec_example = \<lparr>mc_encode_parts = (\<lambda>_. None), mc_decode_parts = (\<lambda>_. []), mc_encode_files = (\<lambda>_. None),
     mc_decode_files = (\<lambda>_. []), mc_encode_images = id, mc_decode_images = (\<lambda>_. [])\<rparr>"

definition plain_input :: message_input where
  "plain_input = \<lparr>mi_attached_file_names = [], mi_message_parts = JNull, mi_attached_file_contents = JNull,
     mi_web_search_context = [], mi_attached_images = JNull\<rparr>"

definition chat_example :: chat_db where
  "chat_example = chat_run codec_example
     [Create_Room 1 ''a'' 7 ''first'' ''normal'', Create_Room 1 ''b'' 7 ''second'' ''normal'',
      Store_Turn 2 ''a'' ''hi'' ''user'' plain_input, Save_Message 3 ''a'' ''hello'' ''assistant'' (Some 1) plain_input,
      Save_Message 4 ''a'' ''hi again'' ''user'' None plain_input] empty_chat_db"

lemma chat_example_ok: "history_ok chat_example"
  unfolding chat_example_def by (rule history_ok_run) simp

theorem new_turn_reads_back_witness:
  "\<exists>ctx db'. store_user_message_and_load_turn_context codec_example 5 ''a'' ''and'' ''user'' plain_input chat_example =
       (Inr ctx, db') \<and> get_active_leaf_id ''a'' db' = Some (tc_message_id ctx) \<and>
     tc_messages ctx = get_room_messages_for_llm codec_example ''a'' db'"
proof -
  let ?turn = "store_user_message_and_load_turn_context codec_example 5 ''a'' ''and'' ''user'' plain_input chat_example"
  have "\<not> isl (fst ?turn)" by code_simp
  then have "?turn = (Inr (projr (fst ?turn)), snd ?turn)" by (simp add: prod_eq_iff)
  with new_turn_reads_back [OF chat_example_ok this] show ?thesis by blast
qed

theorem switch_back_restores_witness:
  "\<exists>entries db' db''. switch_branch codec_example ''a'' 1 chat_example = (Inr entries, db') \<and> 1 \<in> pe_id ` set entries \<and>
     switch_branch codec_example ''a'' 3 db' = (Inr (get_active_path codec_example ''a'' False chat_example), db'')"
proof -
  let ?path = "get_active_path codec_example ''a'' False chat_example"
  have path: "map (\<lambda>e. (pe_id e, pe_sibling_ids e)) ?path = [(3, [1, 3])]" by code_simp
  then obtain e where e: "?path = [e]" "pe_id e = 3" "pe_sibling_ids e = [1, 3]" by auto
  from switch_back_restores [OF chat_example_ok, of e codec_example "''a''" 1] e show ?thesis by auto
qed

theorem history_pages_complete_witness:
  "read_history codec_example ''a'' 1 4 None chat_example = get_active_path codec_example ''a'' False chat_example \<and>
   length (active_path ''a'' chat_example) < 4"
proof -
  have "length (active_path ''a'' chat_example) < 4" by code_simp
  with history_pages_complete [OF chat_example_ok, of 1 "''a''" 4 codec_example] show ?thesis by simp
qed

theorem room_pages_continue_witness:
  "list_user_rooms 7 (Some 1) (Some (4, ''a'')) chat_example = take 1 (drop 1 (list_user_rooms 7 None None chat_example))"
proof -
  have "map (\<lambda>r. (rp_last_activity_at r, rp_id r)) (list_user_rooms 7 None None chat_example) = [(4, ''a''), (1, ''b'')]"
    by code_simp
  then have "0 < length (list_user_rooms 7 None None chat_example)"
    "rp_last_activity_at (list_user_rooms 7 None None chat_example ! 0) = 4"
    "rp_id (list_user_rooms 7 None None chat_example ! 0) = ''a''" by auto
  with room_pages_continue [OF chat_example_ok this(1), of 1] show ?thesis by simp
qed

theorem cleanup_keeps_answers_witness:
  "\<exists>removed db'. delete_unanswered_user_messages ''a'' 7 chat_example = (Inr removed, db') \<and> removed \<and> history_ok db' \<and>
     map ms_id (ch_history db') = [1, 2]"
proof -
  let ?run = "delete_unanswered_user_messages ''a'' 7 chat_example"
  have run: "fst ?run = Inr True" "map ms_id (ch_history (snd ?run)) = [1, 2]" by code_simp+
  then have "?run = (Inr True, snd ?run)" by (simp add: prod_eq_iff)
  with cleanup_keeps_answers [OF chat_example_ok this] run(2) show ?thesis
    by (intro exI [of _ True] exI [of _ "snd ?run"]) auto
qed

end
