(* ===== verification/Chat_Shares.thy ===== *)
theory Chat_Shares
  imports Chat_Branches
begin

text \<open>
  The share links of chat rooms.  A token is a key of the table of links: \<open>settle_once\<close> is interpreted with
  revocation as the settlement, so a revoked token stays revoked with its first time of revocation until its
  row is replaced, and it is never usable again unless the generator draws it a second time.
\<close>

definition shares_ok :: "chat_db \<Rightarrow> bool" where
  "shares_ok db \<longleftrightarrow> distinct (map sl_share_token (ch_shares db)) \<and> distinct (map sl_chat_room_id (ch_shares db))"

definition share_of :: "chat_db \<Rightarrow> string \<Rightarrow> share_row option" where
  "share_of db token = row_of sl_share_token token (ch_shares db)"

fun draws :: "chat_op \<Rightarrow> string \<Rightarrow> bool" where
  "draws (Share now room user expires_at force tokens) token = (token \<in> set (map tokens [0..<5]))"
| "draws _ token = False"

text \<open>What a unit of work may do to the links: keep them, drop some, revoke some, or give one room a drawn token.\<close>

definition revoked_from :: "share_row \<Rightarrow> share_row \<Rightarrow> bool" where
  "revoked_from s s' \<longleftrightarrow> sl_share_token s' = sl_share_token s \<and> (sl_revoked_at s = None \<or> sl_revoked_at s' = sl_revoked_at s)"

definition shares_after :: "string set \<Rightarrow> chat_db \<Rightarrow> chat_db \<Rightarrow> bool" where
  "shares_after drawn db db' \<longleftrightarrow> shares_ok db' \<and>
     (\<forall>s' \<in> set (ch_shares db'). sl_share_token s' \<in> drawn \<or> (\<exists>s \<in> set (ch_shares db). revoked_from s s'))"

lemma shares_after_refl: "shares_ok db \<Longrightarrow> ch_shares db' = ch_shares db \<Longrightarrow> shares_after drawn db db'"
  by (auto simp: shares_after_def shares_ok_def revoked_from_def)

lemma shares_after_filter:
  "shares_ok db \<Longrightarrow> ch_shares db' = filter P (ch_shares db) \<Longrightarrow> shares_after drawn db db'"
  by (auto simp: shares_after_def shares_ok_def revoked_from_def distinct_map_filter)

lemma shares_after_revoke:
  assumes ok: "shares_ok db"
    and db': "ch_shares db' = update_where (\<lambda>s. Q s \<and> sl_revoked_at s = None) (\<lambda>s. s\<lparr>sl_revoked_at := Some now\<rparr>) (ch_shares db)"
  shows "shares_after drawn db db'"
proof -
  have "map sl_share_token (ch_shares db') = map sl_share_token (ch_shares db)"
    "map sl_chat_room_id (ch_shares db') = map sl_chat_room_id (ch_shares db)"
    by (simp_all add: db' update_where_def)
  then have "shares_ok db'" using ok by (simp add: shares_ok_def)
  moreover have "\<exists>s \<in> set (ch_shares db). revoked_from s s'" if "s' \<in> set (ch_shares db')" for s'
    using that by (auto simp: revoked_from_def db' update_where_def split: if_splits)
  ultimately show ?thesis by (simp add: shares_after_def)
qed

lemma replaced_tokens_distinct:
  assumes "distinct (map sl_chat_room_id rows)" "distinct (map sl_share_token rows)"
    and "\<And>s. s \<in> set rows \<Longrightarrow> sl_chat_room_id s \<noteq> sl_chat_room_id row \<Longrightarrow> sl_share_token s \<noteq> sl_share_token row"
  shows "distinct (map sl_share_token (update_where (\<lambda>s. sl_chat_room_id s = sl_chat_room_id row) (\<lambda>_. row) rows))"
  using assms
proof (induction rows)
  case (Cons s rest)
  let ?upd = "update_where (\<lambda>s. sl_chat_room_id s = sl_chat_room_id row) (\<lambda>_. row)"
  have IH: "distinct (map sl_share_token (?upd rest))" using Cons by simp
  show ?case
  proof (cases "sl_chat_room_id s = sl_chat_room_id row")
    case True
    then have none: "\<forall>q \<in> set rest. sl_chat_room_id q \<noteq> sl_chat_room_id row" 
      using Cons.prems(1) by (metis distinct.simps(2) imageI list.set_map list.simps(9))
    then have "?upd rest = rest" by (simp add: update_where_def map_idI)
    moreover have "sl_share_token row \<notin> sl_share_token ` set rest" using none Cons.prems(3) by force
    ultimately show ?thesis using True Cons.prems(2) by (simp add: update_where_def)
  next
    case False
    have "sl_share_token s \<notin> sl_share_token ` set (?upd rest)"
    proof
      assume "sl_share_token s \<in> sl_share_token ` set (?upd rest)"
      then obtain q where "q \<in> set rest" "sl_share_token s = sl_share_token (if sl_chat_room_id q = sl_chat_room_id row then row else q)"
        by (auto simp: update_where_def)
      then show False using Cons.prems(2) Cons.prems(3) [of s] False by (auto split: if_splits)
    qed
    moreover have "?upd (s # rest) = s # ?upd rest" using False by (simp add: update_where_def)
    ultimately show ?thesis using IH by simp
  qed
qed (simp add: update_where_def)

lemma upsert_share_after:
  assumes ok: "shares_ok db" and up: "upsert_share row (ch_shares db) = Some shares" and drawn: "sl_share_token row \<in> drawn"
  shows "shares_after drawn db (db\<lparr>ch_shares := shares\<rparr>)"
proof -
  have other: "sl_share_token s \<noteq> sl_share_token row" if "s \<in> set (ch_shares db)" "sl_chat_room_id s \<noteq> sl_chat_room_id row" for s
    using up that by (auto simp: upsert_share_def list_ex_iff split: if_splits)
  have rooms: "distinct (map sl_chat_room_id (ch_shares db))" and tokens: "distinct (map sl_share_token (ch_shares db))"
    using ok by (simp_all add: shares_ok_def)
  show ?thesis
  proof (cases "sl_chat_room_id row \<in> sl_chat_room_id ` set (ch_shares db)")
    case True
    let ?upd = "update_where (\<lambda>s. sl_chat_room_id s = sl_chat_room_id row) (\<lambda>_. row) (ch_shares db)"
    have upd: "shares = ?upd" using up True by (auto simp: upsert_share_def list_ex_iff split: if_splits)
    have "map sl_chat_room_id ?upd = map sl_chat_room_id (ch_shares db)" by (simp add: update_where_def)
    then have "shares_ok (db\<lparr>ch_shares := shares\<rparr>)"
      using replaced_tokens_distinct [OF rooms tokens other] rooms by (simp add: shares_ok_def upd)
    then show ?thesis
      using drawn by (auto simp: shares_after_def revoked_from_def upd update_where_def)
  next
    case False
    then have "\<not> list_ex (\<lambda>s. sl_chat_room_id s = sl_chat_room_id row) (ch_shares db)"
      unfolding list_ex_iff by (metis imageI)
    then have new: "shares = ch_shares db @ [row]"
      using up by (simp add: upsert_share_def split: if_splits)
    have "sl_share_token row \<notin> sl_share_token ` set (ch_shares db)"
      using other False by (metis (no_types, lifting) imageE imageI)
    then have "shares_ok (db\<lparr>ch_shares := shares\<rparr>)" using rooms tokens False by (simp add: shares_ok_def new)
    then show ?thesis using drawn by (auto simp: shares_after_def revoked_from_def new)
  qed
qed

lemma mint_share_after:
  "shares_ok db \<Longrightarrow> set tokens \<subseteq> drawn \<Longrightarrow> shares_after drawn db (snd (mint_share_token now room user expires_at tokens db))"
proof (induction tokens)
  case (Cons t tokens)
  let ?row = "\<lparr>sl_chat_room_id = room, sl_share_token = t, sl_created_at = now, sl_expires_at = expires_at, sl_revoked_at = None\<rparr>"
  show ?case
  proof (cases "upsert_share ?row (ch_shares db)")
    case None
    then show ?thesis
      using Cons shares_after_refl [of db db] by (cases "load_owned_room room user db") simp_all
  next
    case (Some shares)
    then show ?thesis using upsert_share_after [OF Cons.prems(1) Some] Cons.prems(2) by simp
  qed
qed (simp add: shares_after_refl)

section \<open>Every unit of work\<close>

lemma insert_shares [simp]: "ch_shares (snd (insert_message codec now room msg sender parent_id inp db)) = ch_shares db"
proof (cases rule: insert_message_cases [of codec now room msg sender parent_id inp db])
  case (stored m)
  from stored(9) show ?thesis by (cases parent_id) (simp_all add: Let_def)
qed simp

lemma save_shares: "ch_shares (snd (save_message codec now room msg sender parent_id inp db)) = ch_shares db"
  unfolding save_message_def snd_case_result by (rule insert_shares)

lemma copy_shares [simp]: "ch_shares (snd (copy_from codec now room parent_id copied messages db)) = ch_shares db"
proof (induction messages arbitrary: parent_id copied db)
  case (Cons entry messages)
  show ?case
  proof (cases entry)
    case (Some m)
    obtain r db' where saved: "save_message codec now room (case cm_message m of None \<Rightarrow> [] | Some t \<Rightarrow> t)
        (if cm_sender m = Some ''user'' then ''user'' else ''assistant'') parent_id (copied_input m) db = (r, db')"
      by (metis surj_pair)
    then have "ch_shares db' = ch_shares db"
      using save_shares by (metis snd_conv)
    with Cons saved Some show ?thesis by (cases r) simp_all
  qed (use Cons in simp)
qed simp

lemma room_unit_shares:
  "ch_shares (snd (create_room now room user title mode db)) = ch_shares db"
  "ch_shares (snd (set_room_pinned now room user pinned db)) = ch_shares db"
  "ch_shares (snd (rename_room room title db)) = ch_shares db"
  "ch_shares (snd (rename_room_if_current_title_in room title titles db)) = ch_shares db"
  by (auto simp: create_room_def set_room_pinned_def rename_room_def rename_room_if_current_title_in_def Let_def
      split: sum.splits option.splits)

lemma message_unit_shares:
  "ch_shares (snd (save_message codec now room msg sender parent_id inp db)) = ch_shares db"
  "ch_shares (snd (store_user_message_and_load_turn_context codec now room msg sender inp db)) = ch_shares db"
  "ch_shares (snd (copy_messages_into_room codec now room messages db)) = ch_shares db"
  unfolding save_message_def store_user_message_and_load_turn_context_def Let_def snd_case_result copy_messages_into_room_def
  by (rule insert_shares copy_shares)+

lemma branch_unit_shares:
  "ch_shares (snd (switch_branch codec room i db)) = ch_shares db"
  "ch_shares (snd (delete_unanswered_user_messages room user db)) = ch_shares db"
proof -
  show "ch_shares (snd (switch_branch codec room i db)) = ch_shares db"
    by (cases rule: switch_branch_cases [of codec room i db]) (simp_all add: choose_version_def split: option.splits)
  show "ch_shares (snd (delete_unanswered_user_messages room user db)) = ch_shares db"
    by (cases "load_owned_room room user db")
      (simp_all add: delete_unanswered_eq unchoose_def Let_def split: option.splits,
       simp add: delete_unanswered_user_messages_def)
qed

lemmas unit_shares = room_unit_shares message_unit_shares branch_unit_shares

lemma transaction_same_shares:
  "shares_ok db \<Longrightarrow> ch_shares (snd (m db)) = ch_shares db \<Longrightarrow> shares_after drawn db (snd (transaction m db))"
  using transaction_snd [of m db] shares_after_refl by metis

lemma transaction_shares_after:
  "shares_ok db \<Longrightarrow> shares_after drawn db (snd (m db)) \<Longrightarrow> shares_after drawn db (snd (transaction m db))"
  using transaction_snd [of m db] shares_after_refl by metis

lemma delete_shares:
  "\<exists>P. ch_shares (snd (delete_room_for_user room user db)) = filter P (ch_shares db)"
  "\<exists>P. ch_shares (snd (delete_rooms_for_user rooms user db)) = filter P (ch_shares db)"
proof -
  have all: "\<exists>P. ch_shares db = filter P (ch_shares db)" by (intro exI [of _ "\<lambda>_. True"]) simp
  have gone: "\<exists>P. ch_shares (delete_rooms ids db) = filter P (ch_shares db)" for ids
    by (auto simp: delete_rooms_def delete_where_def)
  show "\<exists>P. ch_shares (snd (delete_room_for_user room user db)) = filter P (ch_shares db)"
    using all gone by (cases "load_owned_room room user db") (simp_all add: delete_room_for_user_def)
  show "\<exists>P. ch_shares (snd (delete_rooms_for_user rooms user db)) = filter P (ch_shares db)"
    using all gone by (simp add: delete_rooms_for_user_def Let_def)
qed

lemma create_share_after:
  assumes "shares_ok db"
  shows "shares_after {t. draws (Share now room user expires_at force tokens) t} db
           (snd (create_or_get_shared_chat_token now room user expires_at force tokens db))"
proof -
  have "shares_after {t. draws (Share now room user expires_at force tokens) t} db
      (snd (mint_share_token now room user expires_at (map tokens [0..<5]) db))"
    by (rule mint_share_after [OF assms]) auto
  then show ?thesis
    using shares_after_refl [OF assms, of db]
    by (cases "load_owned_room room user db"; cases "load_share_row room db"; cases force)
      (simp_all add: create_or_get_shared_chat_token_def snd_case_result)
qed

lemma revoke_after:
  assumes "shares_ok db"
  shows "shares_after drawn db (snd (revoke_shared_chat_token now room user db))"
  using shares_after_refl [OF assms] shares_after_revoke [OF assms]
  by (cases "load_owned_room room user db") (simp_all add: revoke_shared_chat_token_def Let_def)

lemma step_shares_after:
  assumes ok: "shares_ok db"
  shows "shares_after {t. draws op t} db (chat_step codec op db)"
proof (cases op)
  case (Delete_Room room user)
  then show ?thesis
    using delete_shares(1) shares_after_filter [OF ok] transaction_shares_after [OF ok] by (metis chat_step.simps(3))
next
  case (Delete_Rooms rooms user)
  then show ?thesis
    using delete_shares(2) shares_after_filter [OF ok] transaction_shares_after [OF ok] by (metis chat_step.simps(4))
next
  case (Share now room user expires_at force tokens)
  show ?thesis unfolding Share chat_step.simps by (intro transaction_shares_after ok create_share_after)
next
  case (Revoke_Share now room user)
  show ?thesis unfolding Revoke_Share chat_step.simps by (intro transaction_shares_after ok revoke_after)
qed (simp_all add: transaction_same_shares [OF ok] unit_shares)

section \<open>Revocation\<close>

lemma share_of_Some: "shares_ok db \<Longrightarrow> share_of db token = Some s \<longleftrightarrow> s \<in> set (ch_shares db) \<and> sl_share_token s = token"
  unfolding share_of_def shares_ok_def using row_of_Some row_of_member by metis

interpretation links: settle_once "chat_step codec" shares_ok share_of "\<lambda>s. sl_revoked_at s \<noteq> None" sl_revoked_at draws
  for codec
proof
  fix db op k
  assume ok: "shares_ok db"
  note after = step_shares_after [OF ok, of op codec, unfolded shares_after_def]
  show ok': "shares_ok (chat_step codec op db)" using after by simp
  show "sl_revoked_at s' \<noteq> None \<and> sl_revoked_at s' = sl_revoked_at s"
    if s: "share_of db k = Some s" "sl_revoked_at s \<noteq> None" and s': "share_of (chat_step codec op db) k = Some s'"
      and new: "\<not> draws op k" for s s'
  proof -
    have s'k: "s' \<in> set (ch_shares (chat_step codec op db))" "sl_share_token s' = k"
      using s' share_of_Some [OF ok'] by auto
    then obtain q where "q \<in> set (ch_shares db)" "revoked_from q s'" using after new by auto
    then have "share_of db k = Some q" "revoked_from q s'"
      using share_of_Some [OF ok] s'k by (auto simp: revoked_from_def)
    with s show ?thesis by (auto simp: revoked_from_def)
  qed
  show "share_of (chat_step codec op db) k = None" if none: "share_of db k = None" and new: "\<not> draws op k"
  proof (rule ccontr)
    assume "share_of (chat_step codec op db) k \<noteq> None"
    then obtain s' where "s' \<in> set (ch_shares (chat_step codec op db))" "sl_share_token s' = k"
      using share_of_Some [OF ok'] by auto
    then obtain q where "q \<in> set (ch_shares db)" "sl_share_token q = k" using after new by (auto simp: revoked_from_def)
    then have "share_of db k = Some q" using share_of_Some [OF ok] by blast
    with none show False by simp
  qed
qed

lemma link_run: "links.run codec ops db = chat_run codec ops db"
  by (simp add: links.run_def chat_run_def)

lemma revoked_not_found:
  assumes ok: "shares_ok db" and "\<And>s. share_of db token = Some s \<Longrightarrow> sl_revoked_at s \<noteq> None"
  shows "get_shared_chat_room_payload codec now token db = Inl Shared_Link_Not_Found"
proof -
  have "select_one (\<lambda>s. sl_share_token s = token \<and> sl_revoked_at s = None \<and>
      (case sl_expires_at s of None \<Rightarrow> True | Some e \<Rightarrow> now < e) \<and> find_room (sl_chat_room_id s) db \<noteq> None) (ch_shares db) = None"
    unfolding select_one_None using assms(2) share_of_Some [OF ok] by blast
  then show ?thesis by (simp add: get_shared_chat_room_payload_def)
qed

text \<open>
  C15: Once the owner has revoked a room's share link, nothing that happens afterwards makes its token work
  again (renewing the link, deleting and recreating rooms, other users' links), provided that the generator
  does not draw that very token a second time; and as long as the revoked link is stored it keeps its first
  time of revocation.
\<close>

theorem revoked_link_dead:
  assumes ok: "shares_ok db"
    and revoked: "revoke_shared_chat_token now room user db = (Inr (Some link), db')"
    and fresh: "list_all (\<lambda>op. \<not> draws op (sl_share_token link)) ops"
  shows "get_shared_chat_room_payload codec later (sl_share_token link) (chat_run codec ops db') = Inl Shared_Link_Not_Found \<and>
         (\<forall>s. share_of (chat_run codec ops db') (sl_share_token link) = Some s \<longrightarrow> sl_revoked_at s = sl_revoked_at link)"
proof -
  have ok': "shares_ok db'" using revoke_after [OF ok, of "{}" now room user] revoked by (simp add: shares_after_def)
  have db': "ch_shares db' = update_where (\<lambda>s. sl_chat_room_id s = room \<and> sl_revoked_at s = None)
               (\<lambda>s. s\<lparr>sl_revoked_at := Some now\<rparr>) (ch_shares db)" and "load_share_row room db' = Some link"
    using revoked by (auto simp: revoke_shared_chat_token_def Let_def split: sum.splits)
  then have link: "link \<in> set (ch_shares db')" "sl_chat_room_id link = room"
    unfolding load_share_row_def by (auto dest: select_one_Some)
  have "link \<in> (\<lambda>q. if sl_chat_room_id q = room \<and> sl_revoked_at q = None then q\<lparr>sl_revoked_at := Some now\<rparr> else q) ` set (ch_shares db)"
    using link(1) unfolding db' update_where_def set_map .
  then obtain q where "link = (if sl_chat_room_id q = room \<and> sl_revoked_at q = None then q\<lparr>sl_revoked_at := Some now\<rparr> else q)"
    by (rule imageE)
  then have dead: "share_of db' (sl_share_token link) = Some link" "sl_revoked_at link \<noteq> None"
    using share_of_Some [OF ok'] link by (auto split: if_splits)
  have "shares_ok (chat_run codec ops db')" using links.inv_run [OF ok', of codec ops] by (simp add: link_run)
  moreover have kept: "sl_revoked_at s \<noteq> None \<and> sl_revoked_at s = sl_revoked_at link"
    if "share_of (chat_run codec ops db') (sl_share_token link) = Some s" for s
    using links.settled_run [OF ok' dead fresh, of codec s] that dead(2) by (simp add: link_run)
  ultimately show ?thesis using revoked_not_found by blast
qed

definition shared_example :: chat_db where
  "shared_example = chat_step codec_example (Share 5 ''a'' 7 None False (\<lambda>n. if n = 0 then ''tok'' else ''spare'')) chat_example"

theorem revoked_link_dead_witness:
  "\<exists>link db'. revoke_shared_chat_token 6 ''a'' 7 shared_example = (Inr (Some link), db') \<and> sl_share_token link = ''tok'' \<and>
     \<not> isl (get_shared_chat_room_payload codec_example 5 ''tok'' shared_example) \<and>
     get_shared_chat_room_payload codec_example 8 ''tok''
       (chat_run codec_example [Share 7 ''a'' 7 None False (\<lambda>_. ''new'')] db') = Inl Shared_Link_Not_Found"
proof -
  let ?run = "revoke_shared_chat_token 6 ''a'' 7 shared_example"
  have ok: "shares_ok shared_example" by code_simp
  have run: "\<not> isl (fst ?run)" "map_option sl_share_token (projr (fst ?run)) = Some ''tok''"
    "\<not> isl (get_shared_chat_room_payload codec_example 5 ''tok'' shared_example)" by code_simp+
  then obtain link where link: "?run = (Inr (Some link), snd ?run)" "sl_share_token link = ''tok''"
    by (cases "?run"; cases "fst ?run") auto
  from revoked_link_dead [OF ok link(1), of "[Share 7 ''a'' 7 None False (\<lambda>_. ''new'')]" codec_example 8]
  show ?thesis using link run(3) by (intro exI [of _ link] exI [of _ "snd ?run"]) auto
qed

end
