(* ===== verification/Url_Parts.thy ===== *)
theory Url_Parts
  imports Prelude
begin

text \<open>
  URLs in \<open>services/url_fetcher.py\<close>: the functions of \<open>urllib.parse\<close> it uses (\<open>urlsplit\<close> with the host, the port and
  the user of its result, \<open>urlunsplit\<close>), \<open>canonicalize_url\<close>, \<open>url_for_logging\<close> and \<open>extract_urls_from_text\<close>.
  Characters are those of the byte alphabet.  What rests on Unicode or address tables is an argument
  (\<open>url_lib\<close>): the \<open>idna\<close> codec, whether the text between brackets is an IPv6 address, the normalization check
  of a host with characters above 127, and \<open>urljoin\<close>.  \<open>None\<close> is a \<open>ValueError\<close>.
\<close>

record url_lib =
  ul_idna :: "string \<Rightarrow> string option"
  ul_is_ipv6 :: "string \<Rightarrow> bool"
  ul_netloc_ok :: "string \<Rightarrow> bool"
  ul_urljoin :: "string \<Rightarrow> string \<Rightarrow> string option"

section \<open>Splitting\<close>

definition until :: "char list \<Rightarrow> string \<Rightarrow> string" where
  "until delims s = takeWhile (\<lambda>c. c \<notin> set delims) s"

definition since :: "char list \<Rightarrow> string \<Rightarrow> string" where
  "since delims s = dropWhile (\<lambda>c. c \<notin> set delims) s"

text \<open>\<open>s.partition(c)\<close>: what stands before the first \<open>c\<close> and, if there is one, what stands after it.\<close>

definition py_partition :: "char \<Rightarrow> string \<Rightarrow> string \<times> string option" where
  "py_partition c s = (until [c] s, case since [c] s of [] \<Rightarrow> None | _ # rest \<Rightarrow> Some rest)"

definition py_rpartition :: "char \<Rightarrow> string \<Rightarrow> string option \<times> string" where
  "py_rpartition c s =
     (case since [c] (rev s) of [] \<Rightarrow> None | _ # rest \<Rightarrow> Some (rev rest), rev (until [c] (rev s)))"

abbreviation rest_text :: "string option \<Rightarrow> string" where
  "rest_text r \<equiv> (case r of None \<Rightarrow> [] | Some s \<Rightarrow> s)"

definition is_alpha :: "char \<Rightarrow> bool" where
  "is_alpha c \<longleftrightarrow> (let n = (of_char (lower_char c) :: nat) in 97 \<le> n \<and> n \<le> 122)"

definition scheme_char :: "char \<Rightarrow> bool" where
  "scheme_char c \<longleftrightarrow> is_alpha c \<or> is_digit c \<or> c \<in> set ''+-.''"

record split_url =
  su_scheme :: string
  su_netloc :: string
  su_path :: string
  su_query :: string
  su_fragment :: string

definition split_scheme :: "string \<Rightarrow> string \<times> string" where
  "split_scheme url =
     (case py_partition (CHR '':'') url of
        (prior, Some rest) \<Rightarrow>
          if prior \<noteq> [] \<and> is_alpha (hd prior) \<and> list_all scheme_char prior then (py_lower prior, rest) else ([], url)
      | (_, None) \<Rightarrow> ([], url))"

definition split_hostinfo :: "string \<Rightarrow> string \<times> string" where
  "split_hostinfo netloc =
     (let hostinfo = snd (py_rpartition (CHR ''@'') netloc)
      in case py_partition (CHR ''['') hostinfo of
           (_, Some bracketed) \<Rightarrow>
             (case py_partition (CHR '']'') bracketed of
                (hostname, after) \<Rightarrow> (hostname, rest_text (snd (py_partition (CHR '':'') (rest_text after)))))
         | (_, None) \<Rightarrow>
             (case py_partition (CHR '':'') hostinfo of (hostname, port) \<Rightarrow> (hostname, rest_text port)))"

definition hex_digit :: "char \<Rightarrow> bool" where
  "hex_digit c \<longleftrightarrow> is_digit c \<or> (let n = (of_char (lower_char c) :: nat) in 97 \<le> n \<and> n \<le> 102)"

definition ip_future :: "string \<Rightarrow> bool" where
  "ip_future host \<longleftrightarrow>
     (case py_partition (CHR ''.'') (tl host) of
        (digits, Some rest) \<Rightarrow> digits \<noteq> [] \<and> list_all hex_digit digits \<and> rest \<noteq> [] \<and> CHR 0x0A \<notin> set rest
      | (_, None) \<Rightarrow> False)"

definition bracketed_ok :: "url_lib \<Rightarrow> string \<Rightarrow> bool" where
  "bracketed_ok L netloc =
     (let hostinfo = snd (py_rpartition (CHR ''@'') netloc)
      in case py_partition (CHR ''['') hostinfo of
           (prior, Some bracketed) \<Rightarrow>
             (case py_partition (CHR '']'') bracketed of
                (host, after) \<Rightarrow>
                  prior = [] \<and> (rest_text after = [] \<or> hd (rest_text after) = CHR '':'') \<and>
                  (if startswith host ''v'' then ip_future host else ul_is_ipv6 L host))
         | (_, None) \<Rightarrow>
             (let host = until [CHR '':''] hostinfo
              in if startswith host ''v'' then ip_future host else ul_is_ipv6 L host))"

definition urlsplit :: "url_lib \<Rightarrow> string \<Rightarrow> split_url option" where
  "urlsplit L url =
     (let url = filter (\<lambda>c. c \<notin> {CHR 0x09, CHR 0x0A, CHR 0x0D}) (dropWhile (\<lambda>c. (of_char c :: nat) \<le> 32) url);
          (scheme, url) = split_scheme url;
          (netloc, url) = (if startswith url ''//'' then (until ''/?#'' (drop 2 url), since ''/?#'' (drop 2 url)) else ([], url));
          (url, fragment) = (case py_partition (CHR ''#'') url of (u, f) \<Rightarrow> (u, rest_text f));
          (path, query) = (case py_partition (CHR ''?'') url of (u, q) \<Rightarrow> (u, rest_text q))
      in if (CHR ''['' \<in> set netloc) \<noteq> (CHR '']'' \<in> set netloc) then None
         else if CHR ''['' \<in> set netloc \<and> \<not> bracketed_ok L netloc then None
         else if list_ex (\<lambda>c. 127 < (of_char c :: nat)) netloc \<and> \<not> ul_netloc_ok L netloc then None
         else Some \<lparr>su_scheme = scheme, su_netloc = netloc, su_path = path, su_query = query, su_fragment = fragment\<rparr>)"

definition url_hostname :: "split_url \<Rightarrow> string option" where
  "url_hostname u =
     (case fst (split_hostinfo (su_netloc u)) of
        [] \<Rightarrow> None
      | host \<Rightarrow> Some (py_lower (until ''%'' host) @ since ''%'' host))"

text \<open>\<open>parsed.port\<close>: \<open>Inl ()\<close> is the \<open>ValueError\<close>.\<close>

definition url_port :: "split_url \<Rightarrow> unit + int option" where
  "url_port u =
     (case snd (split_hostinfo (su_netloc u)) of
        [] \<Rightarrow> Inr None
      | port \<Rightarrow>
          if \<not> list_all is_digit port then Inl ()
          else (case py_int port of
                  Some p \<Rightarrow> if p \<le> 65535 then Inr (Some p) else Inl ()
                | None \<Rightarrow> Inl ()))"

definition url_has_user :: "split_url \<Rightarrow> bool" where
  "url_has_user u \<longleftrightarrow> CHR ''@'' \<in> set (su_netloc u)"

text \<open>\<open>urlunsplit\<close> for a URL with a scheme and a network location.\<close>

definition urlunsplit :: "string \<Rightarrow> string \<Rightarrow> string \<Rightarrow> string \<Rightarrow> string" where
  "urlunsplit scheme netloc path query =
     scheme @ ''://'' @ netloc @ (if path \<noteq> [] \<and> hd path \<noteq> CHR ''/'' then ''/'' @ path else path) @
     (if query = [] then [] else ''?'' @ query)"

section \<open>Canonical URLs\<close>

abbreviation (input) MAX_LINK_URL_CHARS :: nat where
  "MAX_LINK_URL_CHARS \<equiv> 1000"

abbreviation display_host :: "string \<Rightarrow> string" where
  "display_host host \<equiv> (if CHR '':'' \<in> set host then ''['' @ host @ '']'' else host)"

definition canonicalize_url :: "url_lib \<Rightarrow> string \<Rightarrow> string option" where
  "canonicalize_url L url =
     (case urlsplit L (py_strip url) of
        None \<Rightarrow> None
      | Some parsed \<Rightarrow>
          if su_scheme parsed \<notin> {''http'', ''https''} then None
          else
            (case url_hostname parsed of
               None \<Rightarrow> None
             | Some host \<Rightarrow>
                 if url_has_user parsed then None
                 else
                   (case (if CHR '':'' \<in> set (py_lower host) then Some (py_lower host) else ul_idna L (py_lower host)) of
                      None \<Rightarrow> None
                    | Some host \<Rightarrow>
                        (case url_port parsed of
                           Inl _ \<Rightarrow> None
                         | Inr port \<Rightarrow>
                             if port \<noteq> None \<and> port \<noteq> Some (if su_scheme parsed = ''http'' then 80 else 443) then None
                             else
                               (let normalized =
                                      urlunsplit (su_scheme parsed) (display_host host) (or_default (su_path parsed) ''/'')
                                        (su_query parsed)
                                in if length normalized \<le> MAX_LINK_URL_CHARS then Some normalized else None)))))"

definition url_for_logging :: "url_lib \<Rightarrow> string \<Rightarrow> string" where
  "url_for_logging L url =
     (case urlsplit L url of
        None \<Rightarrow> ''<invalid URL>''
      | Some parsed \<Rightarrow>
          (case url_hostname parsed of
             None \<Rightarrow> ''<invalid URL>''
           | Some host \<Rightarrow>
               if su_scheme parsed \<notin> {''http'', ''https''} then ''<invalid URL>''
               else
                 (case url_port parsed of
                    Inl _ \<Rightarrow> ''<invalid URL>''
                  | Inr port \<Rightarrow>
                      urlunsplit (su_scheme parsed)
                        (display_host host @ (case port of None \<Rightarrow> [] | Some p \<Rightarrow> '':'' @ show_int p))
                        (su_path parsed) [])))"

section \<open>URLs in a text\<close>

abbreviation (input) MAX_URLS_PER_MESSAGE :: nat where
  "MAX_URLS_PER_MESSAGE \<equiv> 3"

text \<open>The characters that \<open>_URL_RE\<close> allows after \<open>http://\<close> or \<open>https://\<close>.\<close>

definition url_char :: "char \<Rightarrow> bool" where
  "url_char c \<longleftrightarrow> \<not> is_space c \<and>
     c \<notin> set ''<>'' \<union> {CHR 0x22, CHR 0x27, CHR 0x60, CHR 0x5C} \<union> set ''()[]{}|^''"

definition scheme_prefix :: "string \<Rightarrow> nat option" where
  "scheme_prefix s =
     (if startswith (py_lower s) ''http://'' then Some 7
      else if startswith (py_lower s) ''https://'' then Some 8 else None)"

text \<open>\<open>_URL_RE.findall\<close>: the leftmost matches that do not overlap.\<close>

function find_urls :: "string \<Rightarrow> string list" where
  "find_urls [] = []"
| "find_urls (c # s) =
     (case scheme_prefix (c # s) of
        None \<Rightarrow> find_urls s
      | Some n \<Rightarrow>
          (let body = takeWhile url_char (drop n (c # s))
           in if body = [] then find_urls s
              else (take n (c # s) @ body) # find_urls (drop (length body) (drop n (c # s)))))"
  by pat_completeness auto

termination by (relation "measure length") (auto split: if_splits)

definition rstrip_chars :: "string \<Rightarrow> string \<Rightarrow> string" where
  "rstrip_chars cs s = rev (dropWhile (\<lambda>c. c \<in> set cs) (rev s))"

fun collect_urls :: "string list \<Rightarrow> string list \<Rightarrow> string list" where
  "collect_urls result [] = result"
| "collect_urls result (raw_url # rest) =
     (let url = rstrip_chars ''.,;:!?)'' raw_url;
          result = (if url \<in> set result then result else result @ [url])
      in if MAX_URLS_PER_MESSAGE \<le> length result then result else collect_urls result rest)"

definition extract_urls_from_text :: "string \<Rightarrow> string list" where
  "extract_urls_from_text message = collect_urls [] (find_urls message)"

end
