(* ===== verification/Charsets.thy ===== *)
theory Charsets
  imports Url_Parts
begin

text \<open>
  \<open>services/url_charset.py\<close>: the character encoding of a body that was read, from its byte order mark, the header, the
  HTML declaration, a strict UTF-8 check or a statistical guess, in this order.  Bytes are characters of the
  byte alphabet.  The registry of codecs, their decoders and \<open>charset_normalizer\<close> are arguments (\<open>codec_lib\<close>);
  the UTF-8 check is written out.
\<close>

record codec_lib =
  cl_lookup :: "string \<Rightarrow> string option"
  cl_detect :: "string \<Rightarrow> string option"
  cl_decode :: "string \<Rightarrow> string \<Rightarrow> string option"

section \<open>UTF-8\<close>

definition byte_in :: "nat \<Rightarrow> nat \<Rightarrow> char \<Rightarrow> bool" where
  "byte_in low high c \<longleftrightarrow> low \<le> of_char c \<and> of_char c \<le> high"

text \<open>
  The sequences that Python's strict UTF-8 decoder accepts: the ranges of the bytes after a leading byte.  Overlong
  forms, surrogates and values above \<open>10FFFF\<close> are out.  \<open>None\<close>: no sequence begins with this byte.
\<close>

definition utf8_tail :: "char \<Rightarrow> (nat \<times> nat) list option" where
  "utf8_tail c =
     (if byte_in 0x00 0x7F c then Some []
      else if byte_in 0xC2 0xDF c then Some [(0x80, 0xBF)]
      else if byte_in 0xE0 0xE0 c then Some [(0xA0, 0xBF), (0x80, 0xBF)]
      else if byte_in 0xED 0xED c then Some [(0x80, 0x9F), (0x80, 0xBF)]
      else if byte_in 0xE1 0xEF c then Some [(0x80, 0xBF), (0x80, 0xBF)]
      else if byte_in 0xF0 0xF0 c then Some [(0x90, 0xBF), (0x80, 0xBF), (0x80, 0xBF)]
      else if byte_in 0xF4 0xF4 c then Some [(0x80, 0x8F), (0x80, 0xBF), (0x80, 0xBF)]
      else if byte_in 0xF1 0xF3 c then Some [(0x80, 0xBF), (0x80, 0xBF), (0x80, 0xBF)]
      else None)"

fun utf8_from :: "(nat \<times> nat) list \<Rightarrow> string \<Rightarrow> bool" where
  "utf8_from [] [] = True"
| "utf8_from (_ # _) [] = False"
| "utf8_from ((low, high) # ranges) (c # s) = (byte_in low high c \<and> utf8_from ranges s)"
| "utf8_from [] (c # s) = (case utf8_tail c of None \<Rightarrow> False | Some ranges \<Rightarrow> utf8_from ranges s)"

definition valid_utf8 :: "string \<Rightarrow> bool" where
  "valid_utf8 s = utf8_from [] s"

section \<open>The declared encoding\<close>

definition byte_space :: "char \<Rightarrow> bool" where
  "byte_space c \<longleftrightarrow> c = CHR '' '' \<or> byte_in 0x09 0x0D c"

definition strip_quotes :: "string \<Rightarrow> string" where
  "strip_quotes s =
     (let quotes = [CHR 0x22, CHR 0x27] in rstrip_chars quotes (dropWhile (\<lambda>c. c \<in> set quotes) s))"

definition normalize_encoding :: "codec_lib \<Rightarrow> string option \<Rightarrow> string option" where
  "normalize_encoding K name =
     (case name of
        None \<Rightarrow> None
      | Some name \<Rightarrow>
          (let candidate = py_strip (rstrip_chars '';'' (strip_quotes (py_strip name)))
           in if candidate = [] then None else cl_lookup K candidate))"

definition bom_encodings :: "(string \<times> string) list" where
  "bom_encodings =
     [([CHR 0xEF, CHR 0xBB, CHR 0xBF], ''utf-8-sig''),
      ([CHR 0xFF, CHR 0xFE, CHR 0x00, CHR 0x00], ''utf-32-le''),
      ([CHR 0x00, CHR 0x00, CHR 0xFE, CHR 0xFF], ''utf-32-be''),
      ([CHR 0xFF, CHR 0xFE], ''utf-16-le''),
      ([CHR 0xFE, CHR 0xFF], ''utf-16-be'')]"

definition charset_from_bom :: "string \<Rightarrow> string option" where
  "charset_from_bom raw = map_option snd (List.find (\<lambda>(bom, _). startswith raw bom) bom_encodings)"

text \<open>\<open>charset\s*=\s*["']?\s*([a-zA-Z0-9_\-.:]+)\<close> at the start of the text; \<open>space\<close> is what \<open>\s\<close> matches.\<close>

definition encoding_char :: "char \<Rightarrow> bool" where
  "encoding_char c \<longleftrightarrow> is_alpha c \<or> is_digit c \<or> c \<in> set ''_-.:''"

definition match_charset :: "(char \<Rightarrow> bool) \<Rightarrow> string \<Rightarrow> string option" where
  "match_charset space s =
     (if \<not> startswith (py_lower s) ''charset'' then None
      else
        (case dropWhile space (drop 7 s) of
           [] \<Rightarrow> None
         | c # rest \<Rightarrow>
             if c \<noteq> CHR ''='' then None
             else
               (let rest = dropWhile space rest;
                    rest = (if rest \<noteq> [] \<and> hd rest \<in> {CHR 0x22, CHR 0x27} then tl rest else rest);
                    name = takeWhile encoding_char (dropWhile space rest)
                in if name = [] then None else Some name)))"

fun search_charset :: "string \<Rightarrow> string option" where
  "search_charset [] = None"
| "search_charset (c # s) =
     (case match_charset is_space (c # s) of Some name \<Rightarrow> Some name | None \<Rightarrow> search_charset s)"

text \<open>After \<open><meta\<close>: the first place before a \<open>>\<close> where the declaration matches.\<close>

fun charset_in_tag :: "string \<Rightarrow> string option" where
  "charset_in_tag [] = None"
| "charset_in_tag (c # s) =
     (case match_charset byte_space (c # s) of
        Some name \<Rightarrow> Some name
      | None \<Rightarrow> if c = CHR ''>'' then None else charset_in_tag s)"

fun search_meta_charset :: "string \<Rightarrow> string option" where
  "search_meta_charset [] = None"
| "search_meta_charset (c # s) =
     (case (if startswith (py_lower (c # s)) ''<meta'' then charset_in_tag (drop 5 (c # s)) else None) of
        Some name \<Rightarrow> Some name
      | None \<Rightarrow> search_meta_charset s)"

definition charset_from_content_type :: "codec_lib \<Rightarrow> string \<Rightarrow> string option" where
  "charset_from_content_type K content_type =
     (if content_type = [] then None else normalize_encoding K (search_charset content_type))"

abbreviation (input) META_SNIFF_BYTES :: nat where
  "META_SNIFF_BYTES \<equiv> 4096"

definition charset_from_html_meta :: "codec_lib \<Rightarrow> string \<Rightarrow> string option" where
  "charset_from_html_meta K raw = normalize_encoding K (search_meta_charset (take META_SNIFF_BYTES raw))"

section \<open>The guessed encoding\<close>

definition charset_from_strict_utf8 :: "string \<Rightarrow> string option" where
  "charset_from_strict_utf8 raw =
     (if raw = [] then None
      else if list_ex (\<lambda>trim. valid_utf8 (take (length raw - trim) raw)) [0..<min 3 (length raw) + 1]
      then Some ''utf-8'' else None)"

definition charset_from_detection :: "codec_lib \<Rightarrow> string \<Rightarrow> string option" where
  "charset_from_detection K raw = (if raw = [] then None else normalize_encoding K (cl_detect K raw))"

fun first_charset :: "string option list \<Rightarrow> string" where
  "first_charset [] = ''utf-8''"
| "first_charset (r # rs) = (case r of None \<Rightarrow> first_charset rs | Some e \<Rightarrow> if e = [] then first_charset rs else e)"

definition resolve_charset :: "codec_lib \<Rightarrow> string \<Rightarrow> string \<Rightarrow> bool \<Rightarrow> string" where
  "resolve_charset K raw content_type is_html =
     first_charset
       ([charset_from_bom raw, charset_from_content_type K content_type] @
        (if is_html then [charset_from_html_meta K raw] else []) @
        [charset_from_strict_utf8 raw, charset_from_detection K raw])"

definition decode_response_body :: "codec_lib \<Rightarrow> string \<Rightarrow> string \<Rightarrow> bool \<Rightarrow> string option" where
  "decode_response_body K raw content_type is_html = cl_decode K (resolve_charset K raw content_type is_html) raw"

section \<open>A body cut short\<close>

lemma utf8_tail_short: "utf8_tail c = Some ranges \<Longrightarrow> length ranges \<le> 3"
  by (auto simp: utf8_tail_def split: if_splits)

text \<open>A prefix of a valid text is valid up to the sequence it cuts, of which it has at most three bytes.\<close>

lemma utf8_prefix:
  "utf8_from ranges s \<Longrightarrow> length ranges \<le> 3 \<Longrightarrow> n \<le> length s \<Longrightarrow>
   \<exists>k \<le> 3. (k \<le> n \<and> utf8_from ranges (take (n - k) s)) \<or> n < length ranges"
proof (induction ranges s arbitrary: n rule: utf8_from.induct)
  case (3 low high ranges c s)
  show ?case
  proof (cases n)
    case (Suc m)
    then obtain k where "k \<le> 3" "(k \<le> m \<and> utf8_from ranges (take (m - k) s)) \<or> m < length ranges"
      using 3 by auto
    then show ?thesis using Suc 3(2) by (auto simp: Suc_diff_le)
  qed (auto intro: exI [of _ 0])
next
  case (4 c s)
  then obtain ranges where r: "utf8_tail c = Some ranges" "utf8_from ranges s" by (auto split: option.splits)
  note short = utf8_tail_short [OF r(1)]
  show ?case
  proof (cases n)
    case (Suc m)
    then obtain k where k: "k \<le> 3" "(k \<le> m \<and> utf8_from ranges (take (m - k) s)) \<or> m < length ranges"
      using 4 r short by auto
    show ?thesis
    proof (cases "m < length ranges")
      case True
      then show ?thesis using Suc short by (intro exI [of _ n]) auto
    next
      case False
      then show ?thesis using k r Suc by (intro exI [of _ k]) (auto simp: Suc_diff_le)
    qed
  qed (auto intro: exI [of _ 0])
qed auto

lemma strict_utf8_prefix:
  assumes "valid_utf8 body" "0 < n" "body \<noteq> []"
  shows "charset_from_strict_utf8 (take n body) = Some ''utf-8''"
proof -
  let ?m = "min n (length body)"
  have len: "length (take n body) = ?m" by simp
  obtain k where k: "k \<le> 3" "k \<le> ?m" "valid_utf8 (take (?m - k) body)"
    using utf8_prefix [of "[]" body ?m] assms(1) by (auto simp: valid_utf8_def)
  have "take (?m - k) (take n body) = take (?m - k) body" by (auto simp: min_def)
  then have "\<exists>trim \<in> set [0..<min 3 ?m + 1]. valid_utf8 (take (?m - trim) (take n body))"
    using k by (intro bexI [of _ k]) auto
  then show ?thesis using assms(2,3) by (simp only: charset_from_strict_utf8_def list_ex_iff len) auto
qed

text \<open>
  A body in UTF-8 that declares no encoding is read as UTF-8 wherever the size cap cuts it, also in the
  middle of a character, whatever the statistical guess would be.
\<close>

theorem cut_utf8_recognised:
  assumes "valid_utf8 body" "0 < n" "body \<noteq> []" "charset_from_bom (take n body) = None"
    "charset_from_content_type K content_type = None" "is_html \<Longrightarrow> charset_from_html_meta K (take n body) = None"
  shows "resolve_charset K (take n body) content_type is_html = ''utf-8''"
proof -
  have "charset_from_strict_utf8 (take n body) = Some ''utf-8''"
    using strict_utf8_prefix assms(1-3) by blast
  then show ?thesis using assms by (auto simp: resolve_charset_def)
qed

theorem cut_utf8_recognised_witness:
  "resolve_charset \<lparr>cl_lookup = \<lambda>_. Some ''cp1252'', cl_detect = \<lambda>_. Some ''cp1252'', cl_decode = \<lambda>_ s. Some s\<rparr>
     (take 2 [CHR ''a'', CHR 0xE3, CHR 0x81, CHR 0x82]) ''text/plain'' True = ''utf-8''"
  by (rule cut_utf8_recognised) code_simp+

end
