(* ===== verification/Html_Document.thy ===== *)
theory Html_Document
  imports Charsets
begin

text \<open>
  \<open>services/url_fetcher.py\<close>: from the events of Python's \<open>HTMLParser\<close> (an argument: any sequence of start tags, end
  tags and texts) to the text, title, links and images of a document.  \<open>extractor\<close> is the state of
  \<open>_TextExtractor\<close>.
\<close>

section \<open>Texts\<close>

text \<open>\<open>s.split()\<close> and \<open>" ".join(s.split())\<close>.\<close>

function py_words :: "string \<Rightarrow> string list" where
  "py_words s =
     (case dropWhile is_space s of
        [] \<Rightarrow> []
      | c # cs \<Rightarrow> takeWhile (\<lambda>c. \<not> is_space c) (c # cs) # py_words (dropWhile (\<lambda>c. \<not> is_space c) (c # cs)))"
  by pat_completeness auto

termination
proof (relation "measure length", goal_cases)
  case (2 s c cs)
  have "length (dropWhile (\<lambda>c. \<not> is_space c) (c # cs)) < length (c # cs)"
    using 2 hd_dropWhile [of is_space s] by (auto simp: length_dropWhile_le less_Suc_eq_le)
  also have "\<dots> \<le> length s" using 2 by (metis length_dropWhile_le)
  finally show ?case by simp
qed simp

declare py_words.simps [simp del]

fun join_words :: "string list \<Rightarrow> string" where
  "join_words [] = []"
| "join_words [w] = w"
| "join_words (w # v # ws) = w @ '' '' @ join_words (v # ws)"

definition squeeze :: "string \<Rightarrow> string" where
  "squeeze s = join_words (py_words s)"

definition take_last :: "nat \<Rightarrow> string \<Rightarrow> string" where
  "take_last n s = drop (length s - n) s"

text \<open>\<open>re.sub(r"[ \t]+", " ", s)\<close> and \<open>re.sub(r"\n{3,}", "\n\n", s)\<close>.\<close>

definition blank :: "char \<Rightarrow> bool" where
  "blank c \<longleftrightarrow> c = CHR '' '' \<or> c = CHR 0x09"

fun collapse_blanks :: "bool \<Rightarrow> string \<Rightarrow> string" where
  "collapse_blanks after_blank [] = []"
| "collapse_blanks after_blank (c # s) =
     (if blank c then (if after_blank then collapse_blanks True s else CHR '' '' # collapse_blanks True s)
      else c # collapse_blanks False s)"

fun collapse_newlines :: "nat \<Rightarrow> string \<Rightarrow> string" where
  "collapse_newlines n [] = []"
| "collapse_newlines n (c # s) =
     (if c = CHR 0x0A then (if 2 \<le> n then collapse_newlines n s else c # collapse_newlines (n + 1) s)
      else c # collapse_newlines 0 s)"

section \<open>The extractor\<close>

datatype html_event =
    Start_Tag string "(string \<times> string option) list"
  | End_Tag string
  | Text_Data string

record active_link =
  al_href :: string
  al_title :: string
  al_parts :: "string list"
  al_context :: string

record extractor =
  ex_skip_depth :: nat
  ex_parts :: "string list"
  ex_title_parts :: "string list"
  ex_inside_title :: bool
  ex_base_href :: string
  ex_active_link :: "active_link option"
  ex_raw_links :: "(string \<times> string \<times> string) list"
  ex_raw_images :: "(string \<times> string \<times> string \<times> string) list"

definition new_extractor :: extractor where
  "new_extractor = \<lparr>ex_skip_depth = 0, ex_parts = [], ex_title_parts = [], ex_inside_title = False, ex_base_href = [],
     ex_active_link = None, ex_raw_links = [], ex_raw_images = []\<rparr>"

definition SKIP_TAGS :: "string list" where
  "SKIP_TAGS = [''script'', ''style'', ''noscript'', ''nav'', ''footer'', ''head'', ''aside'', ''iframe'', ''svg'', ''canvas'']"

definition BLOCK_TAGS :: "string list" where
  "BLOCK_TAGS = [''p'', ''div'', ''h1'', ''h2'', ''h3'', ''h4'', ''h5'', ''h6'', ''li'', ''br'', ''tr'', ''article'',
     ''section'', ''blockquote'']"

abbreviation (input) MAX_LINK_TEXT_CHARS :: nat where
  "MAX_LINK_TEXT_CHARS \<equiv> 240"

abbreviation (input) MAX_LINK_CONTEXT_CHARS :: nat where
  "MAX_LINK_CONTEXT_CHARS \<equiv> 320"

text \<open>\<open>attributes.get(name, "")\<close>: the names in lower case, the last of equal ones counts, a missing value is empty.\<close>

definition attribute :: "(string \<times> string option) list \<Rightarrow> string \<Rightarrow> string" where
  "attribute attrs name =
     (case map_of (rev (map (\<lambda>(n, v). (py_lower n, rest_text v)) attrs)) name of None \<Rightarrow> [] | Some v \<Rightarrow> v)"

definition meta_image_kind :: "(string \<times> string option) list \<Rightarrow> string" where
  "meta_image_kind attrs =
     (let property_name = py_lower (py_strip (attribute attrs ''property''));
          name = py_lower (py_strip (attribute attrs ''name''))
      in if property_name \<in> {''og:image'', ''og:image:url''} then ''og:image''
         else if name \<in> {''twitter:image'', ''twitter:image:src''} then ''twitter:image''
         else [])"

fun split_commas :: "string \<Rightarrow> string \<Rightarrow> string list" where
  "split_commas acc [] = [rev acc]"
| "split_commas acc (c # s) = (if c = CHR '','' then rev acc # split_commas [] s else split_commas (c # acc) s)"

definition first_srcset_url :: "string \<Rightarrow> string" where
  "first_srcset_url srcset =
     (case List.find (\<lambda>candidate. py_words candidate \<noteq> []) (split_commas [] srcset) of
        None \<Rightarrow> []
      | Some candidate \<Rightarrow> hd (py_words candidate))"

definition note_title :: "string \<Rightarrow> extractor \<Rightarrow> extractor" where
  "note_title tag ex = (if tag = ''title'' then ex\<lparr>ex_inside_title := True\<rparr> else ex)"

definition note_base :: "string \<Rightarrow> (string \<times> string option) list \<Rightarrow> extractor \<Rightarrow> extractor" where
  "note_base tag attrs ex =
     (if tag = ''base'' \<and> ex_base_href ex = [] then ex\<lparr>ex_base_href := py_strip (attribute attrs ''href'')\<rparr> else ex)"

abbreviation add_image :: "string \<times> string \<times> string \<times> string \<Rightarrow> extractor \<Rightarrow> extractor" where
  "add_image img ex \<equiv> ex\<lparr>ex_raw_images := ex_raw_images ex @ [img]\<rparr>"

definition note_declared_images :: "string \<Rightarrow> (string \<times> string option) list \<Rightarrow> extractor \<Rightarrow> extractor" where
  "note_declared_images tag attrs ex =
     (if tag = ''meta''
      then
        (let kind = meta_image_kind attrs; content = py_strip (attribute attrs ''content'')
         in if kind \<noteq> [] \<and> content \<noteq> [] then add_image (content, [], [], kind) ex else ex)
      else if tag = ''link''
      then
        (let rel = map py_lower (py_words (attribute attrs ''rel'')); href = py_strip (attribute attrs ''href'')
         in if href \<noteq> [] \<and> (''image_src'' \<in> set rel \<or> ''image'' \<in> set rel)
            then add_image (href, [], attribute attrs ''title'', ''link'') ex else ex)
      else ex)"

definition open_link :: "string \<Rightarrow> (string \<times> string option) list \<Rightarrow> extractor \<Rightarrow> extractor" where
  "open_link tag attrs ex =
     (let href = py_strip (attribute attrs ''href'')
      in if tag = ''a'' \<and> ex_skip_depth ex = 0 \<and> href \<noteq> []
         then ex\<lparr>ex_active_link := Some
                \<lparr>al_href = href, al_title = or_default (attribute attrs ''title'') (attribute attrs ''aria-label''),
                 al_parts = [],
                 al_context = take_last MAX_LINK_CONTEXT_CHARS (concat (drop (length (ex_parts ex) - 3) (ex_parts ex)))\<rparr>\<rparr>
         else ex)"

definition add_link_text :: "string \<Rightarrow> extractor \<Rightarrow> extractor" where
  "add_link_text part ex =
     (case ex_active_link ex of
        Some l \<Rightarrow>
          if ex_skip_depth ex = 0 \<and> py_strip part \<noteq> [] then ex\<lparr>ex_active_link := Some (l\<lparr>al_parts := al_parts l @ [part]\<rparr>)\<rparr>
          else ex
      | None \<Rightarrow> ex)"

definition note_img :: "string \<Rightarrow> (string \<times> string option) list \<Rightarrow> extractor \<Rightarrow> extractor" where
  "note_img tag attrs ex =
     (if tag \<noteq> ''img'' \<or> ex_skip_depth ex \<noteq> 0 then ex
      else
        (let ex = add_link_text (or_default (attribute attrs ''alt'') (attribute attrs ''title'')) ex;
             image_url =
               py_strip
                 (or_default (attribute attrs ''src'')
                   (or_default (attribute attrs ''data-src'')
                     (or_default (attribute attrs ''data-original'')
                       (first_srcset_url (or_default (attribute attrs ''srcset'') (attribute attrs ''data-srcset''))))))
         in if image_url \<noteq> [] then add_image (image_url, attribute attrs ''alt'', attribute attrs ''title'', ''img'') ex else ex))"

definition handle_starttag :: "string \<Rightarrow> (string \<times> string option) list \<Rightarrow> extractor \<Rightarrow> extractor" where
  "handle_starttag tag attrs ex =
     (let tag = py_lower tag;
          ex = note_img tag attrs (open_link tag attrs (note_declared_images tag attrs (note_base tag attrs (note_title tag ex))))
      in if tag \<in> set SKIP_TAGS then ex\<lparr>ex_skip_depth := ex_skip_depth ex + 1\<rparr> else ex)"

definition finish_active_link :: "extractor \<Rightarrow> extractor" where
  "finish_active_link ex =
     (case ex_active_link ex of
        None \<Rightarrow> ex
      | Some l \<Rightarrow>
          ex\<lparr>ex_raw_links := ex_raw_links ex @
               [(al_href l, or_default (squeeze (concat (al_parts l))) (squeeze (al_title l)), squeeze (al_context l))],
             ex_active_link := None\<rparr>)"

definition handle_endtag :: "string \<Rightarrow> extractor \<Rightarrow> extractor" where
  "handle_endtag tag ex =
     (let tag = py_lower tag;
          ex = (if tag = ''a'' then finish_active_link ex else ex);
          ex = (if tag = ''title'' then ex\<lparr>ex_inside_title := False\<rparr> else ex)
      in if tag \<in> set SKIP_TAGS then ex\<lparr>ex_skip_depth := ex_skip_depth ex - 1\<rparr>
         else if tag \<in> set BLOCK_TAGS then ex\<lparr>ex_parts := ex_parts ex @ [[CHR 0x0A]]\<rparr>
         else ex)"

definition handle_data :: "string \<Rightarrow> extractor \<Rightarrow> extractor" where
  "handle_data data ex =
     (let ex = (if ex_inside_title ex \<and> py_strip data \<noteq> [] then ex\<lparr>ex_title_parts := ex_title_parts ex @ [data]\<rparr> else ex);
          ex = add_link_text data ex
      in if ex_skip_depth ex = 0 \<and> py_strip data \<noteq> [] then ex\<lparr>ex_parts := ex_parts ex @ [data]\<rparr> else ex)"

fun handle_event :: "html_event \<Rightarrow> extractor \<Rightarrow> extractor" where
  "handle_event (Start_Tag tag attrs) ex = handle_starttag tag attrs ex"
| "handle_event (End_Tag tag) ex = handle_endtag tag ex"
| "handle_event (Text_Data data) ex = handle_data data ex"

definition feed :: "html_event list \<Rightarrow> extractor" where
  "feed events = fold handle_event events new_extractor"

definition get_text :: "extractor \<Rightarrow> string" where
  "get_text ex = py_strip (collapse_newlines 0 (collapse_blanks False (concat (ex_parts ex))))"

definition get_title :: "extractor \<Rightarrow> string" where
  "get_title ex = take MAX_LINK_TEXT_CHARS (squeeze (concat (ex_title_parts ex)))"

definition get_raw_links :: "extractor \<Rightarrow> (string \<times> string \<times> string) list" where
  "get_raw_links ex = ex_raw_links (finish_active_link ex)"

section \<open>The document\<close>

record fetched_link =
  fl_url :: string
  fl_text :: string
  fl_context :: string

record fetched_image =
  fi_url :: string
  fi_alt :: string
  fi_title :: string
  fi_kind :: string

record fetched_document =
  fd_requested_url :: string
  fd_final_url :: string
  fd_title :: string
  fd_text :: string
  fd_links :: "fetched_link list"
  fd_images :: "fetched_image list"

abbreviation (input) MAX_LINKS_PER_DOCUMENT :: nat where
  "MAX_LINKS_PER_DOCUMENT \<equiv> 40"

abbreviation (input) MAX_IMAGES_PER_DOCUMENT :: nat where
  "MAX_IMAGES_PER_DOCUMENT \<equiv> 20"

text \<open>\<open>None\<close> is a \<open>ValueError\<close> of \<open>urljoin\<close>, which leaves the extraction.\<close>

fun collect_links ::
  "url_lib \<Rightarrow> string \<Rightarrow> string set \<Rightarrow> fetched_link list \<Rightarrow> (string \<times> string \<times> string) list \<Rightarrow> fetched_link list option" where
  "collect_links L base seen links [] = Some links"
| "collect_links L base seen links ((href, link_text, link_context) # raw) =
     (case ul_urljoin L base href of
        None \<Rightarrow> None
      | Some joined \<Rightarrow>
          (case canonicalize_url L joined of
             None \<Rightarrow> collect_links L base seen links raw
           | Some url \<Rightarrow>
               if url \<in> seen then collect_links L base seen links raw
               else
                 (let seen = insert url seen; normalized_text = take MAX_LINK_TEXT_CHARS (squeeze link_text)
                  in if normalized_text = [] then collect_links L base seen links raw
                     else
                       (let links = links @ [\<lparr>fl_url = url, fl_text = normalized_text,
                                             fl_context = take_last MAX_LINK_CONTEXT_CHARS (squeeze link_context)\<rparr>]
                        in if MAX_LINKS_PER_DOCUMENT \<le> length links then Some links
                           else collect_links L base seen links raw))))"

fun collect_images ::
  "url_lib \<Rightarrow> string \<Rightarrow> string set \<Rightarrow> fetched_image list \<Rightarrow> (string \<times> string \<times> string \<times> string) list \<Rightarrow>
   fetched_image list option" where
  "collect_images L base seen images [] = Some images"
| "collect_images L base seen images ((raw_url, alt, title, kind) # raw) =
     (case ul_urljoin L base raw_url of
        None \<Rightarrow> None
      | Some joined \<Rightarrow>
          (case canonicalize_url L joined of
             None \<Rightarrow> collect_images L base seen images raw
           | Some url \<Rightarrow>
               if url \<in> seen then collect_images L base seen images raw
               else
                 (let images = images @ [\<lparr>fi_url = url, fi_alt = take MAX_LINK_TEXT_CHARS (squeeze alt),
                                         fi_title = take MAX_LINK_TEXT_CHARS (squeeze title), fi_kind = kind\<rparr>]
                  in if MAX_IMAGES_PER_DOCUMENT \<le> length images then Some images
                     else collect_images L base (insert url seen) images raw)))"

definition link_base_url :: "url_lib \<Rightarrow> string \<Rightarrow> extractor \<Rightarrow> string option" where
  "link_base_url L final_url ex =
     (if ex_base_href ex = [] then Some final_url
      else
        (case ul_urljoin L final_url (ex_base_href ex) of
           None \<Rightarrow> None
         | Some joined \<Rightarrow> Some (case canonicalize_url L joined of None \<Rightarrow> final_url | Some u \<Rightarrow> u)))"

definition extract_document_from_html ::
  "url_lib \<Rightarrow> html_event list \<Rightarrow> string \<Rightarrow> string \<Rightarrow> fetched_document option" where
  "extract_document_from_html L events requested_url final_url =
     (let ex = feed events
      in case canonicalize_url L final_url of
           None \<Rightarrow> None
         | Some normalized_final_url \<Rightarrow>
             (case link_base_url L normalized_final_url ex of
                None \<Rightarrow> None
              | Some base \<Rightarrow>
                  (case (collect_links L base {normalized_final_url} [] (get_raw_links ex),
                         collect_images L base {} [] (ex_raw_images ex)) of
                     (Some links, Some images) \<Rightarrow>
                       Some \<lparr>fd_requested_url = requested_url, fd_final_url = normalized_final_url, fd_title = get_title ex,
                             fd_text = take 30000 (get_text ex), fd_links = links, fd_images = images\<rparr>
                   | _ \<Rightarrow> None)))"

end
