(* ===== verification/Url_Fetch.thy ===== *)
theory Url_Fetch
  imports Html_Document
begin

text \<open>
  \<open>services/url_fetcher.py\<close>: fetching a page or an image for a URL a user pasted.  Each redirect is resolved and
  checked again and the connection is pinned to the address that was checked.  The outside world is an
  argument: what the resolver answers at each hop (a hostile one may change its answers), what the server
  sends, the clock, the tables of \<open>ipaddress\<close>, the host that the HTTP library takes from a URL
  (\<open>fe_request_host\<close>), the codecs and the events of the HTML parser.  A fetch returns its result and the list of
  addresses it connected to.
\<close>

section \<open>The outside\<close>

record ip_info =
  ip_text :: string
  ip_is_v6 :: bool
  ip_is_global :: bool
  ip_is_multicast :: bool
  ip_is_reserved :: bool
  ip_is_unspecified :: bool
  ip_mapped_global :: "bool option"

datatype family = AF_INET | AF_INET6 | AF_OTHER

record fetch_env =
  fe_urls :: url_lib
  fe_parse_ip :: "string \<Rightarrow> ip_info option"
  fe_request_host :: "string \<Rightarrow> string"
  fe_codecs :: codec_lib
  fe_html_events :: "string \<Rightarrow> html_event list"

text \<open>\<open>rs_chunks\<close> are the chunks of the body with the time after each; \<open>None\<close> is a read that fails.\<close>

record response =
  rs_status :: int
  rs_location :: "string option"
  rs_content_type :: "string option"
  rs_chunks :: "(string \<times> ticks) option list"

text \<open>What a hop meets: the clock before it, the resolver's answers, the clock again, the server's response.\<close>

record hop =
  hp_entered :: ticks
  hp_answers :: "(family \<times> string) list option"
  hp_resolved :: ticks
  hp_response :: "response option"

section \<open>The address check\<close>

definition public_ip :: "ip_info \<Rightarrow> bool" where
  "public_ip ip \<longleftrightarrow>
     \<not> (\<not> ip_is_global ip \<or> ip_is_multicast ip \<or> ip_is_reserved ip \<or> ip_is_unspecified ip \<or>
        ip_is_v6 ip \<and> ip_mapped_global ip = Some False)"

fun safe_ips :: "fetch_env \<Rightarrow> (family \<times> string) list \<Rightarrow> string list option" where
  "safe_ips E [] = Some []"
| "safe_ips E ((family, address) # answers) =
     (if family = AF_OTHER then None
      else
        (case fe_parse_ip E address of
           None \<Rightarrow> None
         | Some ip \<Rightarrow> if \<not> public_ip ip then None else map_option (\<lambda>ips. ip_text ip # ips) (safe_ips E answers)))"

definition url_host :: "url_lib \<Rightarrow> string \<Rightarrow> string option" where
  "url_host L url = Option.bind (urlsplit L url) url_hostname"

definition resolve_safe_ip :: "fetch_env \<Rightarrow> (family \<times> string) list option \<Rightarrow> string \<Rightarrow> string option" where
  "resolve_safe_ip E answers url =
     (case canonicalize_url (fe_urls E) url of
        None \<Rightarrow> None
      | Some normalized_url \<Rightarrow>
          (case url_host (fe_urls E) normalized_url of
             None \<Rightarrow> None
           | Some hostname \<Rightarrow>
               if hostname = ''localhost'' then None
               else
                 (case answers of
                    None \<Rightarrow> None
                  | Some [] \<Rightarrow> None
                  | Some answers \<Rightarrow>
                      (case safe_ips E answers of None \<Rightarrow> None | Some ips \<Rightarrow> Some (hd ips)))))"

section \<open>Connecting\<close>

text \<open>\<open>_pinned_create_connection\<close>: \<open>Resolve_Again\<close> leaves the choice of the address to the resolver at that time.\<close>

datatype target = Pinned string | Resolve_Again string

definition pinned_create_connection :: "(string \<Rightarrow> string option) \<Rightarrow> string \<Rightarrow> target" where
  "pinned_create_connection mapping host =
     (case mapping host of Some ip \<Rightarrow> Pinned ip | None \<Rightarrow> Resolve_Again host)"

datatype opened = Opened response string | Not_Opened | Open_Failed

abbreviation (input) MAX_REDIRECT_HOPS :: nat where
  "MAX_REDIRECT_HOPS \<equiv> 5"

definition redirect_status :: "int \<Rightarrow> bool" where
  "redirect_status status \<longleftrightarrow> status \<in> {301, 302, 303, 307, 308}"

text \<open>
  The loop of \<open>_open_validated_response\<close>: one element of \<open>hops\<close> per round that is left, \<open>log\<close> the connections made.
  A round that meets no \<open>hop\<close> does not occur, because the caller gives one for each round.
\<close>

fun open_hops ::
  "fetch_env \<Rightarrow> ticks \<Rightarrow> hop list \<Rightarrow> string \<Rightarrow> (string \<Rightarrow> string option) \<Rightarrow> target list \<Rightarrow> opened \<times> target list" where
  "open_hops E deadline [] current_url host_to_ip log = (Not_Opened, log)"
| "open_hops E deadline (h # hops) current_url host_to_ip log =
     (if deadline \<le> hp_entered h then (Not_Opened, log)
      else
        (case canonicalize_url (fe_urls E) current_url of
           None \<Rightarrow> (Not_Opened, log)
         | Some current_url \<Rightarrow>
             (case resolve_safe_ip E (hp_answers h) current_url of
                None \<Rightarrow> (Not_Opened, log)
              | Some ip \<Rightarrow>
                  if deadline \<le> hp_resolved h then (Not_Opened, log)
                  else
                    (case urlsplit (fe_urls E) current_url of
                       None \<Rightarrow> (Open_Failed, log)
                     | Some parsed \<Rightarrow>
                         (case url_hostname parsed of
                            None \<Rightarrow> (Not_Opened, log)
                          | Some hostname \<Rightarrow>
                              (let host_to_ip = host_to_ip(hostname \<mapsto> ip);
                                   log = log @ [pinned_create_connection host_to_ip (fe_request_host E current_url)]
                               in case hp_response h of
                                    None \<Rightarrow> (Open_Failed, log)
                                  | Some response \<Rightarrow>
                                      if redirect_status (rs_status response)
                                      then
                                        (case rs_location response of
                                           None \<Rightarrow> (Not_Opened, log)
                                         | Some location \<Rightarrow>
                                             if location = [] then (Not_Opened, log)
                                             else
                                               (case ul_urljoin (fe_urls E) current_url location of
                                                  None \<Rightarrow> (Open_Failed, log)
                                                | Some next_url \<Rightarrow> open_hops E deadline hops next_url host_to_ip log))
                                      else (Opened response current_url, log)))))))"

definition open_validated_response ::
  "fetch_env \<Rightarrow> ticks \<Rightarrow> (nat \<Rightarrow> hop) \<Rightarrow> string \<Rightarrow> opened \<times> target list" where
  "open_validated_response E deadline hops url =
     open_hops E deadline (map hops [0..<MAX_REDIRECT_HOPS + 1]) url (\<lambda>_. None) []"

section \<open>Reading\<close>

datatype body = Body string | Late | Read_Failed

fun read_body :: "ticks \<Rightarrow> nat \<Rightarrow> string \<Rightarrow> (string \<times> ticks) option list \<Rightarrow> body" where
  "read_body deadline max_bytes data [] = Body data"
| "read_body deadline max_bytes data (None # chunks) = Read_Failed"
| "read_body deadline max_bytes data (Some (chunk, now) # chunks) =
     (if deadline \<le> now then Late
      else
        (let data = data @ take (max_bytes - length data) chunk
         in if max_bytes \<le> length data then Body data else read_body deadline max_bytes data chunks))"

definition read_response_body :: "ticks \<Rightarrow> nat \<Rightarrow> response \<Rightarrow> body" where
  "read_response_body deadline max_bytes response = read_body deadline max_bytes [] (rs_chunks response)"

definition media_type :: "response \<Rightarrow> string" where
  "media_type response =
     py_strip (until '';'' (py_lower (case rs_content_type response of None \<Rightarrow> [] | Some t \<Rightarrow> t)))"

text \<open>\<open>response.raise_for_status()\<close>.\<close>

definition bad_status :: "response \<Rightarrow> bool" where
  "bad_status response \<longleftrightarrow> 400 \<le> rs_status response \<and> rs_status response < 600"

abbreviation (input) MAX_URL_RESPONSE_BYTES :: nat where
  "MAX_URL_RESPONSE_BYTES \<equiv> 300000"

abbreviation (input) MAX_URL_TEXT_CHARS :: nat where
  "MAX_URL_TEXT_CHARS \<equiv> 30000"

abbreviation (input) MAX_IMAGE_RESPONSE_BYTES :: nat where
  "MAX_IMAGE_RESPONSE_BYTES \<equiv> 4000000"

abbreviation URL_FETCH_TIMEOUT :: ticks where
  "URL_FETCH_TIMEOUT \<equiv> 10 * second"

section \<open>Pages and images\<close>

definition page_of_response :: "fetch_env \<Rightarrow> ticks \<Rightarrow> string \<Rightarrow> response \<Rightarrow> string \<Rightarrow> fetched_document option" where
  "page_of_response E deadline url response final_url =
     (let content_type = py_lower (case rs_content_type response of None \<Rightarrow> [] | Some t \<Rightarrow> t);
          is_html = (media_type response = ''text/html'');
          is_plain = (media_type response = ''text/plain'')
      in if bad_status response then None
         else if \<not> (is_html \<or> is_plain) then None
         else
           (case read_response_body deadline MAX_URL_RESPONSE_BYTES response of
              Body body \<Rightarrow>
                (case decode_response_body (fe_codecs E) body content_type is_html of
                   None \<Rightarrow> None
                 | Some raw \<Rightarrow>
                     if is_html
                     then (case extract_document_from_html (fe_urls E) (fe_html_events E raw) url final_url of
                             None \<Rightarrow> None
                           | Some document \<Rightarrow> if fd_text document = [] then None else Some document)
                     else
                       (let content = take MAX_URL_TEXT_CHARS raw
                        in if content = [] then None
                           else Some \<lparr>fd_requested_url = url, fd_final_url = final_url, fd_title = [], fd_text = content,
                                      fd_links = [], fd_images = []\<rparr>))
            | _ \<Rightarrow> None))"

definition fetch_url_document_impl ::
  "fetch_env \<Rightarrow> ticks \<Rightarrow> (nat \<Rightarrow> hop) \<Rightarrow> string \<Rightarrow> fetched_document option \<times> target list" where
  "fetch_url_document_impl E started hops url =
     (let deadline = started + URL_FETCH_TIMEOUT
      in case open_validated_response E deadline hops url of
           (Opened response final_url, log) \<Rightarrow> (page_of_response E deadline url response final_url, log)
         | (_, log) \<Rightarrow> (None, log))"

definition FETCHABLE_IMAGE_MEDIA_TYPES :: "string list" where
  "FETCHABLE_IMAGE_MEDIA_TYPES = [''image/jpeg'', ''image/png'', ''image/gif'', ''image/webp'', ''image/avif'']"

definition image_of_response :: "ticks \<Rightarrow> response \<Rightarrow> (string \<times> string) option" where
  "image_of_response deadline response =
     (if bad_status response then None
      else if media_type response \<notin> set FETCHABLE_IMAGE_MEDIA_TYPES then None
      else
        (case read_response_body deadline (MAX_IMAGE_RESPONSE_BYTES + 1) response of
           Body data \<Rightarrow>
             if data = [] \<or> MAX_IMAGE_RESPONSE_BYTES < length data then None else Some (media_type response, data)
         | _ \<Rightarrow> None))"

definition fetch_image_content_impl ::
  "fetch_env \<Rightarrow> ticks \<Rightarrow> (nat \<Rightarrow> hop) \<Rightarrow> string \<Rightarrow> (string \<times> string) option \<times> target list" where
  "fetch_image_content_impl E started hops url =
     (let deadline = started + URL_FETCH_TIMEOUT
      in case open_validated_response E deadline hops url of
           (Opened response final_url, log) \<Rightarrow> (image_of_response deadline response, log)
         | (_, log) \<Rightarrow> (None, log))"

section \<open>Slots\<close>

text \<open>
  \<open>_run_bounded_fetch\<close> around one of the two pools: a semaphore and the workers that still run.  \<open>submitted\<close> says
  whether the executor took the job, \<open>ended\<close> what the worker returned in time (\<open>None\<close> too for a worker that fails or
  is late).  \<open>Inl ()\<close> is \<open>FetchSlotsBusyError\<close>.  The caller stops waiting after the timeout, but the slot is given
  back by the worker's callback (\<open>worker_exits\<close>), which also runs when a queued job is cancelled.
\<close>

record fetch_pool =
  fp_free :: nat
  fp_workers :: "nat list"

definition run_bounded_fetch ::
  "nat \<Rightarrow> bool \<Rightarrow> 'a option \<Rightarrow> fetch_pool \<Rightarrow> (unit + 'a option) \<times> fetch_pool" where
  "run_bounded_fetch job submitted ended pool =
     (if fp_free pool = 0 then (Inl (), pool)
      else
        (let pool = pool\<lparr>fp_free := fp_free pool - 1\<rparr>
         in if \<not> submitted then (Inr None, pool\<lparr>fp_free := fp_free pool + 1\<rparr>)
            else (Inr ended, pool\<lparr>fp_workers := fp_workers pool @ [job]\<rparr>)))"

definition worker_exits :: "nat \<Rightarrow> fetch_pool \<Rightarrow> fetch_pool" where
  "worker_exits job pool =
     (if job \<in> set (fp_workers pool)
      then pool\<lparr>fp_free := fp_free pool + 1, fp_workers := remove1 job (fp_workers pool)\<rparr> else pool)"

text \<open>Pages and images have a pool each.\<close>

record fetch_pools =
  ps_pages :: fetch_pool
  ps_images :: fetch_pool

definition new_pools :: fetch_pools where
  "new_pools = \<lparr>ps_pages = \<lparr>fp_free = 12, fp_workers = []\<rparr>, ps_images = \<lparr>fp_free = 4, fp_workers = []\<rparr>\<rparr>"

definition fetch_url_document ::
  "nat \<Rightarrow> bool \<Rightarrow> fetched_document option \<Rightarrow> fetch_pools \<Rightarrow> fetched_document option \<times> fetch_pools" where
  "fetch_url_document job submitted ended pools =
     (case run_bounded_fetch job submitted ended (ps_pages pools) of
        (Inl _, pool) \<Rightarrow> (None, pools\<lparr>ps_pages := pool\<rparr>)
      | (Inr document, pool) \<Rightarrow> (document, pools\<lparr>ps_pages := pool\<rparr>))"

definition fetch_image_content ::
  "nat \<Rightarrow> bool \<Rightarrow> (string \<times> string) option \<Rightarrow> fetch_pools \<Rightarrow> (unit + (string \<times> string) option) \<times> fetch_pools" where
  "fetch_image_content job submitted ended pools =
     (case run_bounded_fetch job submitted ended (ps_images pools) of
        (result, pool) \<Rightarrow> (result, pools\<lparr>ps_images := pool\<rparr>))"

definition fetch_url_content ::
  "nat \<Rightarrow> bool \<Rightarrow> fetched_document option \<Rightarrow> fetch_pools \<Rightarrow> string option \<times> fetch_pools" where
  "fetch_url_content job submitted ended pools =
     (case fetch_url_document job submitted ended pools of
        (document, pools) \<Rightarrow> (map_option fd_text document, pools))"

section \<open>Several URLs\<close>

text \<open>\<open>completed\<close>: the fetches that ended within the turn's budget, in the order they ended; \<open>None\<close> is a failed one.\<close>

definition fetch_urls_documents ::
  "string list \<Rightarrow> (string \<times> fetched_document option) list \<Rightarrow> (string \<times> fetched_document) list" where
  "fetch_urls_documents urls completed =
     (let unique_urls = take MAX_URLS_PER_MESSAGE (unique_keys urls);
          result = map_of (rev (List.map_filter
                     (\<lambda>(url, document). case document of
                        Some d \<Rightarrow> if fd_text d = [] then None else Some (url, d)
                      | None \<Rightarrow> None)
                     (filter (\<lambda>(url, _). url \<in> set unique_urls) completed)))
      in List.map_filter (\<lambda>url. map_option (Pair url) (result url)) unique_urls)"

definition fetch_urls_content ::
  "string list \<Rightarrow> (string \<times> fetched_document option) list \<Rightarrow> (string \<times> string) list" where
  "fetch_urls_content urls completed =
     map (\<lambda>(url, document). (url, fd_text document)) (fetch_urls_documents urls completed)"

end
