(* ===== verification/Url_Safety.thy ===== *)
theory Url_Safety
  imports Url_Fetch
begin

text \<open>
  What the fetching of URLs promises: connections go only to addresses that were checked (unless the HTTP library
  reads another host in the URL), a fetched document
  and an image stay within their bounds, a canonical URL reads back as the parts it was made of, and the
  slots of the pools are never lost.
\<close>

section \<open>Connections\<close>

text \<open>An address that was checked: the first of the resolver's answers at some hop, all of which are public.\<close>

definition checked_address :: "fetch_env \<Rightarrow> hop list \<Rightarrow> target \<Rightarrow> bool" where
  "checked_address E hops t \<longleftrightarrow>
     (\<exists>h \<in> set hops. \<exists>answers ip. hp_answers h = Some answers \<and> answers \<noteq> [] \<and>
        list_all (\<lambda>(_, address). \<exists>info. fe_parse_ip E address = Some info \<and> public_ip info) answers \<and>
        fe_parse_ip E (snd (hd answers)) = Some ip \<and> t = Pinned (ip_text ip))"

text \<open>
  The one other connection the code can make.  \<open>_pin_dns\<close> files the checked address under the host that
  \<open>urlsplit\<close> reads in the canonical URL, and the HTTP library looks it up under the host that it reads itself
  after its own normalisation of the URL (\<open>requests\<close> resolves percent escapes of unreserved characters in the whole
  URL).  Where the two differ, the look-up can miss and the library's host is resolved again, unchecked.
\<close>

definition unpinned_host :: "fetch_env \<Rightarrow> target \<Rightarrow> bool" where
  "unpinned_host E t \<longleftrightarrow>
     (\<exists>u v host. canonicalize_url (fe_urls E) u = Some v \<and> url_host (fe_urls E) v = Some host \<and>
        fe_request_host E v \<noteq> host \<and> t = Resolve_Again (fe_request_host E v))"

definition connection_ok :: "fetch_env \<Rightarrow> hop list \<Rightarrow> target \<Rightarrow> bool" where
  "connection_ok E hops t \<longleftrightarrow> checked_address E hops t \<or> unpinned_host E t"

lemma safe_ips_public:
  "safe_ips E answers = Some ips \<Longrightarrow>
   list_all (\<lambda>(_, address). \<exists>info. fe_parse_ip E address = Some info \<and> public_ip info) answers \<and>
   ips = map (\<lambda>(_, address). ip_text (the (fe_parse_ip E address))) answers"
  by (induction E answers arbitrary: ips rule: safe_ips.induct) (auto split: if_splits option.splits)

lemma resolve_safe_ip_checked:
  assumes "resolve_safe_ip E (hp_answers h) url = Some ip" "h \<in> set hops"
  shows "checked_address E hops (Pinned ip)"
proof -
  obtain a rest ips where answers: "hp_answers h = Some (a # rest)" "safe_ips E (a # rest) = Some ips" "ip = hd ips"
    using assms(1) by (auto simp: resolve_safe_ip_def split: option.splits if_splits list.splits)
  note public = safe_ips_public [OF answers(2)]
  obtain info where "fe_parse_ip E (snd a) = Some info" using public by (cases a) auto
  with public answers assms(2) show ?thesis
    unfolding checked_address_def
    by (intro bexI [of _ h] exI [of _ "a # rest"] exI [of _ info]) (auto split: prod.splits)
qed

text \<open>One round of the loop: it stops before it connects, or it connects and ends or follows a redirect.\<close>

lemma open_hops_round:
  obtains (stopped) r where "open_hops E deadline (h # hops) url mapping log = (r, log)"
  | (connected) v ip host r where "canonicalize_url (fe_urls E) url = Some v"
      "resolve_safe_ip E (hp_answers h) v = Some ip" "url_host (fe_urls E) v = Some host"
      "open_hops E deadline (h # hops) url mapping log =
         (r, log @ [pinned_create_connection (mapping(host \<mapsto> ip)) (fe_request_host E v)])"
  | (followed) v ip host next_url where "canonicalize_url (fe_urls E) url = Some v"
      "resolve_safe_ip E (hp_answers h) v = Some ip" "url_host (fe_urls E) v = Some host"
      "open_hops E deadline (h # hops) url mapping log =
         open_hops E deadline hops next_url (mapping(host \<mapsto> ip))
           (log @ [pinned_create_connection (mapping(host \<mapsto> ip)) (fe_request_host E v)])"
proof -
  consider (early) "deadline \<le> hp_entered h"
    | (invalid) "canonicalize_url (fe_urls E) url = None"
    | (unsafe) v where "canonicalize_url (fe_urls E) url = Some v" "resolve_safe_ip E (hp_answers h) v = None"
    | (slow) v ip where "canonicalize_url (fe_urls E) url = Some v" "resolve_safe_ip E (hp_answers h) v = Some ip"
        "deadline \<le> hp_resolved h"
    | (unsplit) v ip where "canonicalize_url (fe_urls E) url = Some v" "resolve_safe_ip E (hp_answers h) v = Some ip"
        "\<not> deadline \<le> hp_entered h" "\<not> deadline \<le> hp_resolved h" "urlsplit (fe_urls E) v = None"
    | (no_host) v ip p where "canonicalize_url (fe_urls E) url = Some v" "resolve_safe_ip E (hp_answers h) v = Some ip"
        "urlsplit (fe_urls E) v = Some p" "url_hostname p = None"
    | (go) v ip p host where "canonicalize_url (fe_urls E) url = Some v" "resolve_safe_ip E (hp_answers h) v = Some ip"
        "\<not> deadline \<le> hp_entered h" "\<not> deadline \<le> hp_resolved h"
        "urlsplit (fe_urls E) v = Some p" "url_hostname p = Some host"
    by (metis option.exhaust)
  then show ?thesis
  proof cases
    case unsplit
    then show ?thesis using stopped [of Open_Failed] by simp
  next
    case (go v ip p host)
    note v = go(1,3) and ip = go(2) and late = go(4) and p = go(5) and host = go(6)
    have h: "url_host (fe_urls E) v = Some host" using p host by (simp add: url_host_def)
    note run = v ip late p host
    show ?thesis
    proof (cases "hp_response h")
      case None
      then show ?thesis using connected [OF v(1) ip h] run by (simp add: Let_def)
    next
      case (Some response)
      let ?go = "\<lambda>next_url. redirect_status (rs_status response) \<and> (\<exists>location. rs_location response = Some location \<and>
        location \<noteq> [] \<and> ul_urljoin (fe_urls E) v location = Some next_url)"
      show ?thesis
      proof (cases "\<exists>next_url. ?go next_url")
        case True
        then show ?thesis using followed [OF v(1) ip h] run Some by (auto simp: Let_def)
      next
        case False
        then have "\<exists>r. open_hops E deadline (h # hops) url mapping log =
            (r, log @ [pinned_create_connection (mapping(host \<mapsto> ip)) (fe_request_host E v)])"
          using run Some by (auto simp: Let_def split: option.splits)
        then show ?thesis using connected [OF v(1) ip h] by blast
      qed
    qed
  qed (use stopped [of Not_Opened] in simp_all)
qed

text \<open>Every address a mapping holds was checked; then a connection goes to a checked address or misses the mapping.\<close>

definition mapping_checked :: "fetch_env \<Rightarrow> hop list \<Rightarrow> (string \<Rightarrow> string option) \<Rightarrow> bool" where
  "mapping_checked E hops mapping \<longleftrightarrow> (\<forall>host ip. mapping host = Some ip \<longrightarrow> checked_address E hops (Pinned ip))"

lemma mapping_checked_pin:
  "mapping_checked E hops mapping \<Longrightarrow> checked_address E hops (Pinned ip) \<Longrightarrow> mapping_checked E hops (mapping(host \<mapsto> ip))"
  by (auto simp: mapping_checked_def)

lemma pinned_connection_ok:
  assumes "mapping_checked E hops mapping" "mapping host \<noteq> None"
    "canonicalize_url (fe_urls E) u = Some v" "url_host (fe_urls E) v = Some host"
  shows "connection_ok E hops (pinned_create_connection mapping (fe_request_host E v))"
proof (cases "mapping (fe_request_host E v)")
  case None
  then have "unpinned_host E (Resolve_Again (fe_request_host E v))"
    unfolding unpinned_host_def using assms(2-4) by (intro exI [of _ u] exI [of _ v] exI [of _ host]) auto
  with None show ?thesis by (simp add: connection_ok_def pinned_create_connection_def)
qed (use assms(1) in \<open>auto simp: connection_ok_def pinned_create_connection_def mapping_checked_def\<close>)

lemma open_hops_checked:
  "set hops \<subseteq> set all \<Longrightarrow> mapping_checked E all mapping \<Longrightarrow> list_all (connection_ok E all) log \<Longrightarrow>
    list_all (connection_ok E all) (snd (open_hops E deadline hops url mapping log)) \<and>
    length (snd (open_hops E deadline hops url mapping log)) \<le> length log + length hops"
proof (induction hops arbitrary: url mapping log)
  case (Cons h hops)
  have pin: "mapping_checked E all (mapping(host \<mapsto> ip))" if "resolve_safe_ip E (hp_answers h) v = Some ip" for v ip host
    by (rule mapping_checked_pin [OF Cons.prems(2) resolve_safe_ip_checked [OF that]]) (use Cons.prems(1) in simp)
  have ok: "connection_ok E all (pinned_create_connection (mapping(host \<mapsto> ip)) (fe_request_host E v))"
    if "canonicalize_url (fe_urls E) url = Some v" "resolve_safe_ip E (hp_answers h) v = Some ip"
      "url_host (fe_urls E) v = Some host" for v ip host
    by (rule pinned_connection_ok [OF pin [OF that(2)] _ that(1,3)]) simp
  show ?case
  proof (rule open_hops_round [of E deadline h hops url mapping log])
    fix v ip host r
    assume "canonicalize_url (fe_urls E) url = Some v" "resolve_safe_ip E (hp_answers h) v = Some ip"
      "url_host (fe_urls E) v = Some host"
      "open_hops E deadline (h # hops) url mapping log =
         (r, log @ [pinned_create_connection (mapping(host \<mapsto> ip)) (fe_request_host E v)])"
    then show ?thesis using ok Cons.prems(3) by simp
  next
    fix v ip host next_url
    let ?log = "log @ [pinned_create_connection (mapping(host \<mapsto> ip)) (fe_request_host E v)]"
    assume "canonicalize_url (fe_urls E) url = Some v" and ip: "resolve_safe_ip E (hp_answers h) v = Some ip"
      and "url_host (fe_urls E) v = Some host"
      and run: "open_hops E deadline (h # hops) url mapping log = open_hops E deadline hops next_url (mapping(host \<mapsto> ip)) ?log"
    then have "list_all (connection_ok E all) ?log" using ok Cons.prems(3) by simp
    then show ?thesis
      unfolding run using Cons.IH [OF _ pin [OF ip, of host], of ?log next_url] Cons.prems(1) by (simp del: fun_upd_apply)
  qed (use Cons.prems in simp)
qed simp

text \<open>
  C16: Whatever the resolver and the servers answer, and even if the resolver changes its answers between the
  check and the connection, each connection of a fetch of a page or an image goes to an address it checked
  (the first answer of the resolver at one of its hops, where every address of that answer was public), with
  one exception: a host that the HTTP library reads in a canonical URL differently from \<open>urlsplit\<close> is resolved
  again.  A fetch makes at most six connections.
\<close>

theorem fetch_only_public:
  "list_all (connection_ok E (map hops [0..<6])) (snd (fetch_url_document_impl E started hops url)) \<and>
   list_all (connection_ok E (map hops [0..<6])) (snd (fetch_image_content_impl E started hops url)) \<and>
   length (snd (fetch_url_document_impl E started hops url)) \<le> 6 \<and>
   length (snd (fetch_image_content_impl E started hops url)) \<le> 6"
proof -
  let ?run = "open_validated_response E (started + URL_FETCH_TIMEOUT) hops url"
  have "mapping_checked E (map hops [0..<6]) (\<lambda>_. None)" by (simp add: mapping_checked_def)
  from open_hops_checked [OF subset_refl this, of "[]" "started + URL_FETCH_TIMEOUT" url]
  have "list_all (connection_ok E (map hops [0..<6])) (snd ?run) \<and> length (snd ?run) \<le> 6"
    by (simp add: open_validated_response_def)
  moreover have "snd (fetch_url_document_impl E started hops url) = snd ?run"
    "snd (fetch_image_content_impl E started hops url) = snd ?run"
    by (auto simp: fetch_url_document_impl_def fetch_image_content_impl_def Let_def split: prod.splits opened.splits)
  ultimately show ?thesis by simp
qed

text \<open>A resolver and servers for examples: a public host that redirects to a link-local address.\<close>

definition sample_ip :: "string \<Rightarrow> ip_info" where
  "sample_ip address = \<lparr>ip_text = address, ip_is_v6 = False, ip_is_global = (address = ''93.184.216.34''),
     ip_is_multicast = False, ip_is_reserved = False, ip_is_unspecified = False, ip_mapped_global = None\<rparr>"

definition sample_urls :: url_lib where
  "sample_urls = \<lparr>ul_idna = Some, ul_is_ipv6 = \<lambda>_. False, ul_netloc_ok = \<lambda>_. False, ul_urljoin = \<lambda>_ location. Some location\<rparr>"

definition sample_env :: fetch_env where
  "sample_env = \<lparr>fe_urls = sample_urls, fe_parse_ip = \<lambda>address. Some (sample_ip address),
     fe_request_host = \<lambda>v. (case url_host sample_urls v of Some host \<Rightarrow> host | None \<Rightarrow> []),
     fe_codecs = \<lparr>cl_lookup = Some, cl_detect = \<lambda>_. None, cl_decode = \<lambda>_ raw. Some raw\<rparr>,
     fe_html_events = \<lambda>raw. [Text_Data raw]\<rparr>"

definition sample_hop :: "string \<Rightarrow> response \<Rightarrow> hop" where
  "sample_hop address response = \<lparr>hp_entered = 0, hp_answers = Some [(AF_INET, address)], hp_resolved = 0,
     hp_response = Some response\<rparr>"

definition sample_page :: "string \<Rightarrow> response" where
  "sample_page media = \<lparr>rs_status = 200, rs_location = None, rs_content_type = Some media,
     rs_chunks = [Some (''some '', 0), Some (''text'', 0)]\<rparr>"

definition sample_redirect :: response where
  "sample_redirect = \<lparr>rs_status = 302, rs_location = Some ''http://169.254.169.254/'', rs_content_type = None, rs_chunks = []\<rparr>"

definition sample_hops :: "nat \<Rightarrow> hop" where
  "sample_hops i = (if i = 0 then sample_hop ''93.184.216.34'' sample_redirect
     else sample_hop ''169.254.169.254'' (sample_page ''text/plain''))"

text \<open>The redirect is not followed: the second hop fails the address check.\<close>

theorem fetch_only_public_witness:
  "fetch_url_document_impl sample_env 0 sample_hops ''http://example.com'' = (None, [Pinned ''93.184.216.34'']) \<and>
   connection_ok sample_env (map sample_hops [0..<6]) (Pinned ''93.184.216.34'')"
proof -
  have run: "fetch_url_document_impl sample_env 0 sample_hops ''http://example.com'' = (None, [Pinned ''93.184.216.34''])"
    by code_simp
  show ?thesis
    using fetch_only_public [where E = sample_env and started = 0 and hops = sample_hops and url = "''http://example.com''"]
    by (simp add: run del: upt_Suc)
qed

text \<open>
  The exception happens.  With a library that resolves the escape in the host, the check looks up
  \<open>a%2eexample.com\<close> and the connection goes to whatever \<open>a.example.com\<close> resolves to then.
\<close>

lemma percent_host_resolved_again:
  "fetch_url_document_impl
     (sample_env\<lparr>fe_request_host := \<lambda>v. if v = ''http://a%2eexample.com/'' then ''a.example.com'' else []\<rparr>)
     0 sample_hops ''http://a%2eexample.com/'' = (None, [Resolve_Again ''a.example.com''])"
  by code_simp

section \<open>Bodies\<close>

text \<open>A body shorter than the cap is everything the server sent, read in time.\<close>

lemma read_body_bounded:
  "read_body deadline cap data chunks = Body d \<Longrightarrow> length data \<le> cap \<Longrightarrow>
   length d \<le> cap \<and>
   (length d < cap \<longrightarrow>
      (\<exists>parts. chunks = map Some parts \<and> (\<forall>(_, now) \<in> set parts. now < deadline) \<and>
         d = data @ concat (map fst parts)))"
proof (induction deadline cap data chunks rule: read_body.induct)
  case (3 deadline cap data chunk now chunks)
  let ?data = "data @ take (cap - length data) chunk"
  have le: "length ?data \<le> cap" using 3(3) by simp
  show ?case
  proof (cases "cap \<le> length ?data")
    case True
    then show ?thesis using 3(2) le by (auto simp: Let_def split: if_splits)
  next
    case False
    then have all: "?data = data @ chunk" by simp
    have now: "now < deadline" and run: "read_body deadline cap ?data chunks = Body d"
      using 3(2) False by (auto simp: Let_def split: if_splits)
    have "\<not> deadline \<le> now" using now by simp
    note IH = 3(1) [OF this refl False run le]
    show ?thesis
    proof (intro conjI impI)
      assume "length d < cap"
      then obtain parts where "chunks = map Some parts" "\<forall>(_, now) \<in> set parts. now < deadline"
        "d = ?data @ concat (map fst parts)" using IH by blast
      then show "\<exists>parts. Some (chunk, now) # chunks = map Some parts \<and> (\<forall>(_, now) \<in> set parts. now < deadline) \<and>
          d = data @ concat (map fst parts)"
        using now all by (intro exI [of _ "(chunk, now) # parts"]) auto
    qed (use IH in simp)
  qed
qed auto

lemma open_hops_response:
  "open_hops E deadline hops url mapping log = (Opened response final_url, log') \<Longrightarrow>
   (\<exists>h \<in> set hops. hp_response h = Some response) \<and> \<not> redirect_status (rs_status response) \<and>
   (\<exists>u. canonicalize_url (fe_urls E) u = Some final_url)"
proof (induction hops arbitrary: url mapping log)
  case (Cons h hops)
  then show ?case
    by (simp add: Let_def split: if_splits option.splits) blast+
qed simp

lemma open_validated_response_from:
  assumes "open_validated_response E deadline hops url = (Opened response final_url, log)"
  shows "(\<exists>i < 6. hp_response (hops i) = Some response) \<and> (\<exists>u. canonicalize_url (fe_urls E) u = Some final_url)"
  using open_hops_response [OF assms [unfolded open_validated_response_def]] by fastforce

text \<open>
  C32: An image that is passed on is never a cut one: it is the whole body of a response the server gave at one
  of the hops, all of it read before the deadline, neither empty nor over four million bytes, and its media
  type is one of the raster types, so never SVG.
\<close>

theorem relayed_image_whole:
  assumes "fst (fetch_image_content_impl E started hops url) = Some (media, data)"
  shows "\<exists>i < 6. \<exists>response parts. hp_response (hops i) = Some response \<and> rs_chunks response = map Some parts \<and>
    (\<forall>(_, now) \<in> set parts. now < started + URL_FETCH_TIMEOUT) \<and> data = concat (map fst parts) \<and>
    0 < length data \<and> length data \<le> MAX_IMAGE_RESPONSE_BYTES \<and>
    media = media_type response \<and> media \<in> set FETCHABLE_IMAGE_MEDIA_TYPES"
proof -
  obtain response final_url log where
    o: "open_validated_response E (started + URL_FETCH_TIMEOUT) hops url = (Opened response final_url, log)"
    and img: "image_of_response (started + URL_FETCH_TIMEOUT) response = Some (media, data)"
    using assms by (auto simp: fetch_image_content_impl_def Let_def split: prod.splits opened.splits)
  have body: "read_body (started + URL_FETCH_TIMEOUT) (MAX_IMAGE_RESPONSE_BYTES + 1) [] (rs_chunks response) = Body data"
    and ok: "data \<noteq> []" "length data \<le> MAX_IMAGE_RESPONSE_BYTES" "media = media_type response"
      "media \<in> set FETCHABLE_IMAGE_MEDIA_TYPES"
    using img by (auto simp: image_of_response_def read_response_body_def split: if_splits body.splits)
  obtain i where "i < 6" "hp_response (hops i) = Some response" using open_validated_response_from [OF o] by blast
  moreover obtain parts where "rs_chunks response = map Some parts"
    "\<forall>(_, now) \<in> set parts. now < started + URL_FETCH_TIMEOUT" "data = concat (map fst parts)"
    using read_body_bounded [OF body] ok(2) by auto
  ultimately show ?thesis using ok by blast
qed

text \<open>The example at work: the response is opened, its body read and its media type taken from the header.\<close>

definition sample_site :: "string \<Rightarrow> nat \<Rightarrow> hop" where
  "sample_site media i = sample_hop ''93.184.216.34'' (sample_page media)"

lemma sample_opened:
  "open_validated_response sample_env (0 + URL_FETCH_TIMEOUT) (sample_site media) ''https://example.com/a'' =
   (Opened (sample_page media) ''https://example.com/a'', [Pinned ''93.184.216.34''])"
proof -
  have canonical: "canonicalize_url (fe_urls sample_env) ''https://example.com/a'' = Some ''https://example.com/a''"
    by code_simp
  have ip: "resolve_safe_ip sample_env (Some [(AF_INET, ''93.184.216.34'')]) ''https://example.com/a'' = Some ''93.184.216.34''"
    by code_simp
  have split: "urlsplit (fe_urls sample_env) ''https://example.com/a'' =
      Some \<lparr>su_scheme = ''https'', su_netloc = ''example.com'', su_path = ''/a'', su_query = [], su_fragment = []\<rparr>"
    by code_simp
  have host: "url_hostname \<lparr>su_scheme = ''https'', su_netloc = ''example.com'', su_path = ''/a'', su_query = [], su_fragment = []\<rparr>
      = Some ''example.com''" "fe_request_host sample_env ''https://example.com/a'' = ''example.com''"
    by code_simp+
  have status: "\<not> redirect_status 200" by code_simp
  have hops: "map (sample_site media) [0..<MAX_REDIRECT_HOPS + 1] = sample_site media 0 # map (sample_site media) [1..<6]"
    by (simp add: upt_rec)
  show ?thesis
    unfolding open_validated_response_def hops
    by (simp add: canonical ip split host status sample_site_def sample_hop_def sample_page_def pinned_create_connection_def
        Let_def del: upt_Suc)
qed

lemma sample_body:
  assumes "10 \<le> cap"
  shows "read_response_body (0 + URL_FETCH_TIMEOUT) cap (sample_page media) = Body ''some text''"
  using assms by (simp add: read_response_body_def sample_page_def Let_def)

theorem relayed_image_whole_witness:
  "fst (fetch_image_content_impl sample_env 0 (sample_site ''image/png'') ''https://example.com/a'') =
     Some (''image/png'', ''some text'') \<and>
   ''image/png'' \<in> set FETCHABLE_IMAGE_MEDIA_TYPES"
proof -
  have media: "media_type (sample_page ''image/png'') = ''image/png''" "\<not> bad_status (sample_page ''image/png'')"
    "''image/png'' \<in> set FETCHABLE_IMAGE_MEDIA_TYPES"
    by code_simp+
  have run: "fst (fetch_image_content_impl sample_env 0 (sample_site ''image/png'') ''https://example.com/a'') =
      Some (''image/png'', ''some text'')"
    unfolding fetch_image_content_impl_def Let_def sample_opened image_of_response_def
    by (simp add: media sample_body [simplified])
  show ?thesis using relayed_image_whole [OF run] run by auto
qed

section \<open>Documents\<close>

definition canonical_url :: "url_lib \<Rightarrow> string \<Rightarrow> bool" where
  "canonical_url L v \<longleftrightarrow>
     (\<exists>u. canonicalize_url L u = Some v) \<and> (startswith v ''http://'' \<or> startswith v ''https://'') \<and> length v \<le> 1000"

lemma canonicalize_url_form:
  assumes "canonicalize_url L u = Some v"
  obtains p netloc where "urlsplit L (py_strip u) = Some p" "su_scheme p \<in> {''http'', ''https''}" "\<not> url_has_user p"
    "v = urlunsplit (su_scheme p) netloc (or_default (su_path p) ''/'') (su_query p)" "length v \<le> 1000"
proof (cases "urlsplit L (py_strip u)")
  case (Some p)
  with assms that [OF Some] show ?thesis
    by (cases "url_hostname p")
       (auto simp: canonicalize_url_def Let_def simp del: insert_iff split: if_splits option.splits sum.splits)
qed (use assms in \<open>simp add: canonicalize_url_def\<close>)

lemma canonical_urlI:
  assumes "canonicalize_url L u = Some v"
  shows "canonical_url L v"
proof -
  have "(startswith v ''http://'' \<or> startswith v ''https://'') \<and> length v \<le> 1000"
    by (rule canonicalize_url_form [OF assms]) (auto simp: urlunsplit_def startswith_def)
  with assms show ?thesis unfolding canonical_url_def by blast
qed

definition link_ok :: "url_lib \<Rightarrow> fetched_link \<Rightarrow> bool" where
  "link_ok L l \<longleftrightarrow> canonical_url L (fl_url l) \<and> fl_text l \<noteq> [] \<and> length (fl_text l) \<le> 240 \<and> length (fl_context l) \<le> 320"

definition image_ok :: "url_lib \<Rightarrow> fetched_image \<Rightarrow> bool" where
  "image_ok L i \<longleftrightarrow> canonical_url L (fi_url i) \<and> length (fi_alt i) \<le> 240 \<and> length (fi_title i) \<le> 240"

definition document_ok :: "url_lib \<Rightarrow> fetched_document \<Rightarrow> bool" where
  "document_ok L d \<longleftrightarrow>
     canonical_url L (fd_final_url d) \<and> fd_text d \<noteq> [] \<and> length (fd_text d) \<le> 30000 \<and> length (fd_title d) \<le> 240 \<and>
     length (fd_links d) \<le> 40 \<and> list_all (link_ok L) (fd_links d) \<and>
     distinct (fd_final_url d # map fl_url (fd_links d)) \<and>
     length (fd_images d) \<le> 20 \<and> list_all (image_ok L) (fd_images d) \<and> distinct (map fi_url (fd_images d))"

lemma take_last_length [simp]: "length (take_last n s) \<le> n"
  by (simp add: take_last_def)

text \<open>The links: what is collected stays within the cap, without a repeated URL.\<close>

lemma collect_links_ok:
  "collect_links L base seen links raw = Some links' \<Longrightarrow> length links < 40 \<Longrightarrow> list_all (link_ok L) links \<Longrightarrow>
   distinct (u # map fl_url links) \<Longrightarrow> insert u (fl_url ` set links) \<subseteq> seen \<Longrightarrow>
   length links' \<le> 40 \<and> list_all (link_ok L) links' \<and> distinct (u # map fl_url links')"
proof (induction raw arbitrary: seen links)
  case (Cons r raw)
  obtain href t c where r: "r = (href, t, c)" by (cases r)
  obtain joined where j: "ul_urljoin L base href = Some joined" using Cons.prems(1) r by (auto split: option.splits)
  show ?case
  proof (cases "canonicalize_url L joined")
    case None
    then show ?thesis using Cons j r by simp
  next
    case (Some url)
    let ?text = "take 240 (squeeze t)"
    let ?new = "\<lparr>fl_url = url, fl_text = ?text, fl_context = take_last 320 (squeeze c)\<rparr>"
    consider (seen) "url \<in> seen" | (empty) "url \<notin> seen" "?text = []" | (new) "url \<notin> seen" "?text \<noteq> []" by blast
    then show ?thesis
    proof cases
      case seen
      then show ?thesis using Cons j r Some by simp
    next
      case empty
      then have run: "collect_links L base (insert url seen) links raw = Some links'" using Cons.prems(1) j r Some by (simp add: Let_def)
      show ?thesis by (rule Cons.IH [OF run Cons.prems(2-4)]) (use Cons.prems(5) in auto)
    next
      case new
      have "link_ok L ?new" using new Some by (simp add: link_ok_def canonical_urlI)
      then have ok: "list_all (link_ok L) (links @ [?new])" using Cons.prems(3) by simp
      have d: "distinct (u # map fl_url (links @ [?new]))" using Cons.prems(4,5) new by auto
      show ?thesis
      proof (cases "40 \<le> length (links @ [?new])")
        case True
        then have "links' = links @ [?new]" using Cons.prems(1) j r Some new by (simp add: Let_def)
        then show ?thesis using ok d Cons.prems(2) by simp
      next
        case False
        then have run: "collect_links L base (insert url seen) (links @ [?new]) raw = Some links'"
          using Cons.prems(1) j r Some new by (simp add: Let_def)
        show ?thesis by (rule Cons.IH [OF run _ ok d]) (use False Cons.prems(5) in auto)
      qed
    qed
  qed
qed simp

lemma collect_images_ok:
  "collect_images L base seen images raw = Some images' \<Longrightarrow> length images < 20 \<Longrightarrow> list_all (image_ok L) images \<Longrightarrow>
   distinct (map fi_url images) \<Longrightarrow> fi_url ` set images \<subseteq> seen \<Longrightarrow>
   length images' \<le> 20 \<and> list_all (image_ok L) images' \<and> distinct (map fi_url images')"
proof (induction raw arbitrary: seen images)
  case (Cons r raw)
  obtain href alt t k where r: "r = (href, alt, t, k)" by (cases r)
  obtain joined where j: "ul_urljoin L base href = Some joined" using Cons.prems(1) r by (auto split: option.splits)
  show ?case
  proof (cases "canonicalize_url L joined = None \<or> the (canonicalize_url L joined) \<in> seen")
    case True
    then have run: "collect_images L base seen images raw = Some images'"
      using Cons.prems(1) j r by (cases "canonicalize_url L joined") auto
    show ?thesis by (rule Cons.IH [OF run Cons.prems(2-5)])
  next
    case False
    then obtain url where url: "canonicalize_url L joined = Some url" "url \<notin> seen" by auto
    let ?new = "\<lparr>fi_url = url, fi_alt = take 240 (squeeze alt), fi_title = take 240 (squeeze t), fi_kind = k\<rparr>"
    have "image_ok L ?new" using url by (simp add: image_ok_def canonical_urlI)
    then have ok: "list_all (image_ok L) (images @ [?new])" using Cons.prems(3) by simp
    have d: "distinct (map fi_url (images @ [?new]))" using Cons.prems(4,5) url by auto
    show ?thesis
    proof (cases "20 \<le> length (images @ [?new])")
      case True
      then have "images' = images @ [?new]" using Cons.prems(1) j r url by (simp add: Let_def)
      then show ?thesis using ok d Cons.prems(2) by simp
    next
      case False
      then have run: "collect_images L base (insert url seen) (images @ [?new]) raw = Some images'"
        using Cons.prems(1) j r url by (simp add: Let_def)
      show ?thesis by (rule Cons.IH [OF run _ ok d]) (use False Cons.prems(5) in auto)
    qed
  qed
qed simp

lemma extracted_document_ok:
  assumes "extract_document_from_html L events requested final = Some d" "fd_text d \<noteq> []"
  shows "document_ok L d \<and> fd_requested_url d = requested"
proof -
  obtain u base links images where c: "canonicalize_url L final = Some u"
    and links: "collect_links L base {u} [] (get_raw_links (feed events)) = Some links"
    and images: "collect_images L base {} [] (ex_raw_images (feed events)) = Some images"
    and d: "d = \<lparr>fd_requested_url = requested, fd_final_url = u, fd_title = get_title (feed events),
      fd_text = take 30000 (get_text (feed events)), fd_links = links, fd_images = images\<rparr>"
    using assms(1) by (auto simp: extract_document_from_html_def Let_def split: option.splits)
  show ?thesis
    using collect_links_ok [OF links, of u] collect_images_ok [OF images] canonical_urlI [OF c] assms(2)
    by (auto simp: d document_ok_def get_title_def)
qed

text \<open>
  A page that is returned fits its bounds whatever the server sends: a text of 1 to 30,000 characters, a
  title of at most 240, at most 40 links and 20 images, whose URLs are canonical (HTTP or HTTPS and at
  most 1,000 characters long) and do not repeat, no link to the page itself, every link with a
  text of 1 to 240 characters and at most 320 of context.
\<close>

theorem fetched_page_within_bounds:
  assumes "fst (fetch_url_document_impl E started hops url) = Some d"
  shows "document_ok (fe_urls E) d \<and> fd_requested_url d = url"
proof -
  obtain response final_url log where
    o: "open_validated_response E (started + URL_FETCH_TIMEOUT) hops url = (Opened response final_url, log)"
    and page: "page_of_response E (started + URL_FETCH_TIMEOUT) url response final_url = Some d"
    using assms by (auto simp: fetch_url_document_impl_def Let_def split: prod.splits opened.splits)
  have canonical: "canonical_url (fe_urls E) final_url"
    using open_validated_response_from [OF o] canonical_urlI by blast
  obtain raw where "extract_document_from_html (fe_urls E) (fe_html_events E raw) url final_url = Some d \<and> fd_text d \<noteq> [] \<or>
      take 30000 raw \<noteq> [] \<and> d = \<lparr>fd_requested_url = url, fd_final_url = final_url, fd_title = [], fd_text = take 30000 raw,
        fd_links = [], fd_images = []\<rparr>"
    using page by (auto simp: page_of_response_def Let_def split: if_splits body.splits option.splits)
  then show ?thesis
  proof
    assume "extract_document_from_html (fe_urls E) (fe_html_events E raw) url final_url = Some d \<and> fd_text d \<noteq> []"
    then show ?thesis using extracted_document_ok by blast
  qed (use canonical in \<open>simp add: document_ok_def\<close>)
qed

theorem fetched_page_within_bounds_witness:
  "\<exists>d. fst (fetch_url_document_impl sample_env 0 (sample_site ''text/html'') ''https://example.com/a'') = Some d \<and>
     document_ok sample_urls d \<and> fd_text d = ''some text''"
proof -
  have media: "media_type (sample_page ''text/html'') = ''text/html''" "\<not> bad_status (sample_page ''text/html'')"
    by code_simp+
  have env: "fe_urls sample_env = sample_urls" "fe_html_events sample_env ''some text'' = [Text_Data ''some text'']"
    "rs_content_type (sample_page ''text/html'') = Some ''text/html''"
    by (simp_all add: sample_env_def sample_page_def)
  have decoded: "decode_response_body (fe_codecs sample_env) ''some text'' (py_lower ''text/html'') True = Some ''some text''"
    by code_simp
  have c: "canonicalize_url sample_urls ''https://example.com/a'' = Some ''https://example.com/a''" by code_simp
  have ex: "get_raw_links (feed [Text_Data ''some text'']) = []" "ex_raw_images (feed [Text_Data ''some text'']) = []"
    "ex_base_href (feed [Text_Data ''some text'']) = []" "get_text (feed [Text_Data ''some text'']) = ''some text''"
    by code_simp+
  let ?d = "\<lparr>fd_requested_url = ''https://example.com/a'', fd_final_url = ''https://example.com/a'',
    fd_title = get_title (feed [Text_Data ''some text'']), fd_text = ''some text'', fd_links = [], fd_images = []\<rparr>"
  have document: "extract_document_from_html sample_urls [Text_Data ''some text''] ''https://example.com/a'' ''https://example.com/a'' = Some ?d"
    by (simp add: extract_document_from_html_def c ex link_base_url_def)
  have run: "fst (fetch_url_document_impl sample_env 0 (sample_site ''text/html'') ''https://example.com/a'') = Some ?d"
    unfolding fetch_url_document_impl_def Let_def sample_opened page_of_response_def
    using document by (simp add: media sample_body [simplified] decoded env)
  show ?thesis using fetched_page_within_bounds [OF run] run env by auto
qed

section \<open>Slots\<close>

text \<open>
  A slot is taken for each worker and comes back with it, also when the caller has stopped waiting, and images never
  take a slot of the pages.
\<close>

definition pool_slots :: "fetch_pool \<Rightarrow> nat" where
  "pool_slots pool = fp_free pool + length (fp_workers pool)"

lemma run_bounded_fetch_slots: "pool_slots (snd (run_bounded_fetch job submitted ended pool)) = pool_slots pool"
  by (simp add: run_bounded_fetch_def pool_slots_def Let_def)

lemma worker_exits_slots: "pool_slots (worker_exits job pool) = pool_slots pool"
  by (auto simp: worker_exits_def pool_slots_def length_remove1 dest: length_pos_if_in_set)

lemma fetch_url_document_slots:
  "pool_slots (ps_pages (snd (fetch_url_document job submitted ended pools))) = pool_slots (ps_pages pools) \<and>
   ps_images (snd (fetch_url_document job submitted ended pools)) = ps_images pools"
  using run_bounded_fetch_slots [of job submitted ended "ps_pages pools"]
  by (auto simp: fetch_url_document_def split: prod.splits sum.splits)

lemma fetch_image_content_slots:
  "pool_slots (ps_images (snd (fetch_image_content job submitted ended pools))) = pool_slots (ps_images pools) \<and>
   ps_pages (snd (fetch_image_content job submitted ended pools)) = ps_pages pools"
  using run_bounded_fetch_slots [of job submitted ended "ps_images pools"]
  by (auto simp: fetch_image_content_def split: prod.splits)

end
