(* ===== verification/Image_Proxy.thy ===== *)
theory Image_Proxy
  imports Url_Safety
begin

text \<open>
  \<open>services/web_search_image_proxy.py\<close>: the signed paths through which images of search results reach a generated UI,
  and the cache in front of the origins.  A URL is the sequence of its UTF-8 bytes.  \<open>hexdigest\<close>, the hexadecimal
  HMAC-SHA256 of a text under a key, is an argument.
\<close>

section \<open>Base64\<close>

text \<open>The URL-safe alphabet without padding: \<open>urlsafe_b64encode(...).rstrip("=")\<close> and \<open>urlsafe_b64decode\<close> of a padded token.\<close>

definition b64_char :: "nat \<Rightarrow> char" where
  "b64_char n =
     char_of (if n < 26 then 65 + n else if n < 52 then 71 + n else if n < 62 then n - 4 else if n = 62 then 45 else 95)"

definition b64_value :: "char \<Rightarrow> nat option" where
  "b64_value c =
     (let n = (of_char c :: nat)
      in if 65 \<le> n \<and> n \<le> 90 then Some (n - 65)
         else if 97 \<le> n \<and> n \<le> 122 then Some (n - 71)
         else if 48 \<le> n \<and> n \<le> 57 then Some (n + 4)
         else if n = 45 then Some 62
         else if n = 95 then Some 63
         else None)"

fun b64_encode :: "string \<Rightarrow> string" where
  "b64_encode [] = []"
| "b64_encode [a] = (let a = of_char a in [b64_char (a div 4), b64_char (a mod 4 * 16)])"
| "b64_encode [a, b] =
     (let a = of_char a; b = of_char b
      in [b64_char (a div 4), b64_char (a mod 4 * 16 + b div 16), b64_char (b mod 16 * 4)])"
| "b64_encode (a # b # c # s) =
     (let a = of_char a; b = of_char b; c = of_char c
      in b64_char (a div 4) # b64_char (a mod 4 * 16 + b div 16) # b64_char (b mod 16 * 4 + c div 64) #
         b64_char (c mod 64) # b64_encode s)"

fun b64_decode :: "string \<Rightarrow> string option" where
  "b64_decode [] = Some []"
| "b64_decode [p] = None"
| "b64_decode [p, q] =
     (case (b64_value p, b64_value q) of (Some p, Some q) \<Rightarrow> Some [char_of (p * 4 + q div 16)] | _ \<Rightarrow> None)"
| "b64_decode [p, q, r] =
     (case (b64_value p, b64_value q, b64_value r) of
        (Some p, Some q, Some r) \<Rightarrow> Some [char_of (p * 4 + q div 16), char_of (q mod 16 * 16 + r div 4)]
      | _ \<Rightarrow> None)"
| "b64_decode (p # q # r # s # rest) =
     (case (b64_value p, b64_value q, b64_value r, b64_value s) of
        (Some p, Some q, Some r, Some s) \<Rightarrow>
          map_option (\<lambda>t. char_of (p * 4 + q div 16) # char_of (q mod 16 * 16 + r div 4) # char_of (r mod 4 * 64 + s) # t)
            (b64_decode rest)
      | _ \<Rightarrow> None)"

section \<open>Signed paths\<close>

abbreviation (input) SIGNATURE_LENGTH :: nat where
  "SIGNATURE_LENGTH \<equiv> 32"

definition PROXY_PATH_PREFIX :: string where
  "PROXY_PATH_PREFIX = ''/api/chat/web-images/''"

definition hex_lower :: "char \<Rightarrow> bool" where
  "hex_lower c \<longleftrightarrow> is_digit c \<or> byte_in 97 102 c"

definition signature_format :: "string \<Rightarrow> bool" where
  "signature_format s \<longleftrightarrow> length s = SIGNATURE_LENGTH \<and> list_all hex_lower s"

definition token_format :: "string \<Rightarrow> bool" where
  "token_format s \<longleftrightarrow> 1 \<le> length s \<and> length s \<le> 4000 \<and> list_all (\<lambda>c. b64_value c \<noteq> None) s"

definition image_signature :: "(string \<Rightarrow> string \<Rightarrow> string) \<Rightarrow> string option \<Rightarrow> string \<Rightarrow> string" where
  "image_signature hexdigest secret_key image_url =
     take SIGNATURE_LENGTH
       (hexdigest (or_default (rest_text secret_key) ''web-search-image-proxy-development-secret'')
         (''web-search-image-proxy:v1:'' @ image_url))"

definition build_web_search_image_proxy_path :: "(string \<Rightarrow> string \<Rightarrow> string) \<Rightarrow> string option \<Rightarrow> string \<Rightarrow> string" where
  "build_web_search_image_proxy_path hexdigest secret_key image_url =
     PROXY_PATH_PREFIX @ image_signature hexdigest secret_key image_url @ ''/'' @ b64_encode image_url"

definition resolve_web_search_image_proxy_url ::
  "(string \<Rightarrow> string \<Rightarrow> string) \<Rightarrow> string option \<Rightarrow> string \<Rightarrow> string \<Rightarrow> string option" where
  "resolve_web_search_image_proxy_url hexdigest secret_key signature token =
     (if \<not> signature_format signature \<or> \<not> token_format token then None
      else
        (case b64_decode token of
           None \<Rightarrow> None
         | Some image_url \<Rightarrow>
             if \<not> valid_utf8 image_url then None
             else if signature \<noteq> image_signature hexdigest secret_key image_url then None
             else Some image_url))"

definition is_signed_web_search_image_proxy_path ::
  "(string \<Rightarrow> string \<Rightarrow> string) \<Rightarrow> string option \<Rightarrow> string \<Rightarrow> bool" where
  "is_signed_web_search_image_proxy_path hexdigest secret_key path =
     (let rest = drop (length PROXY_PATH_PREFIX) path;
          signature = take SIGNATURE_LENGTH rest;
          token = drop (SIGNATURE_LENGTH + 1) rest
      in startswith path PROXY_PATH_PREFIX \<and> signature_format signature \<and>
         startswith (drop SIGNATURE_LENGTH rest) ''/'' \<and> token_format token \<and>
         resolve_web_search_image_proxy_url hexdigest secret_key signature token \<noteq> None)"

section \<open>The cache\<close>

type_synonym image_content = "string \<times> string"

text \<open>
  \<open>px_cache\<close> is the ordered dictionary, oldest first; \<open>px_tasks\<close> the fetches that run, \<open>px_inflight\<close> the pending ones that
  requests share, which leave the map by a callback after their task has ended.  \<open>px_fetched\<close> records which URLs were
  handed to the fetcher; the code does not keep it.
\<close>

record proxy =
  px_cache :: "(string \<times> ticks \<times> image_content option) list"
  px_bytes :: int
  px_tasks :: "string list"
  px_inflight :: "string list"
  px_fetched :: "string list"

definition new_proxy :: proxy where
  "new_proxy = \<lparr>px_cache = [], px_bytes = 0, px_tasks = [], px_inflight = [], px_fetched = []\<rparr>"

abbreviation IMAGE_CACHE_TTL :: ticks where
  "IMAGE_CACHE_TTL \<equiv> 86400 * second"

abbreviation IMAGE_FAILURE_TTL :: ticks where
  "IMAGE_FAILURE_TTL \<equiv> 600 * second"

abbreviation MAX_IMAGE_CACHE_BYTES :: int where
  "MAX_IMAGE_CACHE_BYTES \<equiv> 32000000"

abbreviation MAX_IMAGE_CACHE_ENTRIES :: nat where
  "MAX_IMAGE_CACHE_ENTRIES \<equiv> 512"

definition image_bytes :: "image_content option \<Rightarrow> int" where
  "image_bytes img = (case img of None \<Rightarrow> 0 | Some (_, data) \<Rightarrow> int (length data))"

abbreviation entry_of :: "proxy \<Rightarrow> string \<Rightarrow> (ticks \<times> image_content option) option" where
  "entry_of px \<equiv> map_of (px_cache px)"

definition drop_cached_image :: "string \<Rightarrow> proxy \<Rightarrow> proxy" where
  "drop_cached_image url px =
     (case entry_of px url of
        None \<Rightarrow> px
      | Some (_, img) \<Rightarrow>
          px\<lparr>px_cache := filter (\<lambda>(k, _). k \<noteq> url) (px_cache px), px_bytes := px_bytes px - image_bytes img\<rparr>)"

definition cached_image :: "string \<Rightarrow> ticks \<Rightarrow> proxy \<Rightarrow> image_content option option \<times> proxy" where
  "cached_image url now px =
     (case entry_of px url of
        None \<Rightarrow> (None, px)
      | Some (expires_at, img) \<Rightarrow>
          if expires_at \<le> now then (None, drop_cached_image url px)
          else (Some img, px\<lparr>px_cache := filter (\<lambda>(k, _). k \<noteq> url) (px_cache px) @ [(url, expires_at, img)]\<rparr>))"

lemma drop_first_shorter: "px_cache px \<noteq> [] \<Longrightarrow> length (px_cache (drop_cached_image (fst (hd (px_cache px))) px)) < length (px_cache px)"
  by (cases "px_cache px") (auto simp: drop_cached_image_def less_Suc_eq_le split: prod.splits)

function evict_images :: "proxy \<Rightarrow> proxy" where
  "evict_images px =
     (if 1 < length (px_cache px) \<and> (MAX_IMAGE_CACHE_BYTES < px_bytes px \<or> MAX_IMAGE_CACHE_ENTRIES < length (px_cache px))
      then evict_images (drop_cached_image (fst (hd (px_cache px))) px) else px)"
  by pat_completeness auto

termination by (relation "measure (\<lambda>px. length (px_cache px))") (auto intro: drop_first_shorter)

declare evict_images.simps [simp del]

definition image_ttl :: "image_content option \<Rightarrow> ticks" where
  "image_ttl img = (if img \<noteq> None then IMAGE_CACHE_TTL else IMAGE_FAILURE_TTL)"

definition store_image :: "string \<Rightarrow> image_content option \<Rightarrow> ticks \<Rightarrow> proxy \<Rightarrow> proxy" where
  "store_image url img now px =
     (let px = (if url \<in> fst ` set (px_cache px) then drop_cached_image url px else px)
      in evict_images
           (px\<lparr>px_cache := px_cache px @ [(url, now + image_ttl img, img)], px_bytes := px_bytes px + image_bytes img\<rparr>))"

text \<open>What \<open>load_web_search_image\<close> does at once: answer from the cache, or wait for the fetch that it shares or starts.\<close>

datatype load_answer = Answered "image_content option" | Waits

definition load_web_search_image :: "string \<Rightarrow> ticks \<Rightarrow> proxy \<Rightarrow> load_answer \<times> proxy" where
  "load_web_search_image url now px =
     (case cached_image url now px of
        (Some img, px) \<Rightarrow> (Answered img, px)
      | (None, px) \<Rightarrow>
          if url \<in> set (px_inflight px) then (Waits, px)
          else (Waits, px\<lparr>px_tasks := px_tasks px @ [url], px_inflight := px_inflight px @ [url],
                         px_fetched := px_fetched px @ [url]\<rparr>))"

text \<open>The end of \<open>_fetch_and_store_image\<close>: \<open>Inl ()\<close> is \<open>FetchSlotsBusyError\<close>.\<close>

definition fetch_and_store_image :: "string \<Rightarrow> unit + image_content option \<Rightarrow> ticks \<Rightarrow> proxy \<Rightarrow> proxy" where
  "fetch_and_store_image url outcome now px =
     (if url \<notin> set (px_tasks px) then px
      else
        (let px = px\<lparr>px_tasks := remove1 url (px_tasks px)\<rparr>
         in case outcome of Inl _ \<Rightarrow> px | Inr img \<Rightarrow> store_image url img now px))"

definition fetch_done_callback :: "string \<Rightarrow> proxy \<Rightarrow> proxy" where
  "fetch_done_callback url px =
     (if url \<in> set (px_tasks px) then px else px\<lparr>px_inflight := filter (\<lambda>u. u \<noteq> url) (px_inflight px)\<rparr>)"

datatype proxy_event =
    Load_Image string ticks
  | Fetch_Ends string "unit + image_content option" ticks
  | Fetch_Callback string

fun proxy_step :: "proxy_event \<Rightarrow> proxy \<Rightarrow> proxy" where
  "proxy_step (Load_Image url now) px = snd (load_web_search_image url now px)"
| "proxy_step (Fetch_Ends url outcome now) px = fetch_and_store_image url outcome now px"
| "proxy_step (Fetch_Callback url) px = fetch_done_callback url px"

abbreviation proxy_run :: "proxy_event list \<Rightarrow> proxy \<Rightarrow> proxy" where
  "proxy_run \<equiv> fold proxy_step"

end
