(* ===== verification/Image_Proxy_Safety.thy ===== *)
theory Image_Proxy_Safety
  imports Image_Proxy
begin

text \<open>
  What the image proxy promises: a path it issues resolves to the URL it was issued for and no other path does, the
  cache keeps its bounds and counts its bytes, and while an outcome is kept the origin is left alone.
\<close>

section \<open>Tokens\<close>

lemma b64_value_char: "n < 64 \<Longrightarrow> b64_value (b64_char n) = Some n"
  by (auto simp: b64_value_def b64_char_def Let_def)

lemma byte_parts [simp]:
  "(of_char (c :: char) :: nat) div 4 < 64" "(of_char c :: nat) div 16 < 16" "(of_char c :: nat) div 64 < 4"
  using nat_of_char_less_256 [of c] by (simp_all add: less_mult_imp_div_less del: nat_of_char_less_256)

lemma joined_parts [simp]:
  fixes x y :: nat
  shows "y < 16 \<Longrightarrow> (x * 16 + y) div 16 = x" "y < 16 \<Longrightarrow> (x * 16 + y) mod 16 = y"
    "y < 4 \<Longrightarrow> (x * 4 + y) div 4 = x" "y < 4 \<Longrightarrow> (x * 4 + y) mod 4 = y"
  by simp_all

lemma joined_bounds [simp]:
  fixes x y :: nat
  shows "y < 16 \<Longrightarrow> x mod 4 * 16 + y < 64" "y < 4 \<Longrightarrow> x mod 16 * 4 + y < 64" "x mod 4 * 16 < 64" "x mod 16 * 4 < 64" "x mod 64 < 64"
  using mod_less_divisor [of 4 x] mod_less_divisor [of 16 x] mod_less_divisor [of 64 x] by linarith+

lemma char_of_parts [simp]:
  "char_of ((of_char c :: nat) div 4 * 4 + (of_char c :: nat) mod 4) = (c :: char)"
  "char_of ((of_char c :: nat) div 16 * 16 + (of_char c :: nat) mod 16) = c"
  "char_of ((of_char c :: nat) div 64 * 64 + (of_char c :: nat) mod 64) = c"
  by (simp_all only: div_mult_mod_eq char_of_char)

lemma b64_round_trip: "b64_decode (b64_encode s) = Some s"
  by (induction s rule: b64_encode.induct) (simp_all add: Let_def b64_value_char del: div_mult_mod_eq)

lemma b64_alphabet: "list_all (\<lambda>c. b64_value c \<noteq> None) (b64_encode s)"
  by (induction s rule: b64_encode.induct) (simp_all add: Let_def b64_value_char)

lemma b64_length: "4 * length s \<le> 3 * length (b64_encode s) \<and> 3 * length (b64_encode s) \<le> 4 * length s + 2"
  by (induction s rule: b64_encode.induct) (auto simp: Let_def)

lemma token_format_encode: "s \<noteq> [] \<Longrightarrow> token_format (b64_encode s) \<longleftrightarrow> length s \<le> 3000"
proof -
  assume "s \<noteq> []"
  then have "1 \<le> length (b64_encode s)" by (cases s rule: b64_encode.cases) (auto simp: Let_def)
  moreover have "length (b64_encode s) \<le> 4000 \<longleftrightarrow> length s \<le> 3000" using b64_length [of s] by linarith
  ultimately show ?thesis using b64_alphabet [of s] by (simp add: token_format_def)
qed

section \<open>Paths\<close>

text \<open>What \<open>hmac\<close> documents of \<open>hexdigest\<close> with SHA-256: 64 hexadecimal digits in lower case.\<close>

definition hex_digests :: "(string \<Rightarrow> string \<Rightarrow> string) \<Rightarrow> bool" where
  "hex_digests hexdigest \<longleftrightarrow> (\<forall>k m. length (hexdigest k m) = 64 \<and> list_all hex_lower (hexdigest k m))"

lemma signature_format_signature: "hex_digests hexdigest \<Longrightarrow> signature_format (image_signature hexdigest key url)"
  by (auto simp: hex_digests_def signature_format_def image_signature_def list_all_iff dest: in_set_takeD)

lemma resolve_sound:
  assumes "resolve_web_search_image_proxy_url hexdigest key signature token = Some url"
  shows "signature = image_signature hexdigest key url \<and> b64_decode token = Some url \<and> valid_utf8 url"
  using assms by (auto simp: resolve_web_search_image_proxy_url_def split: if_splits option.splits)

text \<open>
  C31: The path that is issued for an image URL (not empty, valid UTF-8) is recognised, and its two parts resolve to that
  very URL, exactly when the URL has at most 3,000 bytes; the path of a longer URL is issued but refused.  And
  whatever path is recognised carries the server's signature of the URL that it resolves to, so a generated UI
  that was never given a signature of a URL cannot have it fetched.
\<close>

theorem proxy_paths_exact:
  assumes "hex_digests hexdigest" "valid_utf8 url" "url \<noteq> []"
  shows "resolve_web_search_image_proxy_url hexdigest key (image_signature hexdigest key url) (b64_encode url) =
      (if length url \<le> 3000 then Some url else None) \<and>
    (is_signed_web_search_image_proxy_path hexdigest key (build_web_search_image_proxy_path hexdigest key url) \<longleftrightarrow>
       length url \<le> 3000) \<and>
    (\<forall>path. is_signed_web_search_image_proxy_path hexdigest key path \<longrightarrow>
       (\<exists>u token. path = PROXY_PATH_PREFIX @ image_signature hexdigest key u @ ''/'' @ token \<and>
          resolve_web_search_image_proxy_url hexdigest key (image_signature hexdigest key u) token = Some u))"
proof (intro conjI allI impI)
  note formats = signature_format_signature [OF assms(1), of key url] token_format_encode [OF assms(3)]
  show resolved: "resolve_web_search_image_proxy_url hexdigest key (image_signature hexdigest key url) (b64_encode url) =
      (if length url \<le> 3000 then Some url else None)"
    using formats assms(2) by (simp add: resolve_web_search_image_proxy_url_def b64_round_trip)
  have len: "length (image_signature hexdigest key url) = 32" using formats(1) by (simp add: signature_format_def)
  show "is_signed_web_search_image_proxy_path hexdigest key (build_web_search_image_proxy_path hexdigest key url) \<longleftrightarrow>
      length url \<le> 3000"
    using formats resolved len
    by (simp add: is_signed_web_search_image_proxy_path_def build_web_search_image_proxy_path_def Let_def startswith_def)
next
  fix path
  assume signed: "is_signed_web_search_image_proxy_path hexdigest key path"
  define rest where "rest = drop (length PROXY_PATH_PREFIX) path"
  obtain u where u: "resolve_web_search_image_proxy_url hexdigest key (take 32 rest) (drop 33 rest) = Some u"
    using signed by (auto simp: is_signed_web_search_image_proxy_path_def Let_def rest_def)
  have "path = PROXY_PATH_PREFIX @ rest"
    using signed by (auto simp: is_signed_web_search_image_proxy_path_def Let_def rest_def startswith_iff)
  moreover obtain t where t: "drop 32 rest = ''/'' @ t"
    using signed by (auto simp: is_signed_web_search_image_proxy_path_def Let_def rest_def startswith_iff)
  have "drop 33 rest = drop 1 (drop 32 rest)" by (simp only: drop_drop) simp
  then have "drop 33 rest = t" using t by simp
  moreover have "rest = take 32 rest @ drop 32 rest" by simp
  ultimately show "\<exists>u token. path = PROXY_PATH_PREFIX @ image_signature hexdigest key u @ ''/'' @ token \<and>
      resolve_web_search_image_proxy_url hexdigest key (image_signature hexdigest key u) token = Some u"
    using u resolve_sound [OF u] t by metis
qed

theorem proxy_paths_exact_witness:
  "resolve_web_search_image_proxy_url (\<lambda>_ _. replicate 64 (CHR ''a'')) None (replicate 32 (CHR ''a'')) (b64_encode ''http://a/b.png'')
     = Some ''http://a/b.png''"
  using proxy_paths_exact [of "\<lambda>_ _. replicate 64 (CHR ''a'')" "''http://a/b.png''" None]
  by (simp add: hex_digests_def image_signature_def hex_lower_def byte_in_def list_all_iff valid_utf8_def utf8_tail_def)

section \<open>The cache\<close>

type_synonym image_cache = "(string \<times> ticks \<times> image_content option) list"

definition cache_bytes :: "image_cache \<Rightarrow> int" where
  "cache_bytes xs = (\<Sum>(_, _, img) \<leftarrow> xs. image_bytes img)"

definition small_image :: "image_content option \<Rightarrow> bool" where
  "small_image img \<longleftrightarrow> image_bytes img \<le> int MAX_IMAGE_RESPONSE_BYTES"

text \<open>The byte count is exact, each URL has one entry, and every image came from the fetcher.\<close>

definition cache_exact :: "proxy \<Rightarrow> bool" where
  "cache_exact px \<longleftrightarrow> distinct (map fst (px_cache px)) \<and> px_bytes px = cache_bytes (px_cache px) \<and>
     list_all (\<lambda>(_, _, img). small_image img) (px_cache px)"

definition within_caps :: "proxy \<Rightarrow> bool" where
  "within_caps px \<longleftrightarrow> px_bytes px \<le> MAX_IMAGE_CACHE_BYTES \<and> length (px_cache px) \<le> MAX_IMAGE_CACHE_ENTRIES"

definition tasks_shared :: "proxy \<Rightarrow> bool" where
  "tasks_shared px \<longleftrightarrow> distinct (px_tasks px) \<and> set (px_tasks px) \<subseteq> set (px_inflight px)"

definition proxy_ok :: "proxy \<Rightarrow> bool" where
  "proxy_ok px \<longleftrightarrow> cache_exact px \<and> within_caps px \<and> tasks_shared px"

lemma image_bytes_nonneg [simp]: "0 \<le> image_bytes img"
  by (auto simp: image_bytes_def split: option.splits)

lemma cache_bytes_simps [simp]:
  "cache_bytes [] = 0" "cache_bytes ((u, e, img) # xs) = image_bytes img + cache_bytes xs"
  "cache_bytes (xs @ ys) = cache_bytes xs + cache_bytes ys"
  by (simp_all add: cache_bytes_def)

lemma absent_key: "u \<notin> fst ` set xs \<Longrightarrow> filter (\<lambda>(k, _). k \<noteq> u) xs = xs"
  by (induction xs) (auto split: prod.splits)

lemma remove_key:
  assumes "distinct (map fst xs)" "map_of xs u = Some (e, img)"
  shows "cache_bytes (filter (\<lambda>(k, _). k \<noteq> u) xs) = cache_bytes xs - image_bytes img \<and>
    length (filter (\<lambda>(k, _). k \<noteq> u) xs) + 1 = length xs"
  using assms
proof (induction xs)
  case (Cons x xs)
  obtain k t i where x: "x = (k, t, i)" by (cases x)
  show ?case
  proof (cases "k = u")
    case True
    then show ?thesis using Cons.prems x absent_key [of u xs] by simp
  next
    case False
    then show ?thesis using Cons x by auto
  qed
qed simp

lemma filtered_keys: "distinct (map fst xs) \<Longrightarrow> distinct (map fst (filter P xs))"
  by (simp add: distinct_map_filter)

lemma map_of_removed: "map_of (filter (\<lambda>(k, _). k \<noteq> u) xs) v = (if v = u then None else map_of xs v)"
  by (induction xs) auto

lemma drop_cached_keeps [simp]:
  "px_tasks (drop_cached_image u px) = px_tasks px" "px_inflight (drop_cached_image u px) = px_inflight px"
  "px_fetched (drop_cached_image u px) = px_fetched px"
  by (auto simp: drop_cached_image_def split: option.splits)

lemma drop_cached_exact:
  assumes "cache_exact px"
  shows "cache_exact (drop_cached_image u px) \<and> length (px_cache (drop_cached_image u px)) \<le> length (px_cache px) \<and>
    px_bytes (drop_cached_image u px) \<le> px_bytes px"
proof (cases "entry_of px u")
  case (Some entry)
  obtain e img where "entry = (e, img)" by (cases entry)
  then show ?thesis
    using assms Some remove_key [of "px_cache px" u e img]
    by (auto simp: drop_cached_image_def cache_exact_def filtered_keys list_all_iff)
qed (use assms in \<open>simp add: drop_cached_image_def\<close>)

lemma drop_cached_entry: "v \<noteq> u \<Longrightarrow> entry_of (drop_cached_image u px) v = entry_of px v"
  by (auto simp: drop_cached_image_def map_of_removed split: option.splits)

text \<open>Eviction ends within the caps, because a single image never exceeds them, and does nothing when they hold.\<close>

lemma evict_within: "within_caps px \<Longrightarrow> evict_images px = px"
  by (subst evict_images.simps) (simp add: within_caps_def)

lemma single_within:
  assumes "cache_exact px" "length (px_cache px) \<le> 1"
  shows "within_caps px"
  using assms by (cases "px_cache px") (auto simp: cache_exact_def within_caps_def small_image_def split: prod.splits)

lemma evict_ok:
  "cache_exact px \<Longrightarrow> cache_exact (evict_images px) \<and> within_caps (evict_images px) \<and>
   px_tasks (evict_images px) = px_tasks px \<and> px_inflight (evict_images px) = px_inflight px \<and>
   px_fetched (evict_images px) = px_fetched px"
proof (induction px rule: evict_images.induct)
  case (1 px)
  show ?case
  proof (cases "1 < length (px_cache px) \<and> (MAX_IMAGE_CACHE_BYTES < px_bytes px \<or> MAX_IMAGE_CACHE_ENTRIES < length (px_cache px))")
    case True
    then have "evict_images px = evict_images (drop_cached_image (fst (hd (px_cache px))) px)"
      by (subst evict_images.simps) simp
    then show ?thesis using 1(1) [OF True] drop_cached_exact [OF 1(2)] by simp
  next
    case False
    then have same: "evict_images px = px" by (subst evict_images.simps) (simp only: if_False)
    have "within_caps px" using False single_within [OF 1(2)] by (auto simp: within_caps_def not_less)
    then show ?thesis unfolding same using 1(2) by simp
  qed
qed

text \<open>A store: the new entry before the eviction.\<close>

definition stored :: "string \<Rightarrow> image_content option \<Rightarrow> ticks \<Rightarrow> proxy \<Rightarrow> proxy" where
  "stored u img now px =
     (let px = drop_cached_image u px
      in px\<lparr>px_cache := px_cache px @ [(u, now + image_ttl img, img)], px_bytes := px_bytes px + image_bytes img\<rparr>)"

lemma store_image_stored: "store_image u img now px = evict_images (stored u img now px)"
proof -
  have "u \<notin> fst ` set (px_cache px) \<Longrightarrow> drop_cached_image u px = px"
    by (simp add: drop_cached_image_def map_of_eq_None_iff [THEN iffD2])
  then show ?thesis by (simp add: store_image_def stored_def Let_def)
qed

lemma dropped_key: "u \<notin> fst ` set (px_cache (drop_cached_image u px))"
proof (cases "entry_of px u")
  case None
  then have "drop_cached_image u px = px" by (simp add: drop_cached_image_def)
  with None show ?thesis by (simp add: map_of_eq_None_iff)
qed (auto simp: drop_cached_image_def)

lemma stored_exact:
  assumes "cache_exact px" "small_image img"
  shows "cache_exact (stored u img now px) \<and> length (px_cache (stored u img now px)) \<le> length (px_cache px) + 1 \<and>
    px_bytes (stored u img now px) \<le> px_bytes px + image_bytes img"
  using drop_cached_exact [OF assms(1), of u] assms(2) dropped_key [of u px]
  by (auto simp: stored_def Let_def cache_exact_def)

lemma stored_entry: "entry_of (stored u img now px) v = (if v = u then Some (now + image_ttl img, img) else entry_of px v)"
  using dropped_key [of u px] drop_cached_entry [of v u px]
  by (auto simp: stored_def Let_def map_add_def map_of_eq_None_iff [THEN iffD2] split: option.splits)

lemma stored_keeps [simp]:
  "px_tasks (stored u img now px) = px_tasks px" "px_inflight (stored u img now px) = px_inflight px"
  "px_fetched (stored u img now px) = px_fetched px"
  by (simp_all add: stored_def Let_def)

section \<open>Steps\<close>

lemma cached_image_ok:
  assumes "proxy_ok px" "cached_image u now px = (hit, px')"
  shows "proxy_ok px' \<and> px_tasks px' = px_tasks px \<and> px_inflight px' = px_inflight px \<and> px_fetched px' = px_fetched px \<and>
    length (px_cache px') \<le> length (px_cache px) \<and> px_bytes px' \<le> px_bytes px"
proof (cases "entry_of px u")
  case (Some entry)
  obtain e img where entry: "entry = (e, img)" by (cases entry)
  show ?thesis
  proof (cases "e \<le> now")
    case True
    then show ?thesis
      using assms Some entry drop_cached_exact [of px u]
      by (auto simp: cached_image_def proxy_ok_def within_caps_def tasks_shared_def)
  next
    case False
    let ?cache = "filter (\<lambda>(k, _). k \<noteq> u) (px_cache px) @ [(u, e, img)]"
    have px': "px' = px\<lparr>px_cache := ?cache\<rparr>" using assms(2) Some entry False by (simp add: cached_image_def)
    have exact: "cache_exact px" using assms(1) by (simp add: proxy_ok_def)
    have sizes: "cache_bytes ?cache = cache_bytes (px_cache px)" "length ?cache = length (px_cache px)"
      using remove_key [of "px_cache px" u e img] exact Some entry by (auto simp: cache_exact_def)
    have "(u, e, img) \<in> set (px_cache px)" using Some entry by (simp add: map_of_SomeD)
    then have small: "list_all (\<lambda>(_, _, img). small_image img) ?cache"
      using exact by (auto simp: cache_exact_def list_all_iff)
    have "distinct (map fst ?cache)" using exact filtered_keys by (auto simp: cache_exact_def)
    then have "cache_exact px'" using exact sizes small unfolding px' cache_exact_def by simp
    then show ?thesis using assms(1) sizes unfolding px' proxy_ok_def within_caps_def tasks_shared_def by simp
  qed
qed (use assms in \<open>auto simp: cached_image_def\<close>)

lemma store_image_ok:
  assumes "proxy_ok px" "small_image img"
  shows "proxy_ok (store_image u img now px) \<and> px_tasks (store_image u img now px) = px_tasks px \<and>
    px_fetched (store_image u img now px) = px_fetched px"
  using evict_ok [of "stored u img now px"] stored_exact [of px img u now] assms
  by (auto simp: store_image_stored proxy_ok_def tasks_shared_def)

fun small_event :: "proxy_event \<Rightarrow> bool" where
  "small_event (Fetch_Ends u (Inr img) now) = small_image img"
| "small_event _ = True"

lemma proxy_step_ok:
  assumes "proxy_ok px" "small_event ev"
  shows "proxy_ok (proxy_step ev px)"
proof (cases ev)
  case (Load_Image u now)
  obtain hit px' where c: "cached_image u now px = (hit, px')" by (cases "cached_image u now px")
  show ?thesis
    using cached_image_ok [OF assms(1) c] c Load_Image
    by (auto simp: load_web_search_image_def proxy_ok_def cache_exact_def within_caps_def tasks_shared_def split: option.splits)
next
  case (Fetch_Ends u outcome now)
  let ?px = "px\<lparr>px_tasks := remove1 u (px_tasks px)\<rparr>"
  have "proxy_ok ?px"
    using assms(1) by (auto simp: proxy_ok_def cache_exact_def within_caps_def tasks_shared_def dest: in_set_remove1 [THEN iffD1, rotated])
  then show ?thesis
    using assms Fetch_Ends store_image_ok [of ?px] by (cases outcome) (auto simp: fetch_and_store_image_def Let_def)
next
  case (Fetch_Callback u)
  then show ?thesis
    using assms(1) by (auto simp: fetch_done_callback_def proxy_ok_def cache_exact_def within_caps_def tasks_shared_def)
qed

text \<open>
  The cache of relayed images stays bounded whatever is requested and however fetches end: at most 512 outcomes and
  at most 32,000,000 bytes, counted exactly, one entry per URL, and one fetch at a time for each URL, as long
  as no fetch returns more than the four million bytes that the fetcher lets through.
\<close>

theorem image_cache_bounded:
  assumes "list_all small_event events"
  shows "proxy_ok (proxy_run events new_proxy)"
proof -
  have "proxy_ok px \<Longrightarrow> proxy_ok (proxy_run events px)" for px
    using assms by (induction events arbitrary: px) (auto simp: proxy_step_ok)
  moreover have "proxy_ok new_proxy"
    by (simp add: proxy_ok_def cache_exact_def within_caps_def tasks_shared_def new_proxy_def)
  ultimately show ?thesis by blast
qed

definition sample_events :: "proxy_event list" where
  "sample_events =
     [Load_Image ''u'' 0, Load_Image ''u'' 1, Fetch_Ends ''u'' (Inr (Some (''image/png'', ''data''))) 2, Load_Image ''u'' 3,
      Fetch_Callback ''u'', Load_Image ''u'' 4]"

theorem image_cache_bounded_witness:
  "proxy_ok (proxy_run sample_events new_proxy) \<and> px_bytes (proxy_run sample_events new_proxy) = 4"
proof -
  have "list_all small_event sample_events" by (simp add: sample_events_def small_image_def image_bytes_def)
  moreover have "px_bytes (proxy_run sample_events new_proxy) = 4"
    by (simp add: sample_events_def new_proxy_def load_web_search_image_def cached_image_def fetch_and_store_image_def
        store_image_def image_bytes_def image_ttl_def fetch_done_callback_def evict_images.simps)
  ultimately show ?thesis using image_cache_bounded by blast
qed

section \<open>The origin\<close>

text \<open>What a step can add to the cache: entries and bytes.\<close>

fun added :: "proxy_event \<Rightarrow> nat \<times> int" where
  "added (Fetch_Ends u (Inr img) now) = (1, image_bytes img)"
| "added _ = (0, 0)"

lemma added_bytes_nonneg [simp]: "0 \<le> snd (added ev)"
  by (cases ev rule: added.cases) auto

lemma added_nonneg: "0 \<le> (\<Sum>ev \<leftarrow> events. snd (added ev))"
  by (rule sum_list_nonneg) auto

fun before_expiry :: "string \<Rightarrow> ticks \<Rightarrow> proxy_event \<Rightarrow> bool" where
  "before_expiry u e (Load_Image v now) = (v = u \<longrightarrow> now < e)"
| "before_expiry u e _ = True"

abbreviation fetches_of :: "string \<Rightarrow> proxy \<Rightarrow> string list" where
  "fetches_of u px \<equiv> filter (\<lambda>v. v = u) (px_fetched px)"

definition kept :: "string \<Rightarrow> ticks \<Rightarrow> image_content option \<Rightarrow> proxy \<Rightarrow> bool" where
  "kept u e img px \<longleftrightarrow> proxy_ok px \<and> entry_of px u = Some (e, img) \<and> u \<notin> set (px_tasks px)"

lemma load_keeps:
  assumes "kept u e img px" "v = u \<longrightarrow> now < e"
  shows "kept u e img (snd (load_web_search_image v now px)) \<and>
    fetches_of u (snd (load_web_search_image v now px)) = fetches_of u px \<and>
    length (px_cache (snd (load_web_search_image v now px))) \<le> length (px_cache px) \<and>
    px_bytes (snd (load_web_search_image v now px)) \<le> px_bytes px"
proof -
  obtain hit px' where c: "cached_image v now px = (hit, px')" by (cases "cached_image v now px")
  note ok = cached_image_ok [OF _ c]
  have "proxy_ok (snd (load_web_search_image v now px))"
    using proxy_step_ok [of px "Load_Image v now"] assms(1) by (simp add: kept_def)
  moreover have "entry_of px' u = Some (e, img)"
    using c assms drop_cached_entry [of u v px]
    by (cases "v = u") (auto simp: kept_def cached_image_def map_of_removed map_add_def split: option.splits if_splits prod.splits)
  moreover have "v = u \<Longrightarrow> hit = Some img" using c assms by (auto simp: kept_def cached_image_def)
  ultimately show ?thesis
    using c ok assms(1) by (auto simp: load_web_search_image_def kept_def split: option.splits)
qed

lemma end_keeps:
  assumes "kept u e img px" "small_event (Fetch_Ends v outcome now)"
    "length (px_cache px) + fst (added (Fetch_Ends v outcome now)) \<le> MAX_IMAGE_CACHE_ENTRIES"
    "px_bytes px + snd (added (Fetch_Ends v outcome now)) \<le> MAX_IMAGE_CACHE_BYTES"
  shows "kept u e img (fetch_and_store_image v outcome now px) \<and>
    px_fetched (fetch_and_store_image v outcome now px) = px_fetched px \<and>
    length (px_cache (fetch_and_store_image v outcome now px)) \<le> length (px_cache px) + fst (added (Fetch_Ends v outcome now)) \<and>
    px_bytes (fetch_and_store_image v outcome now px) \<le> px_bytes px + snd (added (Fetch_Ends v outcome now))"
proof (cases "v \<in> set (px_tasks px)")
  case True
  then have ne: "v \<noteq> u" using assms(1) by (auto simp: kept_def)
  let ?px = "px\<lparr>px_tasks := remove1 v (px_tasks px)\<rparr>"
  have ok: "proxy_ok (fetch_and_store_image v outcome now px)"
    using proxy_step_ok [of px "Fetch_Ends v outcome now"] assms(1,2) by (simp add: kept_def)
  show ?thesis
  proof (cases outcome)
    case (Inl x)
    then show ?thesis using True ok assms(1) by (auto simp: fetch_and_store_image_def kept_def dest: set_remove1_subset [THEN subsetD])
  next
    case (Inr i)
    have exact: "cache_exact ?px" using assms(1) by (simp add: kept_def proxy_ok_def cache_exact_def)
    note sizes = stored_exact [OF exact, of i v now]
    have "within_caps (stored v i now ?px)" using sizes assms(2-4) Inr by (auto simp: within_caps_def)
    then have run: "fetch_and_store_image v outcome now px = stored v i now ?px"
      using True Inr by (simp add: fetch_and_store_image_def store_image_stored evict_within)
    show ?thesis
      using ok sizes assms(1,2) Inr ne stored_entry [of v i now ?px u]
      unfolding run by (auto simp: kept_def dest: set_remove1_subset [THEN subsetD])
  qed
qed (use assms in \<open>auto simp: fetch_and_store_image_def kept_def\<close>)

lemma step_keeps:
  assumes "kept u e img px" "small_event ev" "before_expiry u e ev"
    "length (px_cache px) + fst (added ev) \<le> MAX_IMAGE_CACHE_ENTRIES" "px_bytes px + snd (added ev) \<le> MAX_IMAGE_CACHE_BYTES"
  shows "kept u e img (proxy_step ev px) \<and> fetches_of u (proxy_step ev px) = fetches_of u px \<and>
    length (px_cache (proxy_step ev px)) \<le> length (px_cache px) + fst (added ev) \<and>
    px_bytes (proxy_step ev px) \<le> px_bytes px + snd (added ev)"
proof (cases ev)
  case (Load_Image v now)
  then show ?thesis using load_keeps [OF assms(1), of v now] assms(3) by simp
next
  case (Fetch_Ends v outcome now)
  then show ?thesis using end_keeps [OF assms(1), of v outcome now] assms(2,4,5) by simp
next
  case (Fetch_Callback v)
  then have "proxy_ok (proxy_step ev px)" using proxy_step_ok [of px ev] assms(1,2) by (simp add: kept_def)
  then show ?thesis using assms(1) Fetch_Callback by (auto simp: fetch_done_callback_def kept_def)
qed

lemma run_keeps:
  "kept u e img px \<Longrightarrow> list_all small_event events \<Longrightarrow> list_all (before_expiry u e) events \<Longrightarrow>
   length (px_cache px) + (\<Sum>ev \<leftarrow> events. fst (added ev)) \<le> MAX_IMAGE_CACHE_ENTRIES \<Longrightarrow>
   px_bytes px + (\<Sum>ev \<leftarrow> events. snd (added ev)) \<le> MAX_IMAGE_CACHE_BYTES \<Longrightarrow>
   kept u e img (proxy_run events px) \<and> fetches_of u (proxy_run events px) = fetches_of u px"
proof (induction events arbitrary: px)
  case (Cons ev events)
  note rest = added_nonneg [of events]
  have step: "kept u e img (proxy_step ev px) \<and> fetches_of u (proxy_step ev px) = fetches_of u px \<and>
    length (px_cache (proxy_step ev px)) \<le> length (px_cache px) + fst (added ev) \<and>
    px_bytes (proxy_step ev px) \<le> px_bytes px + snd (added ev)"
    using Cons.prems rest by (intro step_keeps) auto
  have "kept u e img (proxy_run events (proxy_step ev px)) \<and>
      fetches_of u (proxy_run events (proxy_step ev px)) = fetches_of u (proxy_step ev px)"
    using step Cons.prems by (intro Cons.IH) auto
  then show ?case using step by simp
qed simp

text \<open>
  C17: Once a fetch of an image has ended, with an image or without, no number of requests for it reaches the origin
  again before the outcome expires, a day or ten minutes later, and they are answered with that outcome, as long as
  the entries and the bytes that arrive in the meantime fit in the cache's caps.  Requests for other images and
  fetches that end may come in any order.
\<close>

theorem origin_left_alone:
  assumes "proxy_ok px" "u \<in> set (px_tasks px)" "small_image img" "list_all small_event events"
    and "list_all (before_expiry u (now + (if img = None then IMAGE_FAILURE_TTL else IMAGE_CACHE_TTL))) events"
    and "length (px_cache px) + 1 + (\<Sum>ev \<leftarrow> events. fst (added ev)) \<le> MAX_IMAGE_CACHE_ENTRIES"
    and "px_bytes px + image_bytes img + (\<Sum>ev \<leftarrow> events. snd (added ev)) \<le> MAX_IMAGE_CACHE_BYTES"
  shows "fetches_of u (proxy_run events (fetch_and_store_image u (Inr img) now px)) = fetches_of u px \<and>
    (\<forall>t < now + (if img = None then IMAGE_FAILURE_TTL else IMAGE_CACHE_TTL).
       fst (load_web_search_image u t (proxy_run events (fetch_and_store_image u (Inr img) now px))) = Answered img)"
proof -
  let ?px = "px\<lparr>px_tasks := remove1 u (px_tasks px)\<rparr>" and ?e = "now + image_ttl img"
  let ?s = "stored u img now ?px"
  note nonneg = added_nonneg [of events]
  have exact: "cache_exact ?px" using assms(1) by (simp add: proxy_ok_def cache_exact_def)
  note sizes = stored_exact [OF exact assms(3), of u now]
  have within: "within_caps ?s" using sizes assms(6,7) nonneg by (auto simp: within_caps_def)
  then have run: "fetch_and_store_image u (Inr img) now px = ?s"
    using assms(2) by (simp add: fetch_and_store_image_def store_image_stored evict_within)
  have "proxy_ok ?s" using proxy_step_ok [of px "Fetch_Ends u (Inr img) now"] assms(1,3) run by simp
  moreover have "u \<notin> set (px_tasks ?s)" using assms(1) by (simp add: proxy_ok_def tasks_shared_def)
  ultimately have "kept u ?e img ?s" by (simp add: kept_def stored_entry)
  then have k: "kept u ?e img (proxy_run events ?s) \<and> fetches_of u (proxy_run events ?s) = fetches_of u ?s"
    using assms(4-7) sizes by (intro run_keeps) (auto simp: image_ttl_def split: if_splits)
  have "fst (load_web_search_image u t (proxy_run events ?s)) = Answered img" if "t < ?e" for t
    using k that by (simp add: kept_def load_web_search_image_def cached_image_def)
  moreover have "image_ttl img = (if img = None then IMAGE_FAILURE_TTL else IMAGE_CACHE_TTL)" by (simp add: image_ttl_def)
  ultimately show ?thesis using k unfolding run by simp
qed

theorem origin_left_alone_witness:
  "fetches_of ''u''
     (proxy_run [Load_Image ''u'' 3, Fetch_Callback ''u'', Load_Image ''u'' (86400 * second)]
       (fetch_and_store_image ''u'' (Inr (Some (''image/png'', ''data''))) 2 (proxy_run [Load_Image ''u'' 0] new_proxy))) = [''u'']"
proof -
  let ?px = "proxy_run [Load_Image ''u'' 0] new_proxy"
  have px: "?px = \<lparr>px_cache = [], px_bytes = 0, px_tasks = [''u''], px_inflight = [''u''], px_fetched = [''u'']\<rparr>"
    by (simp add: load_web_search_image_def cached_image_def new_proxy_def)
  have ok: "proxy_ok ?px" unfolding px by (simp add: proxy_ok_def cache_exact_def within_caps_def tasks_shared_def)
  have task: "''u'' \<in> set (px_tasks ?px)" unfolding px by simp
  have small: "small_image (Some (''image/png'', ''data''))" by (simp add: small_image_def image_bytes_def)
  have "fetches_of ''u''
     (proxy_run [Load_Image ''u'' 3, Fetch_Callback ''u'', Load_Image ''u'' (86400 * second)]
       (fetch_and_store_image ''u'' (Inr (Some (''image/png'', ''data''))) 2 ?px)) = fetches_of ''u'' ?px"
    by (rule origin_left_alone [OF ok task small, THEN conjunct1]) (unfold px, simp_all add: image_bytes_def)
  then show ?thesis by (simp only: px) simp
qed

end
