(* ===== verification/Page_Reading.thy ===== *)
theory Page_Reading
  imports Page_Reader
begin

text \<open>
  What the tool \<open>read_web_page\<close> promises: answers fit their budget, ranges read one after the other give the whole text of
  the page, and a turn fetches each page once and no more pages than it may.
\<close>

section \<open>Ranges\<close>

lemma fit_length_ok:
  "low \<le> high \<Longrightarrow> low \<le> fit_length fits low high \<and> fit_length fits low high \<le> high \<and>
   (fit_length fits low high = low \<or> fits (fit_length fits low high))"
proof (induction fits low high rule: fit_length.induct)
  case (1 fits low high)
  let ?m = "(low + high + 1) div 2"
  show ?case
  proof (cases "low < high")
    case True
    then have m: "low < ?m" "?m \<le> high" by auto
    show ?thesis
    proof (cases "fits ?m")
      case fits: True
      then have "fit_length fits low high = fit_length fits ?m high" using True by (subst fit_length.simps) (simp add: Let_def)
      then show ?thesis using 1(1) [OF True refl fits m(2)] m fits by auto
    next
      case False
      then have "fit_length fits low high = fit_length fits low (?m - 1)" using True by (subst fit_length.simps) (simp add: Let_def)
      moreover have "low \<le> ?m - 1" "?m - 1 \<le> high" using m by linarith+
      ultimately show ?thesis using 1(2) [OF True refl False] by (metis le_trans)
    qed
  next
    case False
    then show ?thesis using 1(3) by (subst (1 2 3 4) fit_length.simps) simp
  qed
qed

lemma fit_length_whole:
  "low \<le> high \<Longrightarrow> (\<And>count. low < count \<Longrightarrow> count \<le> high \<Longrightarrow> fits count) \<Longrightarrow> fit_length fits low high = high"
proof (induction fits low high rule: fit_length.induct)
  case (1 fits low high)
  let ?m = "(low + high + 1) div 2"
  show ?case
  proof (cases "low < high")
    case True
    then have m: "low < ?m" "?m \<le> high" by auto
    then have "fits ?m" using 1(4) by blast
    moreover from this have "fit_length fits low high = fit_length fits ?m high"
      using True by (subst fit_length.simps) (simp add: Let_def)
    ultimately show ?thesis using 1(1) [OF True refl _ m(2)] 1(4) m(1) by (metis less_trans)
  next
    case False
    then show ?thesis using 1(3) by (subst fit_length.simps) simp
  qed
qed

lemma page_error_size: "2 \<le> max_chars \<Longrightarrow> payload_size (page_error status message max_chars) \<le> max_chars"
  by (auto simp: page_error_def Let_def) (simp add: payload_size_def)

lemma range_fields [simp]:
  "json_get ''text'' (range_payload url final_url title stamp content limit evidence_id start count) =
     JStr (take count (drop start content))"
  "json_get ''next_start'' (range_payload url final_url title stamp content limit evidence_id start count) =
     (if start + count < length content then JInt (int (start + count)) else JNull)"
  by (simp_all add: range_payload_def Let_def)

lemma error_no_text [simp]: "json_get ''text'' (page_error status message max_chars) = JNull"
  by (simp add: page_error_def Let_def)

text \<open>An answer of a readable page is an error without a text, or a range that is not empty and fits.\<close>

lemma read_range_cases:
  obtains (error) status message where "read_range p evidence_id start len max_chars = page_error status message max_chars"
  | (range) url final_url title stamp content limit count where "p = Page_Ok url final_url title stamp content limit"
      "0 < count" "count \<le> len" "start + count \<le> length content"
      "read_range p evidence_id start len max_chars = range_payload url final_url title stamp content limit evidence_id start count"
      "payload_size (read_range p evidence_id start len max_chars) \<le> max_chars"
proof (cases p)
  case (Page_Ok url final_url title stamp content limit)
  let ?payload = "range_payload url final_url title stamp content limit evidence_id start"
  let ?count = "fit_length (\<lambda>count. payload_size (?payload count) \<le> max_chars) 0 (min len (length content - start))"
  note fit = fit_length_ok [of 0 "min len (length content - start)" "\<lambda>count. payload_size (?payload count) \<le> max_chars"]
  show ?thesis
  proof (cases "length content \<le> start \<or> ?count = 0")
    case True
    then have "\<exists>status message. read_range p evidence_id start len max_chars = page_error status message max_chars"
      using Page_Ok by (cases "length content \<le> start") (auto simp: Let_def)
    then show ?thesis using error by blast
  next
    case False
    define count where "count = ?count"
    have c: "count \<noteq> 0" "\<not> length content \<le> start" "count \<le> min len (length content - start)"
      "payload_size (?payload count) \<le> max_chars"
      using False fit by (auto simp: count_def)
    have run: "read_range p evidence_id start len max_chars = ?payload count"
      using Page_Ok False by (simp add: Let_def count_def)
    show ?thesis by (rule range [OF Page_Ok, of count]) (use c run in auto)
  qed
qed (use error in auto)

lemma read_range_fits: "2 \<le> max_chars \<Longrightarrow> payload_size (read_range p evidence_id start len max_chars) \<le> max_chars"
  by (rule read_range_cases [of p evidence_id start len max_chars]) (simp_all add: page_error_size)

text \<open>
  Reading on: each request continues at the \<open>next_start\<close> of the answer before it, with any length and budget, until
  an answer has none.
\<close>

inductive reads_on :: "page \<Rightarrow> string \<Rightarrow> nat \<Rightarrow> string list \<Rightarrow> bool" for p evidence_id where
  reads_last: "json_get ''text'' (read_range p evidence_id start len max_chars) = JStr t \<Longrightarrow>
    json_get ''next_start'' (read_range p evidence_id start len max_chars) = JNull \<Longrightarrow> reads_on p evidence_id start [t]"
| reads_more: "json_get ''text'' (read_range p evidence_id start len max_chars) = JStr t \<Longrightarrow>
    json_get ''next_start'' (read_range p evidence_id start len max_chars) = JInt (int n) \<Longrightarrow>
    reads_on p evidence_id n ts \<Longrightarrow> reads_on p evidence_id start (t # ts)"

lemma range_text:
  assumes "json_get ''text'' (read_range (Page_Ok url final_url title stamp content limit) evidence_id start len max_chars) = JStr t"
  obtains count where "0 < count" "start + count \<le> length content" "t = take count (drop start content)"
    "json_get ''next_start'' (read_range (Page_Ok url final_url title stamp content limit) evidence_id start len max_chars) =
       (if start + count < length content then JInt (int (start + count)) else JNull)"
  using assms
  by (cases rule: read_range_cases [of "Page_Ok url final_url title stamp content limit" evidence_id start len max_chars])
     (auto simp del: read_range.simps)

text \<open>From any position on, the ranges are the rest of the text.\<close>

lemma reads_on_rest:
  "reads_on (Page_Ok url final_url title stamp content limit) evidence_id start ts \<Longrightarrow>
   concat ts = drop start content \<and> length ts \<le> length content - start \<and> start \<le> length content"
proof (induction rule: reads_on.induct)
  case (reads_last start len max_chars t)
  obtain count where c: "0 < count" "start + count \<le> length content" "t = take count (drop start content)"
    "start + count = length content"
    using range_text [OF reads_last(1)] reads_last(2) by (metis json.distinct(3) le_neq_implies_less)
  then have "count = length (drop start content)" by simp
  then show ?case using c by simp
next
  case (reads_more start len max_chars t n ts)
  obtain count where c: "0 < count" "start + count \<le> length content" "t = take count (drop start content)"
    "n = start + count"
    using range_text [OF reads_more(1)] reads_more(2) by (metis json.distinct(3) json.inject(2) of_nat_eq_iff)
  have "concat (t # ts) = take count (drop start content) @ drop count (drop start content)"
    using c reads_more.IH by (simp add: add.commute)
  then have "concat (t # ts) = drop start content" by (simp only: append_take_drop_id)
  moreover have "Suc (length ts) \<le> length content - start" using c reads_more.IH by linarith
  ultimately show ?case using c by simp
qed

text \<open>
  C18: Reading a page in ranges loses and repeats nothing: when a first request at 0 and each further one at the
  \<open>next_start\<close> it was given lead to an answer without a \<open>next_start\<close>, the texts in order are the whole text of the page,
  and every answer gave at least one character, so there are at most as many requests as characters.
\<close>

theorem page_ranges_complete:
  assumes "reads_on (Page_Ok url final_url title stamp content limit) evidence_id 0 ts"
  shows "concat ts = content \<and> length ts \<le> length content"
  using reads_on_rest [OF assms] by simp

text \<open>A page of four characters, read in two ranges of at most two with a budget that is large enough.\<close>

definition sample_payload :: "nat \<Rightarrow> nat \<Rightarrow> json" where
  "sample_payload = range_payload ''http://a/'' ''http://a/'' ''t'' ''now'' ''text'' False ''e''"

definition sample_text_page :: page where
  "sample_text_page = Page_Ok ''http://a/'' ''http://a/'' ''t'' ''now'' ''text'' False"

abbreviation sample_budget :: "nat \<Rightarrow> nat" where
  "sample_budget start \<equiv> payload_size (sample_payload start 1) + payload_size (sample_payload start 2)"

lemma sample_range:
  assumes "start \<le> 2"
  shows "read_range sample_text_page ''e'' start 2 (sample_budget start) = sample_payload start 2"
proof -
  have "payload_size (sample_payload start count) \<le> sample_budget start" if "0 < count" "count \<le> 2" for count
  proof -
    have "count = 1 \<or> count = 2" using that by auto
    then show ?thesis by auto
  qed
  then have "fit_length (\<lambda>count. payload_size (sample_payload start count) \<le> sample_budget start) 0 2 = 2"
    by (intro fit_length_whole) auto
  moreover have "min 2 (length ''text'' - start) = 2" using assms by simp
  ultimately show ?thesis
    using assms by (simp add: sample_text_page_def Let_def sample_payload_def del: One_nat_def)
qed

lemma sample_reads: "reads_on sample_text_page ''e'' 0 [''te'', ''xt'']"
proof (rule reads_more)
  show "json_get ''text'' (read_range sample_text_page ''e'' 0 2 (sample_budget 0)) = JStr ''te''"
    and "json_get ''next_start'' (read_range sample_text_page ''e'' 0 2 (sample_budget 0)) = JInt (int 2)"
    by (subst sample_range; simp add: sample_payload_def)+
  have "json_get ''text'' (read_range sample_text_page ''e'' 2 2 (sample_budget 2)) = JStr ''xt''"
    "json_get ''next_start'' (read_range sample_text_page ''e'' 2 2 (sample_budget 2)) = JNull"
    by (subst sample_range; simp add: sample_payload_def)+
  then show "reads_on sample_text_page ''e'' 2 [''xt'']" by (rule reads_last)
qed

theorem page_ranges_complete_witness: "concat [''te'', ''xt''] = ''text'' \<and> length [''te'', ''xt''] \<le> length ''text''"
  by (rule page_ranges_complete [OF sample_reads [unfolded sample_text_page_def]])

section \<open>Turns\<close>

text \<open>
  A turn calls the tool and seeds pages in any order; the evidence, the outside and the budgets may differ from call
  to call.
\<close>

datatype reader_op =
    Read_Page "string \<Rightarrow> json option" fetch_world json nat
  | Seed_Page string string string string string string

fun reader_step :: "url_lib \<Rightarrow> reader_op \<Rightarrow> page_reader \<Rightarrow> page_reader" where
  "reader_step L (Read_Page evidence w arguments max_chars) r = snd (execute_read_web_page L evidence w arguments max_chars r)"
| "reader_step L (Seed_Page url content title final_url fetched_at clock) r =
     snd (seed_page L url content title final_url fetched_at clock r)"

abbreviation reader_run :: "url_lib \<Rightarrow> reader_op list \<Rightarrow> page_reader \<Rightarrow> page_reader" where
  "reader_run L ops r \<equiv> fold (reader_step L) ops r"

definition reader_ok :: "page_reader \<Rightarrow> bool" where
  "reader_ok r \<longleftrightarrow> wr_fetch_count r = length (wr_fetched r) \<and> wr_fetch_count r \<le> wr_max_pages r \<and> distinct (wr_fetched r) \<and>
     set (wr_fetched r) \<subseteq> fst ` set (wr_pages r)"

lemma map_of_extend: "map_of xs k = Some v \<Longrightarrow> map_of (xs @ ys) k = Some v"
  by (simp add: map_add_def)

lemma fetch_page_keeps:
  assumes "fetch_page url w r = (p, r')"
  shows "wr_pages r' = wr_pages r \<and> wr_max_pages r' = wr_max_pages r \<and>
    (r' = r \<or> wr_fetch_count r < wr_max_pages r \<and> wr_fetch_count r' = wr_fetch_count r + 1 \<and> wr_fetched r' = wr_fetched r @ [url])"
  using assms by (auto simp: fetch_page_def Let_def split: if_splits)

lemma execute_cases:
  "snd (execute_read_web_page L evidence w arguments max_chars r) = r \<or>
   (\<exists>url p r'. map_of (wr_pages r) url = None \<and> fetch_page url w r = (p, r') \<and>
      snd (execute_read_web_page L evidence w arguments max_chars r) = r'\<lparr>wr_pages := wr_pages r' @ [(url, p)]\<rparr>)"
  by (auto simp: execute_read_web_page_def split: read_request.splits sum.splits prod.splits option.splits)

lemma reader_step_ok:
  assumes "reader_ok r"
  shows "reader_ok (reader_step L op r) \<and> wr_max_pages (reader_step L op r) = wr_max_pages r \<and>
    (\<forall>url p. map_of (wr_pages r) url = Some p \<longrightarrow> map_of (wr_pages (reader_step L op r)) url = Some p)"
proof (cases op)
  case (Read_Page evidence w arguments max_chars)
  consider "reader_step L op r = r"
    | url p r' where "map_of (wr_pages r) url = None" "fetch_page url w r = (p, r')"
      "reader_step L op r = r'\<lparr>wr_pages := wr_pages r' @ [(url, p)]\<rparr>"
    using execute_cases [of L evidence w arguments max_chars r] unfolding Read_Page by auto
  then show ?thesis
  proof cases
    case (2 url p r')
    then have "url \<notin> set (wr_fetched r)" using assms by (auto simp: reader_ok_def map_of_eq_None_iff)
    then show ?thesis using 2 assms fetch_page_keeps [OF 2(2)] by (auto simp: reader_ok_def map_of_extend)
  qed (use assms in simp)
next
  case (Seed_Page url content title final_url fetched_at clock)
  then show ?thesis
    using assms by (auto simp: seed_page_def reader_ok_def Let_def map_of_extend split: option.splits)
qed

text \<open>
  C19: However the model calls the tool within a turn, it fetches no page twice and no more pages than the turn may,
  a page once read or seeded stays the same, so that ranges of it fit together, and every answer fits its
  character budget (of two characters or more).
\<close>

theorem page_reading_bounded:
  assumes r: "r = reader_run L ops (new_reader max_pages seconds)"
  shows "distinct (wr_fetched r) \<and> length (wr_fetched r) \<le> nat max_pages \<and>
    (\<forall>more_ops url p. map_of (wr_pages r) url = Some p \<longrightarrow> map_of (wr_pages (reader_run L more_ops r)) url = Some p) \<and>
    (\<forall>evidence w arguments max_chars. 2 \<le> max_chars \<longrightarrow>
       payload_size (fst (execute_read_web_page L evidence w arguments max_chars r)) \<le> max_chars)"
proof -
  have run: "reader_ok (reader_run L ops r) \<and> wr_max_pages (reader_run L ops r) = wr_max_pages r \<and>
      (\<forall>url p. map_of (wr_pages r) url = Some p \<longrightarrow> map_of (wr_pages (reader_run L ops r)) url = Some p)"
    if "reader_ok r" for r ops
    using that
  proof (induction ops arbitrary: r)
    case (Cons op ops)
    note step = reader_step_ok [OF Cons.prems, of L op]
    then show ?case using Cons.IH [of "reader_step L op r"] by simp
  qed simp
  have "reader_ok (new_reader max_pages seconds)" by (simp add: reader_ok_def new_reader_def)
  note start = run [OF this, of ops]
  have ok: "reader_ok r" and limit: "wr_max_pages r = nat max_pages" using start by (simp_all add: r new_reader_def)
  have fits: "payload_size (fst (execute_read_web_page L evidence w arguments max_chars r)) \<le> max_chars"
    if "2 \<le> max_chars" for evidence w arguments max_chars
    using that
    by (auto simp: execute_read_web_page_def page_error_size read_range_fits
        split: read_request.splits sum.splits prod.splits option.splits)
  show ?thesis using run [OF ok] ok limit fits by (simp add: reader_ok_def)
qed

text \<open>Two calls for one page: the second is answered from the first one's text.\<close>

definition sample_evidence :: "string \<Rightarrow> json option" where
  "sample_evidence evidence_id =
     Some (JObj [(''source_type'', JStr ''web''), (''source'', JObj [(''url'', JStr ''http://a/'')])])"

definition sample_world :: fetch_world where
  "sample_world = \<lparr>fw_end = Fetch_Timed_Out, fw_elapsed = 1, fw_stamp = ''now''\<rparr>"

definition sample_read :: reader_op where
  "sample_read = Read_Page sample_evidence sample_world (JObj [(''evidence_id'', JStr ''src'')]) 600"

theorem page_reading_bounded_witness:
  "wr_fetched (reader_run sample_urls [sample_read, sample_read] (new_reader 3 (30 * second))) = [''http://a/''] \<and>
   payload_size (fst (execute_read_web_page sample_urls sample_evidence sample_world (JObj []) 600
     (reader_run sample_urls [sample_read, sample_read] (new_reader 3 (30 * second))))) \<le> 600"
proof -
  let ?r = "reader_run sample_urls [sample_read, sample_read] (new_reader 3 (30 * second))"
  have "wr_fetched ?r = [''http://a/'']" by code_simp
  moreover have "payload_size (fst (execute_read_web_page sample_urls sample_evidence sample_world (JObj []) 600 ?r)) \<le> 600"
    using page_reading_bounded [OF refl, of sample_urls "[sample_read, sample_read]" 3 "30 * second"] by simp
  ultimately show ?thesis by blast
qed

end
