(* ===== verification/Evidence_Store.thy ===== *)
theory Evidence_Store
  imports Page_Reading
begin

text \<open>
  \<open>services/chat_evidence_store.py\<close>: the sources and references of one turn, kept outside the prompt, and the tool
  \<open>get_evidence\<close> that hands them out within a character budget.  Records are JSON dictionaries.  Arguments (\<open>store_lib\<close>):
  the evidence id that \<open>web_search.py\<close> derives from a URL by hashing, SHA-256 and \<open>str\<close> of a value that is not a string.
\<close>

record store_lib =
  sl_urls :: url_lib
  sl_web_id :: "string \<Rightarrow> string"
  sl_sha256 :: "string \<Rightarrow> string"
  sl_str :: "json \<Rightarrow> string"

section \<open>Sources and records\<close>

text \<open>\<open>WebSearchSource\<close> and \<open>WebSearchResult\<close>; the evidence id of a source always follows from its URL.\<close>

record web_source =
  ws_url :: string
  ws_title :: string
  ws_hostname :: string
  ws_age :: string
  ws_snippets :: "string list"
  ws_favicon_url :: string
  ws_page_text :: string
  ws_link_depth :: int
  ws_linked_from_url :: string
  ws_image_candidates :: "json list"

record web_result =
  wq_query :: string
  wq_searched_at :: string
  wq_sources :: "web_source list"
  wq_freshness :: string

definition source_dict :: "store_lib \<Rightarrow> web_source \<Rightarrow> dict" where
  "source_dict K s =
     [(''url'', JStr (ws_url s)), (''title'', JStr (ws_title s)), (''hostname'', JStr (ws_hostname s)), (''age'', JStr (ws_age s)),
      (''snippets'', JArr (map JStr (ws_snippets s))), (''favicon_url'', JStr (ws_favicon_url s)),
      (''page_text'', JStr (ws_page_text s)), (''evidence_id'', JStr (sl_web_id K (ws_url s))),
      (''link_depth'', JInt (ws_link_depth s)), (''linked_from_url'', JStr (ws_linked_from_url s)),
      (''image_candidates'', JArr (ws_image_candidates s))]"

record evidence_store =
  es_max_ids :: nat
  es_records :: "(string \<times> dict) list"
  es_web_results :: "web_result list"
  es_reference_payloads :: "dict list"

text \<open>\<open>Inl ()\<close> is the \<open>ValueError\<close> of a limit below one.\<close>

definition new_evidence_store :: "int \<Rightarrow> unit + evidence_store" where
  "new_evidence_store max_ids_per_call =
     (if max_ids_per_call < 1 then Inl ()
      else Inr \<lparr>es_max_ids = nat max_ids_per_call, es_records = [], es_web_results = [], es_reference_payloads = []\<rparr>)"

definition has_web_records :: "evidence_store \<Rightarrow> bool" where
  "has_web_records st = list_ex (\<lambda>(_, r). dict_get ''source_type'' r = JStr ''web'') (es_records st)"

definition clean_metadata_text :: "store_lib \<Rightarrow> json \<Rightarrow> string" where
  "clean_metadata_text K v =
     (case v of JNull \<Rightarrow> [] | JStr s \<Rightarrow> py_strip s | _ \<Rightarrow> py_strip (sl_str K v))"

definition web_record :: "store_lib \<Rightarrow> web_result \<Rightarrow> web_source \<Rightarrow> dict" where
  "web_record K result s =
     (let context = [(''query'', JStr (wq_query result)), (''searched_at'', JStr (wq_searched_at result)),
                     (''freshness'', JStr (wq_freshness result))]
      in [(''evidence_id'', JStr (sl_web_id K (ws_url s))), (''source_type'', JStr ''web'')] @ context @
         [(''source'', JObj (source_dict K s)), (''search_contexts'', JArr [JObj context])])"

definition page_text_length :: "store_lib \<Rightarrow> dict \<Rightarrow> nat" where
  "page_text_length K source =
     (case dict_get ''page_text'' source of
        JStr s \<Rightarrow> length s
      | v \<Rightarrow> if json_true v then length (sl_str K v) else 0)"

fun add_contexts :: "json list \<Rightarrow> json list \<Rightarrow> json list" where
  "add_contexts contexts [] = contexts"
| "add_contexts contexts (JObj d # vs) =
     add_contexts (if list_ex (json_eq (JObj d)) contexts then contexts else contexts @ [JObj d]) vs"
| "add_contexts contexts (v # vs) = add_contexts contexts vs"

abbreviation json_items :: "json \<Rightarrow> json list" where
  "json_items v \<equiv> (case v of JArr vs \<Rightarrow> vs | _ \<Rightarrow> [])"

definition merge_web_record :: "store_lib \<Rightarrow> dict \<Rightarrow> dict \<Rightarrow> dict" where
  "merge_web_record K existing incoming =
     (let merged =
            (case (dict_get ''source'' existing, dict_get ''source'' incoming) of
               (JObj old, JObj new) \<Rightarrow>
                 if page_text_length K new < page_text_length K old then AList.update ''source'' (JObj old) incoming else incoming
             | _ \<Rightarrow> incoming)
      in AList.update ''search_contexts''
           (JArr (add_contexts [] (json_items (dict_get ''search_contexts'' existing) @
                                   json_items (dict_get ''search_contexts'' incoming)))) merged)"

definition web_reference :: "store_lib \<Rightarrow> dict \<Rightarrow> dict" where
  "web_reference K r =
     (let source = (case dict_get ''source'' r of JObj d \<Rightarrow> d | _ \<Rightarrow> [])
      in [(''evidence_id'', dict_get ''evidence_id'' r), (''source_type'', JStr ''web''),
          (''title'', JStr (clean_metadata_text K (dict_get ''title'' source))),
          (''url'', JStr (clean_metadata_text K (dict_get ''url'' source))),
          (''query'', JStr (clean_metadata_text K (dict_get ''query'' r))),
          (''searched_at'', JStr (clean_metadata_text K (dict_get ''searched_at'' r))),
          (''freshness'', JStr (clean_metadata_text K (dict_get ''freshness'' r)))])"

abbreviation is_web :: "dict \<Rightarrow> bool" where
  "is_web r \<equiv> dict_get ''source_type'' r = JStr ''web''"

definition put_record :: "string \<Rightarrow> dict \<Rightarrow> evidence_store \<Rightarrow> evidence_store" where
  "put_record evidence_id r st = st\<lparr>es_records := AList.update evidence_id r (es_records st)\<rparr>"

fun add_web_sources :: "store_lib \<Rightarrow> web_result \<Rightarrow> web_source list \<Rightarrow> evidence_store \<Rightarrow> dict list \<times> evidence_store" where
  "add_web_sources K result [] st = ([], st)"
| "add_web_sources K result (s # sources) st =
     (let evidence_id = sl_web_id K (ws_url s);
          r = (case map_of (es_records st) evidence_id of
                 Some existing \<Rightarrow>
                   if is_web existing then merge_web_record K existing (web_record K result s) else web_record K result s
               | None \<Rightarrow> web_record K result s);
          (references, st) = add_web_sources K result sources (put_record evidence_id r st)
      in (web_reference K r # references, st))"

definition add_web_result :: "store_lib \<Rightarrow> web_result option \<Rightarrow> evidence_store \<Rightarrow> dict list \<times> evidence_store" where
  "add_web_result K result st =
     (case result of
        None \<Rightarrow> ([], st)
      | Some result \<Rightarrow> add_web_sources K result (wq_sources result) (st\<lparr>es_web_results := es_web_results st @ [result]\<rparr>))"

section \<open>Pasted pages and references\<close>

definition pasted_record :: "store_lib \<Rightarrow> string \<Rightarrow> string \<Rightarrow> string \<Rightarrow> string \<Rightarrow> dict" where
  "pasted_record K url title snippet fetched_at =
     (let hostname = (case urlsplit (sl_urls K) url of None \<Rightarrow> [] | Some u \<Rightarrow> rest_text (url_hostname u));
          source = \<lparr>ws_url = url, ws_title = py_strip title, ws_hostname = hostname, ws_age = [],
                    ws_snippets = (if py_strip snippet = [] then [] else [py_strip snippet]), ws_favicon_url = [],
                    ws_page_text = [], ws_link_depth = 0, ws_linked_from_url = [], ws_image_candidates = []\<rparr>
      in [(''evidence_id'', JStr (sl_web_id K url)), (''source_type'', JStr ''web''), (''query'', JStr []),
          (''searched_at'', JStr (py_strip fetched_at)), (''freshness'', JStr []), (''source'', JObj (source_dict K source)),
          (''search_contexts'', JArr []), (''origin'', JStr ''pasted_url'')])"

definition keep_metadata :: "store_lib \<Rightarrow> dict \<Rightarrow> string \<Rightarrow> dict \<Rightarrow> dict" where
  "keep_metadata K existing key r =
     (if clean_metadata_text K (dict_get key existing) = [] then r else AList.update key (dict_get key existing) r)"

definition add_pasted_page ::
  "store_lib \<Rightarrow> string \<Rightarrow> string \<Rightarrow> string \<Rightarrow> string \<Rightarrow> evidence_store \<Rightarrow> dict option \<times> evidence_store" where
  "add_pasted_page K url title snippet fetched_at st =
     (let url = py_strip url
      in if url = [] then (None, st)
         else
           (let fresh = pasted_record K url title snippet fetched_at;
                r = (case map_of (es_records st) (sl_web_id K url) of
                       Some existing \<Rightarrow>
                         if is_web existing
                         then merge_web_record K existing
                                (fold (keep_metadata K existing) [''query'', ''searched_at'', ''freshness''] fresh)
                         else fresh
                     | None \<Rightarrow> fresh)
            in (Some (web_reference K r), put_record (sl_web_id K url) r st)))"

definition REFERENCE_GROUPS :: "string list" where
  "REFERENCE_GROUPS = [''memos'', ''facts'', ''prompts'', ''recent_memos'', ''context_facts'']"

text \<open>\<open>json.dumps\<close> with the separators \<open>","\<close> and \<open>":"\<close>, and with \<open>sort_keys\<close>.\<close>

fun dumps_compact :: "json \<Rightarrow> string" where
  "dumps_compact (JArr vs) = ''['' @ join_with '','' (map dumps_compact vs) @ '']''"
| "dumps_compact (JObj kvs) =
     ''{'' @ join_with '','' (map (\<lambda>(k, v). dumps_string k @ '':'' @ dumps_compact v) kvs) @ ''}''"
| "dumps_compact v = dumps v"

fun key_less :: "string \<Rightarrow> string \<Rightarrow> bool" where
  "key_less s [] = False"
| "key_less [] (d # t) = True"
| "key_less (c # s) (d # t) =
     ((of_char c :: nat) < of_char d \<or> c = d \<and> key_less s t)"

fun insert_key :: "string \<times> json \<Rightarrow> dict \<Rightarrow> dict" where
  "insert_key kv [] = [kv]"
| "insert_key kv (x # xs) =
     (if key_less (fst kv) (fst x) then kv # x # xs else x # insert_key kv xs)"

fun sort_keys :: "json \<Rightarrow> json" where
  "sort_keys (JArr vs) = JArr (map sort_keys vs)"
| "sort_keys (JObj kvs) = JObj (fold insert_key (map (\<lambda>(k, v). (k, sort_keys v)) kvs) [])"
| "sort_keys v = v"

definition reference_identity :: "store_lib \<Rightarrow> string \<Rightarrow> string \<Rightarrow> dict \<Rightarrow> string" where
  "reference_identity K source_type grp item =
     (let identifier =
            (case dict_get ''id'' item of
               JNull \<Rightarrow>
                 (case dict_get ''prompt_id'' item of JNull \<Rightarrow> JStr (dumps_compact (sort_keys (JObj item))) | v \<Rightarrow> v)
             | v \<Rightarrow> v)
      in ''ref_'' @ take 20 (sl_sha256 K (dumps_compact (JArr [JStr source_type, JStr grp, identifier]))))"

definition reference_title :: "store_lib \<Rightarrow> dict \<Rightarrow> string" where
  "reference_title K item =
     clean_metadata_text K (if json_true (dict_get ''title'' item) then dict_get ''title'' item else dict_get ''name'' item)"

definition reference_url :: "store_lib \<Rightarrow> dict \<Rightarrow> string" where
  "reference_url K item =
     clean_metadata_text K (if json_true (dict_get ''public_url'' item) then dict_get ''public_url'' item else dict_get ''url'' item)"

definition reference_record :: "store_lib \<Rightarrow> string \<Rightarrow> string \<Rightarrow> string \<Rightarrow> dict \<Rightarrow> dict \<Rightarrow> dict" where
  "reference_record K source_type query grp payload_metadata item =
     (let evidence_id = reference_identity K source_type grp item
      in [(''evidence_id'', JStr evidence_id), (''source_type'', JStr source_type), (''group'', JStr grp), (''query'', JStr query),
          (''item'', JObj (AList.update ''evidence_id'' (JStr evidence_id) item)), (''payload_metadata'', JObj payload_metadata)])"

definition reference_record_metadata :: "store_lib \<Rightarrow> dict \<Rightarrow> dict" where
  "reference_record_metadata K r =
     (let item = (case dict_get ''item'' r of JObj d \<Rightarrow> d | _ \<Rightarrow> [])
      in [(''evidence_id'', dict_get ''evidence_id'' r), (''source_type'', dict_get ''source_type'' r), (''group'', dict_get ''group'' r),
          (''title'', JStr (reference_title K item)), (''url'', JStr (reference_url K item)),
          (''query'', JStr (clean_metadata_text K (dict_get ''query'' r)))])"

fun add_items ::
  "store_lib \<Rightarrow> string \<Rightarrow> string \<Rightarrow> dict \<Rightarrow> (string \<times> json) list \<Rightarrow> evidence_store \<Rightarrow> dict list \<times> evidence_store" where
  "add_items K source_type query meta [] st = ([], st)"
| "add_items K source_type query meta ((grp, JObj item) # items) st =
     (let r = reference_record K source_type query grp meta item;
          (references, st) =
            add_items K source_type query meta items (put_record (reference_identity K source_type grp item) r st)
      in (reference_record_metadata K r # references, st))"
| "add_items K source_type query meta ((grp, v) # items) st = add_items K source_type query meta items st"

definition add_reference_payload ::
  "store_lib \<Rightarrow> json \<Rightarrow> string \<Rightarrow> string \<Rightarrow> evidence_store \<Rightarrow> dict list \<times> evidence_store" where
  "add_reference_payload K payload source_type query st =
     (case payload of
        JObj raw \<Rightarrow>
          add_items K (or_default (py_strip source_type) ''reference'')
            (clean_metadata_text K (if query \<noteq> [] then JStr query else dict_get ''query'' raw))
            (filter (\<lambda>(k, _). k \<notin> set REFERENCE_GROUPS) raw)
            (concat (map (\<lambda>grp. map (Pair grp) (json_items (dict_get grp raw))) REFERENCE_GROUPS))
            (st\<lparr>es_reference_payloads := es_reference_payloads st @ [raw]\<rparr>)
      | _ \<Rightarrow> ([], st))"

section \<open>Requests\<close>

definition get_evidence_record :: "evidence_store \<Rightarrow> string \<Rightarrow> dict option" where
  "get_evidence_record st evidence_id = map_of (es_records st) (py_strip evidence_id)"

fun clean_ids :: "string list \<Rightarrow> json list \<Rightarrow> string + string list" where
  "clean_ids normalized [] = Inr normalized"
| "clean_ids normalized (JStr v # vs) =
     (let evidence_id = py_strip v
      in if evidence_id = [] then Inl ''Evidence IDs must not be empty.''
         else if MAX_EVIDENCE_ID_CHARS < length evidence_id then Inl ''Evidence IDs must be at most 128 characters.''
         else clean_ids (if evidence_id \<in> set normalized then normalized else normalized @ [evidence_id]) vs)"
| "clean_ids normalized (v # vs) = Inl ''Every evidence_id must be a string.''"

definition validate_evidence_ids :: "json \<Rightarrow> nat \<Rightarrow> string + string list" where
  "validate_evidence_ids evidence_ids max_ids =
     (case evidence_ids of
        JArr vs \<Rightarrow>
          if vs = [] then Inl ''At least one evidence_id is required.''
          else
            (case clean_ids [] vs of
               Inl message \<Rightarrow> Inl message
             | Inr ids \<Rightarrow>
                 if max_ids < length ids
                 then Inl (''At most '' @ show_nat max_ids @ '' evidence IDs may be requested at once.'') else Inr ids)
      | _ \<Rightarrow> Inl ''evidence_ids must be an array of strings.'')"

definition get_many :: "evidence_store \<Rightarrow> json \<Rightarrow> string + dict list" where
  "get_many st evidence_ids =
     (case validate_evidence_ids evidence_ids (es_max_ids st) of
        Inl message \<Rightarrow> Inl message
      | Inr ids \<Rightarrow> Inr (List.map_filter (map_of (es_records st)) ids))"

section \<open>Fitting the budget\<close>

definition EVIDENCE_PROTECTED_FIELDS :: "string list" where
  "EVIDENCE_PROTECTED_FIELDS = [''evidence_id'', ''source_type'', ''group'', ''query'', ''searched_at'', ''freshness'', ''title'',
     ''url'', ''public_url'']"

fun trimmable :: "string \<times> json \<Rightarrow> bool" where
  "trimmable (k, JStr s) \<longleftrightarrow> k \<notin> set EVIDENCE_PROTECTED_FIELDS \<and> s \<noteq> []"
| "trimmable _ = False"

text \<open>A place is a container of the record (the record itself, its source or its item) and a key in it.\<close>

datatype place = In_Record string | In_Source string | In_Item string

definition sub_dict :: "string \<Rightarrow> dict \<Rightarrow> dict" where
  "sub_dict k r = (case dict_get k r of JObj d \<Rightarrow> d | _ \<Rightarrow> [])"

definition trimmable_places :: "dict \<Rightarrow> (place \<times> nat) list" where
  "trimmable_places r =
     (let of_dict = \<lambda>place d. map (\<lambda>(k, v). (place k, case v of JStr s \<Rightarrow> length s | _ \<Rightarrow> 0)) (filter trimmable d)
      in of_dict In_Record r @ of_dict In_Source (sub_dict ''source'' r) @ of_dict In_Item (sub_dict ''item'' r))"

fun first_longest :: "(place \<times> nat) option \<Rightarrow> (place \<times> nat) list \<Rightarrow> (place \<times> nat) option" where
  "first_longest best [] = best"
| "first_longest best ((p, n) # xs) =
     first_longest (case best of None \<Rightarrow> Some (p, n) | Some (_, m) \<Rightarrow> if m < n then Some (p, n) else best) xs"

definition largest_trimmable_text :: "dict \<Rightarrow> place option" where
  "largest_trimmable_text r = map_option fst (first_longest None (trimmable_places r))"

abbreviation without_key :: "string \<Rightarrow> dict \<Rightarrow> dict" where
  "without_key k d \<equiv> filter (\<lambda>(k', _). k' \<noteq> k) d"

fun pop_place :: "place \<Rightarrow> dict \<Rightarrow> dict" where
  "pop_place (In_Record k) r = without_key k r"
| "pop_place (In_Source k) r = AList.update ''source'' (JObj (without_key k (sub_dict ''source'' r))) r"
| "pop_place (In_Item k) r = AList.update ''item'' (JObj (without_key k (sub_dict ''item'' r))) r"

fun place_key :: "place \<Rightarrow> string" where
  "place_key (In_Record k) = k"
| "place_key (In_Source k) = k"
| "place_key (In_Item k) = k"

definition note_omitted :: "string \<Rightarrow> dict \<Rightarrow> dict" where
  "note_omitted key r =
     (let omitted = json_items (dict_get ''omitted_fields'' r)
      in AList.update ''omitted_fields'' (JArr (if JStr key \<in> set omitted then omitted else omitted @ [JStr key])) r)"

definition trim_record :: "place \<Rightarrow> dict \<Rightarrow> dict" where
  "trim_record p r = note_omitted (place_key p) (pop_place p r)"

text \<open>The search from the last record backwards; \<open>None\<close>: no record has a text left to drop.\<close>

fun trim_last :: "dict list \<Rightarrow> dict list option" where
  "trim_last [] = None"
| "trim_last (r # rs) =
     (case trim_last rs of
        Some rs \<Rightarrow> Some (r # rs)
      | None \<Rightarrow> (case largest_trimmable_text r of None \<Rightarrow> None | Some p \<Rightarrow> Some (trim_record p r # rs)))"

definition evidence_payload :: "string \<Rightarrow> dict list \<Rightarrow> string list \<Rightarrow> json list \<Rightarrow> dict" where
  "evidence_payload status evidence missing_ids truncated_ids =
     [(''status'', JStr status), (''evidence'', JArr (map JObj evidence)), (''missing_ids'', JArr (map JStr missing_ids))] @
     (if truncated_ids = [] then [] else [(''truncated_ids'', JArr truncated_ids)])"

text \<open>Each round drops a text or a record, so the loop ends.\<close>

definition trim_weight :: "dict \<Rightarrow> nat" where
  "trim_weight r = Suc (length (trimmable_places r))"

lemma weight_parts:
  "length (trimmable_places r) =
     length (filter trimmable r) + length (filter trimmable (sub_dict ''source'' r)) + length (filter trimmable (sub_dict ''item'' r))"
  by (simp add: trimmable_places_def)

lemma trimmable_update: "\<not> trimmable (k, v) \<Longrightarrow> length (filter trimmable (AList.update k v d)) \<le> length (filter trimmable d)"
  by (induction d) auto

lemma dict_get_without: "dict_get k (without_key k' d) = (if k = k' then JNull else dict_get k d)"
  by (induction d) (auto simp: dict_get_def)

lemma sub_dict_update:
  "sub_dict k (AList.update k' v d) = (if k = k' then (case v of JObj d \<Rightarrow> d | _ \<Rightarrow> []) else sub_dict k d)"
  by (simp add: sub_dict_def dict_get_update)

lemma sub_dict_without: "sub_dict k (without_key k' d) = (if k = k' then [] else sub_dict k d)"
  by (simp add: sub_dict_def dict_get_without)

lemma filter_without:
  assumes "(k, v) \<in> set d" "trimmable (k, v)"
  shows "length (filter trimmable (without_key k d)) < length (filter trimmable d)"
proof -
  have sub: "filter trimmable (without_key k d) = filter (\<lambda>(k', _). k' \<noteq> k) (filter trimmable d)"
    by (simp add: conj_commute)
  have "(k, v) \<in> set (filter trimmable d)" using assms by simp
  then have "length (filter (\<lambda>(k', _). k' \<noteq> k) (filter trimmable d)) < length (filter trimmable d)"
    by (intro length_filter_less [of "(k, v)"]) auto
  then show ?thesis by (simp only: sub)
qed

lemma filter_without_le: "length (filter trimmable (without_key k d)) \<le> length (filter trimmable d)"
  by (induction d) auto

lemma first_longest_mem: "first_longest best xs = Some x \<Longrightarrow> best = Some x \<or> x \<in> set xs"
  by (induction best xs rule: first_longest.induct) (auto split: option.splits if_splits)

lemma largest_place:
  assumes "largest_trimmable_text r = Some p"
  obtains k v where "p = In_Record k" "(k, v) \<in> set r" "trimmable (k, v)"
  | k v where "p = In_Source k" "(k, v) \<in> set (sub_dict ''source'' r)" "trimmable (k, v)"
  | k v where "p = In_Item k" "(k, v) \<in> set (sub_dict ''item'' r)" "trimmable (k, v)"
proof -
  obtain n where "(p, n) \<in> set (trimmable_places r)"
    using assms first_longest_mem [of None] by (auto simp: largest_trimmable_text_def)
  then show ?thesis using that by (auto simp: trimmable_places_def)
qed

lemma note_omitted_weight: "trim_weight (note_omitted k r) \<le> trim_weight r"
proof -
  have "\<not> trimmable (''omitted_fields'', JArr vs)" for vs by simp
  then show ?thesis
    using trimmable_update [of "''omitted_fields''"]
    by (simp add: trim_weight_def weight_parts note_omitted_def Let_def sub_dict_update)
qed

lemma pop_place_weight:
  assumes "largest_trimmable_text r = Some p"
  shows "trim_weight (pop_place p r) < trim_weight r"
  using assms
proof (cases rule: largest_place)
  case (1 k v)
  have "length (filter trimmable (sub_dict x (without_key k r))) \<le> length (filter trimmable (sub_dict x r))" for x
    by (simp add: sub_dict_without)
  then show ?thesis
    using 1 filter_without [OF 1(2,3)] by (simp add: trim_weight_def weight_parts add_less_le_mono add_le_mono)
next
  case (2 k v)
  then show ?thesis
    using filter_without [OF 2(2,3)] trimmable_update [of "''source''" "JObj (without_key k (sub_dict ''source'' r))" r]
    by (simp add: trim_weight_def weight_parts sub_dict_update)
next
  case (3 k v)
  then show ?thesis
    using filter_without [OF 3(2,3)] trimmable_update [of "''item''" "JObj (without_key k (sub_dict ''item'' r))" r]
    by (simp add: trim_weight_def weight_parts sub_dict_update)
qed

lemma trim_record_weight: "largest_trimmable_text r = Some p \<Longrightarrow> trim_weight (trim_record p r) < trim_weight r"
  unfolding trim_record_def using pop_place_weight note_omitted_weight by (metis le_less_trans)

lemma trim_last_weight: "trim_last rs = Some rs' \<Longrightarrow> sum_list (map trim_weight rs') < sum_list (map trim_weight rs)"
  by (induction rs arbitrary: rs') (auto split: option.splits dest: trim_record_weight)

lemma butlast_weight: "rs \<noteq> [] \<Longrightarrow> sum_list (map trim_weight (butlast rs)) < sum_list (map trim_weight rs)"
  by (induction rs rule: rev_induct) (auto simp: trim_weight_def)

text \<open>\<open>_fit_evidence_payload\<close>: the evidence and the ids of dropped records after the loop.\<close>

definition over_budget :: "nat \<Rightarrow> string \<Rightarrow> string list \<Rightarrow> dict list \<Rightarrow> json list \<Rightarrow> bool" where
  "over_budget max_chars status missing evidence truncated \<longleftrightarrow>
     evidence \<noteq> [] \<and> max_chars < payload_size (JObj (evidence_payload status evidence missing truncated))"

function fit_evidence :: "nat \<Rightarrow> string \<Rightarrow> string list \<Rightarrow> dict list \<Rightarrow> json list \<Rightarrow> dict list \<times> json list" where
  "fit_evidence max_chars status missing evidence truncated =
     (if over_budget max_chars status missing evidence truncated
      then
        (case trim_last evidence of
           Some evidence \<Rightarrow> fit_evidence max_chars status missing evidence truncated
         | None \<Rightarrow>
             fit_evidence max_chars status missing (butlast evidence)
               (truncated @ [dict_get ''evidence_id'' (last evidence)]))
      else (evidence, truncated))"
  by pat_completeness auto

termination
  by (relation "measure (\<lambda>(_, _, _, evidence, _). sum_list (map trim_weight evidence))")
     (auto simp: over_budget_def intro: trim_last_weight butlast_weight)

declare fit_evidence.simps [simp del]

section \<open>The tool\<close>

definition EVIDENCE_TRUNCATED_MESSAGE :: string where
  "EVIDENCE_TRUNCATED_MESSAGE =
     ''Part of the retrieved evidence did not fit this answer's evidence budget and was '' @
     ''omitted. Request fewer evidence IDs at a time if more detail is needed.''"

definition invalid_request :: "string \<Rightarrow> dict" where
  "invalid_request message =
     [(''status'', JStr ''invalid_arguments''), (''message'', JStr message), (''evidence'', JArr []), (''missing_ids'', JArr [])]"

text \<open>
  A record of type \<open>web\<close> is stored with its \<open>source\<close>.  A reference record has no \<open>source\<close>; one of type
  \<open>web\<close> would make the code raise \<open>KeyError\<close>, which no caller reaches (they pass the names of the two lookups),
  and here it is given an empty one.
\<close>

definition strip_page :: "dict \<Rightarrow> dict" where
  "strip_page r =
     (if is_web r
      then AList.update ''source''
             (JObj (without_key ''image_candidates'' (without_key ''page_text'' (sub_dict ''source'' r)))) r
      else r)"

definition requested_payload :: "evidence_store \<Rightarrow> string list \<Rightarrow> int \<Rightarrow> dict" where
  "requested_payload st ids max_chars =
     (let evidence = map strip_page (List.map_filter (map_of (es_records st)) ids);
          missing_ids = filter (\<lambda>i. i \<notin> fst ` set (es_records st)) ids;
          status = (if evidence = [] then ''not_found'' else if missing_ids \<noteq> [] then ''partial'' else ''ok'');
          plain = evidence_payload status evidence missing_ids []
      in if max_chars \<le> 0 \<or> \<not> over_budget (nat max_chars) status missing_ids evidence [] then plain
         else
           (case fit_evidence (nat max_chars) status missing_ids evidence [] of
              (fitted, truncated) \<Rightarrow>
                evidence_payload ''evidence_truncated'' fitted missing_ids truncated @
                [(''message'', JStr EVIDENCE_TRUNCATED_MESSAGE)]))"

text \<open>
  Arguments that \<open>json.loads\<close> cannot read are answered as invalid; a text nested too deeply for Python's recursion
  limit, whose \<open>RecursionError\<close> the code lets pass, is not told apart from them.
\<close>

definition execute_get_evidence :: "evidence_store \<Rightarrow> json \<Rightarrow> int \<Rightarrow> dict" where
  "execute_get_evidence st arguments max_chars =
     (case (case arguments of JStr s \<Rightarrow> (case loads s of None \<Rightarrow> JNull | Some v \<Rightarrow> v) | v \<Rightarrow> v) of
        JObj args \<Rightarrow>
          (case validate_evidence_ids (dict_get ''evidence_ids'' args) (es_max_ids st) of
             Inl message \<Rightarrow> invalid_request message
           | Inr ids \<Rightarrow> requested_payload st ids max_chars)
      | _ \<Rightarrow> invalid_request ''Tool arguments must be a JSON object.'')"

end
