(* ===== verification/Evidence_Reading.thy ===== *)
theory Evidence_Reading
  imports Evidence_Store
begin

text \<open>
  What the evidence store promises: a record is stored under its own id, a request accounts for every id it names,
  whatever had to be dropped, and a pasted page can be read by its id.  The answer itself may exceed its budget.
\<close>

section \<open>Records and ids\<close>

abbreviation id_of :: "dict \<Rightarrow> json" where
  "id_of r \<equiv> dict_get ''evidence_id'' r"

definition store_ok :: "evidence_store \<Rightarrow> bool" where
  "store_ok st \<longleftrightarrow> (\<forall>k r. map_of (es_records st) k = Some r \<longrightarrow> id_of r = JStr k)"

lemma store_ok_logs [simp]:
  "store_ok (st\<lparr>es_web_results := x\<rparr>) = store_ok st" "store_ok (st\<lparr>es_reference_payloads := y\<rparr>) = store_ok st"
  by (simp_all add: store_ok_def)

lemma put_record_ok: "store_ok st \<Longrightarrow> id_of r = JStr k \<Longrightarrow> store_ok (put_record k r st)"
  by (auto simp: store_ok_def put_record_def update_conv' split: if_splits)

lemma merge_web_record_id: "id_of (merge_web_record K old new) = id_of new"
  by (simp add: merge_web_record_def Let_def dict_get_update split: json.splits)

lemma web_record_id: "id_of (web_record K result s) = JStr (sl_web_id K (ws_url s))"
  by (simp add: web_record_def Let_def dict_get_def)

lemma keep_metadata_id: "key \<noteq> ''evidence_id'' \<Longrightarrow> id_of (keep_metadata K old key r) = id_of r"
  by (simp add: keep_metadata_def dict_get_update)

lemma add_web_sources_ok: "store_ok st \<Longrightarrow> store_ok (snd (add_web_sources K result sources st))"
proof (induction sources arbitrary: st)
  case (Cons s sources)
  define r where "r = (case map_of (es_records st) (sl_web_id K (ws_url s)) of
      Some old \<Rightarrow> if is_web old then merge_web_record K old (web_record K result s) else web_record K result s
    | None \<Rightarrow> web_record K result s)"
  have "id_of r = JStr (sl_web_id K (ws_url s))"
    by (auto simp: r_def merge_web_record_id web_record_id split: option.splits)
  then have "store_ok (put_record (sl_web_id K (ws_url s)) r st)" using Cons.prems by (rule put_record_ok [rotated])
  then show ?case using Cons.IH by (simp add: Let_def r_def [symmetric] case_prod_unfold)
qed simp

lemma add_web_result_ok: "store_ok st \<Longrightarrow> store_ok (snd (add_web_result K result st))"
  by (cases result) (simp_all add: add_web_result_def add_web_sources_ok)

lemma add_pasted_page_ok:
  assumes "store_ok st"
  shows "store_ok (snd (add_pasted_page K url title snippet fetched_at st))"
proof -
  have fresh: "id_of (pasted_record K u title snippet fetched_at) = JStr (sl_web_id K u)" for u
    by (simp add: pasted_record_def Let_def dict_get_def)
  show ?thesis
    using assms
    by (auto simp: add_pasted_page_def Let_def fresh merge_web_record_id keep_metadata_id intro!: put_record_ok split: option.splits)
qed

lemma add_items_ok: "store_ok st \<Longrightarrow> store_ok (snd (add_items K source_type query meta items st))"
proof (induction K source_type query meta items st rule: add_items.induct)
  case (2 K source_type query meta grp item items st)
  have "id_of (reference_record K source_type query grp meta item) = JStr (reference_identity K source_type grp item)"
    by (simp add: reference_record_def Let_def dict_get_def)
  then show ?case using 2 by (simp add: Let_def put_record_ok case_prod_unfold)
qed simp_all

lemma add_reference_payload_ok: "store_ok st \<Longrightarrow> store_ok (snd (add_reference_payload K payload source_type query st))"
  by (cases payload) (simp_all add: add_reference_payload_def add_items_ok)

datatype store_op =
    Add_Web "web_result option"
  | Add_Pasted string string string string
  | Add_Reference json string string

fun store_step :: "store_lib \<Rightarrow> store_op \<Rightarrow> evidence_store \<Rightarrow> evidence_store" where
  "store_step K (Add_Web result) st = snd (add_web_result K result st)"
| "store_step K (Add_Pasted url title snippet fetched_at) st = snd (add_pasted_page K url title snippet fetched_at st)"
| "store_step K (Add_Reference payload source_type query) st = snd (add_reference_payload K payload source_type query st)"

lemma store_step_ok: "store_ok st \<Longrightarrow> store_ok (store_step K op st)"
  by (cases op) (simp_all add: add_web_result_ok add_pasted_page_ok add_reference_payload_ok)

lemma store_run_ok:
  assumes "new_evidence_store n = Inr st"
  shows "store_ok (fold (store_step K) ops st)"
proof -
  have "store_ok st" using assms by (auto simp: new_evidence_store_def store_ok_def split: if_splits)
  then show ?thesis by (induction ops arbitrary: st) (auto simp: store_step_ok)
qed

section \<open>Fitting\<close>

lemma trim_record_id:
  assumes "largest_trimmable_text r = Some p"
  shows "id_of (trim_record p r) = id_of r"
  using assms
proof (cases rule: largest_place)
  case (1 k v)
  then have "k \<noteq> ''evidence_id''" by (cases v) (auto simp: EVIDENCE_PROTECTED_FIELDS_def)
  then show ?thesis using 1 by (simp add: trim_record_def note_omitted_def Let_def dict_get_update dict_get_without)
qed (simp_all add: trim_record_def note_omitted_def Let_def dict_get_update)

lemma trim_last_ids: "trim_last rs = Some rs' \<Longrightarrow> map id_of rs' = map id_of rs"
  by (induction rs arbitrary: rs') (auto split: option.splits simp: trim_record_id)

text \<open>The loop ends within the budget or without evidence, and only moves ids from the evidence to the dropped ones.\<close>

lemma fit_evidence_ok:
  "fit_evidence cap status missing evidence truncated = (fitted, truncated') \<Longrightarrow>
   \<not> over_budget cap status missing fitted truncated' \<and>
   (\<exists>dropped. truncated' = truncated @ rev dropped \<and> map id_of evidence = map id_of fitted @ dropped)"
proof (induction cap status missing evidence truncated rule: fit_evidence.induct)
  case (1 cap status missing evidence truncated)
  note run = 1(3) [unfolded fit_evidence.simps [of cap status missing evidence truncated]]
  show ?case
  proof (cases "over_budget cap status missing evidence truncated")
    case False
    then show ?thesis using run by auto
  next
    case True
    then have ne: "evidence \<noteq> []" by (simp add: over_budget_def)
    show ?thesis
    proof (cases "trim_last evidence")
      case (Some rs)
      then show ?thesis using 1(2) [OF True Some] run True trim_last_ids [OF Some] by simp
    next
      case None
      then obtain dropped where d: "truncated' = (truncated @ [id_of (last evidence)]) @ rev dropped"
        "map id_of (butlast evidence) = map id_of fitted @ dropped" "\<not> over_budget cap status missing fitted truncated'"
        using 1(1) [OF True None] run True by auto
      have "evidence = butlast evidence @ [last evidence]" using ne by simp
      from arg_cong [OF this, of "map id_of"]
      have "map id_of evidence = map id_of (butlast evidence) @ [id_of (last evidence)]" by (simp only: map_append list.map)
      then show ?thesis using d by (intro conjI exI [of _ "dropped @ [id_of (last evidence)]"]) auto
    qed
  qed
qed

section \<open>Answers\<close>

definition answer_ids :: "dict \<Rightarrow> json list" where
  "answer_ids d = map (json_get ''evidence_id'') (json_items (dict_get ''evidence'' d)) @
     json_items (dict_get ''truncated_ids'' d) @ json_items (dict_get ''missing_ids'' d)"

lemma payload_answer_ids:
  "answer_ids (evidence_payload status evidence missing truncated @ extra) = map id_of evidence @ truncated @ map JStr missing"
  if "extra = [] \<or> extra = [(''message'', m)]"
  using that by (auto simp: answer_ids_def evidence_payload_def dict_get_def map_add_def comp_def)

lemma strip_page_id: "id_of (strip_page r) = id_of r"
  by (simp add: strip_page_def dict_get_update)

lemma found_ids:
  assumes "store_ok st"
  shows "map id_of (map strip_page (List.map_filter (map_of (es_records st)) ids)) =
    map JStr (filter (\<lambda>i. i \<in> fst ` set (es_records st)) ids)"
proof (induction ids)
  case (Cons i ids)
  have "map_of (es_records st) i = None \<longleftrightarrow> i \<notin> fst ` set (es_records st)" by (simp add: map_of_eq_None_iff)
  then show ?case
    using Cons assms by (cases "map_of (es_records st) i") (auto simp: List.map_filter_def store_ok_def strip_page_id)
qed (simp add: List.map_filter_def)

lemma requested_payload_ids:
  assumes "store_ok st"
  shows "set (answer_ids (requested_payload st ids max_chars)) = JStr ` set ids"
proof -
  define evidence where "evidence = map strip_page (List.map_filter (map_of (es_records st)) ids)"
  define missing where "missing = filter (\<lambda>i. i \<notin> fst ` set (es_records st)) ids"
  define status where "status = (if evidence = [] then ''not_found'' else if missing \<noteq> [] then ''partial'' else ''ok'')"
  have all: "set (map id_of evidence) \<union> JStr ` set missing = JStr ` set ids"
    unfolding evidence_def missing_def found_ids [OF assms] by auto
  show ?thesis
  proof (cases "max_chars \<le> 0 \<or> \<not> over_budget (nat max_chars) status missing evidence []")
    case True
    then have "requested_payload st ids max_chars = evidence_payload status evidence missing [] @ []"
      unfolding requested_payload_def evidence_def [symmetric] missing_def [symmetric] Let_def status_def [symmetric] by simp
    then show ?thesis using payload_answer_ids [of "[]" undefined status evidence missing "[]"] all by simp
  next
    case False
    obtain fitted truncated where f: "fit_evidence (nat max_chars) status missing evidence [] = (fitted, truncated)" by fastforce
    have run: "requested_payload st ids max_chars =
        evidence_payload ''evidence_truncated'' fitted missing truncated @ [(''message'', JStr EVIDENCE_TRUNCATED_MESSAGE)]"
      using False f
      unfolding requested_payload_def evidence_def [symmetric] missing_def [symmetric] Let_def status_def [symmetric] by simp
    obtain dropped where "truncated = rev dropped" "map id_of evidence = map id_of fitted @ dropped"
      using fit_evidence_ok [OF f] by auto
    then have "set (map id_of evidence) = set (map id_of fitted) \<union> set truncated" by (simp only: set_append set_rev)
    moreover have "answer_ids (requested_payload st ids max_chars) = map id_of fitted @ truncated @ map JStr missing"
      unfolding run by (rule payload_answer_ids) (rule disjI2, rule refl)
    ultimately show ?thesis using all by (simp only: set_append set_map Un_assoc)
  qed
qed

text \<open>
  C21: An answer of \<open>get_evidence\<close> accounts for the ids that were asked for, whatever the budget and whatever was stored: each
  is the id of a record in the answer, of a record that was left out for lack of space, or listed as missing, and
  the answer names no other id.
\<close>

theorem evidence_ids_survive:
  assumes "new_evidence_store n = Inr st"
    and "validate_evidence_ids (dict_get ''evidence_ids'' args) (es_max_ids (fold (store_step K) ops st)) = Inr ids"
  shows "set (answer_ids (execute_get_evidence (fold (store_step K) ops st) (JObj args) max_chars)) = JStr ` set ids"
  using requested_payload_ids [OF store_run_ok [OF assms(1)]] assms(2) by (simp add: execute_get_evidence_def)

text \<open>A library for examples, and a store with one memo.\<close>

definition sample_lib :: store_lib where
  "sample_lib = \<lparr>sl_urls = sample_urls, sl_web_id = \<lambda>url. ''src_'' @ take 20 url, sl_sha256 = \<lambda>s. replicate 64 (CHR ''0''),
     sl_str = \<lambda>_. []\<rparr>"

definition sample_store :: evidence_store where
  "sample_store = \<lparr>es_max_ids = 8, es_records = [], es_web_results = [], es_reference_payloads = []\<rparr>"

definition memo_store :: evidence_store where
  "memo_store =
     snd (add_reference_payload sample_lib
       (JObj [(''memos'', JArr [JObj [(''id'', JInt 1), (''content'', JStr (replicate 80 (CHR ''x'')))]])]) ''memo'' [] sample_store)"

definition memo_request :: json where
  "memo_request = JObj [(''evidence_ids'', JArr [JStr ''ref_00000000000000000000''])]"

theorem evidence_ids_survive_witness:
  "set (answer_ids (execute_get_evidence (fold (store_step sample_lib) [Add_Pasted ''http://a/'' ''t'' ''s'' ''now''] sample_store)
     (JObj [(''evidence_ids'', JArr [JStr ''src_http://a/'', JStr ''none''])]) 300)) = JStr ` {''src_http://a/'', ''none''}"
proof -
  have "validate_evidence_ids (dict_get ''evidence_ids'' [(''evidence_ids'', JArr [JStr ''src_http://a/'', JStr ''none''])])
      (es_max_ids (fold (store_step sample_lib) [Add_Pasted ''http://a/'' ''t'' ''s'' ''now''] sample_store)) =
    Inr [''src_http://a/'', ''none'']"
    by code_simp
  moreover have "new_evidence_store 8 = Inr sample_store" by (simp add: new_evidence_store_def sample_store_def)
  ultimately show ?thesis using evidence_ids_survive [of 8 sample_store] by fastforce
qed

section \<open>The size of an answer\<close>

lemma join_with_snoc: "xs \<noteq> [] \<Longrightarrow> join_with sep (xs @ [y]) = join_with sep xs @ sep @ y"
  by (induction sep xs rule: join_with.induct) auto

lemma payload_size_snoc:
  "kvs \<noteq> [] \<Longrightarrow> payload_size (JObj (kvs @ [(k, v)])) =
     payload_size (JObj kvs) + length (dumps_string k) + length (dumps v) + 4"
  by (simp add: payload_size_def join_with_snoc)

lemma payload_size_Cons:
  "kvs \<noteq> [] \<Longrightarrow> payload_size (JObj ((k, v) # kvs)) =
     payload_size (JObj kvs) + length (dumps_string k) + length (dumps v) + 4"
  by (cases kvs) (simp_all add: payload_size_def)

lemma evidence_payload_status:
  "payload_size (JObj (evidence_payload a fitted missing truncated)) + length (dumps_string b) =
   payload_size (JObj (evidence_payload b fitted missing truncated)) + length (dumps_string a)"
  by (simp add: evidence_payload_def payload_size_Cons)

text \<open>What the status and the notice of left-out evidence add to a fitted payload.\<close>

definition notice_size :: "string \<Rightarrow> nat" where
  "notice_size status =
     length (dumps_string ''evidence_truncated'') - length (dumps_string status) +
     length (dumps_string ''message'') + length (dumps_string EVIDENCE_TRUNCATED_MESSAGE) + 4"

lemma notice_sizes: "notice_size ''ok'' = 183" "notice_size ''partial'' = 178"
  by code_simp+

lemma noticed_size:
  assumes "length (dumps_string status) \<le> length (dumps_string ''evidence_truncated'')"
  shows "payload_size (JObj (evidence_payload ''evidence_truncated'' fitted missing truncated @
       [(''message'', JStr EVIDENCE_TRUNCATED_MESSAGE)])) =
     payload_size (JObj (evidence_payload status fitted missing truncated)) + notice_size status"
proof -
  have "evidence_payload ''evidence_truncated'' fitted missing truncated \<noteq> []" by (simp add: evidence_payload_def)
  then show ?thesis
    using evidence_payload_status [of "''evidence_truncated''" fitted missing truncated status] assms
    by (simp add: payload_size_snoc notice_size_def)
qed

text \<open>
  C37: By how much an answer exceeds its budget.  When \<open>get_evidence\<close> leaves evidence out, the payload is first fitted
  to the budget under its old status (or until no record is left), and then the longer status and the notice are added.
  The answer is exactly 183 characters longer than the fitted payload, or 178 if ids were missing as well.  So an answer
  that still holds a record stays within the budget plus this amount, and exceeds the budget exactly when
  the fitting left less room than that.
\<close>

theorem evidence_answer_over_budget:
  assumes "validate_evidence_ids (dict_get ''evidence_ids'' args) (es_max_ids st) = Inr ids"
    and "d = execute_get_evidence st (JObj args) max_chars"
    and "dict_get ''status'' d = JStr ''evidence_truncated''"
  shows "\<exists>status fitted missing truncated overhead room.
     d = evidence_payload ''evidence_truncated'' fitted missing truncated @ [(''message'', JStr EVIDENCE_TRUNCATED_MESSAGE)] \<and>
     (status, overhead) = (if missing = [] then (''ok'', 183) else (''partial'', 178)) \<and>
     room = max_chars - int (payload_size (JObj (evidence_payload status fitted missing truncated))) \<and>
     int (payload_size (JObj d)) = max_chars - room + overhead \<and>
     (fitted \<noteq> [] \<longrightarrow> 0 \<le> room \<and> int (payload_size (JObj d)) \<le> max_chars + overhead) \<and>
     (max_chars < int (payload_size (JObj d)) \<longleftrightarrow> room < overhead)"
proof -
  define evidence where "evidence = map strip_page (List.map_filter (map_of (es_records st)) ids)"
  define missing where "missing = filter (\<lambda>i. i \<notin> fst ` set (es_records st)) ids"
  define status where "status = (if evidence = [] then ''not_found'' else if missing \<noteq> [] then ''partial'' else ''ok'')"
  have run: "d = requested_payload st ids max_chars" using assms(1,2) by (simp add: execute_get_evidence_def)
  note run = run [unfolded requested_payload_def Let_def, folded evidence_def missing_def, folded status_def]
  have over: "\<not> (max_chars \<le> 0 \<or> \<not> over_budget (nat max_chars) status missing evidence [])"
  proof
    assume "max_chars \<le> 0 \<or> \<not> over_budget (nat max_chars) status missing evidence []"
    then have "d = evidence_payload status evidence missing []" using run by simp
    then have "status = ''evidence_truncated''" using assms(3) by (simp add: evidence_payload_def dict_get_def)
    then show False by (simp add: status_def split: if_splits)
  qed
  obtain fitted truncated where f: "fit_evidence (nat max_chars) status missing evidence [] = (fitted, truncated)" by fastforce
  have d: "d = evidence_payload ''evidence_truncated'' fitted missing truncated @ [(''message'', JStr EVIDENCE_TRUNCATED_MESSAGE)]"
    using run over f by simp
  have st: "status = (if missing = [] then ''ok'' else ''partial'')" using over by (auto simp: status_def over_budget_def)
  let ?size = "payload_size (JObj (evidence_payload status fitted missing truncated))"
  let ?overhead = "if missing = [] then 183 else 178"
  have "length (dumps_string status) \<le> length (dumps_string ''evidence_truncated'')" unfolding st by (simp add: dumps_string_def escape_char_def)
  from noticed_size [OF this] have size: "int (payload_size (JObj d)) = int ?size + ?overhead"
    unfolding d by (simp add: st notice_sizes)
  have fits: "int ?size \<le> max_chars" if "fitted \<noteq> []"
    using fit_evidence_ok [OF f] that over by (auto simp: over_budget_def)
  show ?thesis
    by (rule exI [of _ status], rule exI [of _ fitted], rule exI [of _ missing], rule exI [of _ truncated],
        rule exI [of _ ?overhead], rule exI [of _ "max_chars - int ?size"])
       (use d size fits st in auto)
qed

text \<open>One memo and a budget of 300: its content is dropped, its record stays, and the notice exceeds the budget.\<close>

theorem evidence_answer_over_budget_witness:
  "300 < payload_size (JObj (execute_get_evidence memo_store memo_request 300)) \<and>
   json_items (dict_get ''evidence'' (execute_get_evidence memo_store memo_request 300)) \<noteq> [] \<and>
   payload_size (JObj (execute_get_evidence memo_store memo_request 300)) \<le> 300 + 183"
proof -
  let ?args = "[(''evidence_ids'', JArr [JStr ''ref_00000000000000000000''])]"
  let ?d = "execute_get_evidence memo_store (JObj ?args) 300"
  have ids: "validate_evidence_ids (dict_get ''evidence_ids'' ?args) (es_max_ids memo_store) = Inr [''ref_00000000000000000000'']"
    by code_simp
  have status: "dict_get ''status'' ?d = JStr ''evidence_truncated''" by code_simp
  have some: "json_items (dict_get ''evidence'' ?d) \<noteq> []" by code_simp
  have "300 < payload_size (JObj ?d)" by code_simp
  moreover from evidence_answer_over_budget [OF ids refl status] some
  have "int (payload_size (JObj ?d)) \<le> 300 + 183"
    by (auto simp: evidence_payload_def dict_get_def split: if_splits)
  ultimately show ?thesis using some by (simp add: memo_request_def)
qed

section \<open>Pasted pages\<close>

text \<open>
  A pasted page can be read by its id: the tool \<open>read_web_page\<close> finds the record of a URL that was not known before and
  takes the canonical form of this URL from it.
\<close>

lemma pasted_page_readable:
  assumes "canonicalize_url (sl_urls K) (py_strip url) = Some canonical" "py_strip url \<noteq> []"
    and "map_of (es_records st) (sl_web_id K (py_strip url)) = None" "canonical \<noteq> []"
    and "py_strip (sl_web_id K (py_strip url)) = sl_web_id K (py_strip url)"
  shows "evidence_url (sl_urls K)
      (map_option JObj (get_evidence_record (snd (add_pasted_page K url title snippet fetched_at st)) (sl_web_id K (py_strip url)))) =
    Inr canonical"
  using assms
  by (simp add: add_pasted_page_def Let_def get_evidence_record_def put_record_def update_conv' evidence_url_def pasted_record_def
      source_dict_def)

end
