(* ===== verification/Spec2Isabelle.thy ===== *)
theory Spec2Isabelle
  imports Quota Usage_Limits Generation_Service Ephemeral_Store Approval_Safety Oauth_Safety Session_Safety
    Email_Sign_In Agent_Safety Chat_Shares Image_Proxy_Safety Pasted_Urls Evidence_Reading
begin

text \<open>
  \<^bold>\<open>ChatCore: a chat server's admission control, sign-in, sessions, chat history, generation jobs, agent loop, tool
  approvals and fetching of web pages.\<close>

  \<^bold>\<open>The program.\<close>  A browser request is given its session (\<open>services/session_middleware.py\<close>); a user signs in
  with a mailed code (\<open>services/email_auth_transaction.py\<close>, \<open>blueprints/auth_email.py\<close>,
  \<open>blueprints/verification.py\<close>), an MCP client through OAuth (\<open>services/mcp_oauth.py\<close>).  A chat request is
  counted against limits (\<open>services/auth_limits.py\<close>, \<open>services/llm_daily_limit.py\<close>,
  \<open>services/usage_limits.py\<close>); an admitted one starts a generation job (\<open>services/chat_generation.py\<close>) that
  runs in a thread pool (\<open>services/chat_generation_executor.py\<close>), appends events to its log
  (\<open>services/chat_generation_job_base.py\<close>) and mirrors them in Redis so that other workers can follow or
  stop it (\<open>services/chat_generation_coordinator.py\<close>).  The job runs the agent loop
  (\<open>services/chat_generation_agent_loop.py\<close>): model decisions and tools within a budget
  (\<open>services/chat_agent_budget.py\<close>), writes that the user has to approve
  (\<open>services/chat_tool_approval_service.py\<close>), and an answer that is continued when it is cut off
  (\<open>services/chat_answer_continuation.py\<close>).  What the model consumed is priced and added to a ledger
  (\<open>services/usage_pricing.py\<close>, \<open>services/usage_metering.py\<close>, \<open>services/repositories/usage_repository.py\<close>),
  which the usage limits read again.  Signed-in users keep their rooms in a tree of messages with share links
  (\<open>services/repositories/chat_repository.py\<close>), guests in \<open>services/ephemeral_store.py\<close>.  Pages behind pasted URLs are
  fetched (\<open>services/url_fetcher.py\<close>), put before the message (\<open>services/chat_url_context.py\<close>) and read on by a tool
  (\<open>services/chat_web_page_reader.py\<close>); images reach a generated UI through signed paths
  (\<open>services/web_search_image_proxy.py\<close>).

  \<^bold>\<open>How it is modelled.\<close>  Operations are functions on explicit state: the Redis server, a table, a process's
  dictionaries, a request's scope.  Whatever an operation meets from outside is an argument: clock readings,
  random values, whether a Redis call is delivered, lost or answered late, what the model or a tool comes up
  with.  So the theorems hold for every such behaviour.  Redis is a locale (\<open>redis_server\<close>: any server whose
  commands act on its view like the reference keyspace), hash functions and cookie signatures are parameters.
  Where several workers or requests interleave, a step function over a system state runs one atomic action per
  step (\<open>code_step\<close>, \<open>oauth_step\<close>, \<open>approval_step\<close>, \<open>session_step\<close>, \<open>chat_step\<close>, \<open>proxy_step\<close>, job and lock
  steps) and the theorem is about every
  sequence of steps.

  \<^bold>\<open>Foundations.\<close>
  \<^item> \<open>Prelude\<close>: strings, integers and time as Python has them.  Time is counted in microseconds.
  \<^item> \<open>Redis_Server\<close>: the Redis commands the program sends, as functions on a map from keys to values
    with expiry, and the locale \<open>redis_server\<close> with the laws the clients rely on.
  \<^item> \<open>Json\<close>: \<open>json.dumps\<close> and \<open>json.loads\<close> on the values the program stores, with their round trip.
  \<^item> \<open>Tables\<close>: database tables as lists of rows, selects, updates, transactions and savepoints.
  \<^item> \<open>Env_Settings\<close>, \<open>Calendar\<close>, \<open>Timestamps\<close>: \<open>services/env_settings.py\<close>, the Gregorian calendar in Japan
    time, ISO time stamps.

  \<^bold>\<open>Limits and metering.\<close>
  \<^item> \<open>Client_Address\<close>, \<open>Admission\<close>, \<open>Rate_Limit\<close>, \<open>Quota\<close>: the address a request is counted against, the counting
    contract (the locale \<open>counting_limiter\<close>), \<open>AuthLimitService\<close> and \<open>LlmDailyLimitService\<close>.  Shown: exactly
    the first \<open>limit\<close> attempts of a window or day are admitted; Redis and memory admit the same attempts.
  \<^item> \<open>Usage_Pricing\<close>, \<open>Usage_Ledger\<close>, \<open>Usage_Limits\<close>: prices, the daily table (a refinement of the log of calls)
    and the admission decision, exact from the metered calls and demo codes on.

  \<^bold>\<open>Generation jobs.\<close>
  \<^item> \<open>Coordinator\<close>: locks, reservations, event lists, stop requests and the distributed stream.  Shown: one
    owner at a time, late owners are harmless, a follower of an in-order channel receives a prefix of the log and,
    when it returns, all of it, unless the generation ended before its first activity check.
  \<^item> \<open>Generation_Job\<close>, \<open>Generation_Executor\<close>, \<open>Generation_Service\<close>: the job's log and its end, the pool, the
    service that starts, finds, stops and forgets jobs.  Shown: one end event and one save per job, a failed
    start leaves nothing behind as long as Redis answers and the stop-request listener starts (else nothing is
    undone), one unfinished job per room among the jobs on file.
  \<^item> \<open>Agent_Budget\<close>, \<open>Agent_Loop\<close>, \<open>Agent_Safety\<close>: the decision loop of a turn.  \<open>agent_loop\<close> is a
    \<open>partial_function (option)\<close> over an infinite supply of model behaviour; shown: it always returns, within
    the budget, keeps its last decision for the answer, and runs no write silently after a tool has handed
    external content to the model (logged by the tools, independently of the flag that guards writes).
  \<^item> \<open>Answer_Continuation\<close>: continuing a cut-off answer.  Shown: streaming equals a reference on the whole text,
    the loop ends within the configured requests (its termination proof), each carrying more of the answer.
  \<^item> \<open>Ephemeral_Store\<close>: guest rooms with optimistic updates (eight attempts, as in the code).

  \<^bold>\<open>Sign-in and permission.\<close>
  \<^item> \<open>Account_Sessions\<close>, \<open>Session_Middleware\<close>, \<open>Session_Safety\<close>: browser sessions, parked accounts, sign-in,
    sign-out, switching.  Shown: a signed-out session stays out (requests that had switched to it or could not
    read Redis excepted), a stale save does not overwrite a newer one,
    a sign-in changes the session id, sessions are restored as saved.
  \<^item> \<open>Email_Auth\<close>, \<open>Email_Safety\<close>, \<open>Email_Routes\<close>, \<open>Email_Sign_In\<close>: mailed codes and their routes.  A check has three
    rounds, as in the code.  Shown: five guesses at most under any interleaving, at most one sign-in per code,
    answers as an abstract contract says, only the mailed code signs in.
  \<^item> \<open>Mcp_Oauth\<close>, \<open>Oauth_Safety\<close>: codes, tokens, grants and personal clients.  Shown: codes work once, access
    stays within consent, revoked connections are dead, consent leads to access.
  \<^item> \<open>Tool_Approvals\<close>, \<open>Approval_Safety\<close>: cards, grants, decisions and automatic runs.  Shown: a tool runs at most
    once per card, automatic runs were granted, what each decision does.

  \<^bold>\<open>Chat history.\<close>
  \<^item> \<open>Chat_History\<close>, \<open>Chat_Tree\<close>, \<open>Chat_Safety\<close>: rooms, the tree of messages with its active branch, and the invariant
    \<open>history_ok\<close> that every unit of work keeps.  Room ids compare by characters.
  \<^item> \<open>Chat_Branches\<close>, \<open>Chat_Shares\<close>.  Shown: the conversation shown is a path of the tree, a new turn is its new end,
    switching versions and back restores it, its pages are complete, cleaning up removes no answer, and a
    revoked link stays dead.

  \<^bold>\<open>Web pages.\<close>
  \<^item> \<open>Url_Parts\<close>, \<open>Charsets\<close>, \<open>Html_Document\<close>, \<open>Url_Fetch\<close>, \<open>Url_Safety\<close>: canonical URLs, encodings, the extractor as a
    fold over the parser's events, and fetching, with the resolver's and the servers' answers as arguments.
    Shown: connections go only to checked public addresses, except for a host that the HTTP library reads
    differently from \<open>urlsplit\<close>; pages and images keep their caps, images are
    whole, a body in UTF-8 is recognised wherever it is cut, slots come back.  Six hops are all the loop has.
  \<^item> \<open>Image_Proxy\<close>, \<open>Image_Proxy_Safety\<close>: signed paths and the cache.  Shown: paths of URLs of up to 3,000 bytes resolve to what they were issued
    for and only with the server's signature, the cache stays within its caps and counts its bytes, and it
    keeps requests from the origin.
  \<^item> \<open>Page_Reader\<close>, \<open>Page_Reading\<close>, \<open>Pasted_Urls\<close>: the tool that reads a page in ranges and the block of pasted
    pages.  Shown: the ranges make up the page, answers fit their budget, no page is fetched twice in a turn,
    and page text cannot leave its element of the block.
  \<^item> \<open>Evidence_Store\<close>, \<open>Evidence_Reading\<close>: the turn's evidence (\<open>services/chat_evidence_store.py\<close>) and the tool that hands it
    out, with a loop that drops texts until the answer fits.  Shown: it ends, every id that was asked for is
    accounted for, pasted pages can be read by their id; the answer exceeds the fitted payload by exactly its
    status and notice.

  \<^bold>\<open>Not modelled.\<close>  Network clients and provider libraries (LLM providers, web search, mail, Google OAuth, WebAuthn,
  encryption); text heuristics and regular expressions (state envelopes, write claims, citations, generated
  markup), which appear as parameters where a component branches on them; the assembly of requests and of the
  final message; memos, prompts, shared content and the context vault, which are queries behind the approval
  and chat routes; the memory facts and summaries of a room; HTTP parsing, logging, telemetry.  Floating point
  numbers appear as arguments (\<open>float_ops\<close>) or not at all.  Strings are over the byte alphabet, so what depends on
  Unicode tables (case, normalization, CJK) is an argument or outside the model.  The manifest lists every
  component with its status.

  \<^bold>\<open>What is left.\<close>  The context budget of requests (\<open>services/llm_context_budget.py\<close>), the planning of web searches,
  and the queries of shared content.
\<close>

end
